(* ===== verification/Sim_Prelude.thy ===== *)
theory Sim_Prelude
  imports Complex_Main "HOL-Library.List_Lexorder" "HOL-Library.Char_ord"
begin

text \<open>
  Shared vocabulary of the development: Python values, floats and exceptions, the
  decimal rendering of integers, splitting of strings, and the generic contracts
  (codecs, invariants of event-driven components) that the components interpret.

  \<^item> \<open>pyfloat\<close> is a Python float: a finite value, one of the two infinities, or NaN.
    Comparisons and the special cases of the arithmetic follow IEEE 754. Finite
    values are rationals and finite arithmetic is exact: rounding, overflow to
    infinity and the sign of zero are not modelled.
  \<^item> \<open>pyval\<close> is a dynamically typed Python value, as far as JSON and the
    \<open>isinstance\<close> checks of the code distinguish them. Dictionaries keep their
    insertion order.
  \<^item> \<open>exc\<close> is a raised exception with its message; \<open>'a res\<close> is the outcome of a
    call that may raise. Strings are lists of characters below code point 256.
\<close>

section \<open>Floats\<close>

datatype pyfloat = Fin rat | PInf | NInf | NaN

fun isfinite :: "pyfloat \<Rightarrow> bool" where
  "isfinite (Fin _) = True"
| "isfinite _ = False"

fun fneg :: "pyfloat \<Rightarrow> pyfloat" where
  "fneg (Fin a) = Fin (- a)"
| "fneg PInf = NInf"
| "fneg NInf = PInf"
| "fneg NaN = NaN"

fun fadd :: "pyfloat \<Rightarrow> pyfloat \<Rightarrow> pyfloat" where
  "fadd (Fin a) (Fin b) = Fin (a + b)"
| "fadd NaN _ = NaN"
| "fadd _ NaN = NaN"
| "fadd PInf NInf = NaN"
| "fadd NInf PInf = NaN"
| "fadd PInf _ = PInf"
| "fadd _ PInf = PInf"
| "fadd NInf _ = NInf"
| "fadd _ NInf = NInf"

definition fsub :: "pyfloat \<Rightarrow> pyfloat \<Rightarrow> pyfloat" where
  "fsub a b = fadd a (fneg b)"

fun flt :: "pyfloat \<Rightarrow> pyfloat \<Rightarrow> bool" where
  "flt (Fin a) (Fin b) = (a < b)"
| "flt NInf (Fin _) = True"
| "flt NInf PInf = True"
| "flt (Fin _) PInf = True"
| "flt _ _ = False"

fun feq :: "pyfloat \<Rightarrow> pyfloat \<Rightarrow> bool" where
  "feq (Fin a) (Fin b) = (a = b)"
| "feq PInf PInf = True"
| "feq NInf NInf = True"
| "feq _ _ = False"

definition fle :: "pyfloat \<Rightarrow> pyfloat \<Rightarrow> bool" where
  "fle a b = (flt a b \<or> feq a b)"

text \<open>The two-argument builtins keep their first argument unless the second one wins.\<close>

definition pymax :: "pyfloat \<Rightarrow> pyfloat \<Rightarrow> pyfloat" where
  "pymax a b = (if flt a b then b else a)"

definition pymin :: "pyfloat \<Rightarrow> pyfloat \<Rightarrow> pyfloat" where
  "pymin a b = (if flt b a then b else a)"

fun fsign :: "pyfloat \<Rightarrow> rat" where
  "fsign (Fin a) = sgn a"
| "fsign PInf = 1"
| "fsign NInf = - 1"
| "fsign NaN = 0"

fun fmul :: "pyfloat \<Rightarrow> pyfloat \<Rightarrow> pyfloat" where
  "fmul (Fin a) (Fin b) = Fin (a * b)"
| "fmul NaN _ = NaN"
| "fmul _ NaN = NaN"
| "fmul x y = (let s = fsign x * fsign y in if 0 < s then PInf else if s < 0 then NInf else NaN)"

text \<open>Division by a non-zero number; by zero Python raises, which callers rule out first.\<close>

fun fdiv :: "pyfloat \<Rightarrow> pyfloat \<Rightarrow> pyfloat" where
  "fdiv (Fin a) (Fin b) = Fin (a / b)"
| "fdiv NaN _ = NaN"
| "fdiv _ NaN = NaN"
| "fdiv (Fin _) _ = Fin 0"
| "fdiv x (Fin b) = (if (0 \<le> b) = (x = PInf) then PInf else NInf)"
| "fdiv _ _ = NaN"

definition fabs :: "pyfloat \<Rightarrow> pyfloat" where
  "fabs x = (if flt x (Fin 0) then fneg x else x)"

lemma isfinite_iff: "isfinite x \<longleftrightarrow> (\<exists>r. x = Fin r)"
  by (cases x) auto

lemma isfiniteE [elim]: "isfinite x \<Longrightarrow> (\<And>r. x = Fin r \<Longrightarrow> P) \<Longrightarrow> P"
  by (auto simp: isfinite_iff)

lemma fsub_simps [simp]:
  "fsub (Fin a) (Fin b) = Fin (a - b)"
  "fsub NaN x = NaN"
  "fsub PInf (Fin r) = PInf"
  "fsub (Fin r) NInf = PInf"
  "fsub (Fin r) PInf = NInf"
  by (simp_all add: fsub_def)

lemma fle_simps [simp]:
  "fle (Fin a) (Fin b) = (a \<le> b)"
  "fle NaN x = False"
  "fle (Fin a) PInf"
  "\<not> fle PInf (Fin a)"
  "fle NInf (Fin a)"
  "\<not> fle (Fin a) NInf"
  "\<not> fle (Fin a) NaN"
  by (auto simp: fle_def)

lemma flt_NaN [simp]: "\<not> flt NaN b" "\<not> flt a NaN"
  by (cases a; simp)+

section \<open>Python values, exceptions, outcomes\<close>

datatype pyval =
    PNone
  | PBool bool
  | PInt int
  | PFloat pyfloat
  | PStr string
  | PList "pyval list"
  | PDict "(string \<times> pyval) list"

datatype exc =
    ValueError string
  | KeyError string
  | RuntimeError string
  | TypeError string
  | TimeoutError string
  | OtherError string

type_synonym 'a res = "exc + 'a"

fun is_ok :: "'a res \<Rightarrow> bool" where
  "is_ok (Inr _) = True"
| "is_ok (Inl _) = False"

text \<open>\<open>str(error)\<close>: the message; a \<open>KeyError\<close> renders the repr of its key.\<close>

fun exc_text :: "exc \<Rightarrow> string" where
  "exc_text (ValueError s) = s"
| "exc_text (KeyError s) = CHR 0x27 # s @ [CHR 0x27]"
| "exc_text (RuntimeError s) = s"
| "exc_text (TypeError s) = s"
| "exc_text (TimeoutError s) = s"
| "exc_text (OtherError s) = s"

lemma is_ok_iff: "is_ok r \<longleftrightarrow> (\<exists>x. r = Inr x)"
  by (cases r) auto

section \<open>Decimal rendering and parsing\<close>

definition digit_char :: "nat \<Rightarrow> char" where
  "digit_char d = char_of (48 + d)"

definition is_digit :: "char \<Rightarrow> bool" where
  "is_digit c \<longleftrightarrow> 48 \<le> (of_char c :: nat) \<and> (of_char c :: nat) \<le> 57"

definition digit_val :: "char \<Rightarrow> nat" where
  "digit_val c = of_char c - 48"

fun dec_nat :: "nat \<Rightarrow> string" where
  "dec_nat n = (if n < 10 then [digit_char n]
                else dec_nat (n div 10) @ [digit_char (n mod 10)])"

declare dec_nat.simps [simp del]

text \<open>\<open>f"{n}"\<close> of an integer.\<close>

definition dec_int :: "int \<Rightarrow> string" where
  "dec_int i = (if i < 0 then CHR ''-'' # dec_nat (nat (- i)) else dec_nat (nat i))"

text \<open>\<open>int(text)\<close> of a string of ASCII digits.\<close>

definition parse_nat :: "string \<Rightarrow> nat" where
  "parse_nat s = foldl (\<lambda>a c. 10 * a + digit_val c) 0 s"

lemma of_char_digit_char: "d < 10 \<Longrightarrow> (of_char (digit_char d) :: nat) = 48 + d"
  by (simp add: digit_char_def of_char_of)

lemma digit_val_char [simp]: "d < 10 \<Longrightarrow> digit_val (digit_char d) = d"
  by (simp add: digit_val_def of_char_digit_char)

lemma is_digit_char [simp]: "d < 10 \<Longrightarrow> is_digit (digit_char d)"
  by (simp add: is_digit_def of_char_digit_char)

lemma dec_nat_digits: "\<forall>c \<in> set (dec_nat n). is_digit c"
proof (induction n rule: dec_nat.induct)
  case (1 n)
  then show ?case by (subst dec_nat.simps) auto
qed

lemma dec_nat_nonempty [simp]: "dec_nat n \<noteq> []"
  by (subst dec_nat.simps) simp

lemma parse_dec_nat [simp]: "parse_nat (dec_nat n) = n"
proof (induction n rule: dec_nat.induct)
  case (1 n)
  show ?case
  proof (cases "n < 10")
    case True
    then show ?thesis by (subst dec_nat.simps) (simp add: parse_nat_def)
  next
    case False
    with 1 have "parse_nat (dec_nat (n div 10)) = n div 10" by simp
    with False show ?thesis
      by (subst dec_nat.simps) (simp add: parse_nat_def)
  qed
qed

lemma dec_nat_inject: "dec_nat m = dec_nat n \<longleftrightarrow> m = n"
  by (metis parse_dec_nat)

section \<open>Strings\<close>

text \<open>\<open>text.split(sep)\<close> for a one-character separator: never empty.\<close>

fun py_split :: "char \<Rightarrow> string \<Rightarrow> string list" where
  "py_split sep [] = [[]]"
| "py_split sep (c # cs) =
     (if c = sep then [] # py_split sep cs
      else (case py_split sep cs of [] \<Rightarrow> [[c]] | w # ws \<Rightarrow> (c # w) # ws))"

definition startswith :: "string \<Rightarrow> string \<Rightarrow> bool" where
  "startswith s p \<longleftrightarrow> take (length p) s = p"

text \<open>\<open>text.lower()\<close> on the code points below 256.\<close>

definition lower_char :: "char \<Rightarrow> char" where
  "lower_char c =
     (let n = (of_char c :: nat) in
      if 65 \<le> n \<and> n \<le> 90 \<or> 192 \<le> n \<and> n \<le> 222 \<and> n \<noteq> 215 then char_of (n + 32) else c)"

definition py_lower :: "string \<Rightarrow> string" where
  "py_lower = map lower_char"

text \<open>\<open>text.strip()\<close>: the white space of the code points below 256.\<close>

definition is_space :: "char \<Rightarrow> bool" where
  "is_space c =
     (let n = (of_char c :: nat) in 9 \<le> n \<and> n \<le> 13 \<or> 28 \<le> n \<and> n \<le> 32 \<or> n = 133 \<or> n = 160)"

definition py_strip :: "string \<Rightarrow> string" where
  "py_strip s = rev (dropWhile is_space (rev (dropWhile is_space s)))"

text \<open>\<open>repr\<close> of a string without quotes or backslashes, and of a list of such strings.\<close>

definition repr_str :: "string \<Rightarrow> string" where
  "repr_str s = CHR 0x27 # s @ [CHR 0x27]"

fun join_with :: "string \<Rightarrow> string list \<Rightarrow> string" where
  "join_with sep [] = []"
| "join_with sep [s] = s"
| "join_with sep (s # t # ss) = s @ sep @ join_with sep (t # ss)"

definition repr_strs :: "string list \<Rightarrow> string" where
  "repr_strs ss = ''['' @ join_with '', '' (map repr_str ss) @ '']''"

lemma py_split_nonempty [simp]: "py_split sep s \<noteq> []"
  by (induction s) (auto split: list.splits)

lemma py_split_none: "sep \<notin> set s \<Longrightarrow> py_split sep s = [s]"
  by (induction s) auto

lemma py_split_append:
  "sep \<notin> set a \<Longrightarrow> py_split sep (a @ sep # b) = a # py_split sep b"
  by (induction a) (auto split: list.splits)

lemma py_split_join:
  "py_split sep s = [a] \<Longrightarrow> s = a"
  "py_split sep s = [a, b] \<Longrightarrow> s = a @ sep # b"
proof -
  show one: "py_split sep s = [a] \<Longrightarrow> s = a" for s a
    by (induction s arbitrary: a) (auto split: if_splits list.splits)
  show "py_split sep s = [a, b] \<Longrightarrow> s = a @ sep # b"
    by (induction s arbitrary: a) (auto split: if_splits list.splits dest: one)
qed

lemma startswith_iff: "startswith s p \<longleftrightarrow> (\<exists>t. s = p @ t)"
  by (auto simp: startswith_def) (metis append_take_drop_id)

text \<open>\<open>int\<close> of a token without white space.\<close>

definition int_token :: "string \<Rightarrow> int res" where
  "int_token s =
     (let sign = (if s \<noteq> [] \<and> hd s = CHR ''-'' then - 1 else 1);
          digits = (if s \<noteq> [] \<and> hd s \<in> {CHR ''-'', CHR ''+''} then tl s else s);
          groups = py_split (CHR ''_'') digits
      in if list_all (\<lambda>g. g \<noteq> [] \<and> list_all is_digit g) groups
         then Inr (sign * int (parse_nat (concat groups)))
         else Inl (ValueError ''invalid literal for int()''))"

text \<open>\<open>xs.index(x)\<close>: the first place, or none.\<close>

fun first_index :: "'a \<Rightarrow> 'a list \<Rightarrow> nat option" where
  "first_index x [] = None"
| "first_index x (y # ys) = (if x = y then Some 0 else map_option Suc (first_index x ys))"

section \<open>Dictionaries as association lists\<close>

text \<open>
  A dictionary whose order is observed is an association list with distinct keys.
  \<open>dict_set\<close> keeps the position of an existing key, as Python does.
\<close>

fun dict_set :: "'k \<Rightarrow> 'v \<Rightarrow> ('k \<times> 'v) list \<Rightarrow> ('k \<times> 'v) list" where
  "dict_set k v [] = [(k, v)]"
| "dict_set k v ((k', v') # xs) =
     (if k = k' then (k, v) # xs else (k', v') # dict_set k v xs)"

lemma map_of_dict_set [simp]: "map_of (dict_set k v xs) = (map_of xs)(k \<mapsto> v)"
  by (induction k v xs rule: dict_set.induct) auto

lemma map_of_map_pair:
  "map_of (map (\<lambda>n. (n, f n)) ns) k = (if k \<in> set ns then Some (f k) else None)"
  by (induction ns) auto

section \<open>Generic contracts\<close>

text \<open>
  A partial encoder with its decoder. The wire formats of the command protocol
  interpret it; what a client needs (the code is injective on what it encodes) is
  proved once.
\<close>

locale codec =
  fixes enc :: "'a \<Rightarrow> 'b res"
    and dec :: "'b \<Rightarrow> 'a res"
  assumes dec_enc: "enc a = Inr b \<Longrightarrow> dec b = Inr a"
begin

lemma enc_inject: "enc a = Inr b \<Longrightarrow> enc a' = Inr b \<Longrightarrow> a = a'"
  by (metis dec_enc sum.inject(2))

lemma dec_unique: "enc a = Inr b \<Longrightarrow> dec b = Inr a' \<Longrightarrow> a' = a"
  by (metis dec_enc sum.inject(2))

end

text \<open>A codec whose decoder accepts canonical encodings only.\<close>

locale canonical_codec = codec +
  assumes enc_dec: "dec b = Inr a \<Longrightarrow> enc a = Inr b"
begin

lemma dec_iff: "dec b = Inr a \<longleftrightarrow> enc a = Inr b"
  using dec_enc enc_dec by blast

lemma dec_inject: "dec b = Inr a \<Longrightarrow> dec b' = Inr a \<Longrightarrow> b = b'"
  by (auto simp: dec_iff)

end

text \<open>
  A deterministic component driven by events. An invariant of the initial states
  that every event keeps holds after every run.
\<close>

fun run_events :: "('e \<Rightarrow> 's \<Rightarrow> 's) \<Rightarrow> 'e list \<Rightarrow> 's \<Rightarrow> 's" where
  "run_events f [] s = s"
| "run_events f (e # es) s = run_events f es (f e s)"

lemma run_events_append [simp]:
  "run_events f (xs @ ys) s = run_events f ys (run_events f xs s)"
  by (induction xs arbitrary: s) auto

text \<open>A run that ends in a property it did not start in entered it for the last time at some event.\<close>

lemma run_enters:
  assumes "\<not> Q s0" "Q (run_events f es s0)"
  shows "\<exists>es1 e es2. es = es1 @ e # es2 \<and> \<not> Q (run_events f es1 s0)
    \<and> (\<forall>k. Q (run_events f (es1 @ e # take k es2) s0))"
  using assms(2)
proof (induction es rule: rev_induct)
  case (snoc x xs)
  show ?case
  proof (cases "Q (run_events f xs s0)")
    case True
    then obtain es1 e es2 where h: "xs = es1 @ e # es2" "\<not> Q (run_events f es1 s0)"
      "\<forall>k. Q (run_events f (es1 @ e # take k es2) s0)" using snoc.IH by blast
    have "Q (run_events f (es1 @ e # take k (es2 @ [x])) s0)" for k
    proof (cases "k \<le> length es2")
      case True
      then show ?thesis using h(3) by simp
    next
      case False
      then show ?thesis using snoc.prems h(1) by simp
    qed
    moreover have "xs @ [x] = es1 @ e # (es2 @ [x])" using h(1) by simp
    ultimately show ?thesis using h(2) by blast
  next
    case False
    have "Q (run_events f (xs @ x # take k []) s0)" for k using snoc.prems by simp
    moreover have "xs @ [x] = xs @ x # []" by simp
    ultimately show ?thesis using False by blast
  qed
qed (use assms(1) in simp)

locale event_invariant =
  fixes step :: "'e \<Rightarrow> 's \<Rightarrow> 's"
    and inv :: "'s \<Rightarrow> bool"
  assumes step_inv: "inv s \<Longrightarrow> inv (step e s)"
begin

lemma run_inv: "inv s \<Longrightarrow> inv (run_events step es s)"
  by (induction es arbitrary: s) (auto intro: step_inv)

end

end
