(* ===== verification/Command_Wire.thy ===== *)
theory Command_Wire
  imports Sim_Prelude
begin

unbundle bit_operations_syntax

text \<open>
  The wire metadata of the joint command stream (\<open>tinker_sim_core/command_mux.py\<close>,
  lines 19 to 163): command epochs (gateway session and stop/recovery generation),
  snapshot packets (logical snapshot, packet count, one-based packet index, atomic
  marker in bit 63) and the textual frame ID that carries both. Integers are Python's
  unbounded ones; arguments are dynamic values, so the \<open>isinstance\<close> guards are
  branches. The last section proves that each format is a codec.
\<close>

section \<open>Constants\<close>

definition STALE_HOLD_ACTIVE_LOG_PERIOD_S :: pyfloat where
  "STALE_HOLD_ACTIVE_LOG_PERIOD_S = Fin 1"

definition COMMAND_FRAME_PREFIX :: string where
  "COMMAND_FRAME_PREFIX = ''tinker_command_epoch:''"

definition COMMAND_SNAPSHOT_PREFIX :: string where
  "COMMAND_SNAPSHOT_PREFIX = ''snapshot:''"

definition SNAPSHOT_PACKET_BITS :: nat where
  "SNAPSHOT_PACKET_BITS = 16"

definition SNAPSHOT_PACKET_MASK :: int where
  "SNAPSHOT_PACKET_MASK = push_bit SNAPSHOT_PACKET_BITS 1 - 1"

definition SNAPSHOT_ATOMIC_MARKER :: int where
  "SNAPSHOT_ATOMIC_MARKER = push_bit 63 1"

definition MAX_LOGICAL_SNAPSHOT_ID :: int where
  "MAX_LOGICAL_SNAPSHOT_ID = push_bit 31 1 - 1"

definition COMMAND_SESSION_BITS :: nat where
  "COMMAND_SESSION_BITS = 32"

definition COMMAND_GENERATION_BITS :: nat where
  "COMMAND_GENERATION_BITS = 32"

definition COMMAND_GENERATION_MASK :: int where
  "COMMAND_GENERATION_MASK = push_bit COMMAND_GENERATION_BITS 1 - 1"

definition COMMAND_SESSION_MASK :: int where
  "COMMAND_SESSION_MASK = push_bit COMMAND_SESSION_BITS 1 - 1"

section \<open>Epochs\<close>

text \<open>The random source is a parameter: \<open>bits\<close> is what \<open>secrets.randbits\<close> returned.\<close>

definition new_command_session :: "int \<Rightarrow> int" where
  "new_command_session bits = (if bits \<noteq> 0 then bits else 1)"

definition encode_command_epoch :: "pyval \<Rightarrow> pyval \<Rightarrow> int res" where
  "encode_command_epoch session_id generation =
     (case (session_id, generation) of
        (PInt s, PInt g) \<Rightarrow>
          if s < 1 \<or> s > COMMAND_SESSION_MASK \<or> g < 0 \<or> g > COMMAND_GENERATION_MASK
          then Inl (ValueError ''command session and generation are invalid'')
          else Inr (push_bit COMMAND_GENERATION_BITS s OR g)
      | _ \<Rightarrow> Inl (ValueError ''command session and generation are invalid''))"

definition decode_command_epoch :: "pyval \<Rightarrow> (int \<times> int) res" where
  "decode_command_epoch epoch =
     (case epoch of
        PInt e \<Rightarrow>
          if e < 0 then Inl (ValueError ''command epoch must be a non-negative integer'')
          else if e \<le> COMMAND_GENERATION_MASK then Inr (0, e)
          else Inr (drop_bit COMMAND_GENERATION_BITS e, e AND COMMAND_GENERATION_MASK)
      | _ \<Rightarrow> Inl (ValueError ''command epoch must be a non-negative integer''))"

section \<open>Snapshot packets\<close>

definition encode_snapshot_packet :: "pyval \<Rightarrow> pyval \<Rightarrow> pyval \<Rightarrow> int res" where
  "encode_snapshot_packet snapshot_id packet_count packet_index =
     (case (snapshot_id, packet_count, packet_index) of
        (PInt s, PInt n, PInt i) \<Rightarrow>
          if s < 0 \<or> s > MAX_LOGICAL_SNAPSHOT_ID \<or> n < 1 \<or> n > SNAPSHOT_PACKET_MASK
             \<or> i < 1 \<or> i > n
          then Inl (ValueError ''command snapshot packet metadata is invalid'')
          else Inr (SNAPSHOT_ATOMIC_MARKER OR push_bit (2 * SNAPSHOT_PACKET_BITS) s
                    OR push_bit SNAPSHOT_PACKET_BITS n OR i)
      | _ \<Rightarrow> Inl (ValueError ''command snapshot packet metadata is invalid''))"

definition decode_snapshot_packet :: "pyval \<Rightarrow> (int \<times> int \<times> int) res" where
  "decode_snapshot_packet snapshot_id =
     (case snapshot_id of
        PInt v \<Rightarrow>
          if v < 0 then Inl (ValueError ''command snapshot ID must be a non-negative integer'')
          else if v AND SNAPSHOT_ATOMIC_MARKER = 0 then Inr (v, 1, 1)
          else
            let payload = v XOR SNAPSHOT_ATOMIC_MARKER;
                packet_index = payload AND SNAPSHOT_PACKET_MASK;
                packet_count = drop_bit SNAPSHOT_PACKET_BITS payload AND SNAPSHOT_PACKET_MASK;
                logical_id = drop_bit (2 * SNAPSHOT_PACKET_BITS) payload
            in if logical_id > MAX_LOGICAL_SNAPSHOT_ID \<or> packet_count < 1
                  \<or> packet_index < 1 \<or> packet_index > packet_count
               then Inl (ValueError ''command snapshot packet metadata is invalid'')
               else Inr (logical_id, packet_count, packet_index)
      | _ \<Rightarrow> Inl (ValueError ''command snapshot ID must be a non-negative integer''))"

section \<open>Frame IDs\<close>

definition encode_command_frame :: "pyval \<Rightarrow> pyval \<Rightarrow> string res" where
  "encode_command_frame epoch snapshot =
     (case (epoch, snapshot) of
        (PInt e, PInt s) \<Rightarrow>
          if e < 0 \<or> s < 0
          then Inl (ValueError ''command epoch and snapshot must be non-negative integers'')
          else Inr (COMMAND_FRAME_PREFIX @ dec_int e @ '';'' @ COMMAND_SNAPSHOT_PREFIX @ dec_int s)
      | _ \<Rightarrow> Inl (ValueError ''command epoch and snapshot must be non-negative integers''))"

definition is_ascii :: "string \<Rightarrow> bool" where
  "is_ascii s \<longleftrightarrow> list_all (\<lambda>c. (of_char c :: nat) < 128) s"

text \<open>\<open>str.isdecimal\<close> on ASCII text: every character is a digit and there is one.\<close>

definition is_decimal :: "string \<Rightarrow> bool" where
  "is_decimal s \<longleftrightarrow> s \<noteq> [] \<and> list_all is_digit s"

definition decode_command_frame :: "pyval \<Rightarrow> (int \<times> int) res" where
  "decode_command_frame frame_id =
     (case frame_id of
        PStr f \<Rightarrow>
          let parts = py_split (CHR '';'') f in
          if length parts \<noteq> 2 \<or> \<not> startswith (parts ! 0) COMMAND_FRAME_PREFIX
          then Inl (ValueError ''command frame ID has an invalid epoch prefix'')
          else
            let epoch_text = drop (length COMMAND_FRAME_PREFIX) (parts ! 0) in
            if \<not> startswith (parts ! 1) COMMAND_SNAPSHOT_PREFIX
            then Inl (ValueError ''command frame ID has an invalid snapshot prefix'')
            else
              let snapshot_text = drop (length COMMAND_SNAPSHOT_PREFIX) (parts ! 1) in
              if epoch_text = [] \<or> snapshot_text = [] \<or> \<not> is_ascii epoch_text
                 \<or> \<not> is_ascii snapshot_text \<or> \<not> is_decimal epoch_text
                 \<or> \<not> is_decimal snapshot_text
              then Inl (ValueError ''command frame ID values must be ASCII decimal integers'')
              else
                let epoch = int (parse_nat epoch_text);
                    snapshot = int (parse_nat snapshot_text)
                in (case encode_command_frame (PInt epoch) (PInt snapshot) of
                      Inl e \<Rightarrow> Inl e
                    | Inr g \<Rightarrow>
                        if g \<noteq> f then Inl (ValueError ''command frame ID is not in canonical form'')
                        else Inr (epoch, snapshot))
      | _ \<Rightarrow> Inl (ValueError ''command frame ID must be a string''))"

section \<open>Arithmetic readings of the bit layouts\<close>

lemmas wire_consts =
  COMMAND_GENERATION_BITS_def COMMAND_SESSION_BITS_def COMMAND_GENERATION_MASK_def
  COMMAND_SESSION_MASK_def SNAPSHOT_PACKET_BITS_def SNAPSHOT_PACKET_MASK_def
  SNAPSHOT_ATOMIC_MARKER_def MAX_LOGICAL_SNAPSHOT_ID_def

text \<open>A field below bit \<open>n\<close> joined with one pushed above it is a sum.\<close>

lemma push_or_eq:
  fixes a b :: int
  assumes "0 \<le> b" "b < 2 ^ n"
  shows "push_bit n a OR b = a * 2 ^ n + b"
proof -
  have b: "take_bit n b = b"
    using assms by (simp add: take_bit_int_eq_self_iff)
  have "push_bit n a + b = push_bit n a OR b"
  proof (rule disjunctive_add_eq_or, rule bit_eqI)
    fix m
    have "bit b m \<Longrightarrow> m < n"
      by (metis b bit_take_bit_iff)
    then show "bit (push_bit n a AND b) m = bit (0::int) m"
      by (auto simp: bit_simps)
  qed
  then show ?thesis by (simp add: push_bit_eq_mult)
qed

lemma and_mask_mod: "(a::int) AND (push_bit n 1 - 1) = a mod 2 ^ n"
proof -
  have "push_bit n (1::int) - 1 = mask n"
    by (simp add: mask_eq_exp_minus_1 push_bit_eq_mult)
  then show ?thesis
    by (simp add: take_bit_eq_mask [symmetric] take_bit_eq_mod)
qed

lemma and_65535: "(a::int) AND 65535 = a mod 65536"
  using and_mask_mod [of a 16] by simp

lemma and_marker_iff: "(v::int) AND SNAPSHOT_ATOMIC_MARKER = 0 \<longleftrightarrow> \<not> bit v 63"
  by (simp add: SNAPSHOT_ATOMIC_MARKER_def push_bit_eq_mult and_exp_eq_0_iff_not_bit
      del: power_numeral power_mult)

lemma xor_push_bit:
  assumes "bit (v::int) n"
  shows "v XOR push_bit n 1 = v - 2 ^ n"
proof -
  have "(v XOR push_bit n 1) + push_bit n 1 = (v XOR push_bit n 1) OR push_bit n 1"
  proof (rule disjunctive_add_eq_or, rule bit_eqI)
    fix m
    show "bit ((v XOR push_bit n 1) AND push_bit n 1) m = bit (0::int) m"
      using assms by (auto simp: bit_simps)
  qed
  also have "\<dots> = v"
    using assms by (auto intro!: bit_eqI simp: bit_simps)
  finally show ?thesis
    by (simp add: push_bit_eq_mult)
qed

lemma xor_marker: "bit (v::int) 63 \<Longrightarrow> v XOR SNAPSHOT_ATOMIC_MARKER = v - 2 ^ 63"
  unfolding SNAPSHOT_ATOMIC_MARKER_def by (rule xor_push_bit)

lemma bit63_iff: "bit (v::int) 63 \<longleftrightarrow> odd (v div 2 ^ 63)"
  by (simp add: bit_iff_odd)

lemma encode_epoch_eq:
  "encode_command_epoch (PInt s) (PInt g) =
     (if 1 \<le> s \<and> s < 2 ^ 32 \<and> 0 \<le> g \<and> g < 2 ^ 32 then Inr (s * 2 ^ 32 + g)
      else Inl (ValueError ''command session and generation are invalid''))"
  using push_or_eq [of g 32 s]
  by (auto simp: encode_command_epoch_def wire_consts push_bit_eq_mult)

lemma decode_epoch_eq:
  "0 \<le> e \<Longrightarrow> decode_command_epoch (PInt e) = Inr (e div 2 ^ 32, e mod 2 ^ 32)"
  using and_mask_mod [of e 32]
  by (auto simp: decode_command_epoch_def COMMAND_GENERATION_MASK_def
      COMMAND_GENERATION_BITS_def drop_bit_eq_div)

lemma encode_packet_eq:
  "encode_snapshot_packet (PInt s) (PInt n) (PInt i) =
     (if 0 \<le> s \<and> s < 2 ^ 31 \<and> 1 \<le> i \<and> i \<le> n \<and> n < 2 ^ 16
      then Inr (2 ^ 63 + s * 2 ^ 32 + n * 2 ^ 16 + i)
      else Inl (ValueError ''command snapshot packet metadata is invalid''))"
proof (cases "0 \<le> s \<and> s < 2 ^ 31 \<and> 1 \<le> i \<and> i \<le> n \<and> n < 2 ^ 16")
  case True
  have ni: "push_bit 16 n OR i = n * 2 ^ 16 + i"
    using True by (intro push_or_eq) auto
  have sni: "push_bit 32 s OR (n * 2 ^ 16 + i) = s * 2 ^ 32 + (n * 2 ^ 16 + i)"
    using True by (intro push_or_eq) auto
  have "push_bit 63 1 OR (s * 2 ^ 32 + (n * 2 ^ 16 + i)) = 1 * 2 ^ 63 + (s * 2 ^ 32 + (n * 2 ^ 16 + i))"
    using True by (intro push_or_eq) auto
  then have "push_bit 63 1 OR push_bit 32 s OR push_bit 16 n OR i =
      2 ^ 63 + s * 2 ^ 32 + n * 2 ^ 16 + i"
    by (simp only: ni sni)
  then show ?thesis
    using True by (auto simp: encode_snapshot_packet_def wire_consts)
next
  case False
  then show ?thesis
    by (auto simp: encode_snapshot_packet_def wire_consts push_bit_eq_mult)
qed

section \<open>The wire formats as codecs\<close>

lemma encode_epoch_ok:
  "encode_command_epoch (PInt s) (PInt g) = Inr e \<longleftrightarrow>
     1 \<le> s \<and> s < 2 ^ 32 \<and> 0 \<le> g \<and> g < 2 ^ 32 \<and> e = s * 2 ^ 32 + g"
  by (auto simp: encode_epoch_eq)

lemma encode_packet_ok:
  "encode_snapshot_packet (PInt s) (PInt n) (PInt i) = Inr v \<longleftrightarrow>
     0 \<le> s \<and> s < 2 ^ 31 \<and> 1 \<le> i \<and> i \<le> n \<and> n < 2 ^ 16
     \<and> v = 2 ^ 63 + s * 2 ^ 32 + n * 2 ^ 16 + i"
  by (auto simp: encode_packet_eq)

lemma marker_mod:
  fixes x :: int
  assumes "0 \<le> x" "x < 2 ^ 63"
  shows "bit (2 ^ 63 + x) 63"
proof -
  have "(2 ^ 63 + x) div 2 ^ 63 = 1"
    using assms by (intro int_div_pos_eq [where r = x]) auto
  then show ?thesis by (simp add: bit63_iff)
qed

text \<open>Reading the three fields of a marked value back.\<close>

lemma decode_packet_marked:
  fixes s n i :: int
  assumes "0 \<le> s" "s < 2 ^ 31" "1 \<le> i" "i \<le> n" "n < 2 ^ 16"
  shows "decode_snapshot_packet (PInt (2 ^ 63 + s * 2 ^ 32 + n * 2 ^ 16 + i)) = Inr (s, n, i)"
proof -
  let ?x = "s * 2 ^ 32 + n * 2 ^ 16 + i"
  have x: "0 \<le> ?x" "?x < 2 ^ 63" using assms by auto
  have b: "bit (2 ^ 63 + ?x) 63" using x by (rule marker_mod)
  have pay: "(2 ^ 63 + ?x) XOR SNAPSHOT_ATOMIC_MARKER = ?x"
    using xor_marker [OF b] by simp
  have idx: "?x AND SNAPSHOT_PACKET_MASK = i"
  proof -
    have "?x = i + (s * 2 ^ 16 + n) * 2 ^ 16" by simp
    then have "?x mod 2 ^ 16 = i" using assms by (simp only: mod_mult_self1) simp
    then show ?thesis
      by (simp only: SNAPSHOT_PACKET_MASK_def SNAPSHOT_PACKET_BITS_def and_mask_mod)
  qed
  have cnt: "drop_bit 16 ?x AND SNAPSHOT_PACKET_MASK = n"
  proof -
    have "?x = i + (s * 2 ^ 16 + n) * 2 ^ 16" by simp
    then have "?x div 2 ^ 16 = s * 2 ^ 16 + n" using assms by (simp only: div_mult_self1) simp
    then have "?x div 2 ^ 16 mod 2 ^ 16 = n" using assms by simp
    then show ?thesis
      by (simp only: SNAPSHOT_PACKET_MASK_def SNAPSHOT_PACKET_BITS_def and_mask_mod drop_bit_eq_div)
  qed
  have lid: "drop_bit 32 ?x = s"
    unfolding drop_bit_eq_div using assms by simp
  have nz: "(2 ^ 63 + ?x) AND SNAPSHOT_ATOMIC_MARKER \<noteq> 0"
    using b and_marker_iff by blast
  have M: "MAX_LOGICAL_SNAPSHOT_ID = 2147483647"
    by (simp add: MAX_LOGICAL_SNAPSHOT_ID_def)
  have "decode_snapshot_packet (PInt (2 ^ 63 + ?x)) = Inr (s, n, i)"
    unfolding decode_snapshot_packet_def pyval.case Let_def pay idx cnt lid
      SNAPSHOT_PACKET_BITS_def
    using x nz assms idx cnt lid M by (simp add: SNAPSHOT_PACKET_BITS_def)
  then show ?thesis by (simp only: add.assoc)
qed

lemma three_fields: "(p::int) = p div 2 ^ 32 * 2 ^ 32 + p div 2 ^ 16 mod 2 ^ 16 * 2 ^ 16 + p mod 2 ^ 16"
proof -
  have "p div 2 ^ 32 = p div 2 ^ 16 div 2 ^ 16" by (simp add: zdiv_zmult2_eq [symmetric])
  then have "p div 2 ^ 16 = p div 2 ^ 32 * 2 ^ 16 + p div 2 ^ 16 mod 2 ^ 16"
    by (simp only: div_mult_mod_eq)
  moreover have "p = p div 2 ^ 16 * 2 ^ 16 + p mod 2 ^ 16" by (simp only: div_mult_mod_eq)
  moreover have "x = a * 2 ^ 32 + b * 2 ^ 16 + r"
    if "q = a * 2 ^ 16 + b" "x = q * 2 ^ 16 + r" for x q r a b :: int
    using that by simp
  ultimately show ?thesis by blast
qed

text \<open>
  Conversely a marked value that decodes is the encoding of what it decodes to: no two
  marked wire values carry the same metadata.
\<close>

lemma decode_packet_marked_canonical:
  assumes dec: "decode_snapshot_packet (PInt v) = Inr (s, n, i)" and b: "bit v 63"
  shows "encode_snapshot_packet (PInt s) (PInt n) (PInt i) = Inr v"
proof -
  let ?p = "v - 2 ^ 63"
  have v0: "0 \<le> v"
    using dec by (auto simp: decode_snapshot_packet_def split: if_splits)
  have p0: "0 \<le> ?p"
  proof -
    have "v div 2 ^ 63 \<noteq> 0" using b bit63_iff [of v] by auto
    with v0 show ?thesis by (auto simp: zdiv_eq_0_iff not_less)
  qed
  have nz: "v AND SNAPSHOT_ATOMIC_MARKER \<noteq> 0" using b and_marker_iff by blast
  have f: "s = ?p div 2 ^ 32" "n = ?p div 2 ^ 16 mod 2 ^ 16" "i = ?p mod 2 ^ 16"
    and g: "s \<le> 2147483647" "1 \<le> n" "1 \<le> i" "i \<le> n"
    using dec nz v0 xor_marker [OF b]
    by (auto simp: decode_snapshot_packet_def Let_def SNAPSHOT_PACKET_MASK_def
        SNAPSHOT_PACKET_BITS_def MAX_LOGICAL_SNAPSHOT_ID_def and_65535 drop_bit_eq_div
        split: if_splits)
  have "?p = s * 2 ^ 32 + n * 2 ^ 16 + i"
    unfolding f by (rule three_fields)
  moreover have "0 \<le> s" "n < 2 ^ 16" unfolding f using p0 by simp_all
  ultimately show ?thesis
    using g by (auto simp: encode_packet_ok)
qed

text \<open>The decimal frame fields.\<close>

lemma dec_int_chars: "0 \<le> i \<Longrightarrow> \<forall>c \<in> set (dec_int i). is_digit c"
  using dec_nat_digits by (auto simp: dec_int_def)

lemma digit_ascii: "is_digit c \<Longrightarrow> (of_char c :: nat) < 128"
  by (simp add: is_digit_def)

lemma is_digit_not_semi: "is_digit c \<Longrightarrow> c \<noteq> CHR '';''"
  by (auto simp: is_digit_def)

lemma dec_int_decimal: "0 \<le> i \<Longrightarrow> is_decimal (dec_int i) \<and> is_ascii (dec_int i)"
  using dec_int_chars [of i]
  by (auto simp: is_decimal_def is_ascii_def list_all_iff digit_ascii dec_int_def)

lemma parse_dec_int: "0 \<le> i \<Longrightarrow> int (parse_nat (dec_int i)) = i"
  by (simp add: dec_int_def)

lemma frame_split:
  assumes "0 \<le> e" "0 \<le> s"
  shows "py_split (CHR '';'')
      (COMMAND_FRAME_PREFIX @ dec_int e @ '';'' @ COMMAND_SNAPSHOT_PREFIX @ dec_int s)
     = [COMMAND_FRAME_PREFIX @ dec_int e, COMMAND_SNAPSHOT_PREFIX @ dec_int s]"
proof -
  have e: "CHR '';'' \<notin> set (COMMAND_FRAME_PREFIX @ dec_int e)"
    using dec_int_chars [OF assms(1)] is_digit_not_semi by (auto simp: COMMAND_FRAME_PREFIX_def)
  have s: "CHR '';'' \<notin> set (COMMAND_SNAPSHOT_PREFIX @ dec_int s)"
    using dec_int_chars [OF assms(2)] is_digit_not_semi by (auto simp: COMMAND_SNAPSHOT_PREFIX_def)
  show ?thesis
    using py_split_append [OF e, of "COMMAND_SNAPSHOT_PREFIX @ dec_int s"] py_split_none [OF s]
    by simp
qed

lemma encode_frame_ok:
  "encode_command_frame (PInt e) (PInt s) = Inr f \<longleftrightarrow>
     0 \<le> e \<and> 0 \<le> s \<and>
     f = COMMAND_FRAME_PREFIX @ dec_int e @ '';'' @ COMMAND_SNAPSHOT_PREFIX @ dec_int s"
  by (auto simp: encode_command_frame_def)

lemma decode_encoded_frame:
  assumes "encode_command_frame (PInt e) (PInt s) = Inr f"
  shows "decode_command_frame (PStr f) = Inr (e, s)"
proof -
  have es: "0 \<le> e" "0 \<le> s" and
    f: "f = COMMAND_FRAME_PREFIX @ dec_int e @ '';'' @ COMMAND_SNAPSHOT_PREFIX @ dec_int s"
    using assms by (auto simp: encode_frame_ok)
  have [simp]: "dec_int e \<noteq> []" "dec_int s \<noteq> []"
    using dec_int_decimal es by (auto simp: is_decimal_def)
  show ?thesis
    using assms dec_int_decimal [OF es(1)] dec_int_decimal [OF es(2)] es
    by (simp add: decode_command_frame_def Let_def f frame_split [OF es, simplified] startswith_iff
        parse_dec_int)
qed

lemma decode_frame_canonical:
  "decode_command_frame (PStr f) = Inr (e, s) \<Longrightarrow> encode_command_frame (PInt e) (PInt s) = Inr f"
  by (auto simp: decode_command_frame_def Let_def split: if_splits sum.splits)

interpretation epoch_codec: codec
  "\<lambda>(s, g). encode_command_epoch (PInt s) (PInt g)" "\<lambda>e. decode_command_epoch (PInt e)"
proof unfold_locales
  fix a b
  assume "(case a of (s, g) \<Rightarrow> encode_command_epoch (PInt s) (PInt g)) = Inr b"
  then show "decode_command_epoch (PInt b) = Inr a"
    by (cases a) (auto simp: encode_epoch_ok decode_epoch_eq)
qed

interpretation packet_codec: codec
  "\<lambda>(s, n, i). encode_snapshot_packet (PInt s) (PInt n) (PInt i)"
  "\<lambda>v. decode_snapshot_packet (PInt v)"
proof unfold_locales
  fix a b
  assume "(case a of (s, n, i) \<Rightarrow> encode_snapshot_packet (PInt s) (PInt n) (PInt i)) = Inr b"
  then show "decode_snapshot_packet (PInt b) = Inr a"
    by (cases a) (auto simp: encode_packet_ok intro!: decode_packet_marked [simplified])
qed

interpretation frame_codec: canonical_codec
  "\<lambda>(e, s). encode_command_frame (PInt e) (PInt s)" "\<lambda>f. decode_command_frame (PStr f)"
  by unfold_locales (auto intro: decode_encoded_frame decode_frame_canonical)

section \<open>Properties\<close>

text \<open>a packed epoch decodes to the session and generation it was built from, fits in
  64 bits, and packed epochs are ordered by session first and generation second, so a later
  generation of a session is always the larger epoch.\<close>

theorem epoch_roundtrip:
  assumes "encode_command_epoch (PInt s) (PInt g) = Inr e"
  shows "decode_command_epoch (PInt e) = Inr (s, g) \<and> 2 ^ 32 \<le> e \<and> e < 2 ^ 64
    \<and> (\<forall>s' g' e'. encode_command_epoch (PInt s') (PInt g') = Inr e' \<longrightarrow>
         (e < e' \<longleftrightarrow> s < s' \<or> s = s' \<and> g < g'))"
proof -
  have dec: "decode_command_epoch (PInt e) = Inr (s, g)"
    using epoch_codec.dec_enc [of "(s, g)" e] assms by simp
  from assms have e: "1 \<le> s" "s < 2 ^ 32" "0 \<le> g" "g < 2 ^ 32" "e = s * 2 ^ 32 + g"
    by (auto simp: encode_epoch_ok)
  have "e < e' \<longleftrightarrow> s < s' \<or> s = s' \<and> g < g'"
    if "encode_command_epoch (PInt s') (PInt g') = Inr e'" for s' g' e'
    using that e by (cases s s' rule: linorder_cases) (auto simp: encode_epoch_ok)
  with dec e show ?thesis by auto
qed

theorem epoch_roundtrip_witness:
  "encode_command_epoch (PInt 7) (PInt 3) = Inr 30064771075
   \<and> decode_command_epoch (PInt 30064771075) = Inr (7, 3)"
proof -
  have h: "encode_command_epoch (PInt 7) (PInt 3) = Inr 30064771075"
    by (simp add: encode_epoch_ok)
  show ?thesis using h epoch_roundtrip [OF h] by blast
qed

text \<open>atomic snapshot metadata survives the wire: what the encoder accepts decodes to
  the same logical ID, packet count and index, and a marked value that decodes is the
  encoding of its fields, so decoding and encoding are inverse on marked values; an unmarked
  legacy ID decodes to itself as a single packet.\<close>

theorem packet_roundtrip:
  "(encode_snapshot_packet (PInt s) (PInt n) (PInt i) = Inr v \<longleftrightarrow>
      bit v 63 \<and> decode_snapshot_packet (PInt v) = Inr (s, n, i))
   \<and> (0 \<le> w \<and> \<not> bit w 63 \<longrightarrow> decode_snapshot_packet (PInt w) = Inr (w, 1, 1))"
proof (intro conjI iffI impI)
  assume e: "encode_snapshot_packet (PInt s) (PInt n) (PInt i) = Inr v"
  then show "decode_snapshot_packet (PInt v) = Inr (s, n, i)"
    using packet_codec.dec_enc [of "(s, n, i)" v] by simp
  have "v = 2 ^ 63 + (s * 2 ^ 32 + n * 2 ^ 16 + i)" "0 \<le> s * 2 ^ 32 + n * 2 ^ 16 + i"
    "s * 2 ^ 32 + n * 2 ^ 16 + i < 2 ^ 63"
    using e by (auto simp: encode_packet_ok)
  then show "bit v 63" using marker_mod by blast
next
  assume "bit v 63 \<and> decode_snapshot_packet (PInt v) = Inr (s, n, i)"
  then show "encode_snapshot_packet (PInt s) (PInt n) (PInt i) = Inr v"
    using decode_packet_marked_canonical by blast
next
  assume "0 \<le> w \<and> \<not> bit w 63"
  then show "decode_snapshot_packet (PInt w) = Inr (w, 1, 1)"
    using and_marker_iff [of w] by (simp add: decode_snapshot_packet_def)
qed

theorem packet_roundtrip_witness:
  "decode_snapshot_packet (PInt 5) = Inr (5, 1, 1)"
proof -
  have "\<not> bit (5::int) 63" by (simp add: bit63_iff)
  then show ?thesis using packet_roundtrip [of 0 1 1 0 5] by simp
qed

text \<open>a frame ID decodes to an epoch and a snapshot exactly when it is the canonical
  rendering of that pair; so no two frame IDs mean the same pair, and no malformed,
  padded or signed text is accepted.\<close>

theorem frame_decode_iff:
  "decode_command_frame (PStr f) = Inr (e, s) \<longleftrightarrow> encode_command_frame (PInt e) (PInt s) = Inr f"
  using frame_codec.dec_iff [of f "(e, s)"] by simp

end
