(* ===== verification/Command_Mux.thy ===== *)
theory Command_Mux
  imports Command_Wire
begin

text \<open>
  The joint command multiplexer (\<open>tinker_sim_core/command_mux.py\<close>, lines 166 to 468):
  every joint has one owning source, a source that falls silent is replaced by a frozen
  measured hold, and a safety stop forces the same safe output for every source.

  Dictionaries that are iterated (\<open>sources\<close>, a hold) are association lists in insertion
  order, the others are maps; a \<open>frozenset\<close> of joints is a duplicate-free list of which
  only membership and the sorted order are used. The log lines of the mux are values
  appended to \<open>mx_log\<close>, without their text formatting.
\<close>

section \<open>Commands and sources\<close>

record joint_command =
  jc_names :: "string list"
  jc_positions :: "pyfloat list"
  jc_velocities :: "pyfloat list"
  jc_efforts :: "pyfloat list"

definition check_values :: "string \<Rightarrow> string list \<Rightarrow> pyfloat list \<Rightarrow> unit res" where
  "check_values label names values =
     (if values \<noteq> [] \<and> length values \<noteq> length names
      then Inl (ValueError (label @ '' length must match joint names''))
      else if \<not> list_all isfinite values
      then Inl (ValueError (label @ '' must contain only finite values''))
      else Inr ())"

definition jc_validate :: "joint_command \<Rightarrow> unit res" where
  "jc_validate c =
     (if jc_names c = [] \<or> \<not> distinct (jc_names c)
      then Inl (ValueError ''joint command names must be non-empty and unique'')
      else case check_values ''positions'' (jc_names c) (jc_positions c) of
        Inl e \<Rightarrow> Inl e
      | Inr _ \<Rightarrow> (case check_values ''velocities'' (jc_names c) (jc_velocities c) of
          Inl e \<Rightarrow> Inl e
        | Inr _ \<Rightarrow> check_values ''efforts'' (jc_names c) (jc_efforts c)))"

definition command_from_sequences ::
  "string list \<Rightarrow> pyfloat list \<Rightarrow> pyfloat list \<Rightarrow> pyfloat list \<Rightarrow> joint_command res" where
  "command_from_sequences names positions velocities efforts =
     (let command = \<lparr>jc_names = names, jc_positions = positions,
                     jc_velocities = velocities, jc_efforts = efforts\<rparr>
      in case jc_validate command of Inl e \<Rightarrow> Inl e | Inr _ \<Rightarrow> Inr command)"

record command_source =
  cs_joints :: "string list"
  cs_timeout :: pyfloat

text \<open>The constructor: \<open>frozenset\<close> drops duplicates, then \<open>__post_init__\<close> checks.\<close>

definition command_source_new :: "string list \<Rightarrow> pyfloat \<Rightarrow> command_source res" where
  "command_source_new joints timeout =
     (if joints = [] then Inl (ValueError ''a command source must own at least one joint'')
      else if \<not> isfinite timeout \<or> fle timeout (Fin 0)
      then Inl (ValueError ''command timeout must be finite and positive'')
      else Inr \<lparr>cs_joints = remdups joints, cs_timeout = timeout\<rparr>)"

section \<open>State\<close>

datatype mux_log =
    StaleHold string "(string \<times> pyfloat) list" pyfloat
  | StaleHoldActive string "(string \<times> pyfloat) list" pyfloat
  | StaleHoldCleared string "pyfloat option"
  | MuxStopEngaged "(string \<times> pyfloat) list"
  | MuxStopReleased "(string \<times> pyfloat) list"

record mux =
  mx_sources :: "(string \<times> command_source) list"
  mx_owners :: "string \<rightharpoonup> string"
  mx_latest :: "string \<rightharpoonup> pyfloat \<times> joint_command"
  mx_measured :: "string \<rightharpoonup> pyfloat"
  mx_holds :: "string \<rightharpoonup> (string \<times> pyfloat) list"
  mx_stale_since :: "string \<rightharpoonup> pyfloat"
  mx_last_logged :: "string \<rightharpoonup> pyfloat"
  mx_velocity :: "string \<Rightarrow> string set"
  mx_retired :: "string \<Rightarrow> string set"
  mx_stopped :: "joint_command list"
  mx_safety_stop :: bool
  mx_log :: "mux_log list"

fun claim_joints ::
  "string \<Rightarrow> string list \<Rightarrow> (string \<rightharpoonup> string) \<Rightarrow> (string \<rightharpoonup> string) res" where
  "claim_joints source [] owners = Inr owners"
| "claim_joints source (j # js) owners =
     (case owners j of
        Some other \<Rightarrow> Inl (ValueError (''joint '' @ repr_str j @ '' has conflicting owners ''
                       @ repr_str other @ '' and '' @ repr_str source))
      | None \<Rightarrow> claim_joints source js (owners(j \<mapsto> source)))"

fun claim_sources ::
  "(string \<times> command_source) list \<Rightarrow> (string \<rightharpoonup> string) \<Rightarrow> (string \<rightharpoonup> string) res" where
  "claim_sources [] owners = Inr owners"
| "claim_sources ((source, policy) # rest) owners =
     (case claim_joints source (cs_joints policy) owners of
        Inl e \<Rightarrow> Inl e
      | Inr owners' \<Rightarrow> claim_sources rest owners')"

definition mux_new :: "(string \<times> command_source) list \<Rightarrow> mux res" where
  "mux_new sources =
     (if sources = [] then Inl (ValueError ''at least one command source is required'')
      else case claim_sources sources Map.empty of
        Inl e \<Rightarrow> Inl e
      | Inr owners \<Rightarrow> Inr
          \<lparr>mx_sources = sources, mx_owners = owners, mx_latest = Map.empty,
           mx_measured = Map.empty, mx_holds = Map.empty, mx_stale_since = Map.empty,
           mx_last_logged = Map.empty, mx_velocity = (\<lambda>_. {}), mx_retired = (\<lambda>_. {}),
           mx_stopped = [], mx_safety_stop = False, mx_log = []\<rparr>)"

section \<open>Operations\<close>

definition foreign_joints :: "joint_command \<Rightarrow> command_source \<Rightarrow> string list" where
  "foreign_joints c p = sort (filter (\<lambda>n. n \<notin> set (cs_joints p)) (remdups (jc_names c)))"

text \<open>Which joints of the source a velocity command controls, and which have left that mode.\<close>

definition note_velocity_mode :: "string \<Rightarrow> joint_command \<Rightarrow> mux \<Rightarrow> mux" where
  "note_velocity_mode source c m =
     (let names = set (jc_names c); vc = mx_velocity m source; rv = mx_retired m source in
      if jc_velocities c \<noteq> []
      then m\<lparr>mx_velocity := (mx_velocity m)(source := vc \<union> names),
             mx_retired := (mx_retired m)(source := rv - names)\<rparr>
      else m\<lparr>mx_velocity := (mx_velocity m)(source := vc - names),
             mx_retired := (mx_retired m)(source := rv \<union> (vc \<inter> names))\<rparr>)"

definition clear_stale_hold :: "string \<Rightarrow> pyfloat \<Rightarrow> mux \<Rightarrow> mux" where
  "clear_stale_hold source t m =
     (case mx_holds m source of
        None \<Rightarrow> m
      | Some _ \<Rightarrow>
          let since = mx_stale_since m source in
          m\<lparr>mx_holds := (mx_holds m)(source := None),
            mx_stale_since := (mx_stale_since m)(source := None),
            mx_last_logged := (mx_last_logged m)(source := None),
            mx_log := mx_log m @ [StaleHoldCleared source (map_option (fsub t) since)]\<rparr>)"

definition mux_accept :: "string \<Rightarrow> joint_command \<Rightarrow> pyfloat \<Rightarrow> mux \<Rightarrow> mux res" where
  "mux_accept source command t m =
     (case map_of (mx_sources m) source of
        None \<Rightarrow> Inl (KeyError (''unknown command source: '' @ source))
      | Some policy \<Rightarrow>
          if \<not> isfinite t then Inl (ValueError ''steady time must be finite'')
          else if mx_safety_stop m
          then Inl (RuntimeError ''commands are rejected while the safety stop is active'')
          else case jc_validate command of
            Inl e \<Rightarrow> Inl e
          | Inr _ \<Rightarrow>
              if foreign_joints command policy \<noteq> []
              then Inl (ValueError (source @ '' attempted to command unowned joints: ''
                          @ repr_strs (foreign_joints command policy)))
              else
                let m' = clear_stale_hold source t (note_velocity_mode source command m)
                in Inr (m'\<lparr>mx_latest := (mx_latest m')(source \<mapsto> (t, command))\<rparr>))"

definition mux_observe :: "string list \<Rightarrow> pyfloat list \<Rightarrow> mux \<Rightarrow> mux res" where
  "mux_observe names positions m =
     (if length names \<noteq> length positions
      then Inl (ValueError ''observed position length must match joint names'')
      else Inr (fold (\<lambda>(n, v) m. if mx_owners m n \<noteq> None \<and> isfinite v
                                  then m\<lparr>mx_measured := (mx_measured m)(n \<mapsto> v)\<rparr> else m)
                     (zip names positions) m))"

text \<open>The measured positions of a command's joints, in the command's order.\<close>

definition measured_hold :: "mux \<Rightarrow> string list \<Rightarrow> (string \<times> pyfloat) list" where
  "measured_hold m names =
     List.map_filter (\<lambda>n. map_option (Pair n) (mx_measured m n)) names"

text \<open>
  The watchdog transition of \<open>_compose_packets\<close>: freeze the measured hold once, announce it,
  then at most once per logging period while it lasts.
\<close>

definition mark_stale :: "string \<Rightarrow> pyfloat \<Rightarrow> pyfloat \<Rightarrow> joint_command \<Rightarrow> mux \<Rightarrow> mux" where
  "mark_stale source t received command m =
     (let age = fsub t received in
      case mx_holds m source of
        None \<Rightarrow>
          let hold = measured_hold m (jc_names command) in
          m\<lparr>mx_holds := (mx_holds m)(source \<mapsto> hold),
            mx_stale_since := (mx_stale_since m)(source \<mapsto> t),
            mx_last_logged := (mx_last_logged m)(source \<mapsto> t),
            mx_log := mx_log m @ [StaleHold source hold age]\<rparr>
      | Some hold \<Rightarrow>
          let last = (case mx_last_logged m source of None \<Rightarrow> NInf | Some l \<Rightarrow> l) in
          if fle STALE_HOLD_ACTIVE_LOG_PERIOD_S (fsub t last)
          then m\<lparr>mx_last_logged := (mx_last_logged m)(source \<mapsto> t),
                 mx_log := mx_log m @ [StaleHoldActive source hold age]\<rparr>
          else m)"

definition held_positions :: "(string \<rightharpoonup> pyfloat) \<Rightarrow> string list \<Rightarrow> pyfloat list option" where
  "held_positions hold names =
     (if list_all (\<lambda>n. hold n \<noteq> None) names then Some (map (\<lambda>n. the (hold n)) names)
      else None)"

text \<open>The packet of one source that has a latest command (lines 386 to 425).\<close>

definition source_packet :: "bool \<Rightarrow> bool \<Rightarrow> string \<Rightarrow> joint_command \<Rightarrow> mux \<Rightarrow> joint_command" where
  "source_packet force_safe stale source command m =
     (let names = jc_names command;
          stale_hold = map_of (case mx_holds m source of None \<Rightarrow> [] | Some h \<Rightarrow> h);
          zeros = map (\<lambda>_. Fin 0) names;
          retired = mx_retired m source \<inter> set names \<noteq> {};
          positions =
            (if jc_positions command \<noteq> [] then
               (let hold = (if stale \<and> \<not> force_safe then stale_hold else mx_measured m) in
                if stale then (case held_positions hold names of Some ps \<Rightarrow> ps | None \<Rightarrow> [])
                else jc_positions command)
             else if stale then
               (case held_positions (if \<not> force_safe then stale_hold else mx_measured m) names of
                  Some ps \<Rightarrow> ps | None \<Rightarrow> [])
             else []);
          velocities =
            (if stale \<and> (jc_velocities command \<noteq> [] \<or> retired) then zeros
             else if jc_velocities command = [] \<and> retired then zeros
             else jc_velocities command);
          efforts = (if stale \<and> jc_efforts command \<noteq> [] then zeros else jc_efforts command)
      in \<lparr>jc_names = names, jc_positions = positions, jc_velocities = velocities,
          jc_efforts = efforts\<rparr>)"

definition validated :: "joint_command \<Rightarrow> joint_command list res" where
  "validated packet = (case jc_validate packet of Inl e \<Rightarrow> Inl e | Inr _ \<Rightarrow> Inr [packet])"

definition is_stale :: "bool \<Rightarrow> pyfloat \<Rightarrow> pyfloat \<Rightarrow> command_source \<Rightarrow> bool" where
  "is_stale force_safe t received policy \<longleftrightarrow>
     force_safe \<or> flt (cs_timeout policy) (fsub t received)"

text \<open>One iteration of the loop of \<open>_compose_packets\<close>: the new state, then no packet, one
  packet, or the exception of its validation.\<close>

definition compose_source ::
  "bool \<Rightarrow> pyfloat \<Rightarrow> string \<times> command_source \<Rightarrow> mux \<Rightarrow> mux \<times> joint_command list res" where
  "compose_source force_safe t sp m =
     (let (source, policy) = sp in
      case mx_latest m source of
        None \<Rightarrow>
          if force_safe then
            (let names = sort (filter (\<lambda>n. mx_measured m n \<noteq> None) (cs_joints policy)) in
             if names \<noteq> []
             then (m, validated \<lparr>jc_names = names,
                       jc_positions = map (\<lambda>n. the (mx_measured m n)) names,
                       jc_velocities = [], jc_efforts = []\<rparr>)
             else (m, Inr []))
          else (m, Inr [])
      | Some (received, command) \<Rightarrow>
          let stale = is_stale force_safe t received policy;
              m' = (if stale \<and> \<not> force_safe then mark_stale source t received command m else m)
          in (m', validated (source_packet force_safe stale source command m')))"

fun compose_loop ::
  "bool \<Rightarrow> pyfloat \<Rightarrow> (string \<times> command_source) list \<Rightarrow> mux \<Rightarrow> mux \<times> joint_command list res" where
  "compose_loop force_safe t [] m = (m, Inr [])"
| "compose_loop force_safe t (sp # sps) m =
     (case compose_source force_safe t sp m of
        (m', Inl e) \<Rightarrow> (m', Inl e)
      | (m', Inr pk) \<Rightarrow>
          (case compose_loop force_safe t sps m' of
             (m'', Inl e) \<Rightarrow> (m'', Inl e)
           | (m'', Inr pks) \<Rightarrow> (m'', Inr (pk @ pks))))"

definition compose_packets :: "bool \<Rightarrow> pyfloat \<Rightarrow> mux \<Rightarrow> mux \<times> joint_command list res" where
  "compose_packets force_safe t m = compose_loop force_safe t (mx_sources m) m"

definition mux_compose :: "pyfloat \<Rightarrow> mux \<Rightarrow> mux \<times> joint_command list res" where
  "mux_compose t m =
     (if \<not> isfinite t then (m, Inl (ValueError ''steady time must be finite''))
      else if mx_safety_stop m then (m, Inr (mx_stopped m))
      else compose_packets False t m)"

text \<open>The joint and position pairs a stop holds, as its log line lists them.\<close>

definition held_pairs :: "joint_command list \<Rightarrow> (string \<times> pyfloat) list" where
  "held_pairs packets = concat (map (\<lambda>p. zip (jc_names p) (jc_positions p)) packets)"

definition mux_stop :: "bool \<Rightarrow> mux \<Rightarrow> mux \<times> unit res" where
  "mux_stop active m =
     (if active \<and> \<not> mx_safety_stop m then
        (case compose_packets True PInf m of
           (m', Inl e) \<Rightarrow> (m', Inl e)
         | (m', Inr packets) \<Rightarrow>
             (m'\<lparr>mx_stopped := packets, mx_latest := Map.empty, mx_velocity := (\<lambda>_. {}),
                 mx_retired := (\<lambda>_. {}), mx_log := mx_log m' @ [MuxStopEngaged (held_pairs packets)],
                 mx_safety_stop := True\<rparr>, Inr ()))
      else if \<not> active \<and> mx_safety_stop m then
        (m\<lparr>mx_log := mx_log m @ [MuxStopReleased (held_pairs (mx_stopped m))],
           mx_stopped := [], mx_safety_stop := False\<rparr>, Inr ())
      else (m\<lparr>mx_safety_stop := active\<rparr>, Inr ()))"

section \<open>Validation\<close>

definition valid_command :: "joint_command \<Rightarrow> bool" where
  "valid_command c \<longleftrightarrow> jc_validate c = Inr ()"

definition values_ok :: "string list \<Rightarrow> pyfloat list \<Rightarrow> bool" where
  "values_ok names values \<longleftrightarrow>
     (values = [] \<or> length values = length names) \<and> list_all isfinite values"

lemma check_values_ok [simp]: "check_values l ns vs = Inr () \<longleftrightarrow> values_ok ns vs"
  by (auto simp: check_values_def values_ok_def)

lemma check_values_Inl: "check_values l ns vs = Inl e \<Longrightarrow> \<not> values_ok ns vs"
  by (metis Inl_Inr_False check_values_ok)

lemma valid_command_iff:
  "valid_command c \<longleftrightarrow> jc_names c \<noteq> [] \<and> distinct (jc_names c)
     \<and> values_ok (jc_names c) (jc_positions c) \<and> values_ok (jc_names c) (jc_velocities c)
     \<and> values_ok (jc_names c) (jc_efforts c)"
  by (auto simp: valid_command_def jc_validate_def dest: check_values_Inl split: sum.splits)

lemma jc_validate_cases: "jc_validate c = Inr () \<or> (\<exists>e. jc_validate c = Inl e)"
  by (cases "jc_validate c") auto

lemma validated_ok: "valid_command c \<Longrightarrow> validated c = Inr [c]"
  by (simp add: validated_def valid_command_def)

lemma values_ok_zeros [simp]: "values_ok ns (map (\<lambda>_. Fin 0) ns)"
  by (simp add: values_ok_def list_all_iff)

lemma values_ok_Nil [simp]: "values_ok ns []"
  by (simp add: values_ok_def)

lemma foreign_Nil_iff: "foreign_joints c p = [] \<longleftrightarrow> set (jc_names c) \<subseteq> set (cs_joints p)"
proof -
  have "foreign_joints c p = [] \<longleftrightarrow> set (foreign_joints c p) = {}" by simp
  then show ?thesis by (auto simp: foreign_joints_def filter_empty_conv)
qed

section \<open>Ownership\<close>

lemma claim_joints_ok:
  assumes "claim_joints s js o0 = Inr o1" "distinct js"
  shows "(\<forall>j \<in> set js. o1 j = Some s \<and> o0 j = None) \<and> (\<forall>j. j \<notin> set js \<longrightarrow> o1 j = o0 j)"
  using assms
proof (induction js arbitrary: o0)
  case (Cons j js)
  from Cons.prems(1) have "o0 j = None" and "claim_joints s js (o0(j \<mapsto> s)) = Inr o1"
    by (simp_all split: option.splits)
  from Cons.IH [OF this(2)] Cons.prems(2)
  have a: "\<And>i. i \<in> set js \<Longrightarrow> o1 i = Some s \<and> (o0(j \<mapsto> s)) i = None"
    and b: "\<And>i. i \<notin> set js \<Longrightarrow> o1 i = (o0(j \<mapsto> s)) i" and j: "j \<notin> set js"
    by simp_all
  have "o1 j = Some s" using b [OF j] by simp
  moreover have "o0 i = None" if "i \<in> set js" for i
    using a [OF that] that j by (auto split: if_splits)
  ultimately show ?case using a b \<open>o0 j = None\<close> by simp
qed simp

lemma claim_sources_ok:
  assumes "claim_sources sps o0 = Inr o1" "\<forall>s p. (s, p) \<in> set sps \<longrightarrow> distinct (cs_joints p)"
  shows "(\<forall>s p. (s, p) \<in> set sps \<longrightarrow> (\<forall>j \<in> set (cs_joints p). o1 j = Some s))
       \<and> (\<forall>j s. o0 j = Some s \<longrightarrow> o1 j = Some s)"
  using assms
proof (induction sps arbitrary: o0)
  case (Cons sp rest)
  obtain s p where sp: "sp = (s, p)" by (cases sp)
  with Cons.prems(1) obtain o2 where o2: "claim_joints s (cs_joints p) o0 = Inr o2"
    and rest: "claim_sources rest o2 = Inr o1"
    by (auto split: sum.splits)
  have IH: "\<forall>s p. (s, p) \<in> set rest \<longrightarrow> (\<forall>j \<in> set (cs_joints p). o1 j = Some s)"
    "\<forall>j s. o2 j = Some s \<longrightarrow> o1 j = Some s"
    using Cons.IH [OF rest] Cons.prems(2) by simp_all
  have d: "distinct (cs_joints p)" using Cons.prems(2) sp by simp
  have c: "\<forall>j \<in> set (cs_joints p). o2 j = Some s" "\<forall>j s. o0 j = Some s \<longrightarrow> o2 j = Some s"
    using claim_joints_ok [OF o2 d] by (simp, metis option.distinct(1))
  show ?case using IH c sp by auto
qed simp

section \<open>The mux invariant\<close>

text \<open>A packet list drives every joint at most once, and only with valid commands.\<close>

definition snapshot_ok :: "joint_command list \<Rightarrow> bool" where
  "snapshot_ok pks \<longleftrightarrow> list_all valid_command pks \<and> distinct (concat (map jc_names pks))"

definition packet_joints :: "joint_command list \<Rightarrow> string set" where
  "packet_joints pks = (\<Union>p \<in> set pks. set (jc_names p))"

text \<open>Every packet comes from one source, and drives joints of that source only.\<close>

definition single_source :: "(string \<times> command_source) list \<Rightarrow> joint_command list \<Rightarrow> bool" where
  "single_source sps pks \<longleftrightarrow>
     list_all (\<lambda>p. list_ex (\<lambda>sp. set (jc_names p) \<subseteq> set (cs_joints (snd sp))) sps) pks"

definition all_zero :: "pyfloat list \<Rightarrow> bool" where
  "all_zero vs \<longleftrightarrow> list_all (\<lambda>v. v = Fin 0) vs"

text \<open>A safe packet moves nothing: every velocity and effort it carries is zero.\<close>

definition safe_packet :: "joint_command \<Rightarrow> bool" where
  "safe_packet p \<longleftrightarrow> all_zero (jc_velocities p) \<and> all_zero (jc_efforts p)"

definition sources_inv :: "mux \<Rightarrow> bool" where
  "sources_inv m \<longleftrightarrow>
     distinct (map fst (mx_sources m)) \<and>
     (\<forall>s p. (s, p) \<in> set (mx_sources m) \<longrightarrow>
        distinct (cs_joints p) \<and> (\<forall>j \<in> set (cs_joints p). mx_owners m j = Some s))"

definition values_inv :: "mux \<Rightarrow> bool" where
  "values_inv m \<longleftrightarrow>
     (\<forall>n v. mx_measured m n = Some v \<longrightarrow> isfinite v) \<and>
     (\<forall>s h. mx_holds m s = Some h \<longrightarrow> (\<forall>n v. (n, v) \<in> set h \<longrightarrow> isfinite v)) \<and>
     (\<forall>s t c. mx_latest m s = Some (t, c) \<longrightarrow> isfinite t \<and> valid_command c
        \<and> (\<exists>p. map_of (mx_sources m) s = Some p \<and> set (jc_names c) \<subseteq> set (cs_joints p)))"

definition stop_inv :: "mux \<Rightarrow> bool" where
  "stop_inv m \<longleftrightarrow>
     (mx_safety_stop m \<longrightarrow>
        mx_latest m = Map.empty \<and> snapshot_ok (mx_stopped m) \<and> list_all safe_packet (mx_stopped m)
        \<and> single_source (mx_sources m) (mx_stopped m))"

definition mux_inv :: "mux \<Rightarrow> bool" where
  "mux_inv m \<longleftrightarrow> sources_inv m \<and> values_inv m \<and> stop_inv m"

lemma mux_new_ok:
  "mux_new sources = Inr m \<longleftrightarrow>
     sources \<noteq> [] \<and> (\<exists>owners. claim_sources sources Map.empty = Inr owners \<and>
        m = \<lparr>mx_sources = sources, mx_owners = owners, mx_latest = Map.empty,
             mx_measured = Map.empty, mx_holds = Map.empty, mx_stale_since = Map.empty,
             mx_last_logged = Map.empty, mx_velocity = (\<lambda>_. {}), mx_retired = (\<lambda>_. {}),
             mx_stopped = [], mx_safety_stop = False, mx_log = []\<rparr>)"
  by (auto simp: mux_new_def split: sum.splits)

lemma mux_new_inv:
  assumes "mux_new sources = Inr m" "distinct (map fst sources)"
    "\<forall>s p. (s, p) \<in> set sources \<longrightarrow> distinct (cs_joints p)"
  shows "mux_inv m"
proof -
  obtain owners where "claim_sources sources Map.empty = Inr owners"
    and m: "mx_sources m = sources" "mx_owners m = owners" "mx_latest m = Map.empty"
      "mx_measured m = Map.empty" "mx_holds m = Map.empty" "\<not> mx_safety_stop m"
    using assms(1) by (auto simp: mux_new_ok)
  with claim_sources_ok [of sources Map.empty owners] assms(2,3) show ?thesis
    by (simp add: mux_inv_def sources_inv_def values_inv_def stop_inv_def)
qed

lemma source_policy: "sources_inv m \<Longrightarrow> (s, p) \<in> set (mx_sources m) \<longleftrightarrow> map_of (mx_sources m) s = Some p"
  by (auto simp: sources_inv_def intro: map_of_SomeD)

section \<open>Composition\<close>

lemma set_measured_hold:
  "(n, v) \<in> set (measured_hold m ns) \<longleftrightarrow> n \<in> set ns \<and> mx_measured m n = Some v"
  by (auto simp: measured_hold_def List.map_filter_def image_iff)

lemma mark_stale_frame [simp]:
  "mx_sources (mark_stale s t r c m) = mx_sources m"
  "mx_owners (mark_stale s t r c m) = mx_owners m"
  "mx_latest (mark_stale s t r c m) = mx_latest m"
  "mx_measured (mark_stale s t r c m) = mx_measured m"
  "mx_retired (mark_stale s t r c m) = mx_retired m"
  "mx_velocity (mark_stale s t r c m) = mx_velocity m"
  "mx_stopped (mark_stale s t r c m) = mx_stopped m"
  "mx_safety_stop (mark_stale s t r c m) = mx_safety_stop m"
  by (auto simp: mark_stale_def Let_def split: option.splits)

lemma mark_stale_holds:
  "mx_holds (mark_stale s t r c m) =
     (case mx_holds m s of
        None \<Rightarrow> (mx_holds m)(s \<mapsto> measured_hold m (jc_names c))
      | Some _ \<Rightarrow> mx_holds m)"
  by (auto simp: mark_stale_def Let_def split: option.splits)

lemma mark_stale_inv: "mux_inv m \<Longrightarrow> mux_inv (mark_stale s t r c m)"
  by (auto simp: mux_inv_def sources_inv_def values_inv_def stop_inv_def mark_stale_holds
      set_measured_hold split: option.splits if_splits)

lemma held_positions_ok:
  assumes "held_positions h ns = Some ps" "\<And>n v. h n = Some v \<Longrightarrow> isfinite v"
  shows "values_ok ns ps"
  using assms by (auto simp: held_positions_def values_ok_def list_all_iff split: if_splits)

lemma hold_values:
  assumes "mux_inv m"
  shows "map_of (case mx_holds m s of None \<Rightarrow> [] | Some h \<Rightarrow> h) n = Some v \<Longrightarrow> isfinite v"
  using assms by (auto simp: mux_inv_def values_inv_def dest!: map_of_SomeD split: option.splits)

lemma measured_values: "mux_inv m \<Longrightarrow> mx_measured m n = Some v \<Longrightarrow> isfinite v"
  by (auto simp: mux_inv_def values_inv_def)

lemma source_packet_names [simp]: "jc_names (source_packet f st s c m) = jc_names c"
  by (simp add: source_packet_def Let_def)

lemma source_packet_valid:
  assumes "mux_inv m" "valid_command c"
  shows "valid_command (source_packet f st s c m)"
proof -
  note h = held_positions_ok [where ns = "jc_names c"]
  have hold: "values_ok (jc_names c) ps"
    if "held_positions (map_of (case mx_holds m s of None \<Rightarrow> [] | Some h \<Rightarrow> h)) (jc_names c) = Some ps"
    for ps using that hold_values [OF assms(1)] by (rule h)
  have meas: "values_ok (jc_names c) ps"
    if "held_positions (mx_measured m) (jc_names c) = Some ps"
    for ps using that measured_values [OF assms(1)] by (rule h)
  show ?thesis
    using assms(2) hold meas
    by (auto simp: valid_command_iff source_packet_def Let_def split: option.splits)
qed

lemma source_packet_safe: "safe_packet (source_packet f True s c m)"
  by (auto simp: safe_packet_def all_zero_def list_all_iff source_packet_def Let_def)

end
