(* ===== verification/Mux_Safety.thy ===== *)
theory Mux_Safety
  imports Command_Mux
begin

text \<open>
  What the joint command multiplexer guarantees: its operations as events, the
  invariant of every run, exclusive ownership of joints, the behaviour of stale
  sources and the safety stop latch.
\<close>

section \<open>One source, then all of them\<close>

definition result_packets :: "mux \<times> joint_command list res \<Rightarrow> joint_command list" where
  "result_packets r = (case snd r of Inl _ \<Rightarrow> [] | Inr pks \<Rightarrow> pks)"

lemma mux_invD:
  "mux_inv m \<Longrightarrow> sources_inv m" "mux_inv m \<Longrightarrow> values_inv m" "mux_inv m \<Longrightarrow> stop_inv m"
  by (simp_all add: mux_inv_def)

lemma latest_inv:
  assumes "mux_inv m" "mx_latest m s = Some (r, c)" "(s, p) \<in> set (mx_sources m)"
  shows "valid_command c" "set (jc_names c) \<subseteq> set (cs_joints p)" "isfinite r"
proof -
  have p: "map_of (mx_sources m) s = Some p"
    using assms(1,3) mux_invD(1) source_policy by blast
  from assms(1,2) have "valid_command c \<and> isfinite r \<and>
      (\<exists>p. map_of (mx_sources m) s = Some p \<and> set (jc_names c) \<subseteq> set (cs_joints p))"
    unfolding mux_inv_def values_inv_def by blast
  with p show "valid_command c" "set (jc_names c) \<subseteq> set (cs_joints p)" "isfinite r" by auto
qed

text \<open>The state change of one iteration, and the packets it adds.\<close>

definition source_update :: "bool \<Rightarrow> pyfloat \<Rightarrow> string \<times> command_source \<Rightarrow> mux \<Rightarrow> mux" where
  "source_update f t sp m =
     (case mx_latest m (fst sp) of
        None \<Rightarrow> m
      | Some (r, c) \<Rightarrow> if is_stale f t r (snd sp) \<and> \<not> f then mark_stale (fst sp) t r c m else m)"

lemma compose_source_fst: "fst (compose_source f t sp m) = source_update f t sp m"
  by (cases sp) (auto simp: compose_source_def source_update_def Let_def split: option.splits)

lemma source_update_frame [simp]:
  "mx_sources (source_update f t sp m) = mx_sources m"
  "mx_owners (source_update f t sp m) = mx_owners m"
  "mx_latest (source_update f t sp m) = mx_latest m"
  "mx_measured (source_update f t sp m) = mx_measured m"
  "mx_retired (source_update f t sp m) = mx_retired m"
  "mx_velocity (source_update f t sp m) = mx_velocity m"
  "mx_stopped (source_update f t sp m) = mx_stopped m"
  "mx_safety_stop (source_update f t sp m) = mx_safety_stop m"
  by (auto simp: source_update_def split: option.splits)

lemma source_update_inv: "mux_inv m \<Longrightarrow> mux_inv (source_update f t sp m)"
  by (auto simp: source_update_def intro: mark_stale_inv split: option.splits)

lemma source_update_holds_other:
  "s \<noteq> fst sp \<Longrightarrow> mx_holds (source_update f t sp m) s = mx_holds m s"
  by (auto simp: source_update_def mark_stale_holds split: option.splits)

lemma source_update_force [simp]: "source_update True t sp m = m"
  by (auto simp: source_update_def split: option.splits)

lemma measured_packet_valid:
  assumes "mux_inv m" "distinct (cs_joints p)"
    "ns = sort (filter (\<lambda>n. mx_measured m n \<noteq> None) (cs_joints p))" "ns \<noteq> []"
  shows "valid_command \<lparr>jc_names = ns, jc_positions = map (\<lambda>n. the (mx_measured m n)) ns,
           jc_velocities = [], jc_efforts = []\<rparr>"
proof -
  have "isfinite (the (mx_measured m n))" if "n \<in> set ns" for n
    using that assms(3) measured_values [OF assms(1)] by auto
  then show ?thesis using assms(2-4)
    by (auto simp: valid_command_iff values_ok_def list_all_iff)
qed

lemma compose_source_ok:
  assumes inv: "mux_inv m" and mem: "(s, p) \<in> set (mx_sources m)"
  shows "\<exists>pk. snd (compose_source f t (s, p) m) = Inr pk \<and> list_all valid_command pk
     \<and> packet_joints pk \<subseteq> set (cs_joints p) \<and> distinct (concat (map jc_names pk))
     \<and> (f \<longrightarrow> list_all safe_packet pk)"
proof (cases "mx_latest m s")
  case None
  have d: "distinct (cs_joints p)"
    using inv mem by (auto simp: mux_inv_def sources_inv_def)
  define ns where "ns = sort (filter (\<lambda>n. mx_measured m n \<noteq> None) (cs_joints p))"
  define pk where "pk = \<lparr>jc_names = ns, jc_positions = map (\<lambda>n. the (mx_measured m n)) ns,
           jc_velocities = [], jc_efforts = []\<rparr>"
  have "snd (compose_source f t (s, p) m)
      = (if f \<and> ns \<noteq> [] then validated pk else Inr [])"
    using None by (simp add: compose_source_def ns_def pk_def Let_def)
  moreover have "ns \<noteq> [] \<Longrightarrow> valid_command pk"
    unfolding pk_def using measured_packet_valid [OF inv d ns_def] by simp
  moreover have "set ns \<subseteq> set (cs_joints p)" "distinct ns" using d by (auto simp: ns_def)
  ultimately show ?thesis
    by (auto simp: validated_ok packet_joints_def safe_packet_def all_zero_def pk_def)
next
  case (Some rc)
  then obtain r c where rc: "mx_latest m s = Some (r, c)" by (cases rc) simp
  define m' where "m' = source_update f t (s, p) m"
  define pk where "pk = source_packet f (is_stale f t r p) s c m'"
  have out: "snd (compose_source f t (s, p) m) = validated pk"
    using rc by (cases "is_stale f t r p"; cases f)
      (simp_all add: compose_source_def m'_def pk_def source_update_def Let_def)
  note l = latest_inv [OF inv rc mem]
  have "valid_command pk" unfolding pk_def m'_def
    by (rule source_packet_valid [OF source_update_inv [OF inv] l(1)])
  moreover have "f \<Longrightarrow> safe_packet pk"
    by (simp add: pk_def is_stale_def source_packet_safe)
  moreover have "jc_names pk = jc_names c" by (simp add: pk_def)
  ultimately show ?thesis using out l(1,2)
    by (auto simp: validated_ok packet_joints_def valid_command_iff)
qed

lemma single_source_joints:
  "single_source sps pks \<Longrightarrow> packet_joints pks \<subseteq> (\<Union>sp \<in> set sps. set (cs_joints (snd sp)))"
  by (fastforce simp: single_source_def packet_joints_def list_all_iff list_ex_iff)

lemma compose_loop_ok:
  assumes "mux_inv m" "set sps \<subseteq> set (mx_sources m)" "distinct (map fst sps)"
  shows "\<exists>m' pks. compose_loop f t sps m = (m', Inr pks) \<and> mux_inv m'
     \<and> snapshot_ok pks \<and> (f \<longrightarrow> list_all safe_packet pks)
     \<and> single_source sps pks"
  using assms
proof (induction sps arbitrary: m)
  case Nil
  then show ?case by (simp add: snapshot_ok_def single_source_def)
next
  case (Cons sp sps)
  obtain s p where sp: "sp = (s, p)" by (cases sp)
  define m' where "m' = source_update f t sp m"
  have mem: "(s, p) \<in> set (mx_sources m)" using Cons.prems(2) sp by simp
  obtain pk where pk: "compose_source f t sp m = (m', Inr pk)" "list_all valid_command pk"
    "packet_joints pk \<subseteq> set (cs_joints p)" "distinct (concat (map jc_names pk))"
    "f \<longrightarrow> list_all safe_packet pk"
    using compose_source_ok [OF Cons.prems(1) mem, of f t] compose_source_fst [of f t sp m]
    unfolding sp m'_def by (metis prod.collapse)
  have m': "mux_inv m'" "set sps \<subseteq> set (mx_sources m')" "distinct (map fst sps)"
    unfolding m'_def using Cons.prems source_update_inv by auto
  obtain m2 pks where l: "compose_loop f t sps m' = (m2, Inr pks)" "mux_inv m2"
    "snapshot_ok pks" "f \<longrightarrow> list_all safe_packet pks"
    "single_source sps pks"
    using Cons.IH [OF m'] by auto
  have disj: "set (cs_joints p) \<inter> (\<Union>sp \<in> set sps. set (cs_joints (snd sp))) = {}"
  proof -
    have "j \<notin> set (cs_joints q)" if "j \<in> set (cs_joints p)" "(s', q) \<in> set sps" for j s' q
    proof -
      have "s' \<noteq> s" using Cons.prems(3) that(2) sp by (auto simp: rev_image_eqI)
      moreover have "mx_owners m j = Some s"
        using mux_invD(1) [OF Cons.prems(1)] mem that(1) by (auto simp: sources_inv_def)
      moreover have "mx_owners m j = Some s'" if "j \<in> set (cs_joints q)"
        using mux_invD(1) [OF Cons.prems(1)] Cons.prems(2) \<open>(s', q) \<in> set sps\<close> that
        by (auto simp: sources_inv_def)
      ultimately show ?thesis by auto
    qed
    then show ?thesis by fastforce
  qed
  have "packet_joints pk \<inter> packet_joints pks = {}" using pk(3) single_source_joints [OF l(5)] disj by blast
  then have "snapshot_ok (pk @ pks)"
    using pk(2,4) l(3) by (auto simp: snapshot_ok_def packet_joints_def)
  moreover have "compose_loop f t (sp # sps) m = (m2, Inr (pk @ pks))"
    using pk(1) l(1) by simp
  moreover have "single_source (sp # sps) (pk @ pks)"
    using pk(3) l(5) sp
    by (auto simp: single_source_def packet_joints_def list_all_iff list_ex_iff)
  ultimately show ?case using l(2,4) pk(5) by auto
qed

lemma compose_packets_ok:
  assumes "mux_inv m"
  obtains m' pks where "compose_packets f t m = (m', Inr pks)" "mux_inv m'" "snapshot_ok pks"
    "f \<longrightarrow> list_all safe_packet pks" "single_source (mx_sources m) pks"
proof -
  have "distinct (map fst (mx_sources m))"
    using mux_invD(1) [OF assms] by (simp add: sources_inv_def)
  from compose_loop_ok [OF assms order.refl this, of f t]
  obtain m' pks where "compose_loop f t (mx_sources m) m = (m', Inr pks)" "mux_inv m'"
    "snapshot_ok pks" "f \<longrightarrow> list_all safe_packet pks" "single_source (mx_sources m) pks"
    by (elim exE conjE) simp
  then show thesis using that by (simp add: compose_packets_def)
qed

lemma compose_loop_frame:
  "mx_sources (fst (compose_loop f t sps m)) = mx_sources m
   \<and> mx_owners (fst (compose_loop f t sps m)) = mx_owners m
   \<and> mx_latest (fst (compose_loop f t sps m)) = mx_latest m
   \<and> mx_measured (fst (compose_loop f t sps m)) = mx_measured m
   \<and> mx_stopped (fst (compose_loop f t sps m)) = mx_stopped m
   \<and> mx_retired (fst (compose_loop f t sps m)) = mx_retired m
   \<and> mx_velocity (fst (compose_loop f t sps m)) = mx_velocity m
   \<and> mx_safety_stop (fst (compose_loop f t sps m)) = mx_safety_stop m"
proof (induction sps arbitrary: m)
  case (Cons sp sps)
  obtain m' r where 1: "compose_source f t sp m = (m', r)" by (cases "compose_source f t sp m")
  then have m': "m' = source_update f t sp m" using compose_source_fst [of f t sp m] by simp
  obtain m'' r' where 2: "compose_loop f t sps m' = (m'', r')" by (cases "compose_loop f t sps m'")
  show ?case using Cons.IH [of m'] 1 2 m' by (auto split: sum.splits)
qed simp

section \<open>Every operation keeps the invariant\<close>

lemma note_velocity_frame [simp]:
  "mx_sources (note_velocity_mode s c m) = mx_sources m"
  "mx_owners (note_velocity_mode s c m) = mx_owners m"
  "mx_latest (note_velocity_mode s c m) = mx_latest m"
  "mx_measured (note_velocity_mode s c m) = mx_measured m"
  "mx_holds (note_velocity_mode s c m) = mx_holds m"
  "mx_stopped (note_velocity_mode s c m) = mx_stopped m"
  "mx_safety_stop (note_velocity_mode s c m) = mx_safety_stop m"
  by (simp_all add: note_velocity_mode_def Let_def)

lemma clear_stale_frame [simp]:
  "mx_sources (clear_stale_hold s t m) = mx_sources m"
  "mx_owners (clear_stale_hold s t m) = mx_owners m"
  "mx_latest (clear_stale_hold s t m) = mx_latest m"
  "mx_measured (clear_stale_hold s t m) = mx_measured m"
  "mx_holds (clear_stale_hold s t m) = (mx_holds m)(s := None)"
  "mx_stopped (clear_stale_hold s t m) = mx_stopped m"
  "mx_safety_stop (clear_stale_hold s t m) = mx_safety_stop m"
  by (auto simp: clear_stale_hold_def Let_def split: option.splits)

lemma note_velocity_other:
  "s' \<noteq> s \<Longrightarrow> mx_velocity (clear_stale_hold s t (note_velocity_mode s c m)) s' = mx_velocity m s'"
  "s' \<noteq> s \<Longrightarrow> mx_retired (clear_stale_hold s t (note_velocity_mode s c m)) s' = mx_retired m s'"
  by (auto simp: note_velocity_mode_def clear_stale_hold_def Let_def split: option.splits)

text \<open>When a command is accepted, and what the accepted command becomes.\<close>

definition acceptable :: "string \<Rightarrow> joint_command \<Rightarrow> pyfloat \<Rightarrow> mux \<Rightarrow> bool" where
  "acceptable s c t m \<longleftrightarrow>
     (\<exists>p. map_of (mx_sources m) s = Some p \<and> set (jc_names c) \<subseteq> set (cs_joints p))
     \<and> isfinite t \<and> \<not> mx_safety_stop m \<and> valid_command c"

lemma mux_accept_unfold:
  "mux_accept s c t m = Inr m' \<longleftrightarrow> acceptable s c t m \<and>
     m' = (clear_stale_hold s t (note_velocity_mode s c m))
            \<lparr>mx_latest := (mx_latest m)(s \<mapsto> (t, c))\<rparr>"
  using jc_validate_cases [of c]
  by (auto simp: mux_accept_def acceptable_def foreign_Nil_iff valid_command_def Let_def
      split: option.splits if_splits sum.splits)

lemma mux_accept_inv: "mux_inv m \<Longrightarrow> mux_accept s c t m = Inr m' \<Longrightarrow> mux_inv m'"
  by (auto simp: mux_accept_unfold acceptable_def mux_inv_def sources_inv_def values_inv_def
      stop_inv_def split: if_splits)

definition observe_one :: "string \<times> pyfloat \<Rightarrow> mux \<Rightarrow> mux" where
  "observe_one nv m =
     (if mx_owners m (fst nv) \<noteq> None \<and> isfinite (snd nv)
      then m\<lparr>mx_measured := (mx_measured m)(fst nv \<mapsto> snd nv)\<rparr> else m)"

lemma mux_observe_eq:
  "mux_observe ns vs m = Inr m' \<longleftrightarrow>
     length ns = length vs \<and> m' = fold observe_one (zip ns vs) m"
  by (auto simp: mux_observe_def observe_one_def case_prod_beta' fun_eq_iff
      intro: fold_cong arg_cong [where f = "\<lambda>f. fold f _ _"])

lemma observe_one_frame [simp]:
  "mx_sources (observe_one nv m) = mx_sources m" "mx_owners (observe_one nv m) = mx_owners m"
  "mx_latest (observe_one nv m) = mx_latest m" "mx_holds (observe_one nv m) = mx_holds m"
  "mx_stopped (observe_one nv m) = mx_stopped m" "mx_retired (observe_one nv m) = mx_retired m"
  "mx_safety_stop (observe_one nv m) = mx_safety_stop m"
  by (simp_all add: observe_one_def)

lemma observe_one_inv: "mux_inv m \<Longrightarrow> mux_inv (observe_one nv m)"
  by (auto simp: mux_inv_def sources_inv_def values_inv_def stop_inv_def observe_one_def)

lemma fold_observe_inv: "mux_inv m \<Longrightarrow> mux_inv (fold observe_one nvs m)"
  by (induction nvs arbitrary: m) (auto intro: observe_one_inv)

lemma fold_observe_frame:
  "mx_sources (fold observe_one nvs m) = mx_sources m \<and>
   mx_owners (fold observe_one nvs m) = mx_owners m \<and>
   mx_latest (fold observe_one nvs m) = mx_latest m \<and>
   mx_holds (fold observe_one nvs m) = mx_holds m \<and>
   mx_stopped (fold observe_one nvs m) = mx_stopped m \<and>
   mx_retired (fold observe_one nvs m) = mx_retired m \<and>
   mx_safety_stop (fold observe_one nvs m) = mx_safety_stop m"
  by (induction nvs arbitrary: m) auto

lemma mux_observe_inv: "mux_inv m \<Longrightarrow> mux_observe ns vs m = Inr m' \<Longrightarrow> mux_inv m'"
  by (auto simp: mux_observe_eq intro: fold_observe_inv)

lemma mux_compose_inv: "mux_inv m \<Longrightarrow> mux_inv (fst (mux_compose t m))"
  by (metis (no_types, lifting) compose_packets_ok fst_conv mux_compose_def)

lemma mux_stop_ok:
  assumes "mux_inv m"
  shows "snd (mux_stop b m) = Inr () \<and> mux_inv (fst (mux_stop b m))
       \<and> mx_safety_stop (fst (mux_stop b m)) = b
       \<and> mx_sources (fst (mux_stop b m)) = mx_sources m
       \<and> mx_owners (fst (mux_stop b m)) = mx_owners m"
proof (cases "b \<and> \<not> mx_safety_stop m")
  case True
  obtain m' pks where c: "compose_packets True PInf m = (m', Inr pks)" "mux_inv m'"
    "snapshot_ok pks" "list_all safe_packet pks" "single_source (mx_sources m) pks"
    using compose_packets_ok [OF assms, of True PInf] by metis
  have fr: "mx_sources m' = mx_sources m" "mx_owners m' = mx_owners m"
    using compose_loop_frame [of True PInf "mx_sources m" m] c(1)
    by (simp_all add: compose_packets_def)
  show ?thesis using True c fr
    by (auto simp: mux_stop_def mux_inv_def sources_inv_def values_inv_def stop_inv_def)
next
  case False
  then show ?thesis using assms
    by (auto simp: mux_stop_def mux_inv_def sources_inv_def values_inv_def stop_inv_def)
qed

section \<open>Runs\<close>

datatype mux_event =
    Accept string joint_command pyfloat
  | Observe "string list" "pyfloat list"
  | Stop bool
  | Compose pyfloat

text \<open>A call that raises leaves the state it had reached.\<close>

fun mux_step :: "mux_event \<Rightarrow> mux \<Rightarrow> mux" where
  "mux_step (Accept s c t) m = (case mux_accept s c t m of Inl _ \<Rightarrow> m | Inr m' \<Rightarrow> m')"
| "mux_step (Observe ns vs) m = (case mux_observe ns vs m of Inl _ \<Rightarrow> m | Inr m' \<Rightarrow> m')"
| "mux_step (Stop b) m = fst (mux_stop b m)"
| "mux_step (Compose t) m = fst (mux_compose t m)"

definition mux_run :: "mux_event list \<Rightarrow> mux \<Rightarrow> mux" where
  "mux_run = run_events mux_step"

lemma mux_step_inv: "mux_inv m \<Longrightarrow> mux_inv (mux_step e m)"
  by (cases e) (auto simp: mux_compose_inv mux_stop_ok intro: mux_accept_inv mux_observe_inv
      split: sum.splits)

interpretation mux_events: event_invariant mux_step mux_inv
  by unfold_locales (rule mux_step_inv)

lemma mux_run_inv: "mux_inv m \<Longrightarrow> mux_inv (mux_run es m)"
  unfolding mux_run_def by (rule mux_events.run_inv)


section \<open>What a composition returns\<close>

text \<open>The packets of one source, read off the state before the composition.\<close>

definition source_view :: "pyfloat \<Rightarrow> mux \<Rightarrow> string \<times> command_source \<Rightarrow> joint_command list" where
  "source_view t m sp =
     (case mx_latest m (fst sp) of
        None \<Rightarrow> []
      | Some (r, c) \<Rightarrow> [source_packet False (is_stale False t r (snd sp)) (fst sp) c
                          (source_update False t sp m)])"

lemma source_packet_cong:
  assumes "mx_holds m s = mx_holds m' s" "mx_measured m = mx_measured m'"
    "mx_retired m s = mx_retired m' s"
  shows "source_packet f st s c m = source_packet f st s c m'"
  unfolding source_packet_def assms ..

lemma source_update_cong:
  "mx_holds m (fst sp) = mx_holds m' (fst sp) \<Longrightarrow> mx_measured m = mx_measured m' \<Longrightarrow>
   mx_latest m = mx_latest m' \<Longrightarrow>
   mx_holds (source_update f t sp m) (fst sp) = mx_holds (source_update f t sp m') (fst sp)"
  by (auto simp: source_update_def mark_stale_holds measured_hold_def split: option.splits)

lemma source_view_other:
  assumes "fst sp \<noteq> fst sp'"
  shows "source_view t (source_update False t' sp' m) sp = source_view t m sp"
proof -
  let ?m = "source_update False t' sp' m"
  have "mx_holds ?m (fst sp) = mx_holds m (fst sp)" using assms source_update_holds_other by blast
  then have "mx_holds (source_update False t sp ?m) (fst sp) = mx_holds (source_update False t sp m) (fst sp)"
    by (intro source_update_cong) simp_all
  then have "source_packet False st (fst sp) c (source_update False t sp ?m)
      = source_packet False st (fst sp) c (source_update False t sp m)" for st c
    by (intro source_packet_cong) simp_all
  then show ?thesis by (simp add: source_view_def split: option.splits)
qed

lemma compose_source_view:
  assumes "mux_inv m" "sp \<in> set (mx_sources m)"
  shows "snd (compose_source False t sp m) = Inr (source_view t m sp)"
proof -
  obtain s p where sp: "sp = (s, p)" by (cases sp)
  show ?thesis
  proof (cases "mx_latest m s")
    case None
    then show ?thesis using sp by (simp add: compose_source_def source_view_def)
  next
    case (Some rc)
    obtain r c where rc: "mx_latest m s = Some (r, c)" using Some by (cases rc) simp
    have "valid_command c" using latest_inv(1) [OF assms(1) rc] assms(2) sp by blast
    then have "valid_command (source_packet False (is_stale False t r p) s c (source_update False t sp m))"
      by (rule source_packet_valid [OF source_update_inv [OF assms(1)]])
    then show ?thesis using rc sp
      by (cases "is_stale False t r p")
        (simp_all add: compose_source_def source_view_def source_update_def validated_ok Let_def)
  qed
qed

lemma compose_loop_view:
  assumes "mux_inv m" "set sps \<subseteq> set (mx_sources m)" "distinct (map fst sps)"
  shows "snd (compose_loop False t sps m) = Inr (concat (map (source_view t m) sps))"
  using assms
proof (induction sps arbitrary: m)
  case (Cons sp sps)
  define m' where "m' = source_update False t sp m"
  have "compose_source False t sp m = (m', Inr (source_view t m sp))"
    using compose_source_view [OF Cons.prems(1), of sp t] compose_source_fst [of False t sp m]
      Cons.prems(2) unfolding m'_def by (metis list.set_intros(1) prod.collapse subsetD)
  moreover have "snd (compose_loop False t sps m') = Inr (concat (map (source_view t m') sps))"
    unfolding m'_def by (rule Cons.IH) (use Cons.prems source_update_inv in auto)
  moreover have "map (source_view t m') sps = map (source_view t m) sps"
    unfolding m'_def using Cons.prems(3) by (intro map_cong refl source_view_other) (auto simp: image_iff)
  ultimately show ?case
    by (cases "compose_loop False t sps m'") simp
qed simp

lemma mux_compose_view:
  assumes "mux_inv m" "isfinite t" "\<not> mx_safety_stop m"
  shows "snd (mux_compose t m) = Inr (concat (map (source_view t m) (mx_sources m)))"
  using compose_loop_view [OF assms(1) order.refl, of t] assms mux_invD(1) [OF assms(1)]
  by (simp add: mux_compose_def compose_packets_def sources_inv_def)

lemma compose_loop_holds:
  assumes "distinct (map fst sps)" "(s, p) \<in> set sps"
  shows "mx_holds (fst (compose_loop False t sps m)) s = mx_holds (source_update False t (s, p) m) s
    \<or> (\<exists>e. snd (compose_loop False t sps m) = Inl e)"
  using assms
proof (induction sps arbitrary: m)
  case (Cons sp sps)
  have other: "mx_holds (fst (compose_loop False t sps m')) s = mx_holds m' s"
    if "s \<notin> fst ` set sps" for m'
    using that
  proof (induction sps arbitrary: m')
    case (Cons sp' sps)
    obtain m1 r where 1: "compose_source False t sp' m' = (m1, r)"
      by (cases "compose_source False t sp' m'")
    then have m1: "m1 = source_update False t sp' m'"
      using compose_source_fst [of False t sp' m'] by simp
    have "mx_holds m1 s = mx_holds m' s"
      unfolding m1 using Cons.prems by (intro source_update_holds_other) auto
    moreover have "mx_holds (fst (compose_loop False t sps m1)) s = mx_holds m1 s"
      using Cons.IH Cons.prems by simp
    ultimately show ?case using 1
      by (cases "compose_loop False t sps m1") (auto split: sum.splits)
  qed simp
  obtain m1 r where 1: "compose_source False t sp m = (m1, r)"
    by (cases "compose_source False t sp m")
  then have m1: "m1 = source_update False t sp m"
    using compose_source_fst [of False t sp m] by simp
  show ?case
  proof (cases "sp = (s, p)")
    case True
    then have "mx_holds (fst (compose_loop False t sps m1)) s = mx_holds m1 s"
      using other Cons.prems(1) by simp
    then show ?thesis using 1 m1 True
      by (cases "compose_loop False t sps m1") (auto split: sum.splits)
  next
    case False
    then have mem: "(s, p) \<in> set sps" using Cons.prems(2) by auto
    then have ne: "s \<noteq> fst sp" using Cons.prems(1) by (auto simp: image_iff)
    have "mx_holds (source_update False t (s, p) m1) s = mx_holds (source_update False t (s, p) m) s"
      using source_update_cong [of m1 "(s, p)" m False t] ne m1 source_update_holds_other by simp
    moreover note Cons.IH [of m1] mem Cons.prems(1)
    ultimately show ?thesis using 1
      by (cases "compose_loop False t sps m1") (auto split: sum.splits)
  qed
qed simp


section \<open>Properties\<close>

text \<open>The configured sources of a launch: a dict of frozensets.\<close>

definition sources_wf :: "(string \<times> command_source) list \<Rightarrow> bool" where
  "sources_wf sps \<longleftrightarrow> distinct (map fst sps) \<and> list_all (\<lambda>sp. distinct (cs_joints (snd sp))) sps"

lemma mux_new_run_inv: "mux_new sources = Inr m0 \<Longrightarrow> sources_wf sources \<Longrightarrow> mux_inv (mux_run es m0)"
  by (rule mux_run_inv, rule mux_new_inv) (auto simp: sources_wf_def list_all_iff)

lemma mux_step_sources: "mux_inv m \<Longrightarrow> mx_sources (mux_step e m) = mx_sources m"
proof (cases e)
  case (Observe ns vs)
  then show ?thesis using fold_observe_frame
    by (auto split: sum.splits simp: mux_observe_eq)
next
  case (Compose t)
  then show ?thesis using compose_loop_frame
    by (auto simp: mux_compose_def compose_packets_def)
qed (auto simp: mux_accept_unfold mux_stop_ok split: sum.splits)

lemma mux_run_sources: "mux_inv m \<Longrightarrow> mx_sources (mux_run es m) = mx_sources m"
  unfolding mux_run_def
  by (induction es arbitrary: m) (simp_all add: mux_step_sources mux_step_inv)

lemma mux_compose_ok:
  assumes "mux_inv m" "isfinite t"
  obtains m' pks where "mux_compose t m = (m', Inr pks)" "snapshot_ok pks"
    "single_source (mx_sources m) pks" "mx_safety_stop m \<longrightarrow> list_all safe_packet pks"
proof (cases "mx_safety_stop m")
  case True
  then show thesis using that assms mux_invD(3) [OF assms(1)]
    by (auto simp: mux_compose_def stop_inv_def)
next
  case False
  from compose_packets_ok [OF assms(1), of False t] obtain m' pks where
    "compose_packets False t m = (m', Inr pks)" "snapshot_ok pks" "single_source (mx_sources m) pks"
    by metis
  then show thesis using that False assms(2) by (simp add: mux_compose_def)
qed

text \<open>C1: Whatever was accepted, observed, stopped and composed before, and whatever of that
  was rejected, composing at a finite time does not raise; the packets are valid commands,
  no joint is driven by two of them, and each packet drives joints of one source only.
  While the safety stop is active every velocity and effort of them is zero.\<close>

theorem mux_snapshot_exclusive:
  assumes "mux_new sources = Inr m0" and "sources_wf sources" and "isfinite t"
  shows "\<exists>m' pks. mux_compose t (mux_run es m0) = (m', Inr pks)
           \<and> snapshot_ok pks \<and> single_source sources pks
           \<and> (mx_safety_stop (mux_run es m0) \<longrightarrow> list_all safe_packet pks)"
proof -
  have "mux_inv m0" using mux_new_run_inv [OF assms(1,2), of "[]"] by (simp add: mux_run_def)
  moreover have "mx_sources m0 = sources" using assms(1) by (auto simp: mux_new_ok)
  ultimately have "mux_inv (mux_run es m0)" "mx_sources (mux_run es m0) = sources"
    by (simp_all add: mux_run_inv mux_run_sources)
  with assms(3) show ?thesis by (metis mux_compose_ok)
qed

text \<open>A launch with an arm and a base, and a run that lets the arm go stale.\<close>

definition demo_sources :: "(string \<times> command_source) list" where
  "demo_sources = [(''arm'', \<lparr>cs_joints = [''j1''], cs_timeout = Fin (1/2)\<rparr>),
                   (''base'', \<lparr>cs_joints = [''w1'', ''w2''], cs_timeout = Fin (1/4)\<rparr>)]"

definition demo_mux :: mux where
  "demo_mux = (case mux_new demo_sources of Inr m \<Rightarrow> m)"

definition arm_command :: joint_command where
  "arm_command = \<lparr>jc_names = [''j1''], jc_positions = [Fin 2], jc_velocities = [Fin 1], jc_efforts = []\<rparr>"

definition demo_run :: "mux_event list" where
  "demo_run = [Observe [''j1''] [Fin 1], Accept ''arm'' arm_command (Fin 0)]"

lemma demo_new: "mux_new demo_sources = Inr demo_mux" "sources_wf demo_sources"
proof -
  have "is_ok (mux_new demo_sources)" by code_simp
  then show "mux_new demo_sources = Inr demo_mux" by (auto simp: is_ok_iff demo_mux_def)
  show "sources_wf demo_sources" by code_simp
qed

theorem mux_snapshot_exclusive_witness:
  "\<exists>m' pks. mux_compose (Fin 1) (mux_run demo_run demo_mux) = (m', Inr pks)
     \<and> snapshot_ok pks \<and> single_source demo_sources pks
     \<and> (mx_safety_stop (mux_run demo_run demo_mux) \<longrightarrow> list_all safe_packet pks)"
  by (rule mux_snapshot_exclusive [OF demo_new]) simp

text \<open>A command is accepted exactly when its source is configured and owns every joint
  of the command, the time is finite, the safety stop is released and the command is
  valid. It then is the latest command of its source, ends the source's stale hold, and
  changes nothing of any other source; a rejected command changes nothing.\<close>

theorem mux_accept_spec:
  "(is_ok (mux_accept s c t m) \<longleftrightarrow>
      (\<exists>p. map_of (mx_sources m) s = Some p \<and> set (jc_names c) \<subseteq> set (cs_joints p))
      \<and> isfinite t \<and> \<not> mx_safety_stop m \<and> valid_command c)
   \<and> (case mux_accept s c t m of
        Inl _ \<Rightarrow> mux_step (Accept s c t) m = m
      | Inr m' \<Rightarrow> mx_latest m' = (mx_latest m)(s \<mapsto> (t, c)) \<and> mx_holds m' = (mx_holds m)(s := None)
          \<and> mx_measured m' = mx_measured m \<and> mx_stopped m' = mx_stopped m
          \<and> mx_safety_stop m' = mx_safety_stop m
          \<and> mx_velocity m' = (mx_velocity m)(s := mx_velocity m' s)
          \<and> mx_retired m' = (mx_retired m)(s := mx_retired m' s))"
proof (cases "mux_accept s c t m")
  case (Inl e)
  then have "\<not> acceptable s c t m" by (metis Inl_Inr_False mux_accept_unfold)
  with Inl show ?thesis by (auto simp: acceptable_def)
next
  case (Inr m')
  then have "acceptable s c t m" "m' = (clear_stale_hold s t (note_velocity_mode s c m))
      \<lparr>mx_latest := (mx_latest m)(s \<mapsto> (t, c))\<rparr>" by (simp_all add: mux_accept_unfold)
  then show ?thesis using Inr by (auto simp: acceptable_def note_velocity_other fun_eq_iff)
qed

text \<open>
  The packet a source contributes to a composition, as the code's contract describes it: a
  stale source holds its frozen measured positions with every velocity and effort zero; a
  fresh source's command passes through, except that the velocities of a joint that has
  left velocity control are replaced by zeros when the command carries none.
\<close>

definition frozen_hold :: "mux \<Rightarrow> string \<Rightarrow> joint_command \<Rightarrow> (string \<rightharpoonup> pyfloat)" where
  "frozen_hold m s c =
     (case mx_holds m s of Some h \<Rightarrow> map_of h | None \<Rightarrow> mx_measured m |` set (jc_names c))"

definition stale_spec :: "mux \<Rightarrow> string \<Rightarrow> joint_command \<Rightarrow> joint_command \<Rightarrow> bool" where
  "stale_spec m s c pk \<longleftrightarrow> safe_packet pk \<and> jc_names pk = jc_names c \<and>
     (if set (jc_names c) \<subseteq> dom (frozen_hold m s c)
      then map Some (jc_positions pk) = map (frozen_hold m s c) (jc_names c)
      else jc_positions pk = [])"

definition fresh_spec :: "mux \<Rightarrow> string \<Rightarrow> joint_command \<Rightarrow> joint_command \<Rightarrow> bool" where
  "fresh_spec m s c pk \<longleftrightarrow> jc_names pk = jc_names c \<and> jc_positions pk = jc_positions c \<and>
     jc_efforts pk = jc_efforts c \<and>
     jc_velocities pk = (if jc_velocities c = [] \<and> mx_retired m s \<inter> set (jc_names c) \<noteq> {}
                         then map (\<lambda>_. Fin 0) (jc_names c) else jc_velocities c)"

lemma map_of_measured_hold: "map_of (measured_hold m ns) = mx_measured m |` set ns"
proof
  show "map_of (measured_hold m ns) n = (mx_measured m |` set ns) n" for n
    by (induction ns) (auto simp: measured_hold_def List.map_filter_def restrict_map_def)
qed

lemma held_positions_map:
  "held_positions h ns = (if set ns \<subseteq> dom h then Some (map (the \<circ> h) ns) else None)"
  by (auto simp: held_positions_def list_all_iff subset_iff)

lemma map_Some_the: "set ns \<subseteq> dom h \<Longrightarrow> map (Some \<circ> (the \<circ> h)) ns = map h ns"
  by (induction ns) auto

lemma source_update_frozen:
  assumes "mx_latest m s = Some (r, c)" "is_stale False t r p"
  shows "map_of (case mx_holds (source_update False t (s, p) m) s of None \<Rightarrow> [] | Some h \<Rightarrow> h)
       = frozen_hold m s c"
  using assms by (auto simp: source_update_def mark_stale_holds frozen_hold_def
      map_of_measured_hold split: option.splits)

lemma source_view_stale:
  assumes "mx_latest m s = Some (r, c)" "is_stale False t r p"
  shows "\<exists>pk. source_view t m (s, p) = [pk] \<and> stale_spec m s c pk"
proof -
  let ?m = "source_update False t (s, p) m"
  have "jc_positions (source_packet False True s c ?m)
      = (case held_positions (frozen_hold m s c) (jc_names c) of Some ps \<Rightarrow> ps | None \<Rightarrow> [])"
    using source_update_frozen [OF assms] by (simp add: source_packet_def Let_def)
  then have "stale_spec m s c (source_packet False True s c ?m)"
    by (simp add: stale_spec_def source_packet_safe held_positions_map map_Some_the)
  then show ?thesis using assms by (simp add: source_view_def)
qed

lemma source_view_fresh:
  assumes "mx_latest m s = Some (r, c)" "\<not> is_stale False t r p"
  shows "\<exists>pk. source_view t m (s, p) = [pk] \<and> fresh_spec m s c pk"
  using assms by (simp add: source_view_def source_update_def fresh_spec_def source_packet_def Let_def)

text \<open>In every reachable unstopped state, a composition yields for each source with a
  latest command exactly the packet the contract describes: the command itself while it is at
  most its timeout old, the frozen measured hold with zero velocities and efforts once it is
  older; a source that never commanded yields none.\<close>

theorem mux_compose_functional:
  assumes "mux_new sources = Inr m0" and "sources_wf sources"
    and "m = mux_run es m0" and "isfinite t" and "\<not> mx_safety_stop m"
  shows "\<exists>view. snd (mux_compose t m) = Inr (concat (map view sources)) \<and>
     (\<forall>s p. (s, p) \<in> set sources \<longrightarrow>
        (case mx_latest m s of
           None \<Rightarrow> view (s, p) = []
         | Some (r, c) \<Rightarrow> (\<exists>pk. view (s, p) = [pk] \<and>
             (if flt (cs_timeout p) (fsub t r) then stale_spec m s c pk else fresh_spec m s c pk))))"
proof -
  have "mux_inv m0" using mux_new_run_inv [OF assms(1,2), of "[]"] by (simp add: mux_run_def)
  moreover have "mx_sources m0 = sources" using assms(1) by (auto simp: mux_new_ok)
  ultimately have inv: "mux_inv m" and src: "mx_sources m = sources"
    unfolding assms(3) by (simp_all add: mux_run_inv mux_run_sources)
  have view: "case mx_latest m s of
           None \<Rightarrow> source_view t m (s, p) = []
         | Some (r, c) \<Rightarrow> (\<exists>pk. source_view t m (s, p) = [pk] \<and>
             (if flt (cs_timeout p) (fsub t r) then stale_spec m s c pk else fresh_spec m s c pk))"
    for s p
  proof (cases "mx_latest m s")
    case None
    then show ?thesis by (simp add: source_view_def)
  next
    case (Some rc)
    then obtain r c where rc: "mx_latest m s = Some (r, c)" by (cases rc) simp
    then show ?thesis
      using source_view_stale [OF rc, of t p] source_view_fresh [OF rc, of t p]
      by (cases "flt (cs_timeout p) (fsub t r)") (simp_all add: is_stale_def)
  qed
  show ?thesis
    by (intro exI [of _ "source_view t m"] conjI allI impI view)
      (simp add: mux_compose_view [OF inv assms(4,5)] src)
qed

theorem mux_compose_functional_witness:
  "\<exists>view. snd (mux_compose (Fin 1) (mux_run demo_run demo_mux)) = Inr (concat (map view demo_sources)) \<and>
     (\<forall>s p. (s, p) \<in> set demo_sources \<longrightarrow>
        (case mx_latest (mux_run demo_run demo_mux) s of
           None \<Rightarrow> view (s, p) = []
         | Some (r, c) \<Rightarrow> (\<exists>pk. view (s, p) = [pk] \<and>
             (if flt (cs_timeout p) (fsub (Fin 1) r) then stale_spec (mux_run demo_run demo_mux) s c pk
              else fresh_spec (mux_run demo_run demo_mux) s c pk))))"
proof -
  have "\<not> mx_safety_stop (mux_run demo_run demo_mux)" by code_simp
  then show ?thesis by (intro mux_compose_functional [OF demo_new refl]) simp_all
qed


section \<open>Freezing and the stop latch\<close>

text \<open>The operations after which a stale source must not have moved.\<close>

fun quiet_event :: "string \<Rightarrow> mux_event \<Rightarrow> bool" where
  "quiet_event s (Accept s' _ _) \<longleftrightarrow> s' \<noteq> s"
| "quiet_event s (Observe _ _) \<longleftrightarrow> True"
| "quiet_event s (Stop b) \<longleftrightarrow> \<not> b"
| "quiet_event s (Compose _) \<longleftrightarrow> True"

definition frozen :: "string \<Rightarrow> pyfloat \<times> joint_command \<Rightarrow> (string \<times> pyfloat) list \<Rightarrow> string set \<Rightarrow> mux \<Rightarrow> bool" where
  "frozen s rc h rv m \<longleftrightarrow> mux_inv m \<and> \<not> mx_safety_stop m \<and> mx_latest m s = Some rc
     \<and> mx_holds m s = Some h \<and> mx_retired m s = rv"

lemma source_update_hold_kept:
  "mx_holds m s = Some h \<Longrightarrow> mx_holds (source_update f t sp m) s = Some h"
  by (auto simp: source_update_def mark_stale_holds split: option.splits)

lemma compose_loop_hold_kept:
  "mx_holds m s = Some h \<Longrightarrow> mx_holds (fst (compose_loop f t sps m)) s = Some h"
proof (induction sps arbitrary: m)
  case (Cons sp sps)
  obtain m1 r where 1: "compose_source f t sp m = (m1, r)" by (cases "compose_source f t sp m")
  then have m1: "m1 = source_update f t sp m" using compose_source_fst [of f t sp m] by simp
  have h: "mx_holds m1 s = Some h" unfolding m1 using Cons.prems by (rule source_update_hold_kept)
  from Cons.IH [OF h] h 1 show ?case
    by (cases "compose_loop f t sps m1") (auto split: sum.splits)
qed simp

lemma frozen_step:
  assumes "frozen s rc h rv m" "quiet_event s e"
  shows "frozen s rc h rv (mux_step e m)"
proof -
  have inv: "mux_inv (mux_step e m)" using assms(1) by (simp add: frozen_def mux_step_inv)
  show ?thesis
  proof (cases e)
    case (Accept s' c t)
    then have ne: "s \<noteq> s'" using assms(2) by auto
    show ?thesis using inv assms(1) ne Accept
      by (auto simp: frozen_def mux_accept_unfold note_velocity_other split: sum.splits)
  next
    case (Observe ns vs)
    then show ?thesis using inv assms(1) fold_observe_frame [of "zip ns vs" m]
      by (auto simp: frozen_def mux_observe_eq split: sum.splits)
  next
    case (Stop b)
    then show ?thesis using inv assms by (simp add: frozen_def mux_stop_def)
  next
    case (Compose t)
    then show ?thesis
      using inv assms(1) compose_loop_frame [of False t "mx_sources m" m]
        compose_loop_hold_kept [of m s h False t "mx_sources m"]
      by (auto simp: frozen_def mux_compose_def compose_packets_def)
  qed
qed

lemma frozen_run: "frozen s rc h rv m \<Longrightarrow> list_all (quiet_event s) es \<Longrightarrow> frozen s rc h rv (mux_run es m)"
  unfolding mux_run_def by (induction es arbitrary: m) (auto intro: frozen_step)

lemma frozen_packet:
  assumes "frozen s (r, c) h rv m" "(s, p) \<in> set (mx_sources m)"
    "flt (cs_timeout p) (fsub t r)" "isfinite t"
  shows "\<exists>pks pk. snd (mux_compose t m) = Inr pks \<and> pk \<in> set pks \<and>
     pk = source_packet False True s c m"
proof -
  have "source_view t m (s, p) = [source_packet False True s c (source_update False t (s, p) m)]"
    using assms by (simp add: frozen_def source_view_def is_stale_def)
  moreover have "source_packet False True s c (source_update False t (s, p) m)
      = source_packet False True s c m"
  proof -
    have h: "mx_holds (source_update False t (s, p) m) s = mx_holds m s"
      using assms(1) source_update_hold_kept by (simp add: frozen_def)
    show ?thesis by (simp add: source_packet_def h Let_def)
  qed
  ultimately have "source_packet False True s c m \<in> set (concat (map (source_view t m) (mx_sources m)))"
    using assms(2) by force
  then show ?thesis using mux_compose_view [of m t] assms(1,4) by (auto simp: frozen_def)
qed

text \<open>C3: Once a composition has found a source stale, no later observation, composition or
  command of another source changes the packet of that source: until it sends a command
  itself or the safety stop engages, every composition contains the very same packet.\<close>

theorem mux_stale_frozen:
  assumes "mux_new sources = Inr m0" and "sources_wf sources" and "m = mux_run es0 m0"
    and "\<not> mx_safety_stop m" and "(s, p) \<in> set sources" and "mx_latest m s = Some (r, c)"
    and "flt (cs_timeout p) (fsub t1 r)" and "flt (cs_timeout p) (fsub t2 r)"
    and "isfinite t1" and "isfinite t2" and "list_all (quiet_event s) es"
  shows "\<exists>pk pks1 pks2. snd (mux_compose t1 m) = Inr pks1
     \<and> snd (mux_compose t2 (mux_run es (fst (mux_compose t1 m)))) = Inr pks2
     \<and> pk \<in> set pks1 \<and> pk \<in> set pks2 \<and> stale_spec m s c pk"
proof -
  have "mux_inv m0" using mux_new_run_inv [OF assms(1,2), of "[]"] by (simp add: mux_run_def)
  moreover have "mx_sources m0 = sources" using assms(1) by (auto simp: mux_new_ok)
  ultimately have inv: "mux_inv m" and src: "mx_sources m = sources"
    unfolding assms(3) by (simp_all add: mux_run_inv mux_run_sources)
  define m1 where "m1 = fst (mux_compose t1 m)"
  have stale: "is_stale False t1 r p" using assms(7) by (simp add: is_stale_def)
  obtain pk where pk: "source_view t1 m (s, p) = [pk]" "stale_spec m s c pk"
    using source_view_stale [OF assms(6) stale] by blast
  have c1: "snd (mux_compose t1 m) = Inr (concat (map (source_view t1 m) sources))"
    using mux_compose_view [OF inv assms(9,4)] src by simp
  have m1: "m1 = fst (compose_loop False t1 (mx_sources m) m)"
    using assms(4,9) by (simp add: m1_def mux_compose_def compose_packets_def)
  have "mx_holds m1 s = mx_holds (source_update False t1 (s, p) m) s"
    using compose_loop_holds [of "mx_sources m" s p t1 m] src assms(2,5) c1 m1
      assms(4,9) by (auto simp: sources_wf_def mux_compose_def compose_packets_def)
  moreover obtain h where h: "mx_holds (source_update False t1 (s, p) m) s = Some h"
    using assms(6) stale by (cases "mx_holds m s") (auto simp: source_update_def mark_stale_holds)
  ultimately have hold: "mx_holds m1 s = Some h" by simp
  have fr: "frozen s (r, c) h (mx_retired m s) m1"
    using hold mux_compose_inv [OF inv, of t1] compose_loop_frame [of False t1 "mx_sources m" m]
      assms(4,6) m1 by (auto simp: frozen_def m1_def)
  have src2: "mx_sources (mux_run es m1) = sources"
    using fr src m1 compose_loop_frame [of False t1 "mx_sources m" m]
    by (simp add: frozen_def mux_run_sources)
  let ?m = "mux_run es m1"
  have fr2: "frozen s (r, c) h (mx_retired m s) ?m" using fr assms(11) by (rule frozen_run)
  obtain pks2 where p2: "snd (mux_compose t2 ?m) = Inr pks2"
    "source_packet False True s c ?m \<in> set pks2"
    using frozen_packet [OF fr2 _ assms(8,10)] assms(5) src2 by auto
  have "pk = source_packet False True s c (source_update False t1 (s, p) m)"
    using pk(1) assms(6) stale by (simp add: source_view_def)
  also have "\<dots> = source_packet False True s c ?m"
    using h fr2 by (simp add: source_packet_def Let_def frozen_def)
  finally show ?thesis
    using c1 p2 pk assms(5) unfolding m1_def [symmetric] by force
qed


theorem mux_stale_frozen_witness:
  "\<exists>pk pks1 pks2. snd (mux_compose (Fin 1) (mux_run demo_run demo_mux)) = Inr pks1
     \<and> snd (mux_compose (Fin 2) (mux_run [Observe [''j1''] [Fin 9]]
              (fst (mux_compose (Fin 1) (mux_run demo_run demo_mux))))) = Inr pks2
     \<and> pk \<in> set pks1 \<and> pk \<in> set pks2 \<and> stale_spec (mux_run demo_run demo_mux) ''arm'' arm_command pk"
proof -
  have "\<not> mx_safety_stop (mux_run demo_run demo_mux)" by code_simp
  moreover have "mx_latest (mux_run demo_run demo_mux) ''arm'' = Some (Fin 0, arm_command)" by code_simp
  ultimately show ?thesis
    by (intro mux_stale_frozen [OF demo_new refl, where p = "\<lparr>cs_joints = [''j1''], cs_timeout = Fin (1/2)\<rparr>"
          and r = "Fin 0"]) (simp_all add: demo_sources_def)
qed

fun stop_kept :: "mux_event \<Rightarrow> bool" where
  "stop_kept (Stop b) \<longleftrightarrow> b"
| "stop_kept _ \<longleftrightarrow> True"

fun is_accept :: "mux_event \<Rightarrow> bool" where
  "is_accept (Accept _ _ _) \<longleftrightarrow> True"
| "is_accept _ \<longleftrightarrow> False"

lemma stopped_step:
  assumes "mx_safety_stop m" "stop_kept e"
  shows "mx_safety_stop (mux_step e m) \<and> mx_stopped (mux_step e m) = mx_stopped m"
proof (cases e)
  case (Accept s c t)
  then show ?thesis using assms by (auto simp: mux_accept_unfold acceptable_def split: sum.splits)
next
  case (Observe ns vs)
  then show ?thesis using assms fold_observe_frame [of "zip ns vs" m]
    by (auto simp: mux_observe_eq split: sum.splits)
qed (use assms in \<open>auto simp: mux_stop_def mux_compose_def\<close>)

lemma stopped_run:
  "mx_safety_stop m \<Longrightarrow> list_all stop_kept es \<Longrightarrow>
   mx_safety_stop (mux_run es m) \<and> mx_stopped (mux_run es m) = mx_stopped m"
  unfolding mux_run_def by (induction es arbitrary: m) (auto simp: stopped_step)

text \<open>C2: The safety stop latches. From the moment it engages until it is released, whatever
  else happens, every composition at a finite time returns the same packets, taken at the
  stop; all their velocities and efforts are zero, and no command is accepted.\<close>

theorem mux_stop_latch:
  assumes "mux_new sources = Inr m0" and "sources_wf sources"
    and "m = fst (mux_stop True (mux_run es0 m0))" and "list_all stop_kept es" and "isfinite t"
  shows "mux_compose t (mux_run es m) = (mux_run es m, Inr (mx_stopped m))
     \<and> list_all safe_packet (mx_stopped m) \<and> snapshot_ok (mx_stopped m)
     \<and> \<not> is_ok (mux_accept s c t' (mux_run es m))"
proof -
  have inv0: "mux_inv (mux_run es0 m0)" using assms(1,2) by (rule mux_new_run_inv)
  note st = mux_stop_ok [OF inv0, of True, folded assms(3)]
  have run: "mx_safety_stop (mux_run es m)" "mx_stopped (mux_run es m) = mx_stopped m"
    using stopped_run [of m es] st assms(4) by auto
  have "\<not> is_ok (mux_accept s c t' (mux_run es m))"
    using run(1) by (auto simp: is_ok_iff mux_accept_unfold acceptable_def)
  then show ?thesis using run st assms(5) by (simp add: mux_compose_def mux_inv_def stop_inv_def)
qed

theorem mux_stop_latch_witness:
  "mux_compose (Fin 3) (mux_run demo_run (fst (mux_stop True (mux_run demo_run demo_mux))))
       = (mux_run demo_run (fst (mux_stop True (mux_run demo_run demo_mux))),
          Inr (mx_stopped (fst (mux_stop True (mux_run demo_run demo_mux)))))
     \<and> list_all safe_packet (mx_stopped (fst (mux_stop True (mux_run demo_run demo_mux))))
     \<and> snapshot_ok (mx_stopped (fst (mux_stop True (mux_run demo_run demo_mux))))
     \<and> \<not> is_ok (mux_accept ''arm'' arm_command (Fin 3)
           (mux_run demo_run (fst (mux_stop True (mux_run demo_run demo_mux)))))"
  by (rule mux_stop_latch [OF demo_new refl]) (simp_all add: demo_run_def)

lemma silent_step:
  assumes "mx_latest m = Map.empty" "\<not> is_accept e"
  shows "mx_latest (mux_step e m) = Map.empty"
proof (cases e)
  case (Observe ns vs)
  then show ?thesis using assms fold_observe_frame [of "zip ns vs" m]
    by (auto simp: mux_observe_eq split: sum.splits)
next
  case (Stop b)
  show ?thesis using assms compose_loop_frame [of True PInf "mx_sources m" m] Stop
    by (auto simp: mux_stop_def compose_packets_def split: prod.splits sum.splits)
next
  case (Compose t)
  then show ?thesis using assms compose_loop_frame [of False t "mx_sources m" m]
    by (simp add: mux_compose_def compose_packets_def)
qed (use assms in auto)

lemma silent_run:
  "mx_latest m = Map.empty \<Longrightarrow> list_all (\<lambda>e. \<not> is_accept e) es \<Longrightarrow> mx_latest (mux_run es m) = Map.empty"
  unfolding mux_run_def by (induction es arbitrary: m) (auto simp: silent_step)

text \<open>Nothing commanded before a safety stop is replayed after it: once the stop has
  engaged, as long as no command is accepted, every composition in a released state returns
  no packet at all.\<close>

theorem mux_no_replay:
  assumes "mux_new sources = Inr m0" and "sources_wf sources"
    and "m = mux_run es (fst (mux_stop True (mux_run es0 m0)))"
    and "list_all (\<lambda>e. \<not> is_accept e) es" and "\<not> mx_safety_stop m" and "isfinite t"
  shows "snd (mux_compose t m) = Inr []"
proof -
  have inv0: "mux_inv (mux_run es0 m0)" using assms(1,2) by (rule mux_new_run_inv)
  note st = mux_stop_ok [OF inv0, of True]
  have "mx_latest (fst (mux_stop True (mux_run es0 m0))) = Map.empty"
    using st by (simp add: mux_inv_def stop_inv_def)
  then have l: "mx_latest m = Map.empty" unfolding assms(3) using assms(4) by (rule silent_run)
  have "mux_inv m" unfolding assms(3) using st by (simp add: mux_run_inv)
  from mux_compose_view [OF this assms(6,5)] l show ?thesis
    by (simp add: source_view_def)
qed

theorem mux_no_replay_witness:
  "snd (mux_compose (Fin 3) (mux_run [Stop False, Observe [''j1''] [Fin 4]]
          (fst (mux_stop True (mux_run demo_run demo_mux))))) = Inr []"
proof -
  have "\<not> mx_safety_stop (mux_run [Stop False, Observe [''j1''] [Fin 4]]
          (fst (mux_stop True (mux_run demo_run demo_mux))))" by code_simp
  then show ?thesis by (intro mux_no_replay [OF demo_new refl]) simp_all
qed

end
