(* ===== verification/Safety_Supervisor.thy ===== *)
theory Safety_Supervisor
  imports Sim_Prelude
begin

text \<open>
  The safety supervisor node (\<open>tinker_sim_bridge/safety_supervisor.py\<close>) with the gating
  expression of \<open>tinker_sim_core/safety_gating.py\<close>. Every callback is a function of the
  node's state and of what the callback reads from outside: the clock readings of
  \<open>time.monotonic()\<close>, the \<open>controller_management_ready\<close> parameter, the readiness of the
  controller-manager services and the completed futures, exceptions included. What the
  node publishes, requests or logs is appended to \<open>sv_out\<close> in order. A future's callback
  runs as a later event.
\<close>

section \<open>Freshness of one required source\<close>

record tracker =
  tr_deadline :: pyfloat
  tr_value :: "bool option"
  tr_received :: "pyfloat option"

definition tracker_new :: "pyfloat \<Rightarrow> tracker res" where
  "tracker_new deadline_s =
     (if fle deadline_s (Fin 0) then Inl (ValueError ''safety source deadline must be positive'')
      else Inr \<lparr>tr_deadline = deadline_s, tr_value = None, tr_received = None\<rparr>)"

definition tracker_update :: "bool \<Rightarrow> pyfloat \<Rightarrow> tracker \<Rightarrow> tracker" where
  "tracker_update value received_at tr = tr\<lparr>tr_value := Some value, tr_received := Some received_at\<rparr>"

definition requires_stop :: "tracker \<Rightarrow> pyfloat \<Rightarrow> bool" where
  "requires_stop tr now =
     (case (tr_value tr, tr_received tr) of
        (Some v, Some r) \<Rightarrow> v \<or> fle (tr_deadline tr) (fsub now r)
      | _ \<Rightarrow> True)"

section \<open>Gating\<close>

definition effective_stop :: "bool \<Rightarrow> bool \<Rightarrow> bool \<Rightarrow> bool \<Rightarrow> bool \<Rightarrow> bool" where
  "effective_stop desired_stop management_ready startup_hold restore_pending manage_controllers =
     (if \<not> manage_controllers then desired_stop
      else desired_stop \<or> \<not> management_ready \<or> startup_hold \<or> restore_pending)"

section \<open>State of the node\<close>

definition REQUIRED_SOURCES :: "string list" where "REQUIRED_SOURCES = [''xarm'', ''collision'']"
definition OPTIONAL_SOURCES :: "string list" where "OPTIONAL_SOURCES = [''operator'', ''reset'']"
definition SOURCES :: "string list" where
  "SOURCES = [''xarm'', ''collision'', ''operator'', ''reset'']"

datatype sv_output =
    PublishStop bool
  | PublishResetReady bool
  | LogSource string bool "pyfloat option" pyfloat
  | LogPublished bool "string list"
  | LogError string
  | ListRequest
  | SwitchRequest bool string

record supervisor =
  sv_controller :: string
  sv_manage :: bool
  sv_sources :: "string \<Rightarrow> bool option"
  sv_trackers :: "(string \<times> tracker) list"
  sv_desired_stop :: bool
  sv_published :: "bool option"
  sv_ready :: bool
  sv_hold :: bool
  sv_active :: "bool option"
  sv_state :: "string option"
  sv_was_active :: "bool option"
  sv_restore :: bool
  sv_recorded :: bool
  sv_list_inflight :: bool
  sv_switch_inflight :: bool
  sv_source_stop :: "string \<rightharpoonup> bool"
  sv_out :: "sv_output list"

text \<open>
  What one callback reads: the clock for the transition log, the gate and the reasons, the
  parameter, and the outcome of each use of the two service clients.
\<close>

datatype readiness = IsReady bool | ReadyRaises string
datatype call_result = CallOk | CallRaises string
datatype 'a future = FutureRaises string | FutureResult "'a option"

record sv_env =
  en_log_time :: "string \<Rightarrow> pyfloat"
  en_gate_time :: "string \<Rightarrow> pyfloat"
  en_reason_time :: pyfloat
  en_management_ready :: bool
  en_list_ready :: readiness
  en_list_call :: call_result
  en_switch_ready :: readiness
  en_switch_call :: call_result

definition sv_emit :: "sv_output list \<Rightarrow> supervisor \<Rightarrow> supervisor" where
  "sv_emit os s = s\<lparr>sv_out := sv_out s @ os\<rparr>"

section \<open>Publishing\<close>

definition stop_reasons :: "pyfloat \<Rightarrow> supervisor \<Rightarrow> string list" where
  "stop_reasons now s =
     map fst (filter (\<lambda>(n, tr). requires_stop tr now) (sv_trackers s))
     @ filter (\<lambda>n. sv_sources s n = Some True) OPTIONAL_SOURCES"

definition reset_is_ready :: "supervisor \<Rightarrow> bool" where
  "reset_is_ready s \<longleftrightarrow> sv_sources s ''reset'' = Some True \<and> sv_ready s \<and> sv_manage s
     \<and> sv_state s = Some ''inactive'' \<and> \<not> sv_switch_inflight s"

definition sv_publish :: "pyfloat \<Rightarrow> bool \<Rightarrow> supervisor \<Rightarrow> supervisor" where
  "sv_publish now active s =
     (let s' = sv_emit [PublishStop active, PublishResetReady (reset_is_ready s)] s;
          s'' = (if sv_published s \<noteq> Some active
                 then sv_emit [LogPublished active (stop_reasons now s)] s' else s')
      in s''\<lparr>sv_published := Some active\<rparr>)"

definition publish_effective :: "pyfloat \<Rightarrow> supervisor \<Rightarrow> supervisor" where
  "publish_effective now s =
     (let active =
        (if sv_manage s
         then sv_desired_stop s \<or> \<not> sv_ready s \<or> sv_hold s \<or> sv_restore s
         else effective_stop (sv_desired_stop s) (sv_ready s) (sv_hold s) (sv_restore s) (sv_manage s))
      in sv_publish now active s)"

section \<open>Fusing the sources\<close>

fun log_transitions ::
  "(string \<Rightarrow> pyfloat) \<Rightarrow> (string \<times> tracker) list \<Rightarrow> supervisor \<Rightarrow> supervisor" where
  "log_transitions time [] s = s"
| "log_transitions time ((name, tr) # trs) s =
     (let now = time name; current = requires_stop tr now;
          s' = (case sv_source_stop s name of
                  Some previous \<Rightarrow>
                    if previous \<noteq> current
                    then sv_emit [LogSource name current (map_option (fsub now) (tr_received tr))
                                    (tr_deadline tr)] s
                    else s
                | None \<Rightarrow> s)
      in log_transitions time trs
           (s'\<lparr>sv_source_stop := (sv_source_stop s')(name \<mapsto> current)\<rparr>))"

definition fused_stop :: "(string \<Rightarrow> pyfloat) \<Rightarrow> supervisor \<Rightarrow> bool" where
  "fused_stop time s \<longleftrightarrow>
     list_ex (\<lambda>(n, tr). requires_stop tr (time n)) (sv_trackers s)
     \<or> list_ex (\<lambda>n. sv_sources s n = Some True) OPTIONAL_SOURCES"

definition refresh_desired_stop :: "sv_env \<Rightarrow> supervisor \<Rightarrow> supervisor" where
  "refresh_desired_stop env s0 =
     (let s = log_transitions (en_log_time env) (sv_trackers s0) s0;
          desired = fused_stop (en_gate_time env) s
      in if desired = sv_desired_stop s then s
         else if desired then
           (let was = (if sv_was_active s = None \<and> sv_active s \<noteq> None
                       then Some (sv_active s = Some True) else sv_was_active s)
            in s\<lparr>sv_hold := True, sv_was_active := was, sv_recorded := was \<noteq> None,
                 sv_desired_stop := desired\<rparr>)
         else s\<lparr>sv_restore := sv_restore s \<or> sv_was_active s = Some True,
                sv_desired_stop := desired\<rparr>)"

definition sv_reconcile :: "sv_env \<Rightarrow> supervisor \<Rightarrow> supervisor" where
  "sv_reconcile env s0 =
     (let s1 = refresh_desired_stop env s0;
          ready = en_management_ready env;
          s2 = (if ready \<noteq> sv_ready s1
                then s1\<lparr>sv_ready := ready, sv_hold := (if ready then sv_hold s1 else True)\<rparr> else s1);
          s3 = publish_effective (en_reason_time env) s2
      in if \<not> sv_manage s3 \<or> \<not> sv_ready s3 \<or> sv_list_inflight s3 \<or> sv_switch_inflight s3 then s3
         else case en_list_ready env of
           ReadyRaises e \<Rightarrow>
             sv_emit [LogError (''controller manager list readiness check failed: '' @ e)] s3
         | IsReady False \<Rightarrow> s3
         | IsReady True \<Rightarrow>
             (case en_list_call env of
                CallRaises e \<Rightarrow> sv_emit [LogError (''controller state request failed: '' @ e)] s3
              | CallOk \<Rightarrow> (sv_emit [ListRequest] s3)\<lparr>sv_list_inflight := True\<rparr>))"

definition sv_source :: "string \<Rightarrow> bool \<Rightarrow> pyfloat \<Rightarrow> sv_env \<Rightarrow> supervisor \<Rightarrow> supervisor" where
  "sv_source name data received env s =
     sv_reconcile env
       (s\<lparr>sv_sources := (sv_sources s)(name := Some data),
          sv_trackers := map (\<lambda>(n, tr). (n, if n = name then tracker_update data received tr else tr))
                             (sv_trackers s)\<rparr>)"

section \<open>The trajectory controller\<close>

definition request_switch :: "bool \<Rightarrow> sv_env \<Rightarrow> supervisor \<Rightarrow> supervisor" where
  "request_switch activate env s =
     (case en_switch_ready env of
        ReadyRaises e \<Rightarrow> sv_emit [LogError (''controller manager readiness check failed: '' @ e)] s
      | IsReady False \<Rightarrow> s
      | IsReady True \<Rightarrow>
          (case en_switch_call env of
             CallRaises e \<Rightarrow> sv_emit [LogError (''controller switch request failed: '' @ e)] s
           | CallOk \<Rightarrow> (sv_emit [SwitchRequest activate (sv_controller s)] s)\<lparr>sv_switch_inflight := True\<rparr>))"

text \<open>The decision of \<open>_controllers_listed\<close> once the controller's state is known.\<close>

definition controller_known :: "string \<Rightarrow> sv_env \<Rightarrow> supervisor \<Rightarrow> supervisor" where
  "controller_known state env s0 =
     (let now = en_reason_time env;
          active = (py_lower state = ''active'');
          s1 = s0\<lparr>sv_state := Some (py_lower state), sv_active := Some active\<rparr>;
          s2 = (if sv_desired_stop s1 \<and> \<not> sv_recorded s1
                then s1\<lparr>sv_was_active := Some active, sv_recorded := True\<rparr> else s1);
          s3 = (if sv_desired_stop s2 then s2\<lparr>sv_hold := True\<rparr>
                else if sv_restore s2 then
                  (if active
                   then publish_effective now
                          (s2\<lparr>sv_restore := False, sv_was_active := None, sv_recorded := False,
                              sv_hold := False\<rparr>)
                   else request_switch True env s2)
                else if active then publish_effective now (s2\<lparr>sv_hold := False\<rparr>)
                else publish_effective now (s2\<lparr>sv_hold := True\<rparr>))
      in if sv_desired_stop s3 \<and> active then request_switch False env s3 else s3)"

definition controllers_listed ::
  "(string \<times> string) list future \<Rightarrow> sv_env \<Rightarrow> supervisor \<Rightarrow> supervisor" where
  "controllers_listed fut env s0 =
     (let s = s0\<lparr>sv_list_inflight := False\<rparr> in
      case fut of
        FutureRaises e \<Rightarrow> sv_emit [LogError (''controller state query failed: '' @ e)] s
      | FutureResult None \<Rightarrow>
          sv_emit [LogError ''controller manager returned no controller state''] s
      | FutureResult (Some controllers) \<Rightarrow>
          (case map_of controllers (sv_controller s) of
             None \<Rightarrow> sv_emit [LogError (''configured controller is not listed: '' @ sv_controller s)]
                       (s\<lparr>sv_active := None, sv_state := None\<rparr>)
           | Some state \<Rightarrow> controller_known state env s))"

definition sv_switched :: "bool future \<Rightarrow> sv_env \<Rightarrow> supervisor \<Rightarrow> supervisor" where
  "sv_switched fut env s0 =
     (let s = s0\<lparr>sv_switch_inflight := False\<rparr> in
      case fut of
        FutureRaises e \<Rightarrow> sv_emit [LogError (''controller switch failed: '' @ e)] s
      | FutureResult (Some True) \<Rightarrow> sv_reconcile env (s\<lparr>sv_active := None\<rparr>)
      | FutureResult _ \<Rightarrow> sv_emit [LogError ''controller manager rejected safety switch''] s)"

section \<open>Start-up\<close>

fun unknown_source :: "string list \<Rightarrow> string option" where
  "unknown_source [] = None"
| "unknown_source (n # ns) = (if n \<notin> set SOURCES then Some n else unknown_source ns)"

definition supervisor_new ::
  "string \<Rightarrow> pyfloat \<Rightarrow> bool \<Rightarrow> string list \<Rightarrow> pyfloat \<Rightarrow> supervisor res" where
  "supervisor_new controller deadline manage required now =
     (if fle deadline (Fin 0)
      then Inl (ValueError ''required_source_deadline_s must be positive'')
      else case unknown_source required of
        Some n \<Rightarrow> Inl (ValueError (''unknown required safety source: '' @ n))
      | None \<Rightarrow>
          (case tracker_new deadline of
             Inl e \<Rightarrow> Inl e
           | Inr tr \<Rightarrow> Inr (sv_publish now True
               \<lparr>sv_controller = controller, sv_manage = manage,
                sv_sources = (\<lambda>n. if n \<in> set OPTIONAL_SOURCES then Some False else None),
                sv_trackers = map (\<lambda>n. (n, tr)) (rev (remdups (rev required))),
                sv_desired_stop = True, sv_published = None, sv_ready = False, sv_hold = True,
                sv_active = None, sv_state = None, sv_was_active = None, sv_restore = False,
                sv_recorded = False, sv_list_inflight = False, sv_switch_inflight = False,
                sv_source_stop = Map.empty, sv_out = []\<rparr>)))"

end
