(* ===== verification/Supervisor_Safety.thy ===== *)
theory Supervisor_Safety
  imports Safety_Supervisor
begin

text \<open>
  What the safety supervisor guarantees: it releases the stop only on fresh clear samples
  of every required source, only after the controller manager has confirmed an active
  controller, and it activates a controller only to restore one it has seen active.
\<close>

section \<open>Outputs of interest\<close>

fun is_stop :: "sv_output \<Rightarrow> bool" where
  "is_stop (PublishStop _) = True" | "is_stop _ = False"

fun is_switch :: "sv_output \<Rightarrow> bool" where
  "is_switch (SwitchRequest _ _) = True" | "is_switch _ = False"

abbreviation stops :: "supervisor \<Rightarrow> sv_output list" where
  "stops s \<equiv> filter is_stop (sv_out s)"

abbreviation switches :: "supervisor \<Rightarrow> sv_output list" where
  "switches s \<equiv> filter is_switch (sv_out s)"

section \<open>What each part leaves alone\<close>

lemma emit_frame [simp]:
  "sv_controller (sv_emit os s) = sv_controller s" "sv_manage (sv_emit os s) = sv_manage s"
  "sv_sources (sv_emit os s) = sv_sources s" "sv_trackers (sv_emit os s) = sv_trackers s"
  "sv_desired_stop (sv_emit os s) = sv_desired_stop s" "sv_published (sv_emit os s) = sv_published s"
  "sv_ready (sv_emit os s) = sv_ready s" "sv_hold (sv_emit os s) = sv_hold s"
  "sv_active (sv_emit os s) = sv_active s" "sv_state (sv_emit os s) = sv_state s"
  "sv_was_active (sv_emit os s) = sv_was_active s" "sv_restore (sv_emit os s) = sv_restore s"
  "sv_recorded (sv_emit os s) = sv_recorded s" "sv_list_inflight (sv_emit os s) = sv_list_inflight s"
  "sv_switch_inflight (sv_emit os s) = sv_switch_inflight s"
  "sv_source_stop (sv_emit os s) = sv_source_stop s" "sv_out (sv_emit os s) = sv_out s @ os"
  by (simp_all add: sv_emit_def)

lemma publish_frame [simp]:
  "sv_controller (sv_publish t a s) = sv_controller s" "sv_manage (sv_publish t a s) = sv_manage s"
  "sv_sources (sv_publish t a s) = sv_sources s" "sv_trackers (sv_publish t a s) = sv_trackers s"
  "sv_desired_stop (sv_publish t a s) = sv_desired_stop s" "sv_ready (sv_publish t a s) = sv_ready s"
  "sv_hold (sv_publish t a s) = sv_hold s" "sv_active (sv_publish t a s) = sv_active s"
  "sv_was_active (sv_publish t a s) = sv_was_active s" "sv_restore (sv_publish t a s) = sv_restore s"
  "sv_recorded (sv_publish t a s) = sv_recorded s"
  "sv_list_inflight (sv_publish t a s) = sv_list_inflight s"
  "sv_switch_inflight (sv_publish t a s) = sv_switch_inflight s"
  "sv_state (sv_publish t a s) = sv_state s" "sv_published (sv_publish t a s) = Some a"
  "stops (sv_publish t a s) = stops s @ [PublishStop a]"
  "switches (sv_publish t a s) = switches s"
  by (simp_all add: sv_publish_def Let_def)

lemma effective_verbatim: "publish_effective t s = sv_publish t
    (effective_stop (sv_desired_stop s) (sv_ready s) (sv_hold s) (sv_restore s) (sv_manage s)) s"
  by (simp add: publish_effective_def effective_stop_def)

lemma log_frame [simp]:
  "sv_controller (log_transitions f trs s) = sv_controller s"
  "sv_manage (log_transitions f trs s) = sv_manage s"
  "sv_sources (log_transitions f trs s) = sv_sources s"
  "sv_trackers (log_transitions f trs s) = sv_trackers s"
  "sv_desired_stop (log_transitions f trs s) = sv_desired_stop s"
  "sv_ready (log_transitions f trs s) = sv_ready s" "sv_hold (log_transitions f trs s) = sv_hold s"
  "sv_active (log_transitions f trs s) = sv_active s"
  "sv_state (log_transitions f trs s) = sv_state s"
  "sv_was_active (log_transitions f trs s) = sv_was_active s"
  "sv_restore (log_transitions f trs s) = sv_restore s"
  "sv_recorded (log_transitions f trs s) = sv_recorded s"
  "sv_list_inflight (log_transitions f trs s) = sv_list_inflight s"
  "sv_switch_inflight (log_transitions f trs s) = sv_switch_inflight s"
  "stops (log_transitions f trs s) = stops s" "switches (log_transitions f trs s) = switches s"
  by (induction f trs s rule: log_transitions.induct; simp add: Let_def split: option.splits)+

lemma fused_log [simp]: "fused_stop g (log_transitions f trs s) = fused_stop g s"
  by (simp add: fused_stop_def)

lemma refresh_frame [simp]:
  "sv_controller (refresh_desired_stop env s) = sv_controller s"
  "sv_manage (refresh_desired_stop env s) = sv_manage s"
  "sv_sources (refresh_desired_stop env s) = sv_sources s"
  "sv_trackers (refresh_desired_stop env s) = sv_trackers s"
  "sv_ready (refresh_desired_stop env s) = sv_ready s"
  "sv_active (refresh_desired_stop env s) = sv_active s"
  "sv_state (refresh_desired_stop env s) = sv_state s"
  "sv_list_inflight (refresh_desired_stop env s) = sv_list_inflight s"
  "sv_switch_inflight (refresh_desired_stop env s) = sv_switch_inflight s"
  "sv_desired_stop (refresh_desired_stop env s) = fused_stop (en_gate_time env) s"
  "stops (refresh_desired_stop env s) = stops s"
  "switches (refresh_desired_stop env s) = switches s"
  by (auto simp: refresh_desired_stop_def Let_def)

lemma refresh_hold:
  "sv_hold (refresh_desired_stop env s) =
     (sv_hold s \<or> fused_stop (en_gate_time env) s \<and> \<not> sv_desired_stop s)"
  by (auto simp: refresh_desired_stop_def Let_def)

lemma refresh_restore:
  "sv_restore (refresh_desired_stop env s) =
     (sv_restore s \<or> \<not> fused_stop (en_gate_time env) s \<and> sv_desired_stop s \<and> sv_was_active s = Some True)"
  by (auto simp: refresh_desired_stop_def Let_def)

lemma refresh_was_active:
  "sv_was_active (refresh_desired_stop env s) =
     (if fused_stop (en_gate_time env) s \<and> \<not> sv_desired_stop s \<and> sv_was_active s = None
      then map_option (\<lambda>a. a) (sv_active s) else sv_was_active s)"
  by (cases "sv_active s") (auto simp: refresh_desired_stop_def Let_def)

text \<open>The state in which a reconciliation publishes.\<close>

definition gated :: "sv_env \<Rightarrow> supervisor \<Rightarrow> supervisor" where
  "gated env s =
     (let s1 = refresh_desired_stop env s; ready = en_management_ready env in
      if ready \<noteq> sv_ready s1
      then s1\<lparr>sv_ready := ready, sv_hold := (if ready then sv_hold s1 else True)\<rparr> else s1)"

lemma gated_frame [simp]:
  "sv_controller (gated env s) = sv_controller s" "sv_manage (gated env s) = sv_manage s"
  "sv_trackers (gated env s) = sv_trackers s" "sv_sources (gated env s) = sv_sources s"
  "sv_ready (gated env s) = en_management_ready env" "sv_active (gated env s) = sv_active s"
  "sv_state (gated env s) = sv_state s" "sv_list_inflight (gated env s) = sv_list_inflight s"
  "sv_switch_inflight (gated env s) = sv_switch_inflight s"
  "sv_desired_stop (gated env s) = fused_stop (en_gate_time env) s"
  "stops (gated env s) = stops s" "switches (gated env s) = switches s"
  "sv_restore (gated env s) = sv_restore (refresh_desired_stop env s)"
  "sv_was_active (gated env s) = sv_was_active (refresh_desired_stop env s)"
  by (auto simp: gated_def Let_def)

lemma gated_hold:
  "sv_hold (gated env s) = (sv_hold s \<or> fused_stop (en_gate_time env) s \<and> \<not> sv_desired_stop s
     \<or> sv_ready s \<and> \<not> en_management_ready env)"
  by (auto simp: gated_def Let_def refresh_hold)

text \<open>After publishing, a reconciliation only asks for a listing or logs.\<close>

lemma request_listing_cases:
  fixes p :: supervisor
  assumes x_def: "x = (if a \<or> b \<or> c \<or> d then p
       else case rdy of
           ReadyRaises e \<Rightarrow>
             sv_emit [LogError (''controller manager list readiness check failed: '' @ e)] p
         | IsReady False \<Rightarrow> p
         | IsReady True \<Rightarrow>
             (case call of
                CallRaises e \<Rightarrow> sv_emit [LogError (''controller state request failed: '' @ e)] p
              | CallOk \<Rightarrow> (sv_emit [ListRequest] p)\<lparr>sv_list_inflight := True\<rparr>))"
  shows "x = p \<or> (\<exists>e. x = sv_emit [LogError e] p)
     \<or> \<not> d \<and> x = (sv_emit [ListRequest] p)\<lparr>sv_list_inflight := True\<rparr>"
proof (cases "a \<or> b \<or> c \<or> d")
  case True
  then show ?thesis by (simp only: x_def if_True simp_thms)
next
  case False
  then show ?thesis
  proof (cases rdy)
    case (IsReady r)
    consider "x = p" | e where "x = sv_emit [LogError (''controller state request failed: '' @ e)] p"
      | "x = (sv_emit [ListRequest] p)\<lparr>sv_list_inflight := True\<rparr>"
      using False unfolding x_def IsReady
      by (cases r; cases call) (simp_all only: if_False readiness.case bool.case call_result.case simp_thms)
    then show ?thesis using False by cases blast+
  next
    case (ReadyRaises e)
    with False have "x = sv_emit [LogError (''controller manager list readiness check failed: '' @ e)] p"
      unfolding x_def by (simp only: if_False readiness.case)
    then show ?thesis by (intro disjI2 disjI1 exI)
  qed
qed

lemma reconcile_gated:
  "\<exists>os b. sv_reconcile env s =
       (sv_emit os (publish_effective (en_reason_time env) (gated env s)))\<lparr>sv_list_inflight := b\<rparr>
     \<and> filter is_stop os = [] \<and> filter is_switch os = []
     \<and> (b \<longrightarrow> sv_list_inflight s \<or> \<not> sv_switch_inflight s)"
proof -
  let ?p = "publish_effective (en_reason_time env) (gated env s)"
  have eq: "sv_reconcile env s =
      (if \<not> sv_manage ?p \<or> \<not> sv_ready ?p \<or> sv_list_inflight ?p \<or> sv_switch_inflight ?p then ?p
       else case en_list_ready env of
           ReadyRaises e \<Rightarrow>
             sv_emit [LogError (''controller manager list readiness check failed: '' @ e)] ?p
         | IsReady False \<Rightarrow> ?p
         | IsReady True \<Rightarrow>
             (case en_list_call env of
                CallRaises e \<Rightarrow> sv_emit [LogError (''controller state request failed: '' @ e)] ?p
              | CallOk \<Rightarrow> (sv_emit [ListRequest] ?p)\<lparr>sv_list_inflight := True\<rparr>))"
    unfolding sv_reconcile_def gated_def Let_def by (rule refl)
  have same: "p = (sv_emit [] p)\<lparr>sv_list_inflight := sv_list_inflight p\<rparr>" for p :: supervisor
    by (simp add: sv_emit_def)
  have emit: "sv_emit os p = (sv_emit os p)\<lparr>sv_list_inflight := sv_list_inflight p\<rparr>" for os p
    by (simp add: sv_emit_def)
  have b: "sv_list_inflight ?p = sv_list_inflight s" "sv_switch_inflight ?p = sv_switch_inflight s"
    by (simp_all add: effective_verbatim)
  have "sv_reconcile env s = ?p \<or> (\<exists>e. sv_reconcile env s = sv_emit [LogError e] ?p)
      \<or> \<not> sv_switch_inflight s \<and> sv_reconcile env s = (sv_emit [ListRequest] ?p)\<lparr>sv_list_inflight := True\<rparr>"
    unfolding eq b by (rule request_listing_cases [OF refl])
  then consider "sv_reconcile env s = ?p" | e where "sv_reconcile env s = sv_emit [LogError e] ?p"
    | "\<not> sv_switch_inflight s" "sv_reconcile env s = (sv_emit [ListRequest] ?p)\<lparr>sv_list_inflight := True\<rparr>"
    by blast
  then show ?thesis
  proof cases
    case 1
    then have "sv_reconcile env s = (sv_emit [] ?p)\<lparr>sv_list_inflight := sv_list_inflight s\<rparr>"
      using same [of ?p] b by simp
    then show ?thesis by force
  next
    case (2 e)
    then have "sv_reconcile env s = (sv_emit [LogError e] ?p)\<lparr>sv_list_inflight := sv_list_inflight s\<rparr>"
      using emit [of "[LogError e]" ?p] b by simp
    then show ?thesis by force
  next
    case 3
    then show ?thesis by force
  qed
qed

lemma reconcile_frame [simp]:
  "sv_controller (sv_reconcile env s) = sv_controller s"
  "sv_manage (sv_reconcile env s) = sv_manage s"
  "sv_trackers (sv_reconcile env s) = sv_trackers s"
  "sv_sources (sv_reconcile env s) = sv_sources s"
  "sv_ready (sv_reconcile env s) = en_management_ready env"
  "sv_active (sv_reconcile env s) = sv_active s"
  "sv_switch_inflight (sv_reconcile env s) = sv_switch_inflight s"
  "sv_desired_stop (sv_reconcile env s) = fused_stop (en_gate_time env) s"
  "sv_hold (sv_reconcile env s) = sv_hold (gated env s)"
  "sv_restore (sv_reconcile env s) = sv_restore (refresh_desired_stop env s)"
  "sv_was_active (sv_reconcile env s) = sv_was_active (refresh_desired_stop env s)"
  "switches (sv_reconcile env s) = switches s"
proof -
  obtain os b where "sv_reconcile env s =
      (sv_emit os (publish_effective (en_reason_time env) (gated env s)))\<lparr>sv_list_inflight := b\<rparr>"
    "filter is_stop os = []" "filter is_switch os = []" using reconcile_gated [of env s] by blast
  note eq = this
  show "sv_controller (sv_reconcile env s) = sv_controller s"
    "sv_manage (sv_reconcile env s) = sv_manage s"
    "sv_trackers (sv_reconcile env s) = sv_trackers s"
    "sv_sources (sv_reconcile env s) = sv_sources s"
    "sv_ready (sv_reconcile env s) = en_management_ready env"
    "sv_active (sv_reconcile env s) = sv_active s"
    "sv_switch_inflight (sv_reconcile env s) = sv_switch_inflight s"
    "sv_desired_stop (sv_reconcile env s) = fused_stop (en_gate_time env) s"
    "sv_hold (sv_reconcile env s) = sv_hold (gated env s)"
    "sv_restore (sv_reconcile env s) = sv_restore (refresh_desired_stop env s)"
    "sv_was_active (sv_reconcile env s) = sv_was_active (refresh_desired_stop env s)"
    "switches (sv_reconcile env s) = switches s"
    unfolding eq(1) by (simp_all add: effective_verbatim eq)
qed

lemma reconcile_stops:
  "stops (sv_reconcile env s) = stops s @ [PublishStop
     (effective_stop (fused_stop (en_gate_time env) s) (en_management_ready env)
        (sv_hold (gated env s)) (sv_restore (gated env s)) (sv_manage s))]"
proof -
  obtain os b where eq: "sv_reconcile env s =
      (sv_emit os (publish_effective (en_reason_time env) (gated env s)))\<lparr>sv_list_inflight := b\<rparr>"
    "filter is_stop os = []" using reconcile_gated [of env s] by blast
  show ?thesis unfolding eq(1) by (simp add: effective_verbatim eq)
qed

lemma reconcile_inflight:
  assumes "sv_list_inflight (sv_reconcile env s)"
  shows "sv_list_inflight s \<or> \<not> sv_switch_inflight s"
proof -
  obtain os b where "sv_reconcile env s =
      (sv_emit os (publish_effective (en_reason_time env) (gated env s)))\<lparr>sv_list_inflight := b\<rparr>"
    "b \<longrightarrow> sv_list_inflight s \<or> \<not> sv_switch_inflight s" using reconcile_gated [of env s] by blast
  with assms show ?thesis by simp
qed

lemma request_switch_frame [simp]:
  "sv_controller (request_switch a env s) = sv_controller s"
  "sv_manage (request_switch a env s) = sv_manage s"
  "sv_desired_stop (request_switch a env s) = sv_desired_stop s"
  "sv_ready (request_switch a env s) = sv_ready s" "sv_hold (request_switch a env s) = sv_hold s"
  "sv_active (request_switch a env s) = sv_active s"
  "sv_was_active (request_switch a env s) = sv_was_active s"
  "sv_restore (request_switch a env s) = sv_restore s"
  "sv_list_inflight (request_switch a env s) = sv_list_inflight s"
  "stops (request_switch a env s) = stops s"
  by (auto simp: request_switch_def split: readiness.split call_result.split bool.split)

definition switch_available :: "sv_env \<Rightarrow> bool" where
  "switch_available env \<longleftrightarrow> en_switch_ready env = IsReady True \<and> en_switch_call env = CallOk"

lemma request_switch_switches:
  "switches (request_switch a env s) =
     switches s @ (if switch_available env then [SwitchRequest a (sv_controller s)] else [])"
  by (auto simp: request_switch_def switch_available_def
      split: readiness.split call_result.split bool.split)

section \<open>Events\<close>

datatype sv_event =
    SvSource string bool pyfloat sv_env
  | SvTimer sv_env
  | SvListed "(string \<times> string) list future" sv_env
  | SvSwitched "bool future" sv_env

fun sv_step :: "sv_event \<Rightarrow> supervisor \<Rightarrow> supervisor" where
  "sv_step (SvSource n d t env) s = sv_source n d t env s"
| "sv_step (SvTimer env) s = sv_reconcile env s"
| "sv_step (SvListed fut env) s = controllers_listed fut env s"
| "sv_step (SvSwitched fut env) s = sv_switched fut env s"

text \<open>The listing that an event delivers about a controller.\<close>

fun listed_state :: "string \<Rightarrow> sv_event \<Rightarrow> string option" where
  "listed_state c (SvListed (FutureResult (Some cs)) env) = map_of cs c"
| "listed_state c _ = None"

definition reports_active :: "string \<Rightarrow> sv_event \<Rightarrow> bool" where
  "reports_active c e \<longleftrightarrow> map_option py_lower (listed_state c e) = Some ''active''"

lemma known_frame [simp]:
  "sv_controller (controller_known st env s) = sv_controller s"
  "sv_manage (controller_known st env s) = sv_manage s"
  "sv_desired_stop (controller_known st env s) = sv_desired_stop s"
  "sv_ready (controller_known st env s) = sv_ready s"
  "sv_list_inflight (controller_known st env s) = sv_list_inflight s"
  "sv_active (controller_known st env s) = Some (py_lower st = ''active'')"
  by (simp_all add: controller_known_def Let_def effective_verbatim)

lemma known_restore:
  "sv_restore (controller_known st env s) =
     (sv_restore s \<and> \<not> (\<not> sv_desired_stop s \<and> py_lower st = ''active''))"
  by (simp add: controller_known_def Let_def effective_verbatim)

lemma known_hold:
  "sv_hold (controller_known st env s) =
     (if sv_desired_stop s then True
      else if py_lower st = ''active'' then False
      else if sv_restore s then sv_hold s else True)"
  by (simp add: controller_known_def Let_def effective_verbatim)

lemma known_was_active:
  "sv_was_active (controller_known st env s) = Some True \<Longrightarrow>
     sv_was_active s = Some True \<or> py_lower st = ''active''"
  by (auto simp: controller_known_def Let_def effective_verbatim split: if_splits)

lemma known_stops:
  "stops (controller_known st env s) = stops s @
     (if sv_desired_stop s \<or> sv_restore s \<and> py_lower st \<noteq> ''active'' then []
      else [PublishStop (effective_stop False (sv_ready s) (py_lower st \<noteq> ''active'') False (sv_manage s))])"
  by (auto simp: controller_known_def Let_def effective_verbatim)

lemma known_switches:
  "switches (controller_known st env s) = switches s @
     (if \<not> switch_available env then []
      else if sv_desired_stop s \<and> py_lower st = ''active'' then [SwitchRequest False (sv_controller s)]
      else if \<not> sv_desired_stop s \<and> sv_restore s \<and> py_lower st \<noteq> ''active''
      then [SwitchRequest True (sv_controller s)] else [])"
  by (auto simp: controller_known_def Let_def effective_verbatim request_switch_switches)

lemma listed_cases:
  obtains (unknown) os active state where "listed_state (sv_controller s) (SvListed fut env) = None"
    "controllers_listed fut env s =
       sv_emit os (s\<lparr>sv_list_inflight := False, sv_active := active, sv_state := state\<rparr>)"
    "filter is_stop os = []" "filter is_switch os = []" "active = None \<or> active = sv_active s"
  | (known) st where "listed_state (sv_controller s) (SvListed fut env) = Some st"
    "controllers_listed fut env s = controller_known st env (s\<lparr>sv_list_inflight := False\<rparr>)"
proof (cases "\<exists>st. listed_state (sv_controller s) (SvListed fut env) = Some st")
  case True
  then obtain st cs where "fut = FutureResult (Some cs)" "map_of cs (sv_controller s) = Some st"
    by (cases "(sv_controller s, SvListed fut env)" rule: listed_state.cases) auto
  then show thesis by (intro known [of st]) (simp_all add: controllers_listed_def Let_def)
next
  case False
  show thesis
  proof (cases fut)
    case (FutureRaises e)
    then show thesis
      by (intro unknown [where os = "[LogError (''controller state query failed: '' @ e)]"
            and active = "sv_active s" and state = "sv_state s"])
        (simp_all add: controllers_listed_def sv_emit_def)
  next
    case (FutureResult r)
    show thesis
    proof (cases r)
      case None
      then show thesis using FutureResult
        by (intro unknown [where os = "[LogError ''controller manager returned no controller state'']"
              and active = "sv_active s" and state = "sv_state s"])
          (simp_all add: controllers_listed_def sv_emit_def)
    next
      case (Some cs)
      then have "map_of cs (sv_controller s) = None" using False FutureResult by auto
      then show thesis using FutureResult Some
        by (intro unknown [where os = "[LogError (''configured controller is not listed: '' @ sv_controller s)]"
              and active = None and state = None])
          (simp_all add: controllers_listed_def sv_emit_def Let_def)
    qed
  qed
qed

lemma switched_cases:
  obtains (log) os where "sv_switched fut env s = sv_emit os (s\<lparr>sv_switch_inflight := False\<rparr>)"
    "filter is_stop os = []" "filter is_switch os = []"
  | (ack) "sv_switched fut env s
      = sv_reconcile env (s\<lparr>sv_switch_inflight := False, sv_active := None\<rparr>)"
proof (cases fut)
  case (FutureRaises e)
  then show thesis
    by (intro log [of "[LogError (''controller switch failed: '' @ e)]"]) (simp_all add: sv_switched_def)
next
  case (FutureResult r)
  then show thesis
  proof (cases "r = Some True")
    case True
    with FutureResult show thesis by (intro ack) (simp add: sv_switched_def)
  next
    case False
    with FutureResult show thesis
      by (intro log [of "[LogError ''controller manager rejected safety switch'']"])
        (auto simp: sv_switched_def Let_def split: option.split bool.split)
  qed
qed


lemma source_frame [simp]:
  "sv_controller (sv_source n d t env s) = sv_controller s"
  "sv_manage (sv_source n d t env s) = sv_manage s"
  by (simp_all add: sv_source_def)

lemma step_constants:
  "sv_controller (sv_step e s) = sv_controller s \<and> sv_manage (sv_step e s) = sv_manage s"
proof (cases e)
  case (SvListed fut env)
  show ?thesis using SvListed by (cases rule: listed_cases [of s fut env]) simp_all
next
  case (SvSwitched fut env)
  show ?thesis using SvSwitched by (cases rule: switched_cases [of fut env s]) simp_all
qed simp_all

section \<open>Properties\<close>

text \<open>A required source is clear when its last sample was false and is younger than the deadline.\<close>

definition source_clear :: "(string \<Rightarrow> pyfloat) \<Rightarrow> string \<times> tracker \<Rightarrow> bool" where
  "source_clear time ntr \<longleftrightarrow> tr_value (snd ntr) = Some False \<and>
     (case tr_received (snd ntr) of None \<Rightarrow> False
      | Some r \<Rightarrow> \<not> fle (tr_deadline (snd ntr)) (fsub (time (fst ntr)) r))"

lemma requires_stop_clear: "requires_stop tr (time n) \<longleftrightarrow> \<not> source_clear time (n, tr)"
  by (auto simp: requires_stop_def source_clear_def split: option.splits)

lemma fused_stop_clear:
  "\<not> fused_stop time s \<longleftrightarrow> list_all (source_clear time) (sv_trackers s)
     \<and> list_all (\<lambda>n. sv_sources s n \<noteq> Some True) OPTIONAL_SOURCES"
  by (auto simp: fused_stop_def list_ex_iff list_all_iff requires_stop_clear)

text \<open>C12: A reconciliation publishes the stop exactly once. It publishes a release exactly when
  every required source has a fresh clear sample and no optional source asserts a stop, and,
  in managed mode, the controller management is ready, no hold is latched and no controller
  waits to be restored.\<close>

theorem reconcile_release:
  "\<exists>b. stops (sv_reconcile env s) = stops s @ [PublishStop b] \<and>
     (b = False \<longleftrightarrow>
        list_all (source_clear (en_gate_time env)) (sv_trackers s)
        \<and> list_all (\<lambda>n. sv_sources s n \<noteq> Some True) OPTIONAL_SOURCES
        \<and> (if sv_manage s
           then en_management_ready env \<and> \<not> sv_hold s \<and> \<not> sv_restore s
                \<and> \<not> (sv_desired_stop s \<and> sv_was_active s = Some True)
           else True))"
proof -
  have "\<not> effective_stop (fused_stop (en_gate_time env) s) (en_management_ready env)
        (sv_hold (gated env s)) (sv_restore (gated env s)) (sv_manage s)
      \<longleftrightarrow> \<not> fused_stop (en_gate_time env) s \<and>
        (if sv_manage s
           then en_management_ready env \<and> \<not> sv_hold s \<and> \<not> sv_restore s
                \<and> \<not> (sv_desired_stop s \<and> sv_was_active s = Some True)
           else True)"
    by (auto simp: effective_stop_def gated_hold refresh_restore)
  then show ?thesis unfolding reconcile_stops fused_stop_clear by auto
qed

text \<open>A required source whose last sample arrived at \<open>r\<close> requires a stop unless that
  sample was false and \<open>now\<close> is less than the deadline after it, whatever samples came before;
  a source that never reported requires a stop.\<close>

theorem tracker_last_sample:
  "requires_stop (foldl (\<lambda>tr vr. tracker_update (fst vr) (Fin (snd vr)) tr)
       \<lparr>tr_deadline = Fin d, tr_value = None, tr_received = None\<rparr> samples) (Fin now)
   \<longleftrightarrow> (case rev samples of [] \<Rightarrow> True | (v, r) # _ \<Rightarrow> v \<or> r + d \<le> now)"
proof -
  have d: "tr_deadline (foldl (\<lambda>tr vr. tracker_update (fst vr) (Fin (snd vr)) tr) tr xs) = tr_deadline tr"
    for tr xs by (induction xs arbitrary: tr) (simp_all add: tracker_update_def)
  show ?thesis
  proof (cases samples rule: rev_cases)
    case Nil
    then show ?thesis by (simp add: requires_stop_def)
  next
    case (snoc xs vr)
    then show ?thesis using d
      by (cases vr) (auto simp: requires_stop_def tracker_update_def algebra_simps)
  qed
qed

text \<open>A deadline that is not a number is accepted by the constructor, and then a clear sample
  never expires.\<close>

lemma nan_deadline_never_expires:
  "tracker_new NaN = Inr \<lparr>tr_deadline = NaN, tr_value = None, tr_received = None\<rparr>
   \<and> \<not> requires_stop (tracker_update False (Fin r) \<lparr>tr_deadline = NaN, tr_value = None, tr_received = None\<rparr>) (Fin now)"
  by (simp add: tracker_new_def requires_stop_def tracker_update_def)

section \<open>Restoring the controller\<close>

definition evidence :: "supervisor \<Rightarrow> bool" where
  "evidence s \<longleftrightarrow> sv_was_active s = Some True \<or> sv_restore s \<or> sv_active s = Some True
     \<or> list_ex (\<lambda>out. out = SwitchRequest True (sv_controller s)) (switches s)"

definition own_switches :: "supervisor \<Rightarrow> bool" where
  "own_switches s \<longleftrightarrow> list_all (\<lambda>out. out = SwitchRequest True (sv_controller s)
     \<or> out = SwitchRequest False (sv_controller s)) (switches s)"

lemma evidence_reconcile: "evidence (sv_reconcile env s) \<Longrightarrow> evidence s"
  unfolding evidence_def reconcile_frame refresh_was_active refresh_restore
  by (cases "sv_active s") (auto split: if_splits)

lemma evidence_known:
  "evidence (controller_known st env s) \<Longrightarrow> evidence s \<or> py_lower st = ''active''"
  using known_was_active [of st env s]
  unfolding evidence_def known_frame known_restore known_switches by (auto split: if_splits)

lemma evidence_weaken:
  assumes "evidence s'" "sv_was_active s' = sv_was_active s" "sv_restore s' = sv_restore s"
    "sv_active s' = None \<or> sv_active s' = sv_active s" "sv_controller s' = sv_controller s"
    "switches s' = switches s"
  shows "evidence s"
  using assms(1,4) unfolding evidence_def assms(2,3,5,6) by auto

lemma evidence_step: "evidence (sv_step e s) \<Longrightarrow> evidence s \<or> reports_active (sv_controller s) e"
proof (cases e)
  case (SvSource n d t env)
  assume ev: "evidence (sv_step e s)"
  have "evidence (s\<lparr>sv_sources := (sv_sources s)(n := Some d), sv_trackers :=
      map (\<lambda>(n', tr). (n', if n' = n then tracker_update d t tr else tr)) (sv_trackers s)\<rparr>)"
    by (rule evidence_reconcile [of env]) (use ev SvSource in \<open>simp only: sv_step.simps sv_source_def\<close>)
  then show ?thesis by (simp add: evidence_def)
next
  case (SvTimer env)
  assume "evidence (sv_step e s)"
  then show ?thesis using SvTimer evidence_reconcile by simp
next
  case (SvListed fut env)
  assume ev: "evidence (sv_step e s)"
  show ?thesis
  proof (cases rule: listed_cases [of s fut env])
    case (unknown os active state)
    have "evidence s"
      by (rule evidence_weaken [OF ev]) (use unknown SvListed in simp_all)
    then show ?thesis ..
  next
    case (known st)
    with ev SvListed have "evidence (controller_known st env (s\<lparr>sv_list_inflight := False\<rparr>))" by simp
    from evidence_known [OF this] show ?thesis
      using known SvListed by (auto simp: evidence_def reports_active_def)
  qed
next
  case (SvSwitched fut env)
  assume ev: "evidence (sv_step e s)"
  show ?thesis
  proof (cases rule: switched_cases [of fut env s])
    case (log os)
    have "evidence s" by (rule evidence_weaken [OF ev]) (use log SvSwitched in simp_all)
    then show ?thesis ..
  next
    case ack
    have "evidence (s\<lparr>sv_switch_inflight := False, sv_active := None\<rparr>)"
      by (rule evidence_reconcile [of env]) (use ev SvSwitched ack in simp)
    then show ?thesis unfolding evidence_def by simp blast
  qed
qed

definition sv_run :: "sv_event list \<Rightarrow> supervisor \<Rightarrow> supervisor" where
  "sv_run = run_events sv_step"

lemma run_constants: "sv_controller (sv_run es s) = sv_controller s \<and> sv_manage (sv_run es s) = sv_manage s"
  unfolding sv_run_def by (induction es arbitrary: s) (simp_all add: step_constants)

lemma evidence_run:
  "evidence (sv_run es s) \<Longrightarrow> evidence s \<or> list_ex (reports_active (sv_controller s)) es"
  unfolding sv_run_def
proof (induction es arbitrary: s)
  case (Cons e es)
  then have "evidence (sv_step e s) \<or> list_ex (reports_active (sv_controller (sv_step e s))) es"
    by simp
  then show ?case using evidence_step [of e s] by (auto simp: step_constants)
qed simp

lemma supervisor_new_fields:
  assumes "supervisor_new controller deadline manage required now = Inr s"
  shows "sv_controller s = controller" "sv_manage s = manage" "sv_desired_stop s" "\<not> sv_ready s"
    "sv_hold s" "sv_active s = None" "sv_was_active s = None" "\<not> sv_restore s" "switches s = []"
    "\<not> sv_list_inflight s" "\<not> sv_switch_inflight s" "stops s = [PublishStop True]"
    "list_all (\<lambda>ntr. tr_value (snd ntr) = None) (sv_trackers s)"
  using assms by (auto simp: supervisor_new_def tracker_new_def list_all_iff split: if_splits option.splits)

text \<open>Whatever the node is told and in whatever order, it requests the activation of the
  controller only if some earlier listing reported that controller active: a controller that
  was never seen running is never started.\<close>

theorem activation_needs_evidence:
  assumes "supervisor_new controller deadline manage required now = Inr s0"
    and "SwitchRequest True c \<in> set (sv_out (sv_run es s0))" and "c = controller"
  shows "list_ex (reports_active controller) es"
proof -
  note new = supervisor_new_fields [OF assms(1)]
  have "SwitchRequest True c \<in> set (switches (sv_run es s0))" using assms(2) by simp
  moreover have "sv_controller (sv_run es s0) = c" using assms(3) run_constants new(1) by simp
  ultimately have "evidence (sv_run es s0)" by (auto simp: evidence_def list_ex_iff)
  moreover have "\<not> evidence s0" using new by (simp add: evidence_def)
  ultimately show ?thesis using evidence_run [of es s0] new(1) by blast
qed


definition demo_env :: sv_env where
  "demo_env = \<lparr>en_log_time = (\<lambda>_. Fin 1), en_gate_time = (\<lambda>_. Fin 1), en_reason_time = Fin 1,
     en_management_ready = True, en_list_ready = IsReady True, en_list_call = CallOk,
     en_switch_ready = IsReady True, en_switch_call = CallOk\<rparr>"

definition demo_clear :: "sv_event list" where
  "demo_clear = [SvSource ''xarm'' False (Fin 1) demo_env, SvSource ''collision'' False (Fin 1) demo_env]"

definition demo_supervisor :: supervisor where
  "demo_supervisor =
     (case supervisor_new ''xarm7'' (Fin 1) True REQUIRED_SOURCES (Fin 0) of Inr s \<Rightarrow> s)"

text \<open>The arm is listed active under the start-up stop, so it is deactivated and, once all is
  clear and it is listed inactive, activated again.\<close>

definition demo_restore :: "sv_event list" where
  "demo_restore = [SvTimer demo_env, SvListed (FutureResult (Some [(''xarm7'', ''ACTIVE'')])) demo_env,
     SvSwitched (FutureResult (Some True)) demo_env] @ demo_clear @
     [SvListed (FutureResult (Some [(''xarm7'', ''inactive'')])) demo_env]"

lemma demo_supervisor_new:
  "supervisor_new ''xarm7'' (Fin 1) True REQUIRED_SOURCES (Fin 0) = Inr demo_supervisor"
proof -
  have "is_ok (supervisor_new ''xarm7'' (Fin 1) True REQUIRED_SOURCES (Fin 0))" by code_simp
  then show ?thesis by (auto simp: is_ok_iff demo_supervisor_def)
qed

theorem activation_needs_evidence_witness: "list_ex (reports_active ''xarm7'') demo_restore"
proof -
  have "list_ex (\<lambda>out. out = SwitchRequest True ''xarm7'') (sv_out (sv_run demo_restore demo_supervisor))"
    by code_simp
  then have "SwitchRequest True ''xarm7'' \<in> set (sv_out (sv_run demo_restore demo_supervisor))"
    by (auto simp: list_ex_iff)
  from activation_needs_evidence [OF demo_supervisor_new this refl] show ?thesis .
qed

text \<open>What a controller listing requests, completely: under a stop an active controller is
  deactivated, without a stop a controller waiting to be restored is activated unless it is
  already active, and nothing else is ever requested; the request goes out when the switch
  service can be called.\<close>

theorem listing_switch_decision:
  "switches (controllers_listed fut env s) = switches s @
     (case listed_state (sv_controller s) (SvListed fut env) of
        None \<Rightarrow> []
      | Some st \<Rightarrow>
          if \<not> switch_available env then []
          else if sv_desired_stop s \<and> py_lower st = ''active''
          then [SwitchRequest False (sv_controller s)]
          else if \<not> sv_desired_stop s \<and> sv_restore s \<and> py_lower st \<noteq> ''active''
          then [SwitchRequest True (sv_controller s)] else [])"
proof (cases rule: listed_cases [of s fut env])
  case (unknown os active state)
  then show ?thesis by simp
next
  case (known st)
  then show ?thesis by (simp add: known_switches)
qed

section \<open>The hold\<close>

text \<open>A desired stop always latches the hold.\<close>

definition hold_inv :: "supervisor \<Rightarrow> bool" where
  "hold_inv s \<longleftrightarrow> (sv_desired_stop s \<longrightarrow> sv_hold s)"

lemma hold_inv_reconcile: "hold_inv s \<Longrightarrow> hold_inv (sv_reconcile env s)"
  by (auto simp: hold_inv_def gated_hold)

lemma hold_inv_step: "hold_inv s \<Longrightarrow> hold_inv (sv_step e s)"
proof (cases e)
  case (SvSource n d t env)
  assume "hold_inv s"
  then have "hold_inv (s\<lparr>sv_sources := (sv_sources s)(n := Some d), sv_trackers :=
      map (\<lambda>(n', tr). (n', if n' = n then tracker_update d t tr else tr)) (sv_trackers s)\<rparr>)"
    by (simp add: hold_inv_def)
  then show ?thesis unfolding SvSource sv_step.simps sv_source_def by (rule hold_inv_reconcile)
next
  case (SvTimer env)
  assume "hold_inv s"
  then show ?thesis using SvTimer hold_inv_reconcile by simp
next
  case (SvListed fut env)
  assume "hold_inv s"
  then show ?thesis using SvListed
    by (cases rule: listed_cases [of s fut env]) (simp_all add: hold_inv_def known_hold)
next
  case (SvSwitched fut env)
  assume inv: "hold_inv s"
  show ?thesis
  proof (cases rule: switched_cases [of fut env s])
    case (log os)
    then show ?thesis using SvSwitched inv by (simp add: hold_inv_def)
  next
    case ack
    have "hold_inv (s\<lparr>sv_switch_inflight := False, sv_active := None\<rparr>)"
      using inv by (simp add: hold_inv_def)
    then show ?thesis using SvSwitched ack hold_inv_reconcile by simp
  qed
qed

interpretation sv_hold: event_invariant sv_step hold_inv
  by unfold_locales (rule hold_inv_step)

definition held_back :: "supervisor \<Rightarrow> bool" where
  "held_back s \<longleftrightarrow> sv_hold s \<and> sv_manage s"

text \<open>A held supervisor neither releases the stop nor drops the hold, except on a listing that
  reports its controller active while no stop is desired.\<close>

lemma held_reconcile:
  "held_back s \<Longrightarrow> held_back (sv_reconcile env s) \<and>
     stops (sv_reconcile env s) = stops s @ [PublishStop True]"
  by (simp add: held_back_def gated_hold reconcile_stops effective_stop_def)

lemma held_cong: "held_back s \<Longrightarrow> sv_hold s' = sv_hold s \<Longrightarrow> sv_manage s' = sv_manage s \<Longrightarrow> held_back s'"
  by (simp add: held_back_def)

definition releases :: "string \<Rightarrow> supervisor \<Rightarrow> sv_event \<Rightarrow> bool" where
  "releases c s e \<longleftrightarrow> reports_active c e \<and> \<not> sv_desired_stop s"

lemma held_step:
  assumes "held_back s" "\<not> releases (sv_controller s) s e"
  shows "held_back (sv_step e s) \<and>
    (\<exists>os. stops (sv_step e s) = stops s @ os \<and> list_all (\<lambda>out. out = PublishStop True) os)"
proof (cases e)
  case (SvSource n d t env)
  let ?s = "s\<lparr>sv_sources := (sv_sources s)(n := Some d), sv_trackers :=
      map (\<lambda>(n', tr). (n', if n' = n then tracker_update d t tr else tr)) (sv_trackers s)\<rparr>"
  have "held_back ?s" using assms(1) by (simp add: held_back_def)
  from held_reconcile [OF this, of env] show ?thesis using SvSource by (simp add: sv_source_def)
next
  case (SvTimer env)
  then show ?thesis using held_reconcile [OF assms(1), of env] by simp
next
  case (SvListed fut env)
  show ?thesis
  proof (cases rule: listed_cases [of s fut env])
    case (unknown os active state)
    then show ?thesis using SvListed assms(1) by (simp add: held_back_def)
  next
    case (known st)
    have "sv_desired_stop s \<or> py_lower st \<noteq> ''active''"
      using assms(2) known(1) SvListed by (simp add: releases_def reports_active_def) blast
    then show ?thesis using SvListed known assms(1)
      by (auto simp: held_back_def known_hold known_stops effective_stop_def)
  qed
next
  case (SvSwitched fut env)
  show ?thesis
  proof (cases rule: switched_cases [of fut env s])
    case (log os)
    then show ?thesis using SvSwitched assms(1) by (simp add: held_back_def)
  next
    case ack
    have "held_back (s\<lparr>sv_switch_inflight := False, sv_active := None\<rparr>)"
      using assms(1) by (simp add: held_back_def)
    from held_reconcile [OF this, of env] show ?thesis using SvSwitched ack by simp
  qed
qed

fun first_release :: "string \<Rightarrow> supervisor \<Rightarrow> sv_event list \<Rightarrow> bool" where
  "first_release c s [] = False"
| "first_release c s (e # es) = (releases c s e \<or> first_release c (sv_step e s) es)"

lemma held_run:
  assumes "held_back s" "\<not> first_release (sv_controller s) s es"
  shows "\<exists>os. stops (sv_run es s) = stops s @ os \<and> list_all (\<lambda>out. out = PublishStop True) os"
  using assms
proof (induction es arbitrary: s)
  case Nil
  then show ?case by (simp add: sv_run_def)
next
  case (Cons e es)
  obtain os where os: "held_back (sv_step e s)" "stops (sv_step e s) = stops s @ os"
    "list_all (\<lambda>out. out = PublishStop True) os"
    using held_step [of s e] Cons.prems by auto
  obtain os' where "stops (sv_run es (sv_step e s)) = stops (sv_step e s) @ os'"
    "list_all (\<lambda>out. out = PublishStop True) os'"
    using Cons.IH [OF os(1)] Cons.prems(2) by (auto simp: step_constants)
  with os have "stops (sv_run (e # es) s) = stops s @ (os @ os')"
    "list_all (\<lambda>out. out = PublishStop True) (os @ os')" by (simp_all add: sv_run_def)
  then show ?case by blast
qed


text \<open>C13: In managed mode, while a stop is desired and until a listing that arrives with no stop
  desired reports the controller active, every stop sample published is an active stop,
  whatever the sources, the parameter and the services do in between.\<close>

theorem release_needs_confirmation:
  assumes "supervisor_new controller deadline True required now = Inr s0"
    and "s = sv_run es0 s0" and "sv_desired_stop s" and "\<not> first_release controller s es"
  shows "\<exists>os. stops (sv_run es s) = stops s @ os \<and> list_all (\<lambda>out. out = PublishStop True) os"
proof -
  note new = supervisor_new_fields [OF assms(1)]
  have "hold_inv s" unfolding assms(2) sv_run_def
    by (rule sv_hold.run_inv) (use new in \<open>simp add: hold_inv_def\<close>)
  then have "held_back s" using assms(2,3) new run_constants by (simp add: hold_inv_def held_back_def)
  moreover have "sv_controller s = controller" using assms(2) new run_constants by simp
  ultimately show ?thesis using held_run assms(4) by metis
qed

theorem release_needs_confirmation_witness:
  "\<exists>os. stops (sv_run demo_clear (sv_run [] demo_supervisor)) = stops (sv_run [] demo_supervisor) @ os
     \<and> list_all (\<lambda>out. out = PublishStop True) os"
proof -
  have "sv_desired_stop (sv_run [] demo_supervisor)" by code_simp
  moreover have "\<not> first_release ''xarm7'' (sv_run [] demo_supervisor) demo_clear" by code_simp
  ultimately show ?thesis by (rule release_needs_confirmation [OF demo_supervisor_new refl])
qed

section \<open>Requests in flight\<close>

text \<open>A future completes only while it is outstanding.\<close>

inductive sv_reachable :: "supervisor \<Rightarrow> supervisor \<Rightarrow> bool" for s0 where
  start: "sv_reachable s0 s0"
| source: "sv_reachable s0 s \<Longrightarrow> sv_reachable s0 (sv_step (SvSource n d t env) s)"
| timer: "sv_reachable s0 s \<Longrightarrow> sv_reachable s0 (sv_step (SvTimer env) s)"
| listed: "sv_reachable s0 s \<Longrightarrow> sv_list_inflight s \<Longrightarrow> sv_reachable s0 (sv_step (SvListed fut env) s)"
| switched: "sv_reachable s0 s \<Longrightarrow> sv_switch_inflight s \<Longrightarrow> sv_reachable s0 (sv_step (SvSwitched fut env) s)"

lemma single_reconcile:
  "\<not> (sv_list_inflight s \<and> sv_switch_inflight s) \<Longrightarrow>
   \<not> (sv_list_inflight (sv_reconcile env s) \<and> sv_switch_inflight (sv_reconcile env s))"
  using reconcile_inflight [of env s] by auto

text \<open>At most one request is outstanding: a listing and a switch are never in flight
  together.\<close>

theorem single_request:
  assumes "sv_reachable s0 s"
    and "supervisor_new controller deadline manage required now = Inr s0"
  shows "\<not> (sv_list_inflight s \<and> sv_switch_inflight s)"
  using assms
proof (induction rule: sv_reachable.induct)
  case start
  from supervisor_new_fields(10) [OF this] show ?case by simp
next
  case (source s n d t env)
  then show ?case unfolding sv_step.simps sv_source_def by (intro single_reconcile) simp
next
  case (timer s env)
  then show ?case unfolding sv_step.simps by (intro single_reconcile) simp
next
  case (listed s fut env)
  then have "\<not> sv_switch_inflight s" by simp
  then show ?case
    by (cases rule: listed_cases [of s fut env]) simp_all
next
  case (switched s fut env)
  then have idle: "\<not> sv_list_inflight s" by simp
  show ?case
  proof (cases rule: switched_cases [of fut env s])
    case (log os)
    then show ?thesis by simp
  next
    case ack
    then show ?thesis by simp
  qed
qed

theorem single_request_witness:
  "\<not> (sv_list_inflight (sv_step (SvTimer demo_env) demo_supervisor)
      \<and> sv_switch_inflight (sv_step (SvTimer demo_env) demo_supervisor))"
  by (rule single_request [OF sv_reachable.timer [OF sv_reachable.start] demo_supervisor_new])

end
