(* ===== verification/Command_Gateway.thy ===== *)
theory Command_Gateway
  imports Mux_Safety
begin

text \<open>
  The command gateway node (\<open>tinker_sim_bridge/command_gateway.py\<close>): the only publisher of
  joint commands. It owns the multiplexer, the safety gate with its heartbeat deadline, the
  command epoch and the snapshot counter. Each callback takes the clock readings it makes
  as arguments, in the order it makes them, and returns the new state with the outcome:
  an exception leaves the state reached when it was raised. Published messages and log
  lines are appended to \<open>gw_out\<close>. The diagnostic probe switched on by an environment
  variable is left out.
\<close>

section \<open>State\<close>

datatype gw_output =
    GwGate string string "pyfloat option option"
  | GwRejected string string int
  | GwError string
  | GwFrame string joint_command
  | GwStatus bool int int int "string \<rightharpoonup> string" "string \<rightharpoonup> string"

record gateway =
  gw_mux :: mux
  gw_rejected :: "string \<rightharpoonup> string"
  gw_reject_log :: "string \<rightharpoonup> pyfloat option \<times> int"
  gw_armed_at :: "pyfloat option"
  gw_active :: bool
  gw_timeout :: pyfloat
  gw_last_sample :: "pyfloat option"
  gw_session :: int
  gw_generation :: int
  gw_epoch :: int
  gw_snapshot :: int
  gw_last_commands :: "joint_command list option"
  gw_last_publish :: pyfloat
  gw_out :: "gw_output list"

definition KEEPALIVE_PERIOD_S :: pyfloat where "KEEPALIVE_PERIOD_S = Fin (1 / 20)"
definition MIN_PUBLISH_PERIOD_S :: pyfloat where "MIN_PUBLISH_PERIOD_S = Fin (1 / 60)"

definition gw_emit :: "gw_output list \<Rightarrow> gateway \<Rightarrow> gateway" where
  "gw_emit os g = g\<lparr>gw_out := gw_out g @ os\<rparr>"

text \<open>Start-up: the four sources of the launch parameters, the gate armed, the mux stopped and a
  random session. \<open>bits\<close> is what the random generator returned.\<close>

definition gateway_new ::
  "(string list \<times> pyfloat) \<Rightarrow> (string list \<times> pyfloat) \<Rightarrow> string list \<Rightarrow> string list \<Rightarrow> pyfloat \<Rightarrow> int
   \<Rightarrow> gateway res" where
  "gateway_new base arm gripper pan_tilt safety_timeout bits =
     (case command_source_new (fst base) (snd base) of Inl e \<Rightarrow> Inl e | Inr b \<Rightarrow>
      (case command_source_new (fst arm) (snd arm) of Inl e \<Rightarrow> Inl e | Inr a \<Rightarrow>
      (case command_source_new gripper (Fin (1 / 2)) of Inl e \<Rightarrow> Inl e | Inr gr \<Rightarrow>
      (case command_source_new pan_tilt (Fin (1 / 2)) of Inl e \<Rightarrow> Inl e | Inr pt \<Rightarrow>
      (case mux_new [(''base'', b), (''ros2_control'', a), (''gripper'', gr), (''pan_tilt'', pt)] of
         Inl e \<Rightarrow> Inl e
       | Inr m \<Rightarrow>
           if fle safety_timeout (Fin 0) then Inl (ValueError ''safety timeout must be positive'')
           else (case mux_stop True m of
                   (m', Inl e) \<Rightarrow> Inl e
                 | (m', Inr _) \<Rightarrow>
                     (case encode_command_epoch (PInt (new_command_session bits)) (PInt 0) of
                        Inl e \<Rightarrow> Inl e
                      | Inr epoch \<Rightarrow> Inr
                          \<lparr>gw_mux = m', gw_rejected = Map.empty, gw_reject_log = Map.empty,
                           gw_armed_at = None, gw_active = True, gw_timeout = safety_timeout,
                           gw_last_sample = None, gw_session = new_command_session bits,
                           gw_generation = 0, gw_epoch = epoch, gw_snapshot = 0,
                           gw_last_commands = None, gw_last_publish = NInf, gw_out = []\<rparr>)))))))"

section \<open>The safety gate\<close>

definition advance_command_epoch :: "gateway \<Rightarrow> gateway \<times> unit res" where
  "advance_command_epoch g =
     (let g' = g\<lparr>gw_generation := gw_generation g + 1\<rparr> in
      case encode_command_epoch (PInt (gw_session g')) (PInt (gw_generation g')) of
        Inl e \<Rightarrow> (g', Inl e)
      | Inr epoch \<Rightarrow> (g'\<lparr>gw_epoch := epoch\<rparr>, Inr ()))"

text \<open>The common end of both transitions: stop or release the mux, restart the snapshots.\<close>

definition enter_epoch :: "bool \<Rightarrow> gateway \<Rightarrow> gateway \<times> unit res" where
  "enter_epoch active g =
     (case advance_command_epoch g of
        (g1, Inl e) \<Rightarrow> (g1, Inl e)
      | (g1, Inr _) \<Rightarrow>
          (case mux_stop active (gw_mux g1) of
             (m, Inl e) \<Rightarrow> (g1\<lparr>gw_mux := m\<rparr>, Inl e)
           | (m, Inr _) \<Rightarrow> (g1\<lparr>gw_mux := m, gw_snapshot := 0, gw_last_commands := None\<rparr>, Inr ())))"

definition gw_safety_stop :: "bool \<Rightarrow> pyfloat \<Rightarrow> gateway \<Rightarrow> gateway \<times> unit res" where
  "gw_safety_stop active now g0 =
     (let g = g0\<lparr>gw_last_sample := Some now\<rparr> in
      if active = gw_active g then (g, Inr ())
      else
        let g1 = (if active
                  then gw_emit [GwGate ''armed'' ''sample'' None] (g\<lparr>gw_armed_at := Some now\<rparr>)
                  else gw_emit [GwGate ''cleared'' ''sample''
                                  (Some (map_option (fsub now) (gw_armed_at g)))] g)
        in enter_epoch active (g1\<lparr>gw_active := active\<rparr>))"

definition enforce_safety_deadline :: "pyfloat \<Rightarrow> gateway \<Rightarrow> gateway \<times> unit res" where
  "enforce_safety_deadline now g =
     (if (case gw_last_sample g of None \<Rightarrow> False | Some prev \<Rightarrow> flt (fsub now prev) (gw_timeout g))
      then (g, Inr ())
      else if gw_active g then (g, Inr ())
      else
        (case enter_epoch True
                (gw_emit [GwGate ''armed'' ''timeout'' (Some (map_option (fsub now) (gw_last_sample g)))]
                   (g\<lparr>gw_active := True, gw_armed_at := Some now\<rparr>)) of
           (g1, Inl e) \<Rightarrow> (g1, Inl e)
         | (g1, Inr _) \<Rightarrow>
             (g1\<lparr>gw_rejected := (gw_rejected g1)(''safety'' \<mapsto> ''safety heartbeat expired'')\<rparr>, Inr ())))"

section \<open>Accepting commands\<close>

definition log_command_rejected :: "string \<Rightarrow> string \<Rightarrow> pyfloat \<Rightarrow> gateway \<Rightarrow> gateway" where
  "log_command_rejected source reason now g =
     (let (prev, count) = (case gw_reject_log g source of None \<Rightarrow> (None, 0) | Some lc \<Rightarrow> lc);
          count' = count + 1
      in if (case prev of None \<Rightarrow> False | Some l \<Rightarrow> flt (fsub now l) (Fin 1))
         then g\<lparr>gw_reject_log := (gw_reject_log g)(source \<mapsto> (prev, count'))\<rparr>
         else (gw_emit [GwRejected source reason count'] g)
                \<lparr>gw_reject_log := (gw_reject_log g)(source \<mapsto> (Some now, 0))\<rparr>)"

text \<open>The values of a channel projected onto the owned names.\<close>

definition project_values ::
  "string \<Rightarrow> string list \<Rightarrow> string list \<Rightarrow> pyfloat list \<Rightarrow> pyfloat list res" where
  "project_values source owned names values =
     (let owned_names = filter (\<lambda>n. n \<in> set owned) names in
      if values = [] then Inr []
      else if length values = length names
      then Inr (map snd (filter (\<lambda>(n, v). n \<in> set owned) (zip names values)))
      else if length values = length owned_names \<and> owned_names = take (length owned_names) names
      then Inr values
      else Inl (ValueError (source @ '' '' @ dec_nat (length values) @ '' values do not align with ''
             @ dec_nat (length names) @ '' names / '' @ dec_nat (length owned_names) @ '' owned joints'')))"

definition owned_command ::
  "mux \<Rightarrow> string \<Rightarrow> string list \<Rightarrow> pyfloat list \<Rightarrow> pyfloat list \<Rightarrow> pyfloat list \<Rightarrow> joint_command res" where
  "owned_command m source names positions velocities efforts =
     (case map_of (mx_sources m) source of
        None \<Rightarrow> Inl (KeyError source)
      | Some policy \<Rightarrow>
          let owned = cs_joints policy; owned_names = filter (\<lambda>n. n \<in> set owned) names in
          if owned_names = []
          then Inl (ValueError (source @ '' message contains no owned joints''))
          else case project_values source owned names positions of
            Inl e \<Rightarrow> Inl e
          | Inr ps \<Rightarrow> (case project_values source owned names velocities of
              Inl e \<Rightarrow> Inl e
            | Inr vs \<Rightarrow> (case project_values source owned names efforts of
                Inl e \<Rightarrow> Inl e
              | Inr es \<Rightarrow> Inr \<lparr>jc_names = owned_names, jc_positions = ps,
                               jc_velocities = vs, jc_efforts = es\<rparr>)))"

definition reject_blocked :: "string \<Rightarrow> pyfloat \<Rightarrow> gateway \<Rightarrow> gateway" where
  "reject_blocked source now g =
     log_command_rejected source ''blocked by safety stop'' now
       (g\<lparr>gw_rejected := (gw_rejected g)(source \<mapsto> ''blocked by safety stop'')\<rparr>)"

text \<open>A joint state message.\<close>

record joint_state =
  js_name :: "string list"
  js_position :: "pyfloat list"
  js_velocity :: "pyfloat list"
  js_effort :: "pyfloat list"

definition gw_accept ::
  "string \<Rightarrow> joint_state \<Rightarrow> pyfloat \<Rightarrow> pyfloat \<Rightarrow> pyfloat \<Rightarrow> gateway \<Rightarrow> gateway \<times> unit res" where
  "gw_accept source msg t_deadline t_accept t_log g =
     (if gw_active g then (reject_blocked source t_log g, Inr ())
      else case enforce_safety_deadline t_deadline g of
        (g1, Inl e) \<Rightarrow> (g1, Inl e)
      | (g1, Inr _) \<Rightarrow>
          if gw_active g1 then (reject_blocked source t_log g1, Inr ())
          else
            (case (case owned_command (gw_mux g1) source (js_name msg) (js_position msg)
                          (js_velocity msg) (js_effort msg) of
                     Inl e \<Rightarrow> Inl e
                   | Inr c \<Rightarrow> mux_accept source c t_accept (gw_mux g1)) of
               Inr m \<Rightarrow> (g1\<lparr>gw_mux := m, gw_rejected := (gw_rejected g1)(source := None)\<rparr>, Inr ())
             | Inl e \<Rightarrow>
                 (gw_emit [GwError (''rejected '' @ source @ '' joint command: '' @ exc_text e)]
                   (log_command_rejected source (exc_text e) t_log
                      (g1\<lparr>gw_rejected := (gw_rejected g1)(source \<mapsto> exc_text e)\<rparr>)), Inr ())))"

definition gw_joint_state :: "joint_state \<Rightarrow> gateway \<Rightarrow> gateway \<times> unit res" where
  "gw_joint_state msg g =
     (if js_position msg = [] then (g, Inr ())
      else case mux_observe (js_name msg) (js_position msg) (gw_mux g) of
        Inr m \<Rightarrow> (g\<lparr>gw_mux := m\<rparr>, Inr ())
      | Inl (ValueError e) \<Rightarrow> (gw_emit [GwError (''rejected observed joint state: '' @ e)] g, Inr ())
      | Inl e \<Rightarrow> (g, Inl e))"

section \<open>Publishing\<close>

text \<open>The loop that publishes the packets of a snapshot, numbered from one.\<close>

fun publish_packets :: "int \<Rightarrow> int \<Rightarrow> int \<Rightarrow> joint_command list \<Rightarrow> gateway \<Rightarrow> gateway \<times> unit res" where
  "publish_packets snapshot n i [] g = (g, Inr ())"
| "publish_packets snapshot n i (c # cs) g =
     (case encode_snapshot_packet (PInt snapshot) (PInt n) (PInt i) of
        Inl e \<Rightarrow> (g, Inl e)
      | Inr packet \<Rightarrow>
          (case encode_command_frame (PInt (gw_epoch g)) (PInt packet) of
             Inl e \<Rightarrow> (g, Inl e)
           | Inr frame \<Rightarrow> publish_packets snapshot n (i + 1) cs (gw_emit [GwFrame frame c] g)))"

definition publish_suppressed :: "joint_command list \<Rightarrow> pyfloat \<Rightarrow> gateway \<Rightarrow> bool" where
  "publish_suppressed commands now g \<longleftrightarrow>
     (let since_last = fsub now (gw_last_publish g) in
      case gw_last_commands g of
        None \<Rightarrow> False
      | Some prev \<Rightarrow>
          if commands = prev then flt since_last KEEPALIVE_PERIOD_S
          else flt since_last MIN_PUBLISH_PERIOD_S \<and> \<not> mx_safety_stop (gw_mux g))"

definition send_snapshot :: "joint_command list \<Rightarrow> pyfloat \<Rightarrow> gateway \<Rightarrow> gateway \<times> unit res" where
  "send_snapshot commands now g =
     (let snapshot = gw_snapshot g;
          n = int (length commands);
          g1 = g\<lparr>gw_last_commands := Some commands, gw_last_publish := now,
                 gw_snapshot := snapshot + 1\<rparr>
      in case publish_packets snapshot n 1 commands g1 of
           (g2, Inl e) \<Rightarrow> (g2, Inl e)
         | (g2, Inr _) \<Rightarrow>
             (gw_emit [GwStatus (mx_safety_stop (gw_mux g2)) (gw_epoch g2) snapshot n
                         (mx_owners (gw_mux g2)) (gw_rejected g2)] g2, Inr ()))"

definition gw_publish :: "pyfloat \<Rightarrow> pyfloat \<Rightarrow> gateway \<Rightarrow> gateway \<times> unit res" where
  "gw_publish t_deadline now g0 =
     (case enforce_safety_deadline t_deadline g0 of
        (g1, Inl e) \<Rightarrow> (g1, Inl e)
      | (g1, Inr _) \<Rightarrow>
          (case mux_compose now (gw_mux g1) of
             (m, Inl e) \<Rightarrow> (g1\<lparr>gw_mux := m\<rparr>, Inl e)
           | (m, Inr commands) \<Rightarrow>
               let g2 = g1\<lparr>gw_mux := m\<rparr> in
               if publish_suppressed commands now g2 then (g2, Inr ())
               else send_snapshot commands now g2))"

end
