(* ===== verification/Gateway_Safety.thy ===== *)
theory Gateway_Safety
  imports Command_Gateway "HOL-Library.Product_Lexorder"
begin

text \<open>
  What the command gateway guarantees: the gate and the multiplexer's stop agree, a lost
  heartbeat closes the gate before anything else happens, no command enters a closed gate,
  and the frames of a run carry strictly increasing epoch and snapshot numbers.
\<close>

section \<open>The gate and the epoch\<close>

definition gw_inv :: "gateway \<Rightarrow> bool" where
  "gw_inv g \<longleftrightarrow> mux_inv (gw_mux g) \<and> mx_safety_stop (gw_mux g) = gw_active g
     \<and> encode_command_epoch (PInt (gw_session g)) (PInt (gw_generation g)) = Inr (gw_epoch g)
     \<and> 0 \<le> gw_snapshot g"

lemma gw_emit_frame [simp]:
  "gw_mux (gw_emit os g) = gw_mux g" "gw_active (gw_emit os g) = gw_active g"
  "gw_session (gw_emit os g) = gw_session g" "gw_generation (gw_emit os g) = gw_generation g"
  "gw_epoch (gw_emit os g) = gw_epoch g" "gw_snapshot (gw_emit os g) = gw_snapshot g"
  "gw_last_commands (gw_emit os g) = gw_last_commands g"
  "gw_last_publish (gw_emit os g) = gw_last_publish g"
  "gw_timeout (gw_emit os g) = gw_timeout g" "gw_last_sample (gw_emit os g) = gw_last_sample g"
  "gw_out (gw_emit os g) = gw_out g @ os"
  by (simp_all add: gw_emit_def)

lemma enter_epoch_ok:
  assumes "enter_epoch active g = (g', Inr ())" "mux_inv (gw_mux g)"
  shows "mux_inv (gw_mux g')" "mx_safety_stop (gw_mux g') = active"
    "mx_sources (gw_mux g') = mx_sources (gw_mux g)"
    "encode_command_epoch (PInt (gw_session g')) (PInt (gw_generation g')) = Inr (gw_epoch g')"
    "gw_session g' = gw_session g" "gw_generation g' = gw_generation g + 1"
    "gw_snapshot g' = 0" "gw_last_commands g' = None" "gw_active g' = gw_active g"
    "gw_timeout g' = gw_timeout g" "gw_last_sample g' = gw_last_sample g"
    "gw_last_publish g' = gw_last_publish g" "gw_out g' = gw_out g"
    "gw_mux g' = fst (mux_stop active (gw_mux g))"
proof -
  obtain m r where m: "mux_stop active (gw_mux g) = (m, r)" by (cases "mux_stop active (gw_mux g)")
  note st = mux_stop_ok [OF assms(2), of active, unfolded m]
  obtain epoch where ep: "encode_command_epoch (PInt (gw_session g)) (PInt (gw_generation g + 1)) = Inr epoch"
    using assms(1) by (cases "encode_command_epoch (PInt (gw_session g)) (PInt (gw_generation g + 1))")
      (simp_all add: enter_epoch_def advance_command_epoch_def Let_def)
  have "g' = g\<lparr>gw_generation := gw_generation g + 1, gw_epoch := epoch, gw_mux := m,
      gw_snapshot := 0, gw_last_commands := None\<rparr>"
    using assms(1) ep m st by (simp add: enter_epoch_def advance_command_epoch_def Let_def)
  note g' = this
  show "mux_inv (gw_mux g')" "mx_safety_stop (gw_mux g') = active"
    "mx_sources (gw_mux g') = mx_sources (gw_mux g)"
    "encode_command_epoch (PInt (gw_session g')) (PInt (gw_generation g')) = Inr (gw_epoch g')"
    "gw_session g' = gw_session g" "gw_generation g' = gw_generation g + 1"
    "gw_snapshot g' = 0" "gw_last_commands g' = None" "gw_active g' = gw_active g"
    "gw_timeout g' = gw_timeout g" "gw_last_sample g' = gw_last_sample g"
    "gw_last_publish g' = gw_last_publish g" "gw_out g' = gw_out g"
    "gw_mux g' = fst (mux_stop active (gw_mux g))"
    using st ep m unfolding g' by simp_all
qed

lemma enter_epoch_returns:
  assumes "mux_inv (gw_mux g)" "1 \<le> gw_session g" "gw_session g < 2 ^ 32"
    "0 \<le> gw_generation g" "gw_generation g + 1 < 2 ^ 32"
  shows "snd (enter_epoch active g) = Inr ()"
  using assms mux_stop_ok [OF assms(1), of active]
  by (cases "mux_stop active (gw_mux g)")
    (simp add: enter_epoch_def advance_command_epoch_def encode_epoch_eq Let_def)

text \<open>The heartbeat is fresh at a time when a sample arrived less than the timeout before it.\<close>

definition heartbeat_fresh :: "pyfloat \<Rightarrow> gateway \<Rightarrow> bool" where
  "heartbeat_fresh now g \<longleftrightarrow>
     (case gw_last_sample g of None \<Rightarrow> False | Some t \<Rightarrow> flt (fsub now t) (gw_timeout g))"

text \<open>The deadline check does nothing, or it closes the gate in a new epoch.\<close>

lemma enforce_cases:
  assumes "enforce_safety_deadline now g = (g', Inr ())"
  obtains (open_or_closed) "g' = g" "heartbeat_fresh now g \<or> gw_active g"
  | (expired) g1 where "\<not> heartbeat_fresh now g" "\<not> gw_active g"
    "enter_epoch True (gw_emit [GwGate ''armed'' ''timeout''
        (Some (map_option (fsub now) (gw_last_sample g)))] (g\<lparr>gw_active := True, gw_armed_at := Some now\<rparr>))
      = (g1, Inr ())"
    "g' = g1\<lparr>gw_rejected := (gw_rejected g1)(''safety'' \<mapsto> ''safety heartbeat expired'')\<rparr>"
proof (cases "heartbeat_fresh now g \<or> gw_active g")
  case True
  then show thesis using assms open_or_closed
    by (auto simp: enforce_safety_deadline_def heartbeat_fresh_def split: if_splits)
next
  case False
  let ?g = "gw_emit [GwGate ''armed'' ''timeout'' (Some (map_option (fsub now) (gw_last_sample g)))]
      (g\<lparr>gw_active := True, gw_armed_at := Some now\<rparr>)"
  obtain g1 r where e: "enter_epoch True ?g = (g1, r)" by (cases "enter_epoch True ?g")
  from False assms e have "r = Inr () \<and>
      g' = g1\<lparr>gw_rejected := (gw_rejected g1)(''safety'' \<mapsto> ''safety heartbeat expired'')\<rparr>"
    by (cases r) (auto simp: enforce_safety_deadline_def heartbeat_fresh_def)
  with False e show thesis by (intro expired) auto
qed

lemma enforce_ok:
  assumes "enforce_safety_deadline now g = (g', Inr ())" "gw_inv g"
  shows "gw_inv g' \<and> (gw_active g' \<longleftrightarrow> gw_active g \<or> \<not> heartbeat_fresh now g)
    \<and> mx_sources (gw_mux g') = mx_sources (gw_mux g) \<and> gw_session g' = gw_session g
    \<and> (g' = g \<or> gw_generation g' = gw_generation g + 1 \<and> gw_snapshot g' = 0
                \<and> gw_last_commands g' = None \<and> gw_last_publish g' = gw_last_publish g)
    \<and> (\<exists>os. gw_out g' = gw_out g @ os \<and> list_all (\<lambda>out. \<exists>a b c. out = GwGate a b c) os)"
  using assms(1)
proof (cases rule: enforce_cases)
  case open_or_closed
  then show ?thesis using assms(2) by auto
next
  case (expired g1)
  have "mux_inv (gw_mux g)" using assms(2) by (simp add: gw_inv_def)
  then show ?thesis
    using enter_epoch_ok [OF expired(3)] expired assms(2) by (simp add: gw_inv_def)
qed

section \<open>Frames\<close>

text \<open>The number a frame carries, read back through the decoders of the receiver.\<close>

type_synonym frame_key = "int \<times> int \<times> int \<times> int"

definition frame_key :: "string \<Rightarrow> frame_key res" where
  "frame_key f =
     (case decode_command_frame (PStr f) of
        Inl e \<Rightarrow> Inl e
      | Inr (epoch, packet) \<Rightarrow>
          (case decode_snapshot_packet (PInt packet) of
             Inl e \<Rightarrow> Inl e
           | Inr (snapshot, n, i) \<Rightarrow> Inr (epoch, snapshot, n, i)))"

fun frames :: "gw_output list \<Rightarrow> (string \<times> joint_command) list" where
  "frames [] = []"
| "frames (GwFrame f c # os) = (f, c) # frames os"
| "frames (_ # os) = frames os"

lemma frames_append [simp]: "frames (xs @ ys) = frames xs @ frames ys"
  by (induction xs rule: frames.induct) simp_all

lemma frames_gates: "list_all (\<lambda>out. \<exists>a b c. out = GwGate a b c) os \<Longrightarrow> frames os = []"
  by (induction os rule: frames.induct) auto

lemma frame_key_encode:
  assumes "encode_snapshot_packet (PInt s) (PInt n) (PInt i) = Inr p"
    "encode_command_frame (PInt e) (PInt p) = Inr f"
  shows "frame_key f = Inr (e, s, n, i)"
  using packet_codec.dec_enc [of "(s, n, i)" p] decode_encoded_frame [OF assms(2)] assms(1)
  by (simp add: frame_key_def)

text \<open>What publishing the packets of a snapshot appends.\<close>

lemma publish_packets_ok:
  assumes "publish_packets s n i cs g = (g', Inr ())"
  shows "\<exists>fs. length fs = length cs \<and> g' = gw_emit (map2 GwFrame fs cs) g
     \<and> list_all (\<lambda>k. frame_key (fs ! k) = Inr (gw_epoch g, s, n, i + int k)) [0..<length cs]"
  using assms
proof (induction s n i cs g rule: publish_packets.induct)
  case (1 s n i g)
  then show ?case by (simp add: gw_emit_def)
next
  case (2 s n i c cs g)
  from 2(2) obtain p f where p: "encode_snapshot_packet (PInt s) (PInt n) (PInt i) = Inr p"
    "encode_command_frame (PInt (gw_epoch g)) (PInt p) = Inr f"
    "publish_packets s n (i + 1) cs (gw_emit [GwFrame f c] g) = (g', Inr ())"
    by (auto split: sum.splits)
  from 2(1) [OF p] obtain fs where fs: "length fs = length cs"
    "g' = gw_emit (map2 GwFrame fs cs) (gw_emit [GwFrame f c] g)"
    "list_all (\<lambda>k. frame_key (fs ! k) = Inr (gw_epoch g, s, n, i + 1 + int k)) [0..<length cs]"
    by auto
  have "frame_key ((f # fs) ! k) = Inr (gw_epoch g, s, n, i + int k)" if "k < length (c # cs)" for k
    using that fs(3) frame_key_encode [OF p(1,2)] by (cases k) (auto simp: list_all_iff algebra_simps)
  moreover have "g' = gw_emit (map2 GwFrame (f # fs) (c # cs)) g"
    using fs(2) by (simp add: gw_emit_def)
  ultimately show ?case using fs(1)
    by (intro exI [of _ "f # fs"]) (auto simp: list_all_iff)
qed

lemma publish_packets_returns:
  assumes "0 \<le> s" "s < 2 ^ 31" "1 \<le> i" "i + int (length cs) - 1 \<le> n" "n < 2 ^ 16" "0 \<le> gw_epoch g"
  shows "snd (publish_packets s n i cs g) = Inr ()"
  using assms
proof (induction s n i cs g rule: publish_packets.induct)
  case (2 s n i c cs g)
  have i: "i \<le> n" using 2(5) by simp
  have "encode_snapshot_packet (PInt s) (PInt n) (PInt i) = Inr (2 ^ 63 + s * 2 ^ 32 + n * 2 ^ 16 + i)"
    using 2 i by (simp add: encode_packet_eq)
  moreover obtain f where
    "encode_command_frame (PInt (gw_epoch g)) (PInt (2 ^ 63 + s * 2 ^ 32 + n * 2 ^ 16 + i)) = Inr f"
    using 2 i by (simp add: encode_command_frame_def)
  ultimately show ?case using 2 by simp
qed simp

lemma frames_map2: "length fs = length cs \<Longrightarrow> frames (map2 GwFrame fs cs) = zip fs cs"
  by (induction fs cs rule: list_induct2) simp_all

lemma send_snapshot_ok:
  assumes "send_snapshot commands now g = (g', Inr ())"
  shows "\<exists>fs st. length fs = length commands \<and> gw_out g' = gw_out g @ map2 GwFrame fs commands @ [st]
     \<and> frames [st] = []
     \<and> list_all (\<lambda>k. frame_key (fs ! k)
            = Inr (gw_epoch g, gw_snapshot g, int (length commands), 1 + int k)) [0..<length commands]
     \<and> gw_mux g' = gw_mux g \<and> gw_active g' = gw_active g \<and> gw_epoch g' = gw_epoch g
     \<and> gw_session g' = gw_session g \<and> gw_generation g' = gw_generation g
     \<and> gw_snapshot g' = gw_snapshot g + 1"
proof -
  let ?g = "g\<lparr>gw_last_commands := Some commands, gw_last_publish := now,
      gw_snapshot := gw_snapshot g + 1\<rparr>"
  obtain g2 a b c d e r where g2: "publish_packets (gw_snapshot g) (int (length commands)) 1 commands ?g = (g2, Inr ())"
    "g' = gw_emit [GwStatus a b c d e r] g2"
    using assms by (auto simp: send_snapshot_def Let_def split: prod.splits sum.splits)
  from publish_packets_ok [OF g2(1)] g2(2) show ?thesis by (auto simp: gw_emit_def)
qed


section \<open>Numbering\<close>

text \<open>A frame's number is its epoch, snapshot and packet index, compared in that order; the
  position of the gateway precedes every frame it publishes next.\<close>

definition number :: "string \<times> joint_command \<Rightarrow> int \<times> int \<times> int" where
  "number fc = (case frame_key (fst fc) of Inr (e, s, n, i) \<Rightarrow> (e, s, i) | Inl _ \<Rightarrow> (-1, -1, -1))"

definition position :: "gateway \<Rightarrow> int \<times> int \<times> int" where
  "position g = (gw_epoch g, gw_snapshot g, 0)"

definition progress :: "gateway \<Rightarrow> gateway \<Rightarrow> bool" where
  "progress g g' \<longleftrightarrow> position g \<le> position g' \<and>
     (\<exists>new. frames (gw_out g') = frames (gw_out g) @ new \<and> sorted_wrt (<) (map number new)
        \<and> list_all (\<lambda>f. position g < number f \<and> number f < position g') new)"

lemma progress_silent:
  "frames (gw_out g') = frames (gw_out g) \<Longrightarrow> position g \<le> position g' \<Longrightarrow> progress g g'"
  by (simp add: progress_def)

lemma progress_trans [trans]:
  assumes "progress a b" "progress b c"
  shows "progress a c"
proof -
  obtain n1 n2 where 1: "frames (gw_out b) = frames (gw_out a) @ n1" "sorted_wrt (<) (map number n1)"
    "list_all (\<lambda>f. position a < number f \<and> number f < position b) n1" "position a \<le> position b"
    and 2: "frames (gw_out c) = frames (gw_out b) @ n2" "sorted_wrt (<) (map number n2)"
    "list_all (\<lambda>f. position b < number f \<and> number f < position c) n2" "position b \<le> position c"
    using assms unfolding progress_def by blast
  have lt: "number x < number y" if "x \<in> set n1" "y \<in> set n2" for x y
  proof -
    have "number x < position b" using that(1) 1(3) by (simp add: list_all_iff)
    also have "position b < number y" using that(2) 2(3) by (simp add: list_all_iff)
    finally show ?thesis .
  qed
  have n1: "position a < number f \<and> number f < position c" if "f \<in> set n1" for f
    using that 1(3) 2(4) by (simp add: list_all_iff) (meson order.strict_trans2)
  have n2: "position a < number f \<and> number f < position c" if "f \<in> set n2" for f
    using that 2(3) 1(4) by (simp add: list_all_iff) (meson order.strict_trans1)
  have "list_all (\<lambda>f. position a < number f \<and> number f < position c) (n1 @ n2)"
    unfolding list_all_iff set_append using n1 n2 by blast
  moreover have "sorted_wrt (<) (map number (n1 @ n2))"
    using 1(2) 2(2) lt by (auto simp: sorted_wrt_append)
  moreover have "frames (gw_out c) = frames (gw_out a) @ (n1 @ n2)" using 1(1) 2(1) by simp
  moreover have "position a \<le> position c" using 1(4) 2(4) by (rule order.trans)
  ultimately show ?thesis unfolding progress_def by blast
qed

lemma gw_epoch_eq: "gw_inv g \<Longrightarrow> gw_epoch g = gw_session g * 2 ^ 32 + gw_generation g"
  by (simp add: gw_inv_def encode_epoch_ok)

lemma position_next_epoch:
  "gw_inv g \<Longrightarrow> gw_inv g' \<Longrightarrow> gw_session g' = gw_session g \<Longrightarrow>
   gw_generation g' = gw_generation g + 1 \<Longrightarrow> position g \<le> position g'"
  by (simp add: position_def less_eq_prod_def gw_epoch_eq)

lemma enforce_progress:
  assumes "enforce_safety_deadline now g = (g', Inr ())" "gw_inv g"
  shows "progress g g'"
proof -
  note ok = enforce_ok [OF assms]
  then obtain os where "gw_out g' = gw_out g @ os"
    "list_all (\<lambda>out. \<exists>a b c. out = GwGate a b c) os" by blast
  then have "frames (gw_out g') = frames (gw_out g)" by (simp add: frames_gates)
  moreover have "position g \<le> position g'"
    using ok position_next_epoch [OF assms(2), of g'] by auto
  ultimately show ?thesis by (rule progress_silent)
qed

lemma send_progress:
  assumes "send_snapshot commands now g = (g', Inr ())"
  shows "progress g g'"
proof -
  obtain fs st where fs: "length fs = length commands"
    "gw_out g' = gw_out g @ map2 GwFrame fs commands @ [st]" "frames [st] = []"
    "list_all (\<lambda>k. frame_key (fs ! k)
            = Inr (gw_epoch g, gw_snapshot g, int (length commands), 1 + int k)) [0..<length commands]"
    and g': "gw_epoch g' = gw_epoch g" "gw_snapshot g' = gw_snapshot g + 1"
    using send_snapshot_ok [OF assms] by blast
  have num: "number (zip fs commands ! k) = (gw_epoch g, gw_snapshot g, 1 + int k)"
    if "k < length commands" for k
    using that fs(1,4) by (simp add: number_def list_all_iff)
  have "sorted_wrt (<) (map number (zip fs commands))"
    using num fs(1) by (simp add: sorted_wrt_iff_nth_less less_prod_def)
  moreover have "list_all (\<lambda>f. position g < number f \<and> number f < position g') (zip fs commands)"
    using num fs(1) g' by (simp add: list_all_length position_def less_prod_def)
  moreover have "frames (gw_out g') = frames (gw_out g) @ zip fs commands"
    using fs by (simp add: frames_map2)
  moreover have "position g \<le> position g'" using g' by (simp add: position_def less_eq_prod_def)
  ultimately show ?thesis unfolding progress_def by blast
qed

section \<open>Callbacks\<close>

lemma reject_frame [simp]:
  "gw_mux (log_command_rejected s r t g) = gw_mux g"
  "gw_active (log_command_rejected s r t g) = gw_active g"
  "gw_session (log_command_rejected s r t g) = gw_session g"
  "gw_generation (log_command_rejected s r t g) = gw_generation g"
  "gw_epoch (log_command_rejected s r t g) = gw_epoch g"
  "gw_snapshot (log_command_rejected s r t g) = gw_snapshot g"
  "frames (gw_out (log_command_rejected s r t g)) = frames (gw_out g)"
  by (auto simp: log_command_rejected_def Let_def split: prod.splits option.splits)

lemma gw_inv_mux: "gw_inv g \<Longrightarrow> mux_inv (gw_mux g)"
  by (simp add: gw_inv_def)

lemma gw_inv_cong:
  "gw_inv g \<Longrightarrow> mux_inv (gw_mux g') \<Longrightarrow> mx_safety_stop (gw_mux g') = mx_safety_stop (gw_mux g) \<Longrightarrow>
   gw_active g' = gw_active g \<Longrightarrow> gw_session g' = gw_session g \<Longrightarrow>
   gw_generation g' = gw_generation g \<Longrightarrow> gw_epoch g' = gw_epoch g \<Longrightarrow>
   gw_snapshot g \<le> gw_snapshot g' \<Longrightarrow> gw_inv g'"
  by (simp add: gw_inv_def)

text \<open>How an accepted command is made, and what a call that does not accept leaves alone.\<close>

lemma gw_accept_cases:
  assumes "gw_accept s msg t1 t2 t3 g = (g', Inr ())"
  obtains (closed) g1 where "gw_active g1" "g' = reject_blocked s t3 g1"
    "g1 = g \<or> enforce_safety_deadline t1 g = (g1, Inr ())"
  | (accepted) g1 c m where "enforce_safety_deadline t1 g = (g1, Inr ())" "\<not> gw_active g1"
    "owned_command (gw_mux g1) s (js_name msg) (js_position msg) (js_velocity msg) (js_effort msg) = Inr c"
    "mux_accept s c t2 (gw_mux g1) = Inr m"
    "g' = g1\<lparr>gw_mux := m, gw_rejected := (gw_rejected g1)(s := None)\<rparr>"
  | (rejected) g1 e where "enforce_safety_deadline t1 g = (g1, Inr ())" "\<not> gw_active g1"
    "g' = gw_emit [GwError (''rejected '' @ s @ '' joint command: '' @ exc_text e)]
            (log_command_rejected s (exc_text e) t3 (g1\<lparr>gw_rejected := (gw_rejected g1)(s \<mapsto> exc_text e)\<rparr>))"
proof (cases "gw_active g")
  case True
  then show thesis using assms closed [of g] by (simp add: gw_accept_def)
next
  case open_gate: False
  obtain g1 r where e: "enforce_safety_deadline t1 g = (g1, r)" by (cases "enforce_safety_deadline t1 g")
  have r: "r = Inr ()" using assms e open_gate by (cases r) (simp_all add: gw_accept_def)
  show thesis
  proof (cases "gw_active g1")
    case True
    then show thesis using assms e r open_gate closed [of g1] by (simp add: gw_accept_def)
  next
    case False
    show thesis
    proof (cases "owned_command (gw_mux g1) s (js_name msg) (js_position msg) (js_velocity msg) (js_effort msg)")
      case (Inl x)
      show thesis by (rule rejected [of g1 x]) (use assms e r open_gate False Inl in \<open>simp_all add: gw_accept_def\<close>)
    next
      case c: (Inr c)
      show thesis
      proof (cases "mux_accept s c t2 (gw_mux g1)")
        case (Inl x)
        show thesis by (rule rejected [of g1 x])
          (use assms e r open_gate False Inl c in \<open>simp_all add: gw_accept_def\<close>)
      next
        case (Inr m)
        show thesis by (rule accepted [of g1 c m])
          (use assms e r open_gate False Inr c in \<open>simp_all add: gw_accept_def\<close>)
      qed
    qed
  qed
qed

lemma gw_accept_ok:
  assumes "gw_accept s msg t1 t2 t3 g = (g', Inr ())" "gw_inv g"
  shows "gw_inv g' \<and> progress g g' \<and> gw_session g' = gw_session g"
  using assms(1)
proof (cases rule: gw_accept_cases)
  case (closed g1)
  have g1: "gw_inv g1 \<and> progress g g1 \<and> gw_session g1 = gw_session g"
    using closed(3) enforce_ok [of t1 g g1] enforce_progress [of t1 g g1] assms(2)
    by (auto intro: progress_silent)
  have "gw_inv g'" by (rule gw_inv_cong [of g1]) (use g1 closed(2) gw_inv_mux in \<open>simp_all add: reject_blocked_def\<close>)
  moreover have "progress g1 g'" by (rule progress_silent) (simp_all add: closed(2) reject_blocked_def position_def)
  ultimately show ?thesis using g1 closed(2) progress_trans by (auto simp: reject_blocked_def)
next
  case (accepted g1 c m)
  have g1: "gw_inv g1 \<and> progress g g1 \<and> gw_session g1 = gw_session g"
    using enforce_ok [OF accepted(1) assms(2)] enforce_progress [OF accepted(1) assms(2)] by simp
  have m: "mux_inv m" "mx_safety_stop m = mx_safety_stop (gw_mux g1)"
    using g1 mux_accept_inv [OF _ accepted(4)] accepted(4) by (auto simp: gw_inv_mux mux_accept_unfold)
  have "gw_inv g'" by (rule gw_inv_cong [of g1]) (use g1 accepted(5) m in simp_all)
  moreover have "progress g1 g'" by (rule progress_silent) (simp_all add: accepted(5) position_def)
  ultimately show ?thesis using g1 accepted(5) progress_trans by auto
next
  case (rejected g1 e)
  have g1: "gw_inv g1 \<and> progress g g1 \<and> gw_session g1 = gw_session g"
    using enforce_ok [OF rejected(1) assms(2)] enforce_progress [OF rejected(1) assms(2)] by simp
  have "gw_inv g'" by (rule gw_inv_cong [of g1]) (use g1 rejected(3) gw_inv_mux in simp_all)
  moreover have "progress g1 g'" by (rule progress_silent) (simp_all add: rejected(3) position_def)
  ultimately show ?thesis using g1 rejected(3) progress_trans by auto
qed


lemma gw_safety_stop_ok:
  assumes "gw_safety_stop b now g = (g', Inr ())" "gw_inv g"
  shows "gw_inv g' \<and> progress g g' \<and> gw_session g' = gw_session g \<and> gw_active g' = b
     \<and> frames (gw_out g') = frames (gw_out g)"
proof (cases "b = gw_active g")
  case True
  then have g': "g' = g\<lparr>gw_last_sample := Some now\<rparr>" using assms(1) by (simp add: gw_safety_stop_def)
  have "gw_inv g'" using assms(2) by (simp add: g' gw_inv_def)
  moreover have "progress g g'" by (rule progress_silent) (simp_all add: g' position_def)
  ultimately show ?thesis using True by (simp add: g')
next
  case False
  define g1 where "g1 = (if b
      then gw_emit [GwGate ''armed'' ''sample'' None] (g\<lparr>gw_last_sample := Some now, gw_armed_at := Some now\<rparr>)
      else gw_emit [GwGate ''cleared'' ''sample'' (Some (map_option (fsub now) (gw_armed_at g)))]
             (g\<lparr>gw_last_sample := Some now\<rparr>))\<lparr>gw_active := b\<rparr>"
  have e: "enter_epoch b g1 = (g', Inr ())"
    using assms(1) False by (simp add: gw_safety_stop_def Let_def g1_def split: if_splits)
  have g1: "gw_mux g1 = gw_mux g" "gw_session g1 = gw_session g" "gw_generation g1 = gw_generation g"
    "gw_active g1 = b" "frames (gw_out g1) = frames (gw_out g)"
    by (simp_all add: g1_def)
  note ok = enter_epoch_ok [OF e, unfolded g1, OF gw_inv_mux [OF assms(2)]]
  have inv: "gw_inv g'" using ok by (simp add: gw_inv_def)
  have "frames (gw_out g') = frames (gw_out g)" using ok(13) g1(5) by simp
  moreover have "position g \<le> position g'" using position_next_epoch [OF assms(2) inv] ok by simp
  ultimately show ?thesis using inv ok by (auto intro: progress_silent)
qed

lemma gw_joint_state_ok:
  assumes "gw_joint_state msg g = (g', Inr ())" "gw_inv g"
  shows "gw_inv g' \<and> progress g g' \<and> gw_session g' = gw_session g \<and> gw_active g' = gw_active g
     \<and> frames (gw_out g') = frames (gw_out g)"
proof -
  have "g' = g \<or> (\<exists>e. g' = gw_emit [GwError e] g)
      \<or> (\<exists>m. mux_observe (js_name msg) (js_position msg) (gw_mux g) = Inr m \<and> g' = g\<lparr>gw_mux := m\<rparr>)"
  proof (cases "js_position msg = []")
    case True
    then show ?thesis using assms(1) by (simp add: gw_joint_state_def)
  next
    case ne: False
    show ?thesis
    proof (cases "mux_observe (js_name msg) (js_position msg) (gw_mux g)")
      case (Inl e)
      then obtain x where "e = ValueError x" by (auto simp: mux_observe_def split: if_splits)
      with Inl ne assms(1) show ?thesis by (simp add: gw_joint_state_def) blast
    next
      case (Inr m)
      with ne assms(1) show ?thesis by (simp add: gw_joint_state_def)
    qed
  qed
  then consider "g' = g" | e where "g' = gw_emit [GwError e] g"
    | m where "mux_observe (js_name msg) (js_position msg) (gw_mux g) = Inr m" "g' = g\<lparr>gw_mux := m\<rparr>"
    by blast
  then show ?thesis
  proof cases
    case 1
    then show ?thesis using assms(2) by (auto intro: progress_silent)
  next
    case (2 e)
    then show ?thesis using assms(2) by (auto simp: gw_inv_def position_def intro: progress_silent)
  next
    case (3 m)
    have m: "mux_inv m" "mx_safety_stop m = mx_safety_stop (gw_mux g)"
      using mux_observe_inv [OF gw_inv_mux [OF assms(2)] 3(1)] 3(1)
        fold_observe_frame [of "zip (js_name msg) (js_position msg)" "gw_mux g"]
      by (auto simp: mux_observe_eq)
    have "gw_inv g'" by (rule gw_inv_cong [OF assms(2)]) (use 3 m in simp_all)
    then show ?thesis using 3(2) by (auto simp: position_def intro: progress_silent)
  qed
qed

text \<open>A publishing tick that returns: what it composed, and whether it sent it.\<close>

lemma gw_publish_cases:
  assumes "gw_publish t1 t2 g = (g', Inr ())"
  obtains g1 m pks where "enforce_safety_deadline t1 g = (g1, Inr ())"
    "mux_compose t2 (gw_mux g1) = (m, Inr pks)"
    "if publish_suppressed pks t2 (g1\<lparr>gw_mux := m\<rparr>) then g' = g1\<lparr>gw_mux := m\<rparr>
     else send_snapshot pks t2 (g1\<lparr>gw_mux := m\<rparr>) = (g', Inr ())"
proof -
  obtain g1 r where e: "enforce_safety_deadline t1 g = (g1, r)" by (cases "enforce_safety_deadline t1 g")
  have r: "r = Inr ()" using assms e by (cases r) (simp_all add: gw_publish_def)
  obtain m r2 where c: "mux_compose t2 (gw_mux g1) = (m, r2)" by (cases "mux_compose t2 (gw_mux g1)")
  obtain pks where r2: "r2 = Inr pks" using assms e r c by (cases r2) (simp_all add: gw_publish_def)
  have "(if publish_suppressed pks t2 (g1\<lparr>gw_mux := m\<rparr>) then (g1\<lparr>gw_mux := m\<rparr>, Inr ())
      else send_snapshot pks t2 (g1\<lparr>gw_mux := m\<rparr>)) = (g', Inr ())"
    using assms by (simp add: gw_publish_def e r c r2 Let_def)
  then show thesis
    by (intro that [of g1 m pks]) (use e r c r2 in \<open>simp_all split: if_splits\<close>)
qed

lemma mux_compose_frame:
  "mx_safety_stop (fst (mux_compose t m)) = mx_safety_stop m \<and> mx_sources (fst (mux_compose t m)) = mx_sources m
   \<and> mx_latest (fst (mux_compose t m)) = mx_latest m"
  using compose_loop_frame [of False t "mx_sources m" m]
  by (simp add: mux_compose_def compose_packets_def)

lemma gw_publish_ok:
  assumes "gw_publish t1 t2 g = (g', Inr ())" "gw_inv g"
  shows "gw_inv g' \<and> progress g g' \<and> gw_session g' = gw_session g"
  using assms(1)
proof (cases rule: gw_publish_cases)
  case (1 g1 m pks)
  have g1: "gw_inv g1 \<and> progress g g1 \<and> gw_session g1 = gw_session g"
    using enforce_ok [OF 1(1) assms(2)] enforce_progress [OF 1(1) assms(2)] by simp
  let ?g = "g1\<lparr>gw_mux := m\<rparr>"
  have m: "mux_inv m" "mx_safety_stop m = mx_safety_stop (gw_mux g1)"
    using mux_compose_inv [of "gw_mux g1" t2] mux_compose_frame [of t2 "gw_mux g1"] 1(2) g1 gw_inv_mux
    by simp_all
  have g: "gw_inv ?g" by (rule gw_inv_cong [of g1]) (use g1 m in simp_all)
  have "progress g1 ?g" by (rule progress_silent) (simp_all add: position_def)
  with g1 have pg: "progress g ?g" using progress_trans by blast
  show ?thesis
  proof (cases "publish_suppressed pks t2 ?g")
    case True
    then show ?thesis using 1(3) g pg g1 by simp
  next
    case False
    then have s: "send_snapshot pks t2 ?g = (g', Inr ())" using 1(3) by simp
    have "gw_inv g'" by (rule gw_inv_cong [OF g]) (use send_snapshot_ok [OF s] m in auto)
    then show ?thesis using send_snapshot_ok [OF s] progress_trans [OF pg send_progress [OF s]] g1 by auto
  qed
qed

section \<open>Runs\<close>

text \<open>Callbacks with the clock readings they make. An exception ends the node, and the run.\<close>

datatype gw_event =
    GwCommand string joint_state rat rat rat
  | GwSample bool rat
  | GwJoints joint_state
  | GwTick rat rat

fun gw_step :: "gw_event \<Rightarrow> gateway \<Rightarrow> gateway \<times> unit res" where
  "gw_step (GwCommand s msg t1 t2 t3) g = gw_accept s msg (Fin t1) (Fin t2) (Fin t3) g"
| "gw_step (GwSample b t) g = gw_safety_stop b (Fin t) g"
| "gw_step (GwJoints msg) g = gw_joint_state msg g"
| "gw_step (GwTick t1 t2) g = gw_publish (Fin t1) (Fin t2) g"

fun gw_run :: "gw_event list \<Rightarrow> gateway \<Rightarrow> gateway \<times> unit res" where
  "gw_run [] g = (g, Inr ())"
| "gw_run (e # es) g = (case gw_step e g of (g', Inl x) \<Rightarrow> (g', Inl x) | (g', Inr _) \<Rightarrow> gw_run es g')"

lemma gw_step_ok:
  assumes "gw_step e g = (g', Inr ())" "gw_inv g"
  shows "gw_inv g' \<and> progress g g'"
  using assms gw_accept_ok gw_safety_stop_ok gw_joint_state_ok gw_publish_ok by (cases e) auto

lemma gw_run_ok:
  "gw_run es g = (g', Inr ()) \<Longrightarrow> gw_inv g \<Longrightarrow> gw_inv g' \<and> progress g g'"
proof (induction es arbitrary: g)
  case Nil
  then show ?case by (auto intro: progress_silent)
next
  case (Cons e es)
  then obtain g1 where g1: "gw_step e g = (g1, Inr ())" "gw_run es g1 = (g', Inr ())"
    by (auto split: prod.splits sum.splits)
  note ok = gw_step_ok [OF g1(1) Cons.prems(2)]
  from Cons.IH [OF g1(2)] ok show ?case using progress_trans by blast
qed

lemma mux_new_sources: "mux_new sps = Inr m \<Longrightarrow> mx_sources m = sps"
  by (auto simp: mux_new_ok)

lemma gateway_new_ok:
  assumes "gateway_new base arm gripper pan_tilt timeout bits = Inr g"
  shows "gw_inv g" "gw_out g = []" "gw_active g" "gw_last_sample g = None"
    "gw_generation g = 0" "gw_snapshot g = 0"
    "length (concat (map (\<lambda>sp. cs_joints (snd sp)) (mx_sources (gw_mux g))))
       \<le> length (fst base) + length (fst arm) + length gripper + length pan_tilt"
proof -
  have joints: "cs_joints p = remdups js" if "command_source_new js t = Inr p" for js t p
    using that by (auto simp: command_source_new_def split: if_splits)
  obtain b a gr pt m m' epoch where src: "command_source_new (fst base) (snd base) = Inr b"
    "command_source_new (fst arm) (snd arm) = Inr a" "command_source_new gripper (Fin (1/2)) = Inr gr"
    "command_source_new pan_tilt (Fin (1/2)) = Inr pt"
    and m: "mux_new [(''base'', b), (''ros2_control'', a), (''gripper'', gr), (''pan_tilt'', pt)] = Inr m"
    and m': "mux_stop True m = (m', Inr ())"
    and ep: "encode_command_epoch (PInt (new_command_session bits)) (PInt 0) = Inr epoch"
    and g: "g = \<lparr>gw_mux = m', gw_rejected = Map.empty, gw_reject_log = Map.empty,
       gw_armed_at = None, gw_active = True, gw_timeout = timeout,
       gw_last_sample = None, gw_session = new_command_session bits,
       gw_generation = 0, gw_epoch = epoch, gw_snapshot = 0,
       gw_last_commands = None, gw_last_publish = NInf, gw_out = []\<rparr>"
    using assms by (auto simp: gateway_new_def split: sum.splits if_splits prod.splits)
  have "mux_inv m" by (rule mux_new_inv [OF m]) (use src joints in auto)
  from mux_stop_ok [OF \<open>mux_inv m\<close>, of True] m' ep show "gw_inv g" by (simp add: g gw_inv_def)
  show "gw_out g = []" "gw_active g" "gw_last_sample g = None" "gw_generation g = 0" "gw_snapshot g = 0"
    by (simp_all add: g)
  have len: "length (cs_joints p) \<le> length js" if "command_source_new js t = Inr p" for js t p
    using joints [OF that] by (simp add: length_remdups_leq)
  have "mx_sources m' = mx_sources m" using mux_stop_ok [OF \<open>mux_inv m\<close>, of True] m' by simp
  then have "mx_sources (gw_mux g) = [(''base'', b), (''ros2_control'', a), (''gripper'', gr), (''pan_tilt'', pt)]"
    using mux_new_sources [OF m] by (simp add: g)
  then show "length (concat (map (\<lambda>sp. cs_joints (snd sp)) (mx_sources (gw_mux g))))
       \<le> length (fst base) + length (fst arm) + length gripper + length pan_tilt"
    using len [OF src(1)] len [OF src(2)] len [OF src(3)] len [OF src(4)] by simp
qed


section \<open>No exceptions\<close>

definition joint_count :: "mux \<Rightarrow> nat" where
  "joint_count m = length (concat (map (\<lambda>sp. cs_joints (snd sp)) (mx_sources m)))"

lemma snapshot_length:
  assumes "snapshot_ok pks" "single_source (mx_sources m) pks"
  shows "length pks \<le> joint_count m"
proof -
  have "length qs \<le> length (concat (map jc_names qs))" if "list_all valid_command qs" for qs
    using that
  proof (induction qs)
    case (Cons q qs)
    then have "1 \<le> length (jc_names q)" by (cases "jc_names q") (simp_all add: valid_command_iff)
    with Cons show ?case by simp
  qed simp
  then have "length pks \<le> length (concat (map jc_names pks))" using assms(1) by (simp add: snapshot_ok_def)
  also have "\<dots> = card (set (concat (map jc_names pks)))"
    using assms(1) by (intro distinct_card [symmetric]) (simp add: snapshot_ok_def)
  also have "\<dots> \<le> card (set (concat (map (\<lambda>sp. cs_joints (snd sp)) (mx_sources m))))"
    using single_source_joints [OF assms(2)] by (intro card_mono) (auto simp: packet_joints_def)
  also have "\<dots> \<le> joint_count m" unfolding joint_count_def by (rule card_length)
  finally show ?thesis .
qed

text \<open>The counters a gateway has left.\<close>

definition headroom :: "nat \<Rightarrow> gateway \<Rightarrow> bool" where
  "headroom n g \<longleftrightarrow> gw_inv g \<and> gw_generation g + int n < 2 ^ 32 \<and> gw_snapshot g + int n \<le> 2 ^ 31
     \<and> joint_count (gw_mux g) < 2 ^ 16"

lemma gw_snapshot_pos: "gw_inv g \<Longrightarrow> 0 \<le> gw_snapshot g"
  by (simp add: gw_inv_def)

lemma enter_epoch_total:
  assumes "headroom (Suc n) g0" "gw_mux g = gw_mux g0" "gw_session g = gw_session g0"
    "gw_generation g = gw_generation g0"
  shows "\<exists>g'. enter_epoch b g = (g', Inr ())"
proof -
  have "encode_command_epoch (PInt (gw_session g)) (PInt (gw_generation g)) = Inr (gw_epoch g0)"
    using assms by (simp add: headroom_def gw_inv_def)
  then have "snd (enter_epoch b g) = Inr ()"
    using assms by (intro enter_epoch_returns) (auto simp: headroom_def gw_inv_def encode_epoch_ok)
  then show ?thesis by (metis prod.collapse)
qed

lemma joint_count_cong: "mx_sources m = mx_sources m' \<Longrightarrow> joint_count m = joint_count m'"
  by (simp add: joint_count_def)

lemma enforce_total:
  assumes "headroom (Suc n) g"
  obtains g' where "enforce_safety_deadline now g = (g', Inr ())"
    "headroom (Suc n) g' \<or> headroom n g' \<and> gw_snapshot g' = 0"
proof -
  have "\<exists>g'. enforce_safety_deadline now g = (g', Inr ())"
  proof (cases "heartbeat_fresh now g \<or> gw_active g")
    case True
    then show ?thesis by (auto simp: enforce_safety_deadline_def heartbeat_fresh_def)
  next
    case False
    obtain g1 where "enter_epoch True (gw_emit [GwGate ''armed'' ''timeout''
        (Some (map_option (fsub now) (gw_last_sample g)))] (g\<lparr>gw_active := True, gw_armed_at := Some now\<rparr>))
        = (g1, Inr ())"
      using enter_epoch_total [OF assms, of "gw_emit [GwGate ''armed'' ''timeout''
        (Some (map_option (fsub now) (gw_last_sample g)))] (g\<lparr>gw_active := True, gw_armed_at := Some now\<rparr>)" True]
      by auto
    with False show ?thesis by (simp add: enforce_safety_deadline_def heartbeat_fresh_def)
  qed
  then obtain g' where e: "enforce_safety_deadline now g = (g', Inr ())" by blast
  have "gw_inv g" using assms by (simp add: headroom_def)
  note ok = enforce_ok [OF e this]
  then have "joint_count (gw_mux g') = joint_count (gw_mux g)" by (intro joint_count_cong) simp
  then have "headroom (Suc n) g' \<or> headroom n g' \<and> gw_snapshot g' = 0"
    using ok assms \<open>gw_inv g\<close> gw_snapshot_pos [of g] by (auto simp: headroom_def)
  with e show thesis by (rule that)
qed

lemma headroom_weaken:
  "headroom (Suc n) g' \<or> headroom n g' \<and> gw_snapshot g' = 0 \<Longrightarrow> headroom n g'"
  by (auto simp: headroom_def)

lemma headroom_cong:
  "headroom n g \<Longrightarrow> gw_inv g' \<Longrightarrow> gw_generation g' = gw_generation g \<Longrightarrow> gw_snapshot g' = gw_snapshot g \<Longrightarrow>
   mx_sources (gw_mux g') = mx_sources (gw_mux g) \<Longrightarrow> headroom n g'"
  by (simp add: headroom_def joint_count_def)

lemma accept_returns:
  assumes "headroom (Suc n) g"
  obtains g' where "gw_accept s msg t1 t2 t3 g = (g', Inr ())"
proof (cases "gw_active g")
  case True
  then show thesis using that by (simp add: gw_accept_def)
next
  case open_gate: False
  obtain g1 where e: "enforce_safety_deadline t1 g = (g1, Inr ())" using enforce_total [OF assms] by blast
  show thesis
  proof (cases "gw_active g1")
    case True
    then show thesis using that e open_gate by (simp add: gw_accept_def)
  next
    case False
    define r where "r = (case owned_command (gw_mux g1) s (js_name msg) (js_position msg)
                          (js_velocity msg) (js_effort msg) of
                     Inl e \<Rightarrow> Inl e | Inr c \<Rightarrow> mux_accept s c t2 (gw_mux g1))"
    show thesis using that e open_gate False
      by (cases r) (simp_all add: gw_accept_def r_def [symmetric])
  qed
qed

lemma joint_state_returns: "\<exists>g'. gw_joint_state msg g = (g', Inr ())"
proof (cases "js_position msg = []")
  case True
  then show ?thesis by (simp add: gw_joint_state_def)
next
  case ne: False
  show ?thesis
  proof (cases "mux_observe (js_name msg) (js_position msg) (gw_mux g)")
    case (Inl e)
    then obtain x where "e = ValueError x" by (auto simp: mux_observe_def split: if_splits)
    with Inl ne show ?thesis by (simp add: gw_joint_state_def)
  next
    case (Inr m)
    with ne show ?thesis by (simp add: gw_joint_state_def)
  qed
qed

lemma tick_returns:
  assumes "headroom (Suc n) g" "isfinite t2"
  obtains g1 m pks g' where "enforce_safety_deadline t1 g = (g1, Inr ())" "headroom n g1"
    "mux_compose t2 (gw_mux g1) = (m, Inr pks)" "length pks \<le> joint_count (gw_mux g1)"
    "gw_publish t1 t2 g = (g', Inr ())"
    "g' = g1\<lparr>gw_mux := m\<rparr> \<or> send_snapshot pks t2 (g1\<lparr>gw_mux := m\<rparr>) = (g', Inr ())"
    "headroom (Suc n) g1 \<or> gw_snapshot g1 = 0"
proof -
  obtain g1 where e: "enforce_safety_deadline t1 g = (g1, Inr ())"
    "headroom (Suc n) g1 \<or> headroom n g1 \<and> gw_snapshot g1 = 0"
    using enforce_total [OF assms(1)] by blast
  have h: "headroom n g1" using e(2) by (rule headroom_weaken)
  have inv: "gw_inv g1" using h by (simp add: headroom_def)
  obtain m pks where c: "mux_compose t2 (gw_mux g1) = (m, Inr pks)" "snapshot_ok pks"
    "single_source (mx_sources (gw_mux g1)) pks"
    using mux_compose_ok [OF gw_inv_mux [OF inv] assms(2)] by metis
  have len: "length pks \<le> joint_count (gw_mux g1)" using c by (intro snapshot_length)
  let ?g = "g1\<lparr>gw_mux := m\<rparr>"
  let ?g1 = "?g\<lparr>gw_last_commands := Some pks, gw_last_publish := t2, gw_snapshot := gw_snapshot ?g + 1\<rparr>"
  have ep: "0 \<le> gw_epoch g1" using inv by (simp add: gw_inv_def encode_epoch_ok)
  have sn: "0 \<le> gw_snapshot g1" "gw_snapshot g1 < 2 ^ 31"
    using e(2) inv by (auto simp: headroom_def gw_inv_def)
  have jc: "joint_count (gw_mux g1) < 2 ^ 16" using h by (simp add: headroom_def)
  have "snd (publish_packets (gw_snapshot g1) (int (length pks)) 1 pks ?g1) = Inr ()"
    using ep sn len jc by (intro publish_packets_returns) simp_all
  then obtain g2 where "send_snapshot pks t2 ?g = (g2, Inr ())"
    by (cases "publish_packets (gw_snapshot g1) (int (length pks)) 1 pks ?g1")
      (simp add: send_snapshot_def Let_def)
  then have s: "send_snapshot pks t2 ?g = (g2, Inr ())" .
  show thesis
  proof (cases "publish_suppressed pks t2 ?g")
    case True
    have "gw_publish t1 t2 g = (?g, Inr ())" using True e(1) c(1) by (simp add: gw_publish_def)
    then show thesis using that [OF e(1) h c(1) len, of ?g] e(2) by auto
  next
    case False
    have "gw_publish t1 t2 g = (g2, Inr ())" using False e(1) c(1) s by (simp add: gw_publish_def)
    then show thesis using that [OF e(1) h c(1) len, of g2] e(2) s by auto
  qed
qed


lemma safety_stop_total: "headroom (Suc n) g \<Longrightarrow> \<exists>g'. gw_safety_stop b t g = (g', Inr ()) \<and> headroom n g'"
proof (cases "b = gw_active g")
  case True
  assume h: "headroom (Suc n) g"
  let ?g = "g\<lparr>gw_last_sample := Some t\<rparr>"
  have "headroom (Suc n) ?g" using h by (simp add: headroom_def gw_inv_def)
  then have "headroom n ?g" by (auto intro: headroom_weaken)
  with True show ?thesis by (auto simp: gw_safety_stop_def)
next
  case False
  assume h: "headroom (Suc n) g"
  define g1 where "g1 = (if b
      then gw_emit [GwGate ''armed'' ''sample'' None] (g\<lparr>gw_last_sample := Some t, gw_armed_at := Some t\<rparr>)
      else gw_emit [GwGate ''cleared'' ''sample'' (Some (map_option (fsub t) (gw_armed_at g)))]
             (g\<lparr>gw_last_sample := Some t\<rparr>))\<lparr>gw_active := b\<rparr>"
  have g1: "gw_mux g1 = gw_mux g" "gw_session g1 = gw_session g" "gw_generation g1 = gw_generation g"
    by (simp_all add: g1_def)
  obtain g' where e: "enter_epoch b g1 = (g', Inr ())" using enter_epoch_total [OF h g1] by blast
  have s: "gw_safety_stop b t g = (g', Inr ())"
    using False e by (simp add: gw_safety_stop_def Let_def g1_def split: if_splits)
  have inv: "gw_inv g" using h by (simp add: headroom_def)
  have "mx_sources (gw_mux g') = mx_sources (gw_mux g)" "gw_generation g' = gw_generation g + 1"
    "gw_snapshot g' = 0"
    using enter_epoch_ok [OF e] g1 gw_inv_mux [OF inv] by simp_all
  moreover have "gw_inv g'" using gw_safety_stop_ok [OF s inv] by simp
  ultimately have "headroom n g'" using h gw_snapshot_pos [OF inv]
    by (simp add: headroom_def joint_count_def)
  with s show ?thesis by blast
qed

lemma tick_total:
  assumes "headroom (Suc n) g" "isfinite t2"
  shows "\<exists>g'. gw_publish t1 t2 g = (g', Inr ()) \<and> headroom n g'"
proof -
  obtain g1 m pks g' where t: "enforce_safety_deadline t1 g = (g1, Inr ())" "headroom n g1"
    "mux_compose t2 (gw_mux g1) = (m, Inr pks)" "gw_publish t1 t2 g = (g', Inr ())"
    "g' = g1\<lparr>gw_mux := m\<rparr> \<or> send_snapshot pks t2 (g1\<lparr>gw_mux := m\<rparr>) = (g', Inr ())"
    "headroom (Suc n) g1 \<or> gw_snapshot g1 = 0"
    using tick_returns [OF assms] by metis
  have inv: "gw_inv g'" using gw_publish_ok [OF t(4)] assms(1) by (simp add: headroom_def)
  have src: "mx_sources m = mx_sources (gw_mux g1)" using mux_compose_frame [of t2 "gw_mux g1"] t(3) by simp
  have "gw_generation g' = gw_generation g1 \<and> gw_snapshot g' \<le> gw_snapshot g1 + 1 \<and> gw_mux g' = m"
    using t(5) send_snapshot_ok [of pks t2 "g1\<lparr>gw_mux := m\<rparr>" g'] by auto
  moreover have "gw_snapshot g1 + 1 + int n \<le> 2 ^ 31"
    using t(2,6) assms(1) gw_snapshot_pos [of g] by (auto simp: headroom_def)
  ultimately have "headroom n g'" using t(2) inv src by (simp add: headroom_def joint_count_def)
  with t(4) show ?thesis by blast
qed

lemma accept_total:
  assumes "headroom (Suc n) g"
  shows "\<exists>g'. gw_accept s msg t1 t2 t3 g = (g', Inr ()) \<and> headroom n g'"
proof -
  obtain g' where a: "gw_accept s msg t1 t2 t3 g = (g', Inr ())" using accept_returns [OF assms] by blast
  have inv: "gw_inv g" using assms by (simp add: headroom_def)
  have inv': "gw_inv g'" using gw_accept_ok [OF a inv] by simp
  have keep: "headroom n g1"
    if "g1 = g \<or> enforce_safety_deadline t1 g = (g1, Inr ())" for g1
    using that
  proof
    assume "g1 = g"
    then show ?thesis using assms headroom_weaken by blast
  next
    assume "enforce_safety_deadline t1 g = (g1, Inr ())"
    then show ?thesis using enforce_total [OF assms, of t1] headroom_weaken by (metis Pair_inject)
  qed
  from a have "headroom n g'"
  proof (cases rule: gw_accept_cases)
    case (closed g1)
    then show ?thesis by (intro headroom_cong [OF keep [OF closed(3)] inv']) (simp_all add: reject_blocked_def)
  next
    case (accepted g1 c m)
    then have "mx_sources m = mx_sources (gw_mux g1)" by (auto simp: mux_accept_unfold)
    then show ?thesis using accepted by (intro headroom_cong [OF keep [of g1] inv']) simp_all
  next
    case (rejected g1 e)
    then show ?thesis by (intro headroom_cong [OF keep [of g1] inv']) simp_all
  qed
  with a show ?thesis by blast
qed

lemma joint_state_total:
  assumes "headroom (Suc n) g"
  shows "\<exists>g'. gw_joint_state msg g = (g', Inr ()) \<and> headroom n g'"
proof -
  obtain g' where a: "gw_joint_state msg g = (g', Inr ())" using joint_state_returns by blast
  have h: "headroom n g" using assms headroom_weaken by blast
  have inv': "gw_inv g'" using gw_joint_state_ok [OF a] assms by (simp add: headroom_def)
  have "gw_generation g' = gw_generation g \<and> gw_snapshot g' = gw_snapshot g
      \<and> mx_sources (gw_mux g') = mx_sources (gw_mux g)"
    using a fold_observe_frame [of "zip (js_name msg) (js_position msg)" "gw_mux g"]
    by (auto simp: gw_joint_state_def mux_observe_eq split: if_splits sum.splits exc.splits)
  then have "headroom n g'" using headroom_cong [OF h inv'] by simp
  with a show ?thesis by blast
qed

lemma gw_run_total:
  "headroom (length es) g \<Longrightarrow> \<exists>g'. gw_run es g = (g', Inr ())"
proof (induction es arbitrary: g)
  case (Cons e es)
  then have h: "headroom (Suc (length es)) g" by simp
  have "\<exists>g1. gw_step e g = (g1, Inr ()) \<and> headroom (length es) g1"
    using accept_total [OF h] safety_stop_total [OF h] joint_state_total [OF h] tick_total [OF h]
    by (cases e) simp_all
  then obtain g1 where g1: "gw_step e g = (g1, Inr ())" "headroom (length es) g1" by blast
  with Cons.IH [OF g1(2)] show ?case by simp
qed simp


lemma gw_run_append:
  "gw_run es g = (g', Inr ()) \<Longrightarrow> gw_run (es @ es') g = gw_run es' g'"
  by (induction es arbitrary: g) (auto split: prod.splits sum.splits)

section \<open>Properties\<close>

text \<open>A launch with one joint per source, and its first seconds: cleared, commanded, published.\<close>

definition demo_gateway :: gateway where
  "demo_gateway = (case gateway_new ([''w1''], Fin (1/4)) ([''j1''], Fin (1/2)) [''drive''] [''pan'']
                          (Fin 1) 5 of Inr g \<Rightarrow> g)"

definition arm_message :: joint_state where
  "arm_message = \<lparr>js_name = [''j1'', ''drive_joint''], js_position = [Fin 2],
                  js_velocity = [], js_effort = []\<rparr>"

definition demo_events :: "gw_event list" where
  "demo_events = [GwTick 0 0, GwSample False 0, GwCommand ''ros2_control'' arm_message 0 0 0,
                  GwTick 0 (1/10)]"

lemma demo_gateway_new:
  "gateway_new ([''w1''], Fin (1/4)) ([''j1''], Fin (1/2)) [''drive''] [''pan''] (Fin 1) 5 = Inr demo_gateway"
proof -
  have "is_ok (gateway_new ([''w1''], Fin (1/4)) ([''j1''], Fin (1/2)) [''drive''] [''pan''] (Fin 1) 5)"
    by code_simp
  then show ?thesis by (auto simp: is_ok_iff demo_gateway_def)
qed

lemma gateway_headroom:
  assumes "gateway_new base arm gripper pan_tilt timeout bits = Inr g"
    "length (fst base) + length (fst arm) + length gripper + length pan_tilt < 2 ^ 16" "n \<le> 2 ^ 31"
  shows "headroom n g"
proof -
  note new = gateway_new_ok [OF assms(1)]
  have "int n \<le> int (2 ^ 31)" using assms(3) by (simp only: of_nat_le_iff)
  then have n: "int n \<le> 2 ^ 31" by simp
  have "joint_count (gw_mux g) < 2 ^ 16" unfolding joint_count_def using new(7) assms(2) by (rule le_less_trans)
  then show ?thesis using new(1,5,6) n by (simp add: headroom_def)
qed

lemma run_total: "headroom (length es) g \<Longrightarrow> gw_run es g = (fst (gw_run es g), Inr ())"
  using gw_run_total [of es g] by auto

lemma demo_headroom: "headroom 9 demo_gateway"
  by (rule gateway_headroom [OF demo_gateway_new]) simp_all

lemma demo_run_ok: "gw_run demo_events demo_gateway = (fst (gw_run demo_events demo_gateway), Inr ())"
  by (rule run_total, rule gateway_headroom [OF demo_gateway_new]) (simp_all add: demo_events_def)

text \<open>C10: The frames a gateway publishes carry, read back through the decoders of the receiver,
  strictly increasing numbers (epoch, then snapshot, then packet), across every safety
  transition, heartbeat loss and rejected command of a run: no number is ever reused, so a
  delayed or replayed packet is recognisable. The gate agrees with the multiplexer's stop
  throughout.\<close>

theorem frames_increase:
  assumes "gateway_new base arm gripper pan_tilt timeout bits = Inr g0"
    and "gw_run es g0 = (g, Inr ())"
  shows "sorted_wrt (<) (map number (frames (gw_out g)))
    \<and> list_all (\<lambda>f. is_ok (frame_key (fst f))) (frames (gw_out g))
    \<and> mx_safety_stop (gw_mux g) = gw_active g"
proof -
  note new = gateway_new_ok [OF assms(1)]
  have ok: "gw_inv g" "progress g0 g" using gw_run_ok [OF assms(2) new(1)] by simp_all
  have s: "sorted_wrt (<) (map number (frames (gw_out g)))"
    "list_all (\<lambda>f. position g0 < number f) (frames (gw_out g))"
    using ok(2) new(2) by (auto simp: progress_def list_all_iff)
  have e: "0 < gw_epoch g0" using new(1) by (simp add: gw_inv_def encode_epoch_ok)
  have "is_ok (frame_key (fst f))" if "f \<in> set (frames (gw_out g))" for f
  proof (rule ccontr)
    assume "\<not> is_ok (frame_key (fst f))"
    then have "number f = (-1, -1, -1)" by (cases "frame_key (fst f)") (simp_all add: number_def)
    moreover have "position g0 < number f" using that s(2) by (simp add: list_all_iff)
    ultimately show False using e by (simp add: position_def less_prod_def)
  qed
  then show ?thesis using s(1) ok(1) by (simp add: list_all_iff gw_inv_def)
qed

theorem frames_increase_witness:
  "sorted_wrt (<) (map number (frames (gw_out (fst (gw_run demo_events demo_gateway)))))"
  using frames_increase [OF demo_gateway_new demo_run_ok] by (rule conjunct1)

text \<open>A publishing tick that returns sends a whole snapshot or nothing: for the packets the
  multiplexer composed, frames numbered 1 to n in order, all with the current epoch, one
  snapshot number and the count n.\<close>

theorem publish_whole_snapshot:
  assumes "gateway_new base arm gripper pan_tilt timeout bits = Inr g0"
    and "gw_run es g0 = (g, Inr ())" and "gw_publish (Fin t1) (Fin t2) g = (g', Inr ())"
  shows "\<exists>fs pks. frames (gw_out g') = frames (gw_out g) @ zip fs pks \<and> length fs = length pks
    \<and> snapshot_ok pks
    \<and> (fs = [] \<or> list_all (\<lambda>k. frame_key (fs ! k)
         = Inr (gw_epoch g', gw_snapshot g' - 1, int (length pks), 1 + int k)) [0..<length pks])"
proof -
  note new = gateway_new_ok [OF assms(1)]
  have inv: "gw_inv g" using gw_run_ok [OF assms(2) new(1)] by simp
  from assms(3) show ?thesis
  proof (cases rule: gw_publish_cases)
    case (1 g1 m pks)
    note en = enforce_ok [OF 1(1) inv]
    have f1: "frames (gw_out g1) = frames (gw_out g)"
    proof -
      obtain os where "gw_out g1 = gw_out g @ os" "list_all (\<lambda>out. \<exists>a b c. out = GwGate a b c) os"
        using en by blast
      then show ?thesis by (simp add: frames_gates)
    qed
    have pks: "snapshot_ok pks"
      using mux_compose_ok [of "gw_mux g1" "Fin t2"] en gw_inv_mux [of g1] 1(2)
      by (metis Pair_inject isfinite.simps(1) sum.inject(2))
    show ?thesis
    proof (cases "publish_suppressed pks (Fin t2) (g1\<lparr>gw_mux := m\<rparr>)")
      case True
      then have "frames (gw_out g') = frames (gw_out g) @ zip [] []" using 1(3) f1 by simp
      then show ?thesis by (intro exI [of _ "[]"]) (simp add: snapshot_ok_def)
    next
      case False
      then have "send_snapshot pks (Fin t2) (g1\<lparr>gw_mux := m\<rparr>) = (g', Inr ())" using 1(3) by simp
      from send_snapshot_ok [OF this] obtain fs st where fs: "length fs = length pks"
        "gw_out g' = gw_out g1 @ map2 GwFrame fs pks @ [st]" "frames [st] = []"
        "list_all (\<lambda>k. frame_key (fs ! k)
            = Inr (gw_epoch g1, gw_snapshot g1, int (length pks), 1 + int k)) [0..<length pks]"
        "gw_epoch g' = gw_epoch g1" "gw_snapshot g' = gw_snapshot g1 + 1" by auto
      then have "frames (gw_out g') = frames (gw_out g) @ zip fs pks"
        by (simp add: frames_map2 f1)
      with fs pks show ?thesis by (intro exI [of _ fs] exI [of _ pks]) simp
    qed
  qed
qed

theorem publish_whole_snapshot_witness:
  "\<exists>fs pks. frames (gw_out (fst (gw_publish (Fin 0) (Fin (1/5)) (fst (gw_run demo_events demo_gateway)))))
       = frames (gw_out (fst (gw_run demo_events demo_gateway))) @ zip fs pks \<and> length fs = length pks"
proof -
  let ?g = "fst (gw_run demo_events demo_gateway)"
  have "gw_run (demo_events @ [GwTick 0 (1/5)]) demo_gateway
      = (fst (gw_run (demo_events @ [GwTick 0 (1/5)]) demo_gateway), Inr ())"
    by (rule run_total, rule gateway_headroom [OF demo_gateway_new]) (simp_all add: demo_events_def)
  then have "gw_run [GwTick 0 (1/5)] ?g
      = (fst (gw_run (demo_events @ [GwTick 0 (1/5)]) demo_gateway), Inr ())"
    unfolding gw_run_append [OF demo_run_ok] .
  then obtain g where g: "gw_publish (Fin 0) (Fin (1/5)) ?g = (g, Inr ())"
    by (cases "gw_publish (Fin 0) (Fin (1/5)) ?g") (simp split: sum.splits)
  have "fst (gw_publish (Fin 0) (Fin (1/5)) ?g) = g" by (simp add: g)
  with publish_whole_snapshot [OF demo_gateway_new demo_run_ok g] show ?thesis by metis
qed

text \<open>A gateway whose sources have fewer than 65536 joints together raises no exception in
  its first 2147483648 callbacks, whatever messages, samples and ticks they are: every
  malformed message is rejected inside its callback.\<close>

theorem gateway_never_raises:
  assumes "gateway_new base arm gripper pan_tilt timeout bits = Inr g0"
    and "length (fst base) + length (fst arm) + length gripper + length pan_tilt < 2 ^ 16"
    and "length es \<le> 2 ^ 31"
  shows "\<exists>g. gw_run es g0 = (g, Inr ())"
  using gw_run_total [OF gateway_headroom [OF assms]] .

theorem gateway_never_raises_witness: "\<exists>g. gw_run demo_events demo_gateway = (g, Inr ())"
  by (rule gateway_never_raises [OF demo_gateway_new]) (simp_all add: demo_events_def)


lemma zip_take_len: "zip xs ys = zip (take (length ys) xs) ys"
  by (induction xs ys rule: list_induct2') auto

lemma closed_safe:
  assumes "gw_inv g" "gw_active g" "isfinite t" "mux_compose t (gw_mux g) = (m, Inr pks)"
  shows "list_all safe_packet pks"
  using assms mux_compose_ok [OF gw_inv_mux [OF assms(1)] assms(3)]
  by (metis Pair_inject gw_inv_def sum.inject(2))

text \<open>C11: A publishing tick at which no heartbeat arrived within the timeout leaves the gate
  closed and the multiplexer stopped, and every packet it sends has zero velocities and
  efforts, whatever was commanded and published before.\<close>

theorem heartbeat_loss_is_safe:
  assumes "gateway_new base arm gripper pan_tilt timeout bits = Inr g0"
    and "gw_run es g0 = (g, Inr ())" and "\<not> heartbeat_fresh (Fin t1) g"
    and "gw_publish (Fin t1) (Fin t2) g = (g', Inr ())"
  shows "gw_active g' \<and> mx_safety_stop (gw_mux g') \<and> mx_latest (gw_mux g') = Map.empty
    \<and> (\<exists>new. frames (gw_out g') = frames (gw_out g) @ new \<and> list_all (\<lambda>f. safe_packet (snd f)) new)"
proof -
  have inv: "gw_inv g" using gw_run_ok [OF assms(2) gateway_new_ok(1) [OF assms(1)]] by simp
  have inv': "gw_inv g'" using gw_publish_ok [OF assms(4) inv] by simp
  from assms(4) show ?thesis
  proof (cases rule: gw_publish_cases)
    case (1 g1 m pks)
    note en = enforce_ok [OF 1(1) inv]
    have a1: "gw_active g1" using en assms(3) by simp
    obtain os where "gw_out g1 = gw_out g @ os" "list_all (\<lambda>out. \<exists>a b c. out = GwGate a b c) os"
      using en by blast
    then have f1: "frames (gw_out g1) = frames (gw_out g)" by (simp add: frames_gates)
    have safe: "list_all safe_packet pks" using closed_safe [of g1 "Fin t2"] en a1 1(2) by simp
    let ?g = "g1\<lparr>gw_mux := m\<rparr>"
    have sent: "gw_active g' \<and> (\<exists>fs. length fs = length pks \<and>
        (frames (gw_out g') = frames (gw_out g) @ zip fs pks \<or> frames (gw_out g') = frames (gw_out g)))"
    proof (cases "publish_suppressed pks (Fin t2) ?g")
      case True
      then have "g' = ?g" using 1(3) by simp
      then show ?thesis using a1 f1 by (auto intro: exI [of _ "replicate (length pks) []"])
    next
      case False
      then have "send_snapshot pks (Fin t2) ?g = (g', Inr ())" using 1(3) by simp
      from send_snapshot_ok [OF this] obtain fs st where "length fs = length pks"
        "gw_out g' = gw_out g1 @ map2 GwFrame fs pks @ [st]" "frames [st] = []" "gw_active g' = gw_active g1"
        by auto
      then show ?thesis using a1 f1 by (auto simp: frames_map2)
    qed
    have "list_all (\<lambda>f. safe_packet (snd f)) (zip fs pks)" for fs
      using safe by (auto simp: list_all_iff dest: set_zip_rightD)
    then have "\<exists>new. frames (gw_out g') = frames (gw_out g) @ new \<and> list_all (\<lambda>f. safe_packet (snd f)) new"
      using sent list.pred_inject(1) by (metis append.right_neutral)
    moreover have "mx_safety_stop (gw_mux g') \<and> mx_latest (gw_mux g') = Map.empty"
      using sent inv' by (simp add: gw_inv_def mux_inv_def stop_inv_def)
    ultimately show ?thesis using sent by blast
  qed
qed

theorem heartbeat_loss_is_safe_witness:
  "\<exists>g'. gw_publish (Fin 5) (Fin 5) demo_gateway = (g', Inr ()) \<and> gw_active g'
     \<and> (\<exists>new. frames (gw_out g') = frames (gw_out demo_gateway) @ new \<and> list_all (\<lambda>f. safe_packet (snd f)) new)"
proof -
  have fresh: "\<not> heartbeat_fresh (Fin 5) demo_gateway"
    using gateway_new_ok(4) [OF demo_gateway_new] by (simp add: heartbeat_fresh_def)
  have "headroom (Suc 8) demo_gateway" using demo_headroom by simp
  from tick_total [OF this, of "Fin 5" "Fin 5"] obtain g' where
    g': "gw_publish (Fin 5) (Fin 5) demo_gateway = (g', Inr ())" by auto
  have run: "gw_run [] demo_gateway = (demo_gateway, Inr ())" by simp
  from heartbeat_loss_is_safe [OF demo_gateway_new run fresh g'] g' show ?thesis by blast
qed

text \<open>While the gate is closed, or when the deadline check of the same callback finds the
  heartbeat expired, an incoming command changes no command state of the multiplexer: there is
  no latest command for any source. When the gate is open, what is accepted is the
  projection of the message onto joints the source owns.\<close>

theorem accept_only_through_open_gate:
  assumes "gateway_new base arm gripper pan_tilt timeout bits = Inr g0"
    and "gw_run es g0 = (g, Inr ())" and "gw_accept s msg (Fin t1) (Fin t2) (Fin t3) g = (g', Inr ())"
  shows "if gw_active g \<or> \<not> heartbeat_fresh (Fin t1) g
    then gw_active g' \<and> mx_latest (gw_mux g') = Map.empty
    else mx_latest (gw_mux g') = mx_latest (gw_mux g)
      \<or> (\<exists>c p. owned_command (gw_mux g) s (js_name msg) (js_position msg) (js_velocity msg) (js_effort msg) = Inr c
           \<and> mx_latest (gw_mux g') = (mx_latest (gw_mux g))(s \<mapsto> (Fin t2, c)) \<and> valid_command c
           \<and> map_of (mx_sources (gw_mux g)) s = Some p \<and> set (jc_names c) \<subseteq> set (cs_joints p))"
proof -
  have inv: "gw_inv g" using gw_run_ok [OF assms(2) gateway_new_ok(1) [OF assms(1)]] by simp
  have inv': "gw_inv g'" using gw_accept_ok [OF assms(3) inv] by simp
  have closed_latest: "gw_active g' \<Longrightarrow> mx_latest (gw_mux g') = Map.empty"
    using inv' by (simp add: gw_inv_def mux_inv_def stop_inv_def)
  show ?thesis
  proof (cases "gw_active g \<or> \<not> heartbeat_fresh (Fin t1) g")
    case True
    have "gw_active g'" using assms(3)
    proof (cases rule: gw_accept_cases)
      case (closed g1)
      then show ?thesis by (simp add: reject_blocked_def)
    next
      case (accepted g1 c m)
      then show ?thesis using enforce_ok [OF accepted(1) inv] True by simp
    next
      case (rejected g1 e)
      then show ?thesis using enforce_ok [OF rejected(1) inv] True by simp
    qed
    then show ?thesis using True closed_latest by simp
  next
    case False
    then have same: "g1 = g" if "enforce_safety_deadline (Fin t1) g = (g1, Inr ())" for g1
      using that by (auto simp: enforce_safety_deadline_def heartbeat_fresh_def split: if_splits)
    from assms(3) show ?thesis
    proof (cases rule: gw_accept_cases)
      case (closed g1)
      then show ?thesis using False same by auto
    next
      case (accepted g1 c m)
      then show ?thesis using False same [OF accepted(1)]
        by (auto simp: mux_accept_unfold acceptable_def)
    next
      case (rejected g1 e)
      then show ?thesis using False same [OF rejected(1)] by simp
    qed
  qed
qed

theorem accept_only_through_open_gate_witness:
  "gw_active (fst (gw_accept ''base'' arm_message (Fin 0) (Fin 0) (Fin 0) demo_gateway))"
proof -
  have "headroom (Suc 8) demo_gateway" using demo_headroom by simp
  then obtain g' where g': "gw_accept ''base'' arm_message (Fin 0) (Fin 0) (Fin 0) demo_gateway = (g', Inr ())"
    using accept_returns by blast
  have run: "gw_run [] demo_gateway = (demo_gateway, Inr ())" by simp
  have "gw_active demo_gateway" using gateway_new_ok(3) [OF demo_gateway_new] .
  with accept_only_through_open_gate [OF demo_gateway_new run g'] g' show ?thesis by simp
qed

definition projects ::
  "string list \<Rightarrow> string list \<Rightarrow> pyfloat list \<Rightarrow> pyfloat list \<Rightarrow> bool" where
  "projects owned names values r \<longleftrightarrow>
     (let mine = filter (\<lambda>n. n \<in> set owned) names in
      if values = [] then r = []
      else length r = length mine \<and> zip mine r = filter (\<lambda>nv. fst nv \<in> set owned) (zip names values))"

lemma zip_filter_fst:
  "length ns = length vs \<Longrightarrow>
   zip (filter P ns) (map snd (filter (\<lambda>nv. P (fst nv)) (zip ns vs))) = filter (\<lambda>nv. P (fst nv)) (zip ns vs)
   \<and> length (filter P ns) = length (filter (\<lambda>nv. P (fst nv)) (zip ns vs))"
  by (induction ns vs rule: list_induct2) auto

lemma project_values_projects:
  assumes "project_values source owned names values = Inr r"
  shows "projects owned names values r"
proof -
  let ?P = "\<lambda>n. n \<in> set owned"
  let ?mine = "filter ?P names"
  consider "values = []" "r = []"
    | "values \<noteq> []" "length values = length names" "r = map snd (filter (\<lambda>nv. ?P (fst nv)) (zip names values))"
    | "values \<noteq> []" "length values = length ?mine" "?mine = take (length ?mine) names" "r = values"
    using assms by (auto simp: project_values_def Let_def case_prod_beta' split: if_splits)
  then show ?thesis
  proof cases
    case 2
    then show ?thesis using zip_filter_fst [of names "values" ?P] by (simp add: projects_def)
  next
    case 3
    have "zip names values = zip (take (length ?mine) names) values"
      unfolding 3(2) [symmetric] by (rule zip_take_len)
    then have "zip names values = zip ?mine values" using 3(3) by simp
    moreover have "filter (\<lambda>nv. ?P (fst nv)) (zip ?mine values) = zip ?mine values"
      by (rule filter_True) (auto dest!: set_zip_leftD)
    ultimately show ?thesis using 3 by (simp add: projects_def)
  qed (simp add: projects_def)
qed

text \<open>The command made from a message never attaches a value to the wrong joint: its joints
  are the owned names of the message in order, at least one, and each channel is empty exactly
  when the message's channel is empty, and otherwise gives every owned name the value it was
  paired with in the message.\<close>

theorem projection_keeps_pairing:
  assumes "owned_command m source names ps vs es = Inr c"
  shows "\<exists>policy. map_of (mx_sources m) source = Some policy
    \<and> jc_names c = filter (\<lambda>n. n \<in> set (cs_joints policy)) names \<and> jc_names c \<noteq> []
    \<and> projects (cs_joints policy) names ps (jc_positions c)
    \<and> projects (cs_joints policy) names vs (jc_velocities c)
    \<and> projects (cs_joints policy) names es (jc_efforts c)"
  using assms by (auto simp: owned_command_def Let_def split: option.splits if_splits sum.splits
      intro: project_values_projects)

theorem projection_keeps_pairing_witness:
  "\<exists>policy. map_of (mx_sources demo_mux) ''arm'' = Some policy \<and>
     projects (cs_joints policy) [''j1'', ''drive_joint''] [Fin 2] [Fin 2]"
proof -
  have c: "owned_command demo_mux ''arm'' [''j1'', ''drive_joint''] [Fin 2] [] []
      = Inr \<lparr>jc_names = [''j1''], jc_positions = [Fin 2], jc_velocities = [], jc_efforts = []\<rparr>"
    by code_simp
  from projection_keeps_pairing [OF c] show ?thesis by auto
qed

end
