(* ===== verification/Backend_Commands.thy ===== *)
theory Backend_Commands
  imports Command_Mux
begin

text \<open>
  The command side of the Isaac backend (\<open>tinker_sim_isaac/backend.py\<close>): joint target
  buffers, staging of multi-packet snapshots, the safety stop, the wheel slew, the ramp of
  the gripper target and the referee hold that the gripper target releases.

  The target tensors are rows of floats indexed by joint. The robot is outside the model:
  measured positions, gravity forces and the outcome of writing the hold's gains are
  arguments. \<open>bk_gains_held\<close> says whether the arm's drives carry the gains of the hold; the
  values of the gains are left out, and so are the pose of a fixed base and log lines.
\<close>

section \<open>Scalar slew\<close>

definition copysign :: "pyfloat \<Rightarrow> pyfloat \<Rightarrow> pyfloat" where
  "copysign m x = (if flt x (Fin 0) then fneg (fabs m) else fabs m)"

definition slew_velocity_target :: "pyfloat \<Rightarrow> pyfloat \<Rightarrow> pyfloat \<Rightarrow> pyfloat res" where
  "slew_velocity_target current target max_delta =
     (if \<not> isfinite current \<or> \<not> isfinite target \<or> \<not> isfinite max_delta
      then Inl (ValueError ''slew inputs must be finite numbers'')
      else if flt max_delta (Fin 0) then Inl (ValueError ''max_delta must be non-negative'')
      else
        let delta = fsub target current in
        if fle (fabs delta) max_delta then Inr target
        else Inr (fadd current (copysign max_delta delta)))"

section \<open>The referee hold\<close>

text \<open>The pose captured for the kinematic follow is left out: it does not affect the release.\<close>

record referee_hold =
  rh_path :: "string option"
  rh_peak :: "pyfloat option"

definition OPEN_DELTA_RAD :: pyfloat where "OPEN_DELTA_RAD = Fin (5 / 100)"

definition held :: "referee_hold \<Rightarrow> bool" where
  "held h \<longleftrightarrow> rh_path h \<noteq> None"

definition rh_attach :: "string \<Rightarrow> pyfloat option \<Rightarrow> referee_hold \<Rightarrow> referee_hold" where
  "rh_attach path drive_target h = h\<lparr>rh_path := Some path, rh_peak := drive_target\<rparr>"

definition on_drive_target :: "pyfloat \<Rightarrow> referee_hold \<Rightarrow> referee_hold \<times> bool" where
  "on_drive_target target h =
     (if \<not> held h then (h, False)
      else case rh_peak h of
        None \<Rightarrow> (h\<lparr>rh_peak := Some target\<rparr>, False)
      | Some peak \<Rightarrow>
          if flt peak target then (h\<lparr>rh_peak := Some target\<rparr>, False)
          else (h, flt target (fsub peak OPEN_DELTA_RAD)))"

definition rh_clear :: "referee_hold \<Rightarrow> string option \<times> referee_hold" where
  "rh_clear h = (rh_path h, h\<lparr>rh_path := None, rh_peak := None\<rparr>)"

text \<open>\<open>_referee_hold_on_drive_target\<close>: a commanded open releases the hold.\<close>

definition hold_on_drive_target :: "pyfloat \<Rightarrow> referee_hold \<Rightarrow> referee_hold" where
  "hold_on_drive_target target h =
     (if held h
      then (case on_drive_target target h of (h', True) \<Rightarrow> snd (rh_clear h') | (h', False) \<Rightarrow> h')
      else h)"

section \<open>State\<close>

record backend =
  bk_stopped :: bool
  bk_names :: "string list"
  bk_index :: "string \<rightharpoonup> nat"
  bk_positions :: "pyfloat list"
  bk_velocities :: "pyfloat list"
  bk_efforts :: "pyfloat list"
  bk_hold_pose :: "pyfloat list option"
  bk_arm :: "nat list"
  bk_gains_held :: bool
  bk_hold_steps :: nat
  bk_hold_effort :: "pyfloat list"
  bk_wheels :: "nat list"
  bk_applied :: "nat \<rightharpoonup> pyfloat"
  bk_drive_target :: "pyfloat option"
  bk_hold :: referee_hold
  bk_effort_limit :: pyfloat
  bk_effort_ceiling :: pyfloat
  bk_effort_scale :: pyfloat
  bk_pending :: "int option"
  bk_pending_count :: int
  bk_pending_index :: int
  bk_staged :: "joint_command list"
  bk_snapshot :: "int option"
  bk_force_write :: bool

definition zeros :: "pyfloat list \<Rightarrow> pyfloat list" where
  "zeros xs = map (\<lambda>_. Fin 0) xs"

section \<open>Gripper effort\<close>

definition GRIPPER_EFFORT_FULL_SCALE_N :: pyfloat where "GRIPPER_EFFORT_FULL_SCALE_N = Fin 10"

definition gripper_effort_limit_nm :: "pyfloat option \<Rightarrow> pyfloat \<Rightarrow> pyfloat \<Rightarrow> pyfloat" where
  "gripper_effort_limit_nm commanded_n ceiling_nm full_scale_n =
     (case commanded_n of
        None \<Rightarrow> ceiling_nm
      | Some n \<Rightarrow>
          if \<not> isfinite n \<or> fle n (Fin 0) then ceiling_nm
          else
            let scale = (if flt (Fin 0) full_scale_n then full_scale_n else GRIPPER_EFFORT_FULL_SCALE_N);
                fraction = pymax (Fin 0) (pymin (Fin 1) (fdiv n scale))
            in fmul ceiling_nm fraction)"

definition set_gripper_effort_limit :: "pyfloat \<Rightarrow> backend \<Rightarrow> backend \<times> unit res" where
  "set_gripper_effort_limit requested b =
     (if \<not> isfinite requested \<or> flt requested (Fin 0)
      then (b, Inl (ValueError ''drive_joint effort limit must be finite and non-negative''))
      else
        let limit = gripper_effort_limit_nm (Some requested) (bk_effort_ceiling b) (bk_effort_scale b) in
        case bk_index b ''drive_joint'' of
          None \<Rightarrow> (b, Inl (RuntimeError ''Tinker articulation lacks drive_joint''))
        | Some _ \<Rightarrow> (b\<lparr>bk_effort_limit := limit\<rparr>, Inr ()))"

section \<open>Applying a command\<close>

definition index_of :: "string \<Rightarrow> string list \<Rightarrow> nat" where
  "index_of x xs = length (takeWhile (\<lambda>y. y \<noteq> x) xs)"

definition validate_backend_command :: "backend \<Rightarrow> joint_command \<Rightarrow> unit res" where
  "validate_backend_command b c =
     (case jc_validate c of
        Inl e \<Rightarrow> Inl e
      | Inr _ \<Rightarrow>
          let unknown = sort (filter (\<lambda>n. bk_index b n = None) (remdups (jc_names c))) in
          if unknown \<noteq> []
          then Inl (ValueError (''Isaac articulation lacks commanded joints: '' @ repr_strs unknown))
          else if jc_efforts c \<noteq> [] \<and> ''drive_joint'' \<in> set (jc_names c)
                  \<and> flt (jc_efforts c ! index_of ''drive_joint'' (jc_names c)) (Fin 0)
          then Inl (ValueError ''drive_joint effort limit must be non-negative'')
          else Inr ())"

text \<open>The loop of \<open>_apply_joint_command\<close>: it gathers the position and the velocity writes of the
  packet, and feeds the gripper target and its effort limit as it meets them.\<close>

type_synonym writes = "(nat \<times> pyfloat) list"

definition gather_one ::
  "joint_command \<Rightarrow> nat \<Rightarrow> string \<Rightarrow> backend \<times> writes \<times> writes \<Rightarrow> (backend \<times> writes \<times> writes) \<times> unit res" where
  "gather_one c k name acc =
     (let (b, ps, vs) = acc in
      case bk_index b name of
        None \<Rightarrow> ((b, ps, vs), Inl (KeyError name))
      | Some i \<Rightarrow>
          let moves = jc_positions c \<noteq> [] \<and> isfinite (jc_positions c ! k);
              p = jc_positions c ! k;
              b1 = (if moves \<and> name = ''drive_joint''
                    then b\<lparr>bk_drive_target := Some p, bk_hold := hold_on_drive_target p (bk_hold b)\<rparr> else b);
              ps1 = (if moves \<and> name \<noteq> ''drive_joint'' then ps @ [(i, p)] else ps);
              vs1 = (if moves \<and> jc_velocities c = [] then vs @ [(i, Fin 0)] else vs);
              vs2 = (if jc_velocities c \<noteq> [] \<and> isfinite (jc_velocities c ! k)
                     then vs1 @ [(i, jc_velocities c ! k)] else vs1)
          in if jc_efforts c \<noteq> [] \<and> name = ''drive_joint''
             then (case set_gripper_effort_limit (jc_efforts c ! k) b1 of (b2, r) \<Rightarrow> ((b2, ps1, vs2), r))
             else ((b1, ps1, vs2), Inr ()))"

fun gather ::
  "joint_command \<Rightarrow> nat \<Rightarrow> string list \<Rightarrow> backend \<times> writes \<times> writes \<Rightarrow> (backend \<times> writes \<times> writes) \<times> unit res" where
  "gather c k [] acc = (acc, Inr ())"
| "gather c k (name # names) acc =
     (case gather_one c k name acc of
        (acc', Inl e) \<Rightarrow> (acc', Inl e)
      | (acc', Inr _) \<Rightarrow> gather c (Suc k) names acc')"

fun write_targets :: "writes \<Rightarrow> pyfloat list \<Rightarrow> pyfloat list" where
  "write_targets [] xs = xs"
| "write_targets ((i, v) # ws) xs = write_targets ws (xs[i := v])"

definition apply_joint_command :: "joint_command \<Rightarrow> backend \<Rightarrow> backend \<times> unit res" where
  "apply_joint_command c b =
     (case gather c 0 (jc_names c) (b, [], []) of
        ((b', ps, vs), Inl e) \<Rightarrow> (b', Inl e)
      | ((b', ps, vs), Inr _) \<Rightarrow>
          (b'\<lparr>bk_positions := write_targets ps (bk_positions b'),
              bk_velocities := write_targets vs (bk_velocities b')\<rparr>, Inr ()))"

section \<open>Snapshots\<close>

definition clear_pending :: "backend \<Rightarrow> backend" where
  "clear_pending b = b\<lparr>bk_pending := None, bk_staged := []\<rparr>"

definition discard_command_snapshot_staging :: "backend \<Rightarrow> backend" where
  "discard_command_snapshot_staging b =
     b\<lparr>bk_pending := None, bk_pending_count := 0, bk_pending_index := 0, bk_staged := []\<rparr>"

definition start_pending :: "int \<Rightarrow> int \<Rightarrow> backend \<Rightarrow> backend" where
  "start_pending logical_id packet_count b =
     b\<lparr>bk_pending := Some logical_id, bk_pending_count := packet_count, bk_pending_index := 0,
       bk_staged := []\<rparr>"

definition begin_command_snapshot :: "pyval \<Rightarrow> backend \<Rightarrow> backend \<times> unit res" where
  "begin_command_snapshot snapshot_id b =
     (case decode_snapshot_packet snapshot_id of
        Inl e \<Rightarrow> (b, Inl e)
      | Inr (logical_id, packet_count, packet_index) \<Rightarrow>
          if (case bk_snapshot b of None \<Rightarrow> False | Some current \<Rightarrow> logical_id < current)
          then (b, Inl (ValueError (''command snapshot '' @ dec_int logical_id @ '' is older than ''
                  @ dec_int (the (bk_snapshot b)))))
          else if packet_count = 1 then
            (let b1 = (if bk_pending b \<noteq> None then clear_pending b else b) in
             if bk_snapshot b = Some logical_id then (b1, Inr ())
             else (b1\<lparr>bk_velocities := zeros (bk_velocities b1), bk_efforts := zeros (bk_efforts b1),
                      bk_snapshot := Some logical_id\<rparr>, Inr ()))
          else
            (let staged = (if bk_pending b = None then
                             (if bk_snapshot b = Some logical_id
                              then Inl (ValueError ''command snapshot is already complete'')
                              else Inr (start_pending logical_id packet_count b))
                           else if bk_pending b \<noteq> Some logical_id
                           then Inr (start_pending logical_id packet_count b)
                           else if packet_count \<noteq> bk_pending_count b
                           then Inl (ValueError ''command snapshot packet count changed mid-snapshot'')
                           else Inr b)
             in case staged of
                  Inl e \<Rightarrow> (b, Inl e)
                | Inr b1 \<Rightarrow>
                    let expected = bk_pending_index b1 + 1 in
                    if packet_index \<noteq> expected
                    then (b1, Inl (ValueError (''expected command snapshot packet '' @ dec_int expected
                            @ '', got '' @ dec_int packet_index)))
                    else (b1\<lparr>bk_pending_index := packet_index\<rparr>, Inr ())))"

fun validate_all :: "backend \<Rightarrow> joint_command list \<Rightarrow> unit res" where
  "validate_all b [] = Inr ()"
| "validate_all b (c # cs) =
     (case validate_backend_command b c of Inl e \<Rightarrow> Inl e | Inr _ \<Rightarrow> validate_all b cs)"

fun apply_all :: "joint_command list \<Rightarrow> backend \<Rightarrow> backend \<times> unit res" where
  "apply_all [] b = (b, Inr ())"
| "apply_all (c # cs) b =
     (case apply_joint_command c b of (b', Inl e) \<Rightarrow> (b', Inl e) | (b', Inr _) \<Rightarrow> apply_all cs b')"

definition command_joints :: "joint_command \<Rightarrow> backend \<Rightarrow> backend \<times> bool res" where
  "command_joints command b =
     (if bk_stopped b then (b, Inr False)
      else case validate_backend_command b command of
        Inl e \<Rightarrow> (if bk_pending b \<noteq> None then clear_pending b else b, Inl e)
      | Inr _ \<Rightarrow>
          (case bk_pending b of
             Some pending \<Rightarrow>
               let b1 = b\<lparr>bk_staged := bk_staged b @ [command]\<rparr> in
               if bk_pending_index b1 < bk_pending_count b1 then (b1, Inr True)
               else (case validate_all b1 (bk_staged b1) of
                       Inl e \<Rightarrow> (clear_pending b1, Inl e)
                     | Inr _ \<Rightarrow>
                         let b2 = b1\<lparr>bk_velocities := zeros (bk_velocities b1),
                                     bk_efforts := zeros (bk_efforts b1)\<rparr>
                         in case apply_all (bk_staged b1) b2 of
                              (b3, Inl e) \<Rightarrow> (b3, Inl e)
                            | (b3, Inr _) \<Rightarrow>
                                (clear_pending (b3\<lparr>bk_snapshot := Some pending\<rparr>), Inr True))
           | None \<Rightarrow>
               (case apply_joint_command command b of
                  (b', Inl e) \<Rightarrow> (b', Inl e)
                | (b', Inr _) \<Rightarrow> (b', Inr True))))"

section \<open>The safety stop\<close>

text \<open>\<open>joint_pos\<close> is what the robot reports when the call reads it. The release restores the gains
  with the writers that wrote those of the hold.\<close>

definition set_safety_stop :: "pyfloat list \<Rightarrow> bool \<Rightarrow> backend \<Rightarrow> backend" where
  "set_safety_stop joint_pos active b0 =
     (if active = bk_stopped b0 then b0
      else
        let b = b0\<lparr>bk_force_write := True\<rparr> in
        if active then
          b\<lparr>bk_pending := None, bk_staged := [], bk_snapshot := None,
            bk_hold_pose := Some joint_pos, bk_stopped := True, bk_positions := joint_pos,
            bk_velocities := zeros (bk_velocities b), bk_efforts := zeros (bk_efforts b),
            bk_applied := map_of (map (\<lambda>i. (i, Fin 0)) (bk_wheels b))\<rparr>
        else
          b\<lparr>bk_gains_held := False, bk_stopped := False, bk_positions := joint_pos,
            bk_velocities := zeros (bk_velocities b), bk_efforts := zeros (bk_efforts b),
            bk_hold_pose := None\<rparr>)"

section \<open>Targets of a physics step\<close>

definition WHEEL_VELOCITY_SLEW_RAD_S2 :: pyfloat where "WHEEL_VELOCITY_SLEW_RAD_S2 = Fin 60"

definition fclamp :: "pyfloat \<Rightarrow> pyfloat \<Rightarrow> pyfloat \<Rightarrow> pyfloat" where
  "fclamp x lo hi = pymin (pymax x lo) hi"

text \<open>One wheel of the vectorised expression.\<close>

definition slew_wheel :: "pyfloat \<Rightarrow> pyfloat \<Rightarrow> pyfloat \<Rightarrow> pyfloat" where
  "slew_wheel applied commanded max_delta =
     fadd applied (fclamp (fsub commanded applied) (fneg max_delta) max_delta)"

definition slew_wheel_targets :: "pyfloat \<Rightarrow> backend \<Rightarrow> backend \<times> pyfloat list res" where
  "slew_wheel_targets dt b =
     (if bk_wheels b = [] then (b, Inr (bk_velocities b))
      else
        let max_delta = fmul WHEEL_VELOCITY_SLEW_RAD_S2 dt;
            commanded = map (\<lambda>i. bk_velocities b ! i) (bk_wheels b)
        in if \<not> list_all isfinite commanded
           then (b, Inl (ValueError ''wheel velocity targets must be finite''))
           else case filter (\<lambda>i. bk_applied b i = None) (bk_wheels b) of
             i # _ \<Rightarrow> (b, Inl (KeyError (dec_nat i)))
           | [] \<Rightarrow>
               let updated = map (\<lambda>i. (i, slew_wheel (the (bk_applied b i)) (bk_velocities b ! i) max_delta))
                                 (bk_wheels b)
               in (b\<lparr>bk_applied := bk_applied b ++ map_of (rev updated)\<rparr>,
                   Inr (write_targets updated (bk_velocities b))))"

text \<open>The gripper's ramp: configuration, and what it measures.\<close>

record ramp_config =
  rc_slew :: pyfloat
  rc_max_lead :: pyfloat
  rc_stall_speed :: pyfloat
  rc_halt_force :: pyfloat

record ramp_input =
  ri_pad :: "pyfloat option"
  ri_speed :: "pyfloat option"
  ri_grip_force :: pyfloat

definition ramp_target ::
  "ramp_config \<Rightarrow> ramp_input \<Rightarrow> pyfloat \<Rightarrow> pyfloat \<Rightarrow> pyfloat \<Rightarrow> pyfloat" where
  "ramp_target cfg inp dt current command =
     (if fle (rc_slew cfg) (Fin 0) then command
      else
        let max_delta = fmul (rc_slew cfg) dt;
            target = fadd current (pymax (fneg max_delta) (pymin max_delta (fsub command current)));
            target1 = (if flt current command \<and> flt (Fin 0) (rc_max_lead cfg)
                       then (case (ri_pad inp, ri_speed inp) of
                               (Some pad, Some speed) \<Rightarrow>
                                 if fle speed (rc_stall_speed cfg)
                                 then pymax current (pymin target (fadd pad (rc_max_lead cfg)))
                                 else target
                             | _ \<Rightarrow> target)
                       else target)
        in if flt current command \<and> flt (Fin 0) (rc_halt_force cfg)
              \<and> fle (rc_halt_force cfg) (ri_grip_force inp)
           then current else target1)"

definition ramp_drive_target :: "ramp_config \<Rightarrow> ramp_input \<Rightarrow> pyfloat \<Rightarrow> backend \<Rightarrow> backend" where
  "ramp_drive_target cfg inp dt b =
     (case (bk_index b ''drive_joint'', bk_drive_target b) of
        (Some i, Some command) \<Rightarrow>
          b\<lparr>bk_positions := (bk_positions b)[i := ramp_target cfg inp dt (bk_positions b ! i) command]\<rparr>
      | _ \<Rightarrow> b)"

section \<open>The hold of a stopped arm\<close>

definition SAFETY_HOLD_EFFORT_LIMIT :: pyfloat where "SAFETY_HOLD_EFFORT_LIMIT = Fin 100"

definition SAFETY_HOLD_GRAVITY_REFRESH_STEPS :: nat where "SAFETY_HOLD_GRAVITY_REFRESH_STEPS = 30"

text \<open>What the robot answers in a stopped step: its row of gravity forces, none when reading them raises;
  the number of its base degrees of freedom, none when that is no integer; and the outcome of
  writing the effort limit, stiffness and damping of the hold.\<close>

record hold_reading =
  hr_forces :: "pyfloat list option"
  hr_base_dofs :: "int option"
  hr_gains :: "unit res"

definition no_arm :: exc where
  "no_arm = RuntimeError ''Tinker articulation lacks the joint1-joint7 safety hold group''"

definition safety_gravity_efforts :: "hold_reading \<Rightarrow> backend \<Rightarrow> pyfloat list res" where
  "safety_gravity_efforts hr b =
     (if bk_arm b = [] then Inl no_arm
      else
        let failed = Inl (RuntimeError ''safety stop requires finite gravity compensation for every arm joint'')
        in case (hr_forces hr, hr_base_dofs hr) of
             (Some forces, Some base_dofs) \<Rightarrow>
               if base_dofs < 0 \<or> length forces \<noteq> nat base_dofs + length (bk_names b)
                  \<or> list_ex (\<lambda>i. length forces \<le> nat base_dofs + i) (bk_arm b) then failed
               else
                 let arm_gravity = map (\<lambda>i. forces ! (nat base_dofs + i)) (bk_arm b)
                 in if list_all isfinite arm_gravity then Inr arm_gravity else failed
           | _ \<Rightarrow> failed)"

definition compute_safety_efforts :: "hold_reading \<Rightarrow> backend \<Rightarrow> pyfloat list res" where
  "compute_safety_efforts hr b =
     (if bk_hold_pose b = None then Inl (RuntimeError ''safety stop has no latched measured position'')
      else case safety_gravity_efforts hr b of
        Inl e \<Rightarrow> Inl e
      | Inr raw_effort \<Rightarrow>
          let effort = map (\<lambda>x. pymin (pymax x (fneg SAFETY_HOLD_EFFORT_LIMIT)) SAFETY_HOLD_EFFORT_LIMIT) raw_effort
          in Inr (write_targets (zip (bk_arm b) effort) (zeros (bk_efforts b))))"

definition write_hold_gains :: "hold_reading \<Rightarrow> backend \<Rightarrow> backend \<times> unit res" where
  "write_hold_gains hr b =
     (if bk_gains_held b then (b, Inr ())
      else if bk_arm b = [] then (b, Inl no_arm)
      else case hr_gains hr of
        Inl e \<Rightarrow> (b, Inl e)
      | Inr _ \<Rightarrow> (b\<lparr>bk_gains_held := True, bk_hold_steps := 0\<rparr>, Inr ()))"

text \<open>\<open>_apply_safety_actuator_hold\<close>: gravity is read on entry and every thirty steps, and the efforts of
  the last reading are asserted in between.\<close>

definition apply_safety_hold :: "hold_reading \<Rightarrow> backend \<Rightarrow> backend \<times> unit res" where
  "apply_safety_hold hr b =
     (case write_hold_gains hr b of
        (b1, Inl e) \<Rightarrow> (b1, Inl e)
      | (b1, Inr _) \<Rightarrow>
          (case (if bk_hold_steps b1 mod SAFETY_HOLD_GRAVITY_REFRESH_STEPS = 0
                 then compute_safety_efforts hr b1 else Inr (bk_hold_effort b1)) of
             Inl e \<Rightarrow> (b1, Inl e)
           | Inr efforts \<Rightarrow>
               (b1\<lparr>bk_hold_effort := efforts, bk_efforts := efforts,
                   bk_hold_steps := bk_hold_steps b1 + 1\<rparr>, Inr ())))"

text \<open>The targets \<open>step()\<close> hands to the physics engine: the latched hold while stopped, otherwise the
  slewed wheels and the ramped gripper. The efforts are those of the state it leaves.\<close>

definition reassert_hold :: "pyfloat list \<Rightarrow> backend \<Rightarrow> backend" where
  "reassert_hold joint_pos b =
     (let pose = (case bk_hold_pose b of None \<Rightarrow> joint_pos | Some p \<Rightarrow> p)
      in b\<lparr>bk_hold_pose := Some pose, bk_positions := pose,
           bk_velocities := zeros (bk_velocities b), bk_efforts := zeros (bk_efforts b)\<rparr>)"

definition step_targets ::
  "ramp_config \<Rightarrow> ramp_input \<Rightarrow> pyfloat \<Rightarrow> pyfloat list \<Rightarrow> hold_reading \<Rightarrow> backend
     \<Rightarrow> backend \<times> (pyfloat list \<times> pyfloat list) res" where
  "step_targets cfg inp dt joint_pos hr b =
     (if bk_stopped b then
        (case apply_safety_hold hr (reassert_hold joint_pos b) of
           (b1, Inl e) \<Rightarrow> (b1, Inl e)
         | (b1, Inr _) \<Rightarrow> (b1, Inr (bk_positions b1, bk_velocities b1)))
      else case slew_wheel_targets dt b of
        (b1, Inl e) \<Rightarrow> (b1, Inl e)
      | (b1, Inr velocities) \<Rightarrow>
          let b2 = ramp_drive_target cfg inp dt b1 in (b2, Inr (bk_positions b2, velocities)))"

section \<open>A rebuilt articulation\<close>

definition WHEEL_JOINT_NAMES :: "string list" where
  "WHEEL_JOINT_NAMES = [''front_left_wheel_joint'', ''front_right_wheel_joint'',
     ''rear_left_wheel_joint'', ''rear_right_wheel_joint'']"

text \<open>What a newly resolved view of the robot reports: its joints, their measured positions and, when it
  already exposes them, their effort limits.\<close>

record robot_view =
  rv_names :: "string list"
  rv_pos :: "pyfloat list"
  rv_limits :: "pyfloat list option"

definition joint_index :: "string list \<Rightarrow> string \<rightharpoonup> nat" where
  "joint_index names = map_of (rev (zip names [0..<length names]))"

definition joints_in :: "(string \<rightharpoonup> nat) \<Rightarrow> string list \<Rightarrow> nat list" where
  "joints_in index names = List.map_filter index names"

definition configured_effort :: "robot_view \<Rightarrow> pyfloat option" where
  "configured_effort rv =
     (case (joint_index (rv_names rv) ''drive_joint'', rv_limits rv) of
        (Some i, Some limits) \<Rightarrow>
          if i < length limits \<and> isfinite (limits ! i) \<and> flt (Fin 0) (limits ! i) then Some (limits ! i) else None
      | _ \<Rightarrow> None)"

text \<open>The rest of \<open>_refresh_robot_handles\<close> after the view was found to be a new one: every target is seeded
  again from the robot, and so is the pose a stopped robot holds.\<close>

definition bind_robot :: "robot_view \<Rightarrow> backend \<Rightarrow> backend" where
  "bind_robot rv b =
     (let index = joint_index (rv_names rv);
          wheels = joints_in index WHEEL_JOINT_NAMES;
          b1 = b\<lparr>bk_names := rv_names rv, bk_index := index, bk_wheels := wheels,
                 bk_applied := map_of (map (\<lambda>i. (i, Fin 0)) wheels),
                 bk_arm := joints_in index (map (\<lambda>k. ''joint'' @ dec_nat k) [1..<8]),
                 bk_gains_held := False,
                 bk_velocities := zeros (rv_pos rv), bk_positions := rv_pos rv, bk_efforts := zeros (rv_pos rv)\<rparr>;
          b2 = (if bk_stopped b1 then b1\<lparr>bk_hold_pose := Some (rv_pos rv)\<rparr> else b1)
      in case configured_effort rv of
           None \<Rightarrow> b2
         | Some limit \<Rightarrow> b2\<lparr>bk_effort_ceiling := limit, bk_effort_limit := limit\<rparr>)"

end
