(* ===== verification/Backend_Safety.thy ===== *)
theory Backend_Safety
  imports Backend_Commands
begin

text \<open>
  What the command side of the backend guarantees: snapshots take effect as a whole or not
  at all and never go back, a stopped backend holds its pose and refuses commands, the
  wheel slew and the gripper ramp are bounded and reach their targets, and the referee
  hold is released exactly by a commanded opening.
\<close>

section \<open>Slew\<close>

lemma slew_finite:
  "slew_velocity_target (Fin c) (Fin t) (Fin d) =
     (if d < 0 then Inl (ValueError ''max_delta must be non-negative'')
      else Inr (Fin (if \<bar>t - c\<bar> \<le> d then t else if t < c then c - d else c + d)))"
  by (auto simp: slew_velocity_target_def fabs_def copysign_def Let_def)

lemma slew_wheel_finite:
  "0 \<le> d \<Longrightarrow> slew_wheel (Fin c) (Fin t) (Fin d) =
     Fin (if \<bar>t - c\<bar> \<le> d then t else if t < c then c - d else c + d)"
  by (auto simp: slew_wheel_def fclamp_def pymin_def pymax_def)

text \<open>One wheel of the vectorised slew is the scalar slew: same value for every finite
  current velocity, target and non-negative bound.\<close>

theorem vector_slew_is_scalar_slew:
  assumes "0 \<le> d"
  shows "slew_velocity_target (Fin c) (Fin t) (Fin d) = Inr (slew_wheel (Fin c) (Fin t) (Fin d))"
  using assms by (simp add: slew_finite slew_wheel_finite)

theorem vector_slew_is_scalar_slew_witness:
  "slew_velocity_target (Fin 0) (Fin 3) (Fin 1) = Inr (slew_wheel (Fin 0) (Fin 3) (Fin 1))"
  by (rule vector_slew_is_scalar_slew) simp

fun slew_steps :: "nat \<Rightarrow> pyfloat \<Rightarrow> pyfloat \<Rightarrow> pyfloat \<Rightarrow> pyfloat res" where
  "slew_steps 0 c t d = Inr c"
| "slew_steps (Suc n) c t d = (case slew_velocity_target c t d of Inl e \<Rightarrow> Inl e | Inr c' \<Rightarrow> slew_steps n c' t d)"

lemma slew_steps_value:
  assumes "0 \<le> d"
  shows "slew_steps n (Fin c) (Fin t) (Fin d) =
     Inr (Fin (if \<bar>t - c\<bar> \<le> of_nat n * d then t else if t < c then c - of_nat n * d else c + of_nat n * d))"
  using assms
proof (induction n arbitrary: c)
  case (Suc n)
  define c' where "c' = (if \<bar>t - c\<bar> \<le> d then t else if t < c then c - d else c + d)"
  have s: "slew_steps (Suc n) (Fin c) (Fin t) (Fin d) = slew_steps n (Fin c') (Fin t) (Fin d)"
    using Suc.prems by (simp add: slew_finite c'_def)
  have nd: "0 \<le> of_nat n * d" using Suc.prems by simp
  have "(if \<bar>t - c'\<bar> \<le> of_nat n * d then t else if t < c' then c' - of_nat n * d else c' + of_nat n * d)
      = (if \<bar>t - c\<bar> \<le> of_nat (Suc n) * d then t
         else if t < c then c - of_nat (Suc n) * d else c + of_nat (Suc n) * d)"
  proof -
    have e: "of_nat (Suc n) * d = of_nat n * d + d" by (simp add: algebra_simps)
    define k where "k = of_nat n * d"
    have "0 \<le> k" using nd by (simp add: k_def)
    then show ?thesis unfolding e c'_def k_def [symmetric] using Suc.prems by (auto simp: abs_if)
  qed
  then show ?case unfolding s using Suc.IH [OF Suc.prems] by simp
qed auto

text \<open>Slewing towards a constant target moves monotonically towards it, by at most the bound
  per step, never past it, and arrives: after n steps the velocity is the target as soon as n
  times the bound covers the initial distance.\<close>

theorem slew_converges:
  assumes "0 \<le> d"
  shows "\<exists>v. slew_steps n (Fin c) (Fin t) (Fin d) = Inr (Fin v)
    \<and> (if \<bar>t - c\<bar> \<le> of_nat n * d then v = t else \<bar>t - v\<bar> = \<bar>t - c\<bar> - of_nat n * d)
    \<and> min c t \<le> v \<and> v \<le> max c t"
proof -
  have "0 \<le> of_nat n * d" using assms by simp
  then show ?thesis unfolding slew_steps_value [OF assms] by (auto simp: abs_if min_def max_def split: if_splits)
qed

theorem slew_converges_witness:
  "\<exists>v. slew_steps 3 (Fin 0) (Fin 2) (Fin 1) = Inr (Fin v) \<and> v = 2"
  using slew_converges [of 1 3 0 2] by simp

section \<open>Ramp of the gripper\<close>

text \<open>Whatever the pads and the contact force report, one ramp step never moves the applied
  gripper target past the command nor away from it, and by at most the slew bound; an opening
  command always moves by the full bound, so that a release is never held back.\<close>

theorem ramp_bounded:
  assumes "rc_slew cfg = Fin s" and "0 < s" and "0 \<le> dt"
    and "rc_max_lead cfg = Fin lead" and "isfinite (rc_stall_speed cfg)"
    and "case ri_pad inp of None \<Rightarrow> True | Some p \<Rightarrow> isfinite p"
  shows "\<exists>v. ramp_target cfg inp (Fin dt) (Fin c) (Fin g) = Fin v \<and> min c g \<le> v \<and> v \<le> max c g
    \<and> \<bar>v - c\<bar> \<le> s * dt \<and> (g \<le> c \<longrightarrow> v = max g (c - s * dt))"
proof -
  define m where "m = s * dt"
  have m: "0 \<le> m" using assms(2,3) by (simp add: m_def)
  define t where "t = c + max (- m) (min m (g - c))"
  have t: "fadd (Fin c) (pymax (fneg (Fin m)) (pymin (Fin m) (fsub (Fin g) (Fin c)))) = Fin t"
    by (auto simp: t_def pymax_def pymin_def max_def min_def)
  have bt: "min c g \<le> t" "t \<le> max c g" "\<bar>t - c\<bar> \<le> m" "g \<le> c \<longrightarrow> t = max g (c - m)"
    using m unfolding t_def by (auto simp: min_def max_def abs_if)
  define t1 where "t1 = (if flt (Fin c) (Fin g) \<and> flt (Fin 0) (Fin lead)
       then (case (ri_pad inp, ri_speed inp) of
               (Some pad, Some speed) \<Rightarrow>
                 if fle speed (rc_stall_speed cfg)
                 then pymax (Fin c) (pymin (Fin t) (fadd pad (Fin lead)))
                 else Fin t
             | _ \<Rightarrow> Fin t)
       else Fin t)"
  have t1: "\<exists>v. t1 = Fin v \<and> min c g \<le> v \<and> v \<le> max c g \<and> \<bar>v - c\<bar> \<le> m \<and> (g \<le> c \<longrightarrow> v = t)"
  proof (cases "c < g \<and> 0 < lead")
    case True
    have "\<exists>v. pymax (Fin c) (pymin (Fin t) (fadd pad (Fin lead))) = Fin v \<and> c \<le> v \<and> v \<le> t"
      if "ri_pad inp = Some pad" for pad
    proof -
      have "c \<le> t" using True m by (simp add: t_def)
      moreover have "isfinite pad" using assms(6) that by simp
      then obtain r where "pad = Fin r" by blast
      ultimately show ?thesis by (auto simp: pymax_def pymin_def)
    qed
    moreover have "c \<le> t \<and> t \<le> g" using True m by (simp add: t_def min_def max_def)
    ultimately show ?thesis using True bt unfolding t1_def
      by (fastforce split: option.split)
  next
    case False
    then have "t1 = Fin t" unfolding t1_def by (simp only: flt.simps if_False)
    then show ?thesis using bt by simp
  qed
  have "ramp_target cfg inp (Fin dt) (Fin c) (Fin g) =
      (if flt (Fin c) (Fin g) \<and> flt (Fin 0) (rc_halt_force cfg) \<and> fle (rc_halt_force cfg) (ri_grip_force inp)
       then Fin c else t1)"
    unfolding ramp_target_def Let_def assms(1,4) fmul.simps m_def [symmetric] t t1_def
    using assms(2) by simp
  then show ?thesis using t1 bt(4) m by (auto simp: m_def)
qed


theorem ramp_bounded_witness:
  "\<exists>v. ramp_target \<lparr>rc_slew = Fin 1, rc_max_lead = Fin 0, rc_stall_speed = Fin 0, rc_halt_force = Fin 0\<rparr>
       \<lparr>ri_pad = None, ri_speed = None, ri_grip_force = Fin 0\<rparr> (Fin 1) (Fin 5) (Fin 2) = Fin v \<and> v = 4"
  using ramp_bounded [of "\<lparr>rc_slew = Fin 1, rc_max_lead = Fin 0, rc_stall_speed = Fin 0, rc_halt_force = Fin 0\<rparr>"
      1 1 0 "\<lparr>ri_pad = None, ri_speed = None, ri_grip_force = Fin 0\<rparr>" 5 2]
  by auto

section \<open>The referee hold\<close>

fun feed_targets :: "rat list \<Rightarrow> referee_hold \<Rightarrow> referee_hold" where
  "feed_targets [] h = h"
| "feed_targets (t # ts) h = feed_targets ts (hold_on_drive_target (Fin t) h)"

text \<open>Whether some target of the list drops far enough below the largest one before it.\<close>

fun opens :: "rat \<Rightarrow> rat list \<Rightarrow> bool" where
  "opens peak [] = False"
| "opens peak (t # ts) = (t < peak - 5 / 100 \<or> opens (max peak t) ts)"

lemma feed_released: "rh_path h = None \<Longrightarrow> feed_targets ts h = h"
  by (induction ts) (simp_all add: hold_on_drive_target_def held_def)

lemma feed_held:
  "rh_path h = Some p \<Longrightarrow> rh_peak h = Some (Fin peak) \<Longrightarrow>
   rh_path (feed_targets ts h) = (if opens peak ts then None else Some p)"
proof (induction ts arbitrary: peak h)
  case (Cons t ts)
  have h: "held h" using Cons.prems by (simp add: held_def)
  show ?case
  proof (cases "t < peak - 5 / 100")
    case True
    then have "rh_path (hold_on_drive_target (Fin t) h) = None"
      using h Cons.prems
      by (simp add: hold_on_drive_target_def on_drive_target_def rh_clear_def OPEN_DELTA_RAD_def)
    with True show ?thesis by (simp add: feed_released)
  next
    case False
    then have "rh_path (hold_on_drive_target (Fin t) h) = Some p"
      "rh_peak (hold_on_drive_target (Fin t) h) = Some (Fin (max peak t))"
      using h Cons.prems
      by (auto simp: hold_on_drive_target_def on_drive_target_def OPEN_DELTA_RAD_def)
    from Cons.IH [OF this] False show ?thesis by simp
  qed
qed simp

text \<open>After a hand-off the object stays held through any sequence of commanded gripper targets
  until one drops more than 0.05 rad below the most closed target commanded so far: closing
  further or repeating a target never releases it, and a release is final.\<close>

theorem hold_released_iff_opened:
  "rh_path (feed_targets ts (rh_attach p (Some (Fin peak)) h)) = (if opens peak ts then None else Some p)"
  by (rule feed_held) (simp_all add: rh_attach_def)

section \<open>Atomic snapshots\<close>

text \<open>What the actuators see of the backend, and what a staged packet must not change.\<close>

definition targets :: "backend \<Rightarrow> pyfloat list \<times> pyfloat list \<times> pyfloat list \<times> pyfloat option \<times> referee_hold \<times> pyfloat" where
  "targets b = (bk_positions b, bk_velocities b, bk_efforts b, bk_drive_target b, bk_hold b, bk_effort_limit b)"

definition valid_for :: "backend \<Rightarrow> joint_command \<Rightarrow> bool" where
  "valid_for b c \<longleftrightarrow> validate_backend_command b c = Inr ()"

lemma valid_for_cong:
  assumes "bk_index b' = bk_index b"
  shows "valid_for b' c = valid_for b c"
  unfolding valid_for_def validate_backend_command_def assms ..

lemma validate_all_ok: "list_all (valid_for b) cs \<Longrightarrow> validate_all b cs = Inr ()"
  by (induction cs) (simp_all add: valid_for_def)

definition packet_id :: "int \<Rightarrow> int \<Rightarrow> int \<Rightarrow> pyval" where
  "packet_id s n i = PInt (2 ^ 63 + s * 2 ^ 32 + n * 2 ^ 16 + i)"

lemma decode_packet_id:
  "0 \<le> s \<Longrightarrow> s < 2 ^ 31 \<Longrightarrow> 1 \<le> i \<Longrightarrow> i \<le> n \<Longrightarrow> n < 2 ^ 16 \<Longrightarrow>
   decode_snapshot_packet (packet_id s n i) = Inr (s, n, i)"
  unfolding packet_id_def by (rule decode_packet_marked)

text \<open>Packets \<open>i\<close>, \<open>i + 1\<close>, ... of the snapshot \<open>s\<close> of \<open>n\<close> packets, as the simulator's gateway
  forwards them.\<close>

fun feed :: "int \<Rightarrow> int \<Rightarrow> int \<Rightarrow> joint_command list \<Rightarrow> backend \<Rightarrow> backend \<times> bool list res" where
  "feed s n i [] b = (b, Inr [])"
| "feed s n i (c # cs) b =
     (case begin_command_snapshot (packet_id s n i) b of
        (b1, Inl e) \<Rightarrow> (b1, Inl e)
      | (b1, Inr _) \<Rightarrow>
          (case command_joints c b1 of
             (b2, Inl e) \<Rightarrow> (b2, Inl e)
           | (b2, Inr r) \<Rightarrow>
               (case feed s n (i + 1) cs b2 of
                  (b3, Inl e) \<Rightarrow> (b3, Inl e)
                | (b3, Inr rs) \<Rightarrow> (b3, Inr (r # rs)))))"

definition staging :: "int \<Rightarrow> int \<Rightarrow> int \<Rightarrow> joint_command list \<Rightarrow> backend \<Rightarrow> backend" where
  "staging s n k cs b = b\<lparr>bk_pending := Some s, bk_pending_count := n, bk_pending_index := k, bk_staged := cs\<rparr>"

lemma staging_simps [simp]:
  "bk_stopped (staging s n k cs b) = bk_stopped b" "bk_index (staging s n k cs b) = bk_index b"
  "bk_snapshot (staging s n k cs b) = bk_snapshot b" "bk_pending (staging s n k cs b) = Some s"
  "bk_pending_count (staging s n k cs b) = n" "bk_pending_index (staging s n k cs b) = k"
  "bk_staged (staging s n k cs b) = cs" "targets (staging s n k cs b) = targets b"
  "staging s n k' cs' (staging s n k cs b) = staging s n k' cs' b"
  by (simp_all add: staging_def targets_def)

lemma begin_next:
  assumes "0 \<le> s" "s < 2 ^ 31" "2 \<le> n" "n < 2 ^ 16" "0 \<le> k" "k < n"
    "case bk_snapshot b of None \<Rightarrow> True | Some c \<Rightarrow> c < s"
  shows "begin_command_snapshot (packet_id s n (k + 1)) (staging s n k cs b)
       = (staging s n (k + 1) cs b, Inr ())"
proof -
  have "decode_snapshot_packet (packet_id s n (k + 1)) = Inr (s, n, k + 1)"
    using assms by (intro decode_packet_id) simp_all
  then show ?thesis using assms(3,7)
    by (cases "bk_snapshot b") (simp_all add: begin_command_snapshot_def Let_def, simp_all add: staging_def)
qed

lemma begin_first:
  assumes "0 \<le> s" "s < 2 ^ 31" "2 \<le> n" "n < 2 ^ 16" "bk_pending b = None"
    "case bk_snapshot b of None \<Rightarrow> True | Some c \<Rightarrow> c < s"
  shows "begin_command_snapshot (packet_id s n 1) b = (staging s n 1 [] b, Inr ())"
proof -
  have "decode_snapshot_packet (packet_id s n 1) = Inr (s, n, 1)"
    using assms by (intro decode_packet_id) simp_all
  then show ?thesis using assms(3,5,6)
    by (cases "bk_snapshot b") (simp_all add: begin_command_snapshot_def staging_def start_pending_def Let_def)
qed

lemma command_staged:
  assumes "\<not> bk_stopped b" "valid_for b c" "k < n"
  shows "command_joints c (staging s n k cs b) = (staging s n k (cs @ [c]) b, Inr True)"
proof -
  have "valid_for (staging s n k cs b) c"
    using assms(2) valid_for_cong [of "staging s n k cs b" b c] by simp
  then show ?thesis using assms by (simp add: command_joints_def valid_for_def staging_def)
qed

lemma feed_staging:
  assumes "0 \<le> s" "s < 2 ^ 31" "2 \<le> n" "n < 2 ^ 16" "\<not> bk_stopped b"
    "case bk_snapshot b of None \<Rightarrow> True | Some c \<Rightarrow> c < s"
    "list_all (valid_for b) cs" "0 \<le> k" "k + int (length cs) < n"
  shows "feed s n (k + 1) cs (staging s n k xs b)
       = (staging s n (k + int (length cs)) (xs @ cs) b, Inr (replicate (length cs) True))"
  using assms(7-9)
proof (induction cs arbitrary: k xs)
  case (Cons c cs)
  have b: "begin_command_snapshot (packet_id s n (k + 1)) (staging s n k xs b) = (staging s n (k + 1) xs b, Inr ())"
    by (rule begin_next) (use assms Cons.prems in auto)
  have c: "command_joints c (staging s n (k + 1) xs b) = (staging s n (k + 1) (xs @ [c]) b, Inr True)"
    by (rule command_staged) (use assms Cons.prems in auto)
  have "feed s n (k + 1 + 1) cs (staging s n (k + 1) (xs @ [c]) b)
      = (staging s n (k + 1 + int (length cs)) ((xs @ [c]) @ cs) b, Inr (replicate (length cs) True))"
    by (rule Cons.IH) (use Cons.prems in auto)
  then show ?case using b c by (simp add: algebra_simps)
qed simp

lemma feed_prefix:
  assumes "0 \<le> s" "s < 2 ^ 31" "2 \<le> n" "n < 2 ^ 16" "\<not> bk_stopped b" "bk_pending b = None"
    "case bk_snapshot b of None \<Rightarrow> True | Some c \<Rightarrow> c < s"
    "list_all (valid_for b) (c # cs)" "1 + int (length cs) < n"
  shows "feed s n 1 (c # cs) b
       = (staging s n (1 + int (length cs)) (c # cs) b, Inr (replicate (Suc (length cs)) True))"
proof -
  have "command_joints c (staging s n 1 [] b) = (staging s n 1 ([] @ [c]) b, Inr True)"
    by (rule command_staged) (use assms in auto)
  moreover have "feed s n (1 + 1) cs (staging s n 1 [c] b)
      = (staging s n (1 + int (length cs)) ([c] @ cs) b, Inr (replicate (length cs) True))"
    by (rule feed_staging) (use assms in auto)
  ultimately show ?thesis using begin_first [OF assms(1-4,6,7)] by simp
qed

lemma command_last:
  assumes "\<not> bk_stopped b" "list_all (valid_for b) (xs @ [c])"
  shows "command_joints c (staging s n n xs b) =
     (let b1 = staging s n n (xs @ [c]) b in
      case apply_all (xs @ [c]) (b1\<lparr>bk_velocities := zeros (bk_velocities b), bk_efforts := zeros (bk_efforts b)\<rparr>) of
        (b3, Inl e) \<Rightarrow> (b3, Inl e)
      | (b3, Inr _) \<Rightarrow> (clear_pending (b3\<lparr>bk_snapshot := Some s\<rparr>), Inr True))"
proof -
  have "valid_for (staging s n n xs b) c"
    using assms(2) valid_for_cong [of "staging s n n xs b" b c] by simp
  moreover have "validate_all (staging s n n (xs @ [c]) b) (xs @ [c]) = Inr ()"
  proof (rule validate_all_ok)
    have "valid_for (staging s n n (xs @ [c]) b) = valid_for b"
      by (rule ext, rule valid_for_cong) simp
    then show "list_all (valid_for (staging s n n (xs @ [c]) b)) (xs @ [c])" using assms(2) by (simp only:)
  qed
  moreover have "(staging s n n xs b)\<lparr>bk_staged := xs @ [c]\<rparr> = staging s n n (xs @ [c]) b"
    by (simp add: staging_def)
  ultimately show ?thesis using assms(1)
    by (simp add: command_joints_def valid_for_def Let_def, simp add: staging_def)
qed


text \<open>Applying commands does not look at the staging.\<close>

lemma effort_staging:
  "set_gripper_effort_limit e (staging s n k xs b) =
     (case set_gripper_effort_limit e b of (b', r) \<Rightarrow> (staging s n k xs b', r))"
  by (cases "bk_index b ''drive_joint''")
    (simp_all add: set_gripper_effort_limit_def staging_def Let_def)

lemma gather_one_staging:
  "gather_one c j name (staging s n k xs b, ps, vs) =
     (case gather_one c j name (b, ps, vs) of ((b', ps', vs'), r) \<Rightarrow> ((staging s n k xs b', ps', vs'), r))"
proof (cases "bk_index b name")
  case None
  then show ?thesis by (simp add: gather_one_def)
next
  case (Some i)
  define moves where "moves \<longleftrightarrow> jc_positions c \<noteq> [] \<and> isfinite (jc_positions c ! j)"
  define b1 where "b1 = (if moves \<and> name = ''drive_joint''
      then b\<lparr>bk_drive_target := Some (jc_positions c ! j),
             bk_hold := hold_on_drive_target (jc_positions c ! j) (bk_hold b)\<rparr> else b)"
  have b1': "(if moves \<and> name = ''drive_joint''
      then (staging s n k xs b)\<lparr>bk_drive_target := Some (jc_positions c ! j),
             bk_hold := hold_on_drive_target (jc_positions c ! j) (bk_hold (staging s n k xs b))\<rparr>
      else staging s n k xs b) = staging s n k xs b1"
    by (simp add: b1_def staging_def)
  obtain b2 r where e: "set_gripper_effort_limit (jc_efforts c ! j) b1 = (b2, r)" by (metis prod.exhaust)
  show ?thesis
    unfolding gather_one_def Let_def prod.case staging_simps(2) Some option.case moves_def [symmetric]
      b1' b1_def [symmetric]
    by (cases "jc_efforts c \<noteq> [] \<and> name = ''drive_joint''")
      (simp_all only: if_True if_False simp_thms effort_staging e prod.case)
qed

lemma gather_staging:
  "gather c j names (staging s n k xs b, ps, vs) =
     (case gather c j names (b, ps, vs) of ((b', ps', vs'), r) \<Rightarrow> ((staging s n k xs b', ps', vs'), r))"
proof (induction names arbitrary: j b ps vs)
  case (Cons name names)
  obtain b' ps' vs' r where g: "gather_one c j name (b, ps, vs) = ((b', ps', vs'), r)"
    by (metis prod.exhaust)
  have "gather_one c j name (staging s n k xs b, ps, vs) = ((staging s n k xs b', ps', vs'), r)"
    using gather_one_staging [of c j name s n k xs b ps vs] g by simp
  then show ?case using g Cons.IH [of "Suc j" b' ps' vs'] by (cases r) simp_all
qed simp

lemma apply_staging:
  "apply_joint_command c (staging s n k xs b) =
     (case apply_joint_command c b of (b', r) \<Rightarrow> (staging s n k xs b', r))"
proof -
  obtain b' ps vs r where g: "gather c 0 (jc_names c) (b, [], []) = ((b', ps, vs), r)"
    by (metis prod.exhaust)
  have "gather c 0 (jc_names c) (staging s n k xs b, [], []) = ((staging s n k xs b', ps, vs), r)"
    using gather_staging [of c 0 "jc_names c" s n k xs b "[]" "[]"] g by simp
  then show ?thesis using g by (cases r) (simp_all add: apply_joint_command_def staging_def)
qed

lemma apply_all_staging:
  "apply_all cs (staging s n k xs b) = (case apply_all cs b of (b', r) \<Rightarrow> (staging s n k xs b', r))"
proof (induction cs arbitrary: b)
  case (Cons c cs)
  obtain b' r where a: "apply_joint_command c b = (b', r)" by (metis prod.exhaust)
  then show ?case using apply_staging [of c s n k xs b] Cons.IH [of b'] by (cases r) simp_all
qed simp

text \<open>A validated command is applied without an exception.\<close>

lemma gather_one_total:
  assumes "bk_index b name \<noteq> None"
    "jc_efforts c \<noteq> [] \<and> name = ''drive_joint'' \<longrightarrow>
       isfinite (jc_efforts c ! k) \<and> \<not> flt (jc_efforts c ! k) (Fin 0)"
  shows "\<exists>b' ps' vs'. gather_one c k name (b, ps, vs) = ((b', ps', vs'), Inr ()) \<and> bk_index b' = bk_index b
     \<and> bk_stopped b' = bk_stopped b \<and> bk_snapshot b' = bk_snapshot b"
proof -
  obtain i where i: "bk_index b name = Some i" using assms(1) by auto
  show ?thesis
  proof (cases "jc_efforts c \<noteq> [] \<and> name = ''drive_joint''")
    case True
    then show ?thesis using i assms(2)
      by (simp add: gather_one_def set_gripper_effort_limit_def Let_def)
  next
    case False
    then show ?thesis using i unfolding gather_one_def Let_def prod.case i option.case
      by (simp only: if_False) simp
  qed
qed

lemma gather_total:
  assumes "\<And>j. j < length names \<Longrightarrow> bk_index b (names ! j) \<noteq> None"
    "\<And>j. j < length names \<Longrightarrow> jc_efforts c \<noteq> [] \<Longrightarrow> names ! j = ''drive_joint'' \<Longrightarrow>
       isfinite (jc_efforts c ! (k + j)) \<and> \<not> flt (jc_efforts c ! (k + j)) (Fin 0)"
  shows "\<exists>b' ps' vs'. gather c k names (b, ps, vs) = ((b', ps', vs'), Inr ()) \<and> bk_index b' = bk_index b
     \<and> bk_stopped b' = bk_stopped b \<and> bk_snapshot b' = bk_snapshot b"
  using assms
proof (induction names arbitrary: k b ps vs)
  case (Cons name names)
  obtain b1 ps1 vs1 where g: "gather_one c k name (b, ps, vs) = ((b1, ps1, vs1), Inr ())"
    "bk_index b1 = bk_index b" "bk_stopped b1 = bk_stopped b" "bk_snapshot b1 = bk_snapshot b"
    using gather_one_total [of b name c k ps vs] Cons.prems(1) [of 0] Cons.prems(2) [of 0] by auto
  have "\<exists>b' ps' vs'. gather c (Suc k) names (b1, ps1, vs1) = ((b', ps', vs'), Inr ()) \<and> bk_index b' = bk_index b1
     \<and> bk_stopped b' = bk_stopped b1 \<and> bk_snapshot b' = bk_snapshot b1"
  proof (rule Cons.IH)
    show "bk_index b1 (names ! j) \<noteq> None" if "j < length names" for j
      using Cons.prems(1) [of "Suc j"] that g(2) by simp
    show "isfinite (jc_efforts c ! (Suc k + j)) \<and> \<not> flt (jc_efforts c ! (Suc k + j)) (Fin 0)"
      if "j < length names" "jc_efforts c \<noteq> []" "names ! j = ''drive_joint''" for j
      using Cons.prems(2) [of "Suc j"] that by simp
  qed
  then show ?case using g by auto
qed simp

lemma index_of_nth: "distinct xs \<Longrightarrow> j < length xs \<Longrightarrow> index_of (xs ! j) xs = j"
proof (induction xs arbitrary: j)
  case (Cons x xs)
  then show ?case by (cases j) (auto simp: index_of_def)
qed simp

lemma valid_for_iff:
  "valid_for b c \<longleftrightarrow> valid_command c \<and> (\<forall>n \<in> set (jc_names c). bk_index b n \<noteq> None)
     \<and> \<not> (jc_efforts c \<noteq> [] \<and> ''drive_joint'' \<in> set (jc_names c)
           \<and> flt (jc_efforts c ! index_of ''drive_joint'' (jc_names c)) (Fin 0))"
proof -
  define unknown where "unknown = sort (filter (\<lambda>n. bk_index b n = None) (remdups (jc_names c)))"
  have "unknown = [] \<longleftrightarrow> set unknown = {}" by simp
  then have u: "unknown = [] \<longleftrightarrow> (\<forall>n \<in> set (jc_names c). bk_index b n \<noteq> None)"
    by (auto simp: unknown_def filter_empty_conv)
  show ?thesis using jc_validate_cases [of c]
    by (auto simp: valid_for_def validate_backend_command_def unknown_def [symmetric] Let_def u valid_command_def
        split: if_splits)
qed

lemma apply_total:
  assumes "valid_for b c"
  shows "\<exists>b'. apply_joint_command c b = (b', Inr ()) \<and> bk_index b' = bk_index b
     \<and> bk_stopped b' = bk_stopped b \<and> bk_snapshot b' = bk_snapshot b"
proof -
  note v = assms [unfolded valid_for_iff]
  have "\<exists>b' ps' vs'. gather c 0 (jc_names c) (b, [], []) = ((b', ps', vs'), Inr ()) \<and> bk_index b' = bk_index b
     \<and> bk_stopped b' = bk_stopped b \<and> bk_snapshot b' = bk_snapshot b"
  proof (rule gather_total)
    fix j assume j: "j < length (jc_names c)"
    then show "bk_index b (jc_names c ! j) \<noteq> None" using v by simp
    assume e: "jc_efforts c \<noteq> []" "jc_names c ! j = ''drive_joint''"
    have "index_of ''drive_joint'' (jc_names c) = j"
      using index_of_nth [of "jc_names c" j] v j e(2) by (simp add: valid_command_iff)
    moreover have "''drive_joint'' \<in> set (jc_names c)" using j e(2) by (metis nth_mem)
    moreover have "isfinite (jc_efforts c ! j)"
      using v j e(1) by (auto simp: valid_command_iff values_ok_def list_all_length)
    ultimately show "isfinite (jc_efforts c ! (0 + j)) \<and> \<not> flt (jc_efforts c ! (0 + j)) (Fin 0)"
      using v e(1) by simp
  qed
  then show ?thesis by (auto simp: apply_joint_command_def)
qed

lemma apply_all_total:
  "list_all (valid_for b) cs \<Longrightarrow> \<exists>b'. apply_all cs b = (b', Inr ()) \<and> bk_index b' = bk_index b
     \<and> bk_stopped b' = bk_stopped b \<and> bk_snapshot b' = bk_snapshot b"
proof (induction cs arbitrary: b)
  case (Cons c cs)
  then obtain b1 where b1: "apply_joint_command c b = (b1, Inr ())" "bk_index b1 = bk_index b"
    "bk_stopped b1 = bk_stopped b" "bk_snapshot b1 = bk_snapshot b"
    using apply_total [of b c] by auto
  have "valid_for b1 = valid_for b" by (rule ext, rule valid_for_cong [OF b1(2)])
  then have "list_all (valid_for b1) cs" using Cons.prems by simp
  from Cons.IH [OF this] b1 show ?case by auto
qed simp


section \<open>Properties of snapshots\<close>

lemma feed_append:
  assumes "feed s n i xs b = (b1, Inr rs)"
  shows "feed s n i (xs @ ys) b = (case feed s n (i + int (length xs)) ys b1 of
      (b2, Inl e) \<Rightarrow> (b2, Inl e) | (b2, Inr rs') \<Rightarrow> (b2, Inr (rs @ rs')))"
  using assms
proof (induction xs arbitrary: i b rs)
  case Nil
  then show ?case by (simp split: prod.split sum.split)
next
  case (Cons x xs)
  obtain ba where ba: "begin_command_snapshot (packet_id s n i) b = (ba, Inr ())"
    using Cons.prems by (auto split: prod.splits sum.splits)
  obtain bb r where bb: "command_joints x ba = (bb, Inr r)"
    using Cons.prems ba by (auto split: prod.splits sum.splits)
  obtain rs1 where r1: "feed s n (i + 1) xs bb = (b1, Inr rs1)" "rs = r # rs1"
    using Cons.prems ba bb by (auto split: prod.splits sum.splits)
  from Cons.IH [OF r1(1)] show ?case using ba bb r1(2)
    by (simp add: algebra_simps split: prod.split sum.split)
qed

definition zeroed :: "backend \<Rightarrow> backend" where
  "zeroed b = b\<lparr>bk_velocities := zeros (bk_velocities b), bk_efforts := zeros (bk_efforts b)\<rparr>"

definition snapshot_ready :: "int \<Rightarrow> backend \<Rightarrow> bool" where
  "snapshot_ready s b \<longleftrightarrow> \<not> bk_stopped b \<and> bk_pending b = None
     \<and> (case bk_snapshot b of None \<Rightarrow> True | Some c \<Rightarrow> c < s)"

lemma feed_whole:
  assumes "0 \<le> s" "s < 2 ^ 31" "n < 2 ^ 16" "snapshot_ready s b"
    "list_all (valid_for b) (cs @ [c])" "cs \<noteq> []" "n = 1 + int (length cs)"
  shows "\<exists>b' rs. feed s n 1 (cs @ [c]) b = (b', Inr rs) \<and> list_all (\<lambda>r. r) rs
    \<and> apply_all (cs @ [c]) (zeroed b) = (fst (apply_all (cs @ [c]) (zeroed b)), Inr ())
    \<and> targets b' = targets (fst (apply_all (cs @ [c]) (zeroed b)))
    \<and> bk_snapshot b' = Some s \<and> bk_pending b' = None \<and> \<not> bk_stopped b'"
proof -
  obtain x xs where cs: "cs = x # xs" using assms(6) by (cases cs) auto
  have r: "\<not> bk_stopped b" "bk_pending b = None" "case bk_snapshot b of None \<Rightarrow> True | Some c \<Rightarrow> c < s"
    using assms(4) by (simp_all add: snapshot_ready_def)
  have pre: "feed s n 1 cs b = (staging s n (int (length cs)) cs b, Inr (replicate (length cs) True))"
    using feed_prefix [OF assms(1,2) _ assms(3) r, of x xs] assms(5,7) cs by simp
  have bg: "begin_command_snapshot (packet_id s n (int (length cs) + 1)) (staging s n (int (length cs)) cs b)
      = (staging s n n cs b, Inr ())"
    using begin_next [OF assms(1,2) _ assms(3), of "int (length cs)" b cs] r(3) assms(6,7)
    by (simp add: cs add.commute)
  have z: "(staging s n n (cs @ [c]) b)\<lparr>bk_velocities := zeros (bk_velocities b), bk_efforts := zeros (bk_efforts b)\<rparr>
      = staging s n n (cs @ [c]) (zeroed b)"
    by (simp add: staging_def zeroed_def)
  have "valid_for (zeroed b) = valid_for b" by (rule ext, rule valid_for_cong) (simp add: zeroed_def)
  then obtain bz where bz: "apply_all (cs @ [c]) (zeroed b) = (bz, Inr ())" "bk_stopped bz = bk_stopped (zeroed b)"
    using apply_all_total [of "zeroed b" "cs @ [c]"] assms(5) by auto
  have "command_joints c (staging s n n cs b)
      = (clear_pending ((staging s n n (cs @ [c]) bz)\<lparr>bk_snapshot := Some s\<rparr>), Inr True)"
    using command_last [where s = s and n = n, OF r(1) assms(5)] unfolding z Let_def apply_all_staging bz by simp
  then have "feed s n 1 (cs @ [c]) b = (clear_pending ((staging s n n (cs @ [c]) bz)\<lparr>bk_snapshot := Some s\<rparr>),
      Inr (replicate (length cs) True @ [True]))"
    unfolding feed_append [OF pre] using bg by (simp add: add.commute)
  moreover have "targets (clear_pending ((staging s n n (cs @ [c]) bz)\<lparr>bk_snapshot := Some s\<rparr>)) = targets bz"
    by (simp add: targets_def clear_pending_def staging_def)
  moreover have "\<not> bk_stopped bz" using bz(2) r(1) by (simp add: zeroed_def)
  moreover have "list_all (\<lambda>r. r) (replicate (length cs) True @ [True])" by (simp add: list_all_iff)
  ultimately show ?thesis using bz(1) by (auto simp: clear_pending_def staging_def)
qed

text \<open>C4: A snapshot of several packets is atomic. While fewer than all of its packets have arrived,
  no target, gripper command, hold or snapshot number of the backend has changed; when the last
  one arrives all packets are applied, in order, to buffers whose velocities and efforts were
  zeroed, and the snapshot is recorded as complete.\<close>

theorem snapshot_atomic:
  assumes "0 \<le> s" and "s < 2 ^ 31" and "n < 2 ^ 16" and "snapshot_ready s b"
    and "list_all (valid_for b) cs" and "2 \<le> length cs" and "n = int (length cs)"
  shows "(\<forall>k < length cs. targets (fst (feed s n 1 (take k cs) b)) = targets b
      \<and> bk_snapshot (fst (feed s n 1 (take k cs) b)) = bk_snapshot b)
    \<and> (\<exists>b' rs. feed s n 1 cs b = (b', Inr rs) \<and> list_all (\<lambda>r. r) rs
 \<and> targets b' = targets (fst (apply_all cs (zeroed b)))
      \<and> bk_snapshot b' = Some s \<and> bk_pending b' = None)"
proof (intro conjI allI impI)
  have r: "\<not> bk_stopped b" "bk_pending b = None" "case bk_snapshot b of None \<Rightarrow> True | Some c \<Rightarrow> c < s"
    using assms(4) by (simp_all add: snapshot_ready_def)
  have prefix: "targets (fst (feed s n 1 (take k cs) b)) = targets b
      \<and> bk_snapshot (fst (feed s n 1 (take k cs) b)) = bk_snapshot b" if "k < length cs" for k
  proof (cases "take k cs")
    case Nil
    show ?thesis unfolding Nil by simp
  next
    case (Cons x xs)
    have len: "1 + int (length xs) < n"
      using that assms(7) arg_cong [OF Cons, of length] by simp
    have "list_all (valid_for b) (take k cs)" using assms(5) by (simp add: list_all_iff) (meson in_set_takeD)
    then have "list_all (valid_for b) (x # xs)" using Cons by simp
    from feed_prefix [OF assms(1,2) _ assms(3) r this len] assms(6,7) show ?thesis by (simp add: Cons)
  qed
  fix k assume "k < length cs"
  from prefix [OF this] show "targets (fst (feed s n 1 (take k cs) b)) = targets b"
    "bk_snapshot (fst (feed s n 1 (take k cs) b)) = bk_snapshot b" by simp_all
next
  obtain ds c where cs: "cs = ds @ [c]" using assms(6) by (cases cs rule: rev_cases) auto
  have "ds \<noteq> []" "n = 1 + int (length ds)" using assms(6,7) cs by auto
  from feed_whole [OF assms(1-4) assms(5) [unfolded cs] this] show "\<exists>b' rs. feed s n 1 cs b = (b', Inr rs)
    \<and> list_all (\<lambda>r. r) rs \<and> targets b' = targets (fst (apply_all cs (zeroed b)))
    \<and> bk_snapshot b' = Some s \<and> bk_pending b' = None"
    unfolding cs by blast
qed

text \<open>A cleared robot of two joints, and a snapshot of two packets.\<close>

definition demo_backend :: backend where
  "demo_backend = \<lparr>bk_stopped = False, bk_names = [''j1'', ''drive_joint''],
     bk_index = [''j1'' \<mapsto> 0, ''drive_joint'' \<mapsto> 1],
     bk_positions = [Fin 0, Fin 0], bk_velocities = [Fin 0, Fin 0], bk_efforts = [Fin 0, Fin 0],
     bk_hold_pose = None, bk_arm = [0], bk_gains_held = False, bk_hold_steps = 0, bk_hold_effort = [],
     bk_wheels = [], bk_applied = Map.empty, bk_drive_target = None,
     bk_hold = \<lparr>rh_path = None, rh_peak = None\<rparr>, bk_effort_limit = Fin 2, bk_effort_ceiling = Fin 2,
     bk_effort_scale = Fin 10, bk_pending = None, bk_pending_count = 0, bk_pending_index = 0,
     bk_staged = [], bk_snapshot = None, bk_force_write = False\<rparr>"

definition demo_commands :: "joint_command list" where
  "demo_commands = [\<lparr>jc_names = [''j1''], jc_positions = [Fin 1], jc_velocities = [], jc_efforts = []\<rparr>,
     \<lparr>jc_names = [''drive_joint''], jc_positions = [Fin (1/2)], jc_velocities = [], jc_efforts = []\<rparr>]"

lemma demo_commands_valid: "list_all (valid_for demo_backend) demo_commands"
  by (simp add: demo_commands_def valid_for_iff valid_command_iff values_ok_def demo_backend_def)

lemma demo_ready: "snapshot_ready 0 demo_backend"
  by (simp add: snapshot_ready_def demo_backend_def)

theorem snapshot_atomic_witness:
  "targets (fst (feed 0 2 1 (take 1 demo_commands) demo_backend)) = targets demo_backend"
proof -
  have len: "length demo_commands = 2" by (simp add: demo_commands_def)
  have "\<forall>k < length demo_commands. targets (fst (feed 0 2 1 (take k demo_commands) demo_backend)) = targets demo_backend
      \<and> bk_snapshot (fst (feed 0 2 1 (take k demo_commands) demo_backend)) = bk_snapshot demo_backend"
    by (rule conjunct1 [OF snapshot_atomic [OF _ _ _ demo_ready demo_commands_valid]]) (simp_all add: len)
  then show ?thesis using len by simp
qed


section \<open>Runs of the backend\<close>

datatype bk_event =
    BkBegin pyval
  | BkCommand joint_command
  | BkDiscard
  | BkStop bool "pyfloat list"
  | BkStep ramp_config ramp_input pyfloat "pyfloat list" hold_reading
  | BkBind robot_view

fun bk_step :: "bk_event \<Rightarrow> backend \<Rightarrow> backend" where
  "bk_step (BkBegin v) b = fst (begin_command_snapshot v b)"
| "bk_step (BkCommand c) b = fst (command_joints c b)"
| "bk_step BkDiscard b = discard_command_snapshot_staging b"
| "bk_step (BkStop a q) b = set_safety_stop q a b"
| "bk_step (BkStep cfg inp dt q hr) b = fst (step_targets cfg inp dt q hr b)"
| "bk_step (BkBind rv) b = bind_robot rv b"

definition bk_run :: "bk_event list \<Rightarrow> backend \<Rightarrow> backend" where
  "bk_run = run_events bk_step"

subsection \<open>Stopped\<close>

fun no_release :: "bk_event \<Rightarrow> bool" where
  "no_release (BkStop a q) = a"
| "no_release _ = True"

lemma all_zero_zeros [simp]: "all_zero (zeros xs)"
  by (simp add: all_zero_def zeros_def list_all_iff)

text \<open>\<open>begin_command_snapshot\<close> leaves all but the buffers, the staging and the number alone.\<close>

lemma begin_frame:
  assumes "begin_command_snapshot v b = (b', r)"
  shows "bk_stopped b' = bk_stopped b \<and> bk_positions b' = bk_positions b \<and> bk_hold_pose b' = bk_hold_pose b
     \<and> bk_index b' = bk_index b \<and> bk_arm b' = bk_arm b \<and> bk_names b' = bk_names b
     \<and> bk_gains_held b' = bk_gains_held b \<and> bk_hold_steps b' = bk_hold_steps b \<and> bk_hold_effort b' = bk_hold_effort b
     \<and> bk_drive_target b' = bk_drive_target b
     \<and> (bk_velocities b' = bk_velocities b \<or> bk_velocities b' = zeros (bk_velocities b))
     \<and> (bk_efforts b' = bk_efforts b \<or> bk_efforts b' = zeros (bk_efforts b))"
proof (cases "decode_snapshot_packet v")
  case (Inl e)
  then show ?thesis using assms by (simp add: begin_command_snapshot_def)
next
  case (Inr lni)
  obtain l n i where lni: "lni = (l, n, i)" by (metis prod.exhaust)
  show ?thesis using assms Inr unfolding begin_command_snapshot_def lni
    by (auto simp: Let_def clear_pending_def start_pending_def split: if_splits)
qed

text \<open>The pose a stop holds: the one measured when it was engaged, or when the robot was bound anew since.\<close>

fun latched :: "pyfloat list \<Rightarrow> bk_event list \<Rightarrow> pyfloat list" where
  "latched q [] = q"
| "latched q (BkBind rv # es) = latched (rv_pos rv) es"
| "latched q (e # es) = latched q es"

fun reading_of :: "bk_event \<Rightarrow> hold_reading list" where
  "reading_of (BkStep cfg inp dt q hr) = [hr]"
| "reading_of _ = []"

definition readings :: "bk_event list \<Rightarrow> hold_reading list" where
  "readings es = concat (map reading_of es)"

text \<open>The efforts that readings \<open>R\<close> of the gravity forces give the hold of \<open>b\<close>.\<close>

definition fed_forward :: "hold_reading set \<Rightarrow> backend \<Rightarrow> pyfloat list \<Rightarrow> bool" where
  "fed_forward R b efforts \<longleftrightarrow> (\<exists>hr\<in>R. compute_safety_efforts hr b = Inr efforts)"

definition holding :: "pyfloat list \<Rightarrow> hold_reading set \<Rightarrow> backend \<Rightarrow> bool" where
  "holding q R b \<longleftrightarrow> bk_stopped b \<and> bk_positions b = q \<and> bk_hold_pose b = Some q
     \<and> all_zero (bk_velocities b) \<and> (all_zero (bk_efforts b) \<or> fed_forward R b (bk_efforts b))
     \<and> (bk_gains_held b \<and> bk_hold_steps b \<noteq> 0 \<longrightarrow> fed_forward R b (bk_hold_effort b))"

lemma compute_length: "compute_safety_efforts hr b = Inr es \<Longrightarrow> length es = length (bk_efforts b)"
proof -
  have len: "length (write_targets ws xs) = length xs" for ws xs
    by (induction ws xs rule: write_targets.induct) simp_all
  show "compute_safety_efforts hr b = Inr es \<Longrightarrow> length es = length (bk_efforts b)"
    by (auto simp: compute_safety_efforts_def Let_def len zeros_def split: if_splits sum.splits)
qed

text \<open>The hold's efforts depend on the arm and the joints only.\<close>

lemma compute_cong:
  assumes "bk_arm b = bk_arm b'" "bk_names b = bk_names b'" "length (bk_efforts b) = length (bk_efforts b')"
    "bk_hold_pose b = None \<longleftrightarrow> bk_hold_pose b' = None"
  shows "compute_safety_efforts hr b = compute_safety_efforts hr b'"
proof -
  have "zeros (bk_efforts b) = zeros (bk_efforts b')"
    using assms(3) by (simp add: zeros_def map_replicate_const)
  moreover have "safety_gravity_efforts hr b = safety_gravity_efforts hr b'"
    unfolding safety_gravity_efforts_def assms(1,2) by (rule refl)
  ultimately show ?thesis unfolding compute_safety_efforts_def assms(1) by (simp only: assms(4))
qed

lemma fed_forward_cong:
  assumes "fed_forward R b es" "R \<subseteq> R'" "bk_arm b = bk_arm b'" "bk_names b = bk_names b'"
    "length (bk_efforts b) = length (bk_efforts b')" "bk_hold_pose b = None \<longleftrightarrow> bk_hold_pose b' = None"
  shows "fed_forward R' b' es"
  using assms(1,2) compute_cong [OF assms(3-6)] by (auto simp: fed_forward_def)

text \<open>A repeated sample of the current stop state changes nothing, so a keepalive cannot reset the
  acceleration-limited wheels.\<close>

lemma stop_repeated: "set_safety_stop q (bk_stopped b) b = b"
  by (simp add: set_safety_stop_def)

subsection \<open>Numbers never go back\<close>

fun snapshot_le :: "int option \<Rightarrow> int option \<Rightarrow> bool" where
  "snapshot_le None _ = True"
| "snapshot_le (Some a) None = False"
| "snapshot_le (Some a) (Some b) = (a \<le> b)"

lemma snapshot_le_refl [simp]: "snapshot_le a a"
  by (cases a) simp_all

lemma snapshot_le_trans: "snapshot_le a b \<Longrightarrow> snapshot_le b c \<Longrightarrow> snapshot_le a c"
  by (cases a; cases b; cases c) simp_all

definition pending_inv :: "backend \<Rightarrow> bool" where
  "pending_inv b \<longleftrightarrow> (case bk_pending b of None \<Rightarrow> True | Some p \<Rightarrow> snapshot_le (bk_snapshot b) (Some p))"

lemma gather_one_frame:
  assumes "gather_one c k name (b, ps, vs) = ((b', ps', vs'), r)"
  shows "bk_snapshot b' = bk_snapshot b \<and> bk_pending b' = bk_pending b \<and> bk_stopped b' = bk_stopped b
    \<and> bk_gains_held b' = bk_gains_held b"
proof -
  have eff: "bk_snapshot b2 = bk_snapshot b1 \<and> bk_pending b2 = bk_pending b1 \<and> bk_stopped b2 = bk_stopped b1
      \<and> bk_gains_held b2 = bk_gains_held b1"
    if "set_gripper_effort_limit e b1 = (b2, r2)" for e b1 b2 r2
    using that by (auto simp: set_gripper_effort_limit_def Let_def split: if_splits option.splits)
  show ?thesis
  proof (cases "bk_index b name")
    case None
    then show ?thesis using assms by (simp add: gather_one_def)
  next
    case (Some i)
    show ?thesis
    proof (cases "jc_efforts c \<noteq> [] \<and> name = ''drive_joint''")
      case True
      then show ?thesis using assms Some unfolding gather_one_def Let_def prod.case option.case
        by (auto dest!: eff split: prod.splits if_splits)
    next
      case False
      then show ?thesis using assms Some unfolding gather_one_def Let_def prod.case
        by (simp only: option.case if_False) (auto split: if_splits)
    qed
  qed
qed

lemma gather_frame:
  "gather c k names (b, ps, vs) = ((b', ps', vs'), r) \<Longrightarrow>
     bk_snapshot b' = bk_snapshot b \<and> bk_pending b' = bk_pending b \<and> bk_stopped b' = bk_stopped b
     \<and> bk_gains_held b' = bk_gains_held b"
proof (induction names arbitrary: k b ps vs)
  case (Cons name names)
  obtain b1 ps1 vs1 r1 where g: "gather_one c k name (b, ps, vs) = ((b1, ps1, vs1), r1)" by (metis prod.exhaust)
  show ?case
  proof (cases r1)
    case (Inl e)
    then show ?thesis using Cons.prems g gather_one_frame [OF g] by simp
  next
    case (Inr u)
    then have "gather c (Suc k) names (b1, ps1, vs1) = ((b', ps', vs'), r)" using Cons.prems g by simp
    from Cons.IH [OF this] gather_one_frame [OF g] show ?thesis by simp
  qed
qed simp

lemma apply_frame:
  assumes "apply_joint_command c b = (b', r)"
  shows "bk_snapshot b' = bk_snapshot b \<and> bk_pending b' = bk_pending b \<and> bk_stopped b' = bk_stopped b
    \<and> bk_gains_held b' = bk_gains_held b"
proof -
  obtain b1 ps vs r1 where g: "gather c 0 (jc_names c) (b, [], []) = ((b1, ps, vs), r1)" by (metis prod.exhaust)
  show ?thesis using assms g gather_frame [OF g] by (cases r1) (auto simp: apply_joint_command_def)
qed

lemma apply_all_frame:
  "apply_all cs b = (b', r) \<Longrightarrow>
     bk_snapshot b' = bk_snapshot b \<and> bk_pending b' = bk_pending b \<and> bk_stopped b' = bk_stopped b
     \<and> bk_gains_held b' = bk_gains_held b"
proof (induction cs arbitrary: b)
  case (Cons c cs)
  obtain b1 r1 where a: "apply_joint_command c b = (b1, r1)" by (metis prod.exhaust)
  then show ?case using Cons apply_frame [OF a] by (cases r1) auto
qed simp


text \<open>A packet of an older snapshot is refused without any change.\<close>

lemma begin_older:
  assumes "decode_snapshot_packet v = Inr (l, n, i)" "bk_snapshot b = Some c" "l < c"
  shows "fst (begin_command_snapshot v b) = b \<and> \<not> is_ok (snd (begin_command_snapshot v b))"
  using assms by (simp add: begin_command_snapshot_def)

lemma begin_snapshot:
  assumes "begin_command_snapshot v b = (b', r)" "pending_inv b"
  shows "snapshot_le (bk_snapshot b) (bk_snapshot b') \<and> pending_inv b'"
proof (cases "decode_snapshot_packet v")
  case (Inl e)
  then show ?thesis using assms by (simp add: begin_command_snapshot_def)
next
  case (Inr lni)
  obtain l n i where lni: "lni = (l, n, i)" by (metis prod.exhaust)
  show ?thesis
  proof (cases "case bk_snapshot b of None \<Rightarrow> False | Some c \<Rightarrow> l < c")
    case True
    then show ?thesis using assms Inr lni by (simp add: begin_command_snapshot_def)
  next
    case False
    then have le: "snapshot_le (bk_snapshot b) (Some l)" by (cases "bk_snapshot b") simp_all
    show ?thesis
    proof (cases "n = 1")
      case True
      then show ?thesis using assms Inr lni False le
        by (auto simp: begin_command_snapshot_def pending_inv_def clear_pending_def Let_def split: if_splits)
    next
      case n: False
      show ?thesis using assms Inr lni False le n unfolding begin_command_snapshot_def
        by (auto simp: pending_inv_def start_pending_def Let_def split: if_splits)
    qed
  qed
qed

lemma command_snapshot:
  assumes "command_joints c b = (b', r)" "pending_inv b"
  shows "snapshot_le (bk_snapshot b) (bk_snapshot b') \<and> pending_inv b'"
proof (cases "bk_stopped b \<or> \<not> valid_for b c")
  case True
  then show ?thesis using assms
    by (cases "validate_backend_command b c")
      (auto simp: command_joints_def valid_for_def pending_inv_def clear_pending_def split: if_splits)
next
  case False
  then have ok: "validate_backend_command b c = Inr ()" "\<not> bk_stopped b" by (simp_all add: valid_for_def)
  show ?thesis
  proof (cases "bk_pending b")
    case None
    obtain b1 r1 where a: "apply_joint_command c b = (b1, r1)" by (metis prod.exhaust)
    then have "b' = b1" using assms(1) ok None by (cases r1) (simp_all add: command_joints_def)
    then show ?thesis using apply_frame [OF a] None by (simp add: pending_inv_def)
  next
    case (Some p)
    let ?b1 = "b\<lparr>bk_staged := bk_staged b @ [c]\<rparr>"
    have le: "snapshot_le (bk_snapshot b) (Some p)" using assms(2) Some by (simp add: pending_inv_def)
    consider "b' = ?b1" | "b' = clear_pending ?b1"
      | b3 r3 where "apply_all (bk_staged ?b1) (zeroed ?b1) = (b3, r3)"
        "b' = b3 \<or> b' = clear_pending (b3\<lparr>bk_snapshot := Some p\<rparr>)"
    proof (cases "bk_pending_index b < bk_pending_count b")
      case True
      then have "b' = ?b1" using assms(1) ok Some by (simp add: command_joints_def)
      then show ?thesis using that(1) by blast
    next
      case late: False
      obtain b3 r3 where a: "apply_all (bk_staged ?b1) (zeroed ?b1) = (b3, r3)" by (metis prod.exhaust)
      have z: "?b1\<lparr>bk_velocities := zeros (bk_velocities ?b1), bk_efforts := zeros (bk_efforts ?b1)\<rparr> = zeroed ?b1"
        by (simp add: zeroed_def)
      have "(b', r) = (case validate_all ?b1 (bk_staged ?b1) of
            Inl e \<Rightarrow> (clear_pending ?b1, Inl e)
          | Inr _ \<Rightarrow> (case apply_all (bk_staged ?b1) (zeroed ?b1) of
              (b3, Inl e) \<Rightarrow> (b3, Inl e)
            | (b3, Inr _) \<Rightarrow> (clear_pending (b3\<lparr>bk_snapshot := Some p\<rparr>), Inr True)))"
        using assms(1) ok Some late unfolding command_joints_def Let_def z [symmetric] by simp
      then have "b' = clear_pending ?b1 \<or> b' = b3 \<or> b' = clear_pending (b3\<lparr>bk_snapshot := Some p\<rparr>)"
        unfolding a by (cases "validate_all ?b1 (bk_staged ?b1)"; cases r3) simp_all
      then show ?thesis using that a by blast
    qed
    then show ?thesis
    proof cases
      case 1
      then show ?thesis using assms(2) by (simp add: pending_inv_def split: option.splits)
    next
      case 2
      then show ?thesis by (simp add: pending_inv_def clear_pending_def)
    next
      case (3 b3 r3)
      have "bk_snapshot b3 = bk_snapshot b \<and> bk_pending b3 = bk_pending b"
        using apply_all_frame [OF 3(1)] by (simp add: zeroed_def)
      then show ?thesis using 3(2) le Some by (auto simp: pending_inv_def clear_pending_def)
    qed
  qed
qed

fun no_stop :: "bk_event \<Rightarrow> bool" where
  "no_stop (BkStop a q) = (\<not> a)"
| "no_stop _ = True"

lemma slew_frame:
  "slew_wheel_targets dt b = (b', r) \<Longrightarrow> \<exists>m. b' = b\<lparr>bk_applied := m\<rparr>"
  by (auto simp: slew_wheel_targets_def Let_def split: if_splits list.splits intro: exI [of _ "bk_applied b"])

lemma ramp_frame [simp]:
  "bk_snapshot (ramp_drive_target cfg inp dt b) = bk_snapshot b"
  "bk_pending (ramp_drive_target cfg inp dt b) = bk_pending b"
  "bk_stopped (ramp_drive_target cfg inp dt b) = bk_stopped b"
  "bk_gains_held (ramp_drive_target cfg inp dt b) = bk_gains_held b"
  by (auto simp: ramp_drive_target_def split: option.split)

lemma hold_frame:
  assumes "apply_safety_hold hr b = (b', r)"
  shows "bk_snapshot b' = bk_snapshot b \<and> bk_pending b' = bk_pending b \<and> bk_stopped b' = bk_stopped b"
proof -
  obtain b1 r1 where w: "write_hold_gains hr b = (b1, r1)" by (metis prod.exhaust)
  then have "bk_snapshot b1 = bk_snapshot b \<and> bk_pending b1 = bk_pending b \<and> bk_stopped b1 = bk_stopped b"
    by (auto simp: write_hold_gains_def split: if_splits sum.splits)
  then show ?thesis using assms w by (auto simp: apply_safety_hold_def split: sum.splits)
qed

lemma step_targets_frame:
  assumes "step_targets cfg inp dt q hr b = (b', r)"
  shows "bk_snapshot b' = bk_snapshot b \<and> bk_pending b' = bk_pending b \<and> bk_stopped b' = bk_stopped b
    \<and> (\<not> bk_stopped b \<longrightarrow> bk_gains_held b' = bk_gains_held b)"
proof (cases "bk_stopped b")
  case True
  obtain b1 r1 where h: "apply_safety_hold hr (reassert_hold q b) = (b1, r1)" by (metis prod.exhaust)
  then have "b' = b1" using assms True by (cases r1) (simp_all add: step_targets_def)
  then show ?thesis using hold_frame [OF h] True by (simp add: reassert_hold_def Let_def)
next
  case False
  obtain b1 r1 where s: "slew_wheel_targets dt b = (b1, r1)" by (metis prod.exhaust)
  obtain m where "b1 = b\<lparr>bk_applied := m\<rparr>" using slew_frame [OF s] by blast
  then show ?thesis using assms s False
    by (cases r1) (auto simp: step_targets_def Let_def)
qed

lemma bind_frame [simp]:
  "bk_snapshot (bind_robot rv b) = bk_snapshot b"
  "bk_pending (bind_robot rv b) = bk_pending b"
  "bk_stopped (bind_robot rv b) = bk_stopped b"
  "bk_gains_held (bind_robot rv b) = False"
  "bk_efforts (bind_robot rv b) = zeros (rv_pos rv)"
  "bk_velocities (bind_robot rv b) = zeros (rv_pos rv)"
  "bk_positions (bind_robot rv b) = rv_pos rv"
  "bk_hold_pose (bind_robot rv b) = (if bk_stopped b then Some (rv_pos rv) else bk_hold_pose b)"
  by (simp_all add: bind_robot_def Let_def split: option.split)

lemma snapshot_step:
  assumes "pending_inv b" "no_stop e"
  shows "snapshot_le (bk_snapshot b) (bk_snapshot (bk_step e b)) \<and> pending_inv (bk_step e b)"
proof (cases e)
  case (BkBegin v)
  then show ?thesis using begin_snapshot [OF _ assms(1), of v] by (metis bk_step.simps(1) prod.collapse)
next
  case (BkCommand c)
  then show ?thesis using command_snapshot [OF _ assms(1), of c] by (metis bk_step.simps(2) prod.collapse)
next
  case (BkStep cfg inp dt q hr)
  obtain b' r where s: "step_targets cfg inp dt q hr b = (b', r)" by (metis prod.exhaust)
  show ?thesis using BkStep s step_targets_frame [OF s] assms(1) by (simp add: pending_inv_def split: option.splits)
next
  case (BkBind rv)
  then show ?thesis using assms(1) by (simp add: pending_inv_def split: option.splits)
next
  case BkDiscard
  then show ?thesis by (simp add: discard_command_snapshot_staging_def pending_inv_def)
next
  case (BkStop a q)
  then show ?thesis using assms
    by (simp add: set_safety_stop_def pending_inv_def Let_def split: option.splits)
qed

lemma snapshot_run:
  "pending_inv b \<Longrightarrow> list_all no_stop es \<Longrightarrow> snapshot_le (bk_snapshot b) (bk_snapshot (bk_run es b))"
  unfolding bk_run_def
proof (induction es arbitrary: b)
  case (Cons e es)
  then show ?case using snapshot_step [of b e] snapshot_le_trans by auto
qed simp

text \<open>Between two stops the number of the last completed snapshot never decreases, whatever
  packets and commands arrive in whatever order, and any packet of a snapshot older than it is
  refused without changing anything.\<close>

theorem snapshots_never_go_back:
  assumes "bk_pending b = None" and "list_all no_stop es" and "b1 = bk_run es b"
    and "decode_snapshot_packet v = Inr (l, n, i)" and "bk_snapshot b1 = Some c" and "l < c"
  shows "snapshot_le (bk_snapshot b) (bk_snapshot b1)
    \<and> fst (begin_command_snapshot v b1) = b1 \<and> \<not> is_ok (snd (begin_command_snapshot v b1))"
  using snapshot_run [of b es] begin_older [OF assms(4-6)] assms(1-3) by (simp add: pending_inv_def)

theorem snapshots_never_go_back_witness:
  "fst (begin_command_snapshot (PInt 3) (bk_run [BkBegin (PInt 5)] demo_backend))
     = bk_run [BkBegin (PInt 5)] demo_backend"
proof -
  have plain: "decode_snapshot_packet (PInt n) = Inr (n, 1, 1)" if "0 \<le> n" "n < 2 ^ 63" for n
    using that by (simp add: decode_snapshot_packet_def and_marker_iff bit63_iff)
  have "bk_snapshot (bk_run [BkBegin (PInt 5)] demo_backend) = Some 5"
    using plain [of 5] by (simp add: bk_run_def begin_command_snapshot_def demo_backend_def)
  moreover have "bk_pending demo_backend = None" by (simp add: demo_backend_def)
  ultimately show ?thesis
    using snapshots_never_go_back [OF _ _ refl plain [of 3], of demo_backend "[BkBegin (PInt 5)]" 5] by simp
qed

subsection \<open>The gripper target survives a stop\<close>

text \<open>Engaging and releasing the stop keeps the commanded gripper target of before the stop: the
  first physics step after the release ramps towards it again.\<close>

lemma gripper_command_survives_stop:
  assumes "\<not> bk_stopped b" "bk_drive_target b = Some command" "bk_index b ''drive_joint'' = Some i"
    "bk_wheels b = []"
  shows "snd (step_targets cfg inp dt q2 hr (set_safety_stop q2 False (set_safety_stop q1 True b))) =
     Inr (q2[i := ramp_target cfg inp dt (q2 ! i) command], zeros (zeros (bk_velocities b)))"
  using assms by (simp add: set_safety_stop_def step_targets_def slew_wheel_targets_def ramp_drive_target_def Let_def)

subsection \<open>A stop holds\<close>

text \<open>A backend that is not stopped does not carry the gains of the hold.\<close>

definition gains_inv :: "backend \<Rightarrow> bool" where
  "gains_inv b \<longleftrightarrow> (bk_gains_held b \<longrightarrow> bk_stopped b)"

lemma command_frame:
  assumes "command_joints c b = (b', r)"
  shows "bk_stopped b' = bk_stopped b \<and> bk_gains_held b' = bk_gains_held b"
proof -
  have clear: "bk_stopped (clear_pending x) = bk_stopped x" "bk_gains_held (clear_pending x) = bk_gains_held x" for x
    by (simp_all add: clear_pending_def)
  show ?thesis
  proof (cases "bk_stopped b \<or> \<not> is_ok (validate_backend_command b c)")
    case True
    then show ?thesis using assms
      by (cases "validate_backend_command b c") (auto simp: command_joints_def clear split: if_splits)
  next
    case False
    then obtain u where ok: "validate_backend_command b c = Inr u" "\<not> bk_stopped b"
      by (cases "validate_backend_command b c") auto
    show ?thesis
    proof (cases "bk_pending b")
      case None
      obtain b1 r1 where a: "apply_joint_command c b = (b1, r1)" by (metis prod.exhaust)
      then have "b' = b1" using assms ok None by (cases r1) (simp_all add: command_joints_def)
      then show ?thesis using apply_frame [OF a] by simp
    next
      case (Some p)
      let ?b1 = "b\<lparr>bk_staged := bk_staged b @ [c]\<rparr>"
      let ?b2 = "?b1\<lparr>bk_velocities := zeros (bk_velocities ?b1), bk_efforts := zeros (bk_efforts ?b1)\<rparr>"
      obtain b3 r3 where a: "apply_all (bk_staged ?b1) ?b2 = (b3, r3)" by (metis prod.exhaust)
      have "b' = ?b1 \<or> b' = clear_pending ?b1 \<or> b' = b3 \<or> b' = clear_pending (b3\<lparr>bk_snapshot := Some p\<rparr>)"
      proof (cases "bk_pending_index b < bk_pending_count b")
        case True
        then show ?thesis using assms ok Some by (simp add: command_joints_def)
      next
        case late: False
        show ?thesis using assms ok Some late a unfolding command_joints_def Let_def
          by (cases "validate_all ?b1 (bk_staged ?b1)"; cases r3) simp_all
      qed
      then show ?thesis using apply_all_frame [OF a] by (auto simp: clear)
    qed
  qed
qed

lemma gains_step: "gains_inv b \<Longrightarrow> gains_inv (bk_step e b)"
proof (cases e)
  case (BkBegin v)
  assume "gains_inv b"
  then show ?thesis using begin_frame [of v b "fst (begin_command_snapshot v b)" "snd (begin_command_snapshot v b)"]
      BkBegin by (simp add: gains_inv_def)
next
  case (BkCommand c)
  assume "gains_inv b"
  then show ?thesis using command_frame [of c b "fst (command_joints c b)" "snd (command_joints c b)"]
      BkCommand by (simp add: gains_inv_def)
next
  case (BkStep cfg inp dt q hr)
  assume "gains_inv b"
  moreover obtain b' r where s: "step_targets cfg inp dt q hr b = (b', r)" by (metis prod.exhaust)
  ultimately show ?thesis using step_targets_frame [OF s] BkStep by (auto simp: gains_inv_def)
qed (auto simp: gains_inv_def discard_command_snapshot_staging_def set_safety_stop_def Let_def)

lemma gains_run: "gains_inv b \<Longrightarrow> gains_inv (bk_run es b)"
  unfolding bk_run_def by (induction es arbitrary: b) (simp_all add: gains_step)

text \<open>One step of the hold: it either asserts the efforts of an earlier reading or takes a new one.\<close>

lemma hold_holding:
  assumes "bk_stopped b" "bk_positions b = q" "bk_hold_pose b = Some q" "all_zero (bk_velocities b)"
    "all_zero (bk_efforts b)" "bk_gains_held b \<and> bk_hold_steps b \<noteq> 0 \<longrightarrow> fed_forward R b (bk_hold_effort b)"
    "apply_safety_hold hr b = (b', r)"
  shows "holding q (insert hr R) b'"
proof -
  have mono: "fed_forward (insert hr R) x es" if "fed_forward R b es" "bk_arm x = bk_arm b" "bk_names x = bk_names b"
    "length (bk_efforts x) = length (bk_efforts b)" "bk_hold_pose x = bk_hold_pose b" for x es
    by (rule fed_forward_cong [OF that(1)]) (use that in auto)
  obtain b1 r1 where w: "write_hold_gains hr b = (b1, r1)" by (metis prod.exhaust)
  then have b1: "b1 = b \<or> b1 = b\<lparr>bk_gains_held := True, bk_hold_steps := 0\<rparr>"
    by (auto simp: write_hold_gains_def split: if_splits sum.splits)
  then have h1: "holding q (insert hr R) b1"
    using assms(1-6) by (auto simp: holding_def intro: mono)
  show ?thesis
  proof (cases r1)
    case (Inl e)
    then show ?thesis using h1 w assms(7) by (simp add: apply_safety_hold_def)
  next
    case (Inr u)
    let ?new = "if bk_hold_steps b1 mod SAFETY_HOLD_GRAVITY_REFRESH_STEPS = 0
                 then compute_safety_efforts hr b1 else Inr (bk_hold_effort b1)"
    show ?thesis
    proof (cases ?new)
      case (Inl e)
      then show ?thesis using h1 w \<open>r1 = Inr u\<close> assms(7) by (simp add: apply_safety_hold_def)
    next
      case new: (Inr efforts)
      have held: "bk_gains_held b1" using w \<open>r1 = Inr u\<close>
        by (auto simp: write_hold_gains_def split: if_splits sum.splits)
      have fed: "fed_forward (insert hr R) b1 efforts"
      proof (cases "bk_hold_steps b1 mod SAFETY_HOLD_GRAVITY_REFRESH_STEPS = 0")
        case True
        then show ?thesis using new by (auto simp: fed_forward_def)
      next
        case False
        then have "bk_hold_steps b1 \<noteq> 0" "efforts = bk_hold_effort b1" using new by (auto intro: gr0I)
        then show ?thesis using h1 held by (simp add: holding_def)
      qed
      then have len: "length efforts = length (bk_efforts b1)" by (auto simp: fed_forward_def dest: compute_length)
      let ?b' = "b1\<lparr>bk_hold_effort := efforts, bk_efforts := efforts, bk_hold_steps := bk_hold_steps b1 + 1\<rparr>"
      have "fed_forward (insert hr R) ?b' efforts"
        by (rule fed_forward_cong [OF fed]) (simp_all add: len)
      moreover have "b' = ?b'" using w \<open>r1 = Inr u\<close> new assms(7) by (simp add: apply_safety_hold_def)
      ultimately show ?thesis using h1 by (simp add: holding_def)
    qed
  qed
qed

lemma holding_step:
  assumes h: "holding q R b" and e: "no_release e"
  shows "holding (latched q [e]) (R \<union> set (reading_of e)) (bk_step e b)"
proof (cases e)
  case (BkBegin v)
  note f = begin_frame [of v b "fst (begin_command_snapshot v b)" "snd (begin_command_snapshot v b)", simplified]
  let ?b = "fst (begin_command_snapshot v b)"
  have len: "length (bk_efforts ?b) = length (bk_efforts b)" using f by (auto simp: zeros_def)
  have fed: "fed_forward R ?b es" if "fed_forward R b es" for es
    by (rule fed_forward_cong [OF that]) (use f len in simp_all)
  show ?thesis using h f fed BkBegin by (auto simp: holding_def)
next
  case (BkCommand c)
  then show ?thesis using h by (simp add: holding_def command_joints_def)
next
  case (BkStep cfg inp dt p hr)
  let ?b = "reassert_hold p b"
  obtain b' r where a: "apply_safety_hold hr ?b = (b', r)" by (metis prod.exhaust)
  have fed: "fed_forward R ?b es" if "fed_forward R b es" for es
    by (rule fed_forward_cong [OF that]) (use h in \<open>simp_all add: reassert_hold_def holding_def zeros_def\<close>)
  have "holding q (insert hr R) b'"
    by (rule hold_holding [OF _ _ _ _ _ _ a]) (use h fed in \<open>auto simp: reassert_hold_def holding_def\<close>)
  moreover have "bk_step e b = b'"
    using BkStep a h by (cases r) (simp_all add: step_targets_def holding_def)
  ultimately show ?thesis using BkStep by simp
next
  case BkDiscard
  let ?b = "discard_command_snapshot_staging b"
  have fed: "fed_forward R ?b es" if "fed_forward R b es" for es
    by (rule fed_forward_cong [OF that]) (simp_all add: discard_command_snapshot_staging_def)
  show ?thesis using h fed BkDiscard by (auto simp: holding_def discard_command_snapshot_staging_def)
next
  case (BkStop a p)
  then show ?thesis using h e by (simp add: holding_def set_safety_stop_def)
next
  case (BkBind rv)
  then show ?thesis using h by (simp add: holding_def)
qed

lemma latched_Cons: "latched q (e # es) = latched (latched q [e]) es"
  by (cases e) simp_all

lemma holding_run:
  "holding q R b \<Longrightarrow> list_all no_release es \<Longrightarrow> holding (latched q es) (R \<union> set (readings es)) (bk_run es b)"
  unfolding bk_run_def readings_def
proof (induction es arbitrary: b q R)
  case (Cons e es)
  from Cons.IH [OF holding_step [OF Cons.prems(1)]] Cons.prems(2) show ?case
    by (simp add: latched_Cons [of q e es] Un_assoc)
qed simp

text \<open>What the hold feeds forward: on every joint of the arm a bounded effort, and none elsewhere.\<close>

definition hold_bounded :: "nat list \<Rightarrow> pyfloat list \<Rightarrow> bool" where
  "hold_bounded arm efforts \<longleftrightarrow> (\<forall>j < length efforts.
     (j \<notin> set arm \<longrightarrow> efforts ! j = Fin 0) \<and> fle (Fin (- 100)) (efforts ! j) \<and> fle (efforts ! j) (Fin 100))"

lemma write_targets_nth:
  "j < length xs \<Longrightarrow> write_targets ws xs ! j = xs ! j \<or> (j, write_targets ws xs ! j) \<in> set ws"
proof (induction ws xs rule: write_targets.induct)
  case (2 i v ws xs)
  then show ?case by (cases "j = i") auto
qed simp

lemma hold_clamped:
  "isfinite x \<Longrightarrow> fle (Fin (- 100)) (pymin (pymax x (Fin (- 100))) (Fin 100))
     \<and> fle (pymin (pymax x (Fin (- 100))) (Fin 100)) (Fin 100)"
  by (cases x) (simp_all add: pymin_def pymax_def)

lemma compute_bounded:
  assumes "compute_safety_efforts hr b = Inr es"
  shows "hold_bounded (bk_arm b) es"
proof -
  let ?clip = "\<lambda>x. pymin (pymax x (Fin (- 100))) (Fin 100)"
  obtain g where g: "list_all isfinite g"
    and es: "es = write_targets (zip (bk_arm b) (map ?clip g)) (zeros (bk_efforts b))"
    using assms by (auto simp: compute_safety_efforts_def safety_gravity_efforts_def SAFETY_HOLD_EFFORT_LIMIT_def Let_def
        split: if_splits sum.splits option.splits)
  show ?thesis unfolding hold_bounded_def
  proof (intro allI impI)
    fix j assume "j < length es"
    then have j: "j < length (zeros (bk_efforts b))" using compute_length [OF assms] by (simp add: zeros_def)
    then have z: "zeros (bk_efforts b) ! j = Fin 0" by (simp add: zeros_def)
    from write_targets_nth [OF j, of "zip (bk_arm b) (map ?clip g)"]
    consider "es ! j = Fin 0" | "(j, es ! j) \<in> set (zip (bk_arm b) (map ?clip g))" unfolding es z by blast
    then show "(j \<notin> set (bk_arm b) \<longrightarrow> es ! j = Fin 0) \<and> fle (Fin (- 100)) (es ! j) \<and> fle (es ! j) (Fin 100)"
    proof cases
      case 1
      then show ?thesis by simp
    next
      case 2
      then have "j \<in> set (bk_arm b)" "es ! j \<in> ?clip ` set g"
        by (auto dest: set_zip_leftD set_zip_rightD)
      then show ?thesis using g hold_clamped by (auto simp: list_all_iff)
    qed
  qed
qed

lemma zero_bounded: "all_zero es \<Longrightarrow> hold_bounded arm es"
  by (simp add: all_zero_def hold_bounded_def list_all_length)


text \<open>A stop, a command, and a step in which gravity pulls harder than the hold may push.\<close>

definition demo_pull :: hold_reading where
  "demo_pull = \<lparr>hr_forces = Some [Fin 150, Fin 1], hr_base_dofs = Some 0, hr_gains = Inr ()\<rparr>"

definition demo_held :: "bk_event list" where
  "demo_held = [BkBegin (PInt 3), BkCommand (hd demo_commands), BkDiscard,
     BkStep \<lparr>rc_slew = Fin 0, rc_max_lead = Fin 0, rc_stall_speed = Fin 0, rc_halt_force = Fin 0\<rparr>
       \<lparr>ri_pad = None, ri_speed = None, ri_grip_force = Fin 0\<rparr> (Fin (1/100)) [Fin 6, Fin 6] demo_pull]"


end
