(* ===== verification/Sim_Gateway.thy ===== *)
theory Sim_Gateway
  imports Backend_Safety
begin

text \<open>
  The simulator's end of the command stream (\<open>tinker_sim_isaac/ros_gateway.py\<close>): safety
  samples and command packets enter one queue, and \<open>spin_once\<close> drains it on the simulation
  thread. The gateway adopts command epochs, insists on contiguous snapshots, commits a
  baseline snapshot only as a whole, and stops the backend on every gap, stale stream or
  stale heartbeat.

  The model is the session protocol, which \<open>__init__\<close> always enables. The profile counters,
  the log lines and the referee's hand-over requests are left out. The clock readings, the
  simulation time and the robot's joint positions that a call reads are arguments, in
  \<open>reads\<close>; \<open>sg_applied\<close> is added by the model: it records every packet handed to the running
  backend, those of a baseline one by one, with its epoch, snapshot and packet number.
\<close>

section \<open>The two passes over a baseline\<close>

text \<open>Staged packets: a command, its packed snapshot number and when it was received. The loops of
  \<open>_commit_staged_baseline\<close> are written for any backend with the calls they make.\<close>

type_synonym staged = "joint_command \<times> int \<times> pyfloat"

fun preflight_loop ::
  "(pyval \<Rightarrow> 'b \<Rightarrow> 'b \<times> unit res) \<Rightarrow> ('b \<Rightarrow> joint_command \<Rightarrow> unit res) \<Rightarrow> staged list \<Rightarrow> 'b \<Rightarrow> 'b \<times> unit res" where
  "preflight_loop begin_snapshot validate [] b = (b, Inr ())"
| "preflight_loop begin_snapshot validate ((c, s, t) # ps) b =
     (case begin_snapshot (PInt s) b of
        (b1, Inl e) \<Rightarrow> (b1, Inl e)
      | (b1, Inr _) \<Rightarrow>
          (case validate b1 c of
             Inl e \<Rightarrow> (b1, Inl e)
           | Inr _ \<Rightarrow> preflight_loop begin_snapshot validate ps b1))"

fun commit_loop ::
  "(pyval \<Rightarrow> 'b \<Rightarrow> 'b \<times> unit res) \<Rightarrow> (joint_command \<Rightarrow> 'b \<Rightarrow> 'b \<times> bool res) \<Rightarrow> staged list \<Rightarrow> 'b \<Rightarrow> 'b \<times> unit res" where
  "commit_loop begin_snapshot command [] b = (b, Inr ())"
| "commit_loop begin_snapshot command ((c, s, t) # ps) b =
     (case begin_snapshot (PInt s) b of
        (b1, Inl e) \<Rightarrow> (b1, Inl e)
      | (b1, Inr _) \<Rightarrow>
          (case command c b1 of
             (b2, Inl e) \<Rightarrow> (b2, Inl e)
           | (b2, Inr accepted) \<Rightarrow>
               if accepted then commit_loop begin_snapshot command ps b2
               else (b2, Inl (RuntimeError ''command rejected during baseline commit''))))"

section \<open>The actuator interface\<close>

text \<open>
  What the gateway relies on of the backend: the stop state is what was last set, nothing
  else changes it, and a stopped backend refuses commands.
\<close>

locale actuator =
  fixes stopped :: "'b \<Rightarrow> bool"
    and set_stop :: "bool \<Rightarrow> 'b \<Rightarrow> 'b"
    and begin_snapshot :: "pyval \<Rightarrow> 'b \<Rightarrow> 'b \<times> unit res"
    and command :: "joint_command \<Rightarrow> 'b \<Rightarrow> 'b \<times> bool res"
    and validate :: "'b \<Rightarrow> joint_command \<Rightarrow> unit res"
    and discard :: "'b \<Rightarrow> 'b"
  assumes stopped_set: "stopped (set_stop a b) = a"
    and stopped_begin: "stopped (fst (begin_snapshot v b)) = stopped b"
    and stopped_command: "stopped (fst (command c b)) = stopped b"
    and stopped_discard: "stopped (discard b) = stopped b"
    and command_refused: "stopped b \<Longrightarrow> command c b = (b, Inr False)"
begin

lemma preflight_stopped:
  "stopped (fst (preflight_loop begin_snapshot validate ps b)) = stopped b"
proof (induction ps arbitrary: b)
  case (Cons p ps)
  obtain c s t where p: "p = (c, s, t)" by (metis prod.exhaust)
  obtain b1 r where 1: "begin_snapshot (PInt s) b = (b1, r)" by (metis prod.exhaust)
  have "stopped b1 = stopped b" using stopped_begin [of "PInt s" b] 1 by simp
  then show ?case using Cons.IH [of b1] 1 p by (cases r) (simp_all split: sum.split)
qed simp

lemma commit_stopped: "stopped (fst (commit_loop begin_snapshot command ps b)) = stopped b"
proof (induction ps arbitrary: b)
  case (Cons p ps)
  obtain c s t where p: "p = (c, s, t)" by (metis prod.exhaust)
  obtain b1 r where 1: "begin_snapshot (PInt s) b = (b1, r)" by (metis prod.exhaust)
  obtain b2 r2 where 2: "command c b1 = (b2, r2)" by (metis prod.exhaust)
  have "stopped b1 = stopped b" "stopped b2 = stopped b1"
    using stopped_begin [of "PInt s" b] 1 stopped_command [of c b1] 2 by simp_all
  then show ?case using Cons.IH [of b2] 1 2 p by (cases r; cases r2) simp_all
qed simp

lemma commit_on_stopped_fails:
  assumes "stopped b" "ps \<noteq> []"
  shows "\<exists>e. snd (commit_loop begin_snapshot command ps b) = Inl e"
proof (cases ps)
  case (Cons p qs)
  obtain c v t where p: "p = (c, v, t)" by (metis prod.exhaust)
  obtain b1 r where 1: "begin_snapshot (PInt v) b = (b1, r)" by (metis prod.exhaust)
  have "stopped b1" using assms(1) stopped_begin [of "PInt v" b] 1 by simp
  then show ?thesis using 1 p Cons command_refused by (cases r) simp_all
qed (use assms(2) in simp)

end

lemma backend_begin_stopped: "bk_stopped (fst (begin_command_snapshot v b)) = bk_stopped b"
  using begin_frame [of v b "fst (begin_command_snapshot v b)" "snd (begin_command_snapshot v b)"] by simp

lemma backend_command_stopped: "bk_stopped (fst (command_joints c b)) = bk_stopped b"
proof (cases "bk_stopped b")
  case False
  have ap: "bk_stopped (fst (apply_joint_command c b)) = bk_stopped b" for c b
    using apply_frame [of c b "fst (apply_joint_command c b)" "snd (apply_joint_command c b)"] by simp
  have al: "bk_stopped (fst (apply_all cs b)) = bk_stopped b" for cs b
    using apply_all_frame [of cs b "fst (apply_all cs b)" "snd (apply_all cs b)"] by simp
  show ?thesis
  proof (cases "bk_pending b")
    case None
    then show ?thesis using ap [of c b]
      by (auto simp: command_joints_def clear_pending_def split: sum.splits prod.splits)
  next
    case (Some p)
    show ?thesis using Some
        al [of "bk_staged b @ [c]" "b\<lparr>bk_staged := bk_staged b @ [c],
          bk_velocities := zeros (bk_velocities b), bk_efforts := zeros (bk_efforts b)\<rparr>"]
      by (auto simp: command_joints_def clear_pending_def Let_def split: sum.splits prod.splits)
  qed
qed (simp add: command_joints_def)

interpretation bk: actuator bk_stopped "set_safety_stop q" begin_command_snapshot command_joints
  validate_backend_command discard_command_snapshot_staging for q
proof unfold_locales
  show "bk_stopped (set_safety_stop q a b) = a" for a b
    by (simp add: set_safety_stop_def Let_def)
  show "bk_stopped (fst (begin_command_snapshot v b)) = bk_stopped b" for v b
    by (rule backend_begin_stopped)
  show "bk_stopped (fst (command_joints c b)) = bk_stopped b" for c b
    by (rule backend_command_stopped)
  show "bk_stopped (discard_command_snapshot_staging b) = bk_stopped b" for b
    by (simp add: discard_command_snapshot_staging_def)
  show "command_joints c b = (b, Inr False)" if "bk_stopped b" for c b
    using that by (simp add: command_joints_def)
qed

section \<open>State\<close>

definition MAX_RETIRED_COMMAND_EPOCHS :: nat where "MAX_RETIRED_COMMAND_EPOCHS = 64"
definition BASELINE_RESYNC_WINDOW_S :: pyfloat where "BASELINE_RESYNC_WINDOW_S = Fin (1 / 4)"
definition MAX_BASELINE_RESYNC_PACKETS :: int where "MAX_BASELINE_RESYNC_PACKETS = 8"

datatype sg_item =
    SafetySample bool pyfloat int
  | CommandPacket joint_command int int pyfloat

record sim_gateway =
  sg_backend :: backend
  sg_queue :: "sg_item list"
  sg_error :: "string option"
  sg_active :: bool
  sg_safety_timeout :: pyfloat
  sg_command_timeout :: pyfloat
  sg_sample_at :: "pyfloat option"
  sg_sample_sim :: "pyfloat option"
  sg_epoch :: "int option"
  sg_retired_epochs :: "int list"
  sg_retired_sessions :: "int list"
  sg_known_session :: "int option"
  sg_known_generation :: "int option"
  sg_adoption_seq :: int
  sg_clear_at :: "pyfloat option"
  sg_baseline_pending :: bool
  sg_last_logical :: int
  sg_last_count :: int
  sg_last_index :: int
  sg_pending :: "staged list"
  sg_resync_until :: "pyfloat option"
  sg_resync_left :: int
  sg_command_at :: "pyfloat option"
  sg_command_sim :: "pyfloat option"
  sg_lost :: bool
  sg_loss_at :: pyfloat
  sg_sample_seq :: int
  sg_clear_seq :: int
  sg_loss_seq :: int
  sg_recoverable :: "int option"
  sg_floor :: "int option"
  sg_applied :: "(int \<times> int \<times> int) list"

text \<open>What processing one event reads: the clock when it judges a sample's age, when it records a
  loss and when it records an accepted command, the simulation time and the measured joints.\<close>

record reads =
  rd_check :: pyfloat
  rd_loss :: pyfloat
  rd_done :: pyfloat
  rd_sim :: "pyfloat option"
  rd_joints :: "pyfloat list"

definition sg_stop :: "reads \<Rightarrow> bool \<Rightarrow> sim_gateway \<Rightarrow> sim_gateway" where
  "sg_stop rd active g = g\<lparr>sg_backend := set_safety_stop (rd_joints rd) active (sg_backend g)\<rparr>"

definition sg_new :: "backend \<Rightarrow> pyfloat \<Rightarrow> pyfloat \<Rightarrow> reads \<Rightarrow> sim_gateway" where
  "sg_new backend safety_timeout command_timeout rd =
     sg_stop rd True
     \<lparr>sg_backend = backend, sg_queue = [], sg_error = None, sg_active = True,
      sg_safety_timeout = safety_timeout, sg_command_timeout = command_timeout,
      sg_sample_at = None, sg_sample_sim = None, sg_epoch = None, sg_retired_epochs = [],
      sg_retired_sessions = [], sg_known_session = None, sg_known_generation = None,
      sg_adoption_seq = - 1, sg_clear_at = None, sg_baseline_pending = True,
      sg_last_logical = - 1, sg_last_count = 0, sg_last_index = 0, sg_pending = [],
      sg_resync_until = None, sg_resync_left = 0, sg_command_at = None, sg_command_sim = None,
      sg_lost = True, sg_loss_at = rd_loss rd, sg_sample_seq = 0, sg_clear_seq = - 1,
      sg_loss_seq = 0, sg_recoverable = None, sg_floor = None, sg_applied = []\<rparr>"

section \<open>Message handlers\<close>

definition sg_joint_command ::
  "pyval \<Rightarrow> string list \<Rightarrow> pyfloat list \<Rightarrow> pyfloat list \<Rightarrow> pyfloat list \<Rightarrow> pyfloat \<Rightarrow> sim_gateway \<Rightarrow> sim_gateway" where
  "sg_joint_command frame_id names positions velocities efforts now g =
     (case decode_command_frame frame_id of
        Inl e \<Rightarrow> g\<lparr>sg_error := Some (exc_text e)\<rparr>
      | Inr (epoch, snapshot) \<Rightarrow>
          (case command_from_sequences names positions velocities efforts of
             Inl e \<Rightarrow> g\<lparr>sg_error := Some (exc_text e)\<rparr>
           | Inr command \<Rightarrow> g\<lparr>sg_queue := sg_queue g @ [CommandPacket command epoch snapshot now]\<rparr>))"

definition sg_safety_sample :: "bool \<Rightarrow> pyfloat \<Rightarrow> pyfloat option \<Rightarrow> sim_gateway \<Rightarrow> sim_gateway" where
  "sg_safety_sample data now sim g =
     (let seq = sg_sample_seq g + 1 in
      g\<lparr>sg_sample_at := Some now, sg_sample_sim := sim, sg_sample_seq := seq,
        sg_queue := sg_queue g @ [SafetySample data now seq], sg_error := None\<rparr>)"

section \<open>Epochs and stops\<close>

text \<open>A deque of bounded length drops its oldest entries.\<close>

definition push_bounded :: "int \<Rightarrow> int list \<Rightarrow> int list" where
  "push_bounded x xs = (let ys = xs @ [x] in drop (length ys - MAX_RETIRED_COMMAND_EPOCHS) ys)"

definition retire_command_epoch :: "bool \<Rightarrow> bool \<Rightarrow> sim_gateway \<Rightarrow> sim_gateway" where
  "retire_command_epoch retire reset_snapshot g =
     (let g1 = (case sg_epoch g of
                  Some epoch \<Rightarrow> if retire
                    then g\<lparr>sg_retired_epochs := push_bounded epoch (sg_retired_epochs g)\<rparr> else g
                | None \<Rightarrow> g);
          g2 = g1\<lparr>sg_epoch := None\<rparr>
      in if reset_snapshot
         then g2\<lparr>sg_last_logical := - 1, sg_last_count := 0, sg_last_index := 0,
                 sg_baseline_pending := True, sg_floor := None, sg_pending := [],
                 sg_resync_until := None, sg_resync_left := 0\<rparr>
         else g2)"

definition arm_baseline_resynchronization :: "reads \<Rightarrow> sim_gateway \<Rightarrow> sim_gateway" where
  "arm_baseline_resynchronization rd g =
     (if \<not> sg_baseline_pending g then g
      else
        let boundary = (case sg_clear_at g of None \<Rightarrow> rd_loss rd | Some t \<Rightarrow> t) in
        g\<lparr>sg_resync_until := Some (fadd boundary BASELINE_RESYNC_WINDOW_S),
          sg_resync_left := MAX_BASELINE_RESYNC_PACKETS\<rparr>)"

text \<open>Drop one packet that is not the first of a baseline: whether the window allowed it.\<close>

definition consume_resync :: "pyfloat \<Rightarrow> sim_gateway \<Rightarrow> sim_gateway \<times> bool" where
  "consume_resync received_at g =
     (case sg_resync_until g of
        None \<Rightarrow> (g, False)
      | Some deadline \<Rightarrow>
          if sg_resync_left g \<le> 0 \<or> flt deadline received_at then (g, False)
          else (g\<lparr>sg_resync_left := sg_resync_left g - 1, sg_error := None\<rparr>, True))"

definition apply_safety_stop :: "reads \<Rightarrow> bool \<Rightarrow> sim_gateway \<Rightarrow> sim_gateway" where
  "apply_safety_stop rd active g =
     (if active then
        sg_stop rd True
          (retire_command_epoch True True
            (g\<lparr>sg_resync_until := None, sg_resync_left := 0, sg_pending := [], sg_active := True,
               sg_lost := True, sg_loss_at := rd_loss rd, sg_loss_seq := sg_sample_seq g,
               sg_recoverable := None\<rparr>))
      else
        let g1 = arm_baseline_resynchronization rd (g\<lparr>sg_active := False\<rparr>) in
        if sg_lost g1 then g1 else sg_stop rd False g1)"

definition reject_staged_baseline :: "reads \<Rightarrow> exc \<Rightarrow> sim_gateway \<Rightarrow> sim_gateway" where
  "reject_staged_baseline rd e g =
     (let g1 = sg_stop rd True
                 (g\<lparr>sg_active := True, sg_lost := True, sg_loss_at := rd_loss rd,
                    sg_loss_seq := max 0 (sg_clear_seq g), sg_baseline_pending := True, sg_pending := []\<rparr>)
      in g1\<lparr>sg_backend := discard_command_snapshot_staging (sg_backend g1),
             sg_error := Some (exc_text e)\<rparr>)"

definition commit_staged_baseline :: "reads \<Rightarrow> staged list \<Rightarrow> sim_gateway \<Rightarrow> sim_gateway \<times> bool" where
  "commit_staged_baseline rd packets g =
     (let b0 = set_safety_stop (rd_joints rd) True (sg_backend g) in
      case preflight_loop begin_command_snapshot validate_backend_command packets b0 of
        (b1, Inl e) \<Rightarrow> (reject_staged_baseline rd e (g\<lparr>sg_backend := b1\<rparr>), False)
      | (b1, Inr _) \<Rightarrow>
          let b2 = set_safety_stop (rd_joints rd) False (discard_command_snapshot_staging b1) in
          (case commit_loop begin_command_snapshot command_joints packets b2 of
             (b3, Inl e) \<Rightarrow> (reject_staged_baseline rd e (g\<lparr>sg_backend := b3\<rparr>), False)
           | (b3, Inr _) \<Rightarrow> (g\<lparr>sg_backend := b3, sg_lost := False\<rparr>, True)))"

definition fresh_clear_boundary :: "pyfloat \<Rightarrow> sim_gateway \<Rightarrow> bool" where
  "fresh_clear_boundary received_at g \<longleftrightarrow>
     sg_clear_seq g > sg_adoption_seq g \<and>
     (case sg_clear_at g of None \<Rightarrow> False | Some t \<Rightarrow> fle t received_at)"

definition adopt_command_epoch ::
  "reads \<Rightarrow> int \<Rightarrow> int \<Rightarrow> int \<Rightarrow> pyfloat \<Rightarrow> bool \<Rightarrow> sim_gateway \<Rightarrow> sim_gateway" where
  "adopt_command_epoch rd epoch session_id generation received_at new_session g0 =
     (let g1 = (if sg_epoch g0 \<noteq> None \<and> sg_epoch g0 \<noteq> Some epoch
                then retire_command_epoch True True g0 else g0);
          g2 = (case sg_known_session g1 of
                  Some known \<Rightarrow> if new_session \<and> known \<noteq> session_id
                    then g1\<lparr>sg_retired_sessions := push_bounded known (sg_retired_sessions g1)\<rparr> else g1
                | None \<Rightarrow> g1);
          g3 = sg_stop rd True g2
      in arm_baseline_resynchronization rd
           (g3\<lparr>sg_lost := True,
               sg_loss_at := (case sg_clear_at g3 of None \<Rightarrow> received_at | Some t \<Rightarrow> t),
               sg_loss_seq := sg_clear_seq g3 - 1, sg_recoverable := None, sg_epoch := Some epoch,
               sg_known_session := Some session_id, sg_known_generation := Some generation,
               sg_adoption_seq := sg_clear_seq g3, sg_last_logical := - 1, sg_last_count := 0,
               sg_last_index := 0, sg_baseline_pending := True, sg_pending := [], sg_floor := None\<rparr>))"

definition enter_command_stream_lost :: "reads \<Rightarrow> pyfloat \<Rightarrow> sim_gateway \<Rightarrow> sim_gateway" where
  "enter_command_stream_lost rd now g =
     (if sg_lost g then g
      else
        let g1 = retire_command_epoch False False
                   (g\<lparr>sg_lost := True, sg_loss_at := now, sg_loss_seq := sg_sample_seq g,
                      sg_recoverable := sg_epoch g\<rparr>)
        in (sg_stop rd True (g1\<lparr>sg_baseline_pending := True, sg_floor := Some (sg_last_logical g1)\<rparr>))
             \<lparr>sg_error := Some ''command stream expired''\<rparr>)"

definition stop_on_command_gap :: "reads \<Rightarrow> string \<Rightarrow> sim_gateway \<Rightarrow> sim_gateway" where
  "stop_on_command_gap rd e g =
     (enter_command_stream_lost rd (rd_loss rd) g)\<lparr>sg_error := Some (e @ ''; command stream stopped'')\<rparr>"

section \<open>Deadlines\<close>

definition sim_age_stale :: "pyfloat option \<Rightarrow> pyfloat option \<Rightarrow> pyfloat \<Rightarrow> bool" where
  "sim_age_stale received_sim sim_now timeout =
     (case (received_sim, sim_now) of
        (Some r, Some n) \<Rightarrow> fle timeout (fsub n r)
      | _ \<Rightarrow> True)"

definition enforce_command_deadline :: "reads \<Rightarrow> pyfloat \<Rightarrow> sim_gateway \<Rightarrow> sim_gateway" where
  "enforce_command_deadline rd now g =
     (if sg_lost g then g
      else case sg_command_at g of
        None \<Rightarrow> g
      | Some t \<Rightarrow>
          if flt (fsub now t) (sg_command_timeout g) then g
          else if \<not> sim_age_stale (sg_command_sim g) (rd_sim rd) (sg_command_timeout g) then g
          else enter_command_stream_lost rd now g)"

definition sg_enforce_safety_deadline :: "reads \<Rightarrow> pyfloat \<Rightarrow> sim_gateway \<Rightarrow> sim_gateway" where
  "sg_enforce_safety_deadline rd now g =
     (if (case sg_sample_at g of
            None \<Rightarrow> False
          | Some t \<Rightarrow> flt (fsub now t) (sg_safety_timeout g)
              \<or> \<not> sim_age_stale (sg_sample_sim g) (rd_sim rd) (sg_safety_timeout g))
      then g
      else if sg_active g then g
      else (apply_safety_stop rd True g)\<lparr>sg_error := Some ''safety heartbeat expired''\<rparr>)"


section \<open>Draining the queue\<close>

definition sg_reject :: "string \<Rightarrow> sim_gateway \<Rightarrow> sim_gateway" where
  "sg_reject reason g = g\<lparr>sg_error := Some reason\<rparr>"

definition process_safety :: "reads \<Rightarrow> bool \<Rightarrow> pyfloat \<Rightarrow> int \<Rightarrow> sim_gateway \<Rightarrow> sim_gateway" where
  "process_safety rd active received_at sequence g =
     (if fle (sg_safety_timeout g) (fsub (rd_check rd) received_at) then g
      else if active \<and> sg_active g then g
      else
        let g1 = (if active then g else g\<lparr>sg_clear_seq := sequence, sg_clear_at := Some received_at\<rparr>)
        in (apply_safety_stop rd active g1)\<lparr>sg_error := None\<rparr>)"

text \<open>
  A command packet passes four stages. A stage that ends the processing of the packet (a
  \<open>continue\<close> of the loop) returns the state on the left, otherwise it hands the state on.
\<close>

definition admit_packet :: "int \<Rightarrow> int \<Rightarrow> pyfloat \<Rightarrow> sim_gateway \<Rightarrow> sim_gateway + int \<times> int \<times> int \<times> int \<times> int" where
  "admit_packet epoch snapshot received_at g =
     (if sg_active g then Inl (sg_reject ''command ignored while safety stop is active'' g)
      else if fle received_at (sg_loss_at g)
      then Inl (sg_reject ''rejected command received before stream boundary'' g)
      else if sg_lost g \<and> sg_clear_seq g \<le> sg_loss_seq g
      then Inl (sg_reject ''rejected command before fresh safety clear'' g)
      else case decode_command_epoch (PInt epoch) of
        Inl e \<Rightarrow> Inl (sg_reject (exc_text e) g)
      | Inr (session_id, generation) \<Rightarrow>
          if session_id \<in> set (sg_retired_sessions g)
          then Inl (sg_reject (''rejected retired command session '' @ dec_int session_id) g)
          else if epoch \<in> set (sg_retired_epochs g)
          then Inl (sg_reject (''rejected retired command epoch '' @ dec_int epoch) g)
          else (case decode_snapshot_packet (PInt snapshot) of
                  Inl e \<Rightarrow> Inl (sg_reject (exc_text e) g)
                | Inr (logical, count, index) \<Rightarrow> Inr (session_id, generation, logical, count, index)))"

definition check_epoch ::
  "reads \<Rightarrow> int \<Rightarrow> int \<Rightarrow> int \<Rightarrow> pyfloat \<Rightarrow> sim_gateway \<Rightarrow> sim_gateway + sim_gateway" where
  "check_epoch rd epoch session_id generation received_at g =
     (case sg_epoch g of
        Some current \<Rightarrow>
          if epoch = current then Inr g
          else
            (case decode_command_epoch (PInt current) of
               Inl e \<Rightarrow> Inl (sg_reject (exc_text e) g)
             | Inr (current_session, current_generation) \<Rightarrow>
                 let new_session = (session_id \<noteq> current_session) in
                 if \<not> new_session \<and> generation \<le> current_generation
                    \<or> \<not> fresh_clear_boundary received_at g
                 then Inl (sg_reject (''rejected '' @
                        (if new_session then ''session change''
                         else if generation \<le> current_generation then ''old or lower command generation''
                         else ''command generation change'') @
                        '' without a fresh safety-clear boundary'') g)
                 else Inr (adopt_command_epoch rd epoch session_id generation received_at new_session g))
      | None \<Rightarrow>
          if sg_recoverable g = Some epoch then Inr (g\<lparr>sg_epoch := Some epoch\<rparr>)
          else if session_id \<in> set (sg_retired_sessions g)
          then Inl (sg_reject (''rejected retired command session '' @ dec_int session_id) g)
          else if \<not> fresh_clear_boundary received_at g
          then Inl (sg_reject ''rejected command session without a fresh safety-clear boundary'' g)
          else if sg_known_session g = Some session_id
                  \<and> (case sg_known_generation g of None \<Rightarrow> False | Some k \<Rightarrow> generation \<le> k)
          then Inl (sg_reject ''rejected old or lower command generation'' g)
          else Inr (adopt_command_epoch rd epoch session_id generation received_at
                      (sg_known_session g \<noteq> None \<and> sg_known_session g \<noteq> Some session_id) g))"

text \<open>Collecting the packets of a baseline; the result lists the packets that are ready to apply.\<close>

definition not_packet_one :: "pyfloat \<Rightarrow> sim_gateway \<Rightarrow> sim_gateway" where
  "not_packet_one received_at g =
     (case consume_resync received_at g of
        (g1, True) \<Rightarrow> g1
      | (g1, False) \<Rightarrow> sg_reject ''rejected session baseline that does not start at packet one'' g1)"

definition collect_baseline ::
  "staged \<Rightarrow> int \<Rightarrow> int \<Rightarrow> int \<Rightarrow> sim_gateway \<Rightarrow> sim_gateway + sim_gateway \<times> staged list" where
  "collect_baseline packet logical count index g =
     (let received_at = snd (snd packet);
          joined =
            (if index = 1 then Inr (g, [packet])
             else case sg_pending g of
               [] \<Rightarrow> Inl (not_packet_one received_at g)
             | first # _ \<Rightarrow>
                 (case decode_snapshot_packet (PInt (fst (snd first))) of
                    Inl e \<Rightarrow> Inl (sg_reject (exc_text e) g)
                  | Inr (first_logical, first_count, first_number) \<Rightarrow>
                      if logical = first_logical \<and> count = first_count
                         \<and> index = first_number + int (length (sg_pending g))
                      then (let packets = sg_pending g @ [packet];
                                g1 = g\<lparr>sg_pending := []\<rparr>
                            in if index < count
                               then Inl (g1\<lparr>sg_pending := packets, sg_error := None\<rparr>)
                               else Inr (g1, packets))
                      else Inl (not_packet_one received_at g)))
      in case joined of
           Inl g1 \<Rightarrow> Inl g1
         | Inr (g1, packets) \<Rightarrow>
             (case sg_floor g1 of
                Some lowest \<Rightarrow>
                  if logical \<le> lowest
                  then Inl (sg_reject (''rejected recovery snapshot '' @ dec_int logical
                         @ ''; expected a value greater than '' @ dec_int lowest) g1)
                  else if count > 1 \<and> index = 1
                  then Inl (g1\<lparr>sg_pending := packets, sg_error := None\<rparr>)
                  else Inr (g1, packets)
              | None \<Rightarrow>
                  if count > 1 \<and> index = 1
                  then Inl (g1\<lparr>sg_pending := packets, sg_error := None\<rparr>)
                  else Inr (g1, packets)))"

text \<open>Contiguity of the running stream: the left is a rejection or a stop on a gap.\<close>

definition check_contiguous ::
  "reads \<Rightarrow> int \<Rightarrow> int \<Rightarrow> int \<Rightarrow> sim_gateway \<Rightarrow> sim_gateway + sim_gateway" where
  "check_contiguous rd logical count index g =
     (if logical < sg_last_logical g
      then Inl (sg_reject (''rejected old command snapshot '' @ dec_int logical @ ''; last snapshot is ''
             @ dec_int (sg_last_logical g)) g)
      else if logical = sg_last_logical g then
        (if count = sg_last_count g \<and> index \<le> sg_last_index g
         then Inl (sg_reject ''rejected duplicate or out-of-order snapshot packet'' g)
         else if index \<noteq> sg_last_index g + 1 \<or> count \<noteq> sg_last_count g
         then Inl (stop_on_command_gap rd (''rejected out-of-order snapshot packet '' @ dec_int index @ ''/''
                @ dec_int count @ '' after '' @ dec_int (sg_last_index g) @ ''/'' @ dec_int (sg_last_count g)) g)
         else Inr g)
      else if index \<noteq> 1
      then Inl (stop_on_command_gap rd ''rejected snapshot that does not start at packet one'' g)
      else if logical \<noteq> sg_last_logical g + 1
      then Inl (stop_on_command_gap rd (''rejected non-contiguous command snapshot '' @ dec_int logical
             @ ''; expected '' @ dec_int (sg_last_logical g + 1)) g)
      else Inr g)"

text \<open>The bookkeeping after a packet or a baseline was accepted.\<close>

definition accept_packet :: "reads \<Rightarrow> int \<Rightarrow> int \<Rightarrow> int \<Rightarrow> int \<Rightarrow> sim_gateway \<Rightarrow> sim_gateway" where
  "accept_packet rd epoch logical count index g =
     g\<lparr>sg_last_logical := logical, sg_last_count := count, sg_last_index := index,
       sg_baseline_pending := False, sg_floor := None, sg_command_at := Some (rd_done rd),
       sg_command_sim := rd_sim rd, sg_error := None,
       sg_applied := sg_applied g @ [(epoch, logical, index)]\<rparr>"

definition packet_entry :: "int \<Rightarrow> staged \<Rightarrow> int \<times> int \<times> int" where
  "packet_entry epoch packet =
     (case decode_snapshot_packet (PInt (fst (snd packet))) of
        Inl _ \<Rightarrow> (epoch, - 1, - 1)
      | Inr (logical, count, index) \<Rightarrow> (epoch, logical, index))"

text \<open>Records the packets of a baseline that come before its last one.\<close>

definition note_earlier :: "int \<Rightarrow> staged list \<Rightarrow> sim_gateway \<Rightarrow> sim_gateway" where
  "note_earlier epoch packets g = g\<lparr>sg_applied := sg_applied g @ map (packet_entry epoch) (butlast packets)\<rparr>"

definition apply_running ::
  "reads \<Rightarrow> joint_command \<Rightarrow> int \<Rightarrow> int \<Rightarrow> int \<Rightarrow> int \<Rightarrow> int \<Rightarrow> sim_gateway \<Rightarrow> sim_gateway" where
  "apply_running rd command epoch snapshot logical count index g =
     (case begin_command_snapshot (PInt snapshot) (sg_backend g) of
        (b1, Inl e) \<Rightarrow> sg_reject (exc_text e) (g\<lparr>sg_backend := b1\<rparr>)
      | (b1, Inr _) \<Rightarrow>
          let g1 = g\<lparr>sg_backend := b1\<rparr>;
              g2 = (if sg_lost g1 then (sg_stop rd False g1)\<lparr>sg_lost := False\<rparr> else g1)
          in (case command_joints command (sg_backend g2) of
                (b2, Inl e) \<Rightarrow> sg_reject (exc_text e) (g2\<lparr>sg_backend := b2\<rparr>)
              | (b2, Inr accepted) \<Rightarrow>
                  if accepted then accept_packet rd epoch logical count index (g2\<lparr>sg_backend := b2\<rparr>)
                  else sg_reject ''command ignored while safety stop is active''
                         (g2\<lparr>sg_backend := b2, sg_lost := True\<rparr>)))"

definition process_command ::
  "reads \<Rightarrow> joint_command \<Rightarrow> int \<Rightarrow> int \<Rightarrow> pyfloat \<Rightarrow> sim_gateway \<Rightarrow> sim_gateway" where
  "process_command rd command epoch snapshot received_at g =
     (case admit_packet epoch snapshot received_at g of
        Inl g1 \<Rightarrow> g1
      | Inr (session_id, generation, logical, count, index) \<Rightarrow>
          (case check_epoch rd epoch session_id generation received_at g of
             Inl g1 \<Rightarrow> g1
           | Inr g1 \<Rightarrow>
               if sg_baseline_pending g1 then
                 (case collect_baseline (command, snapshot, received_at) logical count index g1 of
                    Inl g2 \<Rightarrow> g2
                  | Inr (g2, packets) \<Rightarrow>
                      (case commit_staged_baseline rd packets g2 of
                         (g3, True) \<Rightarrow> accept_packet rd epoch logical count index (note_earlier epoch packets g3)
                       | (g3, False) \<Rightarrow> g3))
               else
                 (case check_contiguous rd logical count index g1 of
                    Inl g2 \<Rightarrow> g2
                  | Inr g2 \<Rightarrow> apply_running rd command epoch snapshot logical count index g2)))"

fun process_item :: "reads \<Rightarrow> sg_item \<Rightarrow> sim_gateway \<Rightarrow> sim_gateway" where
  "process_item rd (SafetySample active received_at sequence) g = process_safety rd active received_at sequence g"
| "process_item rd (CommandPacket c epoch snapshot received_at) g =
     process_command rd c epoch snapshot received_at g"

text \<open>The items of the queue in order, each with what its processing reads.\<close>

fun drain :: "(sg_item \<times> reads) list \<Rightarrow> sim_gateway \<Rightarrow> sim_gateway" where
  "drain [] g = g"
| "drain ((item, rd) # items) g = drain items (process_item rd item g)"

definition spin_once :: "reads \<Rightarrow> pyfloat \<Rightarrow> pyfloat \<Rightarrow> (nat \<Rightarrow> reads) \<Rightarrow> sim_gateway \<Rightarrow> sim_gateway" where
  "spin_once rd t_safety t_command rds g =
     (let g1 = enforce_command_deadline rd t_command (sg_enforce_safety_deadline rd t_safety g);
          items = sg_queue g1
      in drain (zip items (map rds [0..<length items])) (g1\<lparr>sg_queue := []\<rparr>))"

end
