(* ===== verification/Stream_Safety.thy ===== *)
theory Stream_Safety
  imports Sim_Gateway
begin

text \<open>
  What the simulator's gateway guarantees: the backend runs only while the gate is clear and
  a complete baseline has been committed, any expired deadline or gap stops it until a new
  safety sample arrives, and no packet is applied twice or out of order.
\<close>

section \<open>Frames\<close>

lemma sg_stop_frame [simp]:
  "sg_active (sg_stop rd a g) = sg_active g" "sg_lost (sg_stop rd a g) = sg_lost g"
  "sg_baseline_pending (sg_stop rd a g) = sg_baseline_pending g"
  "bk_stopped (sg_backend (sg_stop rd a g)) = a"
  "sg_loss_seq (sg_stop rd a g) = sg_loss_seq g" "sg_clear_seq (sg_stop rd a g) = sg_clear_seq g"
  "sg_sample_seq (sg_stop rd a g) = sg_sample_seq g" "sg_queue (sg_stop rd a g) = sg_queue g"
  "sg_epoch (sg_stop rd a g) = sg_epoch g" "sg_applied (sg_stop rd a g) = sg_applied g"
  "sg_known_session (sg_stop rd a g) = sg_known_session g"
  "sg_known_generation (sg_stop rd a g) = sg_known_generation g"
  "sg_retired_sessions (sg_stop rd a g) = sg_retired_sessions g"
  "sg_recoverable (sg_stop rd a g) = sg_recoverable g" "sg_floor (sg_stop rd a g) = sg_floor g"
  "sg_last_logical (sg_stop rd a g) = sg_last_logical g"
  "sg_last_index (sg_stop rd a g) = sg_last_index g" "sg_pending (sg_stop rd a g) = sg_pending g"
  by (simp_all add: sg_stop_def bk.stopped_set)

lemma retire_frame [simp]:
  "sg_active (retire_command_epoch r s g) = sg_active g" "sg_lost (retire_command_epoch r s g) = sg_lost g"
  "sg_baseline_pending (retire_command_epoch r s g) = (s \<or> sg_baseline_pending g)"
  "sg_backend (retire_command_epoch r s g) = sg_backend g"
  "sg_loss_seq (retire_command_epoch r s g) = sg_loss_seq g"
  "sg_clear_seq (retire_command_epoch r s g) = sg_clear_seq g"
  "sg_sample_seq (retire_command_epoch r s g) = sg_sample_seq g"
  "sg_queue (retire_command_epoch r s g) = sg_queue g"
  "sg_epoch (retire_command_epoch r s g) = None" "sg_applied (retire_command_epoch r s g) = sg_applied g"
  "sg_known_session (retire_command_epoch r s g) = sg_known_session g"
  "sg_known_generation (retire_command_epoch r s g) = sg_known_generation g"
  "sg_retired_sessions (retire_command_epoch r s g) = sg_retired_sessions g"
  "sg_recoverable (retire_command_epoch r s g) = sg_recoverable g"
  "sg_last_logical (retire_command_epoch r False g) = sg_last_logical g"
  "sg_pending (retire_command_epoch r s g) = (if s then [] else sg_pending g)"
  by (simp_all add: retire_command_epoch_def Let_def split: option.split)

lemma arm_frame [simp]:
  "sg_active (arm_baseline_resynchronization rd g) = sg_active g"
  "sg_lost (arm_baseline_resynchronization rd g) = sg_lost g"
  "sg_baseline_pending (arm_baseline_resynchronization rd g) = sg_baseline_pending g"
  "sg_backend (arm_baseline_resynchronization rd g) = sg_backend g"
  "sg_loss_seq (arm_baseline_resynchronization rd g) = sg_loss_seq g"
  "sg_clear_seq (arm_baseline_resynchronization rd g) = sg_clear_seq g"
  "sg_sample_seq (arm_baseline_resynchronization rd g) = sg_sample_seq g"
  "sg_queue (arm_baseline_resynchronization rd g) = sg_queue g"
  "sg_epoch (arm_baseline_resynchronization rd g) = sg_epoch g"
  "sg_applied (arm_baseline_resynchronization rd g) = sg_applied g"
  "sg_known_session (arm_baseline_resynchronization rd g) = sg_known_session g"
  "sg_known_generation (arm_baseline_resynchronization rd g) = sg_known_generation g"
  "sg_retired_sessions (arm_baseline_resynchronization rd g) = sg_retired_sessions g"
  "sg_recoverable (arm_baseline_resynchronization rd g) = sg_recoverable g"
  "sg_floor (arm_baseline_resynchronization rd g) = sg_floor g"
  "sg_last_logical (arm_baseline_resynchronization rd g) = sg_last_logical g"
  "sg_last_index (arm_baseline_resynchronization rd g) = sg_last_index g"
  "sg_pending (arm_baseline_resynchronization rd g) = sg_pending g"
  by (simp_all add: arm_baseline_resynchronization_def Let_def)

lemma sg_reject_frame [simp]:
  "sg_active (sg_reject e g) = sg_active g" "sg_lost (sg_reject e g) = sg_lost g"
  "sg_baseline_pending (sg_reject e g) = sg_baseline_pending g"
  "sg_backend (sg_reject e g) = sg_backend g" "sg_loss_seq (sg_reject e g) = sg_loss_seq g"
  "sg_clear_seq (sg_reject e g) = sg_clear_seq g" "sg_sample_seq (sg_reject e g) = sg_sample_seq g"
  "sg_queue (sg_reject e g) = sg_queue g" "sg_epoch (sg_reject e g) = sg_epoch g"
  "sg_applied (sg_reject e g) = sg_applied g" "sg_known_session (sg_reject e g) = sg_known_session g"
  "sg_known_generation (sg_reject e g) = sg_known_generation g"
  "sg_retired_sessions (sg_reject e g) = sg_retired_sessions g"
  "sg_recoverable (sg_reject e g) = sg_recoverable g" "sg_floor (sg_reject e g) = sg_floor g"
  "sg_last_logical (sg_reject e g) = sg_last_logical g" "sg_last_index (sg_reject e g) = sg_last_index g"
  "sg_pending (sg_reject e g) = sg_pending g"
  by (simp_all add: sg_reject_def)

lemma not_one_frame [simp]:
  "sg_active (not_packet_one t g) = sg_active g" "sg_lost (not_packet_one t g) = sg_lost g"
  "sg_baseline_pending (not_packet_one t g) = sg_baseline_pending g"
  "sg_backend (not_packet_one t g) = sg_backend g" "sg_loss_seq (not_packet_one t g) = sg_loss_seq g"
  "sg_clear_seq (not_packet_one t g) = sg_clear_seq g" "sg_sample_seq (not_packet_one t g) = sg_sample_seq g"
  "sg_epoch (not_packet_one t g) = sg_epoch g" "sg_applied (not_packet_one t g) = sg_applied g"
  "sg_known_session (not_packet_one t g) = sg_known_session g"
  "sg_known_generation (not_packet_one t g) = sg_known_generation g"
  "sg_retired_sessions (not_packet_one t g) = sg_retired_sessions g"
  "sg_recoverable (not_packet_one t g) = sg_recoverable g" "sg_floor (not_packet_one t g) = sg_floor g"
  "sg_last_logical (not_packet_one t g) = sg_last_logical g"
  "sg_last_index (not_packet_one t g) = sg_last_index g" "sg_pending (not_packet_one t g) = sg_pending g"
  by (cases "sg_resync_until g"; simp add: not_packet_one_def consume_resync_def sg_reject_def)+

lemma last_count_frame [simp]:
  "sg_last_count (sg_stop rd a g) = sg_last_count g"
  "sg_last_count (arm_baseline_resynchronization rd g) = sg_last_count g"
  by (simp_all add: sg_stop_def arm_baseline_resynchronization_def Let_def)

section \<open>Fail closed\<close>

definition closed_inv :: "sim_gateway \<Rightarrow> bool" where
  "closed_inv g \<longleftrightarrow> bk_stopped (sg_backend g) = sg_lost g \<and> (sg_active g \<longrightarrow> sg_lost g)
     \<and> sg_lost g = sg_baseline_pending g"

lemma closed_cong:
  "closed_inv g \<Longrightarrow> bk_stopped (sg_backend g') = bk_stopped (sg_backend g) \<Longrightarrow> sg_lost g' = sg_lost g \<Longrightarrow>
   sg_active g' = sg_active g \<Longrightarrow> sg_baseline_pending g' = sg_baseline_pending g \<Longrightarrow> closed_inv g'"
  by (auto simp: closed_inv_def)

lemma closed_new: "closed_inv (sg_new b t1 t2 rd)"
  by (simp add: sg_new_def closed_inv_def)

lemma closed_apply: "closed_inv g \<Longrightarrow> closed_inv (apply_safety_stop rd a g)"
  by (cases a) (simp_all add: apply_safety_stop_def closed_inv_def Let_def)

lemma closed_lost: "closed_inv g \<Longrightarrow> closed_inv (enter_command_stream_lost rd t g)"
  by (simp add: enter_command_stream_lost_def closed_inv_def Let_def)

lemma closed_gap: "closed_inv g \<Longrightarrow> closed_inv (stop_on_command_gap rd e g)"
  unfolding stop_on_command_gap_def by (rule closed_cong [OF closed_lost]) simp_all

lemma closed_command_deadline: "closed_inv g \<Longrightarrow> closed_inv (enforce_command_deadline rd t g)"
  by (auto simp: enforce_command_deadline_def closed_lost split: option.split)

lemma closed_safety_deadline: "closed_inv g \<Longrightarrow> closed_inv (sg_enforce_safety_deadline rd t g)"
proof -
  assume inv: "closed_inv g"
  have "closed_inv ((apply_safety_stop rd True g)\<lparr>sg_error := Some ''safety heartbeat expired''\<rparr>)"
    by (rule closed_cong [OF closed_apply [OF inv]]) simp_all
  then show ?thesis using inv by (simp add: sg_enforce_safety_deadline_def)
qed

lemma closed_reject:
  "closed_inv (reject_staged_baseline rd e g)"
  by (simp add: reject_staged_baseline_def closed_inv_def Let_def bk.stopped_discard)

lemma commit_cases:
  assumes "commit_staged_baseline rd packets g = (g', ok)"
  obtains (failed) b e where "\<not> ok" "g' = reject_staged_baseline rd e (g\<lparr>sg_backend := b\<rparr>)"
  | (committed) b1 b3 where "ok" "g' = g\<lparr>sg_backend := b3, sg_lost := False\<rparr>" "\<not> bk_stopped b3"
    "preflight_loop begin_command_snapshot validate_backend_command packets
       (set_safety_stop (rd_joints rd) True (sg_backend g)) = (b1, Inr ())"
    "commit_loop begin_command_snapshot command_joints packets
       (set_safety_stop (rd_joints rd) False (discard_command_snapshot_staging b1)) = (b3, Inr ())"
proof -
  let ?b0 = "set_safety_stop (rd_joints rd) True (sg_backend g)"
  obtain b1 r1 where p: "preflight_loop begin_command_snapshot validate_backend_command packets ?b0 = (b1, r1)"
    by (metis prod.exhaust)
  let ?b2 = "set_safety_stop (rd_joints rd) False (discard_command_snapshot_staging b1)"
  obtain b3 r3 where c: "commit_loop begin_command_snapshot command_joints packets ?b2 = (b3, r3)"
    by (metis prod.exhaust)
  have run: "\<not> bk_stopped b3"
    using bk.commit_stopped [of packets ?b2] c by (simp add: bk.stopped_set)
  show thesis
  proof (cases r1)
    case (Inl e)
    then show thesis using assms p by (intro failed [where b = b1 and e = e]) (simp_all add: commit_staged_baseline_def)
  next
    case r1: (Inr u)
    show thesis
    proof (cases r3)
      case (Inl e)
      then show thesis using assms p c r1 by (intro failed [where b = b3 and e = e]) (simp_all add: commit_staged_baseline_def)
    next
      case (Inr v)
      have "ok" "g' = g\<lparr>sg_backend := b3, sg_lost := False\<rparr>"
        using assms p c r1 Inr by (simp_all add: commit_staged_baseline_def)
      then show thesis using committed [OF _ _ run] p c r1 Inr by simp
    qed
  qed
qed

lemma adopt_frame:
  "bk_stopped (sg_backend (adopt_command_epoch rd e s k t n g))"
  "sg_lost (adopt_command_epoch rd e s k t n g)"
  "sg_active (adopt_command_epoch rd e s k t n g) = sg_active g"
  "sg_baseline_pending (adopt_command_epoch rd e s k t n g)"
  by (auto simp: adopt_command_epoch_def Let_def sg_stop_def bk.stopped_set split: option.split)

lemma closed_check_epoch:
  assumes "closed_inv g" "check_epoch rd e s k t g = Inl g' \<or> check_epoch rd e s k t g = Inr g'"
  shows "closed_inv g'"
proof -
  have ad: "closed_inv (adopt_command_epoch rd e s k t n g)" for n
    by (simp add: closed_inv_def adopt_frame)
  have rj: "closed_inv (sg_reject m g)" for m by (rule closed_cong [OF assms(1)]) simp_all
  have re: "closed_inv (g\<lparr>sg_epoch := Some e\<rparr>)" by (rule closed_cong [OF assms(1)]) simp_all
  show ?thesis
  proof (cases "sg_epoch g")
    case None
    then show ?thesis using assms ad rj re by (auto simp: check_epoch_def split: if_splits)
  next
    case (Some c)
    then show ?thesis using assms ad rj
      by (auto simp: check_epoch_def Let_def split: if_splits sum.splits)
  qed
qed

lemma check_epoch_active: "check_epoch rd e s k t g = Inr g' \<Longrightarrow> sg_active g' = sg_active g"
  by (auto simp: check_epoch_def Let_def adopt_frame split: option.splits if_splits sum.splits)

lemma admit_active: "admit_packet e v t g = Inr p \<Longrightarrow> \<not> sg_active g"
  by (auto simp: admit_packet_def split: if_splits)

text \<open>Every branch of \<open>collect_baseline\<close>: it changes at most the pending packets, the error and the
  resynchronisation window.\<close>

lemma collect_cases:
  assumes "collect_baseline packet l c i g = r"
  obtains (refused) m where "r = Inl (sg_reject m g)"
  | (dropped) t where "r = Inl (not_packet_one t g)"
  | (low) m where "r = Inl (sg_reject m (g\<lparr>sg_pending := []\<rparr>))"
  | (held_back) "i = 1" "r = Inl (g\<lparr>sg_pending := [packet], sg_error := None\<rparr>)" "1 < c"
  | (extended) "i \<noteq> 1" "i < c" "r = Inl (g\<lparr>sg_pending := sg_pending g @ [packet], sg_error := None\<rparr>)"
      "\<exists>p ps. sg_pending g = p # ps \<and> (\<exists>k. decode_snapshot_packet (PInt (fst (snd p))) = Inr (l, c, k)
         \<and> i = k + int (length (sg_pending g)))"
  | (single) "i = 1" "c \<le> 1" "r = Inr (g, [packet])"
      "case sg_floor g of None \<Rightarrow> True | Some lowest \<Rightarrow> lowest < l"
  | (complete) "i \<noteq> 1" "\<not> i < c" "r = Inr (g\<lparr>sg_pending := []\<rparr>, sg_pending g @ [packet])"
      "\<exists>p ps. sg_pending g = p # ps \<and> (\<exists>k. decode_snapshot_packet (PInt (fst (snd p))) = Inr (l, c, k)
         \<and> i = k + int (length (sg_pending g)))"
      "case sg_floor g of None \<Rightarrow> True | Some lowest \<Rightarrow> lowest < l"
proof (cases "i = 1")
  case True
  show thesis
  proof (cases "sg_floor g")
    case None
    then show thesis using True assms held_back single
      by (cases "1 < c") (simp_all add: collect_baseline_def Let_def)
  next
    case (Some f)
    show thesis
    proof (cases "l \<le> f")
      case low: True
      have "\<exists>m. r = Inl (sg_reject m g)"
        using True assms Some low unfolding collect_baseline_def by auto
      then show thesis using refused by blast
    next
      case False
      then show thesis using True assms Some held_back single
        by (cases "1 < c") (simp_all add: collect_baseline_def Let_def)
    qed
  qed
next
  case i: False
  show thesis
  proof (cases "sg_pending g")
    case Nil
    then have "r = Inl (not_packet_one (snd (snd packet)) g)"
      using i assms unfolding collect_baseline_def by simp
    then show thesis by (rule dropped)
  next
    case (Cons p ps)
    show thesis
    proof (cases "decode_snapshot_packet (PInt (fst (snd p)))")
      case (Inl e)
      then have "r = Inl (sg_reject (exc_text e) g)"
        using i assms Cons unfolding collect_baseline_def by simp
      then show thesis by (rule refused)
    next
      case (Inr lck)
      obtain l' c' k where d: "decode_snapshot_packet (PInt (fst (snd p))) = Inr (l', c', k)"
        using Inr by (cases lck) simp
      show thesis
      proof (cases "l = l' \<and> c = c' \<and> i = k + int (length (sg_pending g))")
        case False
        then have "r = Inl (not_packet_one (snd (snd packet)) g)"
          using i assms Cons d unfolding collect_baseline_def by auto
        then show thesis by (rule dropped)
      next
        case m: True
        then have ex: "\<exists>p ps. sg_pending g = p # ps \<and> (\<exists>k. decode_snapshot_packet (PInt (fst (snd p))) = Inr (l, c, k)
           \<and> i = k + int (length (sg_pending g)))" using Cons d by auto
        show thesis
        proof (cases "i < c")
          case True
          have "r = Inl (g\<lparr>sg_pending := sg_pending g @ [packet], sg_error := None\<rparr>)"
            using i assms Cons d m True unfolding collect_baseline_def by simp
          then show thesis by (rule extended [OF i True _ ex])
        next
          case ge: False
          show thesis
          proof (cases "sg_floor g")
            case None
            have "r = Inr (g\<lparr>sg_pending := []\<rparr>, sg_pending g @ [packet])"
              using i assms Cons d m ge None unfolding collect_baseline_def by simp
            then show thesis using None by (intro complete [OF i ge _ ex]) simp_all
          next
            case (Some f)
            show thesis
            proof (cases "l \<le> f")
              case True
              have "\<exists>m. r = Inl (sg_reject m (g\<lparr>sg_pending := []\<rparr>))"
                using i assms Cons d m ge Some True unfolding collect_baseline_def by auto
              then show thesis using low by blast
            next
              case False
              have "r = Inr (g\<lparr>sg_pending := []\<rparr>, sg_pending g @ [packet])"
                using i assms Cons d m ge Some False unfolding collect_baseline_def by simp
              then show thesis using Some False by (intro complete [OF i ge _ ex]) simp_all
            qed
          qed
        qed
      qed
    qed
  qed
qed


lemma apply_running_cases:
  assumes inv: "closed_inv g" and run: "\<not> sg_baseline_pending g"
    and r: "apply_running rd command epoch snapshot l c i g = g'"
  obtains (failed) b m where "g' = sg_reject m (g\<lparr>sg_backend := b\<rparr>)" "\<not> bk_stopped b"
  | (applied) b where "g' = accept_packet rd epoch l c i (g\<lparr>sg_backend := b\<rparr>)" "\<not> bk_stopped b"
proof -
  have open_gate: "\<not> sg_lost g" "\<not> bk_stopped (sg_backend g)" using inv run by (simp_all add: closed_inv_def)
  obtain b1 r1 where 1: "begin_command_snapshot (PInt snapshot) (sg_backend g) = (b1, r1)"
    by (metis prod.exhaust)
  obtain b2 r2 where 2: "command_joints command b1 = (b2, r2)" by (metis prod.exhaust)
  have s1: "\<not> bk_stopped b1"
    using bk.stopped_begin [of "PInt snapshot" "sg_backend g"] 1 open_gate by simp
  have s2: "\<not> bk_stopped b2" using bk.stopped_command [of command b1] 2 s1 by simp
  show thesis
  proof (cases r1)
    case (Inl e)
    then have "g' = sg_reject (exc_text e) (g\<lparr>sg_backend := b1\<rparr>)"
      using r 1 by (simp add: apply_running_def)
    then show thesis using s1 by (rule failed)
  next
    case r1: (Inr u)
    show thesis
    proof (cases r2)
      case (Inl e)
      then have "g' = sg_reject (exc_text e) (g\<lparr>sg_backend := b2\<rparr>)"
        using r 1 2 r1 open_gate by (simp add: apply_running_def Let_def)
      then show thesis using s2 by (rule failed)
    next
      case (Inr a)
      have a
      proof -
        have "\<exists>x. snd (command_joints command b1) = Inl x \<or> snd (command_joints command b1) = Inr True"
          using s1 by (auto simp: command_joints_def Let_def split: sum.split option.split prod.split)
        then show a using 2 Inr by auto
      qed
      then have "g' = accept_packet rd epoch l c i (g\<lparr>sg_backend := b2\<rparr>)"
        using r 1 2 r1 Inr open_gate by (simp add: apply_running_def Let_def)
      then show thesis using s2 by (rule applied)
    qed
  qed
qed

lemma note_earlier_simps [simp]:
  "sg_baseline_pending (note_earlier e ps g) = sg_baseline_pending g" "sg_lost (note_earlier e ps g) = sg_lost g"
  "sg_active (note_earlier e ps g) = sg_active g" "sg_backend (note_earlier e ps g) = sg_backend g"
  "sg_epoch (note_earlier e ps g) = sg_epoch g" "sg_recoverable (note_earlier e ps g) = sg_recoverable g"
  "sg_known_session (note_earlier e ps g) = sg_known_session g"
  "sg_known_generation (note_earlier e ps g) = sg_known_generation g"
  "sg_retired_sessions (note_earlier e ps g) = sg_retired_sessions g"
  "sg_pending (note_earlier e ps g) = sg_pending g" "sg_clear_seq (note_earlier e ps g) = sg_clear_seq g"
  "sg_sample_seq (note_earlier e ps g) = sg_sample_seq g" "sg_queue (note_earlier e ps g) = sg_queue g"
  "sg_floor (note_earlier e ps g) = sg_floor g" "sg_last_logical (note_earlier e ps g) = sg_last_logical g"
  "sg_last_index (note_earlier e ps g) = sg_last_index g"
  "sg_applied (note_earlier e ps g) = sg_applied g @ map (packet_entry e) (butlast ps)"
  by (simp_all add: note_earlier_def)

definition baseline_step ::
  "reads \<Rightarrow> int \<Rightarrow> int \<Rightarrow> int \<Rightarrow> int \<Rightarrow> staged list \<Rightarrow> sim_gateway \<Rightarrow> sim_gateway" where
  "baseline_step rd epoch l c i ps g =
     (case commit_staged_baseline rd ps g of
        (g3, True) \<Rightarrow> accept_packet rd epoch l c i (note_earlier epoch ps g3)
      | (g3, False) \<Rightarrow> g3)"

lemma baseline_step_cases:
  assumes "baseline_step rd epoch l c i ps g = g'"
  obtains (failed) b e where "g' = reject_staged_baseline rd e (g\<lparr>sg_backend := b\<rparr>)"
  | (committed) b1 b3 where "g' = accept_packet rd epoch l c i (note_earlier epoch ps (g\<lparr>sg_backend := b3, sg_lost := False\<rparr>))"
    "\<not> bk_stopped b3"
    "preflight_loop begin_command_snapshot validate_backend_command ps
       (set_safety_stop (rd_joints rd) True (sg_backend g)) = (b1, Inr ())"
    "commit_loop begin_command_snapshot command_joints ps
       (set_safety_stop (rd_joints rd) False (discard_command_snapshot_staging b1)) = (b3, Inr ())"
proof -
  obtain g3 ok where c: "commit_staged_baseline rd ps g = (g3, ok)" by (metis prod.exhaust)
  from c show thesis
  proof (cases rule: commit_cases [consumes 1])
    case (failed b e)
    then have "g' = reject_staged_baseline rd e (g\<lparr>sg_backend := b\<rparr>)"
      using assms c by (simp add: baseline_step_def)
    then show thesis by (rule that(1))
  next
    case (committed b1 b3)
    then show thesis using assms c by (intro that(2) [of b3 b1]) (simp_all add: baseline_step_def)
  qed
qed

lemma closed_baseline:
  assumes "closed_inv g" "sg_baseline_pending g" "\<not> sg_active g"
  shows "closed_inv (baseline_step rd epoch l c i ps g)"
proof -
  obtain g' where g': "baseline_step rd epoch l c i ps g = g'" by simp
  then show ?thesis
  proof (cases rule: baseline_step_cases [consumes 1])
    case (failed b e)
    then show ?thesis using g' closed_reject by simp
  next
    case (committed b1 b3)
    then show ?thesis using g' assms by (simp add: closed_inv_def accept_packet_def)
  qed
qed

lemma closed_process_command:
  assumes inv: "closed_inv g"
  shows "closed_inv (process_command rd cmd epoch snapshot t g)"
proof (cases "admit_packet epoch snapshot t g")
  case (Inl g1)
  have rj: "closed_inv (sg_reject m g)" for m by (rule closed_cong [OF inv]) simp_all
  have "\<exists>m. g1 = sg_reject m g" using Inl
    by (auto simp: admit_packet_def split: if_splits sum.splits prod.splits)
  then show ?thesis using Inl rj by (auto simp: process_command_def)
next
  case (Inr p)
  obtain s k l c i where p: "p = (s, k, l, c, i)" by (metis prod.exhaust)
  show ?thesis
  proof (cases "check_epoch rd epoch s k t g")
    case (Inl g1)
    then show ?thesis using Inr p closed_check_epoch [OF inv, of rd epoch s k t g1]
      by (simp add: process_command_def)
  next
    case e: (Inr g1)
    have inv1: "closed_inv g1" using closed_check_epoch [OF inv, of rd epoch s k t g1] e by simp
    show ?thesis
    proof (cases "sg_baseline_pending g1")
      case pending: True
      have off: "\<not> sg_active g1" using check_epoch_active [of rd epoch s k t g g1] e admit_active [OF Inr] by simp
      obtain r where r: "collect_baseline (cmd, snapshot, t) l c i g1 = r" by simp
      have step: "process_command rd cmd epoch snapshot t g =
        (case r of Inl g2 \<Rightarrow> g2 | Inr (g2, ps) \<Rightarrow> baseline_step rd epoch l c i ps g2)"
        by (simp add: process_command_def Inr p e pending r baseline_step_def split: sum.split prod.split)
      from r show ?thesis
      proof (cases rule: collect_cases [consumes 1])
        case single
        then show ?thesis using closed_baseline inv1 pending off by (simp add: step)
      next
        case complete
        have "closed_inv (g1\<lparr>sg_pending := []\<rparr>)" by (rule closed_cong [OF inv1]) simp_all
        then show ?thesis using complete closed_baseline pending off by (simp add: step)
      qed (simp_all add: step closed_cong [OF inv1])
    next
      case running: False
      have rj: "closed_inv (sg_reject m g1)" for m by (rule closed_cong [OF inv1]) simp_all
      show ?thesis
      proof (cases "check_contiguous rd l c i g1")
        case (Inl g2)
        then have "closed_inv g2" using rj closed_gap [OF inv1]
          by (auto simp: check_contiguous_def split: if_splits)
        then show ?thesis using Inl by (simp add: process_command_def Inr p e running)
      next
        case go: (Inr g2)
        then have "g2 = g1" by (auto simp: check_contiguous_def split: if_splits)
        then have step: "process_command rd cmd epoch snapshot t g = apply_running rd cmd epoch snapshot l c i g1"
          using go by (simp add: process_command_def Inr p e running)
        obtain g3 where g3: "apply_running rd cmd epoch snapshot l c i g1 = g3" by simp
        show ?thesis
        proof (cases rule: apply_running_cases [OF inv1 running g3])
          case (1 b m)
          then show ?thesis using step g3 inv1 running by (auto simp: closed_inv_def)
        next
          case (2 b)
          then show ?thesis using step g3 inv1 running by (auto simp: closed_inv_def accept_packet_def)
        qed
      qed
    qed
  qed
qed


lemma closed_process_item:
  assumes inv: "closed_inv g" shows "closed_inv (process_item rd item g)"
proof (cases item)
  case (SafetySample a t n)
  have "closed_inv (if a then g else g\<lparr>sg_clear_seq := n, sg_clear_at := Some t\<rparr>)"
    by (rule closed_cong [OF inv]) simp_all
  from closed_apply [OF this, of rd a]
  have "closed_inv ((apply_safety_stop rd a (if a then g else g\<lparr>sg_clear_seq := n, sg_clear_at := Some t\<rparr>))
          \<lparr>sg_error := None\<rparr>)"
    by (rule closed_cong) simp_all
  then show ?thesis using SafetySample inv by (simp add: process_safety_def Let_def)
qed (use closed_process_command [OF inv] in simp)

lemma closed_drain: "closed_inv g \<Longrightarrow> closed_inv (drain items g)"
  by (induction items g rule: drain.induct) (simp_all add: closed_process_item)

lemma closed_spin: "closed_inv g \<Longrightarrow> closed_inv (spin_once rd t1 t2 rds g)"
proof -
  let ?g = "enforce_command_deadline rd t2 (sg_enforce_safety_deadline rd t1 g)"
  assume "closed_inv g"
  then have "closed_inv ?g" by (intro closed_command_deadline closed_safety_deadline)
  then have "closed_inv (?g\<lparr>sg_queue := []\<rparr>)" by (rule closed_cong) simp_all
  then show ?thesis by (simp add: spin_once_def Let_def closed_drain)
qed

text \<open>What happens to the gateway: a command frame or a safety sample arrives, or the simulation
  thread spins.\<close>

datatype sg_event =
    Frame_Arrives pyval "string list" "pyfloat list" "pyfloat list" "pyfloat list" pyfloat
  | Sample_Arrives bool pyfloat "pyfloat option"
  | Spin reads pyfloat pyfloat "nat \<Rightarrow> reads"

fun sg_step :: "sg_event \<Rightarrow> sim_gateway \<Rightarrow> sim_gateway" where
  "sg_step (Frame_Arrives frame_id names positions velocities efforts now) g =
     sg_joint_command frame_id names positions velocities efforts now g"
| "sg_step (Sample_Arrives active now sim) g = sg_safety_sample active now sim g"
| "sg_step (Spin rd t_safety t_command rds) g = spin_once rd t_safety t_command rds g"

definition sg_run :: "sg_event list \<Rightarrow> sim_gateway \<Rightarrow> sim_gateway" where
  "sg_run es g = run_events sg_step es g"

text \<open>A start-up: the gate clears, then one snapshot of one packet arrives.\<close>

definition demo_reads :: "pyfloat \<Rightarrow> reads" where
  "demo_reads t = \<lparr>rd_check = t, rd_loss = t, rd_done = t, rd_sim = Some t, rd_joints = [Fin 0, Fin 0]\<rparr>"

definition demo_spin :: "pyfloat \<Rightarrow> sg_event" where
  "demo_spin t = Spin (demo_reads t) t t (\<lambda>_. demo_reads t)"

definition demo_start :: "sg_event list" where
  "demo_start = [Sample_Arrives False (Fin 1) (Some (Fin 1)), demo_spin (Fin 1),
     Frame_Arrives (PStr ''tinker_command_epoch:7;snapshot:5'') [''j1''] [Fin 1] [] [] (Fin 2), demo_spin (Fin 2)]"

definition demo_gateway :: sim_gateway where
  "demo_gateway = sg_new demo_backend (Fin 3) (Fin 3) (demo_reads (Fin 0))"

lemma closed_step: "closed_inv g \<Longrightarrow> closed_inv (sg_step e g)"
proof (cases e)
  assume inv: "closed_inv g"
  case (Frame_Arrives f n p v x t)
  then show ?thesis
    using inv by (auto simp: sg_joint_command_def closed_inv_def split: sum.split prod.split)
next
  assume inv: "closed_inv g"
  case (Sample_Arrives a t s)
  then show ?thesis using inv by (auto simp: sg_safety_sample_def closed_inv_def Let_def)
qed (simp add: closed_spin)

interpretation sg_closed: event_invariant sg_step closed_inv
  by unfold_locales (rule closed_step)

text \<open>C5: The simulator fails closed. After any history of frames, safety samples and spins the
  backend accepts motion only while the safety gate is clear and a complete baseline of the
  current stream has been committed; with the gate active, the stream lost or the baseline
  pending it is stopped, and refuses every command.\<close>
theorem simulator_fails_closed:
  assumes "g = sg_run es (sg_new b safety_timeout command_timeout rd)"
  shows "(\<not> bk_stopped (sg_backend g) \<longrightarrow> \<not> sg_active g \<and> \<not> sg_lost g \<and> \<not> sg_baseline_pending g)
     \<and> (sg_active g \<or> sg_lost g \<or> sg_baseline_pending g \<longrightarrow>
          (\<forall>c. command_joints c (sg_backend g) = (sg_backend g, Inr False)))"
proof -
  have "closed_inv g" unfolding assms sg_run_def by (rule sg_closed.run_inv [OF closed_new])
  then show ?thesis using bk.command_refused by (auto simp: closed_inv_def)
qed


theorem simulator_fails_closed_witness:
  "\<not> bk_stopped (sg_backend (sg_run demo_start demo_gateway))
     \<and> \<not> sg_active (sg_run demo_start demo_gateway) \<and> \<not> sg_baseline_pending (sg_run demo_start demo_gateway)"
proof -
  have "\<not> bk_stopped (sg_backend (sg_run demo_start demo_gateway))" by code_simp
  then show ?thesis
    using simulator_fails_closed [OF refl, of demo_start demo_backend "Fin 3" "Fin 3" "demo_reads (Fin 0)"]
    unfolding demo_gateway_def by blast
qed

section \<open>The outcomes of a command packet\<close>

text \<open>The part of the state the protocol's safety rests on.\<close>

definition stream where
  "stream g = ((sg_applied g, sg_epoch g, sg_known_session g, sg_known_generation g, sg_retired_sessions g,
      sg_recoverable g, sg_floor g, sg_last_logical g, sg_last_count g, sg_last_index g),
      (sg_baseline_pending g, sg_lost g, sg_active g, sg_clear_seq g, sg_loss_seq g, sg_sample_seq g, sg_queue g))"

lemma stream_simps [simp]:
  "stream (sg_reject m g) = stream g" "stream (g\<lparr>sg_backend := b\<rparr>) = stream g"
  "stream (g\<lparr>sg_pending := ps\<rparr>) = stream g" "stream (g\<lparr>sg_error := e\<rparr>) = stream g"
  "stream (not_packet_one t g) = stream g"
  by (cases "sg_resync_until g"; simp add: stream_def sg_reject_def not_packet_one_def consume_resync_def)+

definition contiguous :: "int \<Rightarrow> int \<Rightarrow> int \<Rightarrow> sim_gateway \<Rightarrow> bool" where
  "contiguous l c i g \<longleftrightarrow>
     l = sg_last_logical g \<and> c = sg_last_count g \<and> i = sg_last_index g + 1 \<or> l = sg_last_logical g + 1 \<and> i = 1"

definition outdated :: "int \<Rightarrow> int \<Rightarrow> int \<Rightarrow> sim_gateway \<Rightarrow> bool" where
  "outdated l c i g \<longleftrightarrow>
     l < sg_last_logical g \<or> l = sg_last_logical g \<and> c = sg_last_count g \<and> i \<le> sg_last_index g"

lemma check_contiguous_cases:
  assumes "check_contiguous rd l c i g = r"
  obtains (old) m where "outdated l c i g" "r = Inl (sg_reject m g)"
  | (gap) m where "\<not> outdated l c i g" "\<not> contiguous l c i g" "r = Inl (stop_on_command_gap rd m g)"
  | (follows) "\<not> outdated l c i g" "contiguous l c i g" "r = Inr g"
proof -
  have "\<exists>m. r = Inl (sg_reject m g)" if "outdated l c i g"
    using that assms by (auto simp: check_contiguous_def outdated_def)
  moreover have "\<exists>m. r = Inl (stop_on_command_gap rd m g)" if "\<not> outdated l c i g" "\<not> contiguous l c i g"
    using that assms unfolding check_contiguous_def outdated_def contiguous_def by (auto split: if_splits)
  moreover have "r = Inr g" if "\<not> outdated l c i g" "contiguous l c i g"
    using that assms unfolding check_contiguous_def outdated_def contiguous_def by (auto split: if_splits)
  ultimately show thesis using that by metis
qed

lemma admit_cases:
  assumes "admit_packet epoch snapshot t g = r"
  obtains (refused) m where "r = Inl (sg_reject m g)"
  | (admitted) s k l c i where "r = Inr (s, k, l, c, i)" "decode_command_epoch (PInt epoch) = Inr (s, k)"
    "decode_snapshot_packet (PInt snapshot) = Inr (l, c, i)" "s \<notin> set (sg_retired_sessions g)"
    "\<not> sg_active g" "\<not> (sg_lost g \<and> sg_clear_seq g \<le> sg_loss_seq g)"
proof (cases "\<exists>m. r = Inl (sg_reject m g)")
  case False
  then obtain s k l c i where "r = Inr (s, k, l, c, i)" "decode_command_epoch (PInt epoch) = Inr (s, k)"
    "decode_snapshot_packet (PInt snapshot) = Inr (l, c, i)" "s \<notin> set (sg_retired_sessions g)"
    "\<not> sg_active g" "\<not> (sg_lost g \<and> sg_clear_seq g \<le> sg_loss_seq g)"
    using assms unfolding admit_packet_def by (auto split: if_splits sum.splits prod.splits)
  then show thesis by (rule admitted)
qed (use refused in blast)

lemma collect_stream:
  assumes "collect_baseline packet l c i g = r"
  obtains (held) g' where "r = Inl g'" "stream g' = stream g" "sg_backend g' = sg_backend g"
  | (ready) g' ps where "r = Inr (g', ps)" "stream g' = stream g" "sg_backend g' = sg_backend g"
    "case sg_floor g of None \<Rightarrow> True | Some lowest \<Rightarrow> lowest < l"
  using assms
proof (cases rule: collect_cases [consumes 1])
  case single
  then show thesis using ready by simp
next
  case complete
  then show thesis using ready by simp
qed (use held in simp_all)


lemma check_epoch_cases:
  assumes "check_epoch rd epoch s k t g = r"
  obtains (refused) m where "r = Inl (sg_reject m g)"
  | (current) "sg_epoch g = Some epoch" "r = Inr g"
  | (recovered) "sg_epoch g = None" "sg_recoverable g = Some epoch" "r = Inr (g\<lparr>sg_epoch := Some epoch\<rparr>)"
  | (restarted) n where "sg_epoch g = None" "\<not> (sg_known_session g = Some s
        \<and> (case sg_known_generation g of None \<Rightarrow> False | Some k' \<Rightarrow> k \<le> k'))"
      "fresh_clear_boundary t g" "n = (sg_known_session g \<noteq> None \<and> sg_known_session g \<noteq> Some s)"
      "r = Inr (adopt_command_epoch rd epoch s k t n g)"
  | (replaced) c s' k' where "sg_epoch g = Some c" "c \<noteq> epoch" "decode_command_epoch (PInt c) = Inr (s', k')"
      "\<not> (s = s' \<and> k \<le> k')" "fresh_clear_boundary t g"
      "r = Inr (adopt_command_epoch rd epoch s k t (s \<noteq> s') g)"
proof (cases "\<exists>m. r = Inl (sg_reject m g)")
  case False
  show thesis
  proof (cases "sg_epoch g")
    case None
    have "sg_recoverable g = Some epoch \<and> r = Inr (g\<lparr>sg_epoch := Some epoch\<rparr>)
      \<or> r = Inr (adopt_command_epoch rd epoch s k t (sg_known_session g \<noteq> None \<and> sg_known_session g \<noteq> Some s) g)
        \<and> fresh_clear_boundary t g \<and> \<not> (sg_known_session g = Some s
            \<and> (case sg_known_generation g of None \<Rightarrow> False | Some k' \<Rightarrow> k \<le> k'))"
      using False assms None unfolding check_epoch_def by (auto split: if_splits)
    then show thesis using recovered restarted None by blast
  next
    case (Some c)
    show thesis
    proof (cases "epoch = c")
      case True
      then show thesis using current assms Some by (simp add: check_epoch_def)
    next
      case ne: False
      obtain s' k' where d: "decode_command_epoch (PInt c) = Inr (s', k')"
      proof (cases "decode_command_epoch (PInt c)")
        case (Inl e)
        then have "r = Inl (sg_reject (exc_text e) g)" using assms Some ne by (simp add: check_epoch_def)
        then show ?thesis using False by blast
      qed (use that in auto)
      have "\<not> (s = s' \<and> k \<le> k') \<and> fresh_clear_boundary t g
        \<and> r = Inr (adopt_command_epoch rd epoch s k t (s \<noteq> s') g)"
        using False assms Some ne d unfolding check_epoch_def Let_def by (auto split: if_splits)
      then show thesis using replaced Some ne d by blast
    qed
  qed
qed (use refused in blast)

lemma closed_epoch: "closed_inv g \<Longrightarrow> check_epoch rd e s k t g = Inr g1 \<Longrightarrow> closed_inv g1"
  using closed_check_epoch [of g rd e s k t g1] by blast

lemma process_cases:
  assumes inv: "closed_inv g" and r: "process_command rd cmd epoch snapshot t g = g'"
  obtains (refused) m where "g' = sg_reject m g"
  | (entered) s k l c i g1 where
      "decode_command_epoch (PInt epoch) = Inr (s, k)" "decode_snapshot_packet (PInt snapshot) = Inr (l, c, i)"
      "s \<notin> set (sg_retired_sessions g)" "\<not> sg_active g" "\<not> (sg_lost g \<and> sg_clear_seq g \<le> sg_loss_seq g)"
      "check_epoch rd epoch s k t g = Inr g1" "closed_inv g1"
      "stream g' = stream g1 \<and> bk_stopped (sg_backend g') = bk_stopped (sg_backend g1)
       \<or> sg_baseline_pending g1 \<and> (\<exists>g2 e. stream g2 = stream g1 \<and> g' = reject_staged_baseline rd e g2)
       \<or> sg_baseline_pending g1 \<and> (case sg_floor g1 of None \<Rightarrow> True | Some lowest \<Rightarrow> lowest < l)
         \<and> (\<exists>g2 g3 ps. collect_baseline (cmd, snapshot, t) l c i g1 = Inr (g3, ps)
              \<and> stream g2 = stream g1 \<and> \<not> bk_stopped (sg_backend g2)
              \<and> g' = accept_packet rd epoch l c i (note_earlier epoch ps (g2\<lparr>sg_lost := False\<rparr>)))
       \<or> \<not> sg_baseline_pending g1 \<and> \<not> outdated l c i g1 \<and> \<not> contiguous l c i g1
         \<and> (\<exists>m. g' = stop_on_command_gap rd m g1)
       \<or> \<not> sg_baseline_pending g1 \<and> contiguous l c i g1
         \<and> (\<exists>b. \<not> bk_stopped b \<and> g' = accept_packet rd epoch l c i (g1\<lparr>sg_backend := b\<rparr>))"
proof -
  obtain a where "admit_packet epoch snapshot t g = a" by simp
  then show thesis
  proof (cases rule: admit_cases [consumes 1])
    case (refused m)
    then have "g' = sg_reject m g" using r \<open>admit_packet epoch snapshot t g = a\<close> by (simp add: process_command_def)
    then show thesis by (rule that(1))
  next
    case (admitted s k l c i)
    note adm = \<open>admit_packet epoch snapshot t g = a\<close> admitted
    obtain ce where ce: "check_epoch rd epoch s k t g = ce" by simp
    show thesis
    proof (cases ce)
      case (Inl g1)
      from ce have "\<exists>m. g1 = sg_reject m g"
      proof (cases rule: check_epoch_cases [consumes 1])
        case (refused m)
        then show ?thesis using Inl by auto
      qed (simp_all add: Inl)
      moreover have "g' = g1" using r adm ce Inl by (simp add: process_command_def)
      ultimately show thesis using that(1) by blast
    next
      case e: (Inr g1)
      note inv1 = closed_epoch [OF inv ce [unfolded e]]
      note fin = that(2) [OF adm(3-7) ce [unfolded e] inv1]
      show thesis
      proof (cases "sg_baseline_pending g1")
        case pending: True
        obtain cb where cb: "collect_baseline (cmd, snapshot, t) l c i g1 = cb" by simp
        have step: "g' = (case cb of Inl g2 \<Rightarrow> g2 | Inr (g2, ps) \<Rightarrow> baseline_step rd epoch l c i ps g2)"
          using r adm ce e pending cb
          by (auto simp: process_command_def baseline_step_def split: sum.split prod.split)
        from cb show thesis
        proof (cases rule: collect_stream [consumes 1])
          case (held g2)
          then show thesis using step by (intro fin) simp
        next
          case (ready g2 ps)
          then have "baseline_step rd epoch l c i ps g2 = g'" using step by simp
          then show thesis
          proof (cases rule: baseline_step_cases [consumes 1])
            case (failed b x)
            then show thesis using pending ready by (intro fin) (auto intro!: exI [of _ "g2\<lparr>sg_backend := b\<rparr>"])
          next
            case (committed b1 b3)
            then have "g' = accept_packet rd epoch l c i (note_earlier epoch ps ((g2\<lparr>sg_backend := b3\<rparr>)\<lparr>sg_lost := False\<rparr>))"
              by simp
            moreover have "collect_baseline (cmd, snapshot, t) l c i g1 = Inr (g2, ps)" using ready cb by simp
            moreover have "stream (g2\<lparr>sg_backend := b3\<rparr>) = stream g1" using ready by simp
            moreover have "\<not> bk_stopped (sg_backend (g2\<lparr>sg_backend := b3\<rparr>))" using committed by simp
            ultimately show thesis using pending ready(4) by (intro fin) blast
          qed
        qed
      next
        case running: False
        obtain cc where cc: "check_contiguous rd l c i g1 = cc" by simp
        then show thesis
        proof (cases rule: check_contiguous_cases [consumes 1])
          case (old m)
          then have "g' = sg_reject m g1" using r adm ce e running cc by (simp add: process_command_def)
          then show thesis by (intro fin) simp
        next
          case (gap m)
          then have "g' = stop_on_command_gap rd m g1" using r adm ce e running cc by (simp add: process_command_def)
          then show thesis using running gap by (intro fin) blast
        next
          case follows
          then have go: "apply_running rd cmd epoch snapshot l c i g1 = g'"
            using r adm ce e running cc by (simp add: process_command_def)
          from inv1 running go show thesis
          proof (cases rule: apply_running_cases [consumes 3])
            case (failed b m)
            then show thesis using inv1 running by (intro fin) (simp add: closed_inv_def)
          next
            case (applied b)
            then show thesis using running follows by (intro fin) blast
          qed
        qed
      qed
    qed
  qed
qed


section \<open>Gaps\<close>

definition backend_takes :: "joint_command \<Rightarrow> int \<Rightarrow> backend \<Rightarrow> backend option" where
  "backend_takes c v b =
     (case begin_command_snapshot (PInt v) b of
        (b1, Inl e) \<Rightarrow> None
      | (b1, Inr _) \<Rightarrow> (case command_joints c b1 of (b2, Inl e) \<Rightarrow> None | (b2, Inr _) \<Rightarrow> Some b2))"

lemma apply_running_takes:
  assumes "closed_inv g" "\<not> sg_baseline_pending g"
  shows "apply_running rd cmd epoch snapshot l c i g =
     (case backend_takes cmd snapshot (sg_backend g) of
        Some b \<Rightarrow> accept_packet rd epoch l c i (g\<lparr>sg_backend := b\<rparr>)
      | None \<Rightarrow> apply_running rd cmd epoch snapshot l c i g)
   \<and> (backend_takes cmd snapshot (sg_backend g) = None \<longrightarrow>
        stream (apply_running rd cmd epoch snapshot l c i g) = stream g)"
proof -
  have open_gate: "\<not> sg_lost g" "\<not> bk_stopped (sg_backend g)" using assms by (simp_all add: closed_inv_def)
  obtain b1 r1 where 1: "begin_command_snapshot (PInt snapshot) (sg_backend g) = (b1, r1)"
    by (metis prod.exhaust)
  obtain b2 r2 where 2: "command_joints cmd b1 = (b2, r2)" by (metis prod.exhaust)
  have s1: "\<not> bk_stopped b1"
    using bk.stopped_begin [of "PInt snapshot" "sg_backend g"] 1 open_gate by simp
  have acc: "r2 \<noteq> Inr False"
  proof -
    have "snd (command_joints cmd b1) \<noteq> Inr False"
      using s1 by (auto simp: command_joints_def Let_def split: sum.split option.split prod.split)
    then show ?thesis using 2 by simp
  qed
  show ?thesis
    using 1 2 acc open_gate
    by (cases r1; cases r2) (simp_all add: apply_running_def backend_takes_def)
qed

lemma closed_reachable: "closed_inv (sg_run es (sg_new b t1 t2 rd))"
  unfolding sg_run_def by (rule sg_closed.run_inv [OF closed_new])

text \<open>A running stream is contiguous. For every reachable running gateway and admitted packet
  of its epoch: an outdated packet changes nothing but the reported error; a packet that skips
  one stops the backend, applies nothing, and leaves the epoch to be resumed only by a baseline
  above the last snapshot; the packet that follows is handed to the backend, and counted
  exactly when the backend takes it.\<close>
theorem running_stream_contiguous:
  assumes "g = sg_run es (sg_new b safety_timeout command_timeout rd0)"
    and "\<not> bk_stopped (sg_backend g)" and "sg_epoch g = Some epoch"
    and "admit_packet epoch snapshot t g = Inr (s, k, l, c, i)"
    and "g' = process_command rd cmd epoch snapshot t g"
  shows "(outdated l c i g \<longrightarrow> g' = g\<lparr>sg_error := sg_error g'\<rparr>)
     \<and> (\<not> outdated l c i g \<and> \<not> contiguous l c i g \<longrightarrow>
          bk_stopped (sg_backend g') \<and> sg_applied g' = sg_applied g \<and> sg_baseline_pending g'
          \<and> sg_epoch g' = None \<and> sg_recoverable g' = Some epoch \<and> sg_floor g' = Some (sg_last_logical g))
     \<and> (\<not> outdated l c i g \<and> contiguous l c i g \<longrightarrow>
          (case backend_takes cmd snapshot (sg_backend g) of
             Some b' \<Rightarrow> g' = accept_packet rd epoch l c i (g\<lparr>sg_backend := b'\<rparr>)
           | None \<Rightarrow> sg_applied g' = sg_applied g \<and> \<not> bk_stopped (sg_backend g')))"
proof -
  have inv: "closed_inv g" using assms(1) closed_reachable by simp
  have run: "\<not> sg_baseline_pending g" "\<not> sg_lost g" using inv assms(2) by (auto simp: closed_inv_def)
  have step: "g' = (case check_contiguous rd l c i g of
      Inl g2 \<Rightarrow> g2 | Inr g2 \<Rightarrow> apply_running rd cmd epoch snapshot l c i g2)"
    using assms(3-5) run by (simp add: process_command_def check_epoch_def)
  obtain r where r: "check_contiguous rd l c i g = r" by simp
  then show ?thesis
  proof (cases rule: check_contiguous_cases [consumes 1])
    case (old m)
    then show ?thesis using step r by (simp add: sg_reject_def)
  next
    case (gap m)
    then have "g' = stop_on_command_gap rd m g" using step r by simp
    then show ?thesis using gap run assms(3)
      by (simp add: stop_on_command_gap_def enter_command_stream_lost_def Let_def sg_stop_def bk.stopped_set)
  next
    case follows
    then have g': "g' = apply_running rd cmd epoch snapshot l c i g" using step r by simp
    note t = apply_running_takes [OF inv run(1), of rd cmd epoch snapshot l c i]
    from inv run(1) g' [symmetric] have on: "\<not> bk_stopped (sg_backend g')"
      by (cases rule: apply_running_cases [consumes 3]) (simp_all add: accept_packet_def)
    show ?thesis
    proof (cases "backend_takes cmd snapshot (sg_backend g)")
      case None
      then have "stream g' = stream g" using t g' by simp
      then have "sg_applied g' = sg_applied g" by (simp add: stream_def)
      then show ?thesis using follows None on by simp
    next
      case (Some b')
      then have "g' = accept_packet rd epoch l c i (g\<lparr>sg_backend := b'\<rparr>)" using t g' by simp
      then show ?thesis using follows Some by simp
    qed
  qed
qed


theorem running_stream_contiguous_witness:
  "bk_stopped (sg_backend (process_command (demo_reads (Fin 3)) \<lparr>jc_names = [''j1''], jc_positions = [Fin 1],
       jc_velocities = [], jc_efforts = []\<rparr> 7 8 (Fin 3) (sg_run demo_start demo_gateway)))"
proof -
  let ?g = "sg_run demo_start demo_gateway"
  have 1: "\<not> bk_stopped (sg_backend ?g)" by code_simp
  have 2: "sg_epoch ?g = Some 7" by code_simp
  have "case admit_packet 7 8 (Fin 3) ?g of Inl e \<Rightarrow> False | Inr p \<Rightarrow> p = (0, 7, 8, 1, 1)" by code_simp
  then have 3: "admit_packet 7 8 (Fin 3) ?g = Inr (0, 7, 8, 1, 1)" by (simp split: sum.splits)
  have 4: "\<not> outdated 8 1 1 ?g" by code_simp
  have 5: "\<not> contiguous 8 1 1 ?g" by code_simp
  show ?thesis
    using running_stream_contiguous [OF _ 1 2 3 refl, of demo_start demo_backend "Fin 3" "Fin 3" "demo_reads (Fin 0)"]
      4 5 unfolding demo_gateway_def by blast
qed


section \<open>Deadlines\<close>

fun item_seq :: "int \<Rightarrow> sg_item \<Rightarrow> bool" where
  "item_seq S (SafetySample a t n) = (n \<le> S)"
| "item_seq S (CommandPacket c e v t) = True"

definition seq_inv :: "sim_gateway \<Rightarrow> bool" where
  "seq_inv g \<longleftrightarrow> sg_clear_seq g \<le> sg_sample_seq g \<and> list_all (item_seq (sg_sample_seq g)) (sg_queue g)"

lemma adopt_seq [simp]:
  "sg_clear_seq (adopt_command_epoch rd e s k t n g) = sg_clear_seq g"
  "sg_sample_seq (adopt_command_epoch rd e s k t n g) = sg_sample_seq g"
  "sg_queue (adopt_command_epoch rd e s k t n g) = sg_queue g"
  by (auto simp: adopt_command_epoch_def Let_def split: option.split)

lemma lost_seq [simp]:
  "sg_clear_seq (enter_command_stream_lost rd t g) = sg_clear_seq g"
  "sg_sample_seq (enter_command_stream_lost rd t g) = sg_sample_seq g"
  "sg_queue (enter_command_stream_lost rd t g) = sg_queue g"
  by (simp_all add: enter_command_stream_lost_def Let_def)

lemma apply_stop_seq [simp]:
  "sg_clear_seq (apply_safety_stop rd a g) = sg_clear_seq g"
  "sg_sample_seq (apply_safety_stop rd a g) = sg_sample_seq g"
  "sg_queue (apply_safety_stop rd a g) = sg_queue g"
  by (simp_all add: apply_safety_stop_def Let_def)

lemma reject_baseline_seq [simp]:
  "sg_clear_seq (reject_staged_baseline rd e g) = sg_clear_seq g"
  "sg_sample_seq (reject_staged_baseline rd e g) = sg_sample_seq g"
  "sg_queue (reject_staged_baseline rd e g) = sg_queue g"
  by (simp_all add: reject_staged_baseline_def Let_def)

lemma check_epoch_seq:
  assumes "check_epoch rd e s k t g = Inr g1"
  shows "sg_clear_seq g1 = sg_clear_seq g \<and> sg_sample_seq g1 = sg_sample_seq g \<and> sg_queue g1 = sg_queue g"
  using assms by (cases rule: check_epoch_cases [consumes 1]) simp_all

lemma process_command_seq:
  assumes "closed_inv g" "process_command rd cmd e v t g = g'"
  shows "sg_clear_seq g' = sg_clear_seq g \<and> sg_sample_seq g' = sg_sample_seq g \<and> sg_queue g' = sg_queue g"
  using assms
proof (cases rule: process_cases [consumes 2])
  case (entered s k l c i g1)
  have 1: "sg_clear_seq g1 = sg_clear_seq g \<and> sg_sample_seq g1 = sg_sample_seq g \<and> sg_queue g1 = sg_queue g"
    by (rule check_epoch_seq [OF entered(6)])
  from entered(8) have "sg_clear_seq g' = sg_clear_seq g1 \<and> sg_sample_seq g' = sg_sample_seq g1 \<and> sg_queue g' = sg_queue g1"
    by (elim disjE conjE exE) (auto simp: stream_def accept_packet_def stop_on_command_gap_def)
  then show ?thesis using 1 by simp
qed simp

lemma process_item_seq:
  assumes "closed_inv g" "item_seq (sg_sample_seq g) item" "sg_clear_seq g \<le> sg_sample_seq g"
  shows "sg_clear_seq (process_item rd item g) \<le> sg_sample_seq g
    \<and> sg_sample_seq (process_item rd item g) = sg_sample_seq g \<and> sg_queue (process_item rd item g) = sg_queue g"
proof (cases item)
  case (SafetySample a t n)
  then show ?thesis using assms by (simp add: process_safety_def Let_def)
next
  case (CommandPacket c e v t)
  then show ?thesis using assms process_command_seq [OF assms(1) refl, of rd c e v t] by simp
qed

lemma drain_seq:
  assumes "closed_inv g" "list_all (item_seq (sg_sample_seq g)) (map fst items)" "sg_clear_seq g \<le> sg_sample_seq g"
  shows "sg_clear_seq (drain items g) \<le> sg_sample_seq g \<and> sg_sample_seq (drain items g) = sg_sample_seq g
    \<and> sg_queue (drain items g) = sg_queue g"
  using assms
proof (induction items g rule: drain.induct)
  case (2 item rd items g)
  note step = process_item_seq [of g item rd]
  have "closed_inv (process_item rd item g)" by (rule closed_process_item [OF 2(2)])
  then show ?case using 2 step by simp
qed simp

definition armed_spin :: "reads \<Rightarrow> pyfloat \<Rightarrow> pyfloat \<Rightarrow> sim_gateway \<Rightarrow> sim_gateway" where
  "armed_spin rd t_safety t_command g =
     (enforce_command_deadline rd t_command (sg_enforce_safety_deadline rd t_safety g))\<lparr>sg_queue := []\<rparr>"

lemma deadlines_seq:
  "sg_clear_seq (enforce_command_deadline rd t2 (sg_enforce_safety_deadline rd t1 g)) = sg_clear_seq g"
  "sg_sample_seq (enforce_command_deadline rd t2 (sg_enforce_safety_deadline rd t1 g)) = sg_sample_seq g"
  "sg_queue (enforce_command_deadline rd t2 (sg_enforce_safety_deadline rd t1 g)) = sg_queue g"
  by (simp_all add: enforce_command_deadline_def sg_enforce_safety_deadline_def split: option.split)

lemma spin_unfold:
  "spin_once rd t1 t2 rds g =
     drain (zip (sg_queue g) (map rds [0..<length (sg_queue g)])) (armed_spin rd t1 t2 g)"
  by (simp add: spin_once_def armed_spin_def Let_def deadlines_seq)

lemma armed_spin_simps [simp]:
  "sg_clear_seq (armed_spin rd t1 t2 g) = sg_clear_seq g" "sg_sample_seq (armed_spin rd t1 t2 g) = sg_sample_seq g"
  "sg_queue (armed_spin rd t1 t2 g) = []"
  by (simp_all add: armed_spin_def deadlines_seq)

lemma closed_armed: "closed_inv g \<Longrightarrow> closed_inv (armed_spin rd t1 t2 g)"
proof -
  assume "closed_inv g"
  then have "closed_inv (enforce_command_deadline rd t2 (sg_enforce_safety_deadline rd t1 g))"
    by (intro closed_command_deadline closed_safety_deadline)
  then show ?thesis unfolding armed_spin_def by (rule closed_cong) simp_all
qed

lemma spin_items: "map fst (zip xs (map f [0..<length xs])) = xs"
  by simp

lemma seq_step:
  assumes "closed_inv g" "seq_inv g" shows "seq_inv (sg_step e g)"
proof (cases e)
  case (Frame_Arrives f n p v x t)
  then show ?thesis using assms(2)
    by (auto simp: seq_inv_def sg_joint_command_def split: sum.split prod.split)
next
  case (Sample_Arrives a t s)
  have "list_all (item_seq (sg_sample_seq g + 1)) (sg_queue g)" if "list_all (item_seq (sg_sample_seq g)) (sg_queue g)"
    using that by (rule list.pred_mono_strong) (auto elim: item_seq.elims)
  then show ?thesis using assms(2) Sample_Arrives
    by (simp add: seq_inv_def sg_safety_sample_def Let_def)
next
  case (Spin rd t1 t2 rds)
  show ?thesis using assms(2) Spin drain_seq [OF closed_armed [OF assms(1)]]
    by (simp add: spin_unfold seq_inv_def)
qed

interpretation sg_seq: event_invariant sg_step "\<lambda>g. closed_inv g \<and> seq_inv g"
  by unfold_locales (simp add: closed_step seq_step)

lemma seq_reachable: "seq_inv (sg_run es (sg_new b t1 t2 rd))"
proof -
  have "seq_inv (sg_new b t1 t2 rd)" by (simp add: sg_new_def seq_inv_def)
  then show ?thesis unfolding sg_run_def using sg_seq.run_inv closed_new by blast
qed


text \<open>A deadline is over when both the clock and the simulation time say so.\<close>

definition heartbeat_expired :: "reads \<Rightarrow> pyfloat \<Rightarrow> sim_gateway \<Rightarrow> bool" where
  "heartbeat_expired rd now g \<longleftrightarrow>
     (case sg_sample_at g of
        None \<Rightarrow> True
      | Some t \<Rightarrow> \<not> flt (fsub now t) (sg_safety_timeout g)
          \<and> sim_age_stale (sg_sample_sim g) (rd_sim rd) (sg_safety_timeout g))"

definition stream_expired :: "reads \<Rightarrow> pyfloat \<Rightarrow> sim_gateway \<Rightarrow> bool" where
  "stream_expired rd now g \<longleftrightarrow>
     (case sg_command_at g of
        None \<Rightarrow> False
      | Some t \<Rightarrow> \<not> flt (fsub now t) (sg_command_timeout g)
          \<and> sim_age_stale (sg_command_sim g) (rd_sim rd) (sg_command_timeout g))"

definition stuck :: "int \<Rightarrow> sim_gateway \<Rightarrow> bool" where
  "stuck S g \<longleftrightarrow> closed_inv g \<and> sg_lost g \<and> sg_loss_seq g = S \<and> sg_sample_seq g = S \<and> sg_clear_seq g \<le> S"

lemma admit_stuck:
  assumes "stuck S g" shows "\<exists>m. process_command rd c e v t g = sg_reject m g"
proof -
  obtain a where a: "admit_packet e v t g = a" by simp
  then show ?thesis
  proof (cases rule: admit_cases [consumes 1])
    case (refused m)
    then show ?thesis using a by (auto simp: process_command_def)
  qed (use assms in \<open>simp add: stuck_def\<close>)
qed

lemma stuck_item:
  assumes "stuck S g" "item_seq S item"
  shows "stuck S (process_item rd item g) \<and> sg_applied (process_item rd item g) = sg_applied g"
proof (cases item)
  case (SafetySample a t n)
  have "closed_inv (process_item rd item g)" using assms(1) closed_process_item by (simp add: stuck_def)
  then show ?thesis using assms SafetySample
    by (auto simp: stuck_def process_safety_def apply_safety_stop_def Let_def)
next
  case (CommandPacket c e v t)
  obtain m where "process_command rd c e v t g = sg_reject m g" using admit_stuck [OF assms(1)] by blast
  then show ?thesis using assms CommandPacket closed_process_item [of g rd item] by (simp add: stuck_def)
qed

lemma stuck_drain:
  "stuck S g \<Longrightarrow> list_all (item_seq S) (map fst items) \<Longrightarrow>
   stuck S (drain items g) \<and> sg_applied (drain items g) = sg_applied g"
proof (induction items g rule: drain.induct)
  case (2 item rd items g)
  then show ?case using stuck_item [of S g item rd] by simp
qed simp

lemma expired_stuck:
  assumes "closed_inv g" "seq_inv g" "\<not> sg_lost g" "heartbeat_expired rd t1 g \<or> stream_expired rd t2 g"
  shows "stuck (sg_sample_seq g) (armed_spin rd t1 t2 g) \<and> sg_applied (armed_spin rd t1 t2 g) = sg_applied g"
proof -
  have act: "\<not> sg_active g" using assms(1,3) by (simp add: closed_inv_def)
  show ?thesis
  proof (cases "heartbeat_expired rd t1 g")
    case True
    then have "sg_enforce_safety_deadline rd t1 g
        = (apply_safety_stop rd True g)\<lparr>sg_error := Some ''safety heartbeat expired''\<rparr>"
      using act by (auto simp: heartbeat_expired_def sg_enforce_safety_deadline_def split: option.splits)
    then have "sg_lost (armed_spin rd t1 t2 g) \<and> sg_loss_seq (armed_spin rd t1 t2 g) = sg_sample_seq g
        \<and> sg_applied (armed_spin rd t1 t2 g) = sg_applied g"
      by (simp add: armed_spin_def enforce_command_deadline_def apply_safety_stop_def)
    then show ?thesis using closed_armed [OF assms(1)] assms(2) by (simp add: stuck_def seq_inv_def)
  next
    case False
    then have 1: "sg_enforce_safety_deadline rd t1 g = g"
      by (auto simp: heartbeat_expired_def sg_enforce_safety_deadline_def split: option.splits)
    obtain t where t: "sg_command_at g = Some t" "\<not> flt (fsub t2 t) (sg_command_timeout g)"
        "sim_age_stale (sg_command_sim g) (rd_sim rd) (sg_command_timeout g)"
      using assms(4) False by (auto simp: stream_expired_def split: option.splits)
    then have "enforce_command_deadline rd t2 g = enter_command_stream_lost rd t2 g"
      using assms(3) by (simp add: enforce_command_deadline_def)
    then have "sg_lost (armed_spin rd t1 t2 g) \<and> sg_loss_seq (armed_spin rd t1 t2 g) = sg_sample_seq g
        \<and> sg_applied (armed_spin rd t1 t2 g) = sg_applied g"
      using assms(3) 1 by (simp add: armed_spin_def enter_command_stream_lost_def Let_def)
    then show ?thesis using closed_armed [OF assms(1)] assms(2) by (simp add: stuck_def seq_inv_def)
  qed
qed

text \<open>C6: An expired deadline stops the robot for the whole spin. If a running gateway starts a
  spin with its safety heartbeat or its command stream expired, then whatever commands and
  safety samples are queued, the backend is stopped when the spin ends, and no queued packet
  was applied: only a sample that arrives after the loss can re-arm it.\<close>
theorem expired_deadline_holds:
  assumes "g = sg_run es (sg_new b safety_timeout command_timeout rd0)"
    and "\<not> bk_stopped (sg_backend g)"
    and "heartbeat_expired rd t_safety g \<or> stream_expired rd t_command g"
  shows "bk_stopped (sg_backend (spin_once rd t_safety t_command rds g))
     \<and> sg_applied (spin_once rd t_safety t_command rds g) = sg_applied g
     \<and> sg_loss_seq (spin_once rd t_safety t_command rds g) = sg_sample_seq g"
proof -
  have inv: "closed_inv g" "seq_inv g" using assms(1) closed_reachable seq_reachable by simp_all
  have "\<not> sg_lost g" using inv(1) assms(2) by (simp add: closed_inv_def)
  note e = expired_stuck [OF inv this assms(3)]
  have "list_all (item_seq (sg_sample_seq g)) (map fst (zip (sg_queue g) (map rds [0..<length (sg_queue g)])))"
    using inv(2) by (simp add: seq_inv_def)
  from stuck_drain [OF conjunct1 [OF e] this] e
  show ?thesis by (auto simp: spin_unfold stuck_def closed_inv_def)
qed

theorem expired_deadline_holds_witness:
  "bk_stopped (sg_backend (spin_once (demo_reads (Fin 9)) (Fin 9) (Fin 9) (\<lambda>_. demo_reads (Fin 9))
     (sg_run demo_start demo_gateway)))"
proof -
  have 1: "\<not> bk_stopped (sg_backend (sg_run demo_start demo_gateway))" by code_simp
  have 2: "heartbeat_expired (demo_reads (Fin 9)) (Fin 9) (sg_run demo_start demo_gateway)" by code_simp
  show ?thesis
    using expired_deadline_holds [OF _ 1 disjI1 [OF 2], of demo_start demo_backend "Fin 3" "Fin 3" "demo_reads (Fin 0)"]
    unfolding demo_gateway_def by blast
qed

end
