(* ===== verification/Stream_Baseline.thy ===== *)
theory Stream_Baseline
  imports Stream_Safety
begin

text \<open>
  How the simulator starts moving: the robot leaves the stopped state only when one complete
  snapshot, packet one to the last in order, has been checked and applied as a whole.
\<close>

definition numbered :: "int \<Rightarrow> int \<Rightarrow> staged list \<Rightarrow> bool" where
  "numbered l c ps \<longleftrightarrow>
     (\<forall>j < length ps. decode_snapshot_packet (PInt (fst (snd (ps ! j)))) = Inr (l, c, 1 + int j))"

definition pend_inv :: "sim_gateway \<Rightarrow> bool" where
  "pend_inv g \<longleftrightarrow> (\<exists>l c. numbered l c (sg_pending g))"

lemma pend_nil [simp]: "sg_pending g = [] \<Longrightarrow> pend_inv g"
  by (simp add: pend_inv_def numbered_def)

lemma numbered_snoc:
  "numbered l c ps \<Longrightarrow> decode_snapshot_packet (PInt (fst (snd p))) = Inr (l, c, 1 + int (length ps)) \<Longrightarrow>
   numbered l c (ps @ [p])"
  by (auto simp: numbered_def nth_append less_Suc_eq)

lemma decode_packet_bounds:
  assumes "decode_snapshot_packet v = Inr (l, c, i)" shows "1 \<le> i \<and> i \<le> c"
  using assms by (auto simp: decode_snapshot_packet_def Let_def split: pyval.splits if_splits)

lemma numbered_join:
  assumes p: "pend_inv g" and j: "\<exists>p ps. sg_pending g = p # ps \<and> (\<exists>k. decode_snapshot_packet (PInt (fst (snd p))) = Inr (l, c, k)
         \<and> i = k + int (length (sg_pending g)))"
  shows "numbered l c (sg_pending g) \<and> i = 1 + int (length (sg_pending g))"
proof -
  obtain l' c' where n: "numbered l' c' (sg_pending g)" using p by (auto simp: pend_inv_def)
  from j obtain q qs k where q: "sg_pending g = q # qs" "decode_snapshot_packet (PInt (fst (snd q))) = Inr (l, c, k)"
    "i = k + int (length (sg_pending g))" by auto
  have "decode_snapshot_packet (PInt (fst (snd q))) = Inr (l', c', 1)"
    using n q(1) by (auto simp: numbered_def)
  then show ?thesis using n q by simp
qed

lemma collect_numbered:
  assumes p: "pend_inv g" and d: "decode_snapshot_packet (PInt (fst (snd packet))) = Inr (l, c, i)"
    and r: "collect_baseline packet l c i g = r"
  shows "case r of Inl g' \<Rightarrow> pend_inv g'
    | Inr (g', ps) \<Rightarrow> pend_inv g' \<and> numbered l c ps \<and> int (length ps) = c \<and> ps \<noteq> [] \<and> last ps = packet"
  using r
proof (cases rule: collect_cases [consumes 1])
  case (refused m)
  then show ?thesis using p by (simp add: pend_inv_def)
next
  case (dropped t)
  then show ?thesis using p by (simp add: pend_inv_def)
next
  case held_back
  then have "numbered l c [packet]" using d by (simp add: numbered_def)
  then show ?thesis using held_back by (auto simp: pend_inv_def)
next
  case extended
  note n = numbered_join [OF p extended(4)]
  have "numbered l c (sg_pending g @ [packet])" by (rule numbered_snoc) (use n d in simp_all)
  then show ?thesis using extended by (auto simp: pend_inv_def)
next
  case single
  then show ?thesis using p d decode_packet_bounds [OF d] by (simp add: numbered_def)
next
  case complete
  note n = numbered_join [OF p complete(4)]
  have "numbered l c (sg_pending g @ [packet])" by (rule numbered_snoc) (use n d in simp_all)
  moreover have "int (length (sg_pending g @ [packet])) = c"
    using complete(2) n decode_packet_bounds [OF d] by simp
  ultimately show ?thesis using complete by simp
qed simp

lemma check_epoch_pend:
  assumes "check_epoch rd epoch s k t g = r" "pend_inv g" shows "pend_inv (case r of Inl h \<Rightarrow> h | Inr h \<Rightarrow> h)"
  using assms
proof (cases rule: check_epoch_cases [consumes 1])
  case (restarted n)
  then show ?thesis by (simp add: adopt_command_epoch_def Let_def)
next
  case (replaced c s' k')
  then show ?thesis by (simp add: adopt_command_epoch_def Let_def)
qed (simp_all add: pend_inv_def)

lemma lost_pend [simp]: "sg_pending (enter_command_stream_lost rd t g) = sg_pending g"
  by (simp add: enter_command_stream_lost_def Let_def)

lemma apply_stop_pend: "pend_inv g \<Longrightarrow> pend_inv (apply_safety_stop rd a g)"
  by (cases a) (simp_all add: apply_safety_stop_def pend_inv_def Let_def numbered_def)

lemma process_command_pend:
  assumes inv: "closed_inv g" and p: "pend_inv g"
  shows "pend_inv (process_command rd cmd epoch snapshot t g)"
proof -
  obtain a where "admit_packet epoch snapshot t g = a" by simp
  then show ?thesis
  proof (cases rule: admit_cases [consumes 1])
    case (refused m)
    then show ?thesis using p \<open>admit_packet epoch snapshot t g = a\<close> by (simp add: process_command_def pend_inv_def)
  next
    case (admitted s k l c i)
    note adm = \<open>admit_packet epoch snapshot t g = a\<close> admitted
    obtain ce where ce: "check_epoch rd epoch s k t g = ce" by simp
    show ?thesis
    proof (cases ce)
      case (Inl h)
      then show ?thesis using check_epoch_pend [OF ce p] adm ce by (simp add: process_command_def)
    next
      case e: (Inr h)
      have ph: "pend_inv h" using check_epoch_pend [OF ce p] e by simp
      have ch: "closed_inv h" using closed_epoch [OF inv] ce e by simp
      show ?thesis
      proof (cases "sg_baseline_pending h")
        case True
        obtain r where r: "collect_baseline (cmd, snapshot, t) l c i h = r" by simp
        then show ?thesis
        proof (cases r)
          case (Inl g2)
          then show ?thesis using collect_numbered [OF ph _ r] adm ce e r True by (simp add: process_command_def)
        next
          case (Inr gp)
          obtain g2 ps where gp: "gp = (g2, ps)" by fastforce
          have p2: "pend_inv g2" using collect_numbered [OF ph _ r] adm Inr gp by simp
          have step: "process_command rd cmd epoch snapshot t g = baseline_step rd epoch l c i ps g2"
            using adm ce e r True Inr gp by (simp add: process_command_def baseline_step_def)
          obtain g3 where "baseline_step rd epoch l c i ps g2 = g3" by simp
          then have "pend_inv g3"
          proof (cases rule: baseline_step_cases [consumes 1])
            case (failed b x)
            then show ?thesis by (simp add: reject_staged_baseline_def Let_def)
          next
            case (committed b1 b3)
            then show ?thesis using p2 by (simp add: accept_packet_def pend_inv_def)
          qed
          then show ?thesis using step \<open>baseline_step rd epoch l c i ps g2 = g3\<close> by simp
        qed
      next
        case running: False
        obtain cc where cc: "check_contiguous rd l c i h = cc" by simp
        then show ?thesis
        proof (cases rule: check_contiguous_cases [consumes 1])
          case (old m)
          then show ?thesis using adm ce e running cc ph by (simp add: process_command_def pend_inv_def)
        next
          case (gap m)
          then show ?thesis using adm ce e running cc ph
            by (simp add: process_command_def pend_inv_def stop_on_command_gap_def)
        next
          case follows
          then have step: "process_command rd cmd epoch snapshot t g = apply_running rd cmd epoch snapshot l c i h"
            using adm ce e running cc by (simp add: process_command_def)
          obtain g3 where g3: "apply_running rd cmd epoch snapshot l c i h = g3" by simp
          from ch running g3 have "pend_inv g3"
            by (cases rule: apply_running_cases [consumes 3]) (use ph in \<open>simp_all add: accept_packet_def pend_inv_def\<close>)
          then show ?thesis using step g3 by simp
        qed
      qed
    qed
  qed
qed

lemma pend_frame: "pend_inv g \<Longrightarrow> pend_inv (sg_joint_command f n p v x t g)"
  by (auto simp: sg_joint_command_def pend_inv_def split: sum.split prod.split)

lemma pend_sample: "pend_inv g \<Longrightarrow> pend_inv (sg_safety_sample a t s g)"
  by (simp add: sg_safety_sample_def pend_inv_def Let_def)

lemma pend_armed: assumes "pend_inv g" shows "pend_inv (armed_spin rd ts tc g)"
proof -
  have "pend_inv (sg_enforce_safety_deadline rd ts g)"
    using assms apply_stop_pend [of g rd True] by (simp add: sg_enforce_safety_deadline_def pend_inv_def)
  then show ?thesis
    by (simp add: armed_spin_def enforce_command_deadline_def pend_inv_def split: option.split)
qed

lemma pend_item: assumes "closed_inv g" "pend_inv g" shows "pend_inv (process_item rd i g)"
proof (cases i)
  case (SafetySample a t n)
  have "pend_inv (if a then g else g\<lparr>sg_clear_seq := n, sg_clear_at := Some t\<rparr>)"
    using assms by (simp add: pend_inv_def)
  from apply_stop_pend [OF this, of rd a] show ?thesis using assms SafetySample
    by (simp add: process_safety_def Let_def pend_inv_def)
qed (use assms process_command_pend in simp)

section \<open>Every state of the gateway\<close>

text \<open>The states the gateway passes through, those inside a spin included.\<close>

inductive sg_reach :: "backend \<Rightarrow> pyfloat \<Rightarrow> pyfloat \<Rightarrow> reads \<Rightarrow> sim_gateway \<Rightarrow> bool" for b t1 t2 rd0 where
  start: "sg_reach b t1 t2 rd0 (sg_new b t1 t2 rd0)"
| frame: "sg_reach b t1 t2 rd0 g \<Longrightarrow> sg_reach b t1 t2 rd0 (sg_joint_command f n p v x t g)"
| sample: "sg_reach b t1 t2 rd0 g \<Longrightarrow> sg_reach b t1 t2 rd0 (sg_safety_sample a t s g)"
| deadlines: "sg_reach b t1 t2 rd0 g \<Longrightarrow> sg_reach b t1 t2 rd0 (armed_spin rd ts tc g)"
| item: "sg_reach b t1 t2 rd0 g \<Longrightarrow> sg_reach b t1 t2 rd0 (process_item rd i g)"

lemma reach_run: "sg_reach b t1 t2 rd0 g \<Longrightarrow> sg_reach b t1 t2 rd0 (run_events sg_step es g)"
proof (induction es arbitrary: g)
  case (Cons e es)
  have drain: "sg_reach b t1 t2 rd0 (drain items h)" if "sg_reach b t1 t2 rd0 h" for items h
    using that by (induction items h rule: drain.induct) (auto intro: item)
  have "sg_reach b t1 t2 rd0 (sg_step e g)"
    using Cons.prems drain by (cases e) (auto simp: spin_unfold intro: frame sample deadlines)
  then show ?case using Cons.IH by simp
qed simp

lemma reach_inv: "sg_reach b t1 t2 rd0 g \<Longrightarrow> closed_inv g \<and> pend_inv g"
proof (induction rule: sg_reach.induct)
  case start
  then show ?case by (simp add: closed_new) (simp add: sg_new_def)
next
  case (frame g f n p v x t)
  have "closed_inv (sg_joint_command f n p v x t g)"
    using closed_step [of g "Frame_Arrives f n p v x t"] frame by simp
  then show ?case using frame pend_frame by blast
next
  case (sample g a t s)
  have "closed_inv (sg_safety_sample a t s g)" using closed_step [of g "Sample_Arrives a t s"] sample by simp
  then show ?case using sample pend_sample by blast
next
  case (deadlines g rd ts tc)
  then show ?case using closed_armed pend_armed by blast
next
  case (item g rd i)
  then show ?case using closed_process_item pend_item by blast
qed

text \<open>C8: The robot starts only on one whole snapshot. In any state the gateway passes through, an
  item of the queue turns a stopped backend into a running one only if it is the last packet
  of a snapshot whose packets one to the last are all at hand, in order, all were validated
  while the backend was stopped, and applying them to the released backend succeeded.\<close>
theorem start_needs_whole_snapshot:
  assumes "sg_reach b safety_timeout command_timeout rd0 g"
    and "bk_stopped (sg_backend g)" and "\<not> bk_stopped (sg_backend (process_item rd item g))"
  shows "\<exists>c epoch snapshot t ps l n b0 b1. item = CommandPacket c epoch snapshot t
     \<and> ps \<noteq> [] \<and> last ps = (c, snapshot, t) \<and> numbered l n ps \<and> int (length ps) = n
     \<and> bk_stopped b0 \<and> preflight_loop begin_command_snapshot validate_backend_command ps b0 = (b1, Inr ())
     \<and> commit_loop begin_command_snapshot command_joints ps
          (set_safety_stop (rd_joints rd) False (discard_command_snapshot_staging b1))
        = (sg_backend (process_item rd item g), Inr ())"
proof (cases item)
  case (SafetySample a t n)
  have inv: "closed_inv g" using reach_inv [OF assms(1)] by simp
  then have "sg_lost g" using assms(2) by (auto simp: closed_inv_def)
  then have "sg_lost (process_item rd item g)"
    by (simp add: SafetySample process_safety_def apply_safety_stop_def Let_def)
  then show ?thesis using assms(3) closed_process_item [OF inv, of rd item] by (simp add: closed_inv_def)
next
  case (CommandPacket cmd epoch snapshot t)
  have inv: "closed_inv g" "pend_inv g" using reach_inv [OF assms(1)] by simp_all
  obtain a where a: "admit_packet epoch snapshot t g = a" by simp
  then show ?thesis
  proof (cases rule: admit_cases [consumes 1])
    case (refused m)
    then show ?thesis using assms a CommandPacket by (simp add: process_command_def)
  next
    case (admitted s k l c i)
    obtain ce where ce: "check_epoch rd epoch s k t g = ce" by simp
    have lost: "sg_lost g" using inv assms(2) by (auto simp: closed_inv_def)
    have lost_ce: "sg_lost (case ce of Inl h \<Rightarrow> h | Inr h \<Rightarrow> h) \<and> closed_inv (case ce of Inl h \<Rightarrow> h | Inr h \<Rightarrow> h)"
      using closed_check_epoch [OF inv(1), of rd epoch s k t "case ce of Inl h \<Rightarrow> h | Inr h \<Rightarrow> h"] ce
      by (cases rule: check_epoch_cases [OF ce]) (simp_all add: lost adopt_frame)
    show ?thesis
    proof (cases ce)
      case (Inl h)
      then have "process_item rd item g = h" using a admitted ce CommandPacket by (simp add: process_command_def)
      then have False using assms(3) lost_ce Inl by (auto simp: closed_inv_def)
      then show ?thesis by blast
    next
      case e: (Inr h)
      then have h: "sg_lost h" "closed_inv h" "sg_baseline_pending h" "bk_stopped (sg_backend h)"
        using lost_ce by (auto simp: closed_inv_def)
      have ph: "pend_inv h" using check_epoch_pend [OF ce inv(2)] e by simp
      obtain r where r: "collect_baseline (cmd, snapshot, t) l c i h = r" by simp
      have step: "process_item rd item g = (case r of Inl g2 \<Rightarrow> g2 | Inr (g2, ps) \<Rightarrow> baseline_step rd epoch l c i ps g2)"
        using a admitted ce e h(3) r CommandPacket
        by (auto simp: process_command_def baseline_step_def split: sum.split prod.split)
      from r show ?thesis
      proof (cases rule: collect_stream [consumes 1])
        case (held g2)
        then show ?thesis using step h(4) assms(3) by simp
      next
        case (ready g2 ps)
        have n: "numbered l c ps" "int (length ps) = c" "ps \<noteq> []" "last ps = (cmd, snapshot, t)"
          using collect_numbered [OF ph _ r] admitted ready by simp_all
        have "baseline_step rd epoch l c i ps g2 = process_item rd item g" using step ready by simp
        then show ?thesis
        proof (cases rule: baseline_step_cases [consumes 1])
          case (failed b x)
          then show ?thesis using assms(3) closed_reject [of rd x "g2\<lparr>sg_backend := b\<rparr>"]
            by (simp add: closed_inv_def) (simp add: reject_staged_baseline_def Let_def)
        next
          case (committed b1 b3)
          then show ?thesis using CommandPacket n bk.stopped_set [of "rd_joints rd" True "sg_backend g2"]
            by (auto simp: accept_packet_def)
        qed
      qed
    qed
  qed
qed


definition demo_waiting :: sim_gateway where
  "demo_waiting = sg_run (take 3 demo_start) demo_gateway"

definition demo_item :: sg_item where
  "demo_item = CommandPacket \<lparr>jc_names = [''j1''], jc_positions = [Fin 1], jc_velocities = [], jc_efforts = []\<rparr>
     7 5 (Fin 2)"

theorem start_needs_whole_snapshot_witness:
  "\<exists>c epoch snapshot t ps l n b0 b1. demo_item = CommandPacket c epoch snapshot t
     \<and> ps \<noteq> [] \<and> last ps = (c, snapshot, t) \<and> numbered l n ps \<and> int (length ps) = n
     \<and> bk_stopped b0 \<and> preflight_loop begin_command_snapshot validate_backend_command ps b0 = (b1, Inr ())
     \<and> commit_loop begin_command_snapshot command_joints ps
          (set_safety_stop (rd_joints (demo_reads (Fin 2))) False (discard_command_snapshot_staging b1))
        = (sg_backend (process_item (demo_reads (Fin 2)) demo_item demo_waiting), Inr ())"
proof (rule start_needs_whole_snapshot)
  show "sg_reach demo_backend (Fin 3) (Fin 3) (demo_reads (Fin 0)) demo_waiting"
    unfolding demo_waiting_def demo_gateway_def sg_run_def by (intro reach_run sg_reach.start)
  show "bk_stopped (sg_backend demo_waiting)" by code_simp
  show "\<not> bk_stopped (sg_backend (process_item (demo_reads (Fin 2)) demo_item demo_waiting))" by code_simp
qed

section \<open>A packet that outlives a loss\<close>

text \<open>A one-packet baseline leaves earlier staged packets in place. Here packet one of snapshot 10
  waits while snapshot 5 starts the stream; the stream is then lost, the gate clears again, and
  packet two of snapshot 10 commits a baseline with the packet received before the loss.\<close>

definition demo_packet :: "int \<Rightarrow> int \<Rightarrow> int \<Rightarrow> pyfloat \<Rightarrow> sg_item" where
  "demo_packet l n i t = CommandPacket \<lparr>jc_names = [''j1''], jc_positions = [Fin 1], jc_velocities = [], jc_efforts = []\<rparr>
     7 (2 ^ 63 + l * 2 ^ 32 + n * 2 ^ 16 + i) t"

definition demo_leftover :: sim_gateway where
  "demo_leftover = foldl (\<lambda>g (i, t). process_item (demo_reads (Fin t)) i g)
     (sg_run (take 2 demo_start) demo_gateway)
     [(demo_packet 10 2 1 (Fin 2), 2), (demo_packet 5 1 1 (Fin 2), 2)]"

definition demo_recovered :: sim_gateway where
  "demo_recovered = process_item (demo_reads (Fin 8)) (demo_packet 10 2 2 (Fin 8))
     (sg_run [Sample_Arrives False (Fin 7) (Some (Fin 7)), demo_spin (Fin 7)] (armed_spin (demo_reads (Fin 6)) (Fin 2) (Fin 6) demo_leftover))"

lemma leftover_packet_committed:
  "sg_lost (armed_spin (demo_reads (Fin 6)) (Fin 2) (Fin 6) demo_leftover)
     \<and> map (\<lambda>p. snd (snd p)) (sg_pending (armed_spin (demo_reads (Fin 6)) (Fin 2) (Fin 6) demo_leftover)) = [Fin 2]
     \<and> sg_applied demo_recovered = [(7, 5, 1), (7, 10, 1), (7, 10, 2)]"
  by code_simp

end
