(* ===== verification/Stream_Replay.thy ===== *)
theory Stream_Replay
  imports Stream_Baseline
begin

text \<open>
  No packet of the command stream is applied twice or out of order: the packets recorded in
  \<open>sg_applied\<close>, all packets of a committed baseline among them, increase within each command session, as long as
  fewer sessions are retired than the gateway remembers.
\<close>

section \<open>No replay\<close>

definition epoch_session :: "int \<Rightarrow> int" where
  "epoch_session e = (case decode_command_epoch (PInt e) of Inl _ \<Rightarrow> - 1 | Inr (s, k) \<Rightarrow> s)"

definition epoch_generation :: "int \<Rightarrow> int" where
  "epoch_generation e = (case decode_command_epoch (PInt e) of Inl _ \<Rightarrow> - 1 | Inr (s, k) \<Rightarrow> k)"

lemma epoch_parts: "decode_command_epoch (PInt e) = Inr (s, k) \<Longrightarrow> epoch_session e = s \<and> epoch_generation e = k"
  by (simp add: epoch_session_def epoch_generation_def)

text \<open>Of two applied packets of one session the later has the greater generation, snapshot or
  packet number.\<close>

fun applied_before :: "int \<times> int \<times> int \<Rightarrow> int \<times> int \<times> int \<Rightarrow> bool" where
  "applied_before (e, l, i) (e', l', i') \<longleftrightarrow>
     epoch_session e \<noteq> epoch_session e'
     \<or> epoch_generation e < epoch_generation e'
     \<or> epoch_generation e = epoch_generation e' \<and> (l < l' \<or> l = l' \<and> i < i')"

definition on_stream :: "sim_gateway \<Rightarrow> int \<Rightarrow> bool" where
  "on_stream g e \<longleftrightarrow> sg_known_session g = Some (epoch_session e) \<and> sg_known_generation g = Some (epoch_generation e)"

definition passed :: "sim_gateway \<Rightarrow> int \<Rightarrow> int \<Rightarrow> bool" where
  "passed g l i \<longleftrightarrow>
     (if sg_baseline_pending g then (case sg_floor g of None \<Rightarrow> False | Some f \<Rightarrow> l \<le> f)
      else l < sg_last_logical g \<or> l = sg_last_logical g \<and> i \<le> sg_last_index g)"

definition superseded :: "sim_gateway \<Rightarrow> int \<Rightarrow> bool" where
  "superseded g e \<longleftrightarrow> epoch_session e \<in> set (sg_retired_sessions g)
     \<or> sg_known_session g = Some (epoch_session e)
       \<and> (case sg_known_generation g of None \<Rightarrow> False | Some k \<Rightarrow> epoch_generation e \<le> k)"

definition replay_inv :: "sim_gateway \<Rightarrow> bool" where
  "replay_inv g \<longleftrightarrow>
     sorted_wrt applied_before (sg_applied g)
     \<and> (\<forall>(e, l, i) \<in> set (sg_applied g). superseded g e)
     \<and> (\<forall>s. sg_known_session g = Some s \<longrightarrow> s \<notin> set (sg_retired_sessions g))
     \<and> (\<forall>e. sg_epoch g = Some e \<or> sg_recoverable g = Some e \<longrightarrow> on_stream g e)
     \<and> (sg_epoch g \<noteq> None \<or> sg_recoverable g \<noteq> None \<longrightarrow>
          (\<forall>(e, l, i) \<in> set (sg_applied g). on_stream g e \<longrightarrow> passed g l i))"

lemma replay_cong:
  assumes "fst (stream g') = fst (stream g)" "sg_baseline_pending g' = sg_baseline_pending g" "replay_inv g"
  shows "replay_inv g'"
proof -
  have "superseded g' = superseded g" "on_stream g' = on_stream g" "passed g' = passed g"
    using assms(1,2) by (auto simp: fun_eq_iff superseded_def on_stream_def passed_def stream_def)
  then show ?thesis using assms by (simp add: replay_inv_def stream_def)
qed

lemma replay_stream: "stream g' = stream g \<Longrightarrow> replay_inv g \<Longrightarrow> replay_inv g'"
  by (rule replay_cong [of g' g]) (simp_all add: stream_def)

text \<open>Accepting a packet, with the earlier packets of its snapshot when it completes a baseline.\<close>

lemma replay_accept:
  assumes inv: "replay_inv g" and e: "sg_epoch g = Some epoch"
    and new: "sg_baseline_pending g \<and> (case sg_floor g of None \<Rightarrow> True | Some lowest \<Rightarrow> lowest < l)
      \<or> \<not> sg_baseline_pending g \<and> contiguous l c i g"
    and xs: "xs \<noteq> [] \<longrightarrow> sg_baseline_pending g" "\<forall>x \<in> set xs. \<exists>j. x = (epoch, l, j) \<and> j < i"
      "sorted_wrt applied_before xs"
  shows "replay_inv (accept_packet rd epoch l c i (g\<lparr>sg_applied := sg_applied g @ xs\<rparr>))"
proof -
  have on: "on_stream g epoch" using inv e by (simp add: replay_inv_def)
  have later: "applied_before (e', l', i') (epoch, l, j) \<and> (on_stream g e' \<longrightarrow> l' < l \<or> l' = l \<and> i' \<le> i)"
    if a: "(e', l', i') \<in> set (sg_applied g)" and j: "j = i \<or> sg_baseline_pending g" for e' l' i' j
  proof -
    have sup: "superseded g e'" using inv a by (auto simp: replay_inv_def)
    have gen: "epoch_generation e' \<le> epoch_generation epoch" if "epoch_session e' = epoch_session epoch"
      using that sup on inv by (auto simp: superseded_def on_stream_def replay_inv_def)
    have p: "passed g l' i'" if "on_stream g e'" using inv e a that by (auto simp: replay_inv_def)
    have "l' < l \<or> l' = l \<and> i' < i \<and> i' < j" if "on_stream g e'"
      using p [OF that] new j by (auto simp: passed_def contiguous_def split: if_splits option.splits)
    moreover have "on_stream g e'" if "epoch_session e' = epoch_session epoch" "epoch_generation e' = epoch_generation epoch"
      using that on by (simp add: on_stream_def)
    ultimately show ?thesis using gen by fastforce
  qed
  have sup: "superseded g epoch" using on by (simp add: superseded_def on_stream_def)
  let ?new = "sg_applied g @ xs @ [(epoch, l, i)]"
  have before: "applied_before x (epoch, l, i)" if "x \<in> set xs" for x using xs(2) that by auto
  have "sorted_wrt applied_before ?new"
    using inv later xs before by (fastforce simp: replay_inv_def sorted_wrt_append)
  moreover have "\<forall>(e', l', i') \<in> set ?new. superseded g e'"
    using inv sup xs(2) by (auto simp: replay_inv_def)
  moreover have "\<forall>(e', l', i') \<in> set ?new. on_stream g e' \<longrightarrow> l' < l \<or> l' = l \<and> i' \<le> i"
    using later xs(2) by fastforce
  ultimately show ?thesis using inv
    by (auto simp: replay_inv_def accept_packet_def superseded_def on_stream_def passed_def)
qed

lemma butlast_entries:
  assumes "numbered l c ps"
  shows "map (packet_entry epoch) (butlast ps) = map (\<lambda>j. (epoch, l, 1 + int j)) [0..<length ps - 1]"
  using assms by (auto simp: numbered_def packet_entry_def nth_butlast intro!: nth_equalityI)

lemma replay_baseline:
  assumes inv: "replay_inv g" and e: "sg_epoch g = Some epoch"
    and new: "sg_baseline_pending g" "case sg_floor g of None \<Rightarrow> True | Some lowest \<Rightarrow> lowest < l"
    and ps: "numbered l c ps" "int (length ps) = i"
  shows "replay_inv (accept_packet rd epoch l c i (note_earlier epoch ps g))"
  unfolding note_earlier_def butlast_entries [OF ps(1)]
proof (rule replay_accept [OF inv e])
  show "sorted_wrt applied_before (map (\<lambda>j. (epoch, l, 1 + int j)) [0..<length ps - 1])"
    by (simp add: sorted_wrt_iff_nth_less)
  show "\<forall>x \<in> set (map (\<lambda>j. (epoch, l, 1 + int j)) [0..<length ps - 1]). \<exists>j. x = (epoch, l, j) \<and> j < i"
    using ps(2) by auto
qed (use new in simp_all)

lemma push_small:
  "length (push_bounded x xs) < MAX_RETIRED_COMMAND_EPOCHS \<Longrightarrow> push_bounded x xs = xs @ [x]"
  by (simp add: push_bounded_def Let_def)

lemma push_few:
  "length (push_bounded x xs) < MAX_RETIRED_COMMAND_EPOCHS \<Longrightarrow> length xs < MAX_RETIRED_COMMAND_EPOCHS"
  using push_small [of x xs] by simp

lemma adopt_fields:
  fixes g rd e s k t n
  defines "g' \<equiv> adopt_command_epoch rd e s k t n g"
  shows "sg_applied g' = sg_applied g" "sg_epoch g' = Some e" "sg_recoverable g' = None"
    "sg_known_session g' = Some s" "sg_known_generation g' = Some k" "sg_floor g' = None"
    "sg_retired_sessions g' = (case sg_known_session g of
        Some known \<Rightarrow> if n \<and> known \<noteq> s then push_bounded known (sg_retired_sessions g) else sg_retired_sessions g
      | None \<Rightarrow> sg_retired_sessions g)"
  by (auto simp: g'_def adopt_command_epoch_def Let_def split: option.split)

lemma adopt_few:
  assumes "length (sg_retired_sessions (adopt_command_epoch rd e s k t n g)) < MAX_RETIRED_COMMAND_EPOCHS"
  shows "length (sg_retired_sessions g) < MAX_RETIRED_COMMAND_EPOCHS"
proof (cases "sg_known_session g")
  case (Some known)
  then show ?thesis using assms by (cases "n \<and> known \<noteq> s") (auto simp: adopt_fields(7) dest: push_few)
qed (use assms in \<open>simp add: adopt_fields(7)\<close>)

lemma replay_adopt:
  assumes inv: "length (sg_retired_sessions g) < MAX_RETIRED_COMMAND_EPOCHS \<longrightarrow> replay_inv g"
    and d: "decode_command_epoch (PInt epoch) = Inr (s, k)" and fresh: "s \<notin> set (sg_retired_sessions g)"
    and known: "\<not> (sg_known_session g = Some s \<and> (case sg_known_generation g of None \<Rightarrow> False | Some k' \<Rightarrow> k \<le> k'))"
    and n: "n = (sg_known_session g \<noteq> None \<and> sg_known_session g \<noteq> Some s)"
    and few: "length (sg_retired_sessions (adopt_command_epoch rd epoch s k t n g)) < MAX_RETIRED_COMMAND_EPOCHS"
  shows "replay_inv (adopt_command_epoch rd epoch s k t n g)"
proof -
  obtain h where h: "adopt_command_epoch rd epoch s k t n g = h" by simp
  note f = adopt_fields [of rd epoch s k t n g, unfolded h]
  have ret: "sg_retired_sessions h = sg_retired_sessions g @ (if n then [the (sg_known_session g)] else [])"
    using few push_small unfolding f h by (auto simp: n split: option.splits if_splits)
  then have inv: "replay_inv g" using inv few h by simp
  have s: "epoch_session epoch = s" "epoch_generation epoch = k" using epoch_parts [OF d] by simp_all
  have "superseded h e \<and> \<not> on_stream h e" if "superseded g e" for e
    using that known fresh n by (auto simp: superseded_def on_stream_def ret f(4,5) split: option.splits)
  moreover have "s' \<notin> set (sg_retired_sessions h)" if "sg_known_session h = Some s'" for s'
    using that fresh n f(4) by (auto simp: ret)
  ultimately show ?thesis using inv f(1-6)
    unfolding h replay_inv_def by (auto simp: s on_stream_def)
qed


definition fresh_inv :: "sim_gateway \<Rightarrow> bool" where
  "fresh_inv g \<longleftrightarrow> closed_inv g
     \<and> (length (sg_retired_sessions g) < MAX_RETIRED_COMMAND_EPOCHS \<longrightarrow> replay_inv g)"

lemma retired_lost [simp]: "sg_retired_sessions (enter_command_stream_lost rd t g) = sg_retired_sessions g"
  by (simp add: enter_command_stream_lost_def Let_def)

lemma retired_apply [simp]: "sg_retired_sessions (apply_safety_stop rd a g) = sg_retired_sessions g"
  by (simp add: apply_safety_stop_def Let_def)

lemma replay_lost:
  assumes "closed_inv g" "replay_inv g" shows "replay_inv (enter_command_stream_lost rd t g)"
proof (cases "sg_lost g")
  case False
  then have run: "\<not> sg_baseline_pending g" using assms(1) by (simp add: closed_inv_def)
  let ?h = "enter_command_stream_lost rd t g"
  have f: "sg_applied ?h = sg_applied g" "sg_epoch ?h = None" "sg_recoverable ?h = sg_epoch g"
    "sg_known_session ?h = sg_known_session g" "sg_known_generation ?h = sg_known_generation g"
    "sg_baseline_pending ?h" "sg_floor ?h = Some (sg_last_logical g)"
    using False by (simp_all add: enter_command_stream_lost_def Let_def)
  have "superseded ?h = superseded g" "on_stream ?h = on_stream g"
    by (simp_all add: fun_eq_iff superseded_def on_stream_def f)
  moreover have "passed ?h l i" if "passed g l i" for l i
    using that run by (auto simp: passed_def f)
  ultimately show ?thesis using assms(2) by (fastforce simp: replay_inv_def f)
qed (use assms in \<open>simp add: enter_command_stream_lost_def\<close>)

lemma replay_gap: "closed_inv g \<Longrightarrow> replay_inv g \<Longrightarrow> replay_inv (stop_on_command_gap rd m g)"
  unfolding stop_on_command_gap_def by (rule replay_stream [OF _ replay_lost]) simp_all

lemma replay_apply_stop:
  assumes "replay_inv g" shows "replay_inv (apply_safety_stop rd a g)"
proof (cases a)
  case True
  let ?h = "apply_safety_stop rd True g"
  have f: "sg_applied ?h = sg_applied g" "sg_epoch ?h = None" "sg_recoverable ?h = None"
    "sg_known_session ?h = sg_known_session g" "sg_known_generation ?h = sg_known_generation g"
    by (simp_all add: apply_safety_stop_def)
  have "superseded ?h = superseded g" by (simp add: fun_eq_iff superseded_def f)
  then show ?thesis using assms True by (simp add: replay_inv_def f)
next
  case False
  then show ?thesis
    by (intro replay_cong [OF _ _ assms]) (simp_all add: apply_safety_stop_def Let_def stream_def)
qed

lemma check_epoch_fresh:
  assumes inv: "fresh_inv g" and e: "check_epoch rd epoch s k t g = Inr g1"
    and d: "decode_command_epoch (PInt epoch) = Inr (s, k)" and s: "s \<notin> set (sg_retired_sessions g)"
  shows "fresh_inv g1 \<and> sg_epoch g1 = Some epoch"
proof -
  have c1: "closed_inv g1" using inv e closed_epoch by (auto simp: fresh_inv_def)
  have r: "length (sg_retired_sessions g) < MAX_RETIRED_COMMAND_EPOCHS \<longrightarrow> replay_inv g"
    using inv by (simp add: fresh_inv_def)
  from e show ?thesis
  proof (cases rule: check_epoch_cases [consumes 1])
    case current
    then show ?thesis using inv by simp
  next
    case recovered
    have "replay_inv (g\<lparr>sg_epoch := Some epoch\<rparr>)" if i: "replay_inv g"
    proof -
      have "superseded (g\<lparr>sg_epoch := Some epoch\<rparr>) = superseded g"
        "on_stream (g\<lparr>sg_epoch := Some epoch\<rparr>) = on_stream g" "passed (g\<lparr>sg_epoch := Some epoch\<rparr>) = passed g"
        by (simp_all add: fun_eq_iff superseded_def on_stream_def passed_def)
      then show ?thesis using i recovered by (simp add: replay_inv_def)
    qed
    then show ?thesis using recovered c1 r by (simp add: fresh_inv_def)
  next
    case (restarted n)
    then show ?thesis using c1 replay_adopt [OF r d s restarted(2) restarted(4)]
      by (simp add: fresh_inv_def adopt_fields(2))
  next
    case (replaced c s' k')
    have kn: "sg_known_session g = Some s' \<and> sg_known_generation g = Some k'" if "replay_inv g"
      using that replaced(1) epoch_parts [OF replaced(3)] by (auto simp: replay_inv_def on_stream_def)
    have g1: "g1 = adopt_command_epoch rd epoch s k t (s \<noteq> s') g" using replaced(6) by simp
    have "replay_inv g1" if few: "length (sg_retired_sessions g1) < MAX_RETIRED_COMMAND_EPOCHS"
    proof -
      have "length (sg_retired_sessions g) < MAX_RETIRED_COMMAND_EPOCHS"
        using few unfolding g1 by (rule adopt_few)
      then have kn: "sg_known_session g = Some s' \<and> sg_known_generation g = Some k'" using kn r by blast
      have "\<not> (sg_known_session g = Some s \<and> (case sg_known_generation g of None \<Rightarrow> False | Some k' \<Rightarrow> k \<le> k'))"
        "(s \<noteq> s') = (sg_known_session g \<noteq> None \<and> sg_known_session g \<noteq> Some s)"
        using kn replaced(4) by auto
      then show ?thesis using few unfolding g1 by (rule replay_adopt [OF r d s])
    qed
    then show ?thesis using replaced c1 by (simp add: fresh_inv_def adopt_fields(2))
  qed simp
qed

lemma fresh_stream:
  "fresh_inv g1 \<Longrightarrow> stream g' = stream g1 \<Longrightarrow> closed_inv g' \<Longrightarrow> fresh_inv g'"
  using replay_stream [of g' g1] by (simp add: fresh_inv_def stream_def)

lemma fresh_process_command:
  assumes inv: "fresh_inv g" and pend: "pend_inv g" and g': "process_command rd cmd epoch v t g = g'"
  shows "fresh_inv g'"
proof -
  have c: "closed_inv g" "closed_inv g'" using inv g' closed_process_command by (auto simp: fresh_inv_def)
  from c(1) g' show ?thesis
  proof (cases rule: process_cases [consumes 2])
    case (refused m)
    then show ?thesis using fresh_stream [OF inv _ c(2)] by simp
  next
    case (entered s k l cn i g1)
    note f1 = check_epoch_fresh [OF inv entered(6) entered(1) entered(3)]
    then have f: "fresh_inv g1" "sg_epoch g1 = Some epoch" by simp_all
    from entered(8) show ?thesis
    proof (elim disjE conjE exE)
      assume "stream g' = stream g1"
      then show ?thesis using fresh_stream [OF f(1) _ c(2)] by simp
    next
      fix g2 e assume p: "sg_baseline_pending g1" "stream g2 = stream g1" "g' = reject_staged_baseline rd e g2"
      then have "fst (stream g') = fst (stream g1)" "sg_baseline_pending g'"
        by (simp_all add: reject_staged_baseline_def stream_def Let_def)
      then show ?thesis using f(1) p(1) c(2) replay_cong [of g' g1] by (simp add: fresh_inv_def stream_def)
    next
      fix g2 g3 ps assume p: "sg_baseline_pending g1" "case sg_floor g1 of None \<Rightarrow> True | Some lowest \<Rightarrow> lowest < l"
        "collect_baseline (cmd, v, t) l cn i g1 = Inr (g3, ps)" "stream g2 = stream g1"
        "g' = accept_packet rd epoch l cn i (note_earlier epoch ps (g2\<lparr>sg_lost := False\<rparr>))"
      let ?h = "g2\<lparr>sg_lost := False\<rparr>"
      have h: "fst (stream ?h) = fst (stream g1)" "sg_baseline_pending ?h = sg_baseline_pending g1"
        using p(4) by (simp_all add: stream_def)
      have "pend_inv g1" using check_epoch_pend [OF entered(6) pend] by simp
      from collect_numbered [OF this _ p(3)] entered(2)
      have n: "numbered l cn ps" "int (length ps) = cn" "ps \<noteq> []" "last ps = (cmd, v, t)" by simp_all
      have "i = int (length ps)"
      proof -
        have "length ps - 1 < length ps" using n(3) by (cases ps) simp_all
        then have "decode_snapshot_packet (PInt (fst (snd (ps ! (length ps - 1))))) = Inr (l, cn, 1 + int (length ps - 1))"
          using n(1) by (simp only: numbered_def)
        moreover have "ps ! (length ps - 1) = (cmd, v, t)" using n(3,4) by (simp add: last_conv_nth)
        ultimately have "i = 1 + int (length ps - 1)" using entered(2) by simp
        then show ?thesis using n(3) by (cases ps) simp_all
      qed
      then have "replay_inv g'" if "replay_inv g1"
        using replay_baseline [OF replay_cong [OF h that], of epoch l cn ps i rd] p f(2) h n by (simp add: stream_def)
      moreover have "sg_retired_sessions g' = sg_retired_sessions g1"
        using p by (simp add: accept_packet_def stream_def)
      ultimately show ?thesis using f(1) c(2) by (simp add: fresh_inv_def)
    next
      fix m assume "g' = stop_on_command_gap rd m g1"
      then show ?thesis using f(1) c(2) replay_gap [of g1 rd m]
        by (simp add: fresh_inv_def) (simp add: stop_on_command_gap_def)
    next
      fix b assume p: "\<not> sg_baseline_pending g1" "contiguous l cn i g1"
        "g' = accept_packet rd epoch l cn i (g1\<lparr>sg_backend := b\<rparr>)"
      let ?h = "g1\<lparr>sg_backend := b\<rparr>"
      have "replay_inv g'" if "replay_inv g1"
        using replay_accept [of ?h epoch l cn i "[]" rd] replay_stream [of ?h g1] that p f(2)
        by (simp add: contiguous_def)
      moreover have "sg_retired_sessions g' = sg_retired_sessions g1" using p by (simp add: accept_packet_def)
      ultimately show ?thesis using f(1) c(2) by (simp add: fresh_inv_def)
    qed
  qed
qed


lemma fresh_cong:
  "fresh_inv g \<Longrightarrow> closed_inv g' \<Longrightarrow> sg_retired_sessions g' = sg_retired_sessions g \<Longrightarrow>
   (replay_inv g \<Longrightarrow> replay_inv g') \<Longrightarrow> fresh_inv g'"
  by (simp add: fresh_inv_def)

lemma fresh_item: "fresh_inv g \<Longrightarrow> pend_inv g \<Longrightarrow> fresh_inv (process_item rd item g)"
proof (cases item)
  assume inv: "fresh_inv g"
  case (SafetySample a t n)
  let ?g = "if a then g else g\<lparr>sg_clear_seq := n, sg_clear_at := Some t\<rparr>"
  let ?h = "(apply_safety_stop rd a ?g)\<lparr>sg_error := None\<rparr>"
  have 1: "replay_inv ?g" if "replay_inv g"
    using that by (intro replay_cong [OF _ _ that]) (simp_all add: stream_def)
  have 2: "replay_inv ?h" if "replay_inv g"
    by (rule replay_stream [OF _ replay_apply_stop [OF 1 [OF that]]]) simp
  have c: "closed_inv (process_item rd item g)"
    using inv closed_process_item by (simp add: fresh_inv_def)
  have "process_item rd item g = g \<or> process_item rd item g = ?h"
    by (simp add: SafetySample process_safety_def Let_def)
  then show ?thesis
  proof
    assume h: "process_item rd item g = ?h"
    show ?thesis by (rule fresh_cong [OF inv c]) (unfold h, use 2 in simp_all)
  qed (use inv in simp)
next
  assume "fresh_inv g" "pend_inv g"
  case (CommandPacket c e v t)
  then show ?thesis using fresh_process_command [OF \<open>fresh_inv g\<close> \<open>pend_inv g\<close> refl, of rd c e v t] by simp
qed

definition stream_inv :: "sim_gateway \<Rightarrow> bool" where
  "stream_inv g \<longleftrightarrow> fresh_inv g \<and> pend_inv g"

lemma stream_item: "stream_inv g \<Longrightarrow> stream_inv (process_item rd item g)"
  using fresh_item pend_item by (simp add: stream_inv_def fresh_inv_def)

lemma stream_drain: "stream_inv g \<Longrightarrow> stream_inv (drain items g)"
  by (induction items g rule: drain.induct) (simp_all add: stream_item)

lemma replay_stream_queue: "replay_inv g \<Longrightarrow> replay_inv (g\<lparr>sg_queue := q\<rparr>)"
  by (rule replay_cong [of _ g]) (simp_all add: stream_def)

lemma fresh_armed: assumes inv: "fresh_inv g" shows "fresh_inv (armed_spin rd t1 t2 g)"
proof -
  let ?h = "sg_enforce_safety_deadline rd t1 g"
  have ch: "closed_inv ?h" using inv closed_safety_deadline by (simp add: fresh_inv_def)
  have h: "replay_inv ?h" if r: "replay_inv g"
    using r replay_stream [OF stream_simps(4) replay_apply_stop [OF r], of "Some ''safety heartbeat expired''" rd True]
    by (simp add: sg_enforce_safety_deadline_def)
  have "replay_inv (enforce_command_deadline rd t2 ?h)" if "replay_inv g"
    using h [OF that] replay_lost [OF ch h [OF that]] by (auto simp: enforce_command_deadline_def split: option.split)
  then have "replay_inv (armed_spin rd t1 t2 g)" if "replay_inv g"
    using that unfolding armed_spin_def by (auto intro: replay_stream_queue)
  moreover have "sg_retired_sessions (armed_spin rd t1 t2 g) = sg_retired_sessions g"
    by (simp add: armed_spin_def enforce_command_deadline_def sg_enforce_safety_deadline_def split: option.split)
  ultimately show ?thesis using fresh_cong [OF inv] closed_armed inv by (simp add: fresh_inv_def)
qed

lemma stream_step: assumes "stream_inv g" shows "stream_inv (sg_step e g)"
proof (cases e)
  case (Frame_Arrives f n p v x t)
  have c: "closed_inv (sg_step e g)" using assms closed_step by (simp add: stream_inv_def fresh_inv_def)
  have "fst (stream (sg_step e g)) = fst (stream g) \<and> sg_baseline_pending (sg_step e g) = sg_baseline_pending g"
    by (simp add: Frame_Arrives sg_joint_command_def stream_def split: sum.split prod.split)
  then have "fresh_inv (sg_step e g)"
    using fresh_cong [of g "sg_step e g"] c replay_cong [of "sg_step e g" g] assms by (simp add: stream_inv_def stream_def)
  then show ?thesis using assms pend_frame Frame_Arrives by (simp add: stream_inv_def)
next
  case (Sample_Arrives a t s)
  have c: "closed_inv (sg_step e g)" using assms closed_step by (simp add: stream_inv_def fresh_inv_def)
  have "fst (stream (sg_step e g)) = fst (stream g) \<and> sg_baseline_pending (sg_step e g) = sg_baseline_pending g"
    by (simp add: Sample_Arrives sg_safety_sample_def stream_def Let_def)
  then have "fresh_inv (sg_step e g)"
    using fresh_cong [of g "sg_step e g"] c replay_cong [of "sg_step e g" g] assms by (simp add: stream_inv_def stream_def)
  then show ?thesis using assms pend_sample Sample_Arrives by (simp add: stream_inv_def)
next
  case (Spin rd t1 t2 rds)
  have "stream_inv (armed_spin rd t1 t2 g)" using assms fresh_armed pend_armed by (simp add: stream_inv_def)
  then show ?thesis using Spin stream_drain by (simp add: spin_unfold)
qed

interpretation sg_fresh: event_invariant sg_step stream_inv
  by unfold_locales (rule stream_step)

lemma stream_new: "stream_inv (sg_new b t1 t2 rd)"
  by (simp add: stream_inv_def fresh_inv_def closed_new) (simp add: sg_new_def replay_inv_def)

text \<open>C7: No packet is applied twice or out of order, as long as fewer than 64 command sessions (the
  number the gateway remembers) have been retired. Over any history with that bound, of any two
  packets of one session handed to the running backend, the packets of a baseline counted one by
  one, the later has the greater generation, snapshot or packet number, across losses,
  recoveries, safety stops and returns of earlier publishers.\<close>
theorem applied_packets_increase:
  assumes "g = sg_run es (sg_new b safety_timeout command_timeout rd)"
    and "length (sg_retired_sessions g) < MAX_RETIRED_COMMAND_EPOCHS"
  shows "sorted_wrt applied_before (sg_applied g)"
proof -
  have "stream_inv g" unfolding assms(1) sg_run_def by (rule sg_fresh.run_inv [OF stream_new])
  then show ?thesis using assms(2) by (simp add: stream_inv_def fresh_inv_def replay_inv_def)
qed

theorem applied_packets_increase_witness:
  "sorted_wrt applied_before (sg_applied (sg_run demo_start demo_gateway))
     \<and> sg_applied (sg_run demo_start demo_gateway) = [(7, 5, 1)]"
proof -
  have 1: "length (sg_retired_sessions (sg_run demo_start demo_gateway)) < MAX_RETIRED_COMMAND_EPOCHS" by code_simp
  have 2: "sg_applied (sg_run demo_start demo_gateway) = [(7, 5, 1)]" by code_simp
  show ?thesis using applied_packets_increase [OF _ 1, of demo_start demo_backend "Fin 3" "Fin 3" "demo_reads (Fin 0)"] 2
    unfolding demo_gateway_def by blast
qed

end
