(* ===== verification/Py_Values.thy ===== *)
theory Py_Values
  imports Sim_Prelude
begin

text \<open>
  Python values as the code inspects them: outcomes in sequence, the text functions, access to JSON-like values,
  the builtins \<open>float\<close> (which raises for an integer beyond the floats), \<open>str\<close>, \<open>dict\<close>, equality, and rounding.
\<close>

section \<open>Outcomes in sequence, texts\<close>

definition bind :: "'a res \<Rightarrow> ('a \<Rightarrow> 'b res) \<Rightarrow> 'b res" where
  "bind r f = (case r of Inl e \<Rightarrow> Inl e | Inr x \<Rightarrow> f x)"

fun each :: "('a \<Rightarrow> 'b res) \<Rightarrow> 'a list \<Rightarrow> 'b list res" where
  "each f [] = Inr []"
| "each f (x # xs) = bind (f x) (\<lambda>y. bind (each f xs) (\<lambda>ys. Inr (y # ys)))"

lemma bind_simps [simp]: "bind (Inl e) f = Inl e" "bind (Inr x) f = f x"
  by (simp_all add: bind_def)

lemma bind_Inr_iff: "bind r f = Inr y \<longleftrightarrow> (\<exists>x. r = Inr x \<and> f x = Inr y)"
  by (cases r) auto

lemma each_Cons_InrE:
  assumes "each f (x # xs) = Inr ys"
  obtains z zs where "f x = Inr z" "each f xs = Inr zs" "ys = z # zs"
  using assms by (auto simp: bind_Inr_iff)

lemma each_map:
  assumes fg: "\<And>x y. f x = Inr y \<Longrightarrow> g x = Inr (h y)" and "each f xs = Inr ys"
  shows "each g xs = Inr (map h ys)"
  using assms(2)
proof (induction xs arbitrary: ys)
  case (Cons x xs)
  from Cons.prems show ?case by (rule each_Cons_InrE) (simp add: fg Cons.IH)
qed simp

lemma each_all:
  assumes P: "\<And>x y. f x = Inr y \<Longrightarrow> P y" and "each f xs = Inr ys"
  shows "list_all P ys"
  using assms(2)
proof (induction xs arbitrary: ys)
  case (Cons x xs)
  from Cons.prems show ?case by (rule each_Cons_InrE) (simp add: P Cons.IH)
qed simp

lemma each_length: "each f xs = Inr ys \<Longrightarrow> length ys = length xs"
  by (induction xs arbitrary: ys) (auto simp: bind_Inr_iff)

lemma each_nth: "each f xs = Inr ys \<Longrightarrow> i < length xs \<Longrightarrow> f (xs ! i) = Inr (ys ! i)"
  by (induction xs arbitrary: ys i) (auto simp: bind_Inr_iff nth_Cons split: nat.split)

lemma each_each:
  assumes h: "\<And>x y z. f x = Inr y \<Longrightarrow> g x = Inr z \<Longrightarrow> h z = Inr y"
    and "each f xs = Inr ys" "each g xs = Inr zs"
  shows "each h zs = Inr ys"
  using assms(2,3)
proof (induction xs arbitrary: ys zs)
  case (Cons x xs)
  from Cons.prems(1) obtain y ys' where "f x = Inr y" "each f xs = Inr ys'" "ys = y # ys'" by (rule each_Cons_InrE)
  moreover from Cons.prems(2) obtain z zs' where "g x = Inr z" "each g xs = Inr zs'" "zs = z # zs'"
    by (rule each_Cons_InrE)
  ultimately show ?case by (simp add: h Cons.IH)
qed simp

text \<open>\<open>text.split()\<close> and \<open>text.splitlines()\<close>, on the code points below 256.\<close>

fun split_spaces :: "string \<Rightarrow> string list" where
  "split_spaces [] = [[]]"
| "split_spaces (c # cs) =
     (if is_space c then [] # split_spaces cs
      else (case split_spaces cs of [] \<Rightarrow> [[c]] | w # ws \<Rightarrow> (c # w) # ws))"

definition py_words :: "string \<Rightarrow> string list" where
  "py_words s = filter (\<lambda>w. w \<noteq> []) (split_spaces s)"

definition is_line_break :: "char \<Rightarrow> bool" where
  "is_line_break c = (let n = (of_char c :: nat) in 10 \<le> n \<and> n \<le> 13 \<or> 28 \<le> n \<and> n \<le> 30 \<or> n = 133)"

fun lines_from :: "string \<Rightarrow> string \<Rightarrow> string list" where
  "lines_from line [] = (if line = [] then [] else [line])"
| "lines_from line (c # cs) =
     (if \<not> is_line_break c then lines_from (line @ [c]) cs
      else if c = CHR 0x0D \<and> cs \<noteq> [] \<and> hd cs = CHR 0x0A then line # lines_from [] (tl cs)
      else line # lines_from [] cs)"

definition py_splitlines :: "string \<Rightarrow> string list" where
  "py_splitlines = lines_from []"

text \<open>\<open>data.strip()\<close>, \<open>data.lower()\<close> and \<open>needle in data\<close> of bytes: ASCII only.\<close>

definition bytes_space :: "char \<Rightarrow> bool" where
  "bytes_space c = (let n = (of_char c :: nat) in 9 \<le> n \<and> n \<le> 13 \<or> n = 32)"

definition bytes_strip :: "string \<Rightarrow> string" where
  "bytes_strip s = rev (dropWhile bytes_space (rev (dropWhile bytes_space s)))"

definition bytes_lower :: "string \<Rightarrow> string" where
  "bytes_lower = map (\<lambda>c. let n = (of_char c :: nat) in if 65 \<le> n \<and> n \<le> 90 then char_of (n + 32) else c)"

definition py_contains :: "string \<Rightarrow> string \<Rightarrow> bool" where
  "py_contains needle s = list_ex (\<lambda>k. startswith (drop k s) needle) [0..<length s]"

section \<open>Values\<close>

definition py_get :: "pyval \<Rightarrow> string \<Rightarrow> pyval res" where
  "py_get v key =
     (case v of PDict d \<Rightarrow> (case map_of d key of None \<Rightarrow> Inl (KeyError key) | Some x \<Rightarrow> Inr x)
      | _ \<Rightarrow> Inl (TypeError ''not a mapping''))"

definition py_get_default :: "pyval \<Rightarrow> string \<Rightarrow> pyval \<Rightarrow> pyval res" where
  "py_get_default v key fallback =
     (case v of PDict d \<Rightarrow> Inr (case map_of d key of None \<Rightarrow> fallback | Some x \<Rightarrow> x)
      | _ \<Rightarrow> Inl (OtherError ''no attribute get''))"

definition py_items :: "pyval \<Rightarrow> pyval list res" where
  "py_items v = (case v of PList xs \<Rightarrow> Inr xs | PStr s \<Rightarrow> Inr (map (\<lambda>c. PStr [c]) s)
     | PDict d \<Rightarrow> Inr (map (PStr \<circ> fst) d) | _ \<Rightarrow> Inl (TypeError ''not iterable''))"

text \<open>
  The builtins on JSON values: \<open>float\<close>, \<open>str\<close> and \<open>dict\<close>. The float a text denotes and the rendering of
  floats, lists and dictionaries are fields. An integer that does not round to a float raises; any other is
  taken exactly.
\<close>

definition FLOAT_LIMIT :: int where "FLOAT_LIMIT = 2 ^ 1024 - 2 ^ 970"

lemma FLOAT_LIMIT_code [code]:
  "FLOAT_LIMIT = 179769313486231580793728971405303415079934132710037826936173778980444968292764750946649017977587207096330286416692887910946555547851940402630657488671505820681908902000708383676273854845817711531764475730270069855571366959622842914819860834936475292719074168444365510704342711559699508093042880177904174497792"
  by (simp add: FLOAT_LIMIT_def)

definition int_float :: "int \<Rightarrow> pyfloat res" where
  "int_float i =
     (if \<bar>i\<bar> < FLOAT_LIMIT then Inr (Fin (of_int i)) else Inl (OtherError ''int too large to convert to float''))"

lemma int_float_small [simp]: "\<bar>i\<bar> \<le> 2 ^ 64 \<Longrightarrow> int_float i = Inr (Fin (of_int i))"
  by (simp add: int_float_def FLOAT_LIMIT_def)

lemma int_float_Inr: "int_float i = Inr x \<longleftrightarrow> \<bar>i\<bar> < FLOAT_LIMIT \<and> x = Fin (of_int i)"
  by (auto simp: int_float_def)

record py_builtins =
  pb_float_text :: "string \<Rightarrow> pyfloat option"
  pb_render :: "pyval \<Rightarrow> string"

definition py_float :: "py_builtins \<Rightarrow> pyval \<Rightarrow> pyfloat res" where
  "py_float pb v =
     (case v of
        PBool b \<Rightarrow> Inr (Fin (if b then 1 else 0))
      | PInt i \<Rightarrow> int_float i
      | PFloat f \<Rightarrow> Inr f
      | PStr s \<Rightarrow> (case pb_float_text pb s of None \<Rightarrow> Inl (ValueError ''could not convert string to float'') | Some f \<Rightarrow> Inr f)
      | _ \<Rightarrow> Inl (TypeError ''float() argument must be a string or a real number''))"

definition py_str :: "py_builtins \<Rightarrow> pyval \<Rightarrow> string" where
  "py_str pb v =
     (case v of
        PStr s \<Rightarrow> s
      | PInt i \<Rightarrow> dec_int i
      | PBool b \<Rightarrow> (if b then ''True'' else ''False'')
      | PNone \<Rightarrow> ''None''
      | _ \<Rightarrow> pb_render pb v)"

text \<open>\<open>dict(x)\<close> copies a mapping, and builds one from pairs; the keys of a dictionary are strings here.\<close>

definition dict_entry :: "pyval \<Rightarrow> (string \<times> pyval) res" where
  "dict_entry v = bind (py_items v) (\<lambda>xs.
     case xs of [PStr k, x] \<Rightarrow> Inr (k, x)
     | [k, x] \<Rightarrow> Inl (TypeError ''key is not a string'')
     | _ \<Rightarrow> Inl (ValueError ''dictionary update sequence element must have length 2''))"

definition py_dict :: "pyval \<Rightarrow> (string \<times> pyval) list res" where
  "py_dict v = (case v of PDict d \<Rightarrow> Inr d
     | _ \<Rightarrow> bind (py_items v) (\<lambda>xs. bind (each dict_entry xs) (\<lambda>kvs. Inr (foldl (\<lambda>d (k, x). dict_set k x d) [] kvs))))"

text \<open>\<open>bool(x)\<close>.\<close>

definition py_truthy :: "pyval \<Rightarrow> bool" where
  "py_truthy v =
     (case v of PNone \<Rightarrow> False | PBool b \<Rightarrow> b | PInt i \<Rightarrow> i \<noteq> 0 | PFloat x \<Rightarrow> \<not> feq x (Fin 0)
      | PStr s \<Rightarrow> s \<noteq> [] | PList xs \<Rightarrow> xs \<noteq> [] | PDict d \<Rightarrow> d \<noteq> [])"

text \<open>\<open>a == b\<close>: numbers of all types compare by value, dictionaries without regard to their order.\<close>

fun number_of :: "pyval \<Rightarrow> pyfloat option" where
  "number_of (PBool b) = Some (Fin (if b then 1 else 0))"
| "number_of (PInt i) = Some (Fin (of_int i))"
| "number_of (PFloat f) = Some f"
| "number_of _ = None"

definition scalar_eq :: "pyval \<Rightarrow> pyval \<Rightarrow> bool" where
  "scalar_eq a b =
     (case (number_of a, number_of b) of
        (Some x, Some y) \<Rightarrow> feq x y
      | (None, None) \<Rightarrow> (case (a, b) of (PNone, PNone) \<Rightarrow> True | (PStr s, PStr t) \<Rightarrow> s = t | _ \<Rightarrow> False)
      | _ \<Rightarrow> False)"

fun py_eq :: "pyval \<Rightarrow> pyval \<Rightarrow> bool"
  and list_eq :: "pyval list \<Rightarrow> pyval list \<Rightarrow> bool"
  and dict_sub :: "(string \<times> pyval) list \<Rightarrow> (string \<times> pyval) list \<Rightarrow> bool"
where
  "py_eq (PList xs) b = (case b of PList ys \<Rightarrow> list_eq xs ys | _ \<Rightarrow> False)"
| "py_eq (PDict d) b = (case b of PDict e \<Rightarrow> length d = length e \<and> dict_sub d e | _ \<Rightarrow> False)"
| "py_eq a b = scalar_eq a b"
| "list_eq [] ys = (ys = [])"
| "list_eq (x # xs) ys = (case ys of [] \<Rightarrow> False | y # ys' \<Rightarrow> py_eq x y \<and> list_eq xs ys')"
| "dict_sub [] e = True"
| "dict_sub ((k, v) # d) e = (case map_of e k of None \<Rightarrow> False | Some w \<Rightarrow> py_eq v w \<and> dict_sub d e)"

text \<open>Rounding to the nearest integer, ties to even, and \<open>round(x, digits)\<close>.\<close>

definition round_even :: "rat \<Rightarrow> int" where
  "round_even y = (let f = \<lfloor>y\<rfloor>; d = y - of_int f
                   in if d < 1 / 2 then f else if 1 / 2 < d then f + 1 else if even f then f else f + 1)"

definition round_digits :: "nat \<Rightarrow> rat \<Rightarrow> rat" where
  "round_digits n x = of_int (round_even (x * 10 ^ n)) / 10 ^ n"

lemma round_even_int [simp]: "round_even (of_int i) = i"
  by (simp add: round_even_def Let_def)

lemma round_digits_idem [simp]: "round_digits n (round_digits n x) = round_digits n x"
  by (simp add: round_digits_def)

end
