(* ===== verification/Target_Gate.thy ===== *)
theory Target_Gate
  imports Backend_Safety Py_Values
begin

text \<open>
  The gate that skips joint-target writes (\<open>tinker_sim_isaac/target_write_gate.py\<close>) and its
  place in \<open>step()\<close> of the backend: the physics engine keeps the last targets it was given, so a
  step whose targets equal the last written ones need not write.

  \<open>es_engine\<close> is what the engine holds through the robot's current view, unknown when that view is
  new or a write raised, and \<open>es_wedged\<close> says whether a write ever raised without the view being
  rebuilt; the model adds both to state what the gate promises. \<open>id(root_view)\<close> is a number the
  model hands out once per view. Not modelled: the pose of a fixed base, the held object of the
  referee, the bodies and views that are not the robot's, and the timing profile.
\<close>

section \<open>The gate\<close>

record 'a write_gate =
  wg_always :: bool
  wg_written :: "'a list option"
  wg_forced :: bool

definition wg_new :: "bool \<Rightarrow> 'a write_gate" where
  "wg_new always_write = \<lparr>wg_always = always_write, wg_written = None, wg_forced = True\<rparr>"

definition force_next :: "'a write_gate \<Rightarrow> 'a write_gate" where
  "force_next g = g\<lparr>wg_forced := True\<rparr>"

definition should_write :: "('a \<Rightarrow> 'a \<Rightarrow> bool) \<Rightarrow> 'a list \<Rightarrow> 'a write_gate \<Rightarrow> bool" where
  "should_write equal wanted g =
     (if wg_always g \<or> wg_forced g then True
      else case wg_written g of
        None \<Rightarrow> True
      | Some written \<Rightarrow>
          if length wanted \<noteq> length written then True
          else \<not> list_all (\<lambda>(current, old). equal current old) (zip wanted written))"

definition note_written :: "'a list \<Rightarrow> 'a write_gate \<Rightarrow> 'a write_gate" where
  "note_written snapshots g = g\<lparr>wg_written := Some snapshots, wg_forced := False\<rparr>"

text \<open>\<open>torch.equal\<close> on rows of floats: equal lengths, and no NaN equals anything.\<close>

definition tensor_equal :: "pyfloat list \<Rightarrow> pyfloat list \<Rightarrow> bool" where
  "tensor_equal xs ys \<longleftrightarrow> length xs = length ys \<and> list_all (\<lambda>(x, y). feq x y) (zip xs ys)"

text \<open>What the gate relies on: targets that compare equal are the same targets.\<close>

locale target_equality =
  fixes equal :: "'a \<Rightarrow> 'a \<Rightarrow> bool"
  assumes equal_sound: "equal a b \<Longrightarrow> a = b"
begin

lemma all_equal:
  "length xs = length ys \<Longrightarrow> list_all (\<lambda>(x, y). equal x y) (zip xs ys) \<Longrightarrow> xs = ys"
  by (induction xs ys rule: list_induct2) (auto intro: equal_sound)

lemma skip_is_held:
  assumes "\<not> should_write equal wanted g"
  shows "wg_written g = Some wanted \<and> \<not> wg_forced g"
  using assms all_equal [of wanted]
  by (auto simp: should_write_def split: option.splits if_splits)

lemma note_settles:
  assumes "\<not> wg_always g" "should_write equal wanted (note_written wanted g)"
  shows "\<not> list_all (\<lambda>x. equal x x) wanted"
proof -
  have "list_all (\<lambda>(x, y). equal x y) (zip xs xs) = list_all (\<lambda>x. equal x x) xs" for xs
    by (induction xs) simp_all
  then show ?thesis using assms by (simp add: should_write_def note_written_def)
qed

end

lemma feq_eq: "feq x y \<Longrightarrow> x = y"
  by (cases x; cases y) simp_all

interpretation floats: target_equality feq
  by unfold_locales (rule feq_eq)

interpretation tensors: target_equality tensor_equal
  by unfold_locales (auto simp: tensor_equal_def intro: floats.all_equal)

section \<open>Stepping through the gate\<close>

record stepper =
  es_backend :: backend
  es_gate :: "pyfloat list write_gate"
  es_effort_writer :: bool
  es_view :: "nat option"
  es_live :: "(nat \<times> robot_view) option"
  es_fresh :: nat
  es_recoveries :: nat
  es_engine :: "pyfloat list list option"
  es_wedged :: bool

text \<open>A stop of the timeline drops the robot's view, a start creates a new one.\<close>

definition new_view :: "robot_view option \<Rightarrow> stepper \<Rightarrow> stepper" where
  "new_view rv s = s\<lparr>es_live := map_option (Pair (es_fresh s)) rv, es_fresh := es_fresh s + 1, es_engine := None\<rparr>"

definition refresh_handles :: "stepper \<Rightarrow> stepper \<times> bool" where
  "refresh_handles s =
     (case es_live s of
        None \<Rightarrow> (s, False)
      | Some (identity, rv) \<Rightarrow>
          if es_view s = Some identity then (s, True)
          else (s\<lparr>es_gate := force_next (es_gate s), es_backend := bind_robot rv (es_backend s),
                  es_view := Some identity\<rparr>, True))"

text \<open>\<open>_maybe_recover_simulation_view\<close>: the rebuilt view, or none when rebuilding it fails.\<close>

definition recoverable :: "string \<Rightarrow> bool" where
  "recoverable message \<longleftrightarrow> list_ex (\<lambda>token. py_contains token message)
     [''Failed to get'', ''Failed to set'', ''invalidated'', ''Simulation view'']"

definition recover_view :: "string \<Rightarrow> robot_view option \<Rightarrow> stepper \<Rightarrow> stepper \<times> bool" where
  "recover_view message rebuilt s =
     (if \<not> recoverable message \<or> 5 \<le> es_recoveries s then (s, False)
      else
        let s1 = new_view rebuilt (s\<lparr>es_recoveries := es_recoveries s + 1\<rparr>)
        in if rebuilt = None then (s1, False)
           else let s2 = fst (refresh_handles s1) in (s2\<lparr>es_gate := force_next (es_gate s2)\<rparr>, True))"

text \<open>A call into the simulator returns, or raises with a message; the rebuilt view is what a recovery would
  get.\<close>

datatype call_outcome = Returned | Raised string "robot_view option"

record step_input =
  sx_ramp :: ramp_config
  sx_pads :: ramp_input
  sx_dt :: pyfloat
  sx_joint_pos :: "pyfloat list"
  sx_hold :: hold_reading
  sx_ready :: "robot_view option"
  sx_write :: call_outcome
  sx_update :: call_outcome

text \<open>\<open>set_safety_stop\<close> arms the gate through \<open>bk_force_write\<close>.\<close>

definition absorb_force :: "stepper \<Rightarrow> stepper" where
  "absorb_force s =
     (if bk_force_write (es_backend s)
      then s\<lparr>es_backend := (es_backend s)\<lparr>bk_force_write := False\<rparr>, es_gate := force_next (es_gate s)\<rparr>
      else s)"

text \<open>Without a writer of efforts the engine is handed positions and velocities only.\<close>

definition handed :: "bool \<Rightarrow> 'a list \<Rightarrow> 'a list" where
  "handed effort_writer wanted = (if effort_writer then wanted else take 2 wanted)"

datatype step_end = Not_Ready | View_Rebuilt | Stepped

definition write_step :: "call_outcome \<Rightarrow> pyfloat list list \<Rightarrow> stepper \<Rightarrow> stepper \<times> step_end res" where
  "write_step outcome wanted s =
     (if \<not> should_write tensor_equal wanted (es_gate s) then (s, Inr Stepped)
      else case outcome of
        Returned \<Rightarrow>
          (s\<lparr>es_engine := Some (handed (es_effort_writer s) wanted), es_gate := note_written wanted (es_gate s)\<rparr>,
           Inr Stepped)
      | Raised message rebuilt \<Rightarrow>
          (case recover_view message rebuilt (s\<lparr>es_engine := None\<rparr>) of
             (s1, True) \<Rightarrow> (s1, Inr View_Rebuilt)
           | (s1, False) \<Rightarrow> (s1\<lparr>es_wedged := True\<rparr>, Inl (RuntimeError ''articulation tensor view failed''))))"

definition update_robot :: "call_outcome \<Rightarrow> stepper \<Rightarrow> stepper \<times> step_end res" where
  "update_robot outcome s =
     (case outcome of
        Returned \<Rightarrow> (s, Inr Stepped)
      | Raised message rebuilt \<Rightarrow>
          (case recover_view message rebuilt s of
             (s1, True) \<Rightarrow> (s1, Inr View_Rebuilt)
           | (s1, False) \<Rightarrow> (s1, Inl (OtherError message))))"

definition es_step :: "step_input \<Rightarrow> stepper \<Rightarrow> stepper \<times> step_end res" where
  "es_step sx s0 =
     (case refresh_handles s0 of
        (s, False) \<Rightarrow>
          (fst (refresh_handles (case sx_ready sx of None \<Rightarrow> s | Some rv \<Rightarrow> new_view (Some rv) s)), Inr Not_Ready)
      | (s, True) \<Rightarrow>
          (case step_targets (sx_ramp sx) (sx_pads sx) (sx_dt sx) (sx_joint_pos sx) (sx_hold sx) (es_backend s) of
             (b1, Inl e) \<Rightarrow> (s\<lparr>es_backend := b1\<rparr>, Inl e)
           | (b1, Inr (positions, velocities)) \<Rightarrow>
               let s1 = absorb_force (s\<lparr>es_backend := b1\<rparr>)
               in if \<not> es_effort_writer s1 \<and> bk_stopped b1
                  then (s1, Inl (RuntimeError ''safety stop requires Isaac Lab set_joint_effort_target''))
                  else (case write_step (sx_write sx) [positions, velocities, bk_efforts b1] s1 of
                          (s2, Inr Stepped) \<Rightarrow> update_robot (sx_update sx) s2
                        | (s2, r) \<Rightarrow> (s2, r))))"

datatype es_event =
    ES_Command joint_command
  | ES_Begin pyval
  | ES_Discard
  | ES_Stop bool "pyfloat list"
  | ES_View "robot_view option"
  | ES_Step step_input

fun es_event_step :: "es_event \<Rightarrow> stepper \<Rightarrow> stepper" where
  "es_event_step (ES_Command c) s = s\<lparr>es_backend := fst (command_joints c (es_backend s))\<rparr>"
| "es_event_step (ES_Begin v) s = s\<lparr>es_backend := fst (begin_command_snapshot v (es_backend s))\<rparr>"
| "es_event_step ES_Discard s = s\<lparr>es_backend := discard_command_snapshot_staging (es_backend s)\<rparr>"
| "es_event_step (ES_Stop a q) s = s\<lparr>es_backend := set_safety_stop q a (es_backend s)\<rparr>"
| "es_event_step (ES_View rv) s = new_view rv s"
| "es_event_step (ES_Step sx) s = fst (es_step sx s)"

definition es_new :: "bool \<Rightarrow> bool \<Rightarrow> backend \<Rightarrow> stepper" where
  "es_new always_write effort_writer b =
     \<lparr>es_backend = b, es_gate = wg_new always_write, es_effort_writer = effort_writer, es_view = None,
      es_live = None, es_fresh = 0, es_recoveries = 0, es_engine = None, es_wedged = False\<rparr>"

definition es_run :: "es_event list \<Rightarrow> stepper \<Rightarrow> stepper" where
  "es_run = run_events es_event_step"

section \<open>The gate is transparent\<close>

text \<open>Unless a write raised for good: while the view that the backend is bound to is the robot's and no
  write is forced, the engine holds what the gate remembers.\<close>

definition gate_inv :: "stepper \<Rightarrow> bool" where
  "gate_inv s \<longleftrightarrow>
     (\<forall>i. es_view s = Some i \<longrightarrow> i < es_fresh s)
   \<and> (\<not> es_wedged s \<longrightarrow>
        (\<forall>wanted i rv. \<not> wg_forced (es_gate s) \<longrightarrow> wg_written (es_gate s) = Some wanted \<longrightarrow>
           es_live s = Some (i, rv) \<longrightarrow> es_view s = Some i \<longrightarrow>
           es_engine s = Some (handed (es_effort_writer s) wanted)))
   \<and> (\<forall>i rv. es_live s = Some (i, rv) \<longrightarrow> i < es_fresh s)"

lemma gate_cong: "gate_inv s \<Longrightarrow> gate_inv (s\<lparr>es_backend := b\<rparr>)"
  by (simp add: gate_inv_def)

lemma gate_forced: "gate_inv s \<Longrightarrow> gate_inv (s\<lparr>es_gate := force_next (es_gate s)\<rparr>)"
  by (simp add: gate_inv_def force_next_def)

lemma absorb_gate: "gate_inv s \<Longrightarrow> gate_inv (absorb_force s)"
  by (simp add: absorb_force_def gate_inv_def force_next_def)

lemma absorb_keeps [simp]:
  "es_effort_writer (absorb_force s) = es_effort_writer s" "es_live (absorb_force s) = es_live s"
  "es_view (absorb_force s) = es_view s" "es_wedged (absorb_force s) = es_wedged s"
  by (simp_all add: absorb_force_def)

lemma new_view_gate: "gate_inv s \<Longrightarrow> gate_inv (new_view rv s)"
  by (auto simp: gate_inv_def new_view_def)

lemma refresh_gate: "gate_inv s \<Longrightarrow> gate_inv (fst (refresh_handles s))"
  by (auto simp: gate_inv_def refresh_handles_def force_next_def split: option.splits)

lemma refresh_ready:
  assumes "refresh_handles s = (s', True)"
  shows "\<exists>i rv. es_live s' = Some (i, rv) \<and> es_view s' = Some i"
  using assms by (auto simp: refresh_handles_def split: option.splits if_splits)

lemma recover_gate:
  assumes "gate_inv s" "recover_view message rebuilt s = (s', r)"
  shows "gate_inv s'"
proof -
  have "gate_inv (new_view rebuilt (s\<lparr>es_recoveries := es_recoveries s + 1\<rparr>))"
    by (rule new_view_gate) (use assms(1) in \<open>simp add: gate_inv_def\<close>)
  then show ?thesis using assms by (auto simp: recover_view_def Let_def gate_forced refresh_gate split: if_splits)
qed

lemma recover_lost:
  assumes "recover_view message rebuilt (s\<lparr>es_engine := None\<rparr>) = (s', True)" "gate_inv s"
  shows "gate_inv s'"
proof -
  have "gate_inv (new_view rebuilt (s\<lparr>es_engine := None, es_recoveries := es_recoveries s + 1\<rparr>))"
    using assms(2) by (auto simp: gate_inv_def new_view_def)
  then show ?thesis using assms(1) by (auto simp: recover_view_def Let_def gate_forced refresh_gate split: if_splits)
qed

lemma recover_failed:
  assumes "recover_view message rebuilt (s\<lparr>es_engine := None\<rparr>) = (s', False)" "gate_inv s"
  shows "gate_inv (s'\<lparr>es_wedged := True\<rparr>)"
  using assms by (auto simp: recover_view_def new_view_def gate_inv_def Let_def split: if_splits)

text \<open>A write settles the engine: it holds the wanted targets, whether they were written or not.\<close>

lemma write_step_gate:
  assumes inv: "gate_inv s" and w: "write_step outcome wanted s = (s', r)"
    and view: "\<exists>i rv. es_live s = Some (i, rv) \<and> es_view s = Some i"
  shows "gate_inv s' \<and> (r = Inr Stepped \<and> \<not> es_wedged s' \<longrightarrow>
      es_engine s' = Some (handed (es_effort_writer s) wanted) \<and> es_effort_writer s' = es_effort_writer s)"
proof (cases "should_write tensor_equal wanted (es_gate s)")
  case False
  then have "s' = s" using w by (simp add: write_step_def)
  then show ?thesis using inv view tensors.skip_is_held [OF False] by (auto simp: gate_inv_def)
next
  case True
  show ?thesis
  proof (cases outcome)
    case Returned
    then show ?thesis using inv w True by (auto simp: write_step_def gate_inv_def note_written_def)
  next
    case (Raised message rebuilt)
    obtain s1 ok where rec: "recover_view message rebuilt (s\<lparr>es_engine := None\<rparr>) = (s1, ok)" by (metis prod.exhaust)
    show ?thesis using w True Raised rec recover_lost [OF _ inv, of message rebuilt s1]
        recover_failed [OF _ inv, of message rebuilt s1]
      by (cases ok) (auto simp: write_step_def)
  qed
qed

lemma update_gate:
  assumes "gate_inv s" "update_robot outcome s = (s', r)"
  shows "gate_inv s' \<and> (r = Inr Stepped \<longrightarrow> s' = s)"
proof (cases outcome)
  case (Raised message rebuilt)
  obtain s1 ok where rec: "recover_view message rebuilt s = (s1, ok)" by (metis prod.exhaust)
  show ?thesis using assms(2) Raised rec recover_gate [OF assms(1) rec] by (cases ok) (auto simp: update_robot_def)
qed (use assms in \<open>simp add: update_robot_def\<close>)

lemma es_step_cases:
  assumes inv: "gate_inv s0" and s': "es_step sx s0 = (s', r)"
  shows "gate_inv s' \<and> (r = Inr Stepped \<and> \<not> es_wedged s' \<longrightarrow>
    (\<exists>s b1 p v. refresh_handles s0 = (s, True)
       \<and> step_targets (sx_ramp sx) (sx_pads sx) (sx_dt sx) (sx_joint_pos sx) (sx_hold sx) (es_backend s)
           = (b1, Inr (p, v))
       \<and> es_engine s' = Some (handed (es_effort_writer s') [p, v, bk_efforts b1])
       \<and> (bk_stopped b1 \<longrightarrow> es_effort_writer s')))"
proof -
  obtain s ready where rf: "refresh_handles s0 = (s, ready)" by (metis prod.exhaust)
  then have g: "gate_inv s" using refresh_gate [OF inv] by simp
  show ?thesis
  proof (cases ready)
    case False
    then show ?thesis using rf s' g
      by (auto simp: es_step_def intro!: refresh_gate new_view_gate split: option.splits)
  next
    case True
    obtain b1 t where st: "step_targets (sx_ramp sx) (sx_pads sx) (sx_dt sx) (sx_joint_pos sx) (sx_hold sx)
        (es_backend s) = (b1, t)" by (metis prod.exhaust)
    show ?thesis
    proof (cases t)
      case (Inl e)
      then show ?thesis using s' st rf True g by (auto simp: es_step_def gate_cong)
    next
      case (Inr pv)
      obtain p v where pv: "pv = (p, v)" by (metis prod.exhaust)
      let ?s1 = "absorb_force (s\<lparr>es_backend := b1\<rparr>)" and ?t = "[p, v, bk_efforts b1]"
      have g1: "gate_inv ?s1" by (intro absorb_gate gate_cong g)
      obtain s2 r2 where w: "write_step (sx_write sx) ?t ?s1 = (s2, r2)" by (metis prod.exhaust)
      have view: "\<exists>i rv. es_live ?s1 = Some (i, rv) \<and> es_view ?s1 = Some i"
        using refresh_ready [of s0 s] rf True by simp
      note settled = write_step_gate [OF g1 w view]
      show ?thesis
      proof (cases "\<not> es_effort_writer s \<and> bk_stopped b1")
        case True
        then show ?thesis using s' st rf \<open>ready\<close> Inr pv g1 by (auto simp: es_step_def)
      next
        case writer: False
        have s2: "(s', r) = (if r2 = Inr Stepped then update_robot (sx_update sx) s2 else (s2, r2))"
          using s' st rf \<open>ready\<close> Inr pv w writer
          by (auto simp: es_step_def split: sum.splits step_end.splits)
        show ?thesis
        proof (cases "r2 = Inr Stepped")
          case True
          then have "update_robot (sx_update sx) s2 = (s', r)" using s2 by simp
          from update_gate [OF _ this] settled True writer rf \<open>ready\<close> st Inr pv show ?thesis by auto
        next
          case False
          then show ?thesis using s2 settled by simp
        qed
      qed
    qed
  qed
qed

lemma gate_step: "gate_inv s \<Longrightarrow> gate_inv (es_event_step e s)"
proof (cases e)
  case (ES_Step sx)
  assume inv: "gate_inv s"
  obtain s' r where s': "es_step sx s = (s', r)" by (metis prod.exhaust)
  from es_step_cases [OF inv this] show ?thesis using ES_Step s' by simp
qed (simp_all add: gate_cong new_view_gate)

lemma gate_run: "gate_inv s \<Longrightarrow> gate_inv (es_run es s)"
  unfolding es_run_def by (induction es arbitrary: s) (simp_all add: gate_step)

text \<open>C14: Skipping unchanged writes changes nothing. After any history of commands, stops, dropped and
  rebuilt views and steps, a step that runs to its end leaves the physics engine holding exactly
  the targets of that step (positions, velocities and, where the robot takes them, efforts), as if
  every step wrote them, provided no write has ever raised without its view being rebuilt; a
  stopped step that runs to its end always hands over the efforts of its hold.\<close>
theorem gate_is_transparent:
  assumes "s = es_run es (es_new always_write effort_writer b)"
    and "es_step sx s = (s', Inr Stepped)" and "\<not> es_wedged s'"
  shows "\<exists>s1 b1 p v. refresh_handles s = (s1, True)
    \<and> step_targets (sx_ramp sx) (sx_pads sx) (sx_dt sx) (sx_joint_pos sx) (sx_hold sx) (es_backend s1)
        = (b1, Inr (p, v))
    \<and> es_engine s' = Some (handed (es_effort_writer s') [p, v, bk_efforts b1])
    \<and> (bk_stopped b1 \<longrightarrow> es_effort_writer s')"
proof -
  have "gate_inv (es_new always_write effort_writer b)" by (simp add: gate_inv_def es_new_def wg_new_def)
  then have "gate_inv s" using assms(1) gate_run by simp
  from es_step_cases [OF this assms(2)] assms(3) show ?thesis by simp
qed

text \<open>A robot is bound, stopped and stepped twice: the first of the steps writes the hold, the second is
  skipped, and the engine holds the gravity forces that the first step read.\<close>

definition demo_ramp :: ramp_config where
  "demo_ramp = \<lparr>rc_slew = Fin 0, rc_max_lead = Fin 0, rc_stall_speed = Fin 0, rc_halt_force = Fin 0\<rparr>"

definition demo_pads :: ramp_input where
  "demo_pads = \<lparr>ri_pad = None, ri_speed = None, ri_grip_force = Fin 0\<rparr>"

definition demo_view :: robot_view where
  "demo_view = \<lparr>rv_names = [''joint1'', ''drive_joint''], rv_pos = [Fin 5, Fin 6], rv_limits = None\<rparr>"

definition demo_input :: step_input where
  "demo_input = \<lparr>sx_ramp = demo_ramp, sx_pads = demo_pads, sx_dt = Fin (1/100), sx_joint_pos = [Fin 5, Fin 6],
     sx_hold = demo_pull, sx_ready = None, sx_write = Returned, sx_update = Returned\<rparr>"

definition demo_steps :: stepper where
  "demo_steps = es_run [ES_View (Some demo_view), ES_Stop True [Fin 5, Fin 6], ES_Step demo_input]
     (es_new False True demo_backend)"

lemma demo_second_write_skipped:
  "\<not> should_write tensor_equal [[Fin 5, Fin 6], [Fin 0, Fin 0], [Fin 100, Fin 0]] (es_gate demo_steps)"
  by code_simp

theorem gate_is_transparent_witness:
  "\<exists>s1 b1 p v. refresh_handles demo_steps = (s1, True)
     \<and> step_targets demo_ramp demo_pads (Fin (1/100)) [Fin 5, Fin 6] demo_pull (es_backend s1) = (b1, Inr (p, v))
     \<and> es_engine (fst (es_step demo_input demo_steps)) = Some [p, v, bk_efforts b1]"
proof -
  have end_step: "snd (es_step demo_input demo_steps) = Inr Stepped" by code_simp
  have ok: "\<not> es_wedged (fst (es_step demo_input demo_steps))" by code_simp
  have writer: "es_effort_writer (fst (es_step demo_input demo_steps))" by code_simp
  have "es_step demo_input demo_steps = (fst (es_step demo_input demo_steps), Inr Stepped)"
    using end_step by (metis prod.collapse)
  from gate_is_transparent [OF demo_steps_def this ok] writer show ?thesis
    by (simp add: demo_input_def handed_def)
qed

end
