(* ===== verification/Scoped_Reset.thy ===== *)
theory Scoped_Reset
  imports Backend_Safety
begin

text \<open>
  The in-place reset of the simulator (\<open>tinker_sim_isaac/scoped_reset.py\<close>). \<open>IdleReset.run\<close> is a
  coroutine: between its awaits other service requests and ROS callbacks run. The model is a
  state machine whose phases are the awaits; one event is one callback, one request, or one
  iteration of the wait loop. The provider's guards (\<open>bind_provider\<close>), the transport's
  observations (\<open>ResetTransport\<close>), the recorded initial state (\<open>PhysicsBaseline\<close>) and the test for
  standing still (\<open>StationaryWindow\<close>) are part of it.

  Reading the stage, writing rigid bodies and rendering are calls of Isaac Sim: what they return
  is an argument of the event. \<open>math.sqrt\<close> rounds; it is the argument \<open>sqrtf\<close> of the definitions
  that use it. The reason texts of the window are left out.
\<close>

section \<open>Standing still\<close>

definition REQUIRED_JOINTS :: "string list" where
  "REQUIRED_JOINTS = [''joint1'', ''joint2'', ''joint3'', ''joint4'', ''joint5'', ''joint6'', ''joint7'', ''drive_joint'']"

record root_state =
  ro_position :: "pyfloat list"
  ro_quaternion :: "pyfloat list"
  ro_linear :: "pyfloat list"
  ro_angular :: "pyfloat list"

record observation =
  ob_now :: pyfloat
  ob_names :: "string list"
  ob_positions :: "pyfloat list"
  ob_velocities :: "pyfloat list"
  ob_root :: root_state

type_synonym sample = "pyfloat \<times> pyfloat list \<times> pyfloat list"

definition fsum :: "pyfloat list \<Rightarrow> pyfloat" where
  "fsum xs = foldl fadd (Fin 0) xs"

fun drop_stale :: "pyfloat \<Rightarrow> sample list \<Rightarrow> sample list" where
  "drop_stale now (s0 # s1 # rest) =
     (if fle (fst s1) (fsub now (Fin (1/4))) then drop_stale now (s1 # rest) else s0 # s1 # rest)"
| "drop_stale now samples = samples"

definition span :: "pyfloat list \<Rightarrow> pyfloat" where
  "span xs = (case xs of [] \<Rightarrow> Fin 0 | x # ys \<Rightarrow> fsub (foldl pymax x ys) (foldl pymin x ys))"

text \<open>Indexing a sample that is shorter than the newest one raises.\<close>

fun spans_small :: "sample list \<Rightarrow> nat list \<Rightarrow> bool res" where
  "spans_small samples [] = Inr True"
| "spans_small samples (i # is) =
     (if list_ex (\<lambda>s. length (fst (snd s)) \<le> i) samples then Inl (OtherError ''tuple index out of range'')
      else if flt (Fin (1/2000)) (span (map (\<lambda>s. fst (snd s) ! i) samples)) then Inr False
      else spans_small samples is)"

definition quaternion_distance :: "(pyfloat \<Rightarrow> pyfloat) \<Rightarrow> pyfloat list \<Rightarrow> pyfloat list \<Rightarrow> pyfloat" where
  "quaternion_distance sqrtf a b =
     pymin (sqrtf (fsum (map2 (\<lambda>x y. fmul (fsub x y) (fsub x y)) a b)))
           (sqrtf (fsum (map2 (\<lambda>x y. fmul (fadd x y) (fadd x y)) a b)))"

definition observed_values :: "observation \<Rightarrow> pyfloat list" where
  "observed_values ob = ob_positions ob @ ob_velocities ob @ ro_position (ob_root ob)
     @ ro_quaternion (ob_root ob) @ ro_linear (ob_root ob) @ ro_angular (ob_root ob)"

definition quaternion_norm :: "(pyfloat \<Rightarrow> pyfloat) \<Rightarrow> observation \<Rightarrow> pyfloat" where
  "quaternion_norm sqrtf ob = sqrtf (fsum (map (\<lambda>v. fmul v v) (ro_quaternion (ob_root ob))))"

text \<open>\<open>dict(zip(names, positions))\<close>: a repeated name takes its last value.\<close>

definition measured_pose :: "observation \<Rightarrow> pyfloat list" where
  "measured_pose ob =
     (let measured = map_of (rev (zip (ob_names ob) (ob_positions ob)));
          monitored = REQUIRED_JOINTS @ filter (\<lambda>n. measured n \<noteq> None) [''pan_joint'', ''tilt_joint'']
      in map (\<lambda>n. the (measured n)) monitored @ ro_position (ob_root ob))"

definition observe :: "(pyfloat \<Rightarrow> pyfloat) \<Rightarrow> observation \<Rightarrow> sample list \<Rightarrow> sample list \<times> bool res" where
  "observe sqrtf ob samples =
     (if \<not> set REQUIRED_JOINTS \<subseteq> set (ob_names ob) \<or> length (ob_positions ob) \<noteq> length (ob_names ob)
         \<or> length (ob_velocities ob) \<noteq> length (ob_names ob)
      then ([], Inr False)
      else if \<not> list_all isfinite (observed_values ob) then ([], Inr False)
      else if flt (quaternion_norm sqrtf ob) (Fin (1 / 10 ^ 12)) then ([], Inr False)
      else
        let quaternion = map (\<lambda>v. fdiv v (quaternion_norm sqrtf ob)) (ro_quaternion (ob_root ob));
            pose = measured_pose ob;
            kept = drop_stale (ob_now ob) (samples @ [(ob_now ob, pose, quaternion)])
        in if flt (fsub (ob_now ob) (fst (hd kept))) (Fin (1/4)) then (kept, Inr False)
           else case spans_small kept [0..<length pose] of
             Inl e \<Rightarrow> (kept, Inl e)
           | Inr False \<Rightarrow> (kept, Inr False)
           | Inr True \<Rightarrow>
               (kept, Inr (\<not> list_ex (\<lambda>s. flt (Fin (1/2000))
                                (quaternion_distance sqrtf (snd (snd (hd kept))) (snd (snd s)))) kept)))"

section \<open>The recorded initial state\<close>

type_synonym body_state = "pyfloat list \<times> pyfloat list option"
type_synonym bodies = "(string \<times> body_state) list"

record baseline =
  bl_joints :: "pyfloat list"
  bl_effort :: "pyfloat option"
  bl_bodies :: bodies
  bl_live :: "string list"

text \<open>\<open>setdefault\<close> for every body read: what is registered stays.\<close>

definition register_spawn :: "bodies \<Rightarrow> baseline \<Rightarrow> baseline" where
  "register_spawn found bl =
     bl\<lparr>bl_bodies := foldl (\<lambda>bs (path, state). if path \<in> set (map fst bs) then bs else bs @ [(path, state)])
                       (bl_bodies bl) found\<rparr>"

definition prepare :: "bodies res \<Rightarrow> baseline \<Rightarrow> baseline \<times> unit res" where
  "prepare current bl =
     (case current of
        Inl e \<Rightarrow> (bl, Inl e)
      | Inr bs \<Rightarrow>
          if \<not> set (map fst bs) \<subseteq> set (map fst (bl_bodies bl))
          then (bl, Inl (RuntimeError ''initial state was not registered''))
          else (bl\<lparr>bl_live := sort (remdups (map fst bs))\<rparr>, Inr ()))"

text \<open>The bodies in path order: what was written, and whether a write failed.\<close>

fun restore_bodies :: "(string \<Rightarrow> bool) \<Rightarrow> bodies \<Rightarrow> string list \<Rightarrow> bodies \<times> unit res" where
  "restore_bodies write_ok recorded [] = ([], Inr ())"
| "restore_bodies write_ok recorded (path # paths) =
     (case map_of recorded path of
        None \<Rightarrow> ([], Inl (KeyError path))
      | Some state \<Rightarrow>
          if \<not> write_ok path then ([], Inl (RuntimeError (''initial state write failed: '' @ path)))
          else (case restore_bodies write_ok recorded paths of (ws, r) \<Rightarrow> ((path, state) # ws, r)))"

definition drop_commands :: "backend \<Rightarrow> backend" where
  "drop_commands b =
     (discard_command_snapshot_staging b)\<lparr>bk_snapshot := None, bk_drive_target := None\<rparr>"

text \<open>What the engine answers while the state is rewritten: the writes of the robot's state, whether
  its effort limit arrived, the writes of its targets and of each body, the published boundary.\<close>

record rewrite =
  rw_robot :: "unit res"
  rw_effort_written :: bool
  rw_targets :: "unit res"
  rw_write_ok :: "string \<Rightarrow> bool"
  rw_publish :: "unit res"
  rw_assert :: pyfloat

text \<open>The robot's part of \<open>restore\<close>.\<close>

definition restore_robot :: "baseline \<Rightarrow> rewrite \<Rightarrow> backend \<Rightarrow> backend \<times> unit res" where
  "restore_robot bl rw b00 =
     (let b0 = b00\<lparr>bk_hold := snd (rh_clear (bk_hold b00))\<rparr> in
      case rw_robot rw of Inl e \<Rightarrow> (b0, Inl e) | Inr _ \<Rightarrow>
      let b1 = (drop_commands b0)
                 \<lparr>bk_positions := bl_joints bl, bk_hold_pose := Some (bl_joints bl),
                  bk_velocities := zeros (bk_velocities b0), bk_efforts := zeros (bk_efforts b0),
                  bk_applied := map_of (map (\<lambda>i. (i, Fin 0)) (bk_wheels b0))\<rparr>
      in case bl_effort bl of
           None \<Rightarrow> (b1\<lparr>bk_force_write := True\<rparr>, rw_targets rw)
         | Some effort \<Rightarrow>
             if bk_effort_ceiling b1 = Fin 0 then (b1, Inl (OtherError ''float division by zero''))
             else (case set_gripper_effort_limit (fdiv (fmul effort (bk_effort_scale b1)) (bk_effort_ceiling b1)) b1 of
                     (b2, Inl e) \<Rightarrow> (b2, Inl e)
                   | (b2, Inr _) \<Rightarrow>
                       if \<not> rw_effort_written rw
                       then (b2, Inl (RuntimeError ''Initial gripper effort limit did not reach PhysX''))
                       else (b2\<lparr>bk_force_write := True\<rparr>, rw_targets rw)))"

definition restore :: "baseline \<Rightarrow> rewrite \<Rightarrow> backend \<Rightarrow> backend \<times> bodies \<times> unit res" where
  "restore bl rw b =
     (if \<not> bk_stopped b then (b, [], Inl (RuntimeError ''backend hold is not active''))
      else case restore_robot bl rw b of
        (b1, Inl e) \<Rightarrow> (b1, [], Inl e)
      | (b1, Inr _) \<Rightarrow> (b1, restore_bodies (rw_write_ok rw) (bl_bodies bl) (bl_live bl)))"

definition clear_commands :: "rewrite \<Rightarrow> backend \<Rightarrow> backend \<times> unit res" where
  "clear_commands rw b =
     (if \<not> bk_stopped b then (b, Inl (RuntimeError ''backend hold is not active''))
      else case rw_robot rw of
        Inl e \<Rightarrow> (drop_commands b, Inl e)
      | Inr _ \<Rightarrow>
          ((drop_commands b)\<lparr>bk_velocities := zeros (bk_velocities b), bk_efforts := zeros (bk_efforts b),
             bk_force_write := True\<rparr>, Inr ()))"

section \<open>State\<close>

datatype phase = Ready | Await_Idle | Await_Stopped | Settling | Boundary_Sleep | Await_Released

datatype effect =
    Stop_Published bool
  | Timeline_Paused
  | Timeline_Played
  | Robot_Restored
  | Commands_Cleared
  | Body_Written string body_state
  | Origin_Moved
  | Boundary_Published

record reset =
  rs_busy :: bool
  rs_mutations :: int
  rs_phase :: phase
  rs_scope :: int
  rs_asserted :: bool
  rs_generation :: int
  rs_deadline :: pyfloat
  rs_stable :: "pyfloat option"
  rs_publishing :: bool
  rs_stop :: bool
  rs_paused :: bool
  rs_backend :: backend
  rs_baseline :: baseline
  rs_log :: "effect list"
  rs_answers :: "unit res list"
  tr_timeout :: pyfloat
  tr_generation :: int
  tr_actions :: "(string \<times> bool) list"
  tr_effective :: "bool option"
  tr_ready :: bool
  tr_asserted_at :: pyfloat
  tr_ready_at :: pyfloat
  tr_samples :: "sample list"

definition ACTION_TOPICS :: "string list" where
  "ACTION_TOPICS = [''/xarm7_traj_controller/follow_joint_trajectory/_action/status'',
     ''/xarm_gripper/gripper_action/_action/status'']"

definition emit :: "effect \<Rightarrow> reset \<Rightarrow> reset" where
  "emit e s = s\<lparr>rs_log := rs_log s @ [e]\<rparr>"

definition assert_stop :: "bool \<Rightarrow> pyfloat \<Rightarrow> reset \<Rightarrow> reset" where
  "assert_stop active now s =
     (let s1 = (if active then s\<lparr>tr_asserted_at := now, tr_ready := False\<rparr> else s)
      in emit (Stop_Published active) (s1\<lparr>rs_stop := active\<rparr>))"

definition reset_new :: "pyfloat \<Rightarrow> backend \<Rightarrow> baseline \<Rightarrow> reset" where
  "reset_new timeout_s b bl = assert_stop False (Fin 0)
     \<lparr>rs_busy = False, rs_mutations = 0, rs_phase = Ready, rs_scope = 0, rs_asserted = False,
      rs_generation = 0, rs_deadline = Fin 0, rs_stable = None, rs_publishing = False, rs_stop = False,
      rs_paused = False, rs_backend = b, rs_baseline = bl, rs_log = [], rs_answers = [],
      tr_timeout = timeout_s, tr_generation = 0, tr_actions = map (\<lambda>t. (t, False)) ACTION_TOPICS,
      tr_effective = None, tr_ready = False, tr_asserted_at = Fin 0, tr_ready_at = Fin 0, tr_samples = []\<rparr>"

section \<open>Observations\<close>

definition stop_sample :: "bool \<Rightarrow> reset \<Rightarrow> reset" where
  "stop_sample data s = s\<lparr>tr_effective := Some data\<rparr>"

definition ready_sample :: "bool \<Rightarrow> pyfloat \<Rightarrow> reset \<Rightarrow> reset" where
  "ready_sample data now s = s\<lparr>tr_ready := data, tr_ready_at := now\<rparr>"

definition action_sample :: "string \<Rightarrow> int list \<Rightarrow> reset \<Rightarrow> reset" where
  "action_sample topic statuses s =
     (let active = list_ex (\<lambda>st. st \<in> {1, 2, 3}) statuses;
          s1 = (if active then s\<lparr>tr_generation := tr_generation s + 1\<rparr> else s)
      in s1\<lparr>tr_actions := dict_set topic active (tr_actions s1)\<rparr>)"

section \<open>The wait loop\<close>

text \<open>What one iteration reads: the clock when the loop tests its deadline, when the predicate first
  holds and when its duration is tested, whether every action topic has a publisher, and the
  measured state. The other fields are read by the code after the await.\<close>

record poll =
  po_now :: pyfloat
  po_stable :: pyfloat
  po_test :: pyfloat
  po_publishers :: bool
  po_observation :: observation
  po_root :: "pyfloat \<Rightarrow> pyfloat"
  po_bodies :: "bodies res"
  po_assert :: pyfloat
  po_next :: pyfloat

datatype wait_result = Waiting | Finished | Failing exc

definition stationary :: "poll \<Rightarrow> reset \<Rightarrow> reset \<times> bool res" where
  "stationary po s =
     (case observe (po_root po) (po_observation po) (tr_samples s) of
        (samples, r) \<Rightarrow> (s\<lparr>tr_samples := samples\<rparr>, r))"

definition wait_step ::
  "bool \<Rightarrow> string \<Rightarrow> (poll \<Rightarrow> reset \<Rightarrow> reset \<times> bool res) \<Rightarrow> poll \<Rightarrow> reset \<Rightarrow> reset \<times> wait_result" where
  "wait_step reject_action description predicate po s =
     (if \<not> flt (po_now po) (rs_deadline s)
      then (s, Failing (RuntimeError (description @ '' timed out'')))
      else if reject_action \<and> list_ex snd (tr_actions s)
      then (s, Failing (RuntimeError ''active action: scoped reset supports idle qualification only''))
      else case predicate po s of
        (s1, Inl e) \<Rightarrow> (s1, Failing e)
      | (s1, Inr True) \<Rightarrow>
          let since = (case rs_stable s1 of None \<Rightarrow> po_stable po | Some t \<Rightarrow> t)
          in (s1\<lparr>rs_stable := Some since\<rparr>,
              if fle (Fin (1/4)) (fsub (po_test po) since) then Finished else Waiting)
      | (s1, Inr False) \<Rightarrow> (s1\<lparr>rs_stable := None\<rparr>, Waiting))"

definition idle_now :: "poll \<Rightarrow> reset \<Rightarrow> reset \<times> bool res" where
  "idle_now po s =
     (if po_publishers po \<and> tr_effective s = Some False then stationary po s else (s, Inr False))"

definition stopped_now :: "poll \<Rightarrow> reset \<Rightarrow> reset \<times> bool res" where
  "stopped_now po s =
     (if tr_generation s \<noteq> rs_generation s then (s, Inl (RuntimeError ''action crossed reset stop boundary''))
      else if tr_effective s = Some True \<and> tr_ready s \<and> fle (tr_asserted_at s) (tr_ready_at s)
              \<and> bk_stopped (rs_backend s)
      then stationary po s else (s, Inr False))"

definition released_now :: "poll \<Rightarrow> reset \<Rightarrow> reset \<times> bool res" where
  "released_now po s = (s, Inr (tr_effective s = Some False \<and> \<not> bk_stopped (rs_backend s)))"

section \<open>The reset\<close>

text \<open>The bits of a scope: time and state.\<close>

definition scope_time :: "int \<Rightarrow> bool" where "scope_time scope = odd scope"
definition scope_state :: "int \<Rightarrow> bool" where "scope_state scope = odd (scope div 2)"

definition finish :: "unit res \<Rightarrow> reset \<Rightarrow> reset" where
  "finish answer s =
     s\<lparr>rs_publishing := False, rs_busy := False, rs_phase := Ready, rs_answers := rs_answers s @ [answer]\<rparr>"

definition reset_fails :: "exc \<Rightarrow> pyfloat \<Rightarrow> reset \<Rightarrow> reset" where
  "reset_fails e now s =
     (if rs_asserted s
      then finish (Inl (RuntimeError (exc_text e @ ''; simulation paused; reset stop remains asserted'')))
             ((emit Timeline_Paused (assert_stop True now s))\<lparr>rs_paused := True\<rparr>)
      else finish (Inl e) s)"

definition await :: "phase \<Rightarrow> pyfloat \<Rightarrow> reset \<Rightarrow> reset" where
  "await ph now s = s\<lparr>rs_phase := ph, rs_deadline := fadd now (tr_timeout s), rs_stable := None\<rparr>"

definition request_reset :: "int \<Rightarrow> pyfloat \<Rightarrow> reset \<Rightarrow> reset" where
  "request_reset scope now s =
     (if rs_busy s
      then s\<lparr>rs_answers := rs_answers s @ [Inl (RuntimeError ''scoped reset is already in progress'')]\<rparr>
      else if rs_mutations s \<noteq> 0
      then s\<lparr>rs_answers := rs_answers s @ [Inl (RuntimeError ''a provider mutation is in progress'')]\<rparr>
      else await Await_Idle now (s\<lparr>rs_busy := True, rs_scope := scope, rs_asserted := False\<rparr>))"

definition after_idle :: "poll \<Rightarrow> reset \<Rightarrow> reset" where
  "after_idle po s0 =
     (let s = s0\<lparr>rs_generation := tr_generation s0\<rparr>;
          (bl, r) = (if scope_state (rs_scope s) then prepare (po_bodies po) (rs_baseline s)
                     else (rs_baseline s, Inr ()));
          s1 = s\<lparr>rs_baseline := bl\<rparr>
      in case r of
           Inl e \<Rightarrow> reset_fails e (po_assert po) s1
         | Inr _ \<Rightarrow> await Await_Stopped (po_next po) ((assert_stop True (po_assert po) s1)\<lparr>rs_asserted := True\<rparr>))"

definition after_stopped :: "reset \<Rightarrow> reset" where
  "after_stopped s =
     (emit Timeline_Paused s)\<lparr>rs_paused := True, rs_publishing := True, rs_phase := Settling\<rparr>"

definition poll_step :: "poll \<Rightarrow> reset \<Rightarrow> reset" where
  "poll_step po s =
     (case rs_phase s of
        Await_Idle \<Rightarrow>
          (case wait_step True ''idle action/controller observation'' idle_now po s of
             (s1, Waiting) \<Rightarrow> s1 | (s1, Finished) \<Rightarrow> after_idle po s1 | (s1, Failing e) \<Rightarrow> reset_fails e (po_assert po) s1)
      | Await_Stopped \<Rightarrow>
          (case wait_step True ''controller deactivation and backend hold'' stopped_now po s of
             (s1, Waiting) \<Rightarrow> s1 | (s1, Finished) \<Rightarrow> after_stopped s1 | (s1, Failing e) \<Rightarrow> reset_fails e (po_assert po) s1)
      | Await_Released \<Rightarrow>
          (case wait_step False ''controller reactivation and effective stop release'' released_now po s of
             (s1, Waiting) \<Rightarrow> s1 | (s1, Finished) \<Rightarrow> finish (Inr ()) s1 | (s1, Failing e) \<Rightarrow> reset_fails e (po_assert po) s1)
      | _ \<Rightarrow> s)"

definition rewrite_state :: "rewrite \<Rightarrow> reset \<Rightarrow> reset \<times> unit res" where
  "rewrite_state rw s =
     (if scope_state (rs_scope s) then
        (case restore (rs_baseline s) rw (rs_backend s) of
           (b, written, r) \<Rightarrow>
             (s\<lparr>rs_backend := b,
                rs_log := rs_log s @ (if bk_stopped (rs_backend s) then [Robot_Restored] else [])
                            @ map (\<lambda>(p, st). Body_Written p st) written\<rparr>, r))
      else
        (case clear_commands rw (rs_backend s) of
           (b, r) \<Rightarrow> (s\<lparr>rs_backend := b,
                        rs_log := rs_log s @ (if bk_stopped (rs_backend s) then [Commands_Cleared] else [])\<rparr>, r)))"

text \<open>After the settling time: rewrite the state, move the clock's origin, publish the boundary.\<close>

definition after_settle :: "rewrite \<Rightarrow> reset \<Rightarrow> reset" where
  "after_settle rw s =
     (if rs_phase s \<noteq> Settling then s
      else case rewrite_state rw s of
        (s1, Inl e) \<Rightarrow> reset_fails e (rw_assert rw) s1
      | (s1, Inr _) \<Rightarrow>
          let s2 = (if scope_time (rs_scope s1) then emit Origin_Moved s1 else s1)
          in case rw_publish rw of
               Inl e \<Rightarrow> reset_fails e (rw_assert rw) s2
             | Inr _ \<Rightarrow> (emit Boundary_Published s2)\<lparr>rs_phase := Boundary_Sleep\<rparr>)"

definition after_boundary :: "pyfloat \<Rightarrow> reset \<Rightarrow> reset" where
  "after_boundary now s =
     (if rs_phase s \<noteq> Boundary_Sleep then s
      else await Await_Released now
             ((emit Timeline_Played (assert_stop False now s))\<lparr>rs_paused := False\<rparr>))"

text \<open>A cancelled coroutine runs its \<open>finally\<close> block only.\<close>

definition cancel_reset :: "reset \<Rightarrow> reset" where
  "cancel_reset s = (if rs_phase s = Ready then s else finish (Inl (OtherError ''cancelled'')) s)"

section \<open>Other requests of the provider\<close>

text \<open>A delete first releases the referee's hold on its object.\<close>

datatype mutation = Other_Request | Delete_Entity string

definition release_hold_for :: "string \<Rightarrow> backend \<Rightarrow> backend" where
  "release_hold_for entity b =
     (let name = py_strip entity in
      case rh_path (bk_hold b) of
        None \<Rightarrow> b
      | Some path \<Rightarrow>
          if name \<noteq> [] \<and> (name = path \<or> name = last (py_split (CHR ''/'') path))
          then b\<lparr>bk_hold := snd (rh_clear (bk_hold b))\<rparr> else b)"

definition begin_mutation :: "mutation \<Rightarrow> reset \<Rightarrow> reset" where
  "begin_mutation m s =
     (if rs_busy s
      then s\<lparr>rs_answers := rs_answers s @ [Inl (RuntimeError ''scoped reset is in progress'')]\<rparr>
      else
        let s1 = s\<lparr>rs_mutations := rs_mutations s + 1\<rparr> in
        case m of
          Delete_Entity entity \<Rightarrow> s1\<lparr>rs_backend := release_hold_for entity (rs_backend s1)\<rparr>
        | Other_Request \<Rightarrow> s1)"

text \<open>A request returns; a successful spawn registers the bodies it finds.\<close>

definition end_mutation :: "bodies option \<Rightarrow> reset \<Rightarrow> reset" where
  "end_mutation spawned s =
     (if rs_mutations s \<le> 0 then s
      else
        let s1 = (case spawned of
                    None \<Rightarrow> s | Some found \<Rightarrow> s\<lparr>rs_baseline := register_spawn found (rs_baseline s)\<rparr>)
        in s1\<lparr>rs_mutations := rs_mutations s1 - 1\<rparr>)"

section \<open>Events\<close>

datatype reset_event =
    Stop_Arrives bool
  | Ready_Arrives bool pyfloat
  | Action_Arrives string "int list"
  | Backend_Moves backend
  | Request_Reset int pyfloat
  | Polled poll
  | Settled rewrite
  | Boundary_Slept pyfloat
  | Cancelled
  | Mutation_Begins mutation
  | Mutation_Ends "bodies option"

fun reset_step :: "reset_event \<Rightarrow> reset \<Rightarrow> reset" where
  "reset_step (Stop_Arrives data) s = stop_sample data s"
| "reset_step (Ready_Arrives data now) s = ready_sample data now s"
| "reset_step (Action_Arrives topic statuses) s = action_sample topic statuses s"
| "reset_step (Backend_Moves b) s = s\<lparr>rs_backend := b\<rparr>"
| "reset_step (Request_Reset scope now) s =
     (if scope \<in> {1, 2, 3} then request_reset scope now s else begin_mutation Other_Request s)"
| "reset_step (Polled po) s = poll_step po s"
| "reset_step (Settled rw) s = after_settle rw s"
| "reset_step (Boundary_Slept now) s = after_boundary now s"
| "reset_step Cancelled s = cancel_reset s"
| "reset_step (Mutation_Begins m) s = begin_mutation m s"
| "reset_step (Mutation_Ends spawned) s = end_mutation spawned s"

definition reset_run :: "reset_event list \<Rightarrow> reset \<Rightarrow> reset" where
  "reset_run = run_events reset_step"

end
