(* ===== verification/Reset_Safety.thy ===== *)
theory Reset_Safety
  imports Scoped_Reset
begin

text \<open>
  What the scoped reset guarantees: no other mutation of the simulator overlaps it, state is
  rewritten only while the stop is asserted and the timeline paused, every outcome leaves the
  stop and the timeline in the stated position, every live body returns to the state it was
  first registered with, and the robot counts as standing still only when it did so for a
  quarter of a second.
\<close>

section \<open>Standing still\<close>

fun well_formed :: "(pyfloat \<Rightarrow> pyfloat) \<Rightarrow> observation \<Rightarrow> bool" where
  "well_formed sqrtf ob \<longleftrightarrow> set REQUIRED_JOINTS \<subseteq> set (ob_names ob)
     \<and> length (ob_positions ob) = length (ob_names ob) \<and> length (ob_velocities ob) = length (ob_names ob)
     \<and> list_all isfinite (observed_values ob) \<and> \<not> flt (quaternion_norm sqrtf ob) (Fin (1 / 10 ^ 12))"

declare well_formed.simps [simp del]

definition sample_of :: "(pyfloat \<Rightarrow> pyfloat) \<Rightarrow> observation \<Rightarrow> sample" where
  "sample_of sqrtf ob = (ob_now ob, measured_pose ob,
     map (\<lambda>v. fdiv v (quaternion_norm sqrtf ob)) (ro_quaternion (ob_root ob)))"

definition window_after :: "(pyfloat \<Rightarrow> pyfloat) \<Rightarrow> observation list \<Rightarrow> sample list" where
  "window_after sqrtf obs = foldl (\<lambda>w ob. fst (observe sqrtf ob w)) [] obs"

lemma observe_window:
  "fst (observe sqrtf ob w) =
     (if well_formed sqrtf ob then drop_stale (ob_now ob) (w @ [sample_of sqrtf ob]) else [])"
  by (auto simp: observe_def well_formed.simps sample_of_def Let_def split: sum.split bool.split)

lemma measured_finite:
  assumes "well_formed sqrtf ob" shows "list_all isfinite (measured_pose ob)"
proof -
  let ?m = "map_of (rev (zip (ob_names ob) (ob_positions ob)))"
  have fin: "isfinite p" if "?m n = Some p" for n p
  proof -
    have "p \<in> set (ob_positions ob)" using map_of_SomeD [OF that] by (auto dest: set_zip_rightD)
    then show ?thesis using assms by (simp add: well_formed.simps observed_values_def list_all_iff)
  qed
  have dom: "\<exists>p. ?m n = Some p" if "n \<in> set (ob_names ob)" for n
  proof -
    have "n \<in> fst ` set (rev (zip (ob_names ob) (ob_positions ob)))"
      using that assms by (simp add: well_formed.simps flip: list.set_map)
    then show ?thesis by (metis map_of_eq_None_iff not_None_eq)
  qed
  have "isfinite (the (?m n))" if "n \<in> set REQUIRED_JOINTS \<or> ?m n \<noteq> None" for n
    using that dom [of n] fin [of n] assms by (auto simp: well_formed.simps)
  then show ?thesis using assms
    by (auto simp: measured_pose_def Let_def list_all_iff well_formed.simps observed_values_def)
qed

lemma pymax_bound:
  "isfinite x \<Longrightarrow> list_all isfinite ys \<Longrightarrow>
   \<exists>m. foldl pymax x ys = Fin m \<and> (\<forall>y \<in> set (x # ys). fle y (Fin m))"
proof (induction ys arbitrary: x)
  case (Cons y ys)
  then obtain a b where ab: "x = Fin a" "y = Fin b" by (auto simp: isfinite_iff)
  have "isfinite (pymax x y)" by (simp add: ab pymax_def)
  then obtain m where m: "foldl pymax (pymax x y) ys = Fin m" "\<forall>z \<in> set (pymax x y # ys). fle z (Fin m)"
    using Cons by auto
  have "fle x (Fin m) \<and> fle y (Fin m)" using m(2) by (auto simp: ab pymax_def split: if_splits)
  then show ?case using m by simp
qed (auto simp: isfinite_iff)

lemma pymin_bound:
  "isfinite x \<Longrightarrow> list_all isfinite ys \<Longrightarrow>
   \<exists>m. foldl pymin x ys = Fin m \<and> (\<forall>y \<in> set (x # ys). fle (Fin m) y)"
proof (induction ys arbitrary: x)
  case (Cons y ys)
  then obtain a b where ab: "x = Fin a" "y = Fin b" by (auto simp: isfinite_iff)
  have "isfinite (pymin x y)" by (simp add: ab pymin_def)
  then obtain m where m: "foldl pymin (pymin x y) ys = Fin m" "\<forall>z \<in> set (pymin x y # ys). fle (Fin m) z"
    using Cons by auto
  have "fle (Fin m) x \<and> fle (Fin m) y" using m(2) by (auto simp: ab pymin_def split: if_splits)
  then show ?case using m by simp
qed (auto simp: isfinite_iff)

lemma span_finite: assumes "list_all isfinite xs" shows "\<exists>m. span xs = Fin m"
proof (cases xs)
  case (Cons x ys)
  then obtain hi lo where "foldl pymax x ys = Fin hi" "foldl pymin x ys = Fin lo"
    using pymax_bound [of x ys] pymin_bound [of x ys] assms by auto
  then show ?thesis by (simp add: span_def Cons)
qed (simp add: span_def)

lemma span_bound:
  assumes "list_all isfinite xs" "a \<in> set xs" "b \<in> set xs" "\<not> flt (Fin c) (span xs)"
  shows "fle (fabs (fsub a b)) (Fin c)"
proof -
  obtain x ys where xs: "xs = x # ys" using assms(2) by (cases xs) auto
  obtain hi lo where hi: "foldl pymax x ys = Fin hi" "\<forall>y \<in> set xs. fle y (Fin hi)"
    and lo: "foldl pymin x ys = Fin lo" "\<forall>y \<in> set xs. fle (Fin lo) y"
    using pymax_bound [of x ys] pymin_bound [of x ys] assms(1) xs by auto
  have "isfinite a" "isfinite b" using assms(1-3) by (auto simp: list_all_iff)
  then obtain p q where pq: "a = Fin p" "b = Fin q" by (auto simp: isfinite_iff)
  have "hi - lo \<le> c" using assms(4) xs hi(1) lo(1) by (simp add: span_def)
  moreover have "p \<le> hi" "q \<le> hi" "lo \<le> p" "lo \<le> q" using hi(2) lo(2) assms(2,3) pq by fastforce+
  ultimately show ?thesis by (simp add: pq fabs_def)
qed

lemma spans_small_True:
  assumes "spans_small w is = Inr True" "i \<in> set is"
  shows "(\<forall>s \<in> set w. i < length (fst (snd s))) \<and> \<not> flt (Fin (1/2000)) (span (map (\<lambda>s. fst (snd s) ! i) w))"
  using assms by (induction "is") (auto simp: list_ex_iff not_le split: if_splits)

lemma drop_stale_suffix: "\<exists>u. w = u @ drop_stale now w"
proof (induction now w rule: drop_stale.induct)
  case (1 now s0 s1 rest)
  show ?case
  proof (cases "fle (fst s1) (fsub now (Fin (1/4)))")
    case True
    then obtain u where "s1 # rest = u @ drop_stale now (s1 # rest)" using 1 by auto
    then have "s0 # s1 # rest = (s0 # u) @ drop_stale now (s0 # s1 # rest)" using True by simp
    then show ?thesis by blast
  qed simp
qed auto

lemma drop_stale_nonempty [simp]: "drop_stale now w = [] \<longleftrightarrow> w = []"
  by (induction now w rule: drop_stale.induct) auto

lemma drop_stale_last: "w \<noteq> [] \<Longrightarrow> last (drop_stale now w) = last w"
  by (metis drop_stale_suffix drop_stale_nonempty last_append)


text \<open>Every observation is in the window, or was made no later than the window's oldest sample.\<close>

definition covers :: "(pyfloat \<Rightarrow> pyfloat) \<Rightarrow> observation list \<Rightarrow> sample list \<Rightarrow> bool" where
  "covers sqrtf obs w \<longleftrightarrow>
     (\<forall>s \<in> set w. \<exists>ob \<in> set obs. well_formed sqrtf ob \<and> s = sample_of sqrtf ob)
     \<and> (w \<noteq> [] \<longrightarrow> (\<forall>ob \<in> set obs. well_formed sqrtf ob \<and> sample_of sqrtf ob \<in> set w
                       \<or> fle (ob_now ob) (fst (hd w))))"

lemma fle_trans: "fle a b \<Longrightarrow> fle b c \<Longrightarrow> fle a c"
  by (cases a; cases b; cases c) (auto simp: fle_def)

definition timed :: "observation list \<Rightarrow> bool" where
  "timed obs \<longleftrightarrow> list_all (\<lambda>ob. isfinite (ob_now ob)) obs \<and> sorted_wrt (\<lambda>a b. fle (ob_now a) (ob_now b)) obs"

lemma covers_drop:
  "covers sqrtf obs w \<Longrightarrow> sorted_wrt (\<lambda>a b. fle (fst a) (fst b)) w \<Longrightarrow>
   covers sqrtf obs (drop_stale now w) \<and> sorted_wrt (\<lambda>a b. fle (fst a) (fst b)) (drop_stale now w)"
proof (induction now w rule: drop_stale.induct)
  case (1 now s0 s1 rest)
  show ?case
  proof (cases "fle (fst s1) (fsub now (Fin (1/4)))")
    case True
    have "covers sqrtf obs (s1 # rest)"
      unfolding covers_def
    proof (intro conjI ballI impI)
      fix s assume "s \<in> set (s1 # rest)"
      then show "\<exists>ob \<in> set obs. well_formed sqrtf ob \<and> s = sample_of sqrtf ob"
        using 1(2) by (auto simp: covers_def)
    next
      fix ob assume ob: "ob \<in> set obs"
      have le: "fle (fst s0) (fst s1)" using 1(3) by simp
      consider "well_formed sqrtf ob" "sample_of sqrtf ob \<in> set (s1 # rest)"
        | "sample_of sqrtf ob = s0" | "fle (ob_now ob) (fst s0)"
        using 1(2) ob by (auto simp: covers_def)
      then show "well_formed sqrtf ob \<and> sample_of sqrtf ob \<in> set (s1 # rest) \<or> fle (ob_now ob) (fst (hd (s1 # rest)))"
      proof cases
        case 2
        then have "ob_now ob = fst s0" by (auto simp: sample_of_def)
        then show ?thesis using le by simp
      next
        case 3
        then show ?thesis using le fle_trans by auto
      qed simp
    qed
    then show ?thesis using 1 True by simp
  qed (use 1 in simp)
qed simp_all

lemma window_covers:
  "timed obs \<Longrightarrow> covers sqrtf obs (window_after sqrtf obs)
     \<and> sorted_wrt (\<lambda>a b. fle (fst a) (fst b)) (window_after sqrtf obs)"
proof (induction obs rule: rev_induct)
  case Nil
  then show ?case by (simp add: window_after_def covers_def)
next
  case (snoc ob obs)
  let ?w = "window_after sqrtf obs"
  have t: "timed obs" "\<forall>o' \<in> set obs. fle (ob_now o') (ob_now ob)" "isfinite (ob_now ob)"
    using snoc.prems by (auto simp: timed_def sorted_wrt_append)
  note IH = snoc.IH [OF t(1)]
  have w: "window_after sqrtf (obs @ [ob]) =
      (if well_formed sqrtf ob then drop_stale (ob_now ob) (?w @ [sample_of sqrtf ob]) else [])"
    by (simp add: window_after_def observe_window)
  show ?case
  proof (cases "well_formed sqrtf ob")
    case True
    have "covers sqrtf (obs @ [ob]) (?w @ [sample_of sqrtf ob])"
      using IH t(2) True unfolding covers_def
      by (cases ?w) (auto simp: sample_of_def)
    moreover have "fle (fst s) (ob_now ob)" if "s \<in> set ?w" for s
      using that IH t(2) by (auto simp: covers_def sample_of_def)
    then have "sorted_wrt (\<lambda>a b. fle (fst a) (fst b)) (?w @ [sample_of sqrtf ob])"
      using IH by (auto simp: sorted_wrt_append sample_of_def)
    ultimately show ?thesis using covers_drop w True by simp
  next
    case False
    then show ?thesis by (simp add: w covers_def)
  qed
qed

lemma covers_in:
  "covers sqrtf obs w \<Longrightarrow> s \<in> set w \<Longrightarrow> \<exists>ob \<in> set obs. well_formed sqrtf ob \<and> s = sample_of sqrtf ob"
  by (simp add: covers_def)

text \<open>Samples of a window without large spans are close to each other.\<close>

lemma small_spans_close:
  assumes cov: "covers sqrtf obs w" and sp: "spans_small w [0..<n] = Inr True"
    and s: "s \<in> set w" "s' \<in> set w" and i: "i < n"
  shows "i < length (fst (snd s)) \<and> fle (fabs (fsub (fst (snd s) ! i) (fst (snd s') ! i))) (Fin (1/2000))"
proof -
  let ?c = "map (\<lambda>s. fst (snd s) ! i) w"
  have len: "\<forall>s \<in> set w. i < length (fst (snd s))" and sp: "\<not> flt (Fin (1/2000)) (span ?c)"
    using spans_small_True [OF sp] i by auto
  have "isfinite (fst (snd r) ! i)" if "r \<in> set w" for r
    using that len covers_in [OF cov that] measured_finite by (fastforce simp: sample_of_def list_all_iff)
  then have fin: "list_all isfinite ?c" by (simp add: list_all_iff)
  obtain m where m: "span ?c = Fin m" using span_finite [OF fin] by blast
  have "\<not> flt (Fin m) (span ?c)" "m \<le> 1/2000" using m sp by simp_all
  moreover have "fst (snd s) ! i \<in> set ?c" "fst (snd s') ! i \<in> set ?c" using s by force+
  ultimately show ?thesis using span_bound [OF fin] len s fle_trans [of _ "Fin m" "Fin (1/2000)"] by auto
qed

lemma stationary_facts:
  assumes t: "timed (before @ [ob])" and r: "snd (observe sqrtf ob (window_after sqrtf before)) = Inr True"
    and w: "w = drop_stale (ob_now ob) (window_after sqrtf before @ [sample_of sqrtf ob])"
  shows "covers sqrtf (before @ [ob]) w" "w \<noteq> []" "sample_of sqrtf ob \<in> set w"
    "spans_small w [0..<length (measured_pose ob)] = Inr True"
    "fle (fst (hd w)) (fsub (ob_now ob) (Fin (1/4)))"
proof -
  have wf: "well_formed sqrtf ob" using r by (auto simp: observe_def well_formed.simps split: if_splits)
  then have "window_after sqrtf (before @ [ob]) = w" by (simp add: window_after_def observe_window w)
  then show cov: "covers sqrtf (before @ [ob]) w" using window_covers [OF t, of sqrtf] by simp
  have "\<not> flt (fsub (ob_now ob) (fst (hd w))) (Fin (1/4))
      \<and> spans_small w [0..<length (measured_pose ob)] = Inr True"
    using r wf unfolding observe_def well_formed.simps Let_def sample_of_def w
    by (auto split: if_splits sum.splits bool.splits)
  then show "spans_small w [0..<length (measured_pose ob)] = Inr True"
    and old: "fle (fst (hd w)) (fsub (ob_now ob) (Fin (1/4)))"
  proof -
    assume a: "\<not> flt (fsub (ob_now ob) (fst (hd w))) (Fin (1/4))
      \<and> spans_small w [0..<length (measured_pose ob)] = Inr True"
    then show "spans_small w [0..<length (measured_pose ob)] = Inr True" by simp
    have "hd w \<in> set w" by (intro hd_in_set) (simp add: w)
    then have "isfinite (fst (hd w))" "isfinite (ob_now ob)"
      using covers_in [OF cov, of "hd w"] t by (auto simp: timed_def sample_of_def list_all_iff)
    then show "fle (fst (hd w)) (fsub (ob_now ob) (Fin (1/4)))" using a by (auto simp: isfinite_iff)
  qed
  show "w \<noteq> []" by (simp add: w)
  show "sample_of sqrtf ob \<in> set w"
    using drop_stale_last [of "window_after sqrtf before @ [sample_of sqrtf ob]" "ob_now ob"]
    unfolding w by (metis drop_stale_nonempty append_is_Nil_conv last_in_set last_snoc list.distinct(1))
qed

text \<open>Standing still means it. If, after any observations in the order of their times, the
  window reports the robot stationary, then every observation of the last quarter of a second
  was complete and finite, each of its monitored joints and root coordinates is within 0.0005
  of the newest one, and there is such an observation at least a quarter of a second old.\<close>
theorem stationary_window_sound:
  assumes "timed (before @ [ob])"
    and "snd (observe sqrtf ob (window_after sqrtf before)) = Inr True"
  shows "(\<forall>o' \<in> set (before @ [ob]). flt (fsub (ob_now ob) (Fin (1/4))) (ob_now o') \<longrightarrow>
            well_formed sqrtf o' \<and> (\<forall>i < length (measured_pose ob).
              i < length (measured_pose o')
              \<and> fle (fabs (fsub (measured_pose o' ! i) (measured_pose ob ! i))) (Fin (1/2000))))
     \<and> (\<exists>o' \<in> set (before @ [ob]). fle (ob_now o') (fsub (ob_now ob) (Fin (1/4))) \<and> well_formed sqrtf o'
          \<and> (\<forall>i < length (measured_pose ob).
              fle (fabs (fsub (measured_pose o' ! i) (measured_pose ob ! i))) (Fin (1/2000))))"
proof -
  obtain w where w: "w = drop_stale (ob_now ob) (window_after sqrtf before @ [sample_of sqrtf ob])" by simp
  note f = stationary_facts [OF assms w]
  have close: "i < length (measured_pose o') \<and> fle (fabs (fsub (measured_pose o' ! i) (measured_pose ob ! i))) (Fin (1/2000))"
    if "sample_of sqrtf o' \<in> set w" "i < length (measured_pose ob)" for o' i
    using small_spans_close [OF f(1,4) that(1) f(3) that(2)] by (simp add: sample_of_def)
  show ?thesis
  proof (intro conjI ballI impI)
    fix o' assume o': "o' \<in> set (before @ [ob])" "flt (fsub (ob_now ob) (Fin (1/4))) (ob_now o')"
    have "\<not> fle (ob_now o') (fsub (ob_now ob) (Fin (1/4)))"
      using o'(2) by (cases "ob_now o'"; cases "fsub (ob_now ob) (Fin (1/4))") (auto simp: fle_def)
    then have "\<not> fle (ob_now o') (fst (hd w))" using f(5) fle_trans by blast
    then have in_w: "well_formed sqrtf o'" "sample_of sqrtf o' \<in> set w"
      using f(1,2) o'(1) by (auto simp: covers_def)
    then show "well_formed sqrtf o'" by simp
    show "\<forall>i < length (measured_pose ob). i < length (measured_pose o')
        \<and> fle (fabs (fsub (measured_pose o' ! i) (measured_pose ob ! i))) (Fin (1/2000))"
      using close [OF in_w(2)] by simp
  next
    obtain o' where o': "o' \<in> set (before @ [ob])" "well_formed sqrtf o'" "hd w = sample_of sqrtf o'"
      using covers_in [OF f(1) hd_in_set [OF f(2)]] by blast
    have "fle (ob_now o') (fsub (ob_now ob) (Fin (1/4)))" using f(5) o'(3) by (simp add: sample_of_def)
    moreover have "sample_of sqrtf o' \<in> set w" using hd_in_set [OF f(2)] o'(3) by simp
    ultimately show "\<exists>o' \<in> set (before @ [ob]). fle (ob_now o') (fsub (ob_now ob) (Fin (1/4))) \<and> well_formed sqrtf o'
          \<and> (\<forall>i < length (measured_pose ob).
              fle (fabs (fsub (measured_pose o' ! i) (measured_pose ob ! i))) (Fin (1/2000)))"
      using close o'(1,2) by blast
  qed
qed


section \<open>The reset excludes other mutations\<close>

text \<open>Reading the log back: was every rewrite made with the stop asserted and the timeline paused,
  and where do the stop and the timeline stand.\<close>

fun rewriting :: "effect \<Rightarrow> bool" where
  "rewriting Robot_Restored = True"
| "rewriting Commands_Cleared = True"
| "rewriting (Body_Written p st) = True"
| "rewriting Origin_Moved = True"
| "rewriting e = False"

fun read_effect :: "bool \<times> bool \<times> bool \<Rightarrow> effect \<Rightarrow> bool \<times> bool \<times> bool" where
  "read_effect (ok, stop, paused) (Stop_Published a) = (ok, a, paused)"
| "read_effect (ok, stop, paused) Timeline_Paused = (ok, stop, True)"
| "read_effect (ok, stop, paused) Timeline_Played = (ok, stop, False)"
| "read_effect (ok, stop, paused) e = (ok \<and> (rewriting e \<longrightarrow> stop \<and> paused), stop, paused)"

definition read_log :: "effect list \<Rightarrow> bool \<times> bool \<times> bool" where
  "read_log es = foldl read_effect (True, False, False) es"

lemma read_log_append [simp]: "read_log (xs @ ys) = foldl read_effect (read_log xs) ys"
  by (simp add: read_log_def)

lemma read_rewrites:
  "list_all rewriting es \<Longrightarrow> foldl read_effect (True, True, True) es = (True, True, True)"
proof (induction es)
  case (Cons e es)
  then show ?case by (cases e) simp_all
qed simp

fun phase_ok :: "phase \<Rightarrow> reset \<Rightarrow> bool" where
  "phase_ok Ready s = (\<not> rs_busy s)"
| "phase_ok Await_Idle s = (rs_busy s \<and> rs_mutations s = 0 \<and> \<not> rs_asserted s)"
| "phase_ok Await_Stopped s = (rs_busy s \<and> rs_mutations s = 0 \<and> rs_asserted s \<and> rs_stop s)"
| "phase_ok Settling s = (rs_busy s \<and> rs_mutations s = 0 \<and> rs_asserted s \<and> rs_stop s \<and> rs_paused s)"
| "phase_ok Boundary_Sleep s = (rs_busy s \<and> rs_mutations s = 0 \<and> rs_asserted s \<and> rs_stop s \<and> rs_paused s)"
| "phase_ok Await_Released s = (rs_busy s \<and> rs_mutations s = 0 \<and> rs_asserted s \<and> \<not> rs_stop s \<and> \<not> rs_paused s)"

definition reset_inv :: "reset \<Rightarrow> bool" where
  "reset_inv s \<longleftrightarrow> phase_ok (rs_phase s) s \<and> 0 \<le> rs_mutations s
     \<and> read_log (rs_log s) = (True, rs_stop s, rs_paused s)"

text \<open>What the waiting leaves alone.\<close>

definition coroutine where
  "coroutine s = ((rs_busy s, rs_mutations s, rs_phase s, rs_asserted s, rs_stop s, rs_paused s, rs_log s, rs_publishing s),
     rs_scope s, rs_baseline s, rs_backend s, rs_answers s, rs_generation s,
     tr_effective s, tr_generation s, tr_actions s, tr_ready s, tr_asserted_at s, tr_ready_at s)"

lemma wait_coroutine:
  assumes "wait_step rj d p po s = (s', r)" "p \<in> {idle_now, stopped_now, released_now}"
  shows "coroutine s' = coroutine s"
proof -
  have st: "coroutine (fst (stationary po s)) = coroutine s" for s
    by (simp add: stationary_def coroutine_def split: prod.split)
  have p: "coroutine (fst (p po s)) = coroutine s" for s
    using assms(2) st by (auto simp: idle_now_def stopped_now_def released_now_def)
  obtain s1 b where 1: "p po s = (s1, b)" by (metis prod.exhaust)
  have "coroutine s1 = coroutine s" using p [of s] 1 by simp
  moreover have "coroutine (s1\<lparr>rs_stable := x\<rparr>) = coroutine s1" for x by (simp add: coroutine_def)
  moreover have "s' = s \<or> s' = s1 \<or> (\<exists>x. s' = s1\<lparr>rs_stable := x\<rparr>)"
    using assms(1) 1 unfolding wait_step_def Let_def by (auto split: if_splits sum.splits bool.splits)
  ultimately show ?thesis by auto
qed

lemma coroutine_inv: "coroutine s' = coroutine s \<Longrightarrow> reset_inv s \<Longrightarrow> reset_inv s'"
  by (cases "rs_phase s") (simp_all add: coroutine_def reset_inv_def)

lemma fails_inv: "reset_inv s \<Longrightarrow> rs_phase s \<noteq> Ready \<Longrightarrow> reset_inv (reset_fails e now s)"
  by (auto simp: reset_fails_def reset_inv_def finish_def emit_def assert_stop_def Let_def)

lemma finish_inv: "reset_inv s \<Longrightarrow> reset_inv (finish a s)"
  by (simp add: reset_inv_def finish_def)

lemma after_idle_inv:
  assumes inv: "reset_inv s" and ph: "rs_phase s = Await_Idle" shows "reset_inv (after_idle po s)"
proof -
  obtain bl r where p: "(if scope_state (rs_scope s) then prepare (po_bodies po) (rs_baseline s)
      else (rs_baseline s, Inr ())) = (bl, r)" by (metis prod.exhaust)
  let ?s = "s\<lparr>rs_generation := tr_generation s, rs_baseline := bl\<rparr>"
  have inv': "reset_inv ?s" using inv ph by (simp add: reset_inv_def)
  show ?thesis
  proof (cases r)
    case (Inl e)
    then have "after_idle po s = reset_fails e (po_assert po) ?s" using p by (cases "scope_state (rs_scope s)") (simp_all add: after_idle_def Let_def)
    then show ?thesis using fails_inv [OF inv'] ph by simp
  next
    case (Inr u)
    then have "after_idle po s = await Await_Stopped (po_next po) ((assert_stop True (po_assert po) ?s)\<lparr>rs_asserted := True\<rparr>)"
      using p by (cases "scope_state (rs_scope s)") (simp_all add: after_idle_def Let_def)
    then show ?thesis using inv ph by (simp add: reset_inv_def await_def assert_stop_def emit_def Let_def)
  qed
qed

lemma after_stopped_inv: "reset_inv s \<Longrightarrow> rs_phase s = Await_Stopped \<Longrightarrow> reset_inv (after_stopped s)"
  by (simp add: after_stopped_def reset_inv_def emit_def)

lemma poll_inv: assumes inv: "reset_inv s" shows "reset_inv (poll_step po s)"
proof (cases "rs_phase s")
  case Await_Idle
  obtain s1 r where w: "wait_step True ''idle action/controller observation'' idle_now po s = (s1, r)"
    by (metis prod.exhaust)
  have c: "coroutine s1 = coroutine s" by (rule wait_coroutine [OF w]) simp
  have i: "reset_inv s1" "rs_phase s1 = Await_Idle" using coroutine_inv [OF c inv] c Await_Idle by (simp_all add: coroutine_def)
  show ?thesis using w i after_idle_inv [OF i] fails_inv [OF i(1)]
    by (cases r) (simp_all add: poll_step_def Await_Idle)
next
  case Await_Stopped
  obtain s1 r where w: "wait_step True ''controller deactivation and backend hold'' stopped_now po s = (s1, r)"
    by (metis prod.exhaust)
  have c: "coroutine s1 = coroutine s" by (rule wait_coroutine [OF w]) simp
  have i: "reset_inv s1" "rs_phase s1 = Await_Stopped" using coroutine_inv [OF c inv] c Await_Stopped by (simp_all add: coroutine_def)
  show ?thesis using w i after_stopped_inv [OF i] fails_inv [OF i(1)]
    by (cases r) (simp_all add: poll_step_def Await_Stopped)
next
  case Await_Released
  obtain s1 r where w: "wait_step False ''controller reactivation and effective stop release'' released_now po s = (s1, r)"
    by (metis prod.exhaust)
  have c: "coroutine s1 = coroutine s" by (rule wait_coroutine [OF w]) simp
  have i: "reset_inv s1" "rs_phase s1 = Await_Released" using coroutine_inv [OF c inv] c Await_Released by (simp_all add: coroutine_def)
  show ?thesis using w i finish_inv [OF i(1)] fails_inv [OF i(1)]
    by (cases r) (simp_all add: poll_step_def Await_Released)
qed (simp_all add: poll_step_def inv)

lemma restore_frame: "restore bl rw b = (b', ws, r) \<Longrightarrow> \<not> bk_stopped b \<Longrightarrow> ws = []"
  by (simp add: restore_def)

lemma rewrite_cases:
  assumes "rewrite_state rw s = (s', r)"
  obtains b es where "s' = s\<lparr>rs_backend := b, rs_log := rs_log s @ es\<rparr>" "list_all rewriting es"
    "es \<noteq> [] \<longrightarrow> bk_stopped (rs_backend s)"
proof (cases "scope_state (rs_scope s)")
  case True
  obtain b ws q where r: "restore (rs_baseline s) rw (rs_backend s) = (b, ws, q)" by (metis prod.exhaust)
  let ?es = "(if bk_stopped (rs_backend s) then [Robot_Restored] else []) @ map (\<lambda>(p, st). Body_Written p st) ws"
  have "s' = s\<lparr>rs_backend := b, rs_log := rs_log s @ ?es\<rparr>" using assms True r by (simp add: rewrite_state_def)
  moreover have "list_all rewriting ?es" by (auto simp: list_all_iff)
  moreover have "?es \<noteq> [] \<longrightarrow> bk_stopped (rs_backend s)" using restore_frame [OF r] by auto
  ultimately show thesis by (rule that)
next
  case False
  obtain b q where r: "clear_commands rw (rs_backend s) = (b, q)" by (metis prod.exhaust)
  show thesis using assms False r
    by (intro that [where b = b and es = "if bk_stopped (rs_backend s) then [Commands_Cleared] else []"]) (simp_all add: rewrite_state_def)
qed

lemma settle_inv: assumes inv: "reset_inv s" shows "reset_inv (after_settle rw s)"
proof (cases "rs_phase s = Settling")
  case True
  obtain s1 r where r: "rewrite_state rw s = (s1, r)" by (metis prod.exhaust)
  from r obtain b es where s1: "s1 = s\<lparr>rs_backend := b, rs_log := rs_log s @ es\<rparr>" and es: "list_all rewriting es"
    by (rule rewrite_cases)
  have i1: "reset_inv s1" "rs_phase s1 = Settling"
    using inv True read_rewrites [OF es] by (simp_all add: reset_inv_def s1)
  obtain s2 where s2: "s2 = (if scope_time (rs_scope s1) then emit Origin_Moved s1 else s1)" by simp
  have i2: "reset_inv s2" "rs_phase s2 = Settling" using i1 by (simp_all add: s2 reset_inv_def emit_def)
  have "reset_inv ((emit Boundary_Published s2)\<lparr>rs_phase := Boundary_Sleep\<rparr>)"
    using i2 by (simp add: reset_inv_def emit_def)
  moreover have "reset_inv (reset_fails e now s2)" "reset_inv (reset_fails e now s1)" for e now
    using fails_inv [OF i2(1)] fails_inv [OF i1(1)] i1(2) i2(2) by simp_all
  ultimately show ?thesis using True r unfolding after_settle_def Let_def
    by (cases r; cases "rw_publish rw") (simp_all flip: s2)
qed (simp add: after_settle_def inv)

lemma boundary_inv: "reset_inv s \<Longrightarrow> reset_inv (after_boundary now s)"
  by (auto simp: after_boundary_def reset_inv_def await_def emit_def assert_stop_def Let_def)

lemma mutation_inv: "reset_inv s \<Longrightarrow> reset_inv (begin_mutation m s)"
  by (cases m; cases "rs_phase s") (auto simp: begin_mutation_def reset_inv_def Let_def)

lemma end_mutation_inv: "reset_inv s \<Longrightarrow> reset_inv (end_mutation found s)"
  by (cases "rs_phase s"; cases found) (auto simp: end_mutation_def reset_inv_def Let_def)

lemma observation_inv:
  "reset_inv s \<Longrightarrow> reset_inv (stop_sample a s)" "reset_inv s \<Longrightarrow> reset_inv (ready_sample a now s)"
  "reset_inv s \<Longrightarrow> reset_inv (action_sample t st s)" "reset_inv s \<Longrightarrow> reset_inv (s\<lparr>rs_backend := b\<rparr>)"
  by (cases "rs_phase s"; simp add: reset_inv_def stop_sample_def ready_sample_def action_sample_def Let_def)+

lemma request_inv: "reset_inv s \<Longrightarrow> reset_inv (request_reset scope now s)"
  by (cases "rs_phase s") (simp_all add: request_reset_def reset_inv_def await_def)

lemma cancel_inv: "reset_inv s \<Longrightarrow> reset_inv (cancel_reset s)"
  by (simp add: cancel_reset_def finish_inv)

lemma reset_step_inv: "reset_inv s \<Longrightarrow> reset_inv (reset_step e s)"
  by (cases e) (simp_all add: observation_inv request_inv poll_inv settle_inv boundary_inv cancel_inv
      mutation_inv end_mutation_inv)

interpretation reset_invariant: event_invariant reset_step reset_inv
  by unfold_locales (rule reset_step_inv)

lemma reset_reachable: "reset_inv (reset_run es (reset_new timeout b bl))"
  unfolding reset_run_def
  by (rule reset_invariant.run_inv)
    (simp add: reset_new_def reset_inv_def assert_stop_def emit_def read_log_def)

subsection \<open>The observed stop\<close>

text \<open>The stop is in force: the effective stop was reported, the controllers reported ready no earlier than
  the stop was asserted, the backend holds, and no action began since the reset found them idle.\<close>

definition stop_observed :: "reset \<Rightarrow> bool" where
  "stop_observed s \<longleftrightarrow> tr_effective s = Some True \<and> tr_ready s \<and> fle (tr_asserted_at s) (tr_ready_at s)
     \<and> bk_stopped (rs_backend s) \<and> tr_generation s = rs_generation s \<and> \<not> list_ex snd (tr_actions s)"

lemma wait_stopped: "wait_step True d stopped_now po s = (s', Finished) \<Longrightarrow> stop_observed s"
  by (auto simp: wait_step_def stopped_now_def stop_observed_def Let_def
      split: if_splits sum.splits bool.splits prod.splits)

lemma fails_ready: "rs_phase (reset_fails e now s) = Ready"
  by (simp add: reset_fails_def finish_def)

lemma after_idle_phase: "rs_phase (after_idle po s) \<noteq> Settling"
  by (auto simp: after_idle_def await_def fails_ready Let_def split: prod.split sum.split)

lemma wait_phase:
  assumes "wait_step rj d p po s = (s', r)" "p \<in> {idle_now, stopped_now, released_now}"
  shows "rs_phase s' = rs_phase s"
  using wait_coroutine [OF assms] by (simp add: coroutine_def)

lemma enters_settling:
  assumes "rs_phase s \<noteq> Settling" "rs_phase (reset_step e s) = Settling"
  shows "\<exists>po. e = Polled po \<and> rs_phase s = Await_Stopped \<and> stop_observed s"
proof (cases e)
  case (Polled po)
  have "rs_phase s = Await_Stopped"
    using assms Polled wait_phase after_idle_phase fails_ready
    by (cases "rs_phase s") (auto simp: poll_step_def finish_def split: prod.splits wait_result.splits)
  moreover obtain s1 r where w: "wait_step True ''controller deactivation and backend hold'' stopped_now po s = (s1, r)"
    by (metis prod.exhaust)
  moreover have "r = Finished"
    using assms Polled w wait_phase [OF w] fails_ready \<open>rs_phase s = Await_Stopped\<close>
    by (cases r) (simp_all add: poll_step_def)
  ultimately show ?thesis using Polled wait_stopped by blast
next
  case (Settled rw)
  then show ?thesis using assms by (simp add: after_settle_def)
next
  case (Request_Reset scope now)
  then show ?thesis using assms
    by (auto simp: request_reset_def begin_mutation_def await_def Let_def split: if_splits)
next
  case (Mutation_Begins m)
  then show ?thesis using assms by (cases m) (auto simp: begin_mutation_def Let_def split: if_splits)
next
  case (Mutation_Ends found)
  then show ?thesis using assms by (cases found) (auto simp: end_mutation_def Let_def split: if_splits)
qed (use assms in \<open>auto simp: stop_sample_def ready_sample_def action_sample_def after_boundary_def await_def
    cancel_reset_def finish_def Let_def split: if_splits\<close>)

text \<open>What an event adds to the log.\<close>

definition added :: "reset_event \<Rightarrow> reset \<Rightarrow> effect list" where
  "added e s = drop (length (rs_log s)) (rs_log (reset_step e s))"

lemma fails_log: "\<exists>es. rs_log (reset_fails e now s) = rs_log s @ es \<and> \<not> list_ex rewriting es"
  by (simp add: reset_fails_def finish_def emit_def assert_stop_def Let_def)

lemma poll_log: "\<exists>es. rs_log (poll_step po s) = rs_log s @ es \<and> \<not> list_ex rewriting es"
proof -
  have idle: "\<exists>es. rs_log (after_idle po s1) = rs_log s1 @ es \<and> \<not> list_ex rewriting es" for s1
  proof -
    obtain bl r where p: "(if scope_state (rs_scope s1) then prepare (po_bodies po) (rs_baseline s1)
        else (rs_baseline s1, Inr ())) = (bl, r)" by (metis prod.exhaust)
    show ?thesis
    proof (cases r)
      case (Inl x)
      then have "after_idle po s1 = reset_fails x (po_assert po) (s1\<lparr>rs_generation := tr_generation s1, rs_baseline := bl\<rparr>)"
        using p by (cases "scope_state (rs_scope s1)") (simp_all add: after_idle_def Let_def)
      then show ?thesis using fails_log [of x "po_assert po" "s1\<lparr>rs_generation := tr_generation s1, rs_baseline := bl\<rparr>"] by simp
    next
      case (Inr u)
      then show ?thesis using p by (cases "scope_state (rs_scope s1)")
          (simp_all add: after_idle_def await_def assert_stop_def emit_def Let_def)
    qed
  qed
  have w: "rs_log s1 = rs_log s"
    if "wait_step rj d p po s = (s1, r)" "p \<in> {idle_now, stopped_now, released_now}" for rj d p s1 r
    using wait_coroutine [OF that] by (simp add: coroutine_def)
  show ?thesis
  proof (cases "rs_phase s")
    case Await_Idle
    obtain s1 r where 1: "wait_step True ''idle action/controller observation'' idle_now po s = (s1, r)"
      by (metis prod.exhaust)
    have "rs_log s1 = rs_log s" by (rule w [OF 1]) simp
    then show ?thesis using 1 Await_Idle idle [of s1] fails_log [of _ "po_assert po" s1]
      by (cases r) (simp_all add: poll_step_def)
  next
    case Await_Stopped
    obtain s1 r where 1: "wait_step True ''controller deactivation and backend hold'' stopped_now po s = (s1, r)"
      by (metis prod.exhaust)
    have "rs_log s1 = rs_log s" by (rule w [OF 1]) simp
    then show ?thesis using 1 Await_Stopped fails_log [of _ "po_assert po" s1]
      by (cases r) (simp_all add: poll_step_def after_stopped_def emit_def)
  next
    case Await_Released
    obtain s1 r where 1: "wait_step False ''controller reactivation and effective stop release'' released_now po s = (s1, r)"
      by (metis prod.exhaust)
    have "rs_log s1 = rs_log s" by (rule w [OF 1]) simp
    then show ?thesis using 1 Await_Released fails_log [of _ "po_assert po" s1]
      by (cases r) (simp_all add: poll_step_def finish_def)
  qed (simp_all add: poll_step_def)
qed

lemma rewrite_stopped: "rewrite_state rw s = (s', Inr u) \<Longrightarrow> bk_stopped (rs_backend s)"
  by (auto simp: rewrite_state_def restore_def clear_commands_def split: if_splits prod.splits)

lemma settle_rewrites:
  assumes "x \<in> set (added (Settled rw) s)" "rewriting x"
  shows "rs_phase s = Settling \<and> bk_stopped (rs_backend s)"
proof (rule ccontr)
  assume no: "\<not> ?thesis"
  have "\<not> list_ex rewriting (added (Settled rw) s)"
  proof (cases "rs_phase s = Settling")
    case True
    obtain s1 r where r: "rewrite_state rw s = (s1, r)" by (metis prod.exhaust)
    from r obtain b es where s1: "s1 = s\<lparr>rs_backend := b, rs_log := rs_log s @ es\<rparr>"
      and es: "es \<noteq> [] \<longrightarrow> bk_stopped (rs_backend s)" by (rule rewrite_cases)
    obtain y where "r = Inl y" using r rewrite_stopped no True by (cases r) auto
    moreover have "rs_log s1 = rs_log s" using s1 es no True by simp
    ultimately show ?thesis using True r fails_log [of y "rw_assert rw" s1]
      by (auto simp: added_def after_settle_def)
  qed (simp add: added_def after_settle_def)
  then show False using assms by (auto simp: list_ex_iff)
qed

lemma rewriting_under_stop:
  assumes "x \<in> set (added e s)" "rewriting x"
  shows "rs_phase s = Settling \<and> bk_stopped (rs_backend s)"
proof (cases e)
  case (Polled po)
  then show ?thesis using assms poll_log [of po s] by (auto simp: added_def list_ex_iff)
next
  case (Settled rw)
  then show ?thesis using assms settle_rewrites by simp
next
  case (Boundary_Slept now)
  then show ?thesis using assms
    by (auto simp: added_def after_boundary_def await_def emit_def assert_stop_def Let_def split: if_splits)
next
  case (Mutation_Begins m)
  then show ?thesis using assms by (cases m) (auto simp: added_def begin_mutation_def Let_def split: if_splits)
next
  case (Mutation_Ends found)
  then show ?thesis using assms by (cases found) (auto simp: added_def end_mutation_def Let_def split: if_splits)
qed (use assms in \<open>auto simp: added_def stop_sample_def ready_sample_def action_sample_def request_reset_def
    begin_mutation_def await_def cancel_reset_def finish_def Let_def split: if_splits\<close>)

text \<open>In a run that ends settling, the last wait for the stop ended with the stop observed, and nothing
  but settling followed.\<close>

definition settled_since :: "reset \<Rightarrow> reset_event list \<Rightarrow> bool" where
  "settled_since s0 es \<longleftrightarrow> (\<exists>es1 po es2. es = es1 @ Polled po # es2
     \<and> rs_phase (reset_run es1 s0) = Await_Stopped \<and> stop_observed (reset_run es1 s0)
     \<and> (\<forall>k. rs_phase (reset_run (es1 @ Polled po # take k es2) s0) = Settling))"

lemma settling_history:
  assumes "rs_phase s0 \<noteq> Settling" "rs_phase (reset_run es s0) = Settling"
  shows "settled_since s0 es"
proof -
  obtain es1 e es2 where h: "es = es1 @ e # es2" "rs_phase (reset_run es1 s0) \<noteq> Settling"
    "\<forall>k. rs_phase (reset_run (es1 @ e # take k es2) s0) = Settling"
    using run_enters [of "\<lambda>s. rs_phase s = Settling" s0 reset_step es] assms unfolding reset_run_def by blast
  have "rs_phase (reset_step e (reset_run es1 s0)) = Settling" using h(3) [rule_format, of 0] by (simp add: reset_run_def)
  from enters_settling [OF h(2) this] show ?thesis unfolding settled_since_def using h by blast
qed

text \<open>C15: A reset excludes every other mutation, and rewriting state only under its observed stop. After
  any interleaving of requests, callbacks, wait iterations and cancellations: no other request is
  in flight while a reset runs, and any further reset or mutation is then refused and changes
  nothing but the answers; every change of the robot, of a body or of the clock's origin so far
  was made while the reset's stop was asserted and the timeline paused; and whatever event comes
  next, if it makes such a change then the backend holds at that moment, and the reset has been
  settling ever since a wait iteration at which the stop was observed: effective stop reported,
  controllers ready since the stop was asserted, backend stopped, no action started.\<close>
theorem reset_excludes_mutations:
  assumes "s = reset_run es (reset_new timeout_s b bl)"
  shows "(rs_busy s \<longrightarrow> rs_mutations s = 0)
     \<and> read_log (rs_log s) = (True, rs_stop s, rs_paused s)
     \<and> (\<forall>e. list_ex rewriting (added e s) \<longrightarrow>
          bk_stopped (rs_backend s) \<and> settled_since (reset_new timeout_s b bl) es)
     \<and> (rs_busy s \<longrightarrow> (\<forall>m scope now. \<exists>a a'.
          reset_step (Mutation_Begins m) s = s\<lparr>rs_answers := rs_answers s @ [Inl a]\<rparr>
          \<and> reset_step (Request_Reset scope now) s = s\<lparr>rs_answers := rs_answers s @ [Inl a']\<rparr>))"
proof -
  have inv: "reset_inv s" using assms reset_reachable by simp
  have "rs_busy s \<longrightarrow> rs_mutations s = 0" using inv by (cases "rs_phase s") (simp_all add: reset_inv_def)
  moreover have "\<exists>a a'. reset_step (Mutation_Begins m) s = s\<lparr>rs_answers := rs_answers s @ [Inl a]\<rparr>
      \<and> reset_step (Request_Reset scope now) s = s\<lparr>rs_answers := rs_answers s @ [Inl a']\<rparr>"
    if "rs_busy s" for m scope now
    using that by (auto simp: begin_mutation_def request_reset_def)
  moreover have "bk_stopped (rs_backend s) \<and> settled_since (reset_new timeout_s b bl) es"
    if changes: "list_ex rewriting (added e s)" for e
  proof -
    obtain x where "x \<in> set (added e s)" "rewriting x" using changes unfolding list_ex_iff by blast
    then have "rs_phase s = Settling \<and> bk_stopped (rs_backend s)" by (rule rewriting_under_stop)
    moreover have "rs_phase (reset_new timeout_s b bl) \<noteq> Settling"
      by (simp add: reset_new_def assert_stop_def emit_def)
    ultimately show ?thesis using settling_history assms by blast
  qed
  ultimately show ?thesis using inv by (auto simp: reset_inv_def)
qed


section \<open>How a reset ends\<close>

lemma wait_released:
  assumes "wait_step False d released_now po s = (s', Finished)"
  shows "tr_effective s' = Some False \<and> \<not> bk_stopped (rs_backend s')"
  using assms by (auto simp: wait_step_def released_now_def Let_def split: if_splits bool.splits)

lemma fails_outcome:
  "rs_answers (reset_fails e now s) = rs_answers s @ [if rs_asserted s
     then Inl (RuntimeError (exc_text e @ ''; simulation paused; reset stop remains asserted'')) else Inl e]
   \<and> \<not> rs_busy (reset_fails e now s) \<and> \<not> rs_publishing (reset_fails e now s)
   \<and> (if rs_asserted s then rs_stop (reset_fails e now s) \<and> rs_paused (reset_fails e now s)
      else rs_log (reset_fails e now s) = rs_log s)"
  by (simp add: reset_fails_def finish_def emit_def assert_stop_def Let_def)

text \<open>What an ended reset leaves behind.\<close>

definition reset_ended :: "reset \<Rightarrow> reset \<Rightarrow> bool" where
  "reset_ended s s' \<longleftrightarrow> \<not> rs_busy s' \<and> \<not> rs_publishing s' \<and> (\<exists>a. rs_answers s' = rs_answers s @ [a]
     \<and> (case a of
          Inr _ \<Rightarrow> \<not> rs_stop s' \<and> \<not> rs_paused s' \<and> tr_effective s' = Some False \<and> \<not> bk_stopped (rs_backend s')
        | Inl _ \<Rightarrow> if rs_asserted s then rs_stop s' \<and> rs_paused s' else rs_log s' = rs_log s))"

lemma fails_ended:
  "rs_answers s1 = rs_answers s \<Longrightarrow> rs_asserted s1 = rs_asserted s \<Longrightarrow>
   (\<not> rs_asserted s \<longrightarrow> rs_log s1 = rs_log s) \<Longrightarrow> reset_ended s (reset_fails e now s1)"
  using fails_outcome [of e now s1] by (auto simp: reset_ended_def)

lemma poll_ends:
  assumes inv: "reset_inv s" and ph: "rs_phase s \<noteq> Ready" and ready: "rs_phase (poll_step po s) = Ready"
  shows "reset_ended s (poll_step po s)"
proof (cases "rs_phase s")
  case Await_Idle
  obtain s1 r where w: "wait_step True ''idle action/controller observation'' idle_now po s = (s1, r)"
    by (metis prod.exhaust)
  have c: "coroutine s1 = coroutine s" by (rule wait_coroutine [OF w]) simp
  have f: "rs_answers s1 = rs_answers s" "rs_asserted s1 = rs_asserted s" "rs_log s1 = rs_log s" "rs_phase s1 = Await_Idle"
    using c Await_Idle by (simp_all add: coroutine_def)
  show ?thesis
  proof (cases r)
    case (Failing e)
    then show ?thesis using w f fails_ended by (simp add: poll_step_def Await_Idle)
  next
    case Finished
    obtain bl q where p: "(if scope_state (rs_scope s1) then prepare (po_bodies po) (rs_baseline s1)
        else (rs_baseline s1, Inr ())) = (bl, q)" by (metis prod.exhaust)
    have step: "poll_step po s = after_idle po s1" using w Finished by (simp add: poll_step_def Await_Idle)
    show ?thesis
    proof (cases q)
      case (Inl e)
      then have "after_idle po s1 = reset_fails e (po_assert po) (s1\<lparr>rs_generation := tr_generation s1, rs_baseline := bl\<rparr>)"
        using p by (cases "scope_state (rs_scope s1)") (simp_all add: after_idle_def Let_def)
      then show ?thesis unfolding step using f fails_ended by simp
    next
      case (Inr u)
      then have "rs_phase (after_idle po s1) = Await_Stopped"
        using p by (cases "scope_state (rs_scope s1)") (simp_all add: after_idle_def Let_def await_def)
      then show ?thesis using ready step by simp
    qed
  qed (use w f ready in \<open>simp add: poll_step_def Await_Idle\<close>)
next
  case Await_Stopped
  obtain s1 r where w: "wait_step True ''controller deactivation and backend hold'' stopped_now po s = (s1, r)"
    by (metis prod.exhaust)
  have c: "coroutine s1 = coroutine s" by (rule wait_coroutine [OF w]) simp
  have f: "rs_answers s1 = rs_answers s" "rs_asserted s1 = rs_asserted s" "rs_log s1 = rs_log s" "rs_phase s1 = Await_Stopped"
    using c Await_Stopped by (simp_all add: coroutine_def)
  show ?thesis using w f ready fails_ended
    by (cases r) (simp_all add: poll_step_def Await_Stopped after_stopped_def)
next
  case Await_Released
  obtain s1 r where w: "wait_step False ''controller reactivation and effective stop release'' released_now po s = (s1, r)"
    by (metis prod.exhaust)
  have c: "coroutine s1 = coroutine s" by (rule wait_coroutine [OF w]) simp
  have f: "rs_answers s1 = rs_answers s" "rs_asserted s1 = rs_asserted s" "rs_log s1 = rs_log s" "rs_phase s1 = Await_Released"
      "rs_stop s1 = rs_stop s" "rs_paused s1 = rs_paused s"
    using c Await_Released by (simp_all add: coroutine_def)
  have open_gate: "\<not> rs_stop s" "\<not> rs_paused s" using inv Await_Released by (simp_all add: reset_inv_def)
  show ?thesis
  proof (cases r)
    case Finished
    then show ?thesis using w f open_gate wait_released [of _ po s s1]
      by (simp add: poll_step_def Await_Released reset_ended_def finish_def)
  qed (use w f ready fails_ended in \<open>simp_all add: poll_step_def Await_Released\<close>)
qed (use ph ready in \<open>simp_all add: poll_step_def\<close>)

lemma settle_ends:
  assumes inv: "reset_inv s" and ph: "rs_phase s \<noteq> Ready" and ready: "rs_phase (after_settle rw s) = Ready"
  shows "reset_ended s (after_settle rw s)"
proof (cases "rs_phase s = Settling")
  case True
  have a: "rs_asserted s" using inv True by (simp add: reset_inv_def)
  obtain s1 r where r: "rewrite_state rw s = (s1, r)" by (metis prod.exhaust)
  from r obtain b es where s1: "s1 = s\<lparr>rs_backend := b, rs_log := rs_log s @ es\<rparr>" by (rule rewrite_cases)
  obtain s2 where s2: "s2 = (if scope_time (rs_scope s1) then emit Origin_Moved s1 else s1)" by simp
  have f: "rs_answers s1 = rs_answers s" "rs_asserted s1 = rs_asserted s" "rs_answers s2 = rs_answers s" "rs_asserted s2 = rs_asserted s"
    by (simp_all add: s2 s1 emit_def)
  have "after_settle rw s = reset_fails e now s1 \<or> after_settle rw s = reset_fails e now s2"
    if "r = Inl e \<and> now = rw_assert rw \<or> r = Inr () \<and> rw_publish rw = Inl e \<and> now = rw_assert rw" for e now
    using that True r unfolding after_settle_def Let_def s2 by auto
  moreover have "(\<exists>e. r = Inl e) \<or> (\<exists>e. rw_publish rw = Inl e)"
    using ready True r unfolding after_settle_def Let_def by (cases r; cases "rw_publish rw") (simp_all flip: s2)
  ultimately obtain e now where "after_settle rw s = reset_fails e now s1 \<or> after_settle rw s = reset_fails e now s2"
    by (metis old.unit.exhaust sum.exhaust)
  then show ?thesis using fails_ended f a by metis
qed (use ph ready in \<open>simp add: after_settle_def\<close>)

text \<open>Every reset that is not cancelled ends in a stated position. When a reset ends, exactly one
  answer is sent and the provider is free again. If it succeeded, the stop is released, the
  timeline plays, and the supervisor and the backend have both left their stop. If it failed
  after the stop was asserted, the stop stays asserted and the timeline paused; if it failed
  before, it changed nothing.\<close>
theorem reset_outcome:
  assumes "s = reset_run es (reset_new timeout_s b bl)"
    and "rs_phase s \<noteq> Ready" and "rs_phase (reset_step e s) = Ready" and "e \<noteq> Cancelled"
  shows "\<not> rs_busy (reset_step e s) \<and> \<not> rs_publishing (reset_step e s)
     \<and> (\<exists>a. rs_answers (reset_step e s) = rs_answers s @ [a]
         \<and> (case a of
              Inr _ \<Rightarrow> \<not> rs_stop (reset_step e s) \<and> \<not> rs_paused (reset_step e s)
                \<and> tr_effective (reset_step e s) = Some False \<and> \<not> bk_stopped (rs_backend (reset_step e s))
            | Inl _ \<Rightarrow> if rs_asserted s then rs_stop (reset_step e s) \<and> rs_paused (reset_step e s)
                      else rs_log (reset_step e s) = rs_log s))"
proof -
  have inv: "reset_inv s" using assms(1) reset_reachable by simp
  have busy: "rs_busy s" using inv assms(2) by (cases "rs_phase s") (simp_all add: reset_inv_def)
  have "reset_ended s (reset_step e s)"
  proof (cases e)
    case (Polled po)
    then show ?thesis using poll_ends [OF inv assms(2)] assms(3) by simp
  next
    case (Settled rw)
    then show ?thesis using settle_ends [OF inv assms(2)] assms(3) by simp
  qed (use assms busy in \<open>auto simp: stop_sample_def ready_sample_def action_sample_def request_reset_def
      begin_mutation_def end_mutation_def after_boundary_def await_def Let_def split: if_splits option.splits\<close>)
  then show ?thesis by (simp add: reset_ended_def)
qed


section \<open>What a reset restores\<close>

definition keeps :: "baseline \<Rightarrow> baseline \<Rightarrow> bool" where
  "keeps bl bl' \<longleftrightarrow> bl_joints bl' = bl_joints bl
     \<and> (\<forall>p st. map_of (bl_bodies bl) p = Some st \<longrightarrow> map_of (bl_bodies bl') p = Some st)"

lemma keeps_refl [simp]: "keeps bl bl" by (simp add: keeps_def)

lemma keeps_trans: "keeps a b \<Longrightarrow> keeps b c \<Longrightarrow> keeps a c"
  by (simp add: keeps_def)

lemma register_keeps: "keeps bl (register_spawn found bl)"
proof -
  let ?f = "\<lambda>bs (path, state). if path \<in> set (map fst bs) then bs else bs @ [(path, state)]"
  have "map_of (foldl ?f bs found) p = Some st" if "map_of bs p = Some st" for bs :: bodies and p st
    using that
  proof (induction found arbitrary: bs)
    case (Cons x found)
    obtain q u where x: "x = (q, u)" by (metis prod.exhaust)
    show ?case
    proof (cases "q \<in> fst ` set bs")
      case True
      then show ?thesis using Cons by (simp add: x)
    next
      case False
      have "map_of (bs @ [(q, u)]) p = Some st" using Cons.prems by (simp add: map_add_def)
      then show ?thesis using Cons.IH False by (simp add: x)
    qed
  qed simp
  then show ?thesis by (simp add: keeps_def register_spawn_def)
qed

lemma prepare_keeps: "keeps bl (fst (prepare current bl))"
  by (simp add: prepare_def keeps_def split: sum.split)

lemma fails_baseline [simp]: "rs_baseline (reset_fails e now s) = rs_baseline s"
  by (simp add: reset_fails_def finish_def emit_def assert_stop_def Let_def)

lemma after_idle_keeps: "keeps (rs_baseline s) (rs_baseline (after_idle po s))"
proof -
  obtain bl r where p: "(if scope_state (rs_scope s) then prepare (po_bodies po) (rs_baseline s)
      else (rs_baseline s, Inr ())) = (bl, r)" by (metis prod.exhaust)
  have "keeps (rs_baseline s) bl"
    using p prepare_keeps [of "rs_baseline s" "po_bodies po"] by (cases "scope_state (rs_scope s)") auto
  moreover have "rs_baseline (after_idle po s) = bl"
    using p by (cases "scope_state (rs_scope s)"; cases r)
      (simp_all add: after_idle_def await_def emit_def assert_stop_def Let_def)
  ultimately show ?thesis by simp
qed

lemma poll_keeps: "keeps (rs_baseline s) (rs_baseline (poll_step po s))"
proof -
  have w: "rs_baseline s1 = rs_baseline s"
    if "wait_step rj d p po s = (s1, r)" "p \<in> {idle_now, stopped_now, released_now}" for rj d p s1 r
    using wait_coroutine [OF that] by (simp add: coroutine_def)
  have i: "keeps (rs_baseline s) (rs_baseline (after_idle po s1))" if "rs_baseline s1 = rs_baseline s" for s1
    using after_idle_keeps [of s1 po] that by simp
  show ?thesis
    by (cases "rs_phase s")
      (auto simp: poll_step_def after_stopped_def emit_def finish_def split: prod.split wait_result.split
        dest: w i)
qed

lemma settle_baseline: "rs_baseline (after_settle rw s) = rs_baseline s"
proof -
  obtain s1 r where r: "rewrite_state rw s = (s1, r)" by (metis prod.exhaust)
  from r obtain b es where s1: "s1 = s\<lparr>rs_backend := b, rs_log := rs_log s @ es\<rparr>" by (rule rewrite_cases)
  show ?thesis using r
    by (cases r; cases "rw_publish rw") (simp_all add: after_settle_def s1 emit_def Let_def)
qed

lemma reset_step_keeps: "keeps (rs_baseline s) (rs_baseline (reset_step e s))"
proof (cases e)
  case (Polled po)
  then show ?thesis using poll_keeps by simp
next
  case (Mutation_Ends found)
  then show ?thesis using register_keeps
    by (cases found) (simp_all add: end_mutation_def Let_def)
next
  case (Mutation_Begins m)
  then show ?thesis by (cases m) (simp_all add: begin_mutation_def Let_def)
qed (auto simp: stop_sample_def ready_sample_def action_sample_def request_reset_def begin_mutation_def
    after_boundary_def await_def emit_def assert_stop_def cancel_reset_def finish_def settle_baseline Let_def)

lemma reset_run_keeps: "keeps (rs_baseline s) (rs_baseline (run_events reset_step es s))"
proof (induction es arbitrary: s)
  case (Cons e es)
  then show ?case using reset_step_keeps keeps_trans by fastforce
qed simp

lemma restore_bodies_all:
  "restore_bodies ok recorded ps = (ws, Inr ()) \<Longrightarrow>
   (p, st) \<in> set ws \<longleftrightarrow> p \<in> set ps \<and> map_of recorded p = Some st"
  by (induction ps arbitrary: ws) (auto split: option.splits if_splits prod.splits)

lemma restore_bodies_known:
  "restore_bodies ok recorded ps = (ws, Inr ()) \<Longrightarrow> p \<in> set ps \<Longrightarrow> \<exists>st. map_of recorded p = Some st"
  by (induction ps arbitrary: ws) (auto split: option.splits if_splits prod.splits)

text \<open>The bodies that exist are read once, when the wait for idleness ends; nothing changes the list until
  the state is rewritten.\<close>

fun preparing :: "phase \<Rightarrow> bool" where
  "preparing Await_Stopped = True"
| "preparing Settling = True"
| "preparing _ = False"

lemma prepare_live:
  assumes "prepare (Inr found) bl = (bl', Inr ())"
  shows "set (bl_live bl') = fst ` set found"
proof -
  have "bl' = bl\<lparr>bl_live := sort (remdups (map fst found))\<rparr>"
    using assms by (simp add: prepare_def split: if_splits)
  then show ?thesis by simp
qed

lemma after_idle_live:
  assumes "preparing (rs_phase (after_idle po s))" "scope_state (rs_scope s)"
  shows "\<exists>found. po_bodies po = Inr found \<and> set (bl_live (rs_baseline (after_idle po s))) = fst ` set found"
proof -
  obtain bl r where p: "prepare (po_bodies po) (rs_baseline s) = (bl, r)" by (metis prod.exhaust)
  have ok: "r = Inr ()" using assms p by (cases r) (simp_all add: after_idle_def fails_ready Let_def)
  then obtain found where f: "po_bodies po = Inr found" using p by (cases "po_bodies po") (simp_all add: prepare_def)
  have "rs_baseline (after_idle po s) = bl"
    using p ok assms(2) by (simp add: after_idle_def await_def emit_def assert_stop_def Let_def)
  then show ?thesis using f p ok prepare_live by auto
qed

lemma after_idle_scope: "rs_scope (after_idle po s) = rs_scope s"
  by (simp add: after_idle_def reset_fails_def finish_def await_def emit_def assert_stop_def Let_def
      split: prod.split sum.split)

text \<open>While a reset prepares, the live bodies and the scope stay; it starts preparing when the wait for
  idleness ends.\<close>

lemma preparing_step:
  assumes "preparing (rs_phase s)" "preparing (rs_phase (reset_step e s))"
  shows "bl_live (rs_baseline (reset_step e s)) = bl_live (rs_baseline s) \<and> rs_scope (reset_step e s) = rs_scope s"
proof (cases e)
  case (Polled po)
  obtain s1 r where w: "wait_step True ''controller deactivation and backend hold'' stopped_now po s = (s1, r)"
    by (metis prod.exhaust)
  have "rs_baseline s1 = rs_baseline s \<and> rs_scope s1 = rs_scope s"
    using wait_coroutine [OF w] by (simp add: coroutine_def)
  then show ?thesis using assms Polled w fails_ready
    by (cases "rs_phase s"; cases r) (simp_all add: poll_step_def after_stopped_def emit_def)
next
  case (Settled rw)
  obtain s1 r where r: "rewrite_state rw s = (s1, r)" by (metis prod.exhaust)
  from r obtain b es where s1: "s1 = s\<lparr>rs_backend := b, rs_log := rs_log s @ es\<rparr>" by (rule rewrite_cases)
  show ?thesis using assms Settled r s1 fails_ready
    by (cases r; cases "rw_publish rw") (auto simp: after_settle_def emit_def Let_def split: if_splits)
next
  case (Mutation_Begins m)
  then show ?thesis by (cases m) (simp_all add: begin_mutation_def Let_def)
next
  case (Mutation_Ends found)
  then show ?thesis by (cases found) (simp_all add: end_mutation_def register_spawn_def Let_def)
next
  case (Request_Reset scope now)
  then show ?thesis using assms by (auto simp: request_reset_def begin_mutation_def await_def Let_def split: if_splits)
qed (use assms in \<open>auto simp: stop_sample_def ready_sample_def action_sample_def after_boundary_def await_def
    cancel_reset_def finish_def Let_def split: if_splits\<close>)

lemma enters_preparing:
  assumes "\<not> preparing (rs_phase s)" "preparing (rs_phase (reset_step e s))"
  shows "\<exists>po. e = Polled po \<and> rs_phase s = Await_Idle
    \<and> (scope_state (rs_scope (reset_step e s)) \<longrightarrow>
        (\<exists>found. po_bodies po = Inr found \<and> set (bl_live (rs_baseline (reset_step e s))) = fst ` set found))"
proof (cases e)
  case (Polled po)
  have idle: "rs_phase s = Await_Idle"
    using assms Polled wait_phase fails_ready
    by (cases "rs_phase s") (auto simp: poll_step_def finish_def split: prod.splits wait_result.splits)
  obtain s1 r where w: "wait_step True ''idle action/controller observation'' idle_now po s = (s1, r)"
    by (metis prod.exhaust)
  have "rs_phase s1 = Await_Idle" using wait_phase [OF w] idle by simp
  then have "reset_step e s = after_idle po s1"
    using assms Polled w idle fails_ready by (cases r) (simp_all add: poll_step_def)
  then show ?thesis using Polled idle after_idle_live [of po s1] assms(2) by (auto simp: after_idle_scope)
next
  case (Settled rw)
  then show ?thesis using assms by (cases "rs_phase s") (simp_all add: after_settle_def)
next
  case (Mutation_Begins m)
  then show ?thesis using assms by (cases m) (auto simp: begin_mutation_def Let_def split: if_splits)
next
  case (Mutation_Ends found)
  then show ?thesis using assms by (cases found) (auto simp: end_mutation_def Let_def split: if_splits)
next
  case (Request_Reset scope now)
  then show ?thesis using assms
    by (auto simp: request_reset_def begin_mutation_def await_def Let_def split: if_splits)
qed (use assms in \<open>auto simp: stop_sample_def ready_sample_def action_sample_def after_boundary_def await_def
    cancel_reset_def finish_def Let_def split: if_splits\<close>)

lemma preparing_run:
  assumes "\<And>k. preparing (rs_phase (run_events reset_step (take k es) s))"
  shows "bl_live (rs_baseline (run_events reset_step es s)) = bl_live (rs_baseline s)
    \<and> rs_scope (run_events reset_step es s) = rs_scope s"
  using assms
proof (induction es arbitrary: s)
  case (Cons e es)
  have "preparing (rs_phase s)" "preparing (rs_phase (reset_step e s))"
    using Cons.prems [of 0] Cons.prems [of 1] by simp_all
  note step = preparing_step [OF this]
  have "preparing (rs_phase (run_events reset_step (take k es) (reset_step e s)))" for k
    using Cons.prems [of "Suc k"] by simp
  from Cons.IH [OF this] step show ?case by simp
qed simp

text \<open>The last preparation in a run, and the bodies it found.\<close>

definition prepared_with :: "reset \<Rightarrow> reset_event list \<Rightarrow> bodies \<Rightarrow> bool" where
  "prepared_with s0 es found \<longleftrightarrow> (\<exists>es1 po es2. es = es1 @ Polled po # es2
     \<and> rs_phase (reset_run es1 s0) = Await_Idle \<and> po_bodies po = Inr found
     \<and> (\<forall>k. preparing (rs_phase (reset_run (es1 @ Polled po # take k es2) s0))))"

lemma prepared_history:
  assumes "\<not> preparing (rs_phase s0)" "preparing (rs_phase (reset_run es s0))"
    "scope_state (rs_scope (reset_run es s0))"
  shows "\<exists>found. prepared_with s0 es found \<and> set (bl_live (rs_baseline (reset_run es s0))) = fst ` set found"
proof -
  obtain es1 e es2 where h: "es = es1 @ e # es2" "\<not> preparing (rs_phase (reset_run es1 s0))"
    "\<forall>k. preparing (rs_phase (reset_run (es1 @ e # take k es2) s0))"
    using run_enters [of "\<lambda>s. preparing (rs_phase s)" s0 reset_step es] assms(1,2) unfolding reset_run_def by blast
  let ?s = "reset_step e (reset_run es1 s0)"
  have "preparing (rs_phase ?s)" using h(3) [rule_format, of 0] by (simp add: reset_run_def)
  note enter = enters_preparing [OF h(2) this]
  have "preparing (rs_phase (run_events reset_step (take k es2) ?s))" for k
    using h(3) [rule_format, of k] by (simp add: reset_run_def)
  from preparing_run [OF this] have same: "bl_live (rs_baseline (reset_run es s0)) = bl_live (rs_baseline ?s)"
    "rs_scope (reset_run es s0) = rs_scope ?s" by (simp_all add: h(1) reset_run_def)
  from enter same assms(3) obtain po found where "e = Polled po" "rs_phase (reset_run es1 s0) = Await_Idle"
    "po_bodies po = Inr found" "set (bl_live (rs_baseline ?s)) = fst ` set found" by auto
  then show ?thesis using h same(1) unfolding prepared_with_def by (intro exI [of _ found]) (auto 0 3)
qed

lemma restore_robot_state:
  assumes "restore_robot bl rw b = (b', Inr ())"
  shows "bk_positions b' = bl_joints bl \<and> bk_hold_pose b' = Some (bl_joints bl) \<and> bk_drive_target b' = None
    \<and> bk_pending b' = None \<and> bk_staged b' = [] \<and> bk_snapshot b' = None \<and> rh_path (bk_hold b') = None
    \<and> bk_stopped b' = bk_stopped b"
proof -
  have f: "bk_positions b2 = bk_positions b1 \<and> bk_hold_pose b2 = bk_hold_pose b1
      \<and> bk_drive_target b2 = bk_drive_target b1 \<and> bk_pending b2 = bk_pending b1 \<and> bk_staged b2 = bk_staged b1
      \<and> bk_snapshot b2 = bk_snapshot b1 \<and> bk_hold b2 = bk_hold b1 \<and> bk_stopped b2 = bk_stopped b1"
    if "set_gripper_effort_limit x b1 = (b2, r)" for x b1 b2 r
    using that by (auto simp: set_gripper_effort_limit_def Let_def split: if_splits option.splits)
  show ?thesis using assms
    by (auto simp: restore_robot_def drop_commands_def discard_command_snapshot_staging_def rh_clear_def Let_def
        split: sum.splits option.splits if_splits prod.splits dest!: f)
qed

text \<open>C16: A reset of the state puts everything back. When a reset of the state gets through its
  rewriting, the bodies it writes are exactly those that existed when it last found the robot idle;
  one that was registered with some state at any earlier moment is written that state and no
  other. The robot's targets and hold are its initial joints, nothing staged, commanded or held
  by the referee survives, and the backend is still stopped.\<close>
theorem reset_restores_registered_state:
  assumes "s0 = reset_run es0 (reset_new timeout_s b bl)"
    and "map_of (bl_bodies (rs_baseline s0)) path = Some state"
    and "s = reset_run es s0" and "rs_phase s = Settling" and "scope_state (rs_scope s)"
    and "s' = reset_step (Settled rw) s" and "rs_phase s' = Boundary_Sleep"
  shows "(\<exists>found. prepared_with (reset_new timeout_s b bl) (es0 @ es) found
          \<and> (\<forall>p. (\<exists>st. Body_Written p st \<in> set (added (Settled rw) s)) \<longleftrightarrow> p \<in> fst ` set found)
          \<and> (\<forall>st. Body_Written path st \<in> set (added (Settled rw) s) \<longleftrightarrow> path \<in> fst ` set found \<and> st = state))
     \<and> bk_positions (rs_backend s') = bl_joints bl \<and> bk_hold_pose (rs_backend s') = Some (bl_joints bl)
     \<and> bk_drive_target (rs_backend s') = None \<and> bk_pending (rs_backend s') = None
     \<and> bk_staged (rs_backend s') = [] \<and> bk_snapshot (rs_backend s') = None
     \<and> rh_path (bk_hold (rs_backend s')) = None \<and> bk_stopped (rs_backend s')"
proof -
  let ?init = "reset_new timeout_s b bl"
  have "keeps bl (rs_baseline s0)"
    using reset_run_keeps [of ?init es0] assms(1) by (simp add: reset_run_def reset_new_def assert_stop_def emit_def)
  moreover have k: "keeps (rs_baseline s0) (rs_baseline s)"
    using reset_run_keeps [of s0 es] assms(3) by (simp add: reset_run_def)
  ultimately have joints: "bl_joints (rs_baseline s) = bl_joints bl" by (simp add: keeps_def)
  have reg: "map_of (bl_bodies (rs_baseline s)) path = Some state" using k assms(2) unfolding keeps_def by blast
  have run: "s = reset_run (es0 @ es) ?init" using assms(1,3) by (simp add: reset_run_def)
  have "\<not> preparing (rs_phase ?init)" by (simp add: reset_new_def assert_stop_def emit_def)
  then obtain found where found: "prepared_with ?init (es0 @ es) found" "set (bl_live (rs_baseline s)) = fst ` set found"
    using prepared_history [of ?init "es0 @ es"] assms(4,5) run by auto
  obtain b1 ws r where r: "restore (rs_baseline s) rw (rs_backend s) = (b1, ws, r)" by (metis prod.exhaust)
  have rw: "rewrite_state rw s = (s\<lparr>rs_backend := b1, rs_log := rs_log s
      @ (if bk_stopped (rs_backend s) then [Robot_Restored] else []) @ map (\<lambda>(p, st). Body_Written p st) ws\<rparr>, r)"
    using r assms(5) by (simp add: rewrite_state_def)
  have ok: "r = Inr ()" using assms(4,6,7) rw by (cases r) (simp_all add: after_settle_def fails_ready)
  have pub: "rs_backend s' = b1 \<and> rs_log s' = rs_log s @ (if bk_stopped (rs_backend s) then [Robot_Restored] else [])
      @ map (\<lambda>(p, st). Body_Written p st) ws @ (if scope_time (rs_scope s) then [Origin_Moved] else []) @ [Boundary_Published]"
    using assms(4,6,7) rw ok by (cases "rw_publish rw") (simp_all add: after_settle_def fails_ready emit_def Let_def)
  have st: "bk_stopped (rs_backend s)" "restore_robot (rs_baseline s) rw (rs_backend s) = (b1, Inr ())"
      "restore_bodies (rw_write_ok rw) (bl_bodies (rs_baseline s)) (bl_live (rs_baseline s)) = (ws, Inr ())"
    using r ok by (auto simp: restore_def split: if_splits prod.splits sum.splits)
  have written: "Body_Written p u \<in> set (added (Settled rw) s) \<longleftrightarrow>
      p \<in> fst ` set found \<and> map_of (bl_bodies (rs_baseline s)) p = Some u" for p u
    using pub assms(6) restore_bodies_all [OF st(3), of p u] found(2) by (auto simp: added_def)
  have known: "\<exists>u. map_of (bl_bodies (rs_baseline s)) p = Some u" if "p \<in> fst ` set found" for p
    using restore_bodies_known [OF st(3)] that found(2) by blast
  have "(\<exists>u. Body_Written p u \<in> set (added (Settled rw) s)) \<longleftrightarrow> p \<in> fst ` set found" for p
    unfolding written using known by blast
  moreover have "Body_Written path u \<in> set (added (Settled rw) s) \<longleftrightarrow> path \<in> fst ` set found \<and> u = state" for u
    unfolding written reg option.inject by (simp only: eq_commute [of state])
  ultimately have "(\<forall>p. (\<exists>u. Body_Written p u \<in> set (added (Settled rw) s)) \<longleftrightarrow> p \<in> fst ` set found)
      \<and> (\<forall>u. Body_Written path u \<in> set (added (Settled rw) s) \<longleftrightarrow> path \<in> fst ` set found \<and> u = state)"
    by blast
  then show ?thesis using found(1) restore_robot_state [OF st(2)] pub st(1) joints by auto
qed


section \<open>A reset that succeeds\<close>

text \<open>One can stands in the scene; the square roots taken are those of 0 and 1.\<close>

definition demo_look :: "rat \<Rightarrow> observation" where
  "demo_look t = \<lparr>ob_now = Fin t, ob_names = REQUIRED_JOINTS, ob_positions = replicate 8 (Fin 0),
     ob_velocities = replicate 8 (Fin 0), ob_root = \<lparr>ro_position = [Fin 0, Fin 0, Fin 0],
       ro_quaternion = [Fin 1, Fin 0, Fin 0, Fin 0], ro_linear = [Fin 0, Fin 0, Fin 0], ro_angular = [Fin 0, Fin 0, Fin 0]\<rparr>\<rparr>"

definition demo_can :: body_state where
  "demo_can = ([Fin 1, Fin 2, Fin 0, Fin 0, Fin 0, Fin 0, Fin 1], None)"

definition demo_baseline :: baseline where
  "demo_baseline = \<lparr>bl_joints = [Fin 0, Fin 0], bl_effort = Some (Fin 2), bl_bodies = [(''/World/can'', demo_can)], bl_live = []\<rparr>"

definition demo_poll :: "rat \<Rightarrow> reset_event" where
  "demo_poll t = Polled \<lparr>po_now = Fin t, po_stable = Fin t, po_test = Fin t, po_publishers = True,
     po_observation = demo_look t, po_root = (\<lambda>x. x), po_bodies = Inr [(''/World/can'', demo_can)],
     po_assert = Fin t, po_next = Fin t\<rparr>"

definition demo_rewrite :: rewrite where
  "demo_rewrite = \<lparr>rw_robot = Inr (), rw_effort_written = True, rw_targets = Inr (), rw_write_ok = (\<lambda>_. True),
     rw_publish = Inr (), rw_assert = Fin 3\<rparr>"

definition demo_to_settling :: "reset_event list" where
  "demo_to_settling = [Stop_Arrives False, Request_Reset 3 (Fin 0), demo_poll 0, demo_poll (1/4), demo_poll (1/2),
     Stop_Arrives True, Ready_Arrives True (Fin (1/2)), Backend_Moves (set_safety_stop [Fin 0, Fin 0] True demo_backend),
     demo_poll (3/4), demo_poll 1]"

definition demo_to_released :: "reset_event list" where
  "demo_to_released = [Settled demo_rewrite, Boundary_Slept (Fin 2), Stop_Arrives False, Backend_Moves demo_backend, demo_poll 2]"

definition demo_reset :: reset where
  "demo_reset = reset_new (Fin 12) demo_backend demo_baseline"

theorem stationary_window_sound_witness:
  "\<exists>o' \<in> set [demo_look 0, demo_look (1/4)]. fle (ob_now o') (Fin 0) \<and> well_formed (\<lambda>x. x) o'"
proof -
  have "timed ([demo_look 0] @ [demo_look (1/4)])" by (simp add: timed_def demo_look_def)
  moreover have "snd (observe (\<lambda>x. x) (demo_look (1/4)) (window_after (\<lambda>x. x) [demo_look 0])) = Inr True" by code_simp
  ultimately show ?thesis using stationary_window_sound [of "[demo_look 0]" "demo_look (1/4)" "\<lambda>x. x"]
    by (auto simp: demo_look_def)
qed

theorem reset_excludes_mutations_witness:
  "rs_mutations (reset_run demo_to_settling demo_reset) = 0 \<and> rs_busy (reset_run demo_to_settling demo_reset)"
proof -
  have "rs_busy (reset_run demo_to_settling demo_reset)" by code_simp
  then show ?thesis
    using reset_excludes_mutations [of _ demo_to_settling "Fin 12" demo_backend demo_baseline] by (simp add: demo_reset_def)
qed

theorem reset_outcome_witness:
  "\<not> rs_busy (reset_step (demo_poll (9/4)) (reset_run (demo_to_settling @ demo_to_released) demo_reset))"
proof -
  have 1: "rs_phase (reset_run (demo_to_settling @ demo_to_released) demo_reset) \<noteq> Ready" by code_simp
  have 2: "rs_phase (reset_step (demo_poll (9/4)) (reset_run (demo_to_settling @ demo_to_released) demo_reset)) = Ready"
    by code_simp
  have 3: "demo_poll (9/4) \<noteq> Cancelled" by (simp add: demo_poll_def)
  show ?thesis using conjunct1 [OF reset_outcome [OF _ 1 2 3, of _ "Fin 12" demo_backend demo_baseline]]
    by (simp add: demo_reset_def)
qed

theorem reset_restores_registered_state_witness:
  "bk_drive_target (rs_backend (reset_step (Settled demo_rewrite) (reset_run demo_to_settling demo_reset))) = None"
proof -
  have 0: "demo_reset = reset_run [] (reset_new (Fin 12) demo_backend demo_baseline)"
    by (simp add: demo_reset_def reset_run_def)
  have 1: "map_of (bl_bodies (rs_baseline demo_reset)) ''/World/can'' = Some demo_can" by code_simp
  have 2: "rs_phase (reset_run demo_to_settling demo_reset) = Settling" by code_simp
  have 3: "scope_state (rs_scope (reset_run demo_to_settling demo_reset))" by code_simp
  have 4: "rs_phase (reset_step (Settled demo_rewrite) (reset_run demo_to_settling demo_reset)) = Boundary_Sleep"
    by code_simp
  show ?thesis using reset_restores_registered_state [OF 0 1 refl 2 3 refl 4] by blast
qed

end
