(* ===== verification/Gripper_Facade.thy ===== *)
theory Gripper_Facade
  imports Sim_Prelude
begin

text \<open>
  The gripper action server (\<open>gripper_facade.py\<close>). Its callbacks and the execution of a goal run on
  several threads that share the node's fields under one lock and publish outside it. The model
  is that interleaving: one event is one section executed under the lock, or the delivery of a
  message that a callback decided to publish. An execution is a thread with a program counter
  between its sections; \<open>gr_out\<close> lists what was published, \<open>gr_results\<close> how goals ended.

  Readings of the steady clock, of the simulation clock and of the goal handle are arguments of
  an event. Log lines are left out.
\<close>

section \<open>State\<close>

record grip =
  gc_position :: pyfloat
  gc_effort :: pyfloat

datatype publication =
    Hold pyfloat
  | Goal_Command nat grip
  | Clamp grip

text \<open>The node's parameters, read when a goal starts.\<close>

record grip_config =
  cf_tolerance :: pyfloat
  cf_simulation_timeout :: pyfloat
  cf_wall_watchdog :: pyfloat
  cf_contact_force :: pyfloat
  cf_contact_max_age :: pyfloat
  cf_stall_dwell :: pyfloat
  cf_stall_epsilon :: pyfloat

datatype outcome =
    Aborted
  | Canceled
  | Succeeded bool bool
  | Abandoned

datatype counter =
    At_Top
  | At_Snapshot
  | At_Recheck
  | At_Judge
  | At_Latch bool bool
  | At_Release outcome

record execution =
  ex_command :: grip
  ex_counter :: counter
  ex_start_sim :: pyfloat
  ex_start_wall :: pyfloat
  ex_best :: "pyfloat option"
  ex_progress_at :: pyfloat
  ex_contact_since :: "pyfloat option"
  ex_position :: pyfloat
  ex_effort :: pyfloat
  ex_contact :: pyfloat
  ex_contact_at :: "pyfloat option"

record gripper =
  gr_config :: grip_config
  gr_joint :: string
  gr_safety_timeout :: pyfloat
  gr_position :: pyfloat
  gr_effort :: pyfloat
  gr_contact :: pyfloat
  gr_contact_at :: "pyfloat option"
  gr_stopped :: bool
  gr_sample_at :: "pyfloat option"
  gr_reserved :: bool
  gr_handle :: "nat option"
  gr_cancel :: bool
  gr_keepalive :: "grip option"
  gr_pending :: "publication list"
  gr_out :: "publication list"
  gr_threads :: "(nat \<times> execution) list"
  gr_results :: "(nat \<times> outcome) list"

definition gripper_new :: "grip_config \<Rightarrow> string \<Rightarrow> pyfloat \<Rightarrow> gripper res" where
  "gripper_new config joint safety_timeout =
     (if fle safety_timeout (Fin 0) then Inl (ValueError ''safety timeout must be positive'')
      else Inr \<lparr>gr_config = config, gr_joint = joint, gr_safety_timeout = safety_timeout, gr_position = Fin 0,
        gr_effort = Fin 0, gr_contact = Fin 0, gr_contact_at = None, gr_stopped = True, gr_sample_at = None,
        gr_reserved = False, gr_handle = None, gr_cancel = False, gr_keepalive = None, gr_pending = [],
        gr_out = [], gr_threads = [], gr_results = []\<rparr>)"

section \<open>Callbacks\<close>

definition gr_state :: "string list \<Rightarrow> pyfloat list \<Rightarrow> pyfloat list \<Rightarrow> gripper \<Rightarrow> gripper" where
  "gr_state names positions efforts g =
     (case first_index (gr_joint g) names of
        None \<Rightarrow> g
      | Some i \<Rightarrow>
          let g1 = (if length positions > i then g\<lparr>gr_position := positions ! i\<rparr> else g)
          in if length efforts > i then g1\<lparr>gr_effort := efforts ! i\<rparr> else g1)"

text \<open>\<open>force\<close> is the length of the contact force.\<close>

definition gr_contact_message :: "pyfloat \<Rightarrow> pyfloat \<Rightarrow> gripper \<Rightarrow> gripper" where
  "gr_contact_message force now g = g\<lparr>gr_contact := force, gr_contact_at := Some now\<rparr>"

definition decide :: "publication \<Rightarrow> gripper \<Rightarrow> gripper" where
  "decide p g = g\<lparr>gr_pending := gr_pending g @ [p]\<rparr>"

definition gr_safety :: "bool \<Rightarrow> pyfloat \<Rightarrow> gripper \<Rightarrow> gripper" where
  "gr_safety data now g =
     (let g1 = g\<lparr>gr_sample_at := Some now, gr_stopped := data\<rparr> in
      if data then decide (Hold (gr_position g1)) (g1\<lparr>gr_keepalive := None\<rparr>) else g1)"

definition enforce_deadline :: "pyfloat \<Rightarrow> gripper \<Rightarrow> gripper" where
  "enforce_deadline now g =
     (if (case gr_sample_at g of None \<Rightarrow> False | Some t \<Rightarrow> flt (fsub now t) (gr_safety_timeout g)) then g
      else if gr_stopped g then g
      else decide (Hold (gr_position g)) (g\<lparr>gr_stopped := True, gr_keepalive := None\<rparr>))"

definition gr_cancel_request :: "gripper \<Rightarrow> gripper" where
  "gr_cancel_request g =
     (if gr_reserved g then decide (Hold (gr_position g)) (g\<lparr>gr_cancel := True\<rparr>) else g)"

text \<open>\<open>_goal\<close>: whether the goal is accepted.\<close>

definition gr_goal :: "pyfloat \<Rightarrow> gripper \<Rightarrow> gripper \<times> bool" where
  "gr_goal now g0 =
     (let g = enforce_deadline now g0 in
      if gr_stopped g \<or> gr_reserved g then (g, False)
      else (g\<lparr>gr_reserved := True, gr_cancel := False, gr_keepalive := None\<rparr>, True))"

definition keepalive_tick :: "gripper \<Rightarrow> gripper" where
  "keepalive_tick g =
     (if gr_handle g \<noteq> None \<or> gr_reserved g then g
      else case gr_keepalive g of
        None \<Rightarrow> g
      | Some command \<Rightarrow>
          if gr_stopped g then decide (Hold (gr_position g)) (g\<lparr>gr_keepalive := None\<rparr>)
          else decide (Clamp command) g)"

definition deliver :: "nat \<Rightarrow> gripper \<Rightarrow> gripper" where
  "deliver i g =
     (if i < length (gr_pending g)
      then g\<lparr>gr_pending := take i (gr_pending g) @ drop (Suc i) (gr_pending g),
             gr_out := gr_out g @ [gr_pending g ! i]\<rparr>
      else g)"

definition release_goal :: "nat \<Rightarrow> gripper \<Rightarrow> gripper" where
  "release_goal goal g =
     (if gr_handle g = Some goal \<or> gr_handle g = None
      then g\<lparr>gr_handle := None, gr_reserved := False, gr_cancel := False\<rparr> else g)"

section \<open>Executing a goal\<close>

definition set_thread :: "nat \<Rightarrow> execution \<Rightarrow> gripper \<Rightarrow> gripper" where
  "set_thread goal x g = g\<lparr>gr_threads := dict_set goal x (gr_threads g)\<rparr>"

definition end_thread :: "nat \<Rightarrow> gripper \<Rightarrow> gripper" where
  "end_thread goal g = g\<lparr>gr_threads := filter (\<lambda>(k, x). k \<noteq> goal) (gr_threads g)\<rparr>"

definition report :: "nat \<Rightarrow> outcome \<Rightarrow> gripper \<Rightarrow> gripper" where
  "report goal r g = g\<lparr>gr_results := gr_results g @ [(goal, r)]\<rparr>"

text \<open>The head of \<open>_execute\<close>, up to its loop.\<close>

definition start_execution :: "nat \<Rightarrow> pyfloat \<Rightarrow> pyfloat \<Rightarrow> pyfloat \<Rightarrow> pyfloat \<Rightarrow> gripper \<Rightarrow> gripper" where
  "start_execution goal target requested_effort sim wall g =
     (if gr_handle g \<noteq> None then report goal Aborted g
      else
        let reserved = gr_reserved g;
            g1 = g\<lparr>gr_reserved := True, gr_handle := Some goal\<rparr>;
            g2 = (if \<not> reserved then g1\<lparr>gr_cancel := False\<rparr> else g1)
        in if \<not> isfinite target \<or> \<not> isfinite requested_effort \<or> flt requested_effort (Fin 0)
           then release_goal goal (report goal Aborted g2)
           else set_thread goal
             \<lparr>ex_command = \<lparr>gc_position = target, gc_effort = requested_effort\<rparr>, ex_counter = At_Top,
              ex_start_sim = sim, ex_start_wall = wall, ex_best = None, ex_progress_at = sim,
              ex_contact_since = None, ex_position = gr_position g2, ex_effort = gr_effort g2,
              ex_contact = Fin 0, ex_contact_at = None\<rparr> g2)"

text \<open>What a section of the loop reads: the steady clock, the simulation clock, the handle's cancel
  flag and whether ROS still runs.\<close>

record exec_read =
  xr_wall :: pyfloat
  xr_sim :: pyfloat
  xr_cancel :: bool
  xr_ok :: bool

text \<open>Stopping short: hold where the gripper is, report, release.\<close>

definition give_up :: "nat \<Rightarrow> outcome \<Rightarrow> pyfloat \<Rightarrow> execution \<Rightarrow> gripper \<Rightarrow> gripper" where
  "give_up goal r position x g =
     set_thread goal (x\<lparr>ex_counter := At_Release r\<rparr>) (report goal r (decide (Hold position) g))"

definition take_snapshot :: "exec_read \<Rightarrow> nat \<Rightarrow> execution \<Rightarrow> gripper \<Rightarrow> gripper" where
  "take_snapshot rd goal x g =
     (let x1 = x\<lparr>ex_position := gr_position g, ex_effort := gr_effort g,
                 ex_contact := gr_contact g, ex_contact_at := gr_contact_at g\<rparr>
      in if gr_stopped g then give_up goal Aborted (gr_position g) x1 g
         else if gr_cancel g \<or> xr_cancel rd then give_up goal Canceled (gr_position g) x1 g
         else set_thread goal (x1\<lparr>ex_counter := At_Recheck\<rparr>) g)"

definition recheck :: "exec_read \<Rightarrow> nat \<Rightarrow> execution \<Rightarrow> gripper \<Rightarrow> gripper" where
  "recheck rd goal x g =
     (if gr_stopped g then give_up goal Aborted (gr_position g) (x\<lparr>ex_position := gr_position g\<rparr>) g
      else if gr_cancel g \<or> xr_cancel rd
      then give_up goal Canceled (gr_position g) (x\<lparr>ex_position := gr_position g\<rparr>) g
      else set_thread goal (x\<lparr>ex_counter := At_Judge\<rparr>) (decide (Goal_Command goal (ex_command x)) g))"

section \<open>Judging progress\<close>

text \<open>The bookkeeping of one iteration: the best distance so far and when it last improved, and since
  when a fresh contact has been felt.\<close>

definition grip_error :: "execution \<Rightarrow> pyfloat" where
  "grip_error x = fabs (fsub (gc_position (ex_command x)) (ex_position x))"

definition note_progress :: "grip_config \<Rightarrow> exec_read \<Rightarrow> execution \<Rightarrow> execution" where
  "note_progress cf rd x =
     (let improved = (case ex_best x of
            None \<Rightarrow> True | Some best \<Rightarrow> flt (grip_error x) (fsub best (cf_stall_epsilon cf)));
          x1 = (if improved then x\<lparr>ex_best := Some (grip_error x), ex_progress_at := xr_sim rd\<rparr> else x);
          fresh = (case ex_contact_at x of
            None \<Rightarrow> False
          | Some t \<Rightarrow> fle (ex_start_wall x) t \<and> fle (fsub (xr_wall rd) t) (cf_contact_max_age cf))
      in if fresh \<and> fle (cf_contact_force cf) (ex_contact x)
         then (case ex_contact_since x of
                 None \<Rightarrow> x1\<lparr>ex_contact_since := Some (xr_sim rd)\<rparr> | Some _ \<Rightarrow> x1)
         else x1\<lparr>ex_contact_since := None\<rparr>)"

definition dwelt :: "grip_config \<Rightarrow> exec_read \<Rightarrow> pyfloat \<Rightarrow> bool" where
  "dwelt cf rd since \<longleftrightarrow> fle (cf_stall_dwell cf) (fsub (xr_sim rd) since)"

definition position_stalled :: "grip_config \<Rightarrow> exec_read \<Rightarrow> execution \<Rightarrow> bool" where
  "position_stalled cf rd x \<longleftrightarrow> flt (Fin 0) (cf_stall_dwell cf)
     \<and> flt (cf_tolerance cf) (grip_error x) \<and> dwelt cf rd (ex_progress_at x)"

definition contact_stalled :: "grip_config \<Rightarrow> exec_read \<Rightarrow> execution \<Rightarrow> bool" where
  "contact_stalled cf rd x \<longleftrightarrow>
     (case ex_contact_since x of
        None \<Rightarrow> False
      | Some since \<Rightarrow> flt (cf_tolerance cf) (grip_error x) \<and> dwelt cf rd since \<and> dwelt cf rd (ex_progress_at x))"

definition judge :: "exec_read \<Rightarrow> nat \<Rightarrow> execution \<Rightarrow> gripper \<Rightarrow> gripper" where
  "judge rd goal x0 g =
     (let cf = gr_config g; x = note_progress cf rd x0;
          reached = fle (grip_error x) (cf_tolerance cf);
          stalled = (position_stalled cf rd x \<or> contact_stalled cf rd x)
      in if reached \<or> stalled then set_thread goal (x\<lparr>ex_counter := At_Latch reached stalled\<rparr>) g
         else if fle (cf_simulation_timeout cf) (fsub (xr_sim rd) (ex_start_sim x))
                 \<or> fle (cf_wall_watchdog cf) (fsub (xr_wall rd) (ex_start_wall x))
         then give_up goal Aborted (ex_position x) x g
         else set_thread goal (x\<lparr>ex_counter := At_Top\<rparr>) g)"

text \<open>One section of a running execution.\<close>

definition exec_step :: "exec_read \<Rightarrow> nat \<Rightarrow> gripper \<Rightarrow> gripper" where
  "exec_step rd goal g =
     (case map_of (gr_threads g) goal of
        None \<Rightarrow> g
      | Some x \<Rightarrow>
          (case ex_counter x of
             At_Top \<Rightarrow>
               if \<not> xr_ok rd then set_thread goal (x\<lparr>ex_counter := At_Release Abandoned\<rparr>) g
               else set_thread goal (x\<lparr>ex_counter := At_Snapshot\<rparr>) (enforce_deadline (xr_wall rd) g)
           | At_Snapshot \<Rightarrow> take_snapshot rd goal x g
           | At_Recheck \<Rightarrow> recheck rd goal x g
           | At_Judge \<Rightarrow> judge rd goal x g
           | At_Latch reached stalled \<Rightarrow>
               set_thread goal (x\<lparr>ex_counter := At_Release (Succeeded reached stalled)\<rparr>)
                 (report goal (Succeeded reached stalled) (g\<lparr>gr_keepalive := Some (ex_command x)\<rparr>))
           | At_Release r \<Rightarrow> end_thread goal (release_goal goal g)))"

section \<open>Events\<close>

datatype gr_event =
    State_Message "string list" "pyfloat list" "pyfloat list"
  | Contact_Message pyfloat pyfloat
  | Safety_Message bool pyfloat
  | Deadline_Timer pyfloat
  | Keepalive_Timer
  | Cancel_Request
  | Goal_Request pyfloat
  | Execute nat pyfloat pyfloat pyfloat pyfloat
  | Execute_Section nat exec_read
  | Deliver nat

text \<open>ROS gives every accepted goal a handle of its own.\<close>

fun gr_step :: "gr_event \<Rightarrow> gripper \<Rightarrow> gripper" where
  "gr_step (State_Message names positions efforts) g = gr_state names positions efforts g"
| "gr_step (Contact_Message force now) g = gr_contact_message force now g"
| "gr_step (Safety_Message data now) g = gr_safety data now g"
| "gr_step (Deadline_Timer now) g = enforce_deadline now g"
| "gr_step Keepalive_Timer g = keepalive_tick g"
| "gr_step Cancel_Request g = gr_cancel_request g"
| "gr_step (Goal_Request now) g = fst (gr_goal now g)"
| "gr_step (Execute goal target effort sim wall) g =
     (if goal \<in> fst ` set (gr_threads g) then g else start_execution goal target effort sim wall g)"
| "gr_step (Execute_Section goal rd) g = exec_step rd goal g"
| "gr_step (Deliver i) g = deliver i g"

definition gr_run :: "gr_event list \<Rightarrow> gripper \<Rightarrow> gripper" where
  "gr_run = run_events gr_step"

end
