(* ===== verification/Gripper_Safety.thy ===== *)
theory Gripper_Safety
  imports Gripper_Facade "HOL-Library.Multiset"
begin

text \<open>
  What the gripper's action server guarantees under every interleaving of its threads: one goal
  at a time, no command decided while stopped, and a reported stall means that the drive did
  not advance.
\<close>

section \<open>One goal at a time\<close>

definition one_goal :: "gripper \<Rightarrow> bool" where
  "one_goal g \<longleftrightarrow>
     (case gr_handle g of
        None \<Rightarrow> gr_threads g = []
      | Some goal \<Rightarrow> gr_reserved g \<and> (\<exists>x. gr_threads g = [(goal, x)]))"

lemma one_goal_cong:
  "one_goal g \<Longrightarrow> gr_handle g' = gr_handle g \<Longrightarrow> gr_threads g' = gr_threads g \<Longrightarrow> gr_reserved g' = gr_reserved g \<Longrightarrow> one_goal g'"
  by (simp add: one_goal_def split: option.splits)

lemma decide_frame [simp]:
  "gr_handle (decide p g) = gr_handle g" "gr_threads (decide p g) = gr_threads g"
  "gr_reserved (decide p g) = gr_reserved g" "gr_stopped (decide p g) = gr_stopped g"
  "gr_keepalive (decide p g) = gr_keepalive g" "gr_out (decide p g) = gr_out g"
  "gr_pending (decide p g) = gr_pending g @ [p]" "gr_cancel (decide p g) = gr_cancel g"
  by (simp_all add: decide_def)

lemma deadline_frame [simp]:
  "gr_handle (enforce_deadline now g) = gr_handle g" "gr_threads (enforce_deadline now g) = gr_threads g"
  "gr_reserved (enforce_deadline now g) = gr_reserved g"
  by (simp_all add: enforce_deadline_def)

lemma thread_frame [simp]:
  "gr_handle (set_thread goal x g) = gr_handle g" "gr_reserved (set_thread goal x g) = gr_reserved g"
  "gr_stopped (set_thread goal x g) = gr_stopped g" "gr_pending (set_thread goal x g) = gr_pending g"
  "gr_out (set_thread goal x g) = gr_out g" "gr_threads (set_thread goal x g) = dict_set goal x (gr_threads g)"
  by (simp_all add: set_thread_def)

lemma report_frame [simp]:
  "gr_handle (report goal r g) = gr_handle g" "gr_reserved (report goal r g) = gr_reserved g"
  "gr_stopped (report goal r g) = gr_stopped g" "gr_pending (report goal r g) = gr_pending g"
  "gr_out (report goal r g) = gr_out g" "gr_threads (report goal r g) = gr_threads g"
  by (simp_all add: report_def)

lemma one_goal_thread:
  "one_goal g \<Longrightarrow> map_of (gr_threads g) goal = Some y \<Longrightarrow> one_goal (set_thread goal x g)"
  by (auto simp: one_goal_def split: option.splits if_splits)

lemma one_goal_decide: "one_goal (decide p g) = one_goal g"
  by (simp add: one_goal_def split: option.split)

lemma one_goal_report: "one_goal (report goal r g) = one_goal g"
  by (simp add: one_goal_def split: option.split)

lemma one_goal_deadline: "one_goal (enforce_deadline now g) = one_goal g"
  by (simp add: one_goal_def split: option.split)

lemmas one_goal_simps = one_goal_decide one_goal_report one_goal_deadline

lemma one_goal_start:
  assumes "one_goal g" shows "one_goal (start_execution goal t e sim wall g)"
proof (cases "gr_handle g")
  case None
  then have "gr_threads g = []" using assms by (simp add: one_goal_def)
  then show ?thesis using None
    by (simp add: start_execution_def one_goal_def release_goal_def report_def set_thread_def Let_def)
qed (use assms in \<open>simp add: start_execution_def one_goal_report\<close>)

lemma give_up_one: "one_goal g \<Longrightarrow> map_of (gr_threads g) goal = Some y \<Longrightarrow> one_goal (give_up goal r p x g)"
  unfolding give_up_def by (rule one_goal_thread [of _ _ y]) (simp_all add: one_goal_simps)

lemma exec_one: assumes inv: "one_goal g" shows "one_goal (exec_step rd goal g)"
proof (cases "map_of (gr_threads g) goal")
  case (Some x)
  note th = one_goal_thread [OF inv Some] give_up_one [OF inv Some]
  show ?thesis
  proof (cases "ex_counter x")
    case At_Top
    have "one_goal (set_thread goal y (enforce_deadline now g))" for y now
      by (rule one_goal_thread [of _ _ x]) (simp_all add: one_goal_deadline inv Some)
    then show ?thesis using th by (simp add: exec_step_def Some At_Top)
  next
    case At_Recheck
    have "one_goal (set_thread goal y (decide p g))" for y p
      by (rule one_goal_thread [of _ _ x]) (simp_all add: one_goal_decide inv Some)
    then show ?thesis using th by (simp add: exec_step_def recheck_def Some At_Recheck)
  next
    case (At_Latch a b)
    have "one_goal (g\<lparr>gr_keepalive := k\<rparr>)" for k using inv by (rule one_goal_cong) simp_all
    then have "one_goal (set_thread goal y (report goal r (g\<lparr>gr_keepalive := k\<rparr>)))" for y r k
      by (intro one_goal_thread [of _ _ x]) (simp_all add: one_goal_report Some)
    then show ?thesis by (simp add: exec_step_def Some At_Latch)
  next
    case (At_Release r)
    have "gr_handle g = Some goal \<and> gr_threads g = [(goal, x)]"
      using inv Some by (auto simp: one_goal_def split: option.splits if_splits)
    then show ?thesis by (simp add: exec_step_def Some At_Release one_goal_def release_goal_def end_thread_def)
  qed (use th in \<open>simp_all add: exec_step_def take_snapshot_def judge_def Some Let_def\<close>)
qed (simp add: exec_step_def inv)

lemma goal_one: "one_goal g \<Longrightarrow> one_goal (fst (gr_goal now g))"
proof -
  assume "one_goal g"
  then have d: "one_goal (enforce_deadline now g)" by (simp add: one_goal_deadline)
  then show ?thesis by (auto simp: gr_goal_def Let_def one_goal_def split: option.splits)
qed

lemma one_goal_step: assumes inv: "one_goal g" shows "one_goal (gr_step e g)"
proof (cases e)
  case (State_Message n p f)
  then show ?thesis by (auto intro: one_goal_cong [OF inv] simp: gr_state_def Let_def split: option.split)
next
  case (Safety_Message a t)
  then show ?thesis by (auto intro: one_goal_cong [OF inv] simp: gr_safety_def Let_def)
next
  case Keepalive_Timer
  then show ?thesis by (auto intro: one_goal_cong [OF inv] simp: keepalive_tick_def split: option.split)
qed (use inv exec_one goal_one one_goal_start in \<open>auto simp: one_goal_deadline gr_contact_message_def
    gr_cancel_request_def deliver_def intro: one_goal_cong [OF inv]\<close>)

interpretation gripper_goals: event_invariant gr_step one_goal
  by unfold_locales (rule one_goal_step)

lemma one_goal_reachable:
  "gripper_new cf j t = Inr g \<Longrightarrow> one_goal (gr_run es g)"
  unfolding gr_run_def
  by (rule gripper_goals.run_inv) (auto simp: gripper_new_def one_goal_def split: if_splits)

section \<open>Silence while stopped\<close>

fun is_hold :: "publication \<Rightarrow> bool" where
  "is_hold (Hold p) = True"
| "is_hold p = False"

text \<open>The commands that were published or that a callback has decided to publish.\<close>

definition commands :: "gripper \<Rightarrow> publication multiset" where
  "commands g = filter_mset (\<lambda>p. \<not> is_hold p) (mset (gr_pending g @ gr_out g))"

fun no_clear :: "gr_event \<Rightarrow> bool" where
  "no_clear (Safety_Message data now) = data"
| "no_clear e = True"

definition silent :: "publication multiset \<Rightarrow> gripper \<Rightarrow> bool" where
  "silent m g \<longleftrightarrow> gr_stopped g \<and> commands g = m"

lemma silent_cong:
  "silent m g \<Longrightarrow> gr_stopped g' = gr_stopped g \<Longrightarrow> gr_pending g' = gr_pending g \<Longrightarrow> gr_out g' = gr_out g \<Longrightarrow> silent m g'"
  by (simp add: silent_def commands_def)

lemma silent_hold: "silent m g \<Longrightarrow> silent m (decide (Hold p) g)"
  by (simp add: silent_def commands_def)

lemma silent_give_up: "silent m g \<Longrightarrow> silent m (give_up goal r p x g)"
  unfolding give_up_def by (rule silent_cong [OF silent_hold]) simp_all

lemma silent_deadline: "silent m g \<Longrightarrow> enforce_deadline now g = g"
  by (simp add: silent_def enforce_deadline_def)

lemma mset_deliver: "i < length xs \<Longrightarrow> mset (take i xs @ drop (Suc i) xs @ ys @ [xs ! i]) = mset (xs @ ys)"
proof -
  assume "i < length xs"
  then have "mset xs = mset (take i xs @ xs ! i # drop (Suc i) xs)" by (simp flip: id_take_nth_drop)
  then show ?thesis by simp
qed

lemma silent_deliver: assumes "silent m g" shows "silent m (deliver i g)"
proof (cases "i < length (gr_pending g)")
  case True
  have "mset (gr_pending (deliver i g) @ gr_out (deliver i g)) = mset (gr_pending g @ gr_out g)"
    using mset_deliver [OF True, of "gr_out g"] True by (simp add: deliver_def)
  then have "commands (deliver i g) = commands g" unfolding commands_def by (simp only:)
  then show ?thesis using assms True unfolding silent_def by (simp add: deliver_def)
qed (use assms in \<open>simp add: deliver_def\<close>)

lemma silent_exec: assumes inv: "silent m g" shows "silent m (exec_step rd goal g)"
proof (cases "map_of (gr_threads g) goal")
  case (Some x)
  have st: "gr_stopped g" using inv by (simp add: silent_def)
  have th: "silent m (set_thread goal y g)" for y by (rule silent_cong [OF inv]) simp_all
  show ?thesis
  proof (cases "ex_counter x")
    case (At_Latch a b)
    show ?thesis by (rule silent_cong [OF inv]) (simp_all add: exec_step_def Some At_Latch)
  next
    case (At_Release r)
    show ?thesis by (rule silent_cong [OF inv]) (simp_all add: exec_step_def Some At_Release end_thread_def release_goal_def)
  qed (use st th silent_give_up [OF inv] silent_deadline [OF inv] in
      \<open>simp_all add: exec_step_def take_snapshot_def recheck_def judge_def Some Let_def\<close>)
qed (simp add: exec_step_def inv)

lemma gripper_silent_step: assumes inv: "silent m g" and e: "no_clear e" shows "silent m (gr_step e g)"
proof (cases e)
  case (State_Message n p f)
  then show ?thesis by (auto intro: silent_cong [OF inv] simp: gr_state_def Let_def split: option.split)
next
  case (Safety_Message a t)
  have "silent m (g\<lparr>gr_sample_at := Some t, gr_stopped := True, gr_keepalive := None\<rparr>)"
    by (rule silent_cong [OF inv]) (use inv in \<open>simp_all add: silent_def\<close>)
  from silent_hold [OF this, of "gr_position g"] show ?thesis using e Safety_Message by (simp add: gr_safety_def Let_def)
next
  case Keepalive_Timer
  have "silent m (g\<lparr>gr_keepalive := None\<rparr>)" by (rule silent_cong [OF inv]) simp_all
  from silent_hold [OF this] show ?thesis using inv Keepalive_Timer
    by (auto simp: keepalive_tick_def silent_def split: option.split)
next
  case Cancel_Request
  have "silent m (g\<lparr>gr_cancel := True\<rparr>)" by (rule silent_cong [OF inv]) simp_all
  from silent_hold [OF this] show ?thesis using inv Cancel_Request by (simp add: gr_cancel_request_def)
next
  case (Goal_Request now)
  then show ?thesis using inv silent_deadline [OF inv] by (simp add: gr_goal_def silent_def)
next
  case (Execute goal t f sim wall)
  then show ?thesis
    by (auto intro!: silent_cong [OF inv] simp: start_execution_def release_goal_def Let_def)
qed (use inv silent_exec silent_deliver silent_deadline [OF inv] in
    \<open>auto simp: gr_contact_message_def intro: silent_cong [OF inv]\<close>)

text \<open>C17: A stopped gripper is commanded nothing new. At most one goal executes at any time, under
  every interleaving; and from a state in which the gripper is stopped, as long as no sample
  clears the stop, whatever goals, cancels, timers and sections run, no further goal command and
  no clamp is decided: only commands decided before the stop can still come out.\<close>
theorem stop_silences_gripper:
  assumes "gripper_new cf joint safety_timeout = Inr g0" and "g = gr_run es g0"
  shows "length (gr_threads g) \<le> 1
     \<and> (gr_stopped g \<and> list_all no_clear es' \<longrightarrow>
          gr_stopped (gr_run es' g) \<and> commands (gr_run es' g) = commands g)"
proof -
  have "one_goal g" using one_goal_reachable assms by simp
  then have one: "length (gr_threads g) \<le> 1" by (auto simp: one_goal_def split: option.splits)
  have "silent m (run_events gr_step es' g)" if "silent m g" "list_all no_clear es'" for m es' g
    using that by (induction es' arbitrary: g) (simp_all add: gripper_silent_step)
  from this [of "commands g" g es'] one show ?thesis by (simp add: silent_def gr_run_def)
qed


section \<open>Success is honest\<close>

text \<open>What the iterations of one execution see: their clocks, the position and the contact.\<close>

type_synonym sighting = "exec_read \<times> pyfloat \<times> pyfloat \<times> pyfloat option"

definition look :: "sighting \<Rightarrow> execution \<Rightarrow> execution" where
  "look s x = (case s of (rd, p, c, t) \<Rightarrow> x\<lparr>ex_position := p, ex_contact := c, ex_contact_at := t\<rparr>)"

definition watch :: "grip_config \<Rightarrow> sighting list \<Rightarrow> execution \<Rightarrow> execution" where
  "watch cf ss x = foldl (\<lambda>x s. note_progress cf (fst s) (look s x)) x ss"

definition distance_of :: "execution \<Rightarrow> sighting \<Rightarrow> pyfloat" where
  "distance_of x s = fabs (fsub (gc_position (ex_command x)) (fst (snd s)))"

text \<open>The last improvement was at sighting \<open>k\<close>, and nothing after it came closer by the epsilon.\<close>

definition stuck_since :: "grip_config \<Rightarrow> execution \<Rightarrow> sighting list \<Rightarrow> nat \<Rightarrow> bool" where
  "stuck_since cf x ss k \<longleftrightarrow> k < length ss
     \<and> (\<forall>j. k < j \<and> j < length ss \<longrightarrow>
          \<not> flt (distance_of x (ss ! j)) (fsub (distance_of x (ss ! k)) (cf_stall_epsilon cf)))"

lemma note_command [simp]: "ex_command (note_progress cf rd x) = ex_command x"
  by (simp add: note_progress_def Let_def split: option.split)

lemma look_command [simp]: "ex_command (look s x) = ex_command x" "ex_best (look s x) = ex_best x"
  "ex_progress_at (look s x) = ex_progress_at x"
  by (simp_all add: look_def split: prod.split)

lemma watch_command [simp]: "ex_command (watch cf ss x) = ex_command x"
  unfolding watch_def by (induction ss arbitrary: x) simp_all

lemma note_best:
  "(ex_best x = None \<or> (\<exists>b. ex_best x = Some b \<and> flt (grip_error x) (fsub b (cf_stall_epsilon cf)))) \<and>
     ex_best (note_progress cf rd x) = Some (grip_error x) \<and> ex_progress_at (note_progress cf rd x) = xr_sim rd
   \<or> (\<exists>b. ex_best x = Some b \<and> \<not> flt (grip_error x) (fsub b (cf_stall_epsilon cf))) \<and>
     ex_best (note_progress cf rd x) = ex_best x \<and> ex_progress_at (note_progress cf rd x) = ex_progress_at x"
  by (auto simp: note_progress_def Let_def split: option.split)

lemma watch_progress:
  assumes "ex_best x = None" "ss \<noteq> []"
  shows "\<exists>k. stuck_since cf x ss k \<and> ex_best (watch cf ss x) = Some (distance_of x (ss ! k))
     \<and> ex_progress_at (watch cf ss x) = xr_sim (fst (ss ! k))"
  using assms(2)
proof (induction ss rule: rev_induct)
  case (snoc s ss)
  let ?x = "look s (watch cf ss x)"
  have w: "watch cf (ss @ [s]) x = note_progress cf (fst s) ?x" by (simp add: watch_def)
  have d: "grip_error ?x = distance_of x s"
    by (cases s) (simp add: grip_error_def distance_of_def look_def)
  have new: ?case if "ex_best (note_progress cf (fst s) ?x) = Some (grip_error ?x)"
      "ex_progress_at (note_progress cf (fst s) ?x) = xr_sim (fst s)"
    using that d unfolding w
    by (intro exI [of _ "length ss"]) (auto simp: stuck_since_def)
  show ?case
  proof (cases "ss = []")
    case True
    then show ?thesis using note_best [of ?x cf "fst s"] assms(1) new by (auto simp: watch_def)
  next
    case False
    then obtain k where k: "stuck_since cf x ss k" "ex_best (watch cf ss x) = Some (distance_of x (ss ! k))"
        "ex_progress_at (watch cf ss x) = xr_sim (fst (ss ! k))"
      using snoc.IH by blast
    from note_best [of ?x cf "fst s"] show ?thesis
    proof
      assume "(\<exists>b. ex_best ?x = Some b \<and> \<not> flt (grip_error ?x) (fsub b (cf_stall_epsilon cf)))
        \<and> ex_best (note_progress cf (fst s) ?x) = ex_best ?x
        \<and> ex_progress_at (note_progress cf (fst s) ?x) = ex_progress_at ?x"
      then have a: "\<not> flt (distance_of x s) (fsub (distance_of x (ss ! k)) (cf_stall_epsilon cf))"
          "ex_best (watch cf (ss @ [s]) x) = Some (distance_of x (ss ! k))"
          "ex_progress_at (watch cf (ss @ [s]) x) = xr_sim (fst (ss ! k))"
        using k d w by simp_all
      have "stuck_since cf x (ss @ [s]) k"
        using k(1) a(1) by (auto simp: stuck_since_def nth_append less_Suc_eq)
      moreover have "(ss @ [s]) ! k = ss ! k" using k(1) by (simp add: stuck_since_def nth_append)
      ultimately show ?thesis using a by (intro exI [of _ k]) simp
    qed (use new in blast)
  qed
qed simp

lemma judge_counter:
  assumes "map_of (gr_threads (judge rd goal x g)) goal = Some y" "ex_counter y = At_Latch reached stalled"
  shows "reached = fle (grip_error x) (cf_tolerance (gr_config g))
    \<and> stalled = (position_stalled (gr_config g) rd (note_progress (gr_config g) rd x)
                 \<or> contact_stalled (gr_config g) rd (note_progress (gr_config g) rd x)) \<and> (reached \<or> stalled)"
proof -
  have e: "grip_error (note_progress cf rd x) = grip_error x" for cf
    by (simp add: grip_error_def note_progress_def Let_def split: option.split)
  show ?thesis using assms by (auto simp: judge_def give_up_def decide_def report_def set_thread_def e Let_def split: if_splits)
qed

text \<open>Success is honest. When an execution decides to succeed after any sequence of sightings, it
  reports \<open>reached_goal\<close> exactly if the gripper is within the tolerance of the target. If it
  succeeds without having reached it, the distance exceeds the tolerance, and since a sighting at
  least the dwell time ago no sighting came closer to the target by the stall epsilon.\<close>
theorem success_is_honest:
  assumes "ex_best x0 = None" and "x = look s (watch (gr_config g) ss x0)"
    and "map_of (gr_threads (judge (fst s) goal x g)) goal = Some y"
    and "ex_counter y = At_Latch reached stalled"
  shows "(reached \<or> stalled) \<and> reached = fle (distance_of x0 s) (cf_tolerance (gr_config g))
     \<and> (stalled \<longrightarrow> flt (cf_tolerance (gr_config g)) (distance_of x0 s)
          \<and> (\<exists>k. stuck_since (gr_config g) x0 (ss @ [s]) k
               \<and> dwelt (gr_config g) (fst s) (xr_sim (fst ((ss @ [s]) ! k)))))"
proof -
  have d: "grip_error x = distance_of x0 s"
    by (cases s) (simp add: assms(2) grip_error_def distance_of_def look_def)
  let ?x = "note_progress (gr_config g) (fst s) x"
  have w: "watch (gr_config g) (ss @ [s]) x0 = ?x" by (simp add: watch_def assms(2))
  have e: "grip_error ?x = grip_error x"
    by (simp add: grip_error_def note_progress_def Let_def split: option.split)
  note j = judge_counter [OF assms(3,4)]
  obtain k where "stuck_since (gr_config g) x0 (ss @ [s]) k" "ex_progress_at ?x = xr_sim (fst ((ss @ [s]) ! k))"
    using watch_progress [OF assms(1), of "ss @ [s]" "gr_config g"] unfolding w by auto
  moreover have "flt (cf_tolerance (gr_config g)) (grip_error x) \<and> dwelt (gr_config g) (fst s) (ex_progress_at ?x)"
    if stalled
    using that j e by (auto simp: position_stalled_def contact_stalled_def split: option.splits)
  ultimately show ?thesis using j d by auto
qed

text \<open>An example configuration: tolerance 1, watchdogs 100, contact 5, dwell 2, epsilon 1.\<close>

definition example_config :: grip_config where
  "example_config = \<lparr>cf_tolerance = Fin 1, cf_simulation_timeout = Fin 100, cf_wall_watchdog = Fin 100,
     cf_contact_force = Fin 5, cf_contact_max_age = Fin 1, cf_stall_dwell = Fin 2, cf_stall_epsilon = Fin 1\<rparr>"

definition example_gripper :: gripper where
  "example_gripper = (case gripper_new example_config ''grip'' (Fin 10) of Inr g \<Rightarrow> g | Inl e \<Rightarrow> undefined)"

definition example_read :: exec_read where
  "example_read = \<lparr>xr_wall = Fin 1, xr_sim = Fin 1, xr_cancel = False, xr_ok = True\<rparr>"

lemma example_gripper_new: "gripper_new example_config ''grip'' (Fin 10) = Inr example_gripper"
  by (simp add: example_gripper_def gripper_new_def)

definition example_start :: "gr_event list" where
  "example_start = [State_Message [''grip''] [Fin 4] [Fin 0], Safety_Message False (Fin 0),
     Goal_Request (Fin 0), Execute 1 (Fin 4) (Fin 20) (Fin 0) (Fin 0)] @
     replicate 4 (Execute_Section 1 example_read)"

lemma stop_silences_gripper_witness:
  "gr_stopped (gr_run (replicate 5 (Execute_Section 1 example_read) @ [Keepalive_Timer])
       (gr_run (example_start @ [Safety_Message True (Fin 1)]) example_gripper))
   \<and> commands (gr_run (example_start @ [Safety_Message True (Fin 1)]) example_gripper) \<noteq> {#}"
proof -
  have "gr_stopped (gr_run (example_start @ [Safety_Message True (Fin 1)]) example_gripper)"
    "commands (gr_run (example_start @ [Safety_Message True (Fin 1)]) example_gripper) \<noteq> {#}"
    by code_simp+
  then show ?thesis
    using stop_silences_gripper [OF example_gripper_new refl,
      of "example_start @ [Safety_Message True (Fin 1)]" "replicate 5 (Execute_Section 1 example_read) @ [Keepalive_Timer]"]
    by (simp add: list_all_iff)
qed

text \<open>Between the decision to succeed and the latch of the clamp, the flag of the safety stop is not read
  again. A stop that comes and goes in between does not clear the clamp: the keepalive commands the
  old goal with its full effort after the stop.\<close>

definition clamp_after :: "gr_event list \<Rightarrow> publication list" where
  "clamp_after es = gr_pending (gr_run (es @ replicate 2 (Execute_Section 1 example_read) @
     [Safety_Message False (Fin 2), Keepalive_Timer]) (gr_run example_start example_gripper))"

lemma clamp_survives_stop:
  "clamp_after [Safety_Message True (Fin 1)] = [Goal_Command 1 \<lparr>gc_position = Fin 4, gc_effort = Fin 20\<rparr>,
     Hold (Fin 4), Clamp \<lparr>gc_position = Fin 4, gc_effort = Fin 20\<rparr>]"
  by code_simp

definition example_sightings :: "sighting list" where
  "example_sightings = [(example_read, Fin 0, Fin 0, None), (example_read\<lparr>xr_sim := Fin 2\<rparr>, Fin 0, Fin 0, None),
     (example_read\<lparr>xr_sim := Fin 3\<rparr>, Fin 0, Fin 0, None)]"

definition example_execution :: execution where
  "example_execution = \<lparr>ex_command = \<lparr>gc_position = Fin 4, gc_effort = Fin 20\<rparr>, ex_counter = At_Judge,
     ex_start_sim = Fin 0, ex_start_wall = Fin 0, ex_best = None, ex_progress_at = Fin 0,
     ex_contact_since = None, ex_position = Fin 0, ex_effort = Fin 0, ex_contact = Fin 0, ex_contact_at = None\<rparr>"

definition example_end :: execution where
  "example_end = look (example_sightings ! 2) (watch example_config (take 2 example_sightings) example_execution)"

lemma success_is_honest_witness:
  "\<exists>k. stuck_since example_config example_execution example_sightings k
     \<and> dwelt example_config (fst (example_sightings ! 2)) (xr_sim (fst (example_sightings ! k)))"
proof -
  have cf: "gr_config example_gripper = example_config" by code_simp
  have a: "take 2 example_sightings @ [example_sightings ! 2] = example_sightings" by code_simp
  have b: "ex_best example_execution = None" by code_simp
  have "(case map_of (gr_threads (judge (fst (example_sightings ! 2)) 1 example_end example_gripper)) 1 of
      None \<Rightarrow> False | Some y \<Rightarrow> ex_counter y = At_Latch False True)" by code_simp
  then obtain y where y: "map_of (gr_threads (judge (fst (example_sightings ! 2)) 1 example_end example_gripper)) 1 = Some y"
      "ex_counter y = At_Latch False True" by (auto split: option.splits)
  have e: "example_end = look (example_sightings ! 2)
      (watch (gr_config example_gripper) (take 2 example_sightings) example_execution)"
    by (simp add: example_end_def cf)
  show ?thesis using success_is_honest [OF b e y] by (simp add: a cf)
qed

end
