(* ===== verification/Controller_Reconciler.thy ===== *)
theory Controller_Reconciler
  imports Sim_Prelude
begin

text \<open>
  The start-up reconciliation of controllers (\<open>controller_reconciler.py\<close>). The controller manager
  is a remote service: \<open>'w\<close> is its state, unknown to the program, and the record \<open>manager_api\<close>
  gives the reply of each of the four calls and the state it leaves. A call replies, times out
  (\<open>TimeoutError\<close>, which the code handles) or raises something else (which it does not).
  \<open>se_calls\<close> records the calls that were made for the controller and their replies.
\<close>

section \<open>The controller manager\<close>

record controller_state =
  cn_name :: string
  cn_state :: string

datatype 'a reply = Replied 'a | Timed_Out string | Raised exc

record 'w manager_api =
  am_list :: "'w \<Rightarrow> 'w \<times> (string \<rightharpoonup> controller_state) reply"
  am_load :: "string \<Rightarrow> 'w \<Rightarrow> 'w \<times> bool reply"
  am_configure :: "string \<Rightarrow> 'w \<Rightarrow> 'w \<times> bool reply"
  am_activate :: "string \<Rightarrow> 'w \<Rightarrow> 'w \<times> bool reply"

datatype call =
    Listed "controller_state option reply"
  | Loaded "bool reply"
  | Configured "bool reply"
  | Activated "bool reply"

record 'w session =
  se_world :: 'w
  se_calls :: "call list"

text \<open>How a section of an attempt goes on: with a value, with a proven controller, with the next
  attempt after an error, or with an exception that leaves the function.\<close>

datatype 'a section_result = Go 'a | Proven controller_state | Retry string | Escape exc

text \<open>The code's own exception, and those it lets through.\<close>

datatype failure = ReconciliationError string | Uncaught exc

section \<open>Calls\<close>

text \<open>\<open>_state(api, name)\<close>.\<close>

definition get_state :: "'w manager_api \<Rightarrow> string \<Rightarrow> 'w session \<Rightarrow> 'w session \<times> controller_state option reply" where
  "get_state api name s =
     (let (w, r) = am_list api (se_world s); found = map_reply (\<lambda>cs. cs name) r
      in (s\<lparr>se_world := w, se_calls := se_calls s @ [Listed found]\<rparr>, found))"

definition change ::
  "(string \<Rightarrow> 'w \<Rightarrow> 'w \<times> bool reply) \<Rightarrow> (bool reply \<Rightarrow> call) \<Rightarrow> string \<Rightarrow> 'w session \<Rightarrow> 'w session \<times> bool reply" where
  "change operation note name s =
     (let (w, r) = operation name (se_world s)
      in (s\<lparr>se_world := w, se_calls := se_calls s @ [note r]\<rparr>, r))"

section \<open>One attempt\<close>

definition quoted :: "string \<Rightarrow> string \<Rightarrow> string" where
  "quoted name rest = ''controller '' @ repr_str name @ rest"

text \<open>The controller's state, after loading it when it is missing.\<close>

definition ensure_loaded :: "'w manager_api \<Rightarrow> string \<Rightarrow> 'w session \<Rightarrow> 'w session \<times> controller_state section_result" where
  "ensure_loaded api name s =
     (case get_state api name s of
        (s1, Timed_Out m) \<Rightarrow> (s1, Retry m)
      | (s1, Raised e) \<Rightarrow> (s1, Escape e)
      | (s1, Replied (Some current)) \<Rightarrow> (s1, Go current)
      | (s1, Replied None) \<Rightarrow>
          (case change (am_load api) Loaded name s1 of
             (s2, Raised e) \<Rightarrow> (s2, Escape e)
           | (s2, _) \<Rightarrow>
               (case get_state api name s2 of
                  (s3, Timed_Out m) \<Rightarrow> (s3, Retry m)
                | (s3, Raised e) \<Rightarrow> (s3, Escape e)
                | (s3, Replied None) \<Rightarrow> (s3, Retry (quoted name '' was not loaded''))
                | (s3, Replied (Some current)) \<Rightarrow> (s3, Go current))))"

definition ensure_configured ::
  "'w manager_api \<Rightarrow> string \<Rightarrow> controller_state \<Rightarrow> 'w session \<Rightarrow> 'w session \<times> controller_state section_result" where
  "ensure_configured api name current s =
     (if cn_state current = ''active'' then (s, Proven current)
      else if cn_state current \<noteq> ''unconfigured'' then (s, Go current)
      else case change (am_configure api) Configured name s of
        (s1, Raised e) \<Rightarrow> (s1, Escape e)
      | (s1, r) \<Rightarrow>
          let configured = (r = Replied True) in
          (case get_state api name s1 of
             (s2, Timed_Out m) \<Rightarrow> (s2, Retry m)
           | (s2, Raised e) \<Rightarrow> (s2, Escape e)
           | (s2, Replied None) \<Rightarrow> (s2, Retry (quoted name '' disappeared after configure''))
           | (s2, Replied (Some now)) \<Rightarrow>
               if cn_state now = ''active'' then (s2, Proven now)
               else if \<not> configured \<and> cn_state now \<notin> {''inactive'', ''active''}
               then (s2, Retry (quoted name ('' configure failed in state '' @ repr_str (cn_state now))))
               else (s2, Go now)))"

definition ensure_active ::
  "'w manager_api \<Rightarrow> string \<Rightarrow> controller_state \<Rightarrow> 'w session \<Rightarrow> 'w session \<times> controller_state section_result" where
  "ensure_active api name current s =
     (if cn_state current \<noteq> ''inactive''
      then (s, Retry (quoted name ('' is in unsupported state '' @ repr_str (cn_state current))))
      else case change (am_activate api) Activated name s of
        (s1, Raised e) \<Rightarrow> (s1, Escape e)
      | (s1, r) \<Rightarrow>
          let activated = (r = Replied True) in
          (case get_state api name s1 of
             (s2, Timed_Out m) \<Rightarrow> (s2, Retry m)
           | (s2, Raised e) \<Rightarrow> (s2, Escape e)
           | (s2, Replied now) \<Rightarrow>
               if (case now of None \<Rightarrow> False | Some c \<Rightarrow> cn_state c = ''active'') then (s2, Proven (the now))
               else if \<not> activated then (s2, Retry (quoted name '' activate failed''))
               else (s2, Retry (case now of
                       None \<Rightarrow> quoted name '' disappeared after activate''
                     | Some c \<Rightarrow> quoted name ('' remained in state '' @ repr_str (cn_state c))))))"

definition and_then ::
  "'w session \<times> 'a section_result \<Rightarrow> ('a \<Rightarrow> 'w session \<Rightarrow> 'w session \<times> 'a section_result) \<Rightarrow> 'w session \<times> 'a section_result" where
  "and_then sr k = (case sr of (s, Go x) \<Rightarrow> k x s | other \<Rightarrow> other)"

definition attempt :: "'w manager_api \<Rightarrow> string \<Rightarrow> 'w session \<Rightarrow> 'w session \<times> controller_state section_result" where
  "attempt api name s =
     and_then (and_then (ensure_loaded api name s) (ensure_configured api name)) (ensure_active api name)"

section \<open>Reconciliation\<close>

fun attempt_loop ::
  "'w manager_api \<Rightarrow> string \<Rightarrow> nat \<Rightarrow> string \<Rightarrow> 'w session \<Rightarrow> 'w session \<times> (failure + controller_state)" where
  "attempt_loop api name 0 last_error s = (s, Inl (ReconciliationError last_error))"
| "attempt_loop api name (Suc n) last_error s =
     (case attempt api name s of
        (s1, Proven current) \<Rightarrow> (s1, Inr current)
      | (s1, Retry e) \<Rightarrow> attempt_loop api name n e s1
      | (s1, Escape e) \<Rightarrow> (s1, Inl (Uncaught e))
      | (s1, Go current) \<Rightarrow> attempt_loop api name n last_error s1)"

definition reconcile_controller ::
  "'w manager_api \<Rightarrow> string \<Rightarrow> int \<Rightarrow> 'w session \<Rightarrow> 'w session \<times> (failure + controller_state)" where
  "reconcile_controller api name attempts s =
     (if attempts < 1 then (s, Inl (Uncaught (ValueError ''attempts must be positive'')))
      else attempt_loop api name (nat attempts) ''no controller-manager state'' s)"

text \<open>The controllers of the command line in order; the first that fails ends it.\<close>

fun reconcile_all :: "'w manager_api \<Rightarrow> string list \<Rightarrow> int \<Rightarrow> 'w session \<Rightarrow> 'w session \<times> (failure + unit)" where
  "reconcile_all api [] attempts s = (s, Inr ())"
| "reconcile_all api (name # names) attempts s =
     (case reconcile_controller api name attempts s of
        (s1, Inl e) \<Rightarrow> (s1, Inl e)
      | (s1, Inr _) \<Rightarrow> reconcile_all api names attempts s1)"

section \<open>Calling a service\<close>

text \<open>\<open>RosControllerManagerApi._call\<close>: whether the service was discovered, then for each round of the
  loop whether the future is done and the clock otherwise. \<open>None\<close> is a call that still waits
  after these rounds.\<close>

fun await_future :: "string \<Rightarrow> pyfloat \<Rightarrow> (bool \<times> pyfloat) list \<Rightarrow> 'a reply \<Rightarrow> 'a reply option" where
  "await_future service deadline [] response = None"
| "await_future service deadline ((done, now) # rounds) response =
     (if done then Some response
      else if fle (fsub deadline now) (Fin 0) then Some (Timed_Out (''service '' @ service @ '' timed out''))
      else await_future service deadline rounds response)"

definition service_call ::
  "string \<Rightarrow> pyfloat \<Rightarrow> pyfloat \<Rightarrow> bool \<Rightarrow> (bool \<times> pyfloat) list \<Rightarrow> 'a reply \<Rightarrow> 'a reply option" where
  "service_call service timeout start discovered rounds response =
     (if \<not> discovered then Some (Timed_Out (''service '' @ service @ '' unavailable''))
      else await_future service (fadd start timeout) rounds response)"

section \<open>The readiness parameter\<close>

text \<open>The value and the figure of the timeout in the error text are left out. One round of the loop of
  \<open>set_remote_parameter\<close>: the clock at its head, and how it went: the
  service was not discovered, the update ran out of time, an error was raised, or the service
  answered with the success and reason of each result.\<close>

datatype set_round =
    Undiscovered
  | Update_Timed_Out
  | Set_Raised string
  | Answered "(bool \<times> string) list"

fun set_loop :: "pyfloat \<Rightarrow> (pyfloat \<times> set_round) list \<Rightarrow> string \<Rightarrow> (string, unit) sum option" where
  "set_loop deadline [] last_error = None"
| "set_loop deadline ((now, event) # rounds) last_error =
     (if \<not> flt now deadline then Some (Inl last_error)
      else case event of
        Undiscovered \<Rightarrow> set_loop deadline rounds last_error
      | Update_Timed_Out \<Rightarrow> set_loop deadline rounds ''parameter update timed out''
      | Set_Raised e \<Rightarrow> set_loop deadline rounds e
      | Answered results \<Rightarrow>
          if results \<noteq> [] \<and> list_all fst results then Some (Inr ())
          else set_loop deadline rounds
                 (''parameter update rejected: '' @
                    (case results of [] \<Rightarrow> ''empty parameter response'' | (ok, reason) # _ \<Rightarrow> reason)))"

definition set_remote_parameter ::
  "string \<Rightarrow> string \<Rightarrow> pyfloat \<Rightarrow> pyfloat \<Rightarrow> (pyfloat \<times> set_round) list \<Rightarrow> (failure + unit) option" where
  "set_remote_parameter remote_node parameter timeout start rounds =
     (if fle timeout (Fin 0) then Some (Inl (Uncaught (ValueError ''readiness timeout must be positive'')))
      else
        let node = (if startswith remote_node ''/'' then remote_node else CHR ''/'' # remote_node)
        in map_option (\<lambda>r. case r of
               Inl e \<Rightarrow> Inl (ReconciliationError (''could not set '' @ node @ ''.'' @ parameter @ '': '' @ e))
             | Inr _ \<Rightarrow> Inr ())
             (set_loop (fadd start timeout) rounds (''parameter service for '' @ node @ '' was not discovered'')))"

section \<open>The process\<close>

definition parse_bool :: "string \<Rightarrow> bool res" where
  "parse_bool text =
     (let normalized = py_lower (py_strip text) in
      if normalized \<in> {''1'', ''true'', ''yes'', ''on''} then Inr True
      else if normalized \<in> {''0'', ''false'', ''no'', ''off''} then Inr False
      else Inl (OtherError (''invalid boolean value: '' @ repr_str text)))"

definition DEFAULT_TEARDOWN_TIMEOUT_S :: pyfloat where "DEFAULT_TEARDOWN_TIMEOUT_S = Fin 5"

text \<open>\<open>float_of\<close> is the builtin's reading of a string.\<close>

definition teardown_timeout_default :: "(string \<Rightarrow> pyfloat option) \<Rightarrow> string option \<Rightarrow> pyfloat" where
  "teardown_timeout_default float_of raw =
     (case raw of
        None \<Rightarrow> DEFAULT_TEARDOWN_TIMEOUT_S
      | Some text \<Rightarrow>
          if py_strip text = [] then DEFAULT_TEARDOWN_TIMEOUT_S
          else (case float_of text of None \<Rightarrow> DEFAULT_TEARDOWN_TIMEOUT_S | Some t \<Rightarrow> t))"

text \<open>How the process ends: it returns its code, or it is forced to exit with it, or an exception
  leaves it.\<close>

datatype process_end = Returned int | Forced_Exit int | Crashed exc

definition bounded_teardown :: "bool \<Rightarrow> int \<Rightarrow> process_end" where
  "bounded_teardown completed exit_code = (if completed then Returned exit_code else Forced_Exit exit_code)"

text \<open>\<open>_run\<close>: the option is the readiness node with its optional parameter, \<open>set_result\<close> what setting it
  came to. An exception that is not handled leaves after the teardown.\<close>

definition run_reconciler ::
  "'w manager_api \<Rightarrow> string list \<Rightarrow> int \<Rightarrow> (string \<times> string option) option \<Rightarrow> failure + unit \<Rightarrow> bool \<Rightarrow> 'w session
     \<Rightarrow> 'w session \<times> process_end" where
  "run_reconciler api names attempts ready set_result torn_down s =
     (let (s1, r) = reconcile_all api names attempts s;
          outcome = (case r of
              Inl e \<Rightarrow> Inl e
            | Inr _ \<Rightarrow>
                (case ready of
                   None \<Rightarrow> Inr ()
                 | Some (node, parameter) \<Rightarrow>
                     if node = [] then Inr ()
                     else if parameter = None \<or> parameter = Some []
                     then Inl (Uncaught (ValueError ''--ready-parameter is required with --ready-node''))
                     else set_result))
      in (s1, case outcome of
                Inr _ \<Rightarrow> bounded_teardown torn_down 0
              | Inl e \<Rightarrow>
                  (case bounded_teardown torn_down 1 of
                     Forced_Exit rc \<Rightarrow> Forced_Exit rc
                   | ended \<Rightarrow> (case e of
                          ReconciliationError _ \<Rightarrow> ended
                        | Uncaught (ValueError _) \<Rightarrow> ended
                        | Uncaught e' \<Rightarrow> Crashed e'))))"

end
