(* ===== verification/Reconciler_Safety.thy ===== *)
theory Reconciler_Safety
  imports Controller_Reconciler
begin

text \<open>
  Reconciling controllers: success is proven by a listing, every change answers a listing, and a
  manager that loses few operations is brought to the active state.
\<close>

section \<open>Discipline of the calls\<close>

text \<open>A change is made directly after a listing that asks for it.\<close>

fun disciplined :: "controller_state option reply option \<Rightarrow> call list \<Rightarrow> bool" where
  "disciplined seen [] = True"
| "disciplined seen (Listed r # cs) = disciplined (Some r) cs"
| "disciplined seen (Loaded r # cs) = (seen = Some (Replied None) \<and> disciplined None cs)"
| "disciplined seen (Configured r # cs) =
     ((case seen of Some (Replied (Some c)) \<Rightarrow> cn_state c = ''unconfigured'' | _ \<Rightarrow> False) \<and> disciplined None cs)"
| "disciplined seen (Activated r # cs) =
     ((case seen of Some (Replied (Some c)) \<Rightarrow> cn_state c = ''inactive'' | _ \<Rightarrow> False) \<and> disciplined None cs)"

definition seen_by :: "controller_state option reply option \<Rightarrow> call list \<Rightarrow> controller_state option reply option" where
  "seen_by seen cs = foldl (\<lambda>p c. case c of Listed r \<Rightarrow> Some r | _ \<Rightarrow> None) seen cs"

lemma seen_by_simps [simp]:
  "seen_by p [] = p"
  "seen_by p (c # cs) = seen_by (case c of Listed r \<Rightarrow> Some r | _ \<Rightarrow> None) cs"
  by (simp_all add: seen_by_def)

lemma disciplined_append: "disciplined p (xs @ ys) \<longleftrightarrow> disciplined p xs \<and> disciplined (seen_by p xs) ys"
  by (induction p xs rule: disciplined.induct) auto

text \<open>What a section adds to the calls after a listing \<open>seen\<close>, at most \<open>n\<close> of them.\<close>

definition adds :: "nat \<Rightarrow> controller_state option reply option \<Rightarrow> 'w session \<Rightarrow> 'w session \<times> controller_state section_result \<Rightarrow> bool" where
  "adds n seen s sr \<longleftrightarrow>
     (\<exists>new. se_calls (fst sr) = se_calls s @ new \<and> length new \<le> n \<and> disciplined seen new
        \<and> (\<forall>c. snd sr = Go c \<longrightarrow> seen_by seen new = Some (Replied (Some c)))
        \<and> (\<forall>c. snd sr = Proven c \<longrightarrow> cn_state c = ''active'' \<and> seen_by seen new = Some (Replied (Some c))))"

lemma get_state_calls:
  "get_state api name s = (s1, r) \<Longrightarrow> se_calls s1 = se_calls s @ [Listed r]"
  by (auto simp: get_state_def Let_def split: prod.splits)

lemma change_calls:
  "change op note name s = (s1, r) \<Longrightarrow> se_calls s1 = se_calls s @ [note r]"
  by (auto simp: change_def split: prod.splits)

lemma loaded_adds: "adds 3 None s (ensure_loaded api name s)"
  by (auto simp: adds_def ensure_loaded_def dest!: get_state_calls change_calls
      split: prod.split reply.split option.split)

lemma configured_adds: "adds 2 (Some (Replied (Some current))) s (ensure_configured api name current s)"
  by (auto simp: adds_def ensure_configured_def Let_def dest!: get_state_calls change_calls
      split: prod.split reply.split option.split)

lemma active_adds: "adds 2 (Some (Replied (Some current))) s (ensure_active api name current s)"
  by (auto simp: adds_def ensure_active_def Let_def dest!: get_state_calls change_calls
      split: prod.split reply.split option.split)

lemma and_then_adds:
  assumes "adds m seen s sr" "\<And>c s1. adds n (Some (Replied (Some c))) s1 (k c s1)"
  shows "adds (m + n) seen s (and_then sr k)"
proof (cases "\<exists>c. snd sr = Go c")
  case True
  then obtain s1 c where sr: "sr = (s1, Go c)" by (metis prod.collapse)
  obtain a where a: "se_calls s1 = se_calls s @ a" "length a \<le> m" "disciplined seen a"
      "seen_by seen a = Some (Replied (Some c))"
    using assms(1) by (auto simp: adds_def sr)
  obtain b where b: "se_calls (fst (k c s1)) = se_calls s1 @ b" "length b \<le> n"
      "disciplined (Some (Replied (Some c))) b"
      "\<forall>d. snd (k c s1) = Go d \<longrightarrow> seen_by (Some (Replied (Some c))) b = Some (Replied (Some d))"
      "\<forall>d. snd (k c s1) = Proven d \<longrightarrow> cn_state d = ''active''
         \<and> seen_by (Some (Replied (Some c))) b = Some (Replied (Some d))"
    using assms(2) [of c s1] by (auto simp: adds_def)
  have "seen_by seen (a @ b) = seen_by (Some (Replied (Some c))) b"
    using a(4) by (simp add: seen_by_def)
  then show ?thesis using a b
    by (auto simp: adds_def and_then_def sr disciplined_append intro!: exI [of _ "a @ b"])
next
  case False
  then have "and_then sr k = sr" by (cases sr; cases "snd sr") (auto simp: and_then_def)
  then show ?thesis using assms(1) by (auto simp: adds_def)
qed

lemma attempt_adds: "adds 7 None s (attempt api name s)"
  unfolding attempt_def
  using and_then_adds [OF and_then_adds [OF loaded_adds configured_adds] active_adds] by simp

lemma attempt_not_go: "snd (attempt api name s) \<noteq> Go c"
  by (auto simp: attempt_def and_then_def ensure_active_def Let_def split: prod.split reply.split section_result.split)

lemma seen_last: "seen_by None new = Some r \<Longrightarrow> new \<noteq> [] \<and> last new = Listed r"
  by (cases new rule: rev_cases) (auto simp: seen_by_def split: call.splits)

lemma disciplined_weaken: "disciplined None new \<Longrightarrow> disciplined seen new"
  by (cases new; cases "hd new") auto

lemma loop_adds:
  assumes "attempt_loop api name n e s = (s', r)"
  shows "\<exists>new. se_calls s' = se_calls s @ new \<and> length new \<le> 7 * n \<and> disciplined None new
     \<and> (\<forall>c. r = Inr c \<longrightarrow> cn_state c = ''active'' \<and> new \<noteq> [] \<and> last new = Listed (Replied (Some c)))"
  using assms
proof (induction n arbitrary: e s)
  case (Suc n)
  obtain s1 x where at: "attempt api name s = (s1, x)" by force
  obtain a where a: "se_calls s1 = se_calls s @ a" "length a \<le> 7" "disciplined None a"
      "\<forall>c. x = Proven c \<longrightarrow> cn_state c = ''active'' \<and> a \<noteq> [] \<and> last a = Listed (Replied (Some c))"
    using attempt_adds [of s api name] seen_last by (auto simp: adds_def at)
  show ?case
  proof (cases x)
    case (Retry m)
    then have "attempt_loop api name n m s1 = (s', r)" using Suc.prems at by simp
    from Suc.IH [OF this] obtain b where b: "se_calls s' = se_calls s1 @ b" "length b \<le> 7 * n" "disciplined None b"
        "\<forall>c. r = Inr c \<longrightarrow> cn_state c = ''active'' \<and> b \<noteq> [] \<and> last b = Listed (Replied (Some c))" by blast
    then show ?thesis using a
      by (intro exI [of _ "a @ b"]) (auto simp: disciplined_append disciplined_weaken)
  next
    case (Go c)
    then show ?thesis using attempt_not_go [of api name s c] at by simp
  qed (use a Suc.prems at in auto)
qed auto

text \<open>C20: A controller is reported active only when the listing made last shows it active, whatever the
  controller manager answers. A load is requested only directly after a listing without the
  controller, a configuration only directly after a listing that shows it unconfigured, an
  activation only directly after a listing that shows it inactive; and no more than seven calls
  are made for each attempt.\<close>
theorem reconcile_proves_active:
  assumes "reconcile_controller api name attempts s = (s', r)"
  shows "\<exists>new. se_calls s' = se_calls s @ new \<and> length new \<le> 7 * nat attempts \<and> disciplined None new
     \<and> (\<forall>c. r = Inr c \<longrightarrow> cn_state c = ''active'' \<and> new \<noteq> [] \<and> last new = Listed (Replied (Some c)))"
  using assms loop_adds [of api name "nat attempts" "''no controller-manager state''" s s' r]
  by (cases "attempts < 1") (auto simp: reconcile_controller_def)

section \<open>A manager that loses few operations\<close>

definition effective :: "(controller_state option \<Rightarrow> controller_state option) \<Rightarrow> ('w \<Rightarrow> controller_state option) \<Rightarrow> ('w \<Rightarrow> nat)
    \<Rightarrow> 'w \<Rightarrow> 'w \<times> bool reply \<Rightarrow> bool" where
  "effective f st losses w wr \<longleftrightarrow>
     (\<forall>e. snd wr \<noteq> Raised e) \<and>
     (st (fst wr) = f (st w) \<and> losses (fst wr) \<le> losses w
      \<or> st (fst wr) = st w \<and> losses (fst wr) < losses w)"

text \<open>A listing tells the truth or times out; a change takes effect or is lost, and may answer anything.
  Every time-out of a listing and every lost change uses up one of \<open>losses\<close>.\<close>

definition lossy_manager ::
  "'w manager_api \<Rightarrow> string \<Rightarrow> ('w \<Rightarrow> controller_state option) \<Rightarrow> ('w \<Rightarrow> nat) \<Rightarrow> bool" where
  "lossy_manager api name st losses \<longleftrightarrow>
     (\<forall>w. case am_list api w of
        (w', Replied cs) \<Rightarrow> cs name = st w \<and> st w' = st w \<and> losses w' \<le> losses w
      | (w', Timed_Out m) \<Rightarrow> st w' = st w \<and> losses w' < losses w
      | (w', Raised e) \<Rightarrow> False) \<and>
     (\<forall>w c. st w = Some c \<longrightarrow> cn_state c \<in> {''unconfigured'', ''inactive'', ''active''}) \<and>
     (\<forall>w. st w = None \<longrightarrow> effective (\<lambda>_. Some \<lparr>cn_name = name, cn_state = ''unconfigured''\<rparr>) st losses w (am_load api name w)) \<and>
     (\<forall>w c. st w = Some c \<and> cn_state c = ''unconfigured'' \<longrightarrow>
        effective (\<lambda>_. Some \<lparr>cn_name = name, cn_state = ''inactive''\<rparr>) st losses w (am_configure api name w)) \<and>
     (\<forall>w c. st w = Some c \<and> cn_state c = ''inactive'' \<longrightarrow>
        effective (\<lambda>_. Some \<lparr>cn_name = name, cn_state = ''active''\<rparr>) st losses w (am_activate api name w))"

lemma get_lossy:
  assumes "lossy_manager api name st losses" "get_state api name s = (s1, r)"
  shows "(r = Replied (st (se_world s)) \<and> losses (se_world s1) \<le> losses (se_world s)
      \<or> (\<exists>m. r = Timed_Out m) \<and> losses (se_world s1) < losses (se_world s))
    \<and> st (se_world s1) = st (se_world s)"
proof -
  obtain w l where l: "am_list api (se_world s) = (w, l)" by force
  have "case (w, l) of (w', Replied cs) \<Rightarrow> cs name = st (se_world s) \<and> st w' = st (se_world s) \<and> losses w' \<le> losses (se_world s)
      | (w', Timed_Out m) \<Rightarrow> st w' = st (se_world s) \<and> losses w' < losses (se_world s) | (w', Raised e) \<Rightarrow> False"
    using assms(1) [unfolded lossy_manager_def, THEN conjunct1, THEN spec, of "se_world s"] unfolding l .
  then show ?thesis using assms(2) l by (cases l) (auto simp: get_state_def Let_def)
qed

lemma change_lossy:
  assumes "effective f st losses (se_world s) (op name (se_world s))" "change op note name s = (s1, r)"
  shows "(\<forall>e. r \<noteq> Raised e) \<and> (st (se_world s1) = f (st (se_world s)) \<and> losses (se_world s1) \<le> losses (se_world s)
      \<or> st (se_world s1) = st (se_world s) \<and> losses (se_world s1) < losses (se_world s))"
proof -
  have "op name (se_world s) = (se_world s1, r)"
    using assms(2) by (cases "op name (se_world s)") (auto simp: change_def)
  then show ?thesis using assms(1) unfolding effective_def by (metis fst_conv snd_conv)
qed

text \<open>How far a section got: the next one runs in the state it reports, or a loss was used up.\<close>

definition advances ::
  "('w \<Rightarrow> controller_state option) \<Rightarrow> ('w \<Rightarrow> nat) \<Rightarrow> 'w session \<Rightarrow> 'w session \<times> controller_state section_result \<Rightarrow> string set \<Rightarrow> bool" where
  "advances st losses s sr ok \<longleftrightarrow>
     (case snd sr of
        Go c \<Rightarrow> st (se_world (fst sr)) = Some c \<and> losses (se_world (fst sr)) \<le> losses (se_world s)
                  \<and> (cn_state c \<in> ok \<or> losses (se_world (fst sr)) < losses (se_world s))
      | Proven c \<Rightarrow> st (se_world (fst sr)) = Some c \<and> losses (se_world (fst sr)) \<le> losses (se_world s)
      | Retry m \<Rightarrow> losses (se_world (fst sr)) < losses (se_world s)
      | Escape e \<Rightarrow> False)"

lemma loaded_advances:
  assumes m: "lossy_manager api name st losses"
  shows "advances st losses s (ensure_loaded api name s) {''unconfigured'', ''inactive'', ''active''}"
proof -
  obtain s1 r1 where g1: "get_state api name s = (s1, r1)" by force
  obtain s2 r2 where c: "change (am_load api) Loaded name s1 = (s2, r2)" by force
  obtain s3 r3 where g3: "get_state api name s2 = (s3, r3)" by force
  note f1 = get_lossy [OF m g1] and f3 = get_lossy [OF m g3]
  have load: "st (se_world s1) = None \<Longrightarrow> effective (\<lambda>_. Some \<lparr>cn_name = name, cn_state = ''unconfigured''\<rparr>) st losses
      (se_world s1) (am_load api name (se_world s1))"
    and ok: "st w = Some c \<Longrightarrow> cn_state c \<in> {''unconfigured'', ''inactive'', ''active''}" for w c
    using m unfolding lossy_manager_def by blast+
  show ?thesis
  proof (cases "r1 = Replied None")
    case True
    then have "st (se_world s1) = None" using f1 by auto
    note f2 = change_lossy [OF load [OF this] c]
    show ?thesis using True f1 f2 f3 ok [of "se_world s3"] g1 c g3
      by (auto simp: advances_def ensure_loaded_def split: reply.split option.split)
  next
    case False
    then show ?thesis using f1 g1 ok [of "se_world s1"]
      by (auto simp: advances_def ensure_loaded_def split: reply.split option.split)
  qed
qed

lemma configured_advances:
  assumes m: "lossy_manager api name st losses" and st: "st (se_world s) = Some current"
  shows "advances st losses s (ensure_configured api name current s) {''inactive''}"
proof -
  obtain s1 r1 where c: "change (am_configure api) Configured name s = (s1, r1)" by force
  obtain s2 r2 where g: "get_state api name s1 = (s2, r2)" by force
  note f2 = get_lossy [OF m g]
  have conf: "cn_state current = ''unconfigured'' \<Longrightarrow> effective (\<lambda>_. Some \<lparr>cn_name = name, cn_state = ''inactive''\<rparr>) st losses
      (se_world s) (am_configure api name (se_world s))"
    and ok: "cn_state current \<in> {''unconfigured'', ''inactive'', ''active''}"
    using m st unfolding lossy_manager_def by blast+
  show ?thesis
  proof (cases "cn_state current = ''unconfigured''")
    case True
    note f1 = change_lossy [OF conf [OF True] c]
    show ?thesis using True f1 f2 c g st
      by (auto simp: advances_def ensure_configured_def Let_def split: reply.split option.split)
  next
    case False
    then show ?thesis using st ok by (auto simp: advances_def ensure_configured_def)
  qed
qed

lemma active_advances:
  assumes m: "lossy_manager api name st losses" and st: "st (se_world s) = Some current"
    and i: "cn_state current = ''inactive''"
  shows "advances st losses s (ensure_active api name current s) {}"
proof -
  obtain s1 r1 where c: "change (am_activate api) Activated name s = (s1, r1)" by force
  obtain s2 r2 where g: "get_state api name s1 = (s2, r2)" by force
  note f2 = get_lossy [OF m g]
  have act: "effective (\<lambda>_. Some \<lparr>cn_name = name, cn_state = ''active''\<rparr>) st losses
      (se_world s) (am_activate api name (se_world s))"
    using m st i unfolding lossy_manager_def by blast
  note f1 = change_lossy [OF act c]
  show ?thesis using f1 f2 c g st i
    by (auto simp: advances_def ensure_active_def Let_def split: reply.split option.split)
qed

lemma unsupported_retries: "cn_state c \<noteq> ''inactive'' \<Longrightarrow> \<exists>m. ensure_active api name c s = (s, Retry m)"
  by (simp add: ensure_active_def)

text \<open>An attempt proves the controller active or uses up a loss.\<close>

lemma attempt_advances:
  assumes m: "lossy_manager api name st losses" and at: "attempt api name s = (s1, x)"
  shows "(\<exists>c. x = Proven c \<and> st (se_world s1) = Some c) \<and> losses (se_world s1) \<le> losses (se_world s)
    \<or> (\<exists>e. x = Retry e) \<and> losses (se_world s1) < losses (se_world s)"
proof -
  obtain sa xa where l: "ensure_loaded api name s = (sa, xa)" by force
  have la: "advances st losses s (sa, xa) {''unconfigured'', ''inactive'', ''active''}"
    using loaded_advances [OF m, of s] l by simp
  show ?thesis
  proof (cases xa)
    case (Go c)
    then have sta: "st (se_world sa) = Some c" and less: "losses (se_world sa) \<le> losses (se_world s)"
      using la by (auto simp: advances_def)
    obtain sb xb where f: "ensure_configured api name c sa = (sb, xb)" by force
    have fa: "advances st losses sa (sb, xb) {''inactive''}" using configured_advances [OF m sta] f by simp
    show ?thesis
    proof (cases xb)
      case (Go d)
      then have stb: "st (se_world sb) = Some d" using fa by (simp add: advances_def)
      have a: "ensure_active api name d sb = (s1, x)" using at l f \<open>xa = Go c\<close> Go by (simp add: attempt_def and_then_def)
      show ?thesis
      proof (cases "cn_state d = ''inactive''")
        case True
        have "advances st losses sb (s1, x) {}" using active_advances [OF m stb True] a by simp
        then show ?thesis using less fa Go attempt_not_go [of api name s] at
          by (auto simp: advances_def split: section_result.splits)
      next
        case False
        then show ?thesis using unsupported_retries [of d api name sb] a less fa Go by (auto simp: advances_def)
      qed
    qed (use at l f fa less Go in \<open>auto simp: attempt_def and_then_def advances_def\<close>)
  qed (use at l la in \<open>auto simp: attempt_def and_then_def advances_def\<close>)
qed

lemma loop_succeeds:
  assumes m: "lossy_manager api name st losses" and n: "losses (se_world s) < n"
  shows "\<exists>s' c. attempt_loop api name n e s = (s', Inr c) \<and> st (se_world s') = Some c"
  using n
proof (induction n arbitrary: e s)
  case (Suc n)
  obtain s1 x where at: "attempt api name s = (s1, x)" by force
  from attempt_advances [OF m at] show ?case
  proof
    assume "(\<exists>e. x = Retry e) \<and> losses (se_world s1) < losses (se_world s)"
    then show ?thesis using Suc.IH [of s1] Suc.prems at by auto
  qed (use at in auto)
qed simp

text \<open>C21: A manager that loses operations is reconciled all the same. If at most as many listings time
  out and changes get lost as there are attempts less one, whatever the changes answer, then the
  reconciliation succeeds, and the controller it reports is the one the manager then runs, in its
  active state.\<close>
theorem reconcile_succeeds:
  assumes "lossy_manager api name st losses" and "int (losses (se_world s)) < attempts"
  shows "\<exists>s' c. reconcile_controller api name attempts s = (s', Inr c)
     \<and> st (se_world s') = Some c \<and> cn_state c = ''active''"
proof -
  have "losses (se_world s) < nat attempts" using assms(2) by simp
  from loop_succeeds [OF assms(1) this] obtain s' c where
    l: "attempt_loop api name (nat attempts) ''no controller-manager state'' s = (s', Inr c)" "st (se_world s') = Some c"
    by blast
  then show ?thesis using assms(2) loop_adds [OF l(1)] by (auto simp: reconcile_controller_def)
qed

section \<open>A manager with one controller\<close>

text \<open>The manager's state: how far its controller came, and how many of the next changes it loses.
  Changes always answer false.\<close>

type_synonym slow_world = "nat \<times> nat"

definition stage :: "string \<Rightarrow> nat \<Rightarrow> controller_state option" where
  "stage name n =
     (if n = 0 then None
      else Some \<lparr>cn_name = name, cn_state = (if n = 1 then ''unconfigured'' else if n = 2 then ''inactive'' else ''active'')\<rparr>)"

definition slow_change :: "nat \<Rightarrow> slow_world \<Rightarrow> slow_world \<times> bool reply" where
  "slow_change to w = (if snd w = 0 then ((to, 0), Replied False) else ((fst w, snd w - 1), Timed_Out ''lost''))"

definition slow_manager :: "string \<Rightarrow> slow_world manager_api" where
  "slow_manager name =
     \<lparr>am_list = (\<lambda>w. (w, Replied ((\<lambda>_. None)(name := stage name (fst w))))),
      am_load = (\<lambda>n. slow_change 1), am_configure = (\<lambda>n. slow_change 2), am_activate = (\<lambda>n. slow_change 3)\<rparr>"

definition slow_start :: "slow_world session" where
  "slow_start = \<lparr>se_world = (0, 2), se_calls = []\<rparr>"

lemma reconcile_proves_active_witness:
  "case reconcile_controller (slow_manager ''arm'') ''arm'' 3 slow_start of
     (s', Inr c) \<Rightarrow> cn_state c = ''active'' \<and> length (se_calls s') \<le> 21 | _ \<Rightarrow> False"
proof -
  obtain s' r where r: "reconcile_controller (slow_manager ''arm'') ''arm'' 3 slow_start = (s', r)" by force
  have "case reconcile_controller (slow_manager ''arm'') ''arm'' 3 slow_start of (s', Inr c) \<Rightarrow> True | _ \<Rightarrow> False"
    by code_simp
  then obtain c where "r = Inr c" using r by (auto split: sum.splits)
  then show ?thesis using reconcile_proves_active [OF r] r by (auto simp: slow_start_def)
qed

lemma slow_manager_lossy: "lossy_manager (slow_manager name) name (\<lambda>w. stage name (fst w)) snd"
  by (auto simp: lossy_manager_def slow_manager_def effective_def slow_change_def stage_def split: if_splits)

lemma reconcile_succeeds_witness:
  "\<exists>s' c. reconcile_controller (slow_manager ''arm'') ''arm'' 3 slow_start = (s', Inr c)
     \<and> stage ''arm'' (fst (se_world s')) = Some c \<and> cn_state c = ''active''"
  using reconcile_succeeds [OF slow_manager_lossy [of "''arm''"], of slow_start 3]
  by (simp add: slow_start_def)

text \<open>An active controller is left alone: one listing, no change.\<close>

lemma active_is_left_alone:
  assumes "get_state api name s = (s1, Replied (Some c))" "cn_state c = ''active''" "1 \<le> attempts"
  shows "reconcile_controller api name attempts s = (s1, Inr c)"
proof -
  have "attempt api name s = (s1, Proven c)"
    using assms(1,2) by (simp add: attempt_def and_then_def ensure_loaded_def ensure_configured_def)
  then show ?thesis using assms(3) by (cases "nat attempts") (auto simp: reconcile_controller_def)
qed

section \<open>Waiting and ending\<close>

text \<open>A service call returns as soon as its future is done or the clock reaches its deadline.\<close>

lemma service_call_returns:
  assumes "(done, now) \<in> set rounds" "done \<or> fle (fsub (fadd start timeout) now) (Fin 0)"
  shows "service_call service timeout start discovered rounds response \<noteq> None"
proof -
  have "await_future service deadline rounds response \<noteq> None"
    if "(done, now) \<in> set rounds" "done \<or> fle (fsub deadline now) (Fin 0)" for deadline
    using that by (induction service deadline rounds response rule: await_future.induct) auto
  then show ?thesis using assms by (auto simp: service_call_def)
qed


end
