(* ===== verification/Base_Parity.thy ===== *)
theory Base_Parity
  imports Sim_Prelude
begin

text \<open>
  The mobile base: its calibration (\<open>tinker_sim_core/calibration.py\<close>), the command and odometry model
  (\<open>tinker_sim_core/base.py\<close>) and the ROS node around it (\<open>base_facade.py\<close>). Reading and parsing the
  calibration file is left out: its JSON value is an argument, as are the builtins \<open>float\<close> and
  \<open>str\<close> on JSON values. \<open>math.cos\<close>, \<open>math.sin\<close> and \<open>math.atan2\<close> round; they are arguments too, and
  raise for an infinite angle as in Python.
\<close>

section \<open>Calibration\<close>

datatype calibration_status = MISSING | CALIBRATED

record calibration =
  ca_status :: calibration_status
  ca_profile :: string
  ca_radius :: pyfloat
  ca_track :: pyfloat
  ca_timeout :: pyfloat
  ca_max_linear :: pyfloat
  ca_max_angular :: pyfloat
  ca_rate :: pyfloat
  ca_latency :: pyfloat
  ca_linear_scale :: pyfloat
  ca_angular_scale :: pyfloat
  ca_linear_bias :: pyfloat
  ca_angular_bias :: pyfloat
  ca_var_xy :: pyfloat
  ca_var_yaw :: pyfloat
  ca_var_linear :: pyfloat
  ca_var_angular :: pyfloat
  ca_dataset :: "string option"

definition development_default :: calibration where
  "development_default =
     \<lparr>ca_status = MISSING, ca_profile = ''tinker2-development-uncalibrated'', ca_radius = Fin (525 / 10000),
      ca_track = Fin (1/4), ca_timeout = Fin (1/4), ca_max_linear = Fin (6/10), ca_max_angular = Fin 1,
      ca_rate = Fin 50, ca_latency = Fin 0, ca_linear_scale = Fin 1, ca_angular_scale = Fin 1,
      ca_linear_bias = Fin 0, ca_angular_bias = Fin 0, ca_var_xy = Fin 0, ca_var_yaw = Fin 0,
      ca_var_linear = Fin 0, ca_var_angular = Fin 0, ca_dataset = None\<rparr>"

definition positive_fields :: "calibration \<Rightarrow> (string \<times> pyfloat) list" where
  "positive_fields c =
     [(''wheel_radius_m'', ca_radius c), (''wheel_track_m'', ca_track c), (''command_timeout_s'', ca_timeout c),
      (''max_linear_mps'', ca_max_linear c), (''max_angular_rps'', ca_max_angular c), (''odom_rate_hz'', ca_rate c)]"

definition has_dataset :: "calibration \<Rightarrow> bool" where
  "has_dataset c \<longleftrightarrow> ca_dataset c \<noteq> None \<and> ca_dataset c \<noteq> Some []"

definition ca_validate :: "calibration \<Rightarrow> unit res" where
  "ca_validate c =
     (let bad = map fst (filter (\<lambda>(n, v). fle v (Fin 0)) (positive_fields c)) in
      if bad \<noteq> [] then Inl (ValueError (''calibration values must be positive: '' @ join_with '', '' bad))
      else if flt (ca_latency c) (Fin 0) then Inl (ValueError ''command_latency_s must be non-negative'')
      else if ca_status c = CALIBRATED \<and> \<not> has_dataset c
      then Inl (ValueError ''a calibrated profile requires dataset_sha256'')
      else Inr ())"

definition qualification_error :: "calibration \<Rightarrow> string option" where
  "qualification_error c =
     (if ca_status c \<noteq> CALIBRATED then Some ''Tinker 2 navigation calibration is missing''
      else if \<not> has_dataset c then Some ''calibration has no source dataset hash''
      else None)"

text \<open>\<open>load\<close> on the parsed file, or on none. The truth value of a JSON value decides about the hash.\<close>

definition required_float :: "(pyval \<Rightarrow> pyfloat res) \<Rightarrow> (string \<times> pyval) list \<Rightarrow> string \<Rightarrow> pyfloat res" where
  "required_float float_of model key =
     (case map_of model key of None \<Rightarrow> Inl (KeyError key) | Some v \<Rightarrow> float_of v)"

definition optional_float :: "(pyval \<Rightarrow> pyfloat res) \<Rightarrow> (string \<times> pyval) list \<Rightarrow> string \<times> pyfloat \<Rightarrow> pyfloat res" where
  "optional_float float_of model kd =
     (case map_of model (fst kd) of None \<Rightarrow> Inr (snd kd) | Some v \<Rightarrow> float_of v)"

fun all_floats :: "('a \<Rightarrow> pyfloat res) \<Rightarrow> 'a list \<Rightarrow> pyfloat list res" where
  "all_floats f [] = Inr []"
| "all_floats f (x # xs) =
     (case f x of Inl e \<Rightarrow> Inl e
      | Inr v \<Rightarrow> (case all_floats f xs of Inl e \<Rightarrow> Inl e | Inr vs \<Rightarrow> Inr (v # vs)))"

definition OPTIONAL_FIELDS :: "(string \<times> pyfloat) list" where
  "OPTIONAL_FIELDS =
     [(''command_timeout_s'', Fin (1/4)), (''max_linear_mps'', Fin (6/10)), (''max_angular_rps'', Fin 1),
      (''odom_rate_hz'', Fin 50), (''command_latency_s'', Fin 0), (''linear_scale'', Fin 1),
      (''angular_scale'', Fin 1), (''linear_bias_mps'', Fin 0), (''angular_bias_rps'', Fin 0),
      (''pose_variance_xy'', Fin 0), (''pose_variance_yaw'', Fin 0), (''twist_variance_linear'', Fin 0),
      (''twist_variance_angular'', Fin 0)]"

fun truthy :: "pyval \<Rightarrow> bool" where
  "truthy PNone = False"
| "truthy (PBool b) = b"
| "truthy (PInt i) = (i \<noteq> 0)"
| "truthy (PFloat x) = (\<not> feq x (Fin 0))"
| "truthy (PStr s) = (s \<noteq> [])"
| "truthy (PList xs) = (xs \<noteq> [])"
| "truthy (PDict xs) = (xs \<noteq> [])"

definition parse_status :: "string \<Rightarrow> calibration_status res" where
  "parse_status s =
     (if s = ''missing'' then Inr MISSING else if s = ''calibrated'' then Inr CALIBRATED
      else Inl (ValueError (repr_str s @ '' is not a valid CalibrationStatus'')))"

definition ca_load ::
  "(pyval \<Rightarrow> pyfloat res) \<Rightarrow> (pyval \<Rightarrow> string) \<Rightarrow> string \<Rightarrow> pyval option \<Rightarrow> calibration res" where
  "ca_load float_of str_of stem file =
     (case file of
        None \<Rightarrow> Inr development_default
      | Some (PDict raw) \<Rightarrow>
          (case parse_status (case map_of raw ''status'' of None \<Rightarrow> ''missing'' | Some v \<Rightarrow> str_of v) of
             Inl e \<Rightarrow> Inl e
           | Inr status \<Rightarrow>
               (case (case map_of raw ''base'' of None \<Rightarrow> PDict raw | Some v \<Rightarrow> v) of
                  PDict model \<Rightarrow>
                    (case all_floats (required_float float_of model) [''wheel_radius_m'', ''wheel_track_m''] of
                       Inr [radius, track] \<Rightarrow>
                         (case all_floats (optional_float float_of model) OPTIONAL_FIELDS of
                            Inr [timeout_s, lin, ang, rate, lag, lscale, ascale, lbias, abias, vxy, vyaw, vlin, vang] \<Rightarrow>
                              let c = \<lparr>ca_status = status,
                                       ca_profile = (case map_of raw ''profile_id'' of None \<Rightarrow> stem | Some v \<Rightarrow> str_of v),
                                       ca_radius = radius, ca_track = track, ca_timeout = timeout_s,
                                       ca_max_linear = lin, ca_max_angular = ang, ca_rate = rate,
                                       ca_latency = lag, ca_linear_scale = lscale, ca_angular_scale = ascale,
                                       ca_linear_bias = lbias, ca_angular_bias = abias, ca_var_xy = vxy, ca_var_yaw = vyaw,
                                       ca_var_linear = vlin, ca_var_angular = vang,
                                       ca_dataset = (case map_of raw ''dataset_sha256'' of
                                           None \<Rightarrow> None
                                         | Some v \<Rightarrow> if truthy v then Some (str_of v) else None)\<rparr>
                              in (case ca_validate c of Inl e \<Rightarrow> Inl e | Inr _ \<Rightarrow> Inr c)
                          | Inr _ \<Rightarrow> Inl (OtherError ''unreachable'')
                          | Inl e \<Rightarrow> Inl e)
                     | Inr _ \<Rightarrow> Inl (OtherError ''unreachable'')
                     | Inl e \<Rightarrow> Inl e)
                | _ \<Rightarrow> Inl (ValueError ''calibration base model must be an object'')))
      | Some _ \<Rightarrow> Inl (OtherError ''the file is not a JSON object''))"

section \<open>The base model\<close>

record twist =
  tw_linear :: pyfloat
  tw_angular :: pyfloat

definition no_twist :: twist where "no_twist = \<lparr>tw_linear = Fin 0, tw_angular = Fin 0\<rparr>"

record wheel_command =
  wc_left :: pyfloat
  wc_right :: pyfloat
  wc_watchdog :: bool

record odom_estimate =
  oe_stamp :: pyfloat
  oe_x :: pyfloat
  oe_y :: pyfloat
  oe_yaw :: pyfloat
  oe_linear :: pyfloat
  oe_angular :: pyfloat

record base_model =
  bm_calibration :: calibration
  bm_commands :: "(pyfloat \<times> twist) list"
  bm_commanded_at :: "pyfloat option"
  bm_applied :: twist
  bm_stopped :: bool
  bm_observed_at :: "pyfloat option"
  bm_x :: pyfloat
  bm_y :: pyfloat
  bm_yaw :: pyfloat

definition bm_new :: "calibration \<Rightarrow> base_model res" where
  "bm_new c =
     (case ca_validate c of
        Inl e \<Rightarrow> Inl e
      | Inr _ \<Rightarrow> Inr \<lparr>bm_calibration = c, bm_commands = [], bm_commanded_at = None, bm_applied = no_twist,
          bm_stopped = False, bm_observed_at = None, bm_x = Fin 0, bm_y = Fin 0, bm_yaw = Fin 0\<rparr>)"

definition bm_set_stop :: "bool \<Rightarrow> base_model \<Rightarrow> base_model" where
  "bm_set_stop stopped m =
     (let m1 = m\<lparr>bm_stopped := stopped\<rparr> in
      if stopped then m1\<lparr>bm_commands := [], bm_applied := no_twist\<rparr> else m1)"

definition bm_reset :: "base_model \<Rightarrow> base_model" where
  "bm_reset m =
     m\<lparr>bm_commands := [], bm_commanded_at := None, bm_applied := no_twist, bm_observed_at := None,
       bm_x := Fin 0, bm_y := Fin 0, bm_yaw := Fin 0, bm_stopped := False\<rparr>"

text \<open>\<open>max(-limit, min(limit, value))\<close>\<close>

definition clamp :: "pyfloat \<Rightarrow> pyfloat \<Rightarrow> pyfloat" where
  "clamp limit v = pymax (fneg limit) (pymin limit v)"

definition accept_command :: "twist \<Rightarrow> pyfloat \<Rightarrow> base_model \<Rightarrow> base_model" where
  "accept_command command now m =
     (let c = bm_calibration m;
          limited = \<lparr>tw_linear = clamp (ca_max_linear c) (tw_linear command),
                     tw_angular = clamp (ca_max_angular c) (tw_angular command)\<rparr>
      in m\<lparr>bm_commands := bm_commands m @ [(now, limited)], bm_commanded_at := Some now\<rparr>)"

text \<open>The loop that takes the commands whose latency has passed.\<close>

fun take_ready :: "pyfloat \<Rightarrow> (pyfloat \<times> twist) list \<Rightarrow> twist \<Rightarrow> (pyfloat \<times> twist) list \<times> twist" where
  "take_ready ready_at [] applied = ([], applied)"
| "take_ready ready_at ((t, command) # rest) applied =
     (if fle t ready_at then take_ready ready_at rest command else ((t, command) # rest, applied))"

definition watchdog_expired :: "pyfloat \<Rightarrow> base_model \<Rightarrow> bool" where
  "watchdog_expired now m \<longleftrightarrow>
     (case bm_commanded_at m of
        None \<Rightarrow> True | Some t \<Rightarrow> flt (ca_timeout (bm_calibration m)) (fsub now t))"

definition wheels_of :: "calibration \<Rightarrow> twist \<Rightarrow> pyfloat \<times> pyfloat" where
  "wheels_of c t =
     (let half_track = fdiv (ca_track c) (Fin 2)
      in (fdiv (fsub (tw_linear t) (fmul half_track (tw_angular t))) (ca_radius c),
          fdiv (fadd (tw_linear t) (fmul half_track (tw_angular t))) (ca_radius c)))"

definition bm_wheel_command :: "pyfloat \<Rightarrow> base_model \<Rightarrow> base_model \<times> wheel_command" where
  "bm_wheel_command now m =
     (let stale = watchdog_expired now m in
      if bm_stopped m \<or> stale
      then (m\<lparr>bm_applied := no_twist\<rparr>, \<lparr>wc_left = Fin 0, wc_right = Fin 0, wc_watchdog = stale\<rparr>)
      else
        let (rest, applied) = take_ready (fsub now (ca_latency (bm_calibration m))) (bm_commands m) (bm_applied m);
            (left, right) = wheels_of (bm_calibration m) applied
        in (m\<lparr>bm_commands := rest, bm_applied := applied\<rparr>,
            \<lparr>wc_left = left, wc_right = right, wc_watchdog = False\<rparr>))"

record trig =
  tg_cos :: "rat \<Rightarrow> rat"
  tg_sin :: "rat \<Rightarrow> rat"
  tg_atan2 :: "pyfloat \<Rightarrow> pyfloat \<Rightarrow> pyfloat"

fun math_trig :: "(rat \<Rightarrow> rat) \<Rightarrow> pyfloat \<Rightarrow> pyfloat res" where
  "math_trig f (Fin r) = Inr (Fin (f r))"
| "math_trig f NaN = Inr NaN"
| "math_trig f _ = Inl (ValueError ''math domain error'')"

text \<open>One integration step of the pose. The fields are assigned one after the other.\<close>

definition integrate :: "trig \<Rightarrow> pyfloat \<Rightarrow> pyfloat \<Rightarrow> pyfloat \<Rightarrow> base_model \<Rightarrow> base_model \<times> unit res" where
  "integrate tg lin ang dt m =
     (let midpoint = fadd (bm_yaw m) (fmul (fmul (Fin (1/2)) ang) dt);
          turned = fadd (bm_yaw m) (fmul ang dt)
      in case math_trig (tg_cos tg) midpoint of
           Inl e \<Rightarrow> (m, Inl e)
         | Inr cosine \<Rightarrow>
             let m1 = m\<lparr>bm_x := fadd (bm_x m) (fmul (fmul lin cosine) dt)\<rparr> in
             (case math_trig (tg_sin tg) midpoint of
                Inl e \<Rightarrow> (m1, Inl e)
              | Inr sine \<Rightarrow>
                  let m2 = m1\<lparr>bm_y := fadd (bm_y m1) (fmul (fmul lin sine) dt)\<rparr> in
                  (case (math_trig (tg_sin tg) turned, math_trig (tg_cos tg) turned) of
                     (Inr s, Inr c) \<Rightarrow> (m2\<lparr>bm_yaw := tg_atan2 tg s c\<rparr>, Inr ())
                   | (Inl e, _) \<Rightarrow> (m2, Inl e)
                   | (_, Inl e) \<Rightarrow> (m2, Inl e))))"

definition twist_of :: "calibration \<Rightarrow> pyfloat \<Rightarrow> pyfloat \<Rightarrow> twist" where
  "twist_of c left right =
     (let raw_linear = fdiv (fmul (ca_radius c) (fadd left right)) (Fin 2);
          raw_angular = fdiv (fmul (ca_radius c) (fsub right left)) (ca_track c)
      in \<lparr>tw_linear = fadd (fmul raw_linear (ca_linear_scale c)) (ca_linear_bias c),
          tw_angular = fadd (fmul raw_angular (ca_angular_scale c)) (ca_angular_bias c)\<rparr>)"

definition observe_wheels ::
  "trig \<Rightarrow> pyfloat \<Rightarrow> pyfloat \<Rightarrow> pyfloat \<Rightarrow> base_model \<Rightarrow> base_model \<times> odom_estimate res" where
  "observe_wheels tg left right now m =
     (let t = twist_of (bm_calibration m) left right;
          moved = (case bm_observed_at m of
              None \<Rightarrow> (m, Inr ())
            | Some before \<Rightarrow>
                let dt = fsub now before in
                if flt dt (Fin 0) then (m, Inl (ValueError ''simulation time moved backwards''))
                else if flt (Fin 0) dt then integrate tg (tw_linear t) (tw_angular t) dt m
                else (m, Inr ()))
      in case moved of
           (m1, Inl e) \<Rightarrow> (m1, Inl e)
         | (m1, Inr _) \<Rightarrow>
             (m1\<lparr>bm_observed_at := Some now\<rparr>,
              Inr \<lparr>oe_stamp = now, oe_x = bm_x m1, oe_y = bm_y m1, oe_yaw = bm_yaw m1,
                   oe_linear = tw_linear t, oe_angular = tw_angular t\<rparr>))"

section \<open>The facade\<close>

text \<open>\<open>bf_out\<close> lists the published wheel commands and \<open>bf_odom\<close> the published estimates; status messages are
  left out.\<close>

record base_facade =
  bf_model :: base_model
  bf_left :: "string list"
  bf_right :: "string list"
  bf_last_stamp :: pyfloat
  bf_out :: "(string \<times> pyfloat) list list"
  bf_odom :: "odom_estimate list"

definition bf_new :: "calibration \<Rightarrow> string list \<Rightarrow> string list \<Rightarrow> base_facade res" where
  "bf_new c left right =
     (case bm_new c of
        Inl e \<Rightarrow> Inl e
      | Inr m \<Rightarrow>
          if left = [] \<or> right = [] then Inl (OtherError ''tuple index out of range'')
          else Inr \<lparr>bf_model = m, bf_left = left, bf_right = right, bf_last_stamp = Fin (- 1), bf_out = [],
                 bf_odom = []\<rparr>)"

definition bf_command :: "twist \<Rightarrow> pyfloat \<Rightarrow> base_facade \<Rightarrow> base_facade" where
  "bf_command command now f = f\<lparr>bf_model := accept_command command now (bf_model f)\<rparr>"

definition bf_publish :: "pyfloat \<Rightarrow> base_facade \<Rightarrow> base_facade" where
  "bf_publish now f =
     (let (m, command) = bm_wheel_command now (bf_model f)
      in f\<lparr>bf_model := m,
           bf_out := bf_out f @ [map (\<lambda>j. (j, wc_left command)) (bf_left f) @ map (\<lambda>j. (j, wc_right command)) (bf_right f)]\<rparr>)"

definition velocity_of :: "string list \<Rightarrow> pyfloat list \<Rightarrow> string \<Rightarrow> pyfloat option" where
  "velocity_of names velocities joint =
     (case first_index joint names of
        None \<Rightarrow> None
      | Some i \<Rightarrow> if i < length velocities then Some (velocities ! i) else None)"

definition bf_joints :: "trig \<Rightarrow> string list \<Rightarrow> pyfloat list \<Rightarrow> pyfloat \<Rightarrow> base_facade \<Rightarrow> base_facade \<times> unit res" where
  "bf_joints tg names velocities stamp f =
     (case (velocity_of names velocities (hd (bf_left f)), velocity_of names velocities (hd (bf_right f))) of
        (Some left, Some right) \<Rightarrow>
          if fle stamp (bf_last_stamp f) then (f, Inr ())
          else
            let f1 = f\<lparr>bf_last_stamp := stamp\<rparr>
            in (case observe_wheels tg left right stamp (bf_model f1) of
                  (m, Inl e) \<Rightarrow> (f1\<lparr>bf_model := m\<rparr>, Inl e)
                | (m, Inr estimate) \<Rightarrow> (f1\<lparr>bf_model := m, bf_odom := bf_odom f1 @ [estimate]\<rparr>, Inr ()))
      | _ \<Rightarrow> (f, Inr ()))"

text \<open>An exception of a callback ends the process; a run collects the first one.\<close>

datatype base_event =
    Velocity_Command twist pyfloat
  | Command_Timer pyfloat
  | Joint_Message "string list" "pyfloat list" pyfloat

fun base_step :: "trig \<Rightarrow> base_event \<Rightarrow> base_facade \<Rightarrow> base_facade \<times> unit res" where
  "base_step tg (Velocity_Command command now) f = (bf_command command now f, Inr ())"
| "base_step tg (Command_Timer now) f = (bf_publish now f, Inr ())"
| "base_step tg (Joint_Message names velocities stamp) f = bf_joints tg names velocities stamp f"

fun base_run :: "trig \<Rightarrow> base_event list \<Rightarrow> base_facade \<Rightarrow> base_facade \<times> unit res" where
  "base_run tg [] f = (f, Inr ())"
| "base_run tg (e # es) f =
     (case base_step tg e f of (f1, Inl err) \<Rightarrow> (f1, Inl err) | (f1, Inr _) \<Rightarrow> base_run tg es f1)"

end
