(* ===== verification/Base_Safety.thy ===== *)
theory Base_Safety
  imports Base_Parity
begin

text \<open>
  The base: its wheel commands stay bounded whatever is commanded, stop without fresh commands, and
  its odometry inverts the kinematics, follows the stamps and never raises on finite readings.
\<close>

section \<open>Calibrations\<close>

definition sound_calibration :: "calibration \<Rightarrow> bool" where
  "sound_calibration c \<longleftrightarrow> ca_validate c = Inr () \<and> list_all (isfinite \<circ> snd) (positive_fields c)"

lemma sound_calibrationE:
  assumes "sound_calibration c"
  obtains r tr lin ang where "ca_radius c = Fin r" "0 < r" "ca_track c = Fin tr" "0 < tr"
    "ca_max_linear c = Fin lin" "0 < lin" "ca_max_angular c = Fin ang" "0 < ang"
  using assms
  by (auto simp: sound_calibration_def ca_validate_def positive_fields_def Let_def isfinite_iff split: if_splits)

section \<open>Bounded wheel commands\<close>

definition twist_within :: "calibration \<Rightarrow> twist \<Rightarrow> bool" where
  "twist_within c t \<longleftrightarrow>
     (\<exists>v w lin ang. tw_linear t = Fin v \<and> tw_angular t = Fin w \<and> ca_max_linear c = Fin lin \<and> ca_max_angular c = Fin ang
        \<and> \<bar>v\<bar> \<le> lin \<and> \<bar>w\<bar> \<le> ang)"

definition wheel_limit :: "calibration \<Rightarrow> pyfloat" where
  "wheel_limit c = fdiv (fadd (ca_max_linear c) (fmul (fdiv (ca_track c) (Fin 2)) (ca_max_angular c))) (ca_radius c)"

definition at_most :: "pyfloat \<Rightarrow> pyfloat \<Rightarrow> bool" where
  "at_most limit v \<longleftrightarrow> (\<exists>l q. limit = Fin l \<and> v = Fin q \<and> \<bar>q\<bar> \<le> l)"

lemma clamp_within: "0 < l \<Longrightarrow> \<exists>q. clamp (Fin l) v = Fin q \<and> \<bar>q\<bar> \<le> l"
  by (cases v) (auto simp: clamp_def pymax_def pymin_def)

lemma limited_within:
  assumes "sound_calibration c"
  shows "twist_within c \<lparr>tw_linear = clamp (ca_max_linear c) v, tw_angular = clamp (ca_max_angular c) w\<rparr>"
    "twist_within c no_twist"
proof -
  obtain r tr lin ang where c: "ca_max_linear c = Fin lin" "0 < lin" "ca_max_angular c = Fin ang" "0 < ang"
    using assms by (rule sound_calibrationE)
  obtain x y where "clamp (Fin lin) v = Fin x" "\<bar>x\<bar> \<le> lin" "clamp (Fin ang) w = Fin y" "\<bar>y\<bar> \<le> ang"
    using clamp_within [OF c(2)] clamp_within [OF c(4)] by blast
  then show "twist_within c \<lparr>tw_linear = clamp (ca_max_linear c) v, tw_angular = clamp (ca_max_angular c) w\<rparr>"
      "twist_within c no_twist"
    using c by (simp_all add: twist_within_def no_twist_def)
qed

lemma wheels_within:
  assumes "sound_calibration c" "twist_within c t"
  shows "at_most (wheel_limit c) (fst (wheels_of c t))" "at_most (wheel_limit c) (snd (wheels_of c t))"
    "at_most (wheel_limit c) (Fin 0)"
proof -
  obtain r tr lin ang where c: "ca_radius c = Fin r" "0 < r" "ca_track c = Fin tr" "0 < tr"
    "ca_max_linear c = Fin lin" "0 < lin" "ca_max_angular c = Fin ang" "0 < ang"
    using assms(1) by (rule sound_calibrationE)
  obtain v w where t: "tw_linear t = Fin v" "tw_angular t = Fin w" "\<bar>v\<bar> \<le> lin" "\<bar>w\<bar> \<le> ang"
    using assms(2) c by (auto simp: twist_within_def)
  have "\<bar>tr * w\<bar> \<le> tr * ang" using t(4) c(4) by (simp add: abs_mult)
  then have b: "\<bar>v - tr / 2 * w\<bar> \<le> lin + tr / 2 * ang" "\<bar>v + tr / 2 * w\<bar> \<le> lin + tr / 2 * ang"
    using t(3) by (auto simp: abs_le_iff)
  have "\<bar>(v - tr / 2 * w) / r\<bar> \<le> (lin + tr / 2 * ang) / r" "\<bar>(v + tr / 2 * w) / r\<bar> \<le> (lin + tr / 2 * ang) / r"
    using b c(2) by (simp_all only: abs_divide) (auto intro!: divide_right_mono)
  moreover have "0 \<le> (lin + tr / 2 * ang) / r" using c by simp
  ultimately show "at_most (wheel_limit c) (fst (wheels_of c t))" "at_most (wheel_limit c) (snd (wheels_of c t))"
      "at_most (wheel_limit c) (Fin 0)"
    by (simp_all add: at_most_def wheel_limit_def wheels_of_def c t Let_def)
qed

definition model_within :: "base_model \<Rightarrow> bool" where
  "model_within m \<longleftrightarrow> (\<forall>(t, command) \<in> set (bm_commands m). twist_within (bm_calibration m) command)
     \<and> twist_within (bm_calibration m) (bm_applied m)"

lemma take_ready_within:
  assumes "take_ready r q a = (q', a')" "\<forall>(t, command) \<in> set q. twist_within c command" "twist_within c a"
  shows "(\<forall>(t, command) \<in> set q'. twist_within c command) \<and> twist_within c a'"
  using assms by (induction r q a rule: take_ready.induct) (auto split: if_splits)

lemma wheel_command_within:
  assumes c: "sound_calibration (bm_calibration m)" and m: "model_within m" and w: "bm_wheel_command now m = (m', command)"
  shows "model_within m' \<and> bm_calibration m' = bm_calibration m
    \<and> at_most (wheel_limit (bm_calibration m)) (wc_left command) \<and> at_most (wheel_limit (bm_calibration m)) (wc_right command)"
proof -
  have nt: "twist_within (bm_calibration m) no_twist" using limited_within(2) [OF c] .
  obtain q a where t: "take_ready (fsub now (ca_latency (bm_calibration m))) (bm_commands m) (bm_applied m) = (q, a)" by force
  have qa: "(\<forall>(t, command) \<in> set q. twist_within (bm_calibration m) command) \<and> twist_within (bm_calibration m) a"
    using take_ready_within [OF t] m by (simp add: model_within_def)
  obtain l r where lr: "wheels_of (bm_calibration m) a = (l, r)" by force
  show ?thesis
    using w m nt qa t lr wheels_within [OF c nt] wheels_within [OF c, of a]
    by (cases "bm_stopped m \<or> watchdog_expired now m") (auto simp: bm_wheel_command_def model_within_def Let_def)
qed

lemma integrate_frame:
  "integrate tg v w dt m = (m', r) \<Longrightarrow> bm_calibration m' = bm_calibration m \<and> bm_commands m' = bm_commands m
     \<and> bm_applied m' = bm_applied m \<and> bm_commanded_at m' = bm_commanded_at m \<and> bm_stopped m' = bm_stopped m"
  by (auto simp: integrate_def Let_def split: sum.splits)

lemma observe_frame:
  "observe_wheels tg l r now m = (m', e) \<Longrightarrow> bm_calibration m' = bm_calibration m \<and> bm_commands m' = bm_commands m
     \<and> bm_applied m' = bm_applied m \<and> bm_commanded_at m' = bm_commanded_at m \<and> bm_stopped m' = bm_stopped m"
  by (auto simp: observe_wheels_def Let_def dest!: integrate_frame split: sum.splits prod.splits option.splits if_splits)

definition facade_within :: "calibration \<Rightarrow> base_facade \<Rightarrow> bool" where
  "facade_within c f \<longleftrightarrow> bm_calibration (bf_model f) = c \<and> model_within (bf_model f)
     \<and> (\<forall>command \<in> set (bf_out f). \<forall>(j, v) \<in> set command. at_most (wheel_limit c) v)"

lemma joints_frame:
  "bf_joints tg ns vs t f = (f', r) \<Longrightarrow> bf_out f' = bf_out f \<and> bm_calibration (bf_model f') = bm_calibration (bf_model f)
     \<and> bm_commands (bf_model f') = bm_commands (bf_model f) \<and> bm_applied (bf_model f') = bm_applied (bf_model f)
     \<and> bm_commanded_at (bf_model f') = bm_commanded_at (bf_model f)
     \<and> bf_left f' = bf_left f \<and> bf_right f' = bf_right f"
  by (auto simp: bf_joints_def Let_def dest!: observe_frame split: option.splits if_splits prod.splits sum.splits)

lemma step_within:
  assumes c: "sound_calibration c" and f: "facade_within c f" and s: "base_step tg e f = (f', r)"
  shows "facade_within c f'"
proof (cases e)
  case (Velocity_Command command now)
  then show ?thesis using f s limited_within(1) [OF c]
    by (auto simp: facade_within_def model_within_def bf_command_def accept_command_def Let_def)
next
  case (Command_Timer now)
  obtain m command where w: "bm_wheel_command now (bf_model f) = (m, command)" by force
  show ?thesis using f s Command_Timer w wheel_command_within [OF _ _ w] c
    by (auto simp: facade_within_def bf_publish_def Let_def)
next
  case (Joint_Message ns vs t)
  then show ?thesis using f s joints_frame [of tg ns vs t f f' r]
    by (auto simp: facade_within_def model_within_def)
qed

lemma run_within:
  "sound_calibration c \<Longrightarrow> facade_within c f \<Longrightarrow> base_run tg es f = (f', r) \<Longrightarrow> facade_within c f'"
proof (induction es arbitrary: f)
  case (Cons e es)
  obtain f1 r1 where s: "base_step tg e f = (f1, r1)" by force
  from step_within [OF Cons.prems(1,2) s] Cons.prems Cons.IH [of f1] s show ?case by (cases r1) auto
qed simp

lemma bf_new_fields:
  "bf_new c left right = Inr f \<Longrightarrow> ca_validate c = Inr () \<and> bf_left f = left \<and> bf_right f = right \<and> bf_out f = []
     \<and> bf_odom f = [] \<and> bf_last_stamp f = Fin (- 1) \<and> bm_calibration (bf_model f) = c \<and> bm_commands (bf_model f) = []
     \<and> bm_applied (bf_model f) = no_twist \<and> bm_commanded_at (bf_model f) = None \<and> bm_stopped (bf_model f) = False
     \<and> bm_observed_at (bf_model f) = None \<and> bm_yaw (bf_model f) = Fin 0 \<and> bm_x (bf_model f) = Fin 0 \<and> bm_y (bf_model f) = Fin 0"
  by (auto simp: bf_new_def bm_new_def split: sum.splits if_splits)

text \<open>C22: Wheel commands are bounded. With a validated calibration of finite values, whatever velocities are
  commanded, infinite ones and NaN included, and in whatever order commands, timers and joint
  messages arrive, every wheel command the facade publishes is finite and at most the speed of a
  wheel at the largest linear and angular velocity.\<close>
theorem base_commands_bounded:
  assumes "sound_calibration c" "bf_new c left right = Inr f0" "base_run tg es f0 = (f, r)"
  shows "\<forall>command \<in> set (bf_out f). \<forall>(j, v) \<in> set command. at_most (wheel_limit c) v"
proof -
  have "facade_within c f0"
    using bf_new_fields [OF assms(2)] limited_within(2) [OF assms(1)] by (simp add: facade_within_def model_within_def)
  then show ?thesis using run_within [OF assms(1) _ assms(3)] by (simp add: facade_within_def)
qed

text \<open>A velocity that is not a number counts as the largest one.\<close>

lemma nan_command_is_full_speed: "0 < l \<Longrightarrow> clamp (Fin l) NaN = Fin l"
  by (simp add: clamp_def pymax_def pymin_def)

section \<open>The watchdog\<close>

text \<open>A timeout that is not a number passes the validation, and then the watchdog never expires.\<close>

lemma nan_timeout_never_expires:
  "ca_validate (development_default\<lparr>ca_timeout := NaN\<rparr>) = Inr ()"
  "ca_timeout (bm_calibration m) = NaN \<Longrightarrow> bm_commanded_at m = Some t \<Longrightarrow> \<not> watchdog_expired now m"
  by (simp_all add: ca_validate_def positive_fields_def development_default_def Let_def watchdog_expired_def)

definition last_command_at :: "base_event list \<Rightarrow> pyfloat option" where
  "last_command_at es = foldl (\<lambda>a e. case e of Velocity_Command command t \<Rightarrow> Some t | _ \<Rightarrow> a) None es"

lemma step_commanded:
  "base_step tg e f = (f', r) \<Longrightarrow>
     bm_commanded_at (bf_model f') = (case e of Velocity_Command command t \<Rightarrow> Some t | _ \<Rightarrow> bm_commanded_at (bf_model f))
     \<and> bm_calibration (bf_model f') = bm_calibration (bf_model f) \<and> bf_left f' = bf_left f \<and> bf_right f' = bf_right f"
  by (cases e) (auto simp: bf_command_def accept_command_def bf_publish_def bm_wheel_command_def Let_def
      dest: joints_frame split: prod.splits if_splits)

lemma run_commanded:
  "base_run tg es f = (f', Inr ()) \<Longrightarrow>
     bm_commanded_at (bf_model f') = foldl (\<lambda>a e. case e of Velocity_Command command t \<Rightarrow> Some t | _ \<Rightarrow> a) (bm_commanded_at (bf_model f)) es
     \<and> bm_calibration (bf_model f') = bm_calibration (bf_model f) \<and> bf_left f' = bf_left f \<and> bf_right f' = bf_right f"
proof (induction es arbitrary: f)
  case (Cons e es)
  obtain f1 r1 where s: "base_step tg e f = (f1, r1)" by force
  from Cons step_commanded [OF s] s show ?case by (cases r1) auto
qed simp

text \<open>The watchdog stops the base. After any run, when no velocity command was ever received or the last
  one is older than the timeout, the command timer publishes zero for every wheel, whatever is
  still queued.\<close>
theorem base_watchdog_stops:
  assumes "bf_new c left right = Inr f0" "base_run tg es f0 = (f, Inr ())"
    and "case last_command_at es of None \<Rightarrow> True | Some t \<Rightarrow> flt (ca_timeout c) (fsub now t)"
  shows "bf_out (bf_publish now f) = bf_out f @ [map (\<lambda>j. (j, Fin 0)) (left @ right)]"
proof -
  have "watchdog_expired now (bf_model f)"
    using assms(3) run_commanded [OF assms(2)] bf_new_fields [OF assms(1)]
    by (auto simp: watchdog_expired_def last_command_at_def split: option.splits)
  then show ?thesis using run_commanded [OF assms(2)] bf_new_fields [OF assms(1)]
    by (simp add: bf_publish_def bm_wheel_command_def Let_def)
qed

section \<open>Kinematics\<close>

text \<open>Odometry inverts the wheel kinematics. With a validated calibration of finite values and neither scale
  nor bias, the velocities the odometry derives from the wheel speeds of a twist are that twist.\<close>
theorem kinematics_roundtrip:
  assumes "sound_calibration c" "ca_linear_scale c = Fin 1" "ca_angular_scale c = Fin 1"
    "ca_linear_bias c = Fin 0" "ca_angular_bias c = Fin 0" "isfinite (tw_linear t)" "isfinite (tw_angular t)"
  shows "twist_of c (fst (wheels_of c t)) (snd (wheels_of c t)) = t"
proof -
  obtain r tr lin ang where c: "ca_radius c = Fin r" "0 < r" "ca_track c = Fin tr" "0 < tr"
    using assms(1) by (rule sound_calibrationE)
  obtain v w where t: "tw_linear t = Fin v" "tw_angular t = Fin w" using assms(6,7) by (auto simp: isfinite_iff)
  have "r * ((v - tr / 2 * w) / r + (v + tr / 2 * w) / r) / 2 = v"
    "r * ((v + tr / 2 * w) / r - (v - tr / 2 * w) / r) / tr = w"
    using c by (simp_all add: field_simps)
  then show ?thesis using c t assms(2-5) by (simp add: twist_of_def wheels_of_def Let_def)
qed

section \<open>Odometry\<close>

definition finite_trig :: "trig \<Rightarrow> bool" where
  "finite_trig tg \<longleftrightarrow> (\<forall>a b. isfinite (tg_atan2 tg (Fin a) (Fin b)))"

definition finite_scales :: "calibration \<Rightarrow> bool" where
  "finite_scales c \<longleftrightarrow> isfinite (ca_linear_scale c) \<and> isfinite (ca_angular_scale c)
     \<and> isfinite (ca_linear_bias c) \<and> isfinite (ca_angular_bias c)"

fun finite_message :: "base_event \<Rightarrow> bool" where
  "finite_message (Joint_Message names velocities stamp) = (list_all isfinite velocities \<and> isfinite stamp)"
| "finite_message e = True"

definition odom_inv :: "calibration \<Rightarrow> base_facade \<Rightarrow> bool" where
  "odom_inv c f \<longleftrightarrow> bm_calibration (bf_model f) = c
     \<and> (\<exists>s. bf_last_stamp f = Fin s \<and>
          (case bm_observed_at (bf_model f) of None \<Rightarrow> bf_odom f = [] | Some t \<Rightarrow> t = Fin s \<and> bf_odom f \<noteq> [] \<and> oe_stamp (last (bf_odom f)) = t))
     \<and> isfinite (bm_x (bf_model f)) \<and> isfinite (bm_y (bf_model f)) \<and> isfinite (bm_yaw (bf_model f))
     \<and> sorted_wrt (\<lambda>a b. flt (oe_stamp a) (oe_stamp b)) (bf_odom f)"

lemma twist_of_finite:
  assumes "sound_calibration c" "finite_scales c"
  shows "\<exists>v w. twist_of c (Fin l) (Fin r) = \<lparr>tw_linear = Fin v, tw_angular = Fin w\<rparr>"
proof -
  obtain ra tr lin ang where "ca_radius c = Fin ra" "0 < ra" "ca_track c = Fin tr" "0 < tr"
    using assms(1) by (rule sound_calibrationE)
  then show ?thesis using assms(2) by (auto simp: twist_of_def finite_scales_def isfinite_iff)
qed

lemma integrate_finite:
  assumes "finite_trig tg" "bm_x m = Fin x" "bm_y m = Fin y" "bm_yaw m = Fin a"
  shows "\<exists>m'. integrate tg (Fin v) (Fin w) (Fin dt) m = (m', Inr ()) \<and> isfinite (bm_x m') \<and> isfinite (bm_y m') \<and> isfinite (bm_yaw m')"
  using assms by (simp add: integrate_def Let_def finite_trig_def)

lemma observe_total:
  assumes "sound_calibration (bm_calibration m)" "finite_scales (bm_calibration m)" "finite_trig tg"
    "bm_x m = Fin x" "bm_y m = Fin y" "bm_yaw m = Fin a"
    "case bm_observed_at m of None \<Rightarrow> True | Some t \<Rightarrow> \<exists>s. t = Fin s \<and> s < n"
  shows "\<exists>m' estimate. observe_wheels tg (Fin l) (Fin r) (Fin n) m = (m', Inr estimate) \<and> isfinite (bm_x m')
     \<and> isfinite (bm_y m') \<and> isfinite (bm_yaw m') \<and> bm_observed_at m' = Some (Fin n) \<and> oe_stamp estimate = Fin n"
proof -
  obtain v w where t: "twist_of (bm_calibration m) (Fin l) (Fin r) = \<lparr>tw_linear = Fin v, tw_angular = Fin w\<rparr>"
    using twist_of_finite [OF assms(1,2)] by blast
  show ?thesis
  proof (cases "bm_observed_at m")
    case None
    then show ?thesis using assms(4-6) t by (simp add: observe_wheels_def)
  next
    case (Some b)
    then obtain s where s: "b = Fin s" "s < n" using assms(7) by auto
    obtain m' where "integrate tg (Fin v) (Fin w) (Fin (n - s)) m = (m', Inr ())" "isfinite (bm_x m')" "isfinite (bm_y m')"
        "isfinite (bm_yaw m')"
      using integrate_finite [OF assms(3-6)] by blast
    then show ?thesis using Some s t by (simp add: observe_wheels_def Let_def)
  qed
qed

lemma velocity_of_finite: "list_all isfinite vs \<Longrightarrow> velocity_of ns vs j = Some v \<Longrightarrow> isfinite v"
  by (auto simp: velocity_of_def list_all_length split: option.splits if_splits)

lemma sorted_snoc_last:
  assumes "sorted_wrt (\<lambda>a b. flt (f a) (f b)) xs" "xs \<noteq> [] \<Longrightarrow> f (last xs) = Fin s \<and> s < n" "f x = Fin n"
  shows "sorted_wrt (\<lambda>a b. flt (f a) (f b)) (xs @ [x])"
proof (cases xs rule: rev_cases)
  case (snoc ys y)
  have "flt (f z) (f x)" if "z \<in> set ys" for z
  proof -
    have "flt (f z) (Fin s)" using assms(1,2) snoc that by (auto simp: sorted_wrt_append)
    then show ?thesis using assms(2,3) snoc by (cases "f z") auto
  qed
  then show ?thesis using assms snoc by (auto simp: sorted_wrt_append)
qed simp

lemma joints_odom:
  assumes c: "sound_calibration c" "finite_scales c" and tg: "finite_trig tg" and f: "odom_inv c f"
    and v: "list_all isfinite vs" and t: "t = Fin n"
  shows "\<exists>f'. bf_joints tg ns vs t f = (f', Inr ()) \<and> odom_inv c f'"
proof (cases "velocity_of ns vs (hd (bf_left f)) = None \<or> velocity_of ns vs (hd (bf_right f)) = None \<or> fle t (bf_last_stamp f)")
  case True
  then show ?thesis using f by (auto simp: bf_joints_def split: option.split)
next
  case False
  then obtain l r where lr: "velocity_of ns vs (hd (bf_left f)) = Some (Fin l)" "velocity_of ns vs (hd (bf_right f)) = Some (Fin r)"
    using velocity_of_finite [OF v] by (metis isfinite_iff not_None_eq)
  obtain s x y a where i: "bf_last_stamp f = Fin s" "bm_x (bf_model f) = Fin x" "bm_y (bf_model f) = Fin y" "bm_yaw (bf_model f) = Fin a"
      "case bm_observed_at (bf_model f) of None \<Rightarrow> bf_odom f = [] | Some u \<Rightarrow> u = Fin s \<and> bf_odom f \<noteq> [] \<and> oe_stamp (last (bf_odom f)) = u"
      "sorted_wrt (\<lambda>a b. flt (oe_stamp a) (oe_stamp b)) (bf_odom f)"
    and bc: "bm_calibration (bf_model f) = c"
    using f by (auto simp: odom_inv_def isfinite_iff)
  have sn: "s < n" using False t i(1) by simp
  have "case bm_observed_at (bf_model f) of None \<Rightarrow> True | Some t \<Rightarrow> \<exists>s. t = Fin s \<and> s < n"
    using i(5) sn by (auto split: option.splits)
  from observe_total [OF _ _ tg i(2-4) this, of l r] c bc obtain m' est where
    o: "observe_wheels tg (Fin l) (Fin r) (Fin n) (bf_model f) = (m', Inr est)" "isfinite (bm_x m')" "isfinite (bm_y m')"
      "isfinite (bm_yaw m')" "bm_observed_at m' = Some (Fin n)" "oe_stamp est = Fin n" by auto
  have "sorted_wrt (\<lambda>a b. flt (oe_stamp a) (oe_stamp b)) (bf_odom f @ [est])"
    using i(5) sn o(6) by (intro sorted_snoc_last [OF i(6), of s n]) (auto split: option.splits)
  then show ?thesis using False lr o observe_frame [OF o(1)] bc t
    by (auto simp: bf_joints_def odom_inv_def Let_def)
qed

lemma odom_cong:
  "odom_inv c f \<Longrightarrow> bm_calibration (bf_model f') = bm_calibration (bf_model f) \<Longrightarrow> bf_last_stamp f' = bf_last_stamp f
   \<Longrightarrow> bm_observed_at (bf_model f') = bm_observed_at (bf_model f) \<Longrightarrow> bm_x (bf_model f') = bm_x (bf_model f)
   \<Longrightarrow> bm_y (bf_model f') = bm_y (bf_model f) \<Longrightarrow> bm_yaw (bf_model f') = bm_yaw (bf_model f) \<Longrightarrow> bf_odom f' = bf_odom f
   \<Longrightarrow> odom_inv c f'"
  by (simp only: odom_inv_def)

lemma step_odom:
  assumes "sound_calibration c" "finite_scales c" "finite_trig tg" "odom_inv c f" "finite_message e"
  shows "\<exists>f'. base_step tg e f = (f', Inr ()) \<and> odom_inv c f'"
proof (cases e)
  case (Joint_Message ns vs t)
  then show ?thesis using joints_odom [OF assms(1-4)] assms(5) by (auto simp: isfinite_iff)
next
  case (Velocity_Command command t)
  have "odom_inv c (bf_command command t f)"
    by (rule odom_cong [OF assms(4)]) (simp_all add: bf_command_def accept_command_def Let_def)
  then show ?thesis using Velocity_Command by simp
next
  case (Command_Timer t)
  have "odom_inv c (bf_publish t f)"
    by (rule odom_cong [OF assms(4)])
      (simp_all add: bf_publish_def bm_wheel_command_def Let_def split: prod.split)
  then show ?thesis using Command_Timer by simp
qed

lemma run_odom:
  "sound_calibration c \<Longrightarrow> finite_scales c \<Longrightarrow> finite_trig tg \<Longrightarrow> odom_inv c f \<Longrightarrow> list_all finite_message es \<Longrightarrow>
     \<exists>f'. base_run tg es f = (f', Inr ()) \<and> odom_inv c f'"
proof (induction es arbitrary: f)
  case (Cons e es)
  then obtain f1 where "base_step tg e f = (f1, Inr ())" "odom_inv c f1" using step_odom [of c tg f e] by auto
  then show ?case using Cons by simp
qed simp

text \<open>The odometry never fails and follows time. With a validated calibration of finite values, whatever
  joint messages arrive with finite readings, duplicated, out of order or incomplete, no callback
  raises, the published estimates have strictly increasing stamps, and the pose stays finite.\<close>
theorem odometry_follows_time:
  assumes "sound_calibration c" "finite_scales c" "finite_trig tg" "bf_new c left right = Inr f0"
    "list_all finite_message es"
  shows "\<exists>f. base_run tg es f0 = (f, Inr ()) \<and> sorted_wrt (\<lambda>a b. flt (oe_stamp a) (oe_stamp b)) (bf_odom f)
     \<and> isfinite (bm_x (bf_model f)) \<and> isfinite (bm_y (bf_model f)) \<and> isfinite (bm_yaw (bf_model f))"
proof -
  have "odom_inv c f0" using bf_new_fields [OF assms(4)] by (simp add: odom_inv_def)
  from run_odom [OF assms(1-3) this assms(5)] show ?thesis by (auto simp: odom_inv_def)
qed

section \<open>Examples\<close>

definition demo_events :: "base_event list" where
  "demo_events = [Velocity_Command \<lparr>tw_linear = NaN, tw_angular = Fin 0\<rparr> (Fin 1), Command_Timer (Fin 1),
     Joint_Message [''fl'', ''fr''] [Fin 1, Fin 1] (Fin 2), Joint_Message [''fl'', ''fr''] [Fin 1, Fin 1] (Fin 2),
     Joint_Message [''fl'', ''fr''] [Fin 1, Fin 1] (Fin 3)]"

definition flat_trig :: trig where
  "flat_trig = \<lparr>tg_cos = (\<lambda>_. 1), tg_sin = (\<lambda>_. 0), tg_atan2 = (\<lambda>_ _. Fin 0)\<rparr>"

definition demo_facade :: base_facade where
  "demo_facade = (case bf_new development_default [''fl''] [''fr''] of Inr f \<Rightarrow> f | Inl e \<Rightarrow> undefined)"

lemma demo_facade_new: "bf_new development_default [''fl''] [''fr''] = Inr demo_facade"
  by (simp add: demo_facade_def bf_new_def bm_new_def ca_validate_def positive_fields_def development_default_def Let_def)

lemma demo_sound: "sound_calibration development_default" "finite_scales development_default" "finite_trig flat_trig"
  by (simp_all add: sound_calibration_def ca_validate_def positive_fields_def development_default_def Let_def
      finite_scales_def finite_trig_def flat_trig_def)

lemma base_commands_bounded_witness:
  "bf_out (fst (base_run flat_trig demo_events demo_facade)) \<noteq> []
   \<and> list_all (list_all (\<lambda>(j, v). at_most (wheel_limit development_default) v)) (bf_out (fst (base_run flat_trig demo_events demo_facade)))"
proof -
  have "bf_out (fst (base_run flat_trig demo_events demo_facade)) \<noteq> []" by code_simp
  then show ?thesis
    using base_commands_bounded [OF demo_sound(1) demo_facade_new surjective_pairing, of flat_trig demo_events]
    unfolding list_all_iff by blast
qed

lemma base_watchdog_stops_witness:
  "bf_out (bf_publish (Fin 9) (fst (base_run flat_trig demo_events demo_facade)))
     = bf_out (fst (base_run flat_trig demo_events demo_facade)) @ [[(''fl'', Fin 0), (''fr'', Fin 0)]]"
proof -
  have "base_run flat_trig demo_events demo_facade = (fst (base_run flat_trig demo_events demo_facade), Inr ())"
    by (rule prod_eqI) (simp, code_simp)
  from base_watchdog_stops [OF demo_facade_new this, of "Fin 9"] show ?thesis
    by (simp add: demo_events_def last_command_at_def development_default_def)
qed

lemma kinematics_roundtrip_witness:
  "twist_of development_default (fst (wheels_of development_default \<lparr>tw_linear = Fin (1/2), tw_angular = Fin (1/3)\<rparr>))
     (snd (wheels_of development_default \<lparr>tw_linear = Fin (1/2), tw_angular = Fin (1/3)\<rparr>))
   = \<lparr>tw_linear = Fin (1/2), tw_angular = Fin (1/3)\<rparr>"
  by (rule kinematics_roundtrip [OF demo_sound(1)]) (simp_all add: development_default_def)

lemma odometry_follows_time_witness:
  "\<exists>f. base_run flat_trig demo_events demo_facade = (f, Inr ())
     \<and> sorted_wrt (\<lambda>a b. flt (oe_stamp a) (oe_stamp b)) (bf_odom f)"
  using odometry_follows_time [OF demo_sound demo_facade_new, of demo_events] by (auto simp: demo_events_def)

end
