(* ===== verification/Occupancy.thy ===== *)
theory Occupancy
  imports Sim_Prelude "HOL-Library.Product_Lexorder"
begin

text \<open>
  The occupancy map of the arena (\<open>tinker_sim_core/occupancy.py\<close>): reading a PGM image, looking up a
  point, covering the occupied cells with rectangles, casting rays one by one and many at a time,
  and finding free space. The map and the points have finite coordinates, which are rationals here;
  a zero resolution raises in Python when it is divided by, and is excluded by the theorems.
  \<open>math.cos\<close> and \<open>math.sin\<close> round: they are arguments. Caches of derived arrays are left out. Looking up a cell
  in rows that are shorter than the map raises an \<open>IndexError\<close> that is not modelled: where it matters, the theorems
  ask that the rows fit the map.
\<close>

section \<open>The map\<close>

record occupancy =
  oc_width :: int
  oc_height :: int
  oc_resolution :: rat
  oc_x :: rat
  oc_y :: rat
  oc_rows :: "bool list list"

definition cell_of :: "occupancy \<Rightarrow> rat \<Rightarrow> rat \<Rightarrow> int \<times> int" where
  "cell_of m x y = (\<lfloor>(x - oc_x m) / oc_resolution m\<rfloor>, \<lfloor>(y - oc_y m) / oc_resolution m\<rfloor>)"

definition outside :: "occupancy \<Rightarrow> int \<times> int \<Rightarrow> bool" where
  "outside m g \<longleftrightarrow> fst g < 0 \<or> snd g < 0 \<or> fst g \<ge> oc_width m \<or> snd g \<ge> oc_height m"

definition cell :: "occupancy \<Rightarrow> int \<times> int \<Rightarrow> bool" where
  "cell m g = oc_rows m ! nat (snd g) ! nat (fst g)"

definition occupied_at_world :: "occupancy \<Rightarrow> rat \<Rightarrow> rat \<Rightarrow> bool" where
  "occupied_at_world m x y = (let g = cell_of m x y in if outside m g then True else cell m g)"

section \<open>Reading a PGM image\<close>

text \<open>The header's tokens: white space and comments are skipped before each one. At the end of the data
  the token is empty.\<close>

definition next_token :: "string \<Rightarrow> string" where
  "next_token = dropWhile is_space"

definition at_comment :: "string \<Rightarrow> bool" where
  "at_comment d \<longleftrightarrow> d \<noteq> [] \<and> hd d = CHR ''#''"

definition end_of_line :: "string \<Rightarrow> string" where
  "end_of_line d = dropWhile (\<lambda>c. (of_char c :: nat) \<noteq> 10 \<and> (of_char c :: nat) \<noteq> 13) d"

definition take_token :: "string \<Rightarrow> string \<times> string" where
  "take_token d = (takeWhile (\<lambda>c. \<not> is_space c) d, dropWhile (\<lambda>c. \<not> is_space c) d)"

lemma comment_shorter: "at_comment (next_token d) \<Longrightarrow> length (end_of_line (next_token d)) < length d"
proof -
  assume c: "at_comment (next_token d)"
  then obtain cs where cs: "next_token d = CHR ''#'' # cs" by (cases "next_token d") (auto simp: at_comment_def)
  have "length (end_of_line (CHR ''#'' # cs)) \<le> length cs"
    by (simp add: end_of_line_def length_dropWhile_le)
  moreover have "length (next_token d) \<le> length d" by (simp add: next_token_def length_dropWhile_le)
  ultimately show ?thesis unfolding cs by simp
qed

function pgm_tokens :: "nat \<Rightarrow> string \<Rightarrow> string list \<times> string" where
  "pgm_tokens n data =
     (if n = 0 then ([], data)
      else if at_comment (next_token data) then pgm_tokens n (end_of_line (next_token data))
      else case take_token (next_token data) of (token, rest) \<Rightarrow>
        (case pgm_tokens (n - 1) rest of (tokens, rest') \<Rightarrow> (token # tokens, rest')))"
  by pat_completeness auto
termination by (relation "measures [fst, \<lambda>(n, data). length data]") (auto simp: comment_shorter)

definition pgm_rows :: "nat \<Rightarrow> nat \<Rightarrow> nat \<Rightarrow> string \<Rightarrow> bool list list" where
  "pgm_rows width height threshold pixels =
     map (\<lambda>world_y. map (\<lambda>c. (of_char c :: nat) \<le> threshold)
                        (take width (drop ((height - 1 - world_y) * width) pixels))) [0..<height]"

definition from_pgm :: "nat \<Rightarrow> rat \<Rightarrow> rat \<Rightarrow> rat \<Rightarrow> string \<Rightarrow> occupancy res" where
  "from_pgm threshold resolution origin_x origin_y data =
     (if \<not> startswith data ''P5'' then Inl (ValueError ''only binary P5 PGM maps are supported'')
      else case pgm_tokens 3 (drop 2 data) of (tokens, rest) \<Rightarrow>
        (case (int_token (tokens ! 0), int_token (tokens ! 1), int_token (tokens ! 2)) of
           (Inr width, Inr height, Inr maximum) \<Rightarrow>
             if maximum \<noteq> 255 then Inl (ValueError ''PGM maximum value must be 255'')
             else
               let body = dropWhile is_space rest; pixels = take (nat (width * height)) body
               in if int (length pixels) \<noteq> width * height
                  then Inl (ValueError ''PGM pixel data is truncated'')
                  else Inr \<lparr>oc_width = width, oc_height = height, oc_resolution = resolution,
                         oc_x = origin_x, oc_y = origin_y,
                         oc_rows = pgm_rows (nat width) (nat height) threshold pixels\<rparr>
         | (Inl e, _, _) \<Rightarrow> Inl e
         | (_, Inl e, _) \<Rightarrow> Inl e
         | (_, _, Inl e) \<Rightarrow> Inl e))"

section \<open>Rectangles\<close>

text \<open>The maximal runs of occupied cells of a row, from column \<open>x\<close> on: outside a run, or in one that began
  at a column.\<close>

fun find_runs :: "nat \<Rightarrow> nat option \<Rightarrow> bool list \<Rightarrow> (nat \<times> nat) list" where
  "find_runs x begun [] = (case begun of None \<Rightarrow> [] | Some start \<Rightarrow> [(start, x)])"
| "find_runs x None (c # cells) = find_runs (Suc x) (if c then Some x else None) cells"
| "find_runs x (Some start) (c # cells) =
     (if c then find_runs (Suc x) (Some start) cells else (start, x) # find_runs (Suc x) None cells)"

type_synonym run = "nat \<times> nat"
type_synonym rectangle = "nat \<times> nat \<times> nat \<times> nat"

definition closed_rect :: "run \<times> nat \<times> nat \<Rightarrow> rectangle" where
  "closed_rect a = (case a of (run, start_y, last_y) \<Rightarrow> (fst run, snd run, start_y, last_y + 1))"

fun extend_runs :: "nat \<Rightarrow> run list \<Rightarrow> (run \<times> nat \<times> nat) list \<Rightarrow> (run \<times> nat \<times> nat) list" where
  "extend_runs y [] active = active"
| "extend_runs y (run # runs) active =
     extend_runs y runs
       (dict_set run (case map_of active run of Some (start_y, last_y) \<Rightarrow> (start_y, y) | None \<Rightarrow> (y, y)) active)"

definition row_step :: "nat \<Rightarrow> bool list \<Rightarrow> (run \<times> nat \<times> nat) list \<times> rectangle list
    \<Rightarrow> (run \<times> nat \<times> nat) list \<times> rectangle list" where
  "row_step y row state =
     (case state of (active, finished) \<Rightarrow>
        let runs = find_runs 0 None row
        in (extend_runs y runs (filter (\<lambda>a. fst a \<in> set runs) active),
            finished @ map closed_rect (filter (\<lambda>a. fst a \<notin> set runs) active)))"

fun rows_loop :: "nat \<Rightarrow> bool list list \<Rightarrow> (run \<times> nat \<times> nat) list \<times> rectangle list
    \<Rightarrow> (run \<times> nat \<times> nat) list \<times> rectangle list" where
  "rows_loop y [] state = state"
| "rows_loop y (row # rows) state = rows_loop (Suc y) rows (row_step y row state)"

definition grid_rectangles :: "bool list list \<Rightarrow> rectangle list" where
  "grid_rectangles rows =
     (case rows_loop 0 rows ([], []) of (active, finished) \<Rightarrow>
        sort_key (\<lambda>(x0, x1, y0, y1). (y0, x0)) (finished @ map closed_rect active))"

definition world_rectangle :: "occupancy \<Rightarrow> rectangle \<Rightarrow> rat \<times> rat \<times> rat \<times> rat" where
  "world_rectangle m r =
     (case r of (x0, x1, y0, y1) \<Rightarrow>
        (oc_x m + (of_nat x0 + of_nat x1) * oc_resolution m / 2,
         oc_y m + (of_nat y0 + of_nat y1) * oc_resolution m / 2,
         (of_nat x1 - of_nat x0) * oc_resolution m, (of_nat y1 - of_nat y0) * oc_resolution m))"

text \<open>Only the first \<open>width\<close> cells of a row are visited; a shorter row raises.\<close>

definition rectangles :: "occupancy \<Rightarrow> (rat \<times> rat \<times> rat \<times> rat) list res" where
  "rectangles m =
     (if list_ex (\<lambda>row. int (length row) < oc_width m) (oc_rows m)
      then Inl (OtherError ''tuple index out of range'')
      else Inr (map (world_rectangle m) (grid_rectangles (map (take (nat (oc_width m))) (oc_rows m)))))"

section \<open>Rays\<close>

record ray_trig =
  rt_cos :: "rat \<Rightarrow> rat"
  rt_sin :: "rat \<Rightarrow> rat"

definition sample_occupied :: "ray_trig \<Rightarrow> occupancy \<Rightarrow> rat \<Rightarrow> rat \<Rightarrow> rat \<Rightarrow> rat \<Rightarrow> bool" where
  "sample_occupied tg m x y angle distance =
     occupied_at_world m (x + rt_cos tg angle * distance) (y + rt_sin tg angle * distance)"

text \<open>The loop of \<open>raycast\<close>. Without a positive step it may not end, and the value is \<open>None\<close>.\<close>

partial_function (option) raycast_from :: "(rat \<Rightarrow> bool) \<Rightarrow> rat \<Rightarrow> rat \<Rightarrow> rat \<Rightarrow> pyfloat option" where
  "raycast_from hit step maximum distance =
     (if distance \<le> maximum then
        (if hit distance then Some (Fin distance) else raycast_from hit step maximum (distance + step))
      else Some PInf)"

definition raycast :: "ray_trig \<Rightarrow> occupancy \<Rightarrow> rat \<Rightarrow> rat \<Rightarrow> rat \<Rightarrow> rat \<Rightarrow> rat \<Rightarrow> pyfloat option" where
  "raycast tg m x y angle minimum maximum =
     raycast_from (sample_occupied tg m x y angle) (oc_resolution m / 2) maximum minimum"

partial_function (option) distance_ladder :: "rat \<Rightarrow> rat \<Rightarrow> rat \<Rightarrow> rat list option" where
  "distance_ladder step maximum distance =
     (if distance \<le> maximum then
        Option.bind (distance_ladder step maximum (distance + step)) (\<lambda>ladder. Some (distance # ladder))
      else Some [])"

text \<open>
  \<open>_grid_array\<close>: the rows as one array of \<open>height\<close> by \<open>width\<close> cells, here one row after the other. Rows of different
  lengths do not form an array, and a wrong number of cells cannot be reshaped.
\<close>

definition grid_array :: "occupancy \<Rightarrow> bool list res" where
  "grid_array m =
     (let rows = oc_rows m; cells = concat rows in
      if list_ex (\<lambda>row. length row \<noteq> length (hd rows)) rows then Inl (ValueError ''the rows have an inhomogeneous shape'')
      else if int (length cells) \<noteq> oc_height m * oc_width m then Inl (ValueError ''cannot reshape array'')
      else Inr cells)"

text \<open>The lookup of the vectorised version: the cell is clipped into the grid, and outside counts as a hit.\<close>

definition clip :: "int \<Rightarrow> int \<Rightarrow> int \<Rightarrow> int" where
  "clip v lo hi = min (max v lo) hi"

definition vector_hit :: "ray_trig \<Rightarrow> occupancy \<Rightarrow> bool list \<Rightarrow> rat \<Rightarrow> rat \<Rightarrow> rat \<Rightarrow> rat \<Rightarrow> bool" where
  "vector_hit tg m grid x y angle d =
     (let g = cell_of m (x + rt_cos tg angle * d) (y + rt_sin tg angle * d);
          ix = clip (fst g) 0 (oc_width m - 1); iy = clip (snd g) 0 (oc_height m - 1)
      in outside m g \<or> grid ! nat (iy * oc_width m + ix))"

text \<open>\<open>argmax\<close> of a row of truth values: the first true one, or zero.\<close>

definition argmax :: "bool list \<Rightarrow> nat" where
  "argmax hits = (case first_index True hits of Some i \<Rightarrow> i | None \<Rightarrow> 0)"

text \<open>One chunk of the ladder over all pending rays: the rays that hit get their distance, the others stay.\<close>

definition chunk_step :: "(nat \<Rightarrow> rat \<Rightarrow> bool) \<Rightarrow> rat list \<Rightarrow> nat list \<times> pyfloat list \<Rightarrow> nat list \<times> pyfloat list" where
  "chunk_step hit seg state =
     (case state of (pending, result) \<Rightarrow>
        let first = (\<lambda>ray. argmax (map (hit ray) seg));
            resolved = (\<lambda>ray. hit ray (seg ! first ray))
        in (filter (\<lambda>ray. \<not> resolved ray) pending,
            foldl (\<lambda>r ray. r[ray := Fin (seg ! first ray)]) result (filter resolved pending)))"

text \<open>Marching the ladder in chunks of positive size, until no ray is pending.\<close>

function march :: "(nat \<Rightarrow> rat \<Rightarrow> bool) \<Rightarrow> nat \<Rightarrow> rat list \<Rightarrow> nat list \<times> pyfloat list \<Rightarrow> pyfloat list" where
  "march hit chunk ladder state =
     (if ladder = [] \<or> chunk = 0 then snd state
      else case chunk_step hit (take chunk ladder) state of
             (pending, result) \<Rightarrow>
               if pending = [] then result else march hit chunk (drop chunk ladder) (pending, result))"
  by pat_completeness auto
termination by (relation "measure (\<lambda>(hit, chunk, ladder, state). length ladder)") auto

text \<open>\<open>None\<close> is a ladder that does not end; an empty grid has no cell to look up.\<close>

definition raycast_many ::
  "ray_trig \<Rightarrow> occupancy \<Rightarrow> rat \<Rightarrow> rat \<Rightarrow> rat list \<Rightarrow> rat \<Rightarrow> rat \<Rightarrow> nat \<Rightarrow> pyfloat list res option" where
  "raycast_many tg m x y angles minimum maximum chunk =
     (if angles = [] then Some (Inr [])
      else case distance_ladder (oc_resolution m / 2) maximum minimum of
        None \<Rightarrow> None
      | Some ladder \<Rightarrow>
          if ladder = [] then Some (Inr (replicate (length angles) PInf))
          else case grid_array m of
            Inl e \<Rightarrow> Some (Inl e)
          | Inr grid \<Rightarrow>
              if chunk = 0 then Some (Inl (ValueError ''range() arg 3 must not be zero''))
              else if oc_width m \<le> 0 \<or> oc_height m \<le> 0 then Some (Inl (OtherError ''index out of bounds''))
              else Some (Inr (march (\<lambda>ray. vector_hit tg m grid x y (angles ! ray)) chunk ladder
                               ([0..<length angles], replicate (length angles) PInf))))"

section \<open>Free space\<close>

text \<open>\<open>int\<close> of a number cuts towards zero.\<close>

definition truncate :: "rat \<Rightarrow> int" where
  "truncate q = (if q < 0 then \<lceil>q\<rceil> else \<lfloor>q\<rfloor>)"

definition free_with_clearance :: "occupancy \<Rightarrow> rat \<Rightarrow> rat \<Rightarrow> rat \<Rightarrow> bool res" where
  "free_with_clearance m x y clearance =
     (if clearance < 0 then Inl (ValueError ''clearance must be non-negative'')
      else
        let step = oc_resolution m; steps = truncate (clearance / step) + 1
        in Inr (list_all (\<lambda>gx. list_all (\<lambda>gy.
             let dx = of_int gx * step; dy = of_int gy * step
             in dx * dx + dy * dy > clearance * clearance \<or> \<not> occupied_at_world m (x + dx) (y + dy))
             [- steps..steps]) [- steps..steps]))"

text \<open>The candidates of a ring, with the squared distance in cells.\<close>

definition ring_candidates :: "occupancy \<Rightarrow> rat \<Rightarrow> rat \<Rightarrow> rat \<Rightarrow> int \<Rightarrow> (int \<times> rat \<times> rat) list" where
  "ring_candidates m x y clearance ring =
     (let step = oc_resolution m in
      filter (\<lambda>(d, cx, cy). free_with_clearance m cx cy clearance = Inr True)
        (concat (map (\<lambda>gx. map (\<lambda>gy. (gx * gx + gy * gy, x + of_int gx * step, y + of_int gy * step))
                               (filter (\<lambda>gy. max \<bar>gx\<bar> \<bar>gy\<bar> = ring) [- ring..ring]))
                     [- ring..ring])))"

text \<open>\<open>round(v, 3)\<close> of an exact value: half to even.\<close>

definition round3 :: "rat \<Rightarrow> rat" where
  "round3 v =
     (let s = v * 1000; f = \<lfloor>s\<rfloor>; d = s - of_int f
      in of_int (if d < 1/2 then f else if d > 1/2 then f + 1 else if even f then f else f + 1) / 1000)"

definition before :: "int \<times> rat \<times> rat \<Rightarrow> int \<times> rat \<times> rat \<Rightarrow> bool" where
  "before a b \<longleftrightarrow>
     fst a < fst b \<or> fst a = fst b \<and>
       (fst (snd a) < fst (snd b) \<or> fst (snd a) = fst (snd b) \<and> snd (snd a) < snd (snd b))"

definition nearest_of :: "(int \<times> rat \<times> rat) list \<Rightarrow> int \<times> rat \<times> rat" where
  "nearest_of cs = foldl (\<lambda>a b. if before b a then b else a) (hd cs) (tl cs)"

partial_function (option) ring_search :: "occupancy \<Rightarrow> rat \<Rightarrow> rat \<Rightarrow> rat \<Rightarrow> rat \<Rightarrow> int \<Rightarrow> (int \<times> rat \<times> rat) option option" where
  "ring_search m x y clearance max_radius ring =
     (if of_int ring * oc_resolution m \<le> max_radius then
        (let candidates = ring_candidates m x y clearance ring
         in if candidates \<noteq> [] then Some (Some (nearest_of candidates))
            else ring_search m x y clearance max_radius (ring + 1))
      else Some None)"

text \<open>\<open>None\<close> is a search that does not end.\<close>

definition nearest_free_world :: "occupancy \<Rightarrow> rat \<Rightarrow> rat \<Rightarrow> rat \<Rightarrow> rat \<Rightarrow> (rat \<times> rat) option res option" where
  "nearest_free_world m x y clearance max_radius =
     (case free_with_clearance m x y clearance of
        Inl e \<Rightarrow> Some (Inl e)
      | Inr True \<Rightarrow> Some (Inr (Some (x, y)))
      | Inr False \<Rightarrow>
          (case ring_search m x y clearance max_radius 1 of
             None \<Rightarrow> None
           | Some None \<Rightarrow> Some (Inr None)
           | Some (Some (d, cx, cy)) \<Rightarrow> Some (Inr (Some (round3 cx, round3 cy)))))"

text \<open>The loops are unfolded one round at a time.\<close>

declare pgm_tokens.simps [simp del] march.simps [simp del]

end
