(* ===== verification/Occupancy_Spec.thy ===== *)
theory Occupancy_Spec
  imports Occupancy
begin

text \<open>
  The occupancy map: its rectangles tile the occupied cells, casting many rays at once is casting each
  of them, a written image reads back as its map, and free space is what it claims to be.
\<close>

section \<open>Rectangles\<close>

definition in_run :: "nat \<Rightarrow> run \<Rightarrow> bool" where
  "in_run g r \<longleftrightarrow> fst r \<le> g \<and> g < snd r"

definition set_cell :: "bool list \<Rightarrow> nat \<Rightarrow> bool" where
  "set_cell row g \<longleftrightarrow> g < length row \<and> row ! g"

lemma find_runs_bounds: "r \<in> set (find_runs x begun cells) \<Longrightarrow> (case begun of None \<Rightarrow> x | Some s \<Rightarrow> min s x) \<le> fst r"
  by (induction x begun cells rule: find_runs.induct) (auto split: if_splits option.splits)

lemma find_runs_distinct: "(case begun of None \<Rightarrow> True | Some s \<Rightarrow> s < x) \<Longrightarrow> distinct (find_runs x begun cells)"
  by (induction x begun cells rule: find_runs.induct)
    (auto split: option.splits dest!: find_runs_bounds)

lemma set_cell_Cons: "set_cell (c # cells) n \<longleftrightarrow> (if n = 0 then c else set_cell cells (n - 1))"
  by (cases n) (auto simp: set_cell_def)

lemma set_cell_Nil [simp]: "\<not> set_cell [] n"
  by (simp add: set_cell_def)

lemma find_runs_cover:
  "(case begun of None \<Rightarrow> True | Some s \<Rightarrow> s < x) \<Longrightarrow>
   length (filter (in_run g) (find_runs x begun cells))
     = (if (case begun of None \<Rightarrow> False | Some s \<Rightarrow> s \<le> g \<and> g < x) \<or> x \<le> g \<and> set_cell cells (g - x) then 1 else 0)"
  by (induction x begun cells rule: find_runs.induct)
    (auto simp: in_run_def set_cell_Cons Suc_le_eq le_less_Suc_eq split: option.splits if_splits)

lemma row_runs:
  "distinct (find_runs 0 None row)"
  "length (filter (in_run g) (find_runs 0 None row)) = (if set_cell row g then 1 else 0)"
  using find_runs_distinct [where begun = None and x = 0 and cells = row]
    find_runs_cover [where begun = None and x = 0 and cells = row and g = g] by simp_all

lemma dict_set_keys:
  "set (map fst (dict_set k v xs)) = insert k (set (map fst xs))"
  "distinct (map fst xs) \<Longrightarrow> distinct (map fst (dict_set k v xs))"
proof -
  show keys: "set (map fst (dict_set k v xs)) = insert k (set (map fst xs))" for xs
    by (induction k v xs rule: dict_set.induct) auto
  show "distinct (map fst xs) \<Longrightarrow> distinct (map fst (dict_set k v xs))"
    using keys by (induction k v xs rule: dict_set.induct) auto
qed

lemma extend_runs_spec:
  assumes "distinct (map fst active)" "distinct runs"
  shows "distinct (map fst (extend_runs y runs active))"
    "map_of (extend_runs y runs active) r =
       (if r \<in> set runs then Some (case map_of active r of Some (s, l) \<Rightarrow> (s, y) | None \<Rightarrow> (y, y)) else map_of active r)"
  using assms by (induction y runs active rule: extend_runs.induct) (auto simp: dict_set_keys)

lemma map_of_filter_key: "map_of (filter (\<lambda>a. fst a \<in> K) xs) k = (if k \<in> K then map_of xs k else None)"
  by (induction xs) auto

text \<open>How many rectangles hold a cell.\<close>

definition holds :: "nat \<Rightarrow> nat \<Rightarrow> rectangle \<Rightarrow> bool" where
  "holds gx gy r = (case r of (x0, x1, y0, y1) \<Rightarrow> x0 \<le> gx \<and> gx < x1 \<and> y0 \<le> gy \<and> gy < y1)"

definition count :: "nat \<Rightarrow> nat \<Rightarrow> rectangle list \<Rightarrow> nat" where
  "count gx gy rs = length (filter (holds gx gy) rs)"

definition open_keys :: "(run \<times> nat \<times> nat) list \<Rightarrow> nat \<Rightarrow> nat \<Rightarrow> run set" where
  "open_keys active gx gy = {r. \<exists>s l. map_of active r = Some (s, l) \<and> in_run gx r \<and> s \<le> gy \<and> gy \<le> l}"

lemma count_active:
  assumes "distinct (map fst active)"
  shows "count gx gy (map closed_rect active) = card (open_keys active gx gy)"
proof -
  have "distinct active" using assms by (simp add: distinct_map)
  then have "count gx gy (map closed_rect active) = card {a \<in> set active. holds gx gy (closed_rect a)}"
    by (simp add: count_def filter_map comp_def distinct_length_filter Int_def conj_commute)
  also have "\<dots> = card (fst ` {a \<in> set active. holds gx gy (closed_rect a)})"
    using assms by (intro card_image [symmetric]) (auto simp: distinct_map inj_on_def)
  also have "fst ` {a \<in> set active. holds gx gy (closed_rect a)} = open_keys active gx gy"
    using assms by (force simp: open_keys_def holds_def closed_rect_def in_run_def image_iff less_Suc_eq_le)
  finally show ?thesis .
qed

lemma count_append [simp]: "count gx gy (a @ b) = count gx gy a + count gx gy b"
  by (simp add: count_def)

lemma count_split:
  "count gx gy (map closed_rect a) = count gx gy (map closed_rect (filter P a)) + count gx gy (map closed_rect (filter (\<lambda>x. \<not> P x) a))"
  by (induction a) (auto simp: count_def)

text \<open>After \<open>y\<close> rows the finished and the open rectangles hold every set cell of these rows once.\<close>

definition tiled :: "bool list list \<Rightarrow> nat \<Rightarrow> (run \<times> nat \<times> nat) list \<times> rectangle list \<Rightarrow> bool" where
  "tiled rows y state \<longleftrightarrow>
     (case state of (active, finished) \<Rightarrow>
        distinct (map fst active) \<and> (\<forall>(r, s, l) \<in> set active. s \<le> l \<and> Suc l = y) \<and> (\<forall>(x0, x1, y0, y1) \<in> set finished. y1 \<le> y)
        \<and> (\<forall>gx gy. gy < y \<longrightarrow> count gx gy (finished @ map closed_rect active) = (if set_cell (rows ! gy) gx then 1 else 0)))"

lemma row_step_tiled:
  assumes t: "tiled rows y (active, finished)"
  shows "tiled rows (Suc y) (row_step y (rows ! y) (active, finished))"
proof -
  let ?runs = "find_runs 0 None (rows ! y)"
  let ?P = "\<lambda>a. fst a \<in> set ?runs"
  let ?kept = "filter ?P active" and ?closed = "map closed_rect (filter (\<lambda>a. \<not> ?P a) active)"
  let ?new = "extend_runs y ?runs ?kept"
  have d: "distinct (map fst active)" "distinct (map fst ?kept)" and l: "\<And>r s l. (r, s, l) \<in> set active \<Longrightarrow> s \<le> l \<and> Suc l = y"
    using t by (auto simp: tiled_def distinct_map inj_on_def)
  note e = extend_runs_spec [OF d(2) row_runs(1) [of "rows ! y"], where y = y]
  have kept: "map_of ?kept r = (if r \<in> set ?runs then map_of active r else None)" for r
    by (rule map_of_filter_key)
  have new: "map_of ?new r = (if r \<in> set ?runs then Some (case map_of active r of Some (s, l) \<Rightarrow> (s, y) | None \<Rightarrow> (y, y)) else None)" for r
    using e(2) [of r] kept [of r] by simp
  have old: "s \<le> l \<and> Suc l = y" if "map_of active r = Some (s, l)" for r s l
    using l [OF map_of_SomeD [OF that]] .
  have below: "open_keys ?new gx gy = open_keys ?kept gx gy" if "gy < y" for gx gy
    using that old by (force simp: open_keys_def new kept split: option.splits)
  have row: "open_keys ?new gx y = {r \<in> set ?runs. in_run gx r}" for gx
    using old by (force simp: open_keys_def new split: option.splits)
  have new_values: "s \<le> y \<and> l = y" if "(r, s, l) \<in> set ?new" for r s l
  proof -
    have "map_of ?new r = Some (s, l)" using that e(1) by (simp add: map_of_eq_Some_iff)
    then show ?thesis using old [of r] by (auto simp: new split: if_splits option.splits)
  qed
  have "count gx gy ((finished @ ?closed) @ map closed_rect ?new) = (if set_cell (rows ! gy) gx then 1 else 0)" if "gy < Suc y" for gx gy
  proof (cases "gy = y")
    case True
    have "count gx y (finished @ ?closed) = 0"
      using t l by (fastforce simp: tiled_def count_def filter_empty_conv holds_def closed_rect_def)
    moreover have "card (open_keys ?new gx y) = (if set_cell (rows ! y) gx then 1 else 0)"
      unfolding row using distinct_length_filter [OF row_runs(1), of "in_run gx" "rows ! y"] row_runs(2) [of gx "rows ! y"]
      by (simp add: Int_def conj_commute)
    ultimately show ?thesis using True count_active [OF e(1)] by simp
  next
    case False
    then have "gy < y" using that by simp
    then have "count gx gy finished + count gx gy (map closed_rect active) = (if set_cell (rows ! gy) gx then 1 else 0)"
      using t by (simp add: tiled_def)
    then show ?thesis
      unfolding count_append count_active [OF e(1)] below [OF \<open>gy < y\<close>] count_active [OF d(2), symmetric]
        count_split [of gx gy active ?P] by simp
  qed
  moreover have "y1 \<le> Suc y" if r: "(x0, x1, y0, y1) \<in> set (finished @ ?closed)" for x0 x1 y0 y1
  proof (cases "(x0, x1, y0, y1) \<in> set finished")
    case True
    then show ?thesis using t by (auto simp: tiled_def)
  next
    case False
    then obtain k s' l' where "(k, s', l') \<in> set active" "y1 = Suc l'" using r by (auto simp: closed_rect_def)
    then show ?thesis using l by auto
  qed
  ultimately show ?thesis using e(1) new_values
    unfolding tiled_def row_step_def Let_def prod.case by blast
qed

lemma rows_loop_tiled:
  "tiled (done @ rows) (length done) state \<Longrightarrow> tiled (done @ rows) (length (done @ rows)) (rows_loop (length done) rows state)"
proof (induction rows arbitrary: "done" state)
  case (Cons row rows)
  obtain active finished where s: "state = (active, finished)" by (cases state)
  have "tiled (done @ row # rows) (Suc (length done)) (row_step (length done) row state)"
    using row_step_tiled [OF Cons.prems [unfolded s]] unfolding s by (simp add: nth_append)
  then show ?case using Cons.IH [of "done @ [row]" "row_step (length done) row state"] by simp
qed simp

lemma grid_rectangles_tile:
  "count gx gy (grid_rectangles rows) = (if gy < length rows \<and> set_cell (rows ! gy) gx then 1 else 0)"
proof -
  obtain active finished where l: "rows_loop 0 rows ([], []) = (active, finished)" by force
  have t: "tiled rows (length rows) (active, finished)"
    using rows_loop_tiled [of "[]" rows "([], [])"] l by (simp add: tiled_def count_def)
  have "count gx gy (grid_rectangles rows) = count gx gy (finished @ map closed_rect active)"
    unfolding grid_rectangles_def l count_def by (simp add: filter_sort)
  also have "\<dots> = (if gy < length rows \<and> set_cell (rows ! gy) gx then 1 else 0)"
  proof (cases "gy < length rows")
    case True
    then show ?thesis using t by (simp add: tiled_def)
  next
    case False
    have "count gx gy finished = 0" "count gx gy (map closed_rect active) = 0"
      using t False by (fastforce simp: tiled_def count_def filter_empty_conv holds_def closed_rect_def)+
    then show ?thesis using False by simp
  qed
  finally show ?thesis .
qed

definition well_formed :: "occupancy \<Rightarrow> bool" where
  "well_formed m \<longleftrightarrow> 0 < oc_resolution m \<and> int (length (oc_rows m)) = oc_height m
     \<and> list_all (\<lambda>row. int (length row) = oc_width m) (oc_rows m)"

definition world_holds :: "rat \<Rightarrow> rat \<Rightarrow> rat \<times> rat \<times> rat \<times> rat \<Rightarrow> bool" where
  "world_holds x y r = (case r of (cx, cy, sx, sy) \<Rightarrow>
     cx - sx / 2 \<le> x \<and> x < cx + sx / 2 \<and> cy - sy / 2 \<le> y \<and> y < cy + sy / 2)"

lemma between_cells:
  fixes res :: rat
  assumes "0 < res"
  shows "of_nat a * res + ox \<le> x \<longleftrightarrow> int a \<le> \<lfloor>(x - ox) / res\<rfloor>" "x < of_nat a * res + ox \<longleftrightarrow> \<lfloor>(x - ox) / res\<rfloor> < int a"
  using assms by (simp_all add: le_floor_iff floor_less_iff field_simps)

lemma world_holds_iff:
  assumes "0 < oc_resolution m"
  shows "world_holds x y (world_rectangle m (x0, x1, y0, y1)) \<longleftrightarrow>
    (case cell_of m x y of (gx, gy) \<Rightarrow> int x0 \<le> gx \<and> gx < int x1 \<and> int y0 \<le> gy \<and> gy < int y1)"
proof -
  let ?r = "oc_resolution m"
  have "world_holds x y (world_rectangle m (x0, x1, y0, y1)) \<longleftrightarrow>
      of_nat x0 * ?r + oc_x m \<le> x \<and> x < of_nat x1 * ?r + oc_x m \<and> of_nat y0 * ?r + oc_y m \<le> y \<and> y < of_nat y1 * ?r + oc_y m"
  proof -
    have edges: "o' + (of_nat a + of_nat b) * ?r / 2 - (of_nat b - of_nat a) * ?r / 2 = of_nat a * ?r + o'"
      "o' + (of_nat a + of_nat b) * ?r / 2 + (of_nat b - of_nat a) * ?r / 2 = of_nat b * ?r + o'" for o' :: rat and a b :: nat
      by (simp_all add: field_simps)
    show ?thesis unfolding world_holds_def world_rectangle_def prod.case edges by blast
  qed
  then show ?thesis using between_cells [OF assms] by (simp add: cell_of_def)
qed

text \<open>C18: The rectangles tile the occupied cells. For a map whose rows fit its size, every point of the plane
  lies in exactly one of the rectangles if it is inside the map and its cell is occupied, and in
  none otherwise.\<close>
theorem rectangles_tile_world:
  assumes "well_formed m"
  shows "\<exists>rs. rectangles m = Inr rs \<and>
    length (filter (world_holds x y) rs) = (if \<not> outside m (cell_of m x y) \<and> occupied_at_world m x y then 1 else 0)"
proof -
  have res: "0 < oc_resolution m" and w: "\<And>row. row \<in> set (oc_rows m) \<Longrightarrow> int (length row) = oc_width m"
    and h: "int (length (oc_rows m)) = oc_height m"
    using assms by (auto simp: well_formed_def list_all_iff)
  have rows: "map (take (nat (oc_width m))) (oc_rows m) = oc_rows m"
    by (rule map_idI) (use w in fastforce)
  have "rectangles m = Inr (map (world_rectangle m) (grid_rectangles (oc_rows m)))"
    using w by (auto simp: rectangles_def rows list_ex_iff)
  moreover have "length (filter (world_holds x y) (map (world_rectangle m) (grid_rectangles (oc_rows m))))
      = (if \<not> outside m (cell_of m x y) \<and> occupied_at_world m x y then 1 else 0)"
  proof (cases "fst (cell_of m x y) < 0 \<or> snd (cell_of m x y) < 0")
    case True
    have "\<not> world_holds x y (world_rectangle m r)" for r
      using True by (cases r) (auto simp: world_holds_iff [OF res] split: prod.splits)
    then show ?thesis using True by (auto simp: filter_map comp_def outside_def)
  next
    case False
    obtain gx gy where g: "cell_of m x y = (int gx, int gy)"
      using False by (cases "cell_of m x y") (metis nonneg_int_cases not_less fst_conv snd_conv)
    have "world_holds x y (world_rectangle m r) = holds gx gy r" for r
      by (cases r) (simp add: world_holds_iff [OF res] g holds_def)
    then have "length (filter (world_holds x y) (map (world_rectangle m) (grid_rectangles (oc_rows m)))) = count gx gy (grid_rectangles (oc_rows m))"
      by (simp add: filter_map comp_def count_def)
    also have "\<dots> = (if gy < length (oc_rows m) \<and> set_cell (oc_rows m ! gy) gx then 1 else 0)"
      by (rule grid_rectangles_tile)
    also have "gy < length (oc_rows m) \<and> set_cell (oc_rows m ! gy) gx \<longleftrightarrow> \<not> outside m (cell_of m x y) \<and> occupied_at_world m x y"
      using h w [OF nth_mem, of gy] by (auto simp: g outside_def occupied_at_world_def cell_def set_cell_def Let_def)
    finally show ?thesis .
  qed
  ultimately show ?thesis by blast
qed

section \<open>Rays\<close>

text \<open>The reference: the first sample of the ladder that is a hit.\<close>

definition first_hit :: "(rat \<Rightarrow> bool) \<Rightarrow> rat list \<Rightarrow> pyfloat" where
  "first_hit hit ladder = (case find hit ladder of Some d \<Rightarrow> Fin d | None \<Rightarrow> PInf)"

lemma first_hit_simps [simp]:
  "first_hit hit [] = PInf"
  "first_hit hit (d # ds) = (if hit d then Fin d else first_hit hit ds)"
  by (simp_all add: first_hit_def)

lemma first_hit_append: "first_hit hit (a @ b) = (if \<exists>d \<in> set a. hit d then first_hit hit a else first_hit hit b)"
  by (induction a) auto

definition samples :: "rat \<Rightarrow> rat \<Rightarrow> nat \<Rightarrow> rat list" where
  "samples step distance n = map (\<lambda>k. distance + of_nat k * step) [0..<n]"

lemma samples_Suc: "samples step distance (Suc n) = distance # samples step (distance + step) n"
  by (rule nth_equalityI) (auto simp: samples_def nth_Cons algebra_simps simp del: upt_Suc split: nat.split)

text \<open>With a positive step both loops end after the same samples.\<close>

lemma loops_end:
  "maximum < distance \<Longrightarrow> distance_ladder step maximum distance = Some []"
  "maximum < distance \<Longrightarrow> raycast_from hit step maximum distance = Some PInf"
  by (subst distance_ladder.simps, simp) (subst raycast_from.simps, simp)

lemma loops_go:
  "distance \<le> maximum \<Longrightarrow> distance_ladder step maximum (distance + step) = Some ladder \<Longrightarrow>
     distance_ladder step maximum distance = Some (distance # ladder)"
  "distance \<le> maximum \<Longrightarrow> raycast_from hit step maximum (distance + step) = Some (first_hit hit ladder) \<Longrightarrow>
     raycast_from hit step maximum distance = Some (first_hit hit (distance # ladder))"
  by (subst distance_ladder.simps, simp) (subst raycast_from.simps, simp)

lemma above_all: "0 < step \<Longrightarrow> maximum < distance \<Longrightarrow> \<not> distance + of_nat i * step \<le> (maximum :: rat)"
  using mult_nonneg_nonneg [of "of_nat i" step] by (auto simp: not_le intro: less_le_trans)

lemma no_samples:
  assumes "0 < step" "maximum < distance"
  shows "\<exists>k. distance_ladder step maximum distance = Some (samples step distance k)
    \<and> raycast_from hit step maximum distance = Some (first_hit hit (samples step distance k))
    \<and> (\<forall>i. i < k \<longleftrightarrow> distance + of_nat i * step \<le> maximum)"
  using above_all [OF assms] by (intro exI [of _ 0]) (simp add: loops_end [OF assms(2)] samples_def)

lemma ladder_total:
  assumes "0 < step" "maximum < distance + of_nat n * step"
  shows "\<exists>k. distance_ladder step maximum distance = Some (samples step distance k)
    \<and> raycast_from hit step maximum distance = Some (first_hit hit (samples step distance k))
    \<and> (\<forall>i. i < k \<longleftrightarrow> distance + of_nat i * step \<le> maximum)"
  using assms(2)
proof (induction n arbitrary: distance)
  case 0
  then show ?case using no_samples [OF assms(1)] by simp
next
  case (Suc n)
  show ?case
  proof (cases "distance \<le> maximum")
    case True
    have "maximum < (distance + step) + of_nat n * step" using Suc.prems by (simp add: algebra_simps)
    from Suc.IH [OF this] obtain k where k: "distance_ladder step maximum (distance + step) = Some (samples step (distance + step) k)"
        "raycast_from hit step maximum (distance + step) = Some (first_hit hit (samples step (distance + step) k))"
        "\<And>i. i < k \<longleftrightarrow> distance + step + of_nat i * step \<le> maximum" by blast
    have "i < Suc k \<longleftrightarrow> distance + of_nat i * step \<le> maximum" for i
      using True k(3) [of "i - 1"] by (cases i) (simp_all add: algebra_simps)
    then show ?thesis using loops_go(1) [OF True k(1)] loops_go(2) [OF True k(2)]
      by (intro exI [of _ "Suc k"]) (simp add: samples_Suc)
  next
    case False
    then show ?thesis using no_samples [OF assms(1)] by simp
  qed
qed

lemma ladder_ends:
  assumes "0 < step"
  shows "\<exists>k. distance_ladder step maximum distance = Some (samples step distance k)
    \<and> (\<forall>i. i < k \<longleftrightarrow> distance + of_nat i * step \<le> maximum)"
    "distance_ladder step maximum distance = Some ladder \<Longrightarrow>
       raycast_from hit step maximum distance = Some (first_hit hit ladder)"
proof -
  obtain n where "maximum - distance < of_nat n * step" using ex_less_of_nat_mult [OF assms] by blast
  then have "maximum < distance + of_nat n * step" by simp
  note t = ladder_total [OF assms this]
  show "\<exists>k. distance_ladder step maximum distance = Some (samples step distance k)
    \<and> (\<forall>i. i < k \<longleftrightarrow> distance + of_nat i * step \<le> maximum)" using t [of "\<lambda>_. True"] by blast
  show "distance_ladder step maximum distance = Some ladder \<Longrightarrow>
       raycast_from hit step maximum distance = Some (first_hit hit ladder)" using t [of hit] by auto
qed

text \<open>A ray returns its first hit. For a map of positive resolution a cast ray always returns; the result
  is the distance of the first of the samples from the minimum on, half a cell apart and at most
  the maximum, whose point is occupied, and infinity if there is none.\<close>
theorem raycast_first_hit:
  assumes "0 < oc_resolution m"
  shows "\<exists>k. raycast tg m x y angle minimum maximum
       = Some (first_hit (sample_occupied tg m x y angle) (samples (oc_resolution m / 2) minimum k))
     \<and> (\<forall>i. i < k \<longleftrightarrow> minimum + of_nat i * (oc_resolution m / 2) \<le> maximum)"
proof -
  have "0 < oc_resolution m / 2" using assms by simp
  from ladder_ends(1) [OF this, of maximum minimum] ladder_ends(2) [OF this] show ?thesis
    unfolding raycast_def by blast
qed

lemma argmax_first:
  assumes "seg \<noteq> []"
  shows "hit (seg ! argmax (map hit seg)) \<longleftrightarrow> (\<exists>d \<in> set seg. hit d)"
    "hit (seg ! argmax (map hit seg)) \<Longrightarrow> first_hit hit seg = Fin (seg ! argmax (map hit seg))"
proof -
  have f: "(case first_index True (map hit seg) of None \<Rightarrow> \<not> (\<exists>d \<in> set seg. hit d)
      | Some i \<Rightarrow> i < length seg \<and> hit (seg ! i) \<and> first_hit hit seg = Fin (seg ! i))" for seg
    by (induction seg) (auto split: option.splits)
  have h: "\<not> (\<exists>d \<in> set seg. hit d) \<Longrightarrow> \<not> hit (seg ! 0)" using assms by (cases seg) auto
  show "hit (seg ! argmax (map hit seg)) \<longleftrightarrow> (\<exists>d \<in> set seg. hit d)"
    "hit (seg ! argmax (map hit seg)) \<Longrightarrow> first_hit hit seg = Fin (seg ! argmax (map hit seg))"
    using f [of seg] h by (auto simp: argmax_def split: option.splits)
qed

lemma foldl_updates:
  "distinct rays \<Longrightarrow> i < length r \<Longrightarrow>
     foldl (\<lambda>r ray. r[ray := f ray]) r rays ! i = (if i \<in> set rays then f i else r ! i)
     \<and> length (foldl (\<lambda>r ray. r[ray := f ray]) r rays) = length r"
  by (induction rays arbitrary: r) (auto simp: nth_list_update)

text \<open>Rays not pending are final, pending ones have not hit yet.\<close>

lemma march_spec:
  assumes "0 < chunk" "distinct pending" "\<forall>i \<in> set pending. i < length result \<and> result ! i = PInf"
  shows "length (march hit chunk ladder (pending, result)) = length result \<and>
    (\<forall>i < length result. march hit chunk ladder (pending, result) ! i =
       (if i \<in> set pending then first_hit (hit i) ladder else result ! i))"
  using assms
proof (induction hit chunk ladder "(pending, result)" arbitrary: pending result rule: march.induct)
  case (1 hit chunk ladder)
  show ?case
  proof (cases "ladder = []")
    case False
    let ?seg = "take chunk ladder"
    have seg: "?seg \<noteq> []" using False 1(2) by simp
    obtain p r where c: "chunk_step hit ?seg (pending, result) = (p, r)" by force
    have p: "p = filter (\<lambda>ray. \<not> (\<exists>d \<in> set ?seg. hit ray d)) pending"
      using c argmax_first(1) [OF seg] by (auto simp: chunk_step_def Let_def)
    have r_eq: "r = foldl (\<lambda>r ray. r[ray := Fin (?seg ! argmax (map (hit ray) ?seg))]) result
        (filter (\<lambda>ray. \<exists>d \<in> set ?seg. hit ray d) pending)"
      using c argmax_first(1) [OF seg] by (auto simp: chunk_step_def Let_def)
    have r: "r ! i = (if i \<in> set pending \<and> (\<exists>d \<in> set ?seg. hit i d) then first_hit (hit i) ?seg else result ! i)
        \<and> length r = length result" if "i < length result" for i
      using foldl_updates [OF distinct_filter [OF 1(3)] that, of "\<lambda>ray. Fin (?seg ! argmax (map (hit ray) ?seg))"
          "\<lambda>ray. \<exists>d \<in> set ?seg. hit ray d"] argmax_first [OF seg, of "hit i"] unfolding r_eq by auto
    have len: "length r = length result"
      unfolding r_eq by (induction pending arbitrary: result) (simp_all)
    have split: "first_hit (hit i) ladder = (if \<exists>d \<in> set ?seg. hit i d then first_hit (hit i) ?seg
        else first_hit (hit i) (drop chunk ladder))" for i
      using first_hit_append [of "hit i" ?seg "drop chunk ladder"] by simp
    show ?thesis
    proof (cases "p = []")
      case True
      then have "\<forall>i \<in> set pending. \<exists>d \<in> set ?seg. hit i d" using p by (auto simp: filter_empty_conv)
      moreover have "march hit chunk ladder (pending, result) = r"
        using True False 1(2) c by (subst march.simps) simp
      ultimately show ?thesis using r len split by auto
    next
      case np: False
      have "march hit chunk ladder (pending, result) = march hit chunk (drop chunk ladder) (p, r)"
        using np False 1(2) c by (subst march.simps) simp
      moreover have "distinct p" "\<forall>i \<in> set p. i < length r \<and> r ! i = PInf" using 1(3,4) p r len by auto
      ultimately show ?thesis using 1(1) [OF _ c [symmetric] np 1(2)] False 1(2) p r len split
        by auto
    qed
  qed (use 1 in \<open>auto simp: march.simps\<close>)
qed

lemma nth_concat: "list_all (\<lambda>row. length row = n) rows \<Longrightarrow> i < length rows \<Longrightarrow> j < n \<Longrightarrow> concat rows ! (i * n + j) = rows ! i ! j"
  by (induction rows arbitrary: i) (auto simp: nth_append nth_Cons' algebra_simps split: nat_diff_split)

lemma length_concat_rows: "list_all (\<lambda>row. length row = n) rows \<Longrightarrow> length (concat rows) = length rows * n"
  by (induction rows) auto

lemma grid_array_fits:
  assumes "well_formed m" shows "grid_array m = Inr (concat (oc_rows m))"
proof -
  from assms have w: "list_all (\<lambda>row. length row = nat (oc_width m)) (oc_rows m)"
    by (auto simp: well_formed_def list_all_iff)
  then have "\<not> list_ex (\<lambda>row. length row \<noteq> length (hd (oc_rows m))) (oc_rows m)"
    by (cases "oc_rows m") (auto simp: list_ex_iff list_all_iff)
  moreover have "int (length (concat (oc_rows m))) = oc_height m * oc_width m"
  proof (cases "oc_rows m")
    case (Cons row rows)
    then have "int (nat (oc_width m)) = oc_width m" using assms by (auto simp: well_formed_def)
    moreover have "int (length (oc_rows m)) = oc_height m" using assms by (simp add: well_formed_def)
    ultimately show ?thesis unfolding length_concat_rows [OF w] of_nat_mult by simp
  qed (use assms in \<open>simp add: well_formed_def\<close>)
  ultimately show ?thesis unfolding grid_array_def Let_def by simp
qed

lemma vector_hit_sample:
  assumes "0 < oc_width m" "0 < oc_height m" "well_formed m"
  shows "vector_hit tg m (concat (oc_rows m)) x y angle d = sample_occupied tg m x y angle d"
proof -
  let ?g = "cell_of m (x + rt_cos tg angle * d) (y + rt_sin tg angle * d)"
  show ?thesis
  proof (cases "outside m ?g")
    case False
    then have g: "0 \<le> fst ?g" "0 \<le> snd ?g" "fst ?g < oc_width m" "snd ?g < oc_height m" by (auto simp: outside_def)
    have "list_all (\<lambda>row. length row = nat (oc_width m)) (oc_rows m)" "nat (snd ?g) < length (oc_rows m)"
      using assms(3) g by (auto simp: well_formed_def list_all_iff)
    then have "concat (oc_rows m) ! (nat (snd ?g) * nat (oc_width m) + nat (fst ?g)) = cell m ?g"
      using nth_concat g unfolding cell_def by (metis nat_mono_iff assms(1))
    moreover have "nat (snd ?g * oc_width m + fst ?g) = nat (snd ?g) * nat (oc_width m) + nat (fst ?g)"
      using g assms(1) by (simp add: nat_add_distrib nat_mult_distrib)
    ultimately show ?thesis using False g
      by (simp add: vector_hit_def sample_occupied_def occupied_at_world_def Let_def clip_def)
  qed (simp add: vector_hit_def sample_occupied_def occupied_at_world_def Let_def)
qed

text \<open>C19: Casting many rays at once is casting each ray. On a map that is not empty, with a positive resolution and rows
  that fit it, and with chunks of any positive size, the vectorised routine returns, and its distances
  are exactly those the scalar routine returns for each of the angles.\<close>
theorem raycast_many_is_raycast:
  assumes "well_formed m" "0 < oc_width m" "0 < oc_height m" "0 < chunk"
  shows "\<exists>rs. raycast_many tg m x y angles minimum maximum chunk = Some (Inr rs)
     \<and> map Some rs = map (\<lambda>angle. raycast tg m x y angle minimum maximum) angles"
proof -
  have step: "0 < oc_resolution m / 2" using assms(1) by (simp add: well_formed_def)
  obtain k where l: "distance_ladder (oc_resolution m / 2) maximum minimum = Some (samples (oc_resolution m / 2) minimum k)"
    using ladder_ends(1) [OF step] by blast
  let ?ladder = "samples (oc_resolution m / 2) minimum k"
  have ray: "raycast tg m x y angle minimum maximum = Some (first_hit (sample_occupied tg m x y angle) ?ladder)" for angle
    using ladder_ends(2) [OF step l] by (simp add: raycast_def)
  let ?hit = "\<lambda>ray. vector_hit tg m (concat (oc_rows m)) x y (angles ! ray)"
  let ?rs = "march ?hit chunk ?ladder ([0..<length angles], replicate (length angles) PInf)"
  have rs: "length ?rs = length angles" "i < length angles \<Longrightarrow> ?rs ! i = first_hit (sample_occupied tg m x y (angles ! i)) ?ladder" for i
    using march_spec [OF assms(4), of "[0..<length angles]" "replicate (length angles) PInf" ?hit ?ladder]
    by (simp_all add: vector_hit_sample [OF assms(2,3,1), abs_def])
  have "map Some ?rs = map (\<lambda>angle. raycast tg m x y angle minimum maximum) angles"
    by (rule nth_equalityI) (simp_all add: rs ray)
  moreover have "map Some (replicate (length angles) PInf) = map (\<lambda>angle. raycast tg m x y angle minimum maximum) angles"
    if "?ladder = []" unfolding ray that by (simp add: map_replicate_const)
  ultimately show ?thesis using assms(2-4) l grid_array_fits [OF assms(1)] by (auto simp: raycast_many_def)
qed

section \<open>Reading images\<close>

lemma digit_no_space: "is_digit c \<Longrightarrow> \<not> is_space c \<and> c \<noteq> CHR ''#'' \<and> c \<noteq> CHR ''_'' \<and> c \<noteq> CHR ''-'' \<and> c \<noteq> CHR ''+''"
  by (auto simp: is_digit_def is_space_def Let_def)

lemma dec_nat_chars: "c \<in> set (dec_nat n) \<Longrightarrow> \<not> is_space c \<and> c \<noteq> CHR ''#'' \<and> c \<noteq> CHR ''_'' \<and> c \<noteq> CHR ''-'' \<and> c \<noteq> CHR ''+''"
  using dec_nat_digits [of n] digit_no_space by blast

lemma int_token_dec: "int_token (dec_nat n) = Inr (int n)"
proof -
  have "hd (dec_nat n) \<notin> {CHR ''-'', CHR ''+''}" using dec_nat_chars [OF hd_in_set [OF dec_nat_nonempty]] by blast
  moreover have "py_split (CHR ''_'') (dec_nat n) = [dec_nat n]" using dec_nat_chars by (intro py_split_none) blast
  ultimately show ?thesis using dec_nat_digits [of n] by (simp add: int_token_def Let_def list_all_iff)
qed

lemma dec_token:
  assumes "is_space sep"
  shows "next_token (dec_nat n @ sep # rest) = dec_nat n @ sep # rest"
    "\<not> at_comment (dec_nat n @ sep # rest)" "take_token (dec_nat n @ sep # rest) = (dec_nat n, sep # rest)"
proof -
  obtain c cs where c: "dec_nat n = c # cs" by (cases "dec_nat n") auto
  then have "\<not> is_space c" "c \<noteq> CHR ''#''" using dec_nat_chars [of c n] by simp_all
  then show "next_token (dec_nat n @ sep # rest) = dec_nat n @ sep # rest" "\<not> at_comment (dec_nat n @ sep # rest)"
    by (simp_all add: next_token_def at_comment_def c)
  show "take_token (dec_nat n @ sep # rest) = (dec_nat n, sep # rest)"
    using dec_nat_chars [of _ n] assms by (simp add: take_token_def takeWhile_append dropWhile_append)
qed

lemma next_token_space: "is_space c \<Longrightarrow> next_token (c # s) = next_token s"
  by (simp add: next_token_def)

lemma pgm_tokens_dec:
  "is_space sep \<Longrightarrow> is_space before_it \<Longrightarrow> pgm_tokens (Suc n) (before_it # dec_nat k @ sep # rest)
     = (case pgm_tokens n (sep # rest) of (tokens, r) \<Rightarrow> (dec_nat k # tokens, r))"
  by (subst pgm_tokens.simps) (simp add: next_token_space dec_token)

definition pgm_encode :: "nat \<Rightarrow> nat \<Rightarrow> string \<Rightarrow> string" where
  "pgm_encode width height pixels =
     ''P5'' @ [char_of (10 :: nat)] @ dec_nat width @ '' '' @ dec_nat height @ [char_of (10 :: nat)] @ dec_nat 255
       @ [char_of (10 :: nat)] @ pixels"

lemma spaces: "is_space (char_of (10 :: nat))" "is_space CHR '' ''"
  by (simp_all add: is_space_def Let_def)

lemma pgm_header:
  "pgm_tokens 3 (drop 2 (pgm_encode width height pixels)) = ([dec_nat width, dec_nat height, dec_nat 255], char_of (10 :: nat) # pixels)"
proof -
  have zero: "pgm_tokens 0 d = ([], d)" for d by (subst pgm_tokens.simps) simp
  have "drop 2 (pgm_encode width height pixels) = char_of (10 :: nat) # dec_nat width @ CHR '' '' #
      dec_nat height @ char_of (10 :: nat) # dec_nat 255 @ char_of (10 :: nat) # pixels"
    by (simp add: pgm_encode_def)
  then show ?thesis using spaces
    by (simp only: numeral_3_eq_3 pgm_tokens_dec zero prod.case)
qed

text \<open>A written image reads back as its map. For an image of \<open>width * height\<close> pixels whose first pixel
  does not look like white space, reading its binary PGM encoding returns the map of that size
  whose cell in column \<open>gx\<close> and row \<open>gy\<close>, counted from below, is occupied exactly if the image's
  pixel there is at most the threshold.\<close>
theorem pgm_roundtrip:
  assumes "length pixels = width * height" "pixels \<noteq> [] \<Longrightarrow> \<not> is_space (hd pixels)"
  shows "\<exists>m. from_pgm threshold res ox oy (pgm_encode width height pixels) = Inr m
     \<and> oc_width m = int width \<and> oc_height m = int height \<and> oc_resolution m = res \<and> oc_x m = ox \<and> oc_y m = oy
     \<and> length (oc_rows m) = height \<and> (\<forall>gx < width. \<forall>gy < height. length (oc_rows m ! gy) = width \<and>
          cell m (int gx, int gy) = ((of_char (pixels ! ((height - 1 - gy) * width + gx)) :: nat) \<le> threshold))"
proof -
  have body: "dropWhile is_space pixels = pixels"
    using assms(2) by (cases pixels) simp_all
  have size: "nat (int width * int height) = length pixels"
    using assms(1) by (simp flip: of_nat_mult)
  have f: "from_pgm threshold res ox oy (pgm_encode width height pixels) =
      Inr \<lparr>oc_width = int width, oc_height = int height, oc_resolution = res, oc_x = ox, oc_y = oy,
        oc_rows = pgm_rows width height threshold pixels\<rparr>"
  proof -
    have "startswith (pgm_encode width height pixels) ''P5''" by (simp add: startswith_def pgm_encode_def)
    then show ?thesis using int_token_dec [of 255] assms(1)
      by (simp add: from_pgm_def pgm_header int_token_dec body spaces size Let_def)
  qed
  have row: "length (pgm_rows width height threshold pixels ! gy) = width \<and>
      pgm_rows width height threshold pixels ! gy ! gx = ((of_char (pixels ! ((height - 1 - gy) * width + gx)) :: nat) \<le> threshold)"
    if "gx < width" "gy < height" for gx gy
  proof -
    have "Suc (height - 1 - gy) * width \<le> height * width" using that(2) by (intro mult_le_mono1) simp
    then have "(height - 1 - gy) * width + width \<le> height * width" by simp
    then show ?thesis using that assms(1) by (simp add: pgm_rows_def mult.commute)
  qed
  have "length (pgm_rows width height threshold pixels) = height" by (simp add: pgm_rows_def)
  then show ?thesis unfolding f using row by (simp add: cell_def)
qed

text \<open>An image whose first pixel is dark with the value of a line feed is rejected: the pixel is skipped as
  white space.\<close>

lemma dark_corner_rejected:
  "from_pgm 100 1 0 0 (pgm_encode 1 1 [char_of (10 :: nat)]) = Inl (ValueError ''PGM pixel data is truncated'')"
proof -
  have "startswith (pgm_encode 1 1 [char_of (10 :: nat)]) ''P5''" by (simp add: startswith_def pgm_encode_def)
  then show ?thesis using int_token_dec [of 255] int_token_dec [of 1] spaces
    by (simp add: from_pgm_def pgm_header Let_def)
qed

section \<open>Free space\<close>

definition lattice_free :: "occupancy \<Rightarrow> rat \<Rightarrow> rat \<Rightarrow> rat \<Rightarrow> bool" where
  "lattice_free m x y clearance \<longleftrightarrow>
     (\<forall>gx gy. (of_int gx * oc_resolution m)\<^sup>2 + (of_int gy * oc_resolution m)\<^sup>2 \<le> clearance\<^sup>2 \<longrightarrow>
        \<not> occupied_at_world m (x + of_int gx * oc_resolution m) (y + of_int gy * oc_resolution m))"

lemma steps_suffice:
  fixes step clearance :: rat
  assumes "0 < step" "0 \<le> clearance" "(of_int g * step)\<^sup>2 + q\<^sup>2 \<le> clearance\<^sup>2"
  shows "\<bar>g\<bar> \<le> \<lfloor>clearance / step\<rfloor> + 1"
proof -
  have "(of_int g * step)\<^sup>2 \<le> clearance\<^sup>2" using assms(3) zero_le_power2 [of q] by linarith
  then have "\<bar>of_int g * step\<bar> \<le> clearance" using assms(2) by (simp add: abs_le_square_iff [symmetric])
  then have "of_int \<bar>g\<bar> \<le> clearance / step" using assms(1) by (simp add: abs_mult field_simps)
  then have "\<bar>g\<bar> \<le> \<lfloor>clearance / step\<rfloor>" by (simp only: le_floor_iff)
  then show ?thesis by simp
qed

text \<open>Clearance is what it says. With a positive resolution and a clearance that is not negative, a point
  counts as free exactly if no point of the lattice of cells around it, at most the clearance away,
  is occupied: the square that is searched leaves none of them out.\<close>
lemma clearance_complete:
  assumes "0 < oc_resolution m" "0 \<le> clearance"
  shows "free_with_clearance m x y clearance = Inr (lattice_free m x y clearance)"
proof -
  have t: "truncate (clearance / oc_resolution m) = \<lfloor>clearance / oc_resolution m\<rfloor>"
    unfolding truncate_def by (rule if_not_P [OF leD [OF divide_nonneg_pos [OF assms(2,1)]]])
  let ?n = "\<lfloor>clearance / oc_resolution m\<rfloor> + 1"
  let ?bad = "\<lambda>gx gy. (of_int gx * oc_resolution m)\<^sup>2 + (of_int gy * oc_resolution m)\<^sup>2 \<le> clearance\<^sup>2
      \<and> occupied_at_world m (x + of_int gx * oc_resolution m) (y + of_int gy * oc_resolution m)"
  have near: "gx \<in> {- ?n..?n} \<and> gy \<in> {- ?n..?n}" if "?bad gx gy" for gx gy
    using steps_suffice [OF assms, of gx "of_int gy * oc_resolution m"] steps_suffice [OF assms, of gy "of_int gx * oc_resolution m"] that
    by (simp add: abs_le_iff add.commute)
  have "free_with_clearance m x y clearance = Inr (\<not> (\<exists>gx \<in> {- ?n..?n}. \<exists>gy \<in> {- ?n..?n}. ?bad gx gy))"
    using assms(2) by (simp add: free_with_clearance_def t Let_def list_all_iff power2_eq_square not_less not_le [symmetric] disj_commute)
  also have "(\<exists>gx \<in> {- ?n..?n}. \<exists>gy \<in> {- ?n..?n}. ?bad gx gy) \<longleftrightarrow> (\<exists>gx gy. ?bad gx gy)" using near by blast
  also have "\<not> (\<exists>gx gy. ?bad gx gy) \<longleftrightarrow> lattice_free m x y clearance" by (auto simp: lattice_free_def)
  finally show ?thesis .
qed

lemma nearest_of_least:
  assumes "cs \<noteq> []"
  shows "nearest_of cs \<in> set cs" "c \<in> set cs \<Longrightarrow> fst (nearest_of cs) \<le> fst c"
proof -
  have f: "foldl (\<lambda>a b. if before b a then b else a) a cs \<in> insert a (set cs) \<and>
      (\<forall>c \<in> insert a (set cs). fst (foldl (\<lambda>a b. if before b a then b else a) a cs) \<le> fst c)" for a cs
  proof (induction cs arbitrary: a)
    case (Cons b cs)
    have "fst (if before b a then b else a) \<le> fst a \<and> fst (if before b a then b else a) \<le> fst b"
      by (auto simp: before_def)
    then show ?case using Cons [of "if before b a then b else a"] by (auto split: if_splits)
  qed simp
  obtain a as where cs: "cs = a # as" using assms by (cases cs) auto
  have "nearest_of cs \<in> set cs \<and> (\<forall>c \<in> set cs. fst (nearest_of cs) \<le> fst c)"
    using f [of a as] unfolding nearest_of_def cs list.sel list.set .
  then show "nearest_of cs \<in> set cs" "c \<in> set cs \<Longrightarrow> fst (nearest_of cs) \<le> fst c" by blast+
qed

lemma mem_concat_map: "z \<in> set (concat (map f xs)) \<longleftrightarrow> (\<exists>a \<in> set xs. z \<in> set (f a))"
  by simp

lemma mem_map_filter: "z \<in> set (map g (filter P ys)) \<longleftrightarrow> (\<exists>b \<in> set ys. P b \<and> z = g b)"
  by auto

lemma ring_candidates_iff:
  assumes "0 < oc_resolution m" "0 \<le> clearance"
  shows "(d, cx, cy) \<in> set (ring_candidates m x y clearance ring) \<longleftrightarrow>
    (\<exists>gx gy. max \<bar>gx\<bar> \<bar>gy\<bar> = ring \<and> d = gx * gx + gy * gy \<and> cx = x + of_int gx * oc_resolution m
       \<and> cy = y + of_int gy * oc_resolution m \<and> lattice_free m cx cy clearance)"
proof -
  have "(d, cx, cy) \<in> set (ring_candidates m x y clearance ring) \<longleftrightarrow>
      (\<exists>gx \<in> {- ring..ring}. \<exists>gy \<in> {- ring..ring}. max \<bar>gx\<bar> \<bar>gy\<bar> = ring \<and> d = gx * gx + gy * gy
        \<and> cx = x + of_int gx * oc_resolution m \<and> cy = y + of_int gy * oc_resolution m) \<and> lattice_free m cx cy clearance"
    unfolding ring_candidates_def Let_def set_filter mem_Collect_eq prod.case clearance_complete [OF assms]
      mem_concat_map mem_map_filter set_upto prod.inject sum.inject eq_True by blast
  moreover have "max \<bar>gx\<bar> \<bar>gy\<bar> = ring \<Longrightarrow> gx \<in> {- ring..ring} \<and> gy \<in> {- ring..ring}" for gx gy :: int by auto
  ultimately show ?thesis by blast
qed

text \<open>The search ends, at the first ring with a candidate or beyond the radius.\<close>

lemma ring_search_end: "radius < of_int ring * oc_resolution m \<Longrightarrow> ring_search m x y clearance radius ring = Some None"
  by (subst ring_search.simps) simp

lemma ring_search_go:
  "of_int ring * oc_resolution m \<le> radius \<Longrightarrow> ring_search m x y clearance radius ring =
     (if ring_candidates m x y clearance ring \<noteq> [] then Some (Some (nearest_of (ring_candidates m x y clearance ring)))
      else ring_search m x y clearance radius (ring + 1))"
  by (subst ring_search.simps) (simp add: Let_def)

definition first_ring :: "occupancy \<Rightarrow> rat \<Rightarrow> rat \<Rightarrow> rat \<Rightarrow> rat \<Rightarrow> int \<Rightarrow> (int \<times> rat \<times> rat) option \<Rightarrow> bool" where
  "first_ring m x y clearance radius ring found \<longleftrightarrow>
     (case found of
        None \<Rightarrow> \<forall>r \<ge> ring. of_int r * oc_resolution m \<le> radius \<longrightarrow> ring_candidates m x y clearance r = []
      | Some c \<Rightarrow> \<exists>r \<ge> ring. ring_candidates m x y clearance r \<noteq> [] \<and> c = nearest_of (ring_candidates m x y clearance r)
          \<and> (\<forall>r'. ring \<le> r' \<and> r' < r \<longrightarrow> ring_candidates m x y clearance r' = []))"

lemma first_ring_Suc:
  assumes "ring_candidates m x y clearance ring = []" "first_ring m x y clearance radius (ring + 1) found"
  shows "first_ring m x y clearance radius ring found"
proof -
  have le: "ring \<le> r \<longleftrightarrow> r = ring \<or> ring + 1 \<le> r" for r by auto
  show ?thesis
  proof (cases found)
    case None
    show ?thesis using assms unfolding first_ring_def le None option.case by blast
  next
    case (Some c)
    show ?thesis using assms unfolding first_ring_def le Some option.case by blast
  qed
qed

lemma beyond:
  fixes res :: rat
  assumes "0 < res" "radius < of_int ring * res" "ring \<le> r"
  shows "radius < of_int r * res"
proof -
  have "of_int ring * res \<le> of_int r * res" using assms(1,3) by (intro mult_right_mono) simp_all
  then show ?thesis using assms(2) by simp
qed

lemma ring_search_total:
  assumes "0 < oc_resolution m" "radius < (of_int ring + of_nat n) * oc_resolution m"
  shows "\<exists>found. ring_search m x y clearance radius ring = Some found \<and> first_ring m x y clearance radius ring found"
  using assms(2)
proof (induction n arbitrary: ring)
  case 0
  then have "radius < of_int r * oc_resolution m" if "ring \<le> r" for r
    using beyond [OF assms(1) _ that, of radius] by simp
  then show ?case using 0 by (auto simp: ring_search_end first_ring_def not_le [symmetric])
next
  case (Suc n)
  show ?case
  proof (cases "of_int ring * oc_resolution m \<le> radius")
    case True
    show ?thesis
    proof (cases "ring_candidates m x y clearance ring = []")
      case empty: True
      have "radius < (of_int (ring + 1) + of_nat n) * oc_resolution m" using Suc.prems by (simp add: algebra_simps)
      from Suc.IH [OF this] obtain found where "ring_search m x y clearance radius (ring + 1) = Some found"
          "first_ring m x y clearance radius (ring + 1) found" by blast
      then show ?thesis using first_ring_Suc [OF empty] empty True by (simp add: ring_search_go)
    next
      case False
      then show ?thesis using True by (auto simp: ring_search_go first_ring_def intro!: exI [of _ ring])
    qed
  next
    case False
    then have "radius < of_int r * oc_resolution m" if "ring \<le> r" for r
      using beyond [OF assms(1) _ that, of radius] by simp
    then show ?thesis by (auto simp: ring_search_end first_ring_def not_le [symmetric])
  qed
qed

lemma ring_search_ends:
  assumes "0 < oc_resolution m"
  shows "\<exists>found. ring_search m x y clearance radius 1 = Some found \<and> first_ring m x y clearance radius 1 found"
proof -
  obtain n where "radius < of_nat n * oc_resolution m" using ex_less_of_nat_mult [OF assms] by blast
  then have "radius < (of_int 1 + of_nat n) * oc_resolution m" using assms by (simp add: algebra_simps)
  from ring_search_total [OF assms this] show ?thesis .
qed

text \<open>The points of the lattice around \<open>x\<close> and \<open>y\<close>, and the ring of one.\<close>

definition at_offset :: "occupancy \<Rightarrow> rat \<Rightarrow> rat \<Rightarrow> int \<Rightarrow> int \<Rightarrow> rat \<times> rat" where
  "at_offset m x y gx gy = (x + of_int gx * oc_resolution m, y + of_int gy * oc_resolution m)"

definition free_offset :: "occupancy \<Rightarrow> rat \<Rightarrow> rat \<Rightarrow> rat \<Rightarrow> int \<Rightarrow> int \<Rightarrow> bool" where
  "free_offset m x y clearance gx gy \<longleftrightarrow>
     lattice_free m (fst (at_offset m x y gx gy)) (snd (at_offset m x y gx gy)) clearance"

lemma candidates_free:
  assumes "0 < oc_resolution m" "0 \<le> clearance"
  shows "free_offset m x y clearance gx gy \<longleftrightarrow>
    (gx * gx + gy * gy, at_offset m x y gx gy) \<in> set (ring_candidates m x y clearance (max \<bar>gx\<bar> \<bar>gy\<bar>))"
  unfolding free_offset_def at_offset_def ring_candidates_iff [OF assms] using assms(1) by (auto simp: prod_eq_iff)

lemma ring_distance:
  fixes gx gy :: int
  shows "(max \<bar>gx\<bar> \<bar>gy\<bar>)\<^sup>2 \<le> gx * gx + gy * gy" "gx * gx + gy * gy \<le> 2 * (max \<bar>gx\<bar> \<bar>gy\<bar>)\<^sup>2"
proof -
  have "gx * gx \<le> (max \<bar>gx\<bar> \<bar>gy\<bar>)\<^sup>2" "gy * gy \<le> (max \<bar>gx\<bar> \<bar>gy\<bar>)\<^sup>2"
    by (simp_all add: power2_eq_square [symmetric] abs_le_square_iff [symmetric])
  then show "gx * gx + gy * gy \<le> 2 * (max \<bar>gx\<bar> \<bar>gy\<bar>)\<^sup>2" by simp
  show "(max \<bar>gx\<bar> \<bar>gy\<bar>)\<^sup>2 \<le> gx * gx + gy * gy"
    by (cases "\<bar>gx\<bar> \<le> \<bar>gy\<bar>") (simp_all add: max_def power2_eq_square)
qed

text \<open>The search for free space ends, and finds free space that is nearly the nearest. With a positive
  resolution and a clearance that is not negative the search returns. If it finds nothing, no
  point of the lattice within the radius has the clearance. Otherwise it returns a lattice point
  with the clearance, the start itself or a point rounded to a thousandth, and every lattice point
  with the clearance is at least its distance divided by the square root of two away.\<close>
theorem nearest_free_found:
  assumes "0 < oc_resolution m" "0 \<le> clearance"
  shows "\<exists>found. nearest_free_world m x y clearance radius = Some (Inr found) \<and>
    (case found of
       None \<Rightarrow> \<forall>gx gy. of_int (max \<bar>gx\<bar> \<bar>gy\<bar>) * oc_resolution m \<le> radius \<longrightarrow> \<not> free_offset m x y clearance gx gy
     | Some p \<Rightarrow> \<exists>gx gy. free_offset m x y clearance gx gy
         \<and> (p = (x, y) \<and> gx = 0 \<and> gy = 0 \<or> p = map_prod round3 round3 (at_offset m x y gx gy))
         \<and> (\<forall>hx hy. free_offset m x y clearance hx hy \<longrightarrow> gx * gx + gy * gy \<le> 2 * (hx * hx + hy * hy)))"
proof (cases "lattice_free m x y clearance")
  case True
  then show ?thesis
    by (auto simp: nearest_free_world_def clearance_complete [OF assms] free_offset_def at_offset_def intro!: exI [of _ 0])
next
  case here: False
  obtain found where f: "ring_search m x y clearance radius 1 = Some found" "first_ring m x y clearance radius 1 found"
    using ring_search_ends [OF assms(1)] by blast
  have ring: "1 \<le> max \<bar>gx\<bar> \<bar>gy\<bar> \<and> ring_candidates m x y clearance (max \<bar>gx\<bar> \<bar>gy\<bar>) \<noteq> []" if "free_offset m x y clearance gx gy" for gx gy
  proof -
    have "\<not> (gx = 0 \<and> gy = 0)" using that here by (auto simp: free_offset_def at_offset_def)
    then show ?thesis using candidates_free [OF assms, of x y gx gy] that by auto
  qed
  show ?thesis
  proof (cases found)
    case None
    then have "\<not> free_offset m x y clearance gx gy" if "of_int (max \<bar>gx\<bar> \<bar>gy\<bar>) * oc_resolution m \<le> radius" for gx gy
      using ring [of gx gy] f(2) that unfolding first_ring_def by auto
    then show ?thesis using f(1) None here by (simp add: nearest_free_world_def clearance_complete [OF assms])
  next
    case (Some c)
    then obtain r where r: "1 \<le> r" "ring_candidates m x y clearance r \<noteq> []" "c = nearest_of (ring_candidates m x y clearance r)"
        "\<And>r'. 1 \<le> r' \<Longrightarrow> r' < r \<Longrightarrow> ring_candidates m x y clearance r' = []"
      using f(2) unfolding first_ring_def Some option.case by blast
    have c_in: "c \<in> set (ring_candidates m x y clearance r)" using nearest_of_least(1) [OF r(2)] r(3) by simp
    obtain d cx cy where c: "c = (d, cx, cy)" by (cases c)
    obtain gx gy where g: "max \<bar>gx\<bar> \<bar>gy\<bar> = r" "d = gx * gx + gy * gy" "(cx, cy) = at_offset m x y gx gy"
        "free_offset m x y clearance gx gy"
      using c_in unfolding c ring_candidates_iff [OF assms] by (auto simp: at_offset_def free_offset_def)
    have "gx * gx + gy * gy \<le> 2 * (hx * hx + hy * hy)" if h: "free_offset m x y clearance hx hy" for hx hy
    proof -
      have "r \<le> max \<bar>hx\<bar> \<bar>hy\<bar>" using ring [OF h] r(4) [of "max \<bar>hx\<bar> \<bar>hy\<bar>"] by (meson not_le)
      then have "r\<^sup>2 \<le> (max \<bar>hx\<bar> \<bar>hy\<bar>)\<^sup>2" using r(1) by (intro power_mono) simp_all
      then have "r\<^sup>2 \<le> hx * hx + hy * hy" using ring_distance(1) [of hx hy] by (rule order_trans)
      then show ?thesis using ring_distance(2) [of gx gy, unfolded g(1)] by simp
    qed
    moreover have "nearest_free_world m x y clearance radius = Some (Inr (Some (map_prod round3 round3 (at_offset m x y gx gy))))"
      using f(1) Some here by (simp add: nearest_free_world_def clearance_complete [OF assms] c flip: g(3))
    ultimately show ?thesis using g(4) by auto
  qed
qed

section \<open>Examples\<close>

text \<open>Three cells in a row, the middle one free, each a twentieth wide.\<close>

definition demo_map :: occupancy where
  "demo_map = \<lparr>oc_width = 3, oc_height = 1, oc_resolution = 1/20, oc_x = 0, oc_y = 0, oc_rows = [[True, False, True]]\<rparr>"

definition flat_rays :: ray_trig where
  "flat_rays = \<lparr>rt_cos = (\<lambda>_. 1), rt_sin = (\<lambda>_. 0)\<rparr>"

lemma demo_well_formed: "well_formed demo_map" "0 < oc_resolution demo_map" "0 < oc_width demo_map" "0 < oc_height demo_map"
  by (simp_all add: well_formed_def demo_map_def)

lemma rectangles_tile_world_witness:
  "\<exists>rs. rectangles demo_map = Inr rs \<and> length (filter (world_holds (1/10) (1/40)) rs) = 1"
  using rectangles_tile_world [OF demo_well_formed(1), of "1/10" "1/40"]
  by (simp add: demo_map_def cell_of_def outside_def occupied_at_world_def cell_def Let_def)

lemma raycast_first_hit_witness:
  "\<exists>k. raycast flat_rays demo_map (1/16) (1/40) 0 0 1
     = Some (first_hit (sample_occupied flat_rays demo_map (1/16) (1/40) 0) (samples (oc_resolution demo_map / 2) 0 k))"
  using raycast_first_hit [OF demo_well_formed(2), of flat_rays "1/16" "1/40" 0 0 1] by blast

lemma raycast_many_is_raycast_witness:
  "\<exists>rs. raycast_many flat_rays demo_map (1/16) (1/40) [0, 1, 2] 0 1 64 = Some (Inr rs) \<and> length rs = 3"
proof -
  obtain rs where "raycast_many flat_rays demo_map (1/16) (1/40) [0, 1, 2] 0 1 64 = Some (Inr rs)"
    "map Some rs = map (\<lambda>angle. raycast flat_rays demo_map (1/16) (1/40) angle 0 1) [0, 1, 2]"
    using raycast_many_is_raycast [OF demo_well_formed(1,3,4), of 64 flat_rays "1/16" "1/40" "[0, 1, 2]" 0 1] by auto
  then show ?thesis using length_map [of Some rs] by simp
qed

lemma pgm_roundtrip_witness:
  "\<exists>m. from_pgm 100 1 0 0 (pgm_encode 2 1 ''zA'') = Inr m \<and> \<not> cell m (0, 0) \<and> cell m (1, 0)"
proof -
  have "length ''zA'' = 2 * 1" "\<not> is_space (hd ''zA'')" by (simp_all add: is_space_def Let_def)
  from pgm_roundtrip [OF this(1), of 100 1 0 0, OF this(2)] obtain m where
    "from_pgm 100 1 0 0 (pgm_encode 2 1 ''zA'') = Inr m"
    "\<forall>gx < 2. \<forall>gy < 1. length (oc_rows m ! gy) = 2 \<and> cell m (int gx, int gy) = ((of_char (''zA'' ! ((1 - 1 - gy) * 2 + gx)) :: nat) \<le> 100)"
    by blast
  from this(1) spec [OF this(2), of 0] spec [OF this(2), of 1] show ?thesis by simp
qed

lemma nearest_free_found_witness:
  "\<exists>found. nearest_free_world demo_map (1/100) (1/40) 0 1 = Some (Inr found)"
  using nearest_free_found [OF demo_well_formed(2), of 0 "1/100" "1/40" 1] by auto

text \<open>Rounding the coordinates of the point can leave the free cell: the returned point is occupied.\<close>

lemma rounded_point_occupied:
  "nearest_free_world demo_map (1249/25000) (1/40) 0 1 = Some (Inr (Some (1/10, 1/40)))"
  "occupied_at_world demo_map (1/10) (1/40)"
proof -
  have c: "ring_candidates demo_map (1249/25000) (1/40) 0 1 = [(1, 2499/25000, 1/40)]" by code_simp
  have r: "ring_search demo_map (1249/25000) (1/40) 0 1 1 = Some (Some (1, 2499/25000, 1/40))"
    using ring_search_go [of 1 demo_map 1 "1249/25000" "1/40" 0] by (simp add: c nearest_of_def) (simp add: demo_map_def)
  have "free_with_clearance demo_map (1249/25000) (1/40) 0 = Inr False" "round3 (2499/25000) = 1/10" "round3 (1/40) = 1/40"
    by code_simp+
  then show "nearest_free_world demo_map (1249/25000) (1/40) 0 1 = Some (Inr (Some (1/10, 1/40)))"
    by (simp add: nearest_free_world_def r)
  show "occupied_at_world demo_map (1/10) (1/40)" by code_simp
qed

end
