(* ===== verification/Mesh_Assets.thy ===== *)
theory Mesh_Assets
  imports Py_Values
begin

text \<open>
  Collision fixtures of the planning scene (\<open>fixture_planning_scene.py\<close>): which objects of a declaration
  the adapter owns, and the parsing, validation and loading of mesh assets in STL and OBJ format.

  The bytes of a file are a list of characters, and the text of a file as well: decoding it as UTF-8,
  \<open>float\<close> of a text, \<open>str\<close> of a compound value, SHA-256, the files and \<open>math.sqrt\<close> are arguments. A binary
  float is decoded here. \<open>FixtureContractError\<close> is a subclass of \<open>ValueError\<close> and is written as one.
\<close>

section \<open>Owned fixtures\<close>

text \<open>The operations of a collision object, as MoveIt numbers them.\<close>

definition OBJECT_ADD :: int where "OBJECT_ADD = 0"
definition OBJECT_REMOVE :: int where "OBJECT_REMOVE = 1"

record collision_spec =
  sp_id :: string
  sp_frame :: string
  sp_operation :: int
  sp_primitives :: "(string \<times> pyval) list list"
  sp_primitive_poses :: "pyfloat list list"
  sp_meshes :: "(string \<times> pyval) list list"
  sp_mesh_poses :: "pyfloat list list"

definition pose_seven :: "py_builtins \<Rightarrow> pyval \<Rightarrow> pyfloat list res" where
  "pose_seven pb rec =
     bind (py_get rec ''pose'') (\<lambda>pose. bind (py_get pose ''xyz'') (\<lambda>xyz.
     bind (py_get_default pose ''quaternion_xyzw''
             (PList [PFloat (Fin 0), PFloat (Fin 0), PFloat (Fin 0), PFloat (Fin 1)])) (\<lambda>xyzw.
     bind (py_items xyz) (\<lambda>a. bind (py_items xyzw) (\<lambda>b. each (py_float pb) (a @ b))))))"

definition record_to_spec :: "py_builtins \<Rightarrow> string \<Rightarrow> pyval \<Rightarrow> collision_spec res" where
  "record_to_spec pb frame rec =
     (case rec of
        PDict d \<Rightarrow>
          (case map_of d ''primitive'' of
             Some primitive \<Rightarrow>
               bind (py_get rec ''id'') (\<lambda>i.
               bind (py_dict primitive) (\<lambda>p.
               bind (pose_seven pb rec) (\<lambda>pose.
                 Inr \<lparr>sp_id = py_str pb i, sp_frame = frame, sp_operation = OBJECT_ADD, sp_primitives = [p], sp_primitive_poses = [pose],
                      sp_meshes = [], sp_mesh_poses = []\<rparr>)))
           | None \<Rightarrow>
               bind (py_get rec ''mesh'') (\<lambda>mesh. bind (py_get rec ''id'') (\<lambda>i.
               bind (py_get mesh ''uri'') (\<lambda>uri. bind (py_get mesh ''sha256'') (\<lambda>digest.
               bind (py_get_default mesh ''scale'' (PList [PFloat (Fin 1), PFloat (Fin 1), PFloat (Fin 1)])) (\<lambda>scale.
               bind (py_items scale) (\<lambda>vs. bind (each (py_float pb) vs) (\<lambda>fs.
               bind (pose_seven pb rec) (\<lambda>pose.
                 Inr \<lparr>sp_id = py_str pb i, sp_frame = frame, sp_operation = OBJECT_ADD, sp_primitives = [], sp_primitive_poses = [],
                      sp_meshes = [[(''uri'', PStr (py_str pb uri)), (''sha256'', PStr (py_str pb digest)),
                                    (''scale'', PList (map PFloat fs))]], sp_mesh_poses = [pose]\<rparr>)))))))))
      | _ \<Rightarrow> Inl (TypeError ''not a mapping''))"

text \<open>The records that enter the collision bodies: every object, and the diagnostic ones that say so.\<close>

definition diagnostic_enters :: "pyval \<Rightarrow> bool res" where
  "diagnostic_enters rec =
     bind (py_get_default rec ''enter_collision_bodies'' PNone) (\<lambda>v. Inr (v = PBool True))"

fun entering :: "(pyval \<Rightarrow> 'a res) \<Rightarrow> pyval list \<Rightarrow> 'a list res" where
  "entering f [] = Inr []"
| "entering f (r # rs) =
     bind (diagnostic_enters r) (\<lambda>enters.
       if enters then bind (f r) (\<lambda>x. bind (entering f rs) (\<lambda>xs. Inr (x # xs))) else entering f rs)"

definition over_fixtures :: "(pyval \<Rightarrow> 'a res) \<Rightarrow> pyval \<Rightarrow> 'a list res" where
  "over_fixtures f scene =
     bind (py_get_default scene ''objects'' (PList [])) (\<lambda>o'. bind (py_items o') (\<lambda>objects.
     bind (each f objects) (\<lambda>xs.
     bind (py_get_default scene ''diagnostic_objects'' (PList [])) (\<lambda>d'. bind (py_items d') (\<lambda>diagnostics.
     bind (entering f diagnostics) (\<lambda>ys. Inr (xs @ ys)))))))"

definition fixture_owned_ids :: "py_builtins \<Rightarrow> pyval \<Rightarrow> string list res" where
  "fixture_owned_ids pb = over_fixtures (\<lambda>r. bind (py_get r ''id'') (\<lambda>i. Inr (py_str pb i)))"

definition fixture_to_specs :: "py_builtins \<Rightarrow> pyval \<Rightarrow> collision_spec list res" where
  "fixture_to_specs pb scene =
     bind (py_get scene ''frame_id'') (\<lambda>frame. over_fixtures (record_to_spec pb (py_str pb frame)) scene)"

section \<open>Mesh validation\<close>

type_synonym mesh = "pyfloat list list \<times> int list list"

fun check_vertices :: "pyfloat list list \<Rightarrow> unit res" where
  "check_vertices [] = Inr ()"
| "check_vertices (v # vs) =
     (if length v \<noteq> 3 then Inl (ValueError ''mesh vertex must contain exactly 3 coordinates'')
      else if list_ex (\<lambda>c. \<not> isfinite c) v then Inl (ValueError ''mesh vertex must be finite'')
      else check_vertices vs)"

definition edge :: "pyfloat list \<Rightarrow> pyfloat list \<Rightarrow> nat \<Rightarrow> pyfloat" where
  "edge a b i = fsub (b ! i) (a ! i)"

definition cross :: "pyfloat list \<Rightarrow> pyfloat list \<Rightarrow> pyfloat list \<Rightarrow> pyfloat list" where
  "cross a b c =
     [fsub (fmul (edge a b 1) (edge a c 2)) (fmul (edge a b 2) (edge a c 1)),
      fsub (fmul (edge a b 2) (edge a c 0)) (fmul (edge a b 0) (edge a c 2)),
      fsub (fmul (edge a b 0) (edge a c 1)) (fmul (edge a b 1) (edge a c 0))]"

definition area2 :: "(pyfloat \<Rightarrow> pyfloat) \<Rightarrow> pyfloat list \<Rightarrow> pyfloat list \<Rightarrow> pyfloat list \<Rightarrow> pyfloat" where
  "area2 sqrtf a b c =
     (let k = cross a b c in sqrtf (fadd (fadd (fmul (k ! 0) (k ! 0)) (fmul (k ! 1) (k ! 1))) (fmul (k ! 2) (k ! 2))))"

fun check_triangles :: "(pyfloat \<Rightarrow> pyfloat) \<Rightarrow> pyfloat list list \<Rightarrow> int list list \<Rightarrow> unit res" where
  "check_triangles sqrtf vs [] = Inr ()"
| "check_triangles sqrtf vs (t # ts) =
     (if length t \<noteq> 3 then Inl (ValueError ''mesh triangle must contain exactly 3 vertex indices'')
      else if \<not> distinct t then Inl (ValueError ''mesh triangle indices must be distinct'')
      else if list_ex (\<lambda>i. i < 0 \<or> i \<ge> int (length vs)) t then Inl (ValueError ''mesh triangle index out of range'')
      else
        let area = area2 sqrtf (vs ! nat (t ! 0)) (vs ! nat (t ! 1)) (vs ! nat (t ! 2))
        in if \<not> isfinite area \<or> feq area (Fin 0) then Inl (ValueError ''mesh triangle must be nondegenerate'')
           else check_triangles sqrtf vs ts)"

definition validate_mesh :: "(pyfloat \<Rightarrow> pyfloat) \<Rightarrow> pyfloat list list \<Rightarrow> int list list \<Rightarrow> mesh res" where
  "validate_mesh sqrtf vertices triangles =
     (if vertices = [] then Inl (ValueError ''mesh must contain at least one vertex'')
      else bind (check_vertices vertices) (\<lambda>_.
        if triangles = [] then Inl (ValueError ''mesh must contain at least one triangle'')
        else bind (check_triangles sqrtf vertices triangles) (\<lambda>_. Inr (vertices, triangles))))"


section \<open>STL\<close>

text \<open>Little-endian words, and the IEEE 754 single float of one.\<close>

fun le_nat :: "string \<Rightarrow> nat" where
  "le_nat [] = 0"
| "le_nat (c # cs) = of_char c + 256 * le_nat cs"

definition bytes_at :: "string \<Rightarrow> nat \<Rightarrow> nat \<Rightarrow> string" where
  "bytes_at data k n = take n (drop k data)"

definition single_of :: "nat \<Rightarrow> pyfloat" where
  "single_of n =
     (let negative = (n div 2 ^ 31) mod 2 = 1; e = (n div 2 ^ 23) mod 256; m = n mod 2 ^ 23;
          scaled = (\<lambda>k :: nat. if 150 \<le> e then of_nat k * 2 ^ (e - 150) else of_nat k / (2 :: rat) ^ (150 - e));
          magnitude = (if e = 0 then of_nat m / (2 :: rat) ^ 149 else scaled (2 ^ 23 + m))
      in if e = 255 then (if m \<noteq> 0 then NaN else if negative then NInf else PInf)
         else Fin (if negative then - magnitude else magnitude))"

definition single_at :: "string \<Rightarrow> nat \<Rightarrow> pyfloat" where
  "single_at data k = single_of (le_nat (bytes_at data k 4))"

definition facet_vertices :: "string \<Rightarrow> nat \<Rightarrow> pyfloat list list" where
  "facet_vertices data base =
     map (\<lambda>vertex_index. let offset = base + 12 + vertex_index * 12
                         in [single_at data offset, single_at data (offset + 4), single_at data (offset + 8)]) [0..<3]"

fun stl_facets :: "string \<Rightarrow> nat list \<Rightarrow> mesh \<Rightarrow> mesh res" where
  "stl_facets data [] acc = Inr acc"
| "stl_facets data (triangle_index # ks) (vertices, triangles) =
     (let base = 84 + triangle_index * 50
      in if base + 12 + 36 > length data then Inl (ValueError ''STL binary data is truncated'')
         else let k = int triangle_index * 3
              in stl_facets data ks (vertices @ facet_vertices data base, triangles @ [[k, k + 1, k + 2]]))"

definition parse_stl_binary :: "(pyfloat \<Rightarrow> pyfloat) \<Rightarrow> string \<Rightarrow> nat \<Rightarrow> mesh res" where
  "parse_stl_binary sqrtf data count =
     bind (stl_facets data [0..<count] ([], [])) (\<lambda>(vertices, triangles). validate_mesh sqrtf vertices triangles)"

text \<open>Three coordinates of a line; \<open>message\<close> is what a text that is no number raises.\<close>

definition coordinates :: "(string \<Rightarrow> pyfloat option) \<Rightarrow> string \<Rightarrow> string list \<Rightarrow> pyfloat list res" where
  "coordinates float_text message parts =
     (case (float_text (parts ! 1), float_text (parts ! 2), float_text (parts ! 3)) of
        (Some x, Some y, Some z) \<Rightarrow> Inr [x, y, z]
      | _ \<Rightarrow> Inl (ValueError message))"

record stl_state =
  st_vertices :: "pyfloat list list"
  st_triangles :: "int list list"
  st_current :: "pyfloat list list"
  st_in_facet :: bool

text \<open>One line of an ASCII STL: the state after it, and whether the solid ends.\<close>

definition stl_line :: "(string \<Rightarrow> pyfloat option) \<Rightarrow> string \<Rightarrow> stl_state \<Rightarrow> (stl_state \<times> bool) res" where
  "stl_line float_text raw_line s =
     (let line = py_strip raw_line; parts = py_words line
      in if line = [] then Inr (s, False)
         else
           let keyword = py_lower (hd parts)
           in if keyword = ''facet''
              then (if st_in_facet s then Inl (ValueError ''STL ASCII has a nested facet'')
                    else Inr (s\<lparr>st_in_facet := True, st_current := []\<rparr>, False))
              else if keyword = ''endfacet''
              then (if \<not> st_in_facet s then Inl (ValueError ''STL ASCII endfacet without a facet'')
                    else if length (st_current s) \<noteq> 3
                    then Inl (ValueError ''STL ASCII facet must contain exactly 3 vertices'')
                    else
                      let base = int (length (st_vertices s))
                      in Inr (s\<lparr>st_vertices := st_vertices s @ st_current s,
                                st_triangles := st_triangles s @ [[base, base + 1, base + 2]],
                                st_current := [], st_in_facet := False\<rparr>, False))
              else if keyword = ''vertex''
              then (if \<not> st_in_facet s then Inl (ValueError ''STL ASCII vertex outside a facet'')
                    else if length parts < 4 then Inl (ValueError ''STL ASCII vertex requires x y z'')
                    else bind (coordinates float_text ''STL ASCII vertex has non-numeric coordinate'' parts) (\<lambda>v.
                           Inr (s\<lparr>st_current := st_current s @ [v]\<rparr>, False)))
              else if keyword = ''endsolid'' then Inr (s, True)
              else Inr (s, False))"

fun stl_lines :: "(string \<Rightarrow> pyfloat option) \<Rightarrow> string list \<Rightarrow> stl_state \<Rightarrow> stl_state res" where
  "stl_lines float_text [] s = Inr s"
| "stl_lines float_text (l # ls) s =
     bind (stl_line float_text l s) (\<lambda>(s', ends). if ends then Inr s' else stl_lines float_text ls s')"

definition parse_stl_ascii :: "(pyfloat \<Rightarrow> pyfloat) \<Rightarrow> (string \<Rightarrow> pyfloat option) \<Rightarrow> string \<Rightarrow> mesh res" where
  "parse_stl_ascii sqrtf float_text text =
     bind (stl_lines float_text (py_splitlines text)
             \<lparr>st_vertices = [], st_triangles = [], st_current = [], st_in_facet = False\<rparr>) (\<lambda>s.
       if st_in_facet s then Inl (ValueError ''STL ASCII has an unterminated facet'')
       else validate_mesh sqrtf (st_vertices s) (st_triangles s))"

text \<open>What the code uses of its surroundings.\<close>

record mesh_env =
  me_sqrt :: "pyfloat \<Rightarrow> pyfloat"
  me_decode :: "string \<Rightarrow> string"
  me_builtins :: py_builtins
  me_sha256 :: "string \<Rightarrow> string"
  me_files :: "string \<Rightarrow> string option"

definition parse_stl :: "mesh_env \<Rightarrow> string \<Rightarrow> mesh res" where
  "parse_stl en data =
     (let count = le_nat (bytes_at data 80 4)
      in if 84 \<le> length data \<and> 84 + 50 * count = length data then parse_stl_binary (me_sqrt en) data count
         else if bytes_lower (bytes_strip (take 5 data)) = ''solid''
                 \<or> py_contains ''vertex'' (bytes_lower (take 4096 data))
         then parse_stl_ascii (me_sqrt en) (pb_float_text (me_builtins en)) (me_decode en data)
         else Inl (ValueError ''STL data is neither valid binary nor ASCII STL''))"

section \<open>OBJ\<close>

fun face_indices :: "string list \<Rightarrow> int list res" where
  "face_indices [] = Inr []"
| "face_indices (token # ts) =
     (case int_token (hd (py_split (CHR ''/'') token)) of
        Inl _ \<Rightarrow> Inl (ValueError ''OBJ face has non-integer vertex index'')
      | Inr i \<Rightarrow> if i < 0 then Inl (ValueError ''OBJ relative (negative) vertex indices are not supported'')
                 else bind (face_indices ts) (\<lambda>is. Inr (i # is)))"

definition obj_line :: "(string \<Rightarrow> pyfloat option) \<Rightarrow> string \<Rightarrow> mesh \<Rightarrow> mesh res" where
  "obj_line float_text raw_line =
     (\<lambda>(vertices, raw_triangles).
        let stripped = py_strip raw_line; parts = py_words stripped
        in if stripped = [] \<or> startswith stripped ''#'' then Inr (vertices, raw_triangles)
           else if hd parts = ''v''
           then (if length parts < 4 then Inl (ValueError ''OBJ vertex requires x y z'')
                 else bind (coordinates float_text ''OBJ vertex has non-numeric coordinate'' parts) (\<lambda>v.
                        Inr (vertices @ [v], raw_triangles)))
           else if hd parts = ''f''
           then bind (face_indices (tl parts)) (\<lambda>indices.
                  if length indices \<noteq> 3 then Inl (ValueError ''OBJ face must have exactly 3 vertices'')
                  else Inr (vertices, raw_triangles @ [indices]))
           else Inr (vertices, raw_triangles))"

fun obj_lines :: "(string \<Rightarrow> pyfloat option) \<Rightarrow> string list \<Rightarrow> mesh \<Rightarrow> mesh res" where
  "obj_lines float_text [] m = Inr m"
| "obj_lines float_text (l # ls) m = bind (obj_line float_text l m) (obj_lines float_text ls)"

definition parse_obj :: "mesh_env \<Rightarrow> string \<Rightarrow> mesh res" where
  "parse_obj en data =
     bind (obj_lines (pb_float_text (me_builtins en)) (py_splitlines (me_decode en data)) ([], [])) (\<lambda>(vertices, raw).
       validate_mesh (me_sqrt en) vertices (map (map (\<lambda>i. i - 1)) raw))"

section \<open>Loading\<close>

text \<open>
  The POSIX paths the code uses: \<open>Path(text)\<close> as its root and its parts, \<open>/\<close>, \<open>name\<close>, \<open>suffix\<close> and \<open>str\<close>.
\<close>

definition path_root :: "string \<Rightarrow> string" where
  "path_root s =
     (if startswith s ''//'' \<and> \<not> startswith s ''///'' then ''//'' else if startswith s ''/'' then ''/'' else [])"

definition path_of :: "string \<Rightarrow> string \<times> string list" where
  "path_of s = (path_root s, filter (\<lambda>p. p \<noteq> [] \<and> p \<noteq> ''.'') (py_split (CHR ''/'') s))"

definition path_join :: "string \<times> string list \<Rightarrow> string \<Rightarrow> string \<times> string list" where
  "path_join p s = (if path_root s \<noteq> [] then path_of s else (fst p, snd p @ snd (path_of s)))"

definition path_name :: "string \<times> string list \<Rightarrow> string" where
  "path_name p = (if snd p = [] then [] else last (snd p))"

definition path_str :: "string \<times> string list \<Rightarrow> string" where
  "path_str p = (if fst p = [] \<and> snd p = [] then ''.'' else fst p @ join_with ''/'' (snd p))"

definition name_suffix :: "string \<Rightarrow> string" where
  "name_suffix name =
     (let after = takeWhile (\<lambda>c. c \<noteq> CHR ''.'') (rev name); i = length name - length after
      in if after = [] \<or> i \<le> 1 then [] else CHR ''.'' # rev after)"

definition parse_mesh_bytes :: "mesh_env \<Rightarrow> string \<Rightarrow> string option \<Rightarrow> mesh res" where
  "parse_mesh_bytes en data filename =
     (let extension = py_lower (name_suffix (path_name (path_of (case filename of None \<Rightarrow> [] | Some f \<Rightarrow> f))))
      in if extension = ''.stl'' then parse_stl en data
         else if extension = ''.obj'' then parse_obj en data
         else Inl (ValueError (''unsupported mesh format ''
                @ repr_str (if extension = [] then ''<none>'' else extension) @ '' (supported: .stl, .obj)'')))"

definition scale_vertex :: "pyfloat list \<Rightarrow> pyfloat list \<Rightarrow> pyfloat list res" where
  "scale_vertex scale v =
     (if length scale < 3 then Inl (OtherError ''list index out of range'')
      else Inr [fmul (v ! 0) (scale ! 0), fmul (v ! 1) (scale ! 1), fmul (v ! 2) (scale ! 2)])"

definition load_mesh_asset :: "mesh_env \<Rightarrow> pyval \<Rightarrow> string \<Rightarrow> mesh res" where
  "load_mesh_asset en mesh project_root =
     bind (py_get mesh ''uri'') (\<lambda>u. bind (py_get mesh ''sha256'') (\<lambda>digest.
     bind (py_get_default mesh ''scale'' (PList [PFloat (Fin 1), PFloat (Fin 1), PFloat (Fin 1)])) (\<lambda>sc.
     bind (py_items sc) (\<lambda>vs. bind (each (py_float (me_builtins en)) vs) (\<lambda>scale.
       let uri = py_str (me_builtins en) u; declared = py_str (me_builtins en) digest;
           path = (if path_root uri \<noteq> [] then path_of uri else path_join (path_of project_root) uri)
       in if list_ex (\<lambda>v. \<not> isfinite v \<or> fle v (Fin 0)) scale
          then Inl (ValueError ''mesh scale must be finite and positive'')
          else
            case me_files en (path_str path) of
              None \<Rightarrow> Inl (ValueError (''mesh asset not found: '' @ path_str path))
            | Some data \<Rightarrow>
                let actual = me_sha256 en data
                in if actual \<noteq> declared
                   then Inl (ValueError (''mesh sha256 mismatch for '' @ path_str path @ '': declared '' @ declared
                               @ '' actual '' @ actual))
                   else bind (parse_mesh_bytes en data (Some (path_name path))) (\<lambda>(vertices, triangles).
                     if list_all2 feq scale [Fin 1, Fin 1, Fin 1] then Inr (vertices, triangles)
                     else bind (each (scale_vertex scale) vertices) (\<lambda>vs. Inr (vs, triangles))))))))"

text \<open>
  The project of a scenario file: the nearest directory above it that has \<open>simulation/scenarios\<close>, or its own.
  A resolved absolute path is the list of its parts; \<open>is_dir\<close> asks the file system.
\<close>

fun climb :: "(string list \<Rightarrow> bool) \<Rightarrow> string list \<Rightarrow> string list option" where
  "climb is_dir [] = (if is_dir [''simulation'', ''scenarios''] then Some [] else None)"
| "climb is_dir (part # ups) =
     (let cursor = rev (part # ups)
      in if is_dir (cursor @ [''simulation'', ''scenarios'']) then Some cursor else climb is_dir ups)"

definition find_project_root :: "(string list \<Rightarrow> bool) \<Rightarrow> string list \<Rightarrow> string list" where
  "find_project_root is_dir resolved =
     (case climb is_dir (rev (butlast resolved)) of Some root_parts \<Rightarrow> root_parts | None \<Rightarrow> butlast resolved)"

end
