(* ===== verification/Mesh_Safety.thy ===== *)
theory Mesh_Safety
  imports Mesh_Assets
begin

text \<open>
  What the fixture adapter promises: the owned ids are those of the objects it inserts, a parsed mesh is
  well formed, and a binary STL file is read as its layout says.
\<close>

section \<open>Owned fixtures\<close>

definition one_shape :: "string \<Rightarrow> collision_spec \<Rightarrow> bool" where
  "one_shape frame s \<longleftrightarrow>
     sp_frame s = frame \<and> sp_operation s = OBJECT_ADD
     \<and> (length (sp_primitives s) = 1 \<and> length (sp_primitive_poses s) = 1 \<and> sp_meshes s = [] \<and> sp_mesh_poses s = []
        \<or> sp_primitives s = [] \<and> sp_primitive_poses s = [] \<and> length (sp_meshes s) = 1 \<and> length (sp_mesh_poses s) = 1)"

lemma entering_Cons_InrE:
  assumes "entering f (x # xs) = Inr ys"
  obtains "diagnostic_enters x = Inr False" "entering f xs = Inr ys"
  | z zs where "diagnostic_enters x = Inr True" "f x = Inr z" "entering f xs = Inr zs" "ys = z # zs"
  using assms by (auto simp: bind_Inr_iff split: if_splits)

lemma entering_map:
  assumes fg: "\<And>x y. f x = Inr y \<Longrightarrow> g x = Inr (h y)" and "entering f xs = Inr ys"
  shows "entering g xs = Inr (map h ys)"
  using assms(2)
proof (induction xs arbitrary: ys)
  case (Cons x xs)
  from Cons.prems show ?case by (rule entering_Cons_InrE) (simp_all add: fg Cons.IH)
qed simp

lemma over_fixtures_map:
  assumes fg: "\<And>x y. f x = Inr y \<Longrightarrow> g x = Inr (h y)" and r: "over_fixtures f scene = Inr ys"
  shows "over_fixtures g scene = Inr (map h ys)"
proof -
  obtain o' objects xs d' diagnostics zs
    where *: "py_get_default scene ''objects'' (PList []) = Inr o'" "py_items o' = Inr objects"
      "each f objects = Inr xs" "py_get_default scene ''diagnostic_objects'' (PList []) = Inr d'"
      "py_items d' = Inr diagnostics" "entering f diagnostics = Inr zs" "ys = xs @ zs"
    using r by (auto simp: over_fixtures_def bind_Inr_iff)
  show ?thesis
    using * each_map [of f g h, OF fg *(3)] entering_map [of f g h, OF fg *(6)]
    by (simp add: over_fixtures_def)
qed

lemma entering_all:
  assumes P: "\<And>x y. f x = Inr y \<Longrightarrow> P y" and "entering f xs = Inr ys"
  shows "list_all P ys"
  using assms(2)
proof (induction xs arbitrary: ys)
  case (Cons x xs)
  from Cons.prems show ?case by (rule entering_Cons_InrE) (simp_all add: P Cons.IH)
qed simp

lemma over_fixtures_all:
  assumes P: "\<And>x y. f x = Inr y \<Longrightarrow> P y" and r: "over_fixtures f scene = Inr ys"
  shows "list_all P ys"
proof -
  obtain objects xs diagnostics zs
    where "each f objects = Inr xs" "entering f diagnostics = Inr zs" "ys = xs @ zs"
    using r by (auto simp: over_fixtures_def bind_Inr_iff)
  then show ?thesis using each_all [of f P, OF P] entering_all [of f P, OF P] by auto
qed

lemma record_to_spec_id:
  assumes "record_to_spec pb frame r = Inr s"
  shows "bind (py_get r ''id'') (\<lambda>i. Inr (py_str pb i)) = Inr (sp_id s)"
  using assms by (auto simp: record_to_spec_def bind_Inr_iff split: pyval.splits option.splits)

lemma record_to_spec_shape: "record_to_spec pb frame r = Inr s \<Longrightarrow> one_shape frame s"
  by (auto simp: record_to_spec_def one_shape_def bind_Inr_iff split: pyval.splits option.splits)

text \<open>The ids reported as owned are exactly the ids of the inserted objects, in order, whenever the
  objects can be built; each of them lies in the frame of the scene and has one shape with one pose.
\<close>

theorem owned_ids_are_inserted:
  assumes "fixture_to_specs pb scene = Inr specs"
  shows "fixture_owned_ids pb scene = Inr (map sp_id specs)
         \<and> (\<exists>frame. py_get scene ''frame_id'' = Inr frame \<and> list_all (one_shape (py_str pb frame)) specs)"
proof -
  obtain frame where frame: "py_get scene ''frame_id'' = Inr frame"
    and over: "over_fixtures (record_to_spec pb (py_str pb frame)) scene = Inr specs"
    using assms by (auto simp: fixture_to_specs_def bind_Inr_iff)
  have "fixture_owned_ids pb scene = Inr (map sp_id specs)"
    unfolding fixture_owned_ids_def by (rule over_fixtures_map [OF record_to_spec_id over])
  moreover have "list_all (one_shape (py_str pb frame)) specs"
    by (rule over_fixtures_all [OF record_to_spec_shape over])
  ultimately show ?thesis using frame by blast
qed

definition sample_builtins :: py_builtins where
  "sample_builtins = \<lparr>pb_float_text = (\<lambda>s. case int_token s of Inl _ \<Rightarrow> None | Inr i \<Rightarrow> Some (Fin (of_int i))),
                      pb_render = (\<lambda>_. [])\<rparr>"

definition sample_pose :: "string \<times> pyval" where
  "sample_pose = (''pose'', PDict [(''xyz'', PList [PInt 1, PFloat (Fin 2), PInt 0])])"

definition sample_scene :: pyval where
  "sample_scene = PDict
     [(''frame_id'', PStr ''base_link''),
      (''objects'', PList [PDict [(''id'', PStr ''sim_fixture/table''), sample_pose,
         (''primitive'', PDict [(''type'', PStr ''box''), (''dimensions'', PList [PInt 1, PInt 1, PInt 1])])]]),
      (''diagnostic_objects'', PList [PDict [(''id'', PStr ''sim_fixture/seen''), (''enter_collision_bodies'', PBool False)],
         PDict [(''id'', PStr ''sim_fixture/bin''), (''enter_collision_bodies'', PBool True), sample_pose,
           (''mesh'', PDict [(''uri'', PStr ''bin.stl''), (''sha256'', PStr ''00'')])]])]"

lemma owned_ids_are_inserted_witness:
  "fixture_owned_ids sample_builtins sample_scene = Inr [''sim_fixture/table'', ''sim_fixture/bin'']"
proof -
  have "is_ok (fixture_to_specs sample_builtins sample_scene)" by code_simp
  then obtain specs where specs: "fixture_to_specs sample_builtins sample_scene = Inr specs"
    by (auto simp: is_ok_iff)
  have "map_sum id (map sp_id) (fixture_to_specs sample_builtins sample_scene)
    = Inr [''sim_fixture/table'', ''sim_fixture/bin'']" by code_simp
  then show ?thesis using owned_ids_are_inserted [OF specs] by (simp add: specs)
qed

section \<open>Well-formed meshes\<close>

definition vertex_ok :: "pyfloat list \<Rightarrow> bool" where
  "vertex_ok v \<longleftrightarrow> length v = 3 \<and> list_all isfinite v"

definition triangle_ok :: "pyfloat list list \<Rightarrow> int list \<Rightarrow> bool" where
  "triangle_ok vs t \<longleftrightarrow>
     length t = 3 \<and> distinct t \<and> list_all (\<lambda>i. 0 \<le> i \<and> i < int (length vs)) t
     \<and> cross (vs ! nat (t ! 0)) (vs ! nat (t ! 1)) (vs ! nat (t ! 2)) \<noteq> [Fin 0, Fin 0, Fin 0]"

definition mesh_ok :: "mesh \<Rightarrow> bool" where
  "mesh_ok m \<longleftrightarrow>
     fst m \<noteq> [] \<and> snd m \<noteq> [] \<and> list_all vertex_ok (fst m) \<and> list_all (triangle_ok (fst m)) (snd m)"

text \<open>Of the square root only this is used: it is finite, and zero for zero only.\<close>

definition root_ok :: "(pyfloat \<Rightarrow> pyfloat) \<Rightarrow> bool" where
  "root_ok sqrtf \<longleftrightarrow> (\<forall>x\<ge>0. \<exists>r. sqrtf (Fin x) = Fin r \<and> (r = 0 \<longleftrightarrow> x = 0))"

lemma check_vertices_iff: "check_vertices vs = Inr u \<longleftrightarrow> list_all vertex_ok vs"
  by (induction vs) (auto simp: vertex_ok_def list_ex_iff list_all_iff)

lemma finite_vertex: "vertex_ok v \<Longrightarrow> \<exists>x y z. v = [Fin x, Fin y, Fin z]"
  by (auto simp: vertex_ok_def numeral_3_eq_3 length_Suc_conv isfinite_iff)

lemma squares_zero: "(x :: rat) * x + y * y + z * z = 0 \<longleftrightarrow> x = 0 \<and> y = 0 \<and> z = 0"
  by (smt (verit) add_nonneg_eq_0_iff add_nonneg_nonneg mult_eq_0_iff zero_le_square)

lemma area_ok:
  assumes "root_ok sqrtf" "vertex_ok a" "vertex_ok b" "vertex_ok c"
  shows "isfinite (area2 sqrtf a b c) \<and> \<not> feq (area2 sqrtf a b c) (Fin 0) \<longleftrightarrow> cross a b c \<noteq> [Fin 0, Fin 0, Fin 0]"
proof -
  obtain k0 k1 k2 where k: "cross a b c = [Fin k0, Fin k1, Fin k2]"
    using assms(2-4) [THEN finite_vertex] by (auto simp: cross_def edge_def)
  have "k0 * k0 + k1 * k1 + k2 * k2 \<ge> 0" by simp
  then obtain r where "sqrtf (Fin (k0 * k0 + k1 * k1 + k2 * k2)) = Fin r"
    "r = 0 \<longleftrightarrow> k0 * k0 + k1 * k1 + k2 * k2 = 0"
    using assms(1) unfolding root_ok_def by blast
  then show ?thesis by (simp add: area2_def k squares_zero Let_def)
qed

lemma check_triangles_iff:
  assumes "root_ok sqrtf" and "list_all vertex_ok vs"
  shows "check_triangles sqrtf vs ts = Inr u \<longleftrightarrow> list_all (triangle_ok vs) ts"
proof (induction ts)
  case (Cons t ts)
  have ok: "vertex_ok (vs ! nat i)" if "0 \<le> i" "i < int (length vs)" for i
    using assms(2) that by (simp add: list_all_length)
  show ?case
  proof (cases "length t = 3 \<and> list_all (\<lambda>i. 0 \<le> i \<and> i < int (length vs)) t")
    case True
    then obtain i j k where t: "t = [i, j, k]" by (auto simp: numeral_3_eq_3 length_Suc_conv)
    with True have "vertex_ok (vs ! nat i)" "vertex_ok (vs ! nat j)" "vertex_ok (vs ! nat k)" using ok by auto
    from area_ok [OF assms(1) this] Cons.IH True show ?thesis
      by (auto simp: t triangle_ok_def Let_def)
  qed (auto simp: triangle_ok_def list_ex_iff list_all_iff Cons.IH not_le not_less)
qed simp

lemma validate_mesh_iff:
  assumes "root_ok sqrtf"
  shows "validate_mesh sqrtf vs ts = Inr m \<longleftrightarrow> m = (vs, ts) \<and> mesh_ok (vs, ts)"
  by (auto simp: validate_mesh_def mesh_ok_def bind_Inr_iff check_vertices_iff check_triangles_iff [OF assms])

lemma parse_mesh_ok:
  assumes "root_ok (me_sqrt en)" and "parse_mesh_bytes en data filename = Inr m"
  shows "mesh_ok m"
  using assms(2)
  by (auto simp: parse_mesh_bytes_def parse_stl_def parse_obj_def parse_stl_binary_def parse_stl_ascii_def
      bind_Inr_iff validate_mesh_iff [OF assms(1)] Let_def split: if_splits option.splits)

text \<open>Scaling by positive factors keeps a mesh well formed, as far as the arithmetic is exact.\<close>

lemma cross_scaled:
  assumes "vertex_ok a" "vertex_ok b" "vertex_ok c" "0 < p" "0 < q" "0 < r"
    "scale_vertex [Fin p, Fin q, Fin r] a = Inr a'" "scale_vertex [Fin p, Fin q, Fin r] b = Inr b'"
    "scale_vertex [Fin p, Fin q, Fin r] c = Inr c'" "cross a' b' c' = [Fin 0, Fin 0, Fin 0]"
  shows "cross a b c = [Fin 0, Fin 0, Fin 0]"
proof -
  obtain a0 a1 a2 b0 b1 b2 c0 c1 c2 where abc: "a = [Fin a0, Fin a1, Fin a2]" "b = [Fin b0, Fin b1, Fin b2]"
    "c = [Fin c0, Fin c1, Fin c2]"
    using assms(1-3) [THEN finite_vertex] by blast
  have "q * r * ((b1 - a1) * (c2 - a2) - (b2 - a2) * (c1 - a1)) = 0"
    "r * p * ((b2 - a2) * (c0 - a0) - (b0 - a0) * (c2 - a2)) = 0"
    "p * q * ((b0 - a0) * (c1 - a1) - (b1 - a1) * (c0 - a0)) = 0"
    using assms(7-10) by (auto simp: abc scale_vertex_def cross_def edge_def algebra_simps)
  with assms(4-6) show ?thesis by (simp add: abc cross_def edge_def)
qed

lemma scaled_vertex_ok:
  assumes "vertex_ok v" "scale_vertex [Fin p, Fin q, Fin r] v = Inr w"
  shows "vertex_ok w"
  using finite_vertex [OF assms(1)] assms(2) by (auto simp: scale_vertex_def vertex_ok_def)

lemma scaled_mesh_ok:
  assumes ok: "mesh_ok (vs, ts)" and pos: "0 < p" "0 < q" "0 < r"
    and ws: "each (scale_vertex [Fin p, Fin q, Fin r]) vs = Inr ws"
  shows "mesh_ok (ws, ts)"
proof -
  have len: "length ws = length vs" by (rule each_length [OF ws])
  have v: "vertex_ok (vs ! i)" if "i < length vs" for i
    using ok that by (simp add: mesh_ok_def list_all_length)
  have "vertex_ok (ws ! i)" if "i < length vs" for i
    by (rule scaled_vertex_ok [OF v [OF that] each_nth [OF ws that]])
  moreover have "triangle_ok ws t" if t: "triangle_ok vs t" for t
  proof -
    obtain i j k where ijk: "t = [i, j, k]" using t by (auto simp: triangle_ok_def numeral_3_eq_3 length_Suc_conv)
    have n: "nat i < length vs" "nat j < length vs" "nat k < length vs" using t by (auto simp: ijk triangle_ok_def)
    have "cross (ws ! nat i) (ws ! nat j) (ws ! nat k) \<noteq> [Fin 0, Fin 0, Fin 0]"
      using cross_scaled [OF v [OF n(1)] v [OF n(2)] v [OF n(3)] pos each_nth [OF ws n(1)] each_nth [OF ws n(2)]
        each_nth [OF ws n(3)]] t by (auto simp: ijk triangle_ok_def)
    then show ?thesis using t by (simp add: ijk triangle_ok_def len)
  qed
  ultimately show ?thesis using ok len by (auto simp: mesh_ok_def list_all_length)
qed

lemma scale_fits:
  assumes "each (scale_vertex scale) vs = Inr ws" "vs \<noteq> []" "\<not> list_ex (\<lambda>v. \<not> isfinite v \<or> fle v (Fin 0)) scale"
  shows "\<exists>p q r rest. scale = Fin p # Fin q # Fin r # rest \<and> 0 < p \<and> 0 < q \<and> 0 < r"
proof -
  obtain v us where "vs = v # us" using assms(2) by (cases vs) auto
  then have "3 \<le> length scale" using assms(1) by (auto simp: bind_Inr_iff scale_vertex_def split: if_splits)
  then obtain a b c rest where s: "scale = a # b # c # rest"
    by (metis Suc_le_length_iff numeral_3_eq_3)
  then show ?thesis using assms(3) by (cases a; cases b; cases c) auto
qed

lemma scale_vertex_take: "scale_vertex (a # b # c # rest) = scale_vertex [a, b, c]"
  by (simp add: scale_vertex_def fun_eq_iff)

text \<open>C28: A mesh that loads comes from an existing file with the declared digest, and it is well formed:
  it has vertices and triangles, all coordinates are finite, every triangle joins three different vertices
  of the mesh and is not degenerate. Scaling keeps this, as far as float arithmetic is exact.
\<close>

theorem loaded_mesh_ok:
  assumes "root_ok (me_sqrt en)" and "load_mesh_asset en decl project_root = Inr m"
  shows "mesh_ok m
    \<and> (\<exists>path data digest. me_files en path = Some data \<and> py_get decl ''sha256'' = Inr digest
                       \<and> me_sha256 en data = py_str (me_builtins en) digest)"
proof -
  obtain path data digest sc vs ts where asset: "me_files en path = Some data" "py_get decl ''sha256'' = Inr digest"
      "me_sha256 en data = py_str (me_builtins en) digest"
    and sc: "\<not> list_ex (\<lambda>v. \<not> isfinite v \<or> fle v (Fin 0)) sc"
    and mesh: "mesh_ok (vs, ts)"
    and m: "m = (vs, ts) \<or> (\<exists>ws. each (scale_vertex sc) vs = Inr ws \<and> m = (ws, ts))"
    using assms(2)
    by (auto simp: load_mesh_asset_def bind_Inr_iff Let_def split: if_splits option.splits
        dest!: parse_mesh_ok [OF assms(1)])
  have "mesh_ok m"
    using m
  proof (elim disjE exE conjE)
    fix ws assume ws: "each (scale_vertex sc) vs = Inr ws" and "m = (ws, ts)"
    have "vs \<noteq> []" using mesh by (simp add: mesh_ok_def)
    then obtain p q r rest where "sc = Fin p # Fin q # Fin r # rest" "0 < p" "0 < q" "0 < r"
      using scale_fits [OF ws _ sc] by blast
    with ws \<open>m = (ws, ts)\<close> show ?thesis using scaled_mesh_ok [OF mesh] by (metis scale_vertex_take)
  qed (simp add: mesh)
  then show ?thesis using asset by blast
qed

definition sample_env :: "string \<Rightarrow> mesh_env" where
  "sample_env text = \<lparr>me_sqrt = (\<lambda>x. x), me_decode = (\<lambda>s. s), me_builtins = sample_builtins,
     me_sha256 = (\<lambda>s. dec_nat (length s)), me_files = (\<lambda>p. if p = ''/sim/tri.obj'' then Some text else None)\<rparr>"

definition sample_obj :: string where
  "sample_obj = ''# one triangle'' @ [CHR 0x0A] @ ''v 0 0 0'' @ [CHR 0x0A] @ ''v 1 0 0'' @ [CHR 0x0A] @ ''v 0 1 0''
     @ [CHR 0x0A] @ ''f 1/1 2/1 3''"

definition sample_mesh :: pyval where
  "sample_mesh = PDict [(''uri'', PStr ''./tri.obj''), (''sha256'', PStr (dec_nat (length sample_obj))),
     (''scale'', PList [PInt 2, PInt 3, PInt 1])]"

lemma root_ok_identity: "root_ok (\<lambda>x. x)"
  by (simp add: root_ok_def)

lemma loaded_mesh_ok_witness:
  "mesh_ok ([[Fin 0, Fin 0, Fin 0], [Fin 2, Fin 0, Fin 0], [Fin 0, Fin 3, Fin 0]], [[0, 1, 2]])"
proof -
  have "load_mesh_asset (sample_env sample_obj) sample_mesh ''/sim''
    = Inr ([[Fin 0, Fin 0, Fin 0], [Fin 2, Fin 0, Fin 0], [Fin 0, Fin 3, Fin 0]], [[0, 1, 2]])"
    by code_simp
  then show ?thesis by (rule loaded_mesh_ok [THEN conjunct1, rotated]) (simp add: sample_env_def root_ok_identity)
qed

section \<open>Binary STL\<close>

text \<open>
  The layout of a binary STL file: a header of 80 bytes, the number of facets, and per facet twelve
  little-endian words (the normal and three vertices) and two bytes.
\<close>

definition le_bytes :: "nat \<Rightarrow> string" where
  "le_bytes n = map (\<lambda>k. char_of (n div 256 ^ k mod 256)) [0..<4]"

definition facet_bytes :: "nat list \<times> string \<Rightarrow> string" where
  "facet_bytes f = concat (map le_bytes (fst f)) @ snd f"

definition stl_file :: "string \<Rightarrow> (nat list \<times> string) list \<Rightarrow> string" where
  "stl_file header facets = header @ le_bytes (length facets) @ concat (map facet_bytes facets)"

definition facet_fits :: "nat list \<times> string \<Rightarrow> bool" where
  "facet_fits f \<longleftrightarrow> length (fst f) = 12 \<and> list_all (\<lambda>w. w < 2 ^ 32) (fst f) \<and> length (snd f) = 2"

text \<open>The vertices and triangles such a file denotes.\<close>

definition word_vertices :: "nat list \<Rightarrow> pyfloat list list" where
  "word_vertices ws =
     [[single_of (ws ! 3), single_of (ws ! 4), single_of (ws ! 5)],
      [single_of (ws ! 6), single_of (ws ! 7), single_of (ws ! 8)],
      [single_of (ws ! 9), single_of (ws ! 10), single_of (ws ! 11)]]"

definition triangle_at :: "nat \<Rightarrow> int list" where
  "triangle_at k = [int k * 3, int k * 3 + 1, int k * 3 + 2]"

lemma length_le_bytes [simp]: "length (le_bytes n) = 4"
  by (simp add: le_bytes_def)

lemma le_nat_le_bytes:
  assumes n: "n < 2 ^ 32"
  shows "le_nat (le_bytes n) = n"
proof -
  have four: "[0..<4] = [0, 1, 2, 3 :: nat]" by code_simp
  define a where "a = n div 256"
  define b where "b = a div 256"
  define c where "c = b div 256"
  have "n = 256 * a + n mod 256" "a = 256 * b + a mod 256" "b = 256 * c + b mod 256"
    by (simp_all add: a_def b_def c_def)
  moreover have "c mod 256 = c" using n by (simp add: a_def b_def c_def flip: div_mult2_eq)
  moreover have "n div 65536 = b" "n div 16777216 = c" by (simp_all add: a_def b_def c_def flip: div_mult2_eq)
  moreover have "of_char (char_of (k mod 256) :: char) = (k mod 256 :: nat)" for k by (simp add: of_char_of)
  ultimately show ?thesis by (simp add: le_bytes_def four flip: a_def)
qed

lemma length_facet: "facet_fits f \<Longrightarrow> length (facet_bytes f) = 50"
  by (simp add: facet_fits_def facet_bytes_def length_concat sum_list_triv comp_def)

lemma length_facets: "list_all facet_fits fs \<Longrightarrow> length (concat (map facet_bytes fs)) = 50 * length fs"
  by (induction fs) (auto simp: length_facet)

lemma bytes_at_word:
  assumes "k < length ws"
  shows "bytes_at (pre @ concat (map le_bytes ws) @ post) (length pre + 4 * k) 4 = le_bytes (ws ! k)"
  using assms
proof (induction ws arbitrary: k pre)
  case (Cons w ws)
  show ?case
  proof (cases k)
    case (Suc j)
    then have "bytes_at ((pre @ le_bytes w) @ concat (map le_bytes ws) @ post) (length (pre @ le_bytes w) + 4 * j) 4
      = le_bytes (ws ! j)" using Cons by (intro Cons.IH) simp
    then show ?thesis by (simp add: Suc algebra_simps)
  qed (simp add: bytes_at_def)
qed simp

lemma single_at_word:
  assumes "facet_fits f" "k < 12" "n = length pre + 4 * k"
  shows "single_at (pre @ facet_bytes f @ post) n = single_of (fst f ! k)"
proof -
  have "bytes_at (pre @ concat (map le_bytes (fst f)) @ (snd f @ post)) n 4 = le_bytes (fst f ! k)"
    using assms bytes_at_word [of k "fst f"] by (simp add: facet_fits_def)
  moreover have "fst f ! k < 2 ^ 32" using assms(1,2) by (simp add: facet_fits_def list_all_length)
  ultimately show ?thesis by (simp add: single_at_def facet_bytes_def le_nat_le_bytes)
qed

lemma facet_vertices_word:
  assumes "facet_fits f"
  shows "facet_vertices (pre @ facet_bytes f @ post) (length pre) = word_vertices (fst f)"
proof -
  have three: "[0..<3] = [0, 1, 2 :: nat]" by code_simp
  show ?thesis by (simp add: facet_vertices_def word_vertices_def three single_at_word [OF assms] Let_def)
qed

lemma stl_facets_file:
  assumes "list_all facet_fits fs" "length pre = 84 + 50 * k"
  shows "stl_facets (pre @ concat (map facet_bytes fs)) [k..<k + length fs] (vs, ts)
         = Inr (vs @ concat (map (word_vertices \<circ> fst) fs), ts @ map triangle_at [k..<k + length fs])"
  using assms
proof (induction fs arbitrary: pre k vs ts)
  case (Cons f fs)
  have f: "facet_fits f" and l: "length (facet_bytes f) = 50" using Cons.prems length_facet by auto
  have ks: "[k..<k + length (f # fs)] = k # [Suc k..<Suc k + length fs]" by (simp add: upt_rec)
  have v: "facet_vertices (pre @ facet_bytes f @ concat (map facet_bytes fs)) (84 + k * 50) = word_vertices (fst f)"
    using facet_vertices_word [OF f, of pre "concat (map facet_bytes fs)"] Cons.prems(2) by (simp add: mult.commute)
  have "stl_facets ((pre @ facet_bytes f) @ concat (map facet_bytes fs)) [Suc k..<Suc k + length fs]
      (vs @ word_vertices (fst f), ts @ [triangle_at k])
    = Inr ((vs @ word_vertices (fst f)) @ concat (map (word_vertices \<circ> fst) fs),
           (ts @ [triangle_at k]) @ map triangle_at [Suc k..<Suc k + length fs])"
    using Cons.prems l by (intro Cons.IH) auto
  then show ?case
    using Cons.prems(2) l unfolding ks by (simp del: upt_Suc add: v triangle_at_def [symmetric] Let_def comp_def)
qed simp

text \<open>A binary STL file is read as its layout says, whatever its header holds and even when it starts like an
  ASCII one: the words of facet k become the vertices 3k to 3k+2 and their triangle, and the mesh passes or fails
  validation as a whole.
\<close>

theorem stl_binary_read:
  assumes "length header = 80" and "list_all facet_fits facets" and "length facets < 2 ^ 32"
  shows "parse_stl en (stl_file header facets)
         = validate_mesh (me_sqrt en) (concat (map (word_vertices \<circ> fst) facets)) (map triangle_at [0..<length facets])"
proof -
  let ?data = "(header @ le_bytes (length facets)) @ concat (map facet_bytes facets)"
  have count: "le_nat (bytes_at ?data 80 4) = length facets"
    using assms(1) le_nat_le_bytes [OF assms(3)] by (simp add: bytes_at_def)
  have size: "length ?data = 84 + 50 * length facets"
    using assms(1) length_facets [OF assms(2)] by simp
  have "stl_facets ?data [0..<length facets] ([], [])
      = Inr (concat (map (word_vertices \<circ> fst) facets), map triangle_at [0..<length facets])"
    using stl_facets_file [OF assms(2), of "header @ le_bytes (length facets)" 0 "[]" "[]"] assms(1) by simp
  then have "parse_stl_binary (me_sqrt en) ?data (length facets)
      = validate_mesh (me_sqrt en) (concat (map (word_vertices \<circ> fst) facets)) (map triangle_at [0..<length facets])"
    by (simp add: parse_stl_binary_def)
  moreover have "parse_stl en ?data = parse_stl_binary (me_sqrt en) ?data (length facets)"
    unfolding parse_stl_def Let_def count size by simp
  ultimately show ?thesis by (simp add: stl_file_def)
qed

definition sample_facet :: "nat list \<times> string" where
  "sample_facet = ([0, 0, 0, 0, 0, 0, 1065353216, 0, 0, 0, 3221225472, 0], ''  '')"

definition sample_header :: string where
  "sample_header = ''solid '' @ replicate 74 CHR ''x''"

lemma sample_singles: "single_of 0 = Fin 0" "single_of 1065353216 = Fin 1" "single_of 3221225472 = Fin (- 2)"
  by (simp_all add: single_of_def Let_def)

lemma stl_binary_read_witness:
  "parse_stl (sample_env []) (stl_file sample_header [sample_facet])
   = Inr ([[Fin 0, Fin 0, Fin 0], [Fin 1, Fin 0, Fin 0], [Fin 0, Fin (- 2), Fin 0]], [[0, 1, 2]])"
proof -
  have "parse_stl (sample_env []) (stl_file sample_header [sample_facet])
    = validate_mesh (me_sqrt (sample_env [])) (concat (map (word_vertices \<circ> fst) [sample_facet]))
        (map triangle_at [0..<length [sample_facet]])"
    by (rule stl_binary_read) (simp_all add: sample_header_def sample_facet_def facet_fits_def)
  also have "\<dots> = Inr ([[Fin 0, Fin 0, Fin 0], [Fin 1, Fin 0, Fin 0], [Fin 0, Fin (- 2), Fin 0]], [[0, 1, 2]])"
    by (simp add: sample_facet_def word_vertices_def triangle_at_def sample_singles validate_mesh_def cross_def
        edge_def area2_def sample_env_def Let_def)
  finally show ?thesis .
qed

end
