(* ===== verification/Fixture_Contract.thy ===== *)
theory Fixture_Contract
  imports Mesh_Assets
begin

text \<open>
  The fixture contract (\<open>fixture_contract.py\<close>, and the descriptor and status of
  \<open>fixture_planning_scene.py\<close>): canonical geometry of declared and of read back objects, the atomic replacement
  diff, and the confirmation of a revision.

  SHA-256 of the canonical JSON bytes of a value is the argument \<open>digest\<close>; the rounding to single precision and
  JSON parsing are arguments. The messages of ROS are typed records: their fields exist and hold floats.
\<close>

definition FIXTURE_NAMESPACE_PREFIX :: string where "FIXTURE_NAMESPACE_PREFIX = ''sim_fixture/''"
definition FIXTURE_OWNER :: string where "FIXTURE_OWNER = ''sim_fixture''"
definition TARGET_HANDOFF :: string where "TARGET_HANDOFF = ''pick_and_place/object_mesh''"
definition FIXTURE_STATE_READY :: string where "FIXTURE_STATE_READY = ''FIXTURE_READY''"
definition FIXTURE_STATE_PENDING :: string where "FIXTURE_STATE_PENDING = ''FIXTURE_PENDING''"
definition FIXTURE_STATE_FAILED :: string where "FIXTURE_STATE_FAILED = ''FIXTURE_FAILED''"

definition is_fixture :: "string \<Rightarrow> bool" where
  "is_fixture s = startswith s FIXTURE_NAMESPACE_PREFIX"

section \<open>Canonical geometry\<close>

definition quant :: "pyval \<Rightarrow> pyfloat res" where
  "quant v =
     (case v of
        PInt i \<Rightarrow> bind (int_float i) (\<lambda>_. Inr (Fin (round_digits 6 (of_int i))))
      | PFloat (Fin r) \<Rightarrow> Inr (Fin (round_digits 6 r))
      | PFloat _ \<Rightarrow> Inl (ValueError ''geometry value must be finite'')
      | _ \<Rightarrow> Inl (ValueError ''geometry value must be a finite number''))"

definition quant_float :: "pyfloat \<Rightarrow> pyfloat res" where
  "quant_float x = quant (PFloat x)"

definition floats :: "pyfloat list \<Rightarrow> pyval" where
  "floats xs = PList (map PFloat xs)"

definition ints :: "int list \<Rightarrow> pyval" where
  "ints xs = PList (map PInt xs)"

definition pose_spec :: "pyfloat list \<Rightarrow> pyfloat list res" where
  "pose_spec pose =
     bind (each quant_float pose) (\<lambda>qs.
       if length qs \<noteq> 7 then Inl (ValueError ''spec pose must contain exactly 7 values'') else Inr qs)"

definition spec_primitive :: "py_builtins \<Rightarrow> (string \<times> pyval) list \<Rightarrow> pyval res" where
  "spec_primitive pb primitive =
     bind (py_get (PDict primitive) ''type'') (\<lambda>t. bind (py_get (PDict primitive) ''dimensions'') (\<lambda>dims.
     bind (py_items dims) (\<lambda>vs. bind (each quant vs) (\<lambda>qs.
       Inr (PDict [(''type'', PStr (py_str pb t)), (''dimensions'', floats qs)])))))"

definition mesh_value :: "pyfloat list list \<Rightarrow> int list list \<Rightarrow> pyval" where
  "mesh_value vertices triangles =
     PDict [(''vertices'', PList (map floats vertices)), (''triangles'', PList (map ints triangles))]"

definition spec_mesh :: "(pyfloat \<Rightarrow> pyfloat res) \<Rightarrow> string \<Rightarrow> ((string \<times> pyval) list \<Rightarrow> mesh res) option
    \<Rightarrow> (string \<times> pyval) list \<Rightarrow> pyval res" where
  "spec_mesh float32 i resolve_mesh mesh =
     (case resolve_mesh of
        None \<Rightarrow> Inl (ValueError (''mesh geometry requires a mesh resolver for spec '' @ repr_str i))
      | Some resolve \<Rightarrow>
          bind (resolve mesh) (\<lambda>(vertices, triangles).
          bind (each (each (\<lambda>c. bind (float32 c) quant_float)) vertices) (\<lambda>vs. Inr (mesh_value vs triangles))))"

definition geometry_value :: "string \<Rightarrow> string \<Rightarrow> pyval list \<Rightarrow> pyfloat list list \<Rightarrow> pyval list \<Rightarrow> pyfloat list list \<Rightarrow> pyval" where
  "geometry_value i frame primitives primitive_poses meshes mesh_poses =
     PDict [(''id'', PStr i), (''frame_id'', PStr frame), (''primitives'', PList primitives),
            (''primitive_poses'', PList (map floats primitive_poses)), (''meshes'', PList meshes),
            (''mesh_poses'', PList (map floats mesh_poses))]"

definition spec_geometry :: "py_builtins \<Rightarrow> (pyfloat \<Rightarrow> pyfloat res) \<Rightarrow> ((string \<times> pyval) list \<Rightarrow> mesh res) option
    \<Rightarrow> collision_spec \<Rightarrow> pyval res" where
  "spec_geometry pb float32 resolve_mesh s =
     bind (each (spec_primitive pb) (sp_primitives s)) (\<lambda>primitives.
     bind (each (spec_mesh float32 (sp_id s) resolve_mesh) (sp_meshes s)) (\<lambda>meshes.
     bind (each pose_spec (sp_primitive_poses s)) (\<lambda>primitive_poses.
     bind (each pose_spec (sp_mesh_poses s)) (\<lambda>mesh_poses.
       Inr (geometry_value (sp_id s) (sp_frame s) primitives primitive_poses meshes mesh_poses)))))"

text \<open>The product of two poses (x, y, z, qx, qy, qz, qw), rounded.\<close>

definition compose_pose :: "pyfloat list \<Rightarrow> pyfloat list \<Rightarrow> pyfloat list res" where
  "compose_pose parent child =
     (if length parent \<noteq> 7 \<or> length child \<noteq> 7 then Inl (ValueError ''wrong number of values to unpack'')
      else
        let px = parent ! 0; py = parent ! 1; pz = parent ! 2;
            qx = parent ! 3; qy = parent ! 4; qz = parent ! 5; qw = parent ! 6;
            cx = child ! 0; cy = child ! 1; cz = child ! 2;
            rx = child ! 3; ry = child ! 4; rz = child ! 5; rw = child ! 6;
            uvx = fsub (fmul qy cz) (fmul qz cy);
            uvy = fsub (fmul qz cx) (fmul qx cz);
            uvz = fsub (fmul qx cy) (fmul qy cx);
            uuvx = fsub (fmul qy uvz) (fmul qz uvy);
            uuvy = fsub (fmul qz uvx) (fmul qx uvz);
            uuvz = fsub (fmul qx uvy) (fmul qy uvx);
            tx = fadd cx (fmul (Fin 2) (fadd (fmul qw uvx) uuvx));
            ty = fadd cy (fmul (Fin 2) (fadd (fmul qw uvy) uuvy));
            tz = fadd cz (fmul (Fin 2) (fadd (fmul qw uvz) uuvz))
        in each quant_float
             [fadd px tx, fadd py ty, fadd pz tz,
              fsub (fadd (fadd (fmul qw rx) (fmul qx rw)) (fmul qy rz)) (fmul qz ry),
              fadd (fadd (fsub (fmul qw ry) (fmul qx rz)) (fmul qy rw)) (fmul qz rx),
              fadd (fsub (fadd (fmul qw rz) (fmul qx ry)) (fmul qy rx)) (fmul qz rw),
              fsub (fsub (fsub (fmul qw rw) (fmul qx rx)) (fmul qy ry)) (fmul qz rz)])"

text \<open>A collision object message: primitives with their type number, meshes, and poses of seven floats.\<close>

record object_msg =
  om_id :: string
  om_frame :: string
  om_operation :: int
  om_pose :: "pyfloat list"
  om_primitives :: "(int \<times> pyfloat list) list"
  om_primitive_poses :: "pyfloat list list"
  om_meshes :: "(pyfloat list list \<times> int list list) list"
  om_mesh_poses :: "pyfloat list list"

definition solid_primitive_name :: "int \<Rightarrow> pyval" where
  "solid_primitive_name t =
     (if t = 1 then PStr ''box'' else if t = 2 then PStr ''sphere'' else if t = 3 then PStr ''cylinder'' else PInt t)"

definition read_primitive :: "int \<times> pyfloat list \<Rightarrow> pyval res" where
  "read_primitive p =
     bind (each quant_float (snd p)) (\<lambda>dims.
       Inr (PDict [(''type'', solid_primitive_name (fst p)), (''dimensions'', floats dims)]))"

definition read_mesh :: "pyfloat list list \<times> int list list \<Rightarrow> pyval res" where
  "read_mesh m = bind (each (each quant_float) (fst m)) (\<lambda>vs. Inr (mesh_value vs (snd m)))"

definition pose_readback :: "pyfloat list \<Rightarrow> pyfloat list res" where
  "pose_readback pose = each quant_float pose"

definition readback_geometry :: "string option \<Rightarrow> object_msg \<Rightarrow> pyval res" where
  "readback_geometry canonical_frame_id obj =
     (if om_id obj = [] then Inl (ValueError ''readback collision object has an empty id'')
      else if om_frame obj = []
      then Inl (ValueError (''readback collision object '' @ repr_str (om_id obj) @ '' has an empty frame_id''))
      else
        bind (case canonical_frame_id of
                None \<Rightarrow> Inr (om_frame obj)
              | Some canonical \<Rightarrow>
                  if om_frame obj \<noteq> ''world'' then Inr (om_frame obj)
                  else if canonical = [] then Inl (ValueError ''canonical_frame_id must not be empty'')
                  else Inr canonical) (\<lambda>frame.
        bind (pose_readback (om_pose obj)) (\<lambda>object_pose.
        bind (each read_primitive (om_primitives obj)) (\<lambda>primitives.
        bind (each read_mesh (om_meshes obj)) (\<lambda>meshes.
        bind (each (\<lambda>p. bind (pose_readback p) (compose_pose object_pose)) (om_primitive_poses obj)) (\<lambda>primitive_poses.
        bind (each (\<lambda>p. bind (pose_readback p) (compose_pose object_pose)) (om_mesh_poses obj)) (\<lambda>mesh_poses.
          Inr (geometry_value (om_id obj) frame primitives primitive_poses meshes mesh_poses))))))))"

section \<open>Comparison of geometry\<close>

text \<open>A counter keeps the order of first occurrence.\<close>

fun count_into :: "string list \<Rightarrow> (string \<times> nat) list \<Rightarrow> (string \<times> nat) list" where
  "count_into [] counts = counts"
| "count_into (k # ks) counts =
     count_into ks (dict_set k ((case map_of counts k of None \<Rightarrow> 0 | Some n \<Rightarrow> n) + 1) counts)"

definition duplicate_fixtures :: "string list \<Rightarrow> string list" where
  "duplicate_fixtures ids = map fst (filter (\<lambda>(k, n). n > 1 \<and> is_fixture k) (count_into ids []))"

fun first_by_id :: "(string \<times> pyval) list \<Rightarrow> string \<Rightarrow> pyval option" where
  "first_by_id [] oid = None"
| "first_by_id ((k, obj) # os) oid = (if k = oid then Some obj else first_by_id os oid)"

definition geometry_id :: "py_builtins \<Rightarrow> pyval \<Rightarrow> string res" where
  "geometry_id pb obj = bind (py_get_default obj ''id'' (PStr [])) (\<lambda>i. Inr (py_str pb i))"

definition compare_object :: "(pyval \<Rightarrow> string) \<Rightarrow> (string \<times> pyval) list \<Rightarrow> string \<times> pyval \<Rightarrow> string list" where
  "compare_object digest observed_by_id = (\<lambda>(oid, expected).
     (case first_by_id observed_by_id oid of
        None \<Rightarrow> [''readback is missing expected fixture object geometry: '' @ oid]
      | Some observed \<Rightarrow>
          if \<not> py_eq observed expected
          then [''readback geometry mismatch for '' @ oid @ '': expected '' @ digest expected @ '' observed '' @ digest observed]
          else []))"

definition compare_geometry :: "py_builtins \<Rightarrow> (pyval \<Rightarrow> string) \<Rightarrow> (string \<times> pyval) list \<Rightarrow> pyval list \<Rightarrow> string list res" where
  "compare_geometry pb digest expected_geometry observed_geometry =
     bind (each (geometry_id pb) observed_geometry) (\<lambda>ids.
       let duplicates = duplicate_fixtures ids;
           duplicate_reasons =
             (if duplicates \<noteq> []
              then [''readback contains duplicate fixture geometry ids: '' @ join_with '', '' (sort duplicates)] else [])
       in Inr (duplicate_reasons
               @ concat (map (compare_object digest (zip ids observed_geometry)) expected_geometry)))"

section \<open>The atomic diff\<close>

record diff_plan =
  dp_added :: "string list"
  dp_removed :: "string list"
  dp_operations :: "collision_spec list"
  dp_request :: pyval

definition remove_spec :: "string \<Rightarrow> string \<Rightarrow> collision_spec" where
  "remove_spec i frame =
     \<lparr>sp_id = i, sp_frame = frame, sp_operation = OBJECT_REMOVE, sp_primitives = [], sp_primitive_poses = [],
      sp_meshes = [], sp_mesh_poses = []\<rparr>"

definition spec_to_collision_object :: "collision_spec \<Rightarrow> pyval" where
  "spec_to_collision_object s =
     PDict [(''id'', PStr (sp_id s)), (''operation'', PInt (sp_operation s)), (''frame_id'', PStr (sp_frame s)),
            (''primitives'', PList (map PDict (sp_primitives s))),
            (''primitive_poses'', PList (map floats (sp_primitive_poses s))),
            (''meshes'', PList (map PDict (sp_meshes s))),
            (''mesh_poses'', PList (map floats (sp_mesh_poses s)))]"

fun check_desired :: "collision_spec list \<Rightarrow> unit res" where
  "check_desired [] = Inr ()"
| "check_desired (s # ss) =
     (if \<not> is_fixture (sp_id s)
      then Inl (ValueError (''fixture adapter may only create sim_fixture/* objects, got '' @ repr_str (sp_id s)))
      else if sp_operation s \<noteq> OBJECT_ADD
      then Inl (ValueError (''desired object '' @ repr_str (sp_id s) @ '' must be an ADD operation''))
      else check_desired ss)"

fun stale_ids :: "string list \<Rightarrow> pyval list \<Rightarrow> string list \<Rightarrow> string list res" where
  "stale_ids desired [] stale = Inr stale"
| "stale_ids desired (v # vs) stale =
     (case v of
        PStr i \<Rightarrow> stale_ids desired vs (if is_fixture i \<and> i \<notin> set desired \<and> i \<notin> set stale then stale @ [i] else stale)
      | _ \<Rightarrow> Inl (ValueError ''existing_ids must contain strings''))"

definition build_atomic_revision_diff :: "collision_spec list \<Rightarrow> pyval list \<Rightarrow> diff_plan res" where
  "build_atomic_revision_diff desired existing =
     bind (check_desired desired) (\<lambda>_.
       let desired_ids = map sp_id desired
       in if \<not> distinct desired_ids then Inl (ValueError ''desired fixture ids must be unique'')
          else bind (stale_ids desired_ids existing []) (\<lambda>stale.
            let frame = (case desired of [] \<Rightarrow> ''base_link'' | s # _ \<Rightarrow> sp_frame s);
                operations = desired @ map (\<lambda>i. remove_spec i frame) stale
            in Inr \<lparr>dp_added = desired_ids, dp_removed = stale, dp_operations = operations,
                    dp_request = PDict [(''is_diff'', PBool True),
                      (''world'', PDict [(''collision_objects'', PList (map spec_to_collision_object operations))])]\<rparr>))"

section \<open>Declaration and status\<close>

definition revision_digest :: "(pyval \<Rightarrow> string) \<Rightarrow> pyval \<Rightarrow> string res" where
  "revision_digest digest scene =
     (case scene of
        PDict d \<Rightarrow> Inr (digest (PDict (filter (\<lambda>(k, v). k \<noteq> ''revision_digest'') d)))
      | _ \<Rightarrow> Inl (ValueError ''planning_scene must be a mapping''))"

definition spec_canonical :: "collision_spec \<Rightarrow> pyval" where
  "spec_canonical s =
     PDict [(''frame_id'', PStr (sp_frame s)), (''primitives'', PList (map PDict (sp_primitives s))),
            (''primitive_poses'', PList (map floats (sp_primitive_poses s))),
            (''meshes'', PList (map PDict (sp_meshes s))), (''mesh_poses'', PList (map floats (sp_mesh_poses s)))]"

definition str_field :: "py_builtins \<Rightarrow> pyval \<Rightarrow> string \<Rightarrow> string res" where
  "str_field pb v key = bind (py_get v key) (\<lambda>x. Inr (py_str pb x))"

definition fixture_descriptor :: "py_builtins \<Rightarrow> (pyval \<Rightarrow> string) \<Rightarrow> pyval \<Rightarrow> pyval res" where
  "fixture_descriptor pb digest scene =
     bind (fixture_to_specs pb scene) (\<lambda>specs. bind (str_field pb scene ''revision'') (\<lambda>revision.
     bind (revision_digest digest scene) (\<lambda>rd. bind (str_field pb scene ''frame_id'') (\<lambda>frame.
     bind (str_field pb scene ''target_source_id'') (\<lambda>source. bind (str_field pb scene ''target_handoff'') (\<lambda>handoff.
     bind (fixture_owned_ids pb scene) (\<lambda>owned.
       Inr (PDict [(''owner'', PStr FIXTURE_OWNER), (''revision'', PStr revision), (''revision_digest'', PStr rd),
         (''frame_id'', PStr frame), (''target_source_id'', PStr source), (''target_handoff'', PStr handoff),
         (''owned_ids'', PList (map PStr owned)),
         (''objects'', PDict (foldl (\<lambda>d s. dict_set (sp_id s) (spec_canonical s) d) [] specs))]))))))))"

record fixture_identity =
  fi_scenario :: string
  fi_revision :: string
  fi_digest :: string
  fi_owned :: "string list"
  fi_source :: string
  fi_handoff :: string
  fi_descriptor :: string

definition canonical_fixture_status :: "fixture_identity \<Rightarrow> int \<Rightarrow> pyfloat \<Rightarrow> string \<Rightarrow> pyval" where
  "canonical_fixture_status f sequence published_at state =
     PDict [(''schema_version'', PInt 1), (''state'', PStr state), (''scenario'', PStr (fi_scenario f)),
            (''owner'', PStr FIXTURE_OWNER), (''revision'', PStr (fi_revision f)),
            (''revision_digest'', PStr (fi_digest f)), (''sequence'', PInt sequence),
            (''published_at'', PFloat published_at), (''owned_ids'', PList (map PStr (fi_owned f))),
            (''target_source_id'', PStr (fi_source f)), (''target_handoff'', PStr (fi_handoff f)),
            (''fixture_descriptor_sha256'', PStr (fi_descriptor f))]"

fun collect_owned :: "string list \<Rightarrow> string list \<Rightarrow> string list res" where
  "collect_owned [] acc = Inr acc"
| "collect_owned (token # ts) acc =
     (if \<not> is_fixture token
      then Inl (ValueError (''required fixture owned id must be prefixed '' @ repr_str FIXTURE_NAMESPACE_PREFIX
                            @ '': '' @ repr_str token))
      else if token \<in> set acc then Inl (ValueError (''duplicate required fixture owned id: '' @ repr_str token))
      else collect_owned ts (acc @ [token]))"

definition parse_required_fixture_owned_ids :: "py_builtins \<Rightarrow> (string \<Rightarrow> pyval res) \<Rightarrow> string \<Rightarrow> string list res" where
  "parse_required_fixture_owned_ids pb json_loads value =
     (let text = py_strip value
      in if text = [] then Inl (ValueError ''required fixture owned ids must not be empty'')
         else
           bind (if startswith text ''[''
                 then (case json_loads text of
                         Inl (ValueError _) \<Rightarrow> Inl (ValueError ''required fixture owned ids is not a JSON array'')
                       | Inl e \<Rightarrow> Inl e
                       | Inr (PList items) \<Rightarrow> Inr (map (py_str pb) items)
                       | Inr _ \<Rightarrow> Inl (ValueError ''required fixture owned ids must parse to an array''))
                 else Inr (filter (\<lambda>w. w \<noteq> []) (map py_strip (py_split (CHR '','') text)))) (\<lambda>tokens.
           bind (collect_owned tokens []) (\<lambda>result.
             if result = [] then Inl (ValueError ''required fixture owned ids resolved to no ids'') else Inr result)))"

section \<open>Confirmation\<close>

record confirmation =
  cf_ready :: bool
  cf_reasons :: "string list"
  cf_expected_revision :: string
  cf_expected_digest :: string
  cf_observed_revision :: pyval
  cf_observed_digest :: pyval
  cf_expected_ids :: "string list"
  cf_scene_ids :: "string list"
  cf_owned_present :: bool
  cf_foreign :: "string list"
  cf_status_consistent :: bool
  cf_geometry_consistent :: bool
  cf_geometry_reasons :: "string list"

definition hex64 :: "string \<Rightarrow> bool" where
  "hex64 s \<longleftrightarrow> length s = 64 \<and> list_all (\<lambda>c. c \<in> set ''0123456789abcdef'') s \<and> s \<noteq> replicate 64 CHR ''0''"

definition field_of :: "pyval \<Rightarrow> string \<Rightarrow> pyval" where
  "field_of v key = (case v of PDict d \<Rightarrow> (case map_of d key of None \<Rightarrow> PNone | Some x \<Rightarrow> x) | _ \<Rightarrow> PNone)"

text \<open>Membership in a set of strings: a list or a dictionary is not hashable.\<close>

definition in_strings :: "pyval \<Rightarrow> string list \<Rightarrow> bool res" where
  "in_strings v ids =
     (case v of PList _ \<Rightarrow> Inl (TypeError ''unhashable type'') | PDict _ \<Rightarrow> Inl (TypeError ''unhashable type'')
      | PStr s \<Rightarrow> Inr (s \<in> set ids) | _ \<Rightarrow> Inr False)"

definition sequence_ok :: "pyval \<Rightarrow> bool" where
  "sequence_ok v = (case v of PInt i \<Rightarrow> 1 \<le> i | _ \<Rightarrow> False)"

definition published_ok :: "pyval \<Rightarrow> bool" where
  "published_ok v = (case v of PInt _ \<Rightarrow> True | PFloat x \<Rightarrow> isfinite x | _ \<Rightarrow> False)"

definition descriptor_ok :: "pyval \<Rightarrow> bool" where
  "descriptor_ok v = (case v of PStr s \<Rightarrow> hex64 s | _ \<Rightarrow> False)"

definition unless :: "bool \<Rightarrow> string \<Rightarrow> string list" where
  "unless ok name = (if ok then [] else [name])"

definition status_checks :: "pyval \<Rightarrow> string \<Rightarrow> string \<Rightarrow> string list \<Rightarrow> string list res" where
  "status_checks status revision digest expected =
     (let field = field_of status;
          owned = (case status of PDict d \<Rightarrow> (case map_of d ''owned_ids'' of None \<Rightarrow> PList [] | Some x \<Rightarrow> x) | _ \<Rightarrow> PList [])
      in bind (py_items owned) (\<lambda>owned_ids. bind (in_strings (field ''target_source_id'') expected) (\<lambda>source_ok.
           Inr (unless (py_eq (field ''schema_version'') (PInt 1)) ''schema_version''
                @ unless (py_eq (field ''state'') (PStr FIXTURE_STATE_READY)) ''state''
                @ unless (py_eq (field ''owner'') (PStr FIXTURE_OWNER)) ''owner''
                @ unless (py_eq (field ''revision'') (PStr revision)) ''revision''
                @ unless (py_eq (field ''revision_digest'') (PStr digest)) ''revision_digest''
                @ unless (list_eq owned_ids (map PStr expected)) ''owned_ids''
                @ unless source_ok ''target_source_id''
                @ unless (py_eq (field ''target_handoff'') (PStr TARGET_HANDOFF)) ''target_handoff''
                @ unless (sequence_ok (field ''sequence'')) ''sequence''
                @ unless (published_ok (field ''published_at'')) ''published_at''
                @ unless (descriptor_ok (field ''fixture_descriptor_sha256'')) ''fixture_descriptor_sha256''))))"

definition confirm_fixture_revision :: "py_builtins \<Rightarrow> (pyval \<Rightarrow> string) \<Rightarrow> bool \<Rightarrow> string list \<Rightarrow> pyval
    \<Rightarrow> string \<Rightarrow> string \<Rightarrow> string list \<Rightarrow> (string \<times> pyval) list option \<Rightarrow> pyval list option \<Rightarrow> confirmation res" where
  "confirm_fixture_revision pb digest service_result scene_ids status revision rev_digest expected
       expected_geometry observed_geometry =
     (let owned_present = list_all (\<lambda>i. i \<in> set scene_ids) expected;
          duplicate_ids = duplicate_fixtures scene_ids;
          foreign = filter (\<lambda>i. is_fixture i \<and> i \<notin> set expected) scene_ids
      in bind (case (expected_geometry, observed_geometry) of
                 (None, None) \<Rightarrow> Inr []
               | (Some e, Some ob) \<Rightarrow> compare_geometry pb digest e ob
               | _ \<Rightarrow> Inr [''geometry verification requires both expected and observed geometry'']) (\<lambda>geometry_reasons.
         bind (status_checks status revision rev_digest expected) (\<lambda>checks.
           let reasons =
                 unless service_result ''apply planning scene service did not succeed''
                 @ unless owned_present ''readback is missing expected fixture owned ids''
                 @ unless (duplicate_ids = [])
                     (''readback contains duplicate sim_fixture ids: '' @ join_with '', '' (sort duplicate_ids))
                 @ unless (foreign = []) ''readback contains unexpected sim_fixture ids''
                 @ unless (checks = []) (''status inconsistent: '' @ join_with '', '' checks)
                 @ geometry_reasons
           in Inr \<lparr>cf_ready = (reasons = []), cf_reasons = reasons, cf_expected_revision = revision,
                   cf_expected_digest = rev_digest, cf_observed_revision = field_of status ''revision'',
                   cf_observed_digest = field_of status ''revision_digest'', cf_expected_ids = expected,
                   cf_scene_ids = scene_ids, cf_owned_present = owned_present, cf_foreign = foreign,
                   cf_status_consistent = (checks = []), cf_geometry_consistent = (geometry_reasons = []),
                   cf_geometry_reasons = geometry_reasons\<rparr>)))"

end
