(* ===== verification/Fixture_Node.thy ===== *)
theory Fixture_Node
  imports Fixture_Contract
begin

text \<open>
  The node that installs the fixtures (\<open>fixture_planning_scene_node.py\<close>) and the service helper it drives
  (\<open>step_service\<close> of \<open>contract_guard.py\<close>). A tick of its timer is one call of \<open>fn_tick\<close>; what the services
  report during the tick, the clocks and the mesh resolver are arguments. ROS handles are reduced to whether they exist:
  a service is created, an in-flight request is a future, its outcome is what the future reports when asked.
\<close>

section \<open>One bounded service request\<close>

record 'a service =
  sv_client :: bool
  sv_future :: bool
  sv_error :: "string option"
  sv_pending :: "string option"
  sv_succeeded :: bool
  sv_result :: "'a option"
  sv_succeeded_at :: "pyfloat option"
  sv_started_at :: "pyfloat option"

definition new_service :: "'a service" where
  "new_service =
     \<lparr>sv_client = False, sv_future = False, sv_error = None, sv_pending = None, sv_succeeded = False,
      sv_result = None, sv_succeeded_at = None, sv_started_at = None\<rparr>"

text \<open>What ROS reports during a tick: whether the service is discovered, and the state of the future.\<close>

datatype 'p call = In_Flight | Finished "'p res"

record 'p service_view =
  vw_ready :: bool
  vw_call :: "'p call"

text \<open>\<open>"{:.1f}".format(x)\<close>\<close>

definition one_decimal :: "rat \<Rightarrow> string" where
  "one_decimal x = (let n = round_even (10 * x) in dec_int (n div 10) @ ''.'' @ dec_int (n mod 10))"

definition reset_client :: "'a service \<Rightarrow> 'a service" where
  "reset_client s = s\<lparr>sv_client := False, sv_future := False\<rparr>"

definition expired :: "pyfloat \<Rightarrow> pyfloat option \<Rightarrow> rat \<Rightarrow> bool" where
  "expired now since limit = (case since of None \<Rightarrow> False | Some t \<Rightarrow> flt (Fin limit) (fsub now t))"

definition finish_call :: "('p \<Rightarrow> 'a option res) \<Rightarrow> pyfloat \<Rightarrow> 'p res \<Rightarrow> 'a service \<Rightarrow> 'a service" where
  "finish_call extract now outcome s =
     (case outcome of
        Inl e \<Rightarrow> reset_client (s\<lparr>sv_error := Some (''service call failed: '' @ exc_text e), sv_future := False\<rparr>)
      | Inr response \<Rightarrow>
          (case extract response of
             Inl e \<Rightarrow> reset_client (s\<lparr>sv_error := Some (''service response is malformed: '' @ exc_text e), sv_future := False\<rparr>)
           | Inr None \<Rightarrow> reset_client (s\<lparr>sv_error := Some ''service returned no usable response'', sv_future := False\<rparr>)
           | Inr (Some result) \<Rightarrow>
               s\<lparr>sv_future := False, sv_error := None, sv_succeeded := True, sv_result := Some result,
                 sv_succeeded_at := Some now\<rparr>))"

text \<open>
  The request is built only when it is sent; building it may raise, and then the step raises. Otherwise the step tells
  which request it sent, if any. \<open>ttl\<close> and \<open>timeout\<close> are the deadlines of the caller.
\<close>

definition poll_service :: "'q res \<Rightarrow> ('p \<Rightarrow> 'a option res) \<Rightarrow> pyfloat \<Rightarrow> rat \<Rightarrow> 'p service_view
    \<Rightarrow> 'a service \<Rightarrow> 'a service \<times> 'q option res" where
  "poll_service request extract now timeout view s0 =
     (let s = (if sv_client s0 then s0 else s0\<lparr>sv_client := True, sv_future := False, sv_started_at := None\<rparr>)
      in if \<not> sv_future s
         then (if \<not> vw_ready view then (s\<lparr>sv_pending := Some ''service not ready''\<rparr>, Inr None)
               else (case request of
                       Inl e \<Rightarrow> (s\<lparr>sv_pending := None\<rparr>, Inl e)
                     | Inr q \<Rightarrow> (s\<lparr>sv_pending := None, sv_future := True, sv_started_at := Some now\<rparr>, Inr (Some q))))
         else (case vw_call view of
                 In_Flight \<Rightarrow>
                   (if expired now (sv_started_at s) timeout
                    then (reset_client (s\<lparr>sv_error := Some (''service request timed out after '' @ one_decimal timeout @ '' s''),
                                          sv_pending := None, sv_future := False, sv_started_at := None\<rparr>), Inr None)
                    else (s\<lparr>sv_pending := Some ''request in flight''\<rparr>, Inr None))
               | Finished outcome \<Rightarrow>
                   (finish_call extract now outcome (s\<lparr>sv_pending := None, sv_started_at := None\<rparr>), Inr None)))"

definition step_service :: "'q res \<Rightarrow> ('p \<Rightarrow> 'a option res) \<Rightarrow> pyfloat \<Rightarrow> rat \<Rightarrow> rat \<Rightarrow> 'p service_view
    \<Rightarrow> 'a service \<Rightarrow> 'a service \<times> 'q option res" where
  "step_service request extract now ttl timeout view s =
     (if sv_succeeded s
      then (if expired now (sv_succeeded_at s) ttl
            then poll_service request extract now timeout view
                   (s\<lparr>sv_succeeded := False, sv_result := None, sv_succeeded_at := None\<rparr>)
            else (s, Inr None))
      else poll_service request extract now timeout view s)"

section \<open>The node\<close>

datatype fixture_phase = Physics | Discover | Apply | Readback | Confirm | Ready | Failed

text \<open>What the scenario and the parameters fix for the life of the node.\<close>

record fixture_config =
  fc_identity :: fixture_identity
  fc_frame :: "string option"
  fc_specs :: "collision_spec list"
  fc_deadline :: pyfloat

record fixture_node =
  fn_phase :: fixture_phase
  fn_state :: string
  fn_fail_reason :: "string option"
  fn_phase_started_at :: pyfloat
  fn_existing :: "string list"
  fn_plan :: "diff_plan option"
  fn_scene_ids :: "string list"
  fn_scene_objects :: "pyval list"
  fn_sequence :: int
  fn_last_status :: "pyval option"
  fn_physics :: "bool service"
  fn_discover :: "(string \<times> pyval option) list service"
  fn_apply :: "bool service"
  fn_readback :: "(string \<times> pyval option) list service"

text \<open>What one tick sees. A missing response, scene, world or object list of the planning scene is none.\<close>

record tick_env =
  te_now :: pyfloat
  te_clock :: pyfloat
  te_physics :: "bool option service_view"
  te_get :: "object_msg list option service_view"
  te_apply :: "bool option service_view"
  te_builtins :: py_builtins
  te_digest :: "pyval \<Rightarrow> string"
  te_float32 :: "pyfloat \<Rightarrow> pyfloat res"
  te_resolve :: "(string \<times> pyval) list \<Rightarrow> mesh res"

definition SERVICE_TTL_S :: rat where "SERVICE_TTL_S = 30"
definition SERVICE_TIMEOUT_S :: rat where "SERVICE_TIMEOUT_S = 5"
definition PLANNING_SCENE_SERVICE_TIMEOUT_S :: rat where "PLANNING_SCENE_SERVICE_TIMEOUT_S = 20"

text \<open>The get request asks for the names (8) and the geometry (16) of the world's objects.\<close>

definition WORLD_OBJECT_COMPONENTS :: nat where "WORLD_OBJECT_COMPONENTS = 8 + 16"

definition solid_primitive_type :: "string \<Rightarrow> int res" where
  "solid_primitive_type t =
     (if t = ''box'' then Inr 1 else if t = ''sphere'' then Inr 2 else if t = ''cylinder'' then Inr 3 else Inl (KeyError t))"

definition pose_from_seven :: "pyfloat list \<Rightarrow> pyfloat list res" where
  "pose_from_seven p = (if length p < 7 then Inl (OtherError ''tuple index out of range'') else Inr (take 7 p))"

definition primitive_message :: "py_builtins \<Rightarrow> (string \<times> pyval) list \<Rightarrow> (int \<times> pyfloat list) res" where
  "primitive_message pb primitive =
     bind (py_get (PDict primitive) ''type'') (\<lambda>t. bind (solid_primitive_type (py_str pb t)) (\<lambda>k.
     bind (py_get (PDict primitive) ''dimensions'') (\<lambda>dims. bind (py_items dims) (\<lambda>vs.
     bind (each (py_float pb) vs) (\<lambda>fs. Inr (k, fs))))))"

definition mesh_message :: "((string \<times> pyval) list \<Rightarrow> mesh res) \<Rightarrow> (string \<times> pyval) list \<Rightarrow> mesh res" where
  "mesh_message resolve mesh =
     bind (resolve mesh) (\<lambda>(vertices, triangles).
       if list_ex (\<lambda>v. length v < 3) vertices then Inl (OtherError ''tuple index out of range'')
       else Inr (map (take 3) vertices, triangles))"

definition spec_to_message :: "py_builtins \<Rightarrow> ((string \<times> pyval) list \<Rightarrow> mesh res) \<Rightarrow> collision_spec \<Rightarrow> object_msg res" where
  "spec_to_message pb resolve s =
     bind (each (primitive_message pb) (sp_primitives s)) (\<lambda>primitives.
     bind (each pose_from_seven (sp_primitive_poses s)) (\<lambda>primitive_poses.
     bind (each (mesh_message resolve) (sp_meshes s)) (\<lambda>meshes.
     bind (each pose_from_seven (sp_mesh_poses s)) (\<lambda>mesh_poses.
       Inr \<lparr>om_id = sp_id s, om_frame = sp_frame s, om_operation = sp_operation s,
            om_pose = [Fin 0, Fin 0, Fin 0, Fin 0, Fin 0, Fin 0, Fin 1],
            om_primitives = primitives, om_primitive_poses = primitive_poses, om_meshes = meshes,
            om_mesh_poses = mesh_poses\<rparr>))))"

subsection \<open>Status\<close>

definition fn_status :: "fixture_config \<Rightarrow> tick_env \<Rightarrow> string \<Rightarrow> fixture_node \<Rightarrow> pyval" where
  "fn_status c en state n = canonical_fixture_status (fc_identity c) (fn_sequence n) (te_clock en) state"

definition publish_heartbeat :: "fixture_config \<Rightarrow> tick_env \<Rightarrow> fixture_node \<Rightarrow> fixture_node \<times> pyval" where
  "publish_heartbeat c en n0 =
     (let n = n0\<lparr>fn_sequence := fn_sequence n0 + 1\<rparr>; status = fn_status c en (fn_state n) n
      in (n\<lparr>fn_last_status := Some status\<rparr>, status))"

definition on_ready :: "fixture_config \<Rightarrow> tick_env \<Rightarrow> fixture_node \<Rightarrow> bool \<times> pyval" where
  "on_ready c en n =
     (fn_phase n = Ready \<and> fn_state n = FIXTURE_STATE_READY,
      case fn_last_status n of Some status \<Rightarrow> status | None \<Rightarrow> fn_status c en (fn_state n) n)"

definition fail_node :: "string \<Rightarrow> fixture_node \<Rightarrow> fixture_node" where
  "fail_node reason n = n\<lparr>fn_phase := Failed, fn_state := FIXTURE_STATE_FAILED, fn_fail_reason := Some reason\<rparr>"

definition past_start_deadline :: "fixture_config \<Rightarrow> pyfloat \<Rightarrow> fixture_node \<Rightarrow> bool" where
  "past_start_deadline c now n = flt (fc_deadline c) (fsub now (fn_phase_started_at n))"

text \<open>
  A hard error fails the node; a timeout is cleared and retried. The result is the service state without a timeout
  and the reason to stop.
\<close>

definition hard_error :: "string \<Rightarrow> 'a service \<Rightarrow> 'a service \<times> string option" where
  "hard_error prefix s =
     (case sv_error s of
        None \<Rightarrow> (s, None)
      | Some e \<Rightarrow> if py_contains ''timed out'' e then (s\<lparr>sv_error := None\<rparr>, None)
                  else (s, Some (prefix @ '': '' @ e)))"

subsection \<open>Phases\<close>

text \<open>The responses of the services: a flag, and the objects of the planning scene.\<close>

definition flag_extract :: "bool option \<Rightarrow> bool option res" where
  "flag_extract response = Inr (case response of Some True \<Rightarrow> Some True | _ \<Rightarrow> None)"

definition extract_object :: "string option \<Rightarrow> object_msg \<Rightarrow> (string \<times> pyval option) res" where
  "extract_object frame obj =
     (if is_fixture (om_id obj)
      then (case readback_geometry frame obj of
              Inl (ValueError e) \<Rightarrow> Inl (ValueError (''malformed readback collision object: '' @ e))
            | Inl e \<Rightarrow> Inl e
            | Inr geometry \<Rightarrow> Inr (om_id obj, Some geometry))
      else Inr (om_id obj, None))"

definition get_extract :: "string option \<Rightarrow> object_msg list option \<Rightarrow> (string \<times> pyval option) list option res" where
  "get_extract frame response =
     (case response of
        None \<Rightarrow> Inr None
      | Some objects \<Rightarrow> bind (each (extract_object frame) objects) (\<lambda>xs. Inr (Some xs)))"

definition advance_physics :: "fixture_config \<Rightarrow> tick_env \<Rightarrow> fixture_node \<Rightarrow> fixture_node \<times> unit res" where
  "advance_physics c en n =
     (if past_start_deadline c (te_now en) n then (fail_node ''timed out waiting for physics-ready gate'' n, Inr ())
      else
        (case step_service (Inr ()) flag_extract (te_now en) SERVICE_TTL_S SERVICE_TIMEOUT_S (te_physics en) (fn_physics n) of
           (s, Inl e) \<Rightarrow> (n\<lparr>fn_physics := s\<rparr>, Inl e)
         | (s, Inr _) \<Rightarrow>
             (if sv_succeeded s then n\<lparr>fn_physics := s, fn_phase := Discover, fn_phase_started_at := te_now en\<rparr>
              else n\<lparr>fn_physics := s\<rparr>, Inr ())))"

definition advance_discover :: "fixture_config \<Rightarrow> tick_env \<Rightarrow> fixture_node \<Rightarrow> fixture_node \<times> unit res" where
  "advance_discover c en n =
     (case hard_error ''discover existing fixtures'' (fn_discover n) of
        (s, Some reason) \<Rightarrow> (fail_node reason (n\<lparr>fn_discover := s\<rparr>), Inr ())
      | (s, None) \<Rightarrow>
          if past_start_deadline c (te_now en) n
          then (fail_node ''timed out discovering the existing planning scene'' (n\<lparr>fn_discover := s\<rparr>), Inr ())
          else
            (case step_service (Inr WORLD_OBJECT_COMPONENTS) (get_extract (fc_frame c)) (te_now en) SERVICE_TTL_S
                    PLANNING_SCENE_SERVICE_TIMEOUT_S (te_get en) s of
               (s1, Inl e) \<Rightarrow> (n\<lparr>fn_discover := s1\<rparr>, Inl e)
             | (s1, Inr _) \<Rightarrow>
                 (case hard_error ''discover existing fixtures'' s1 of
                    (s2, Some reason) \<Rightarrow> (fail_node reason (n\<lparr>fn_discover := s2\<rparr>), Inr ())
                  | (s2, None) \<Rightarrow>
                      (case (sv_succeeded s2, sv_result s2) of
                         (True, Some objects) \<Rightarrow>
                           let existing = filter is_fixture (map fst objects);
                               n1 = n\<lparr>fn_discover := s2, fn_existing := existing\<rparr>
                           in (case build_atomic_revision_diff (fc_specs c) (map PStr existing) of
                                 Inl e \<Rightarrow> (n1, Inl e)
                               | Inr plan \<Rightarrow> (n1\<lparr>fn_plan := Some plan, fn_phase := Apply,
                                                 fn_phase_started_at := te_now en\<rparr>, Inr ()))
                       | _ \<Rightarrow> (n\<lparr>fn_discover := s2\<rparr>, Inr ())))))"

text \<open>The request is a scene diff with one message per operation of the plan; a mesh that does not load raises here.\<close>

definition build_apply_request :: "tick_env \<Rightarrow> fixture_node \<Rightarrow> object_msg list res" where
  "build_apply_request en n =
     (case fn_plan n of
        None \<Rightarrow> Inl (RuntimeError ''fixture diff plan is not built'')
      | Some plan \<Rightarrow> each (spec_to_message (te_builtins en) (te_resolve en)) (dp_operations plan))"

definition ensure_plan :: "fixture_config \<Rightarrow> fixture_node \<Rightarrow> fixture_node res" where
  "ensure_plan c n =
     (case fn_plan n of
        Some _ \<Rightarrow> Inr n
      | None \<Rightarrow> bind (build_atomic_revision_diff (fc_specs c) (map PStr (fn_existing n))) (\<lambda>plan. Inr (n\<lparr>fn_plan := Some plan\<rparr>)))"

definition advance_apply :: "fixture_config \<Rightarrow> tick_env \<Rightarrow> fixture_node \<Rightarrow> fixture_node \<times> unit res" where
  "advance_apply c en n0 =
     (case hard_error ''apply fixture scene'' (fn_apply n0) of
        (s, Some reason) \<Rightarrow> (fail_node reason (n0\<lparr>fn_apply := s\<rparr>), Inr ())
      | (s, None) \<Rightarrow>
          if past_start_deadline c (te_now en) n0
          then (fail_node ''timed out applying the fixture planning scene'' (n0\<lparr>fn_apply := s\<rparr>), Inr ())
          else
            (case ensure_plan c (n0\<lparr>fn_apply := s\<rparr>) of
               Inl e \<Rightarrow> (n0\<lparr>fn_apply := s\<rparr>, Inl e)
             | Inr n \<Rightarrow>
                 (case step_service (build_apply_request en n) flag_extract (te_now en) SERVICE_TTL_S
                         PLANNING_SCENE_SERVICE_TIMEOUT_S (te_apply en) s of
                    (s1, Inl e) \<Rightarrow> (n\<lparr>fn_apply := s1\<rparr>, Inl e)
                  | (s1, Inr _) \<Rightarrow>
                      (case hard_error ''apply fixture scene'' s1 of
                         (s2, Some reason) \<Rightarrow> (fail_node reason (n\<lparr>fn_apply := s2\<rparr>), Inr ())
                       | (s2, None) \<Rightarrow>
                           (if sv_succeeded s2
                            then n\<lparr>fn_apply := s2, fn_phase := Readback, fn_phase_started_at := te_now en\<rparr>
                            else n\<lparr>fn_apply := s2\<rparr>, Inr ())))))"

definition advance_readback :: "fixture_config \<Rightarrow> tick_env \<Rightarrow> fixture_node \<Rightarrow> fixture_node \<times> unit res" where
  "advance_readback c en n =
     (case hard_error ''read back fixture scene'' (fn_readback n) of
        (s, Some reason) \<Rightarrow> (fail_node reason (n\<lparr>fn_readback := s\<rparr>), Inr ())
      | (s, None) \<Rightarrow>
          if past_start_deadline c (te_now en) n
          then (fail_node ''timed out reading back the fixture planning scene'' (n\<lparr>fn_readback := s\<rparr>), Inr ())
          else
            (case step_service (Inr WORLD_OBJECT_COMPONENTS) (get_extract (fc_frame c)) (te_now en) SERVICE_TTL_S
                    PLANNING_SCENE_SERVICE_TIMEOUT_S (te_get en) s of
               (s1, Inl e) \<Rightarrow> (n\<lparr>fn_readback := s1\<rparr>, Inl e)
             | (s1, Inr _) \<Rightarrow>
                 (case hard_error ''read back fixture scene'' s1 of
                    (s2, Some reason) \<Rightarrow> (fail_node reason (n\<lparr>fn_readback := s2\<rparr>), Inr ())
                  | (s2, None) \<Rightarrow>
                      (case (sv_succeeded s2, sv_result s2) of
                         (True, Some objects) \<Rightarrow>
                           (n\<lparr>fn_readback := s2, fn_scene_objects := List.map_filter snd objects,
                              fn_scene_ids := map fst objects, fn_phase := Confirm\<rparr>, Inr ())
                       | _ \<Rightarrow> (n\<lparr>fn_readback := s2\<rparr>, Inr ())))))"

definition expected_geometry :: "fixture_config \<Rightarrow> tick_env \<Rightarrow> (string \<times> pyval) list res" where
  "expected_geometry c en =
     bind (each (\<lambda>s. bind (spec_geometry (te_builtins en) (te_float32 en) (Some (te_resolve en)) s) (\<lambda>g. Inr (sp_id s, g)))
             (fc_specs c)) (\<lambda>kvs. Inr (foldl (\<lambda>d (k, v). dict_set k v d) [] kvs))"

definition advance_confirm :: "fixture_config \<Rightarrow> tick_env \<Rightarrow> fixture_node \<Rightarrow> fixture_node \<times> unit res" where
  "advance_confirm c en n =
     (case bind (expected_geometry c en) (\<lambda>geometry.
             confirm_fixture_revision (te_builtins en) (te_digest en) True (fn_scene_ids n)
               (fn_status c en FIXTURE_STATE_READY n) (fi_revision (fc_identity c)) (fi_digest (fc_identity c))
               (fi_owned (fc_identity c)) (Some geometry) (Some (fn_scene_objects n))) of
        Inl e \<Rightarrow> (n, Inl e)
      | Inr confirmed \<Rightarrow>
          (if \<not> cf_ready confirmed
           then fail_node (''fixture readback/status confirmation failed: '' @ join_with ''; '' (cf_reasons confirmed)) n
           else n\<lparr>fn_phase := Ready, fn_state := FIXTURE_STATE_READY\<rparr>, Inr ()))"

definition advance :: "fixture_config \<Rightarrow> tick_env \<Rightarrow> fixture_node \<Rightarrow> fixture_node \<times> unit res" where
  "advance c en n =
     (case fn_phase n of
        Physics \<Rightarrow> advance_physics c en n
      | Discover \<Rightarrow> advance_discover c en n
      | Apply \<Rightarrow> advance_apply c en n
      | Readback \<Rightarrow> advance_readback c en n
      | Confirm \<Rightarrow> advance_confirm c en n
      | _ \<Rightarrow> (n, Inr ()))"

text \<open>A tick advances and publishes; an exception leaves the timer callback and ends the node.\<close>

definition fn_tick :: "fixture_config \<Rightarrow> tick_env \<Rightarrow> fixture_node \<Rightarrow> fixture_node \<times> pyval res" where
  "fn_tick c en n =
     (case advance c en n of
        (n1, Inl e) \<Rightarrow> (n1, Inl e)
      | (n1, Inr _) \<Rightarrow> (case publish_heartbeat c en n1 of (n2, status) \<Rightarrow> (n2, Inr status)))"

subsection \<open>Start\<close>

text \<open>
  \<open>_load_scenario\<close> and \<open>_initialize\<close>: the scenario file has been loaded and parsed to \<open>raw\<close>; the parameters
  are the heartbeat period, the start deadline and the declared ids.
\<close>

definition load_identity :: "py_builtins \<Rightarrow> (pyval \<Rightarrow> string) \<Rightarrow> string \<Rightarrow> pyval \<Rightarrow> (fixture_identity \<times> pyval) res" where
  "load_identity pb digest path raw =
     bind (py_get_default raw ''planning_scene'' PNone) (\<lambda>scene.
       case scene of
         PDict _ \<Rightarrow>
           bind (str_field pb raw ''id'') (\<lambda>scenario. bind (str_field pb scene ''revision'') (\<lambda>revision.
           bind (revision_digest digest scene) (\<lambda>rd. bind (fixture_owned_ids pb scene) (\<lambda>owned.
           bind (str_field pb scene ''target_source_id'') (\<lambda>source. bind (str_field pb scene ''target_handoff'') (\<lambda>handoff.
           bind (fixture_descriptor pb digest scene) (\<lambda>descriptor.
             Inr (\<lparr>fi_scenario = scenario, fi_revision = revision, fi_digest = rd, fi_owned = owned,
                   fi_source = source, fi_handoff = handoff, fi_descriptor = digest descriptor\<rparr>, scene))))))))
       | _ \<Rightarrow> Inl (ValueError (path @ '': scenario has no planning_scene object'')))"

definition positive_finite :: "pyfloat \<Rightarrow> bool" where
  "positive_finite x \<longleftrightarrow> isfinite x \<and> \<not> fle x (Fin 0)"

definition initial_node :: "pyfloat \<Rightarrow> fixture_node" where
  "initial_node now =
     \<lparr>fn_phase = Physics, fn_state = FIXTURE_STATE_PENDING, fn_fail_reason = None, fn_phase_started_at = now,
      fn_existing = [], fn_plan = None, fn_scene_ids = [], fn_scene_objects = [], fn_sequence = 0, fn_last_status = None,
      fn_physics = new_service, fn_discover = new_service, fn_apply = new_service, fn_readback = new_service\<rparr>"

definition initialize :: "py_builtins \<Rightarrow> (pyval \<Rightarrow> string) \<Rightarrow> (string \<Rightarrow> pyval res) \<Rightarrow> string \<Rightarrow> pyval \<Rightarrow> pyfloat \<Rightarrow> pyfloat
    \<Rightarrow> string \<Rightarrow> pyfloat \<Rightarrow> (fixture_config \<times> fixture_node) res" where
  "initialize pb digest json_loads path raw period start_deadline declared now =
     (if path = [] then Inl (ValueError ''scenario_file parameter is required'')
      else bind (load_identity pb digest path raw) (\<lambda>(identity, scene).
        if \<not> positive_finite period then Inl (ValueError ''heartbeat_period must be a finite positive number'')
        else if \<not> positive_finite start_deadline then Inl (ValueError ''start_deadline_s must be a finite positive number'')
        else bind (if declared = [] then Inr (fi_owned identity)
                   else parse_required_fixture_owned_ids pb json_loads declared) (\<lambda>required_owned.
          if required_owned \<noteq> fi_owned identity
          then Inl (ValueError ''required_fixture_owned_ids does not match the declared fixture owned ids'')
          else bind (fixture_to_specs pb scene) (\<lambda>specs.
               bind (py_get_default scene ''frame_id'' PNone) (\<lambda>frame.
                 Inr (\<lparr>fc_identity = identity, fc_frame = (if py_truthy frame then Some (py_str pb frame) else None),
                       fc_specs = specs, fc_deadline = start_deadline\<rparr>,
                      initial_node now))))))"

end
