(* ===== verification/Fixture_Safety.thy ===== *)
theory Fixture_Safety
  imports Fixture_Node
begin

text \<open>
  The fixture contract: the atomic diff replaces the name space of the fixtures and nothing else, a confirmation means
  what it says, and an object read back as it was sent has the declared geometry.
\<close>

section \<open>The atomic diff\<close>

lemma check_desired_iff:
  "check_desired ss = Inr u \<longleftrightarrow> list_all (\<lambda>s. is_fixture (sp_id s) \<and> sp_operation s = OBJECT_ADD) ss"
  by (induction ss) auto

lemma stale_ids_set:
  "stale_ids desired vs acc = Inr stale \<Longrightarrow>
     set stale = set acc \<union> {i. PStr i \<in> set vs \<and> is_fixture i \<and> i \<notin> set desired}"
proof (induction vs arbitrary: acc)
  case (Cons v vs)
  then obtain i where v: "v = PStr i" by (cases v) auto
  with Cons.prems have "stale_ids desired vs (if is_fixture i \<and> i \<notin> set desired \<and> i \<notin> set acc then acc @ [i] else acc)
    = Inr stale" by simp
  from Cons.IH [OF this] show ?case by (auto simp: v)
qed simp

lemma stale_ids_strings: "stale_ids desired (map PStr is) acc \<noteq> Inl e"
  by (induction "is" arbitrary: acc) auto

lemma diff_parts:
  assumes "build_atomic_revision_diff desired existing = Inr plan"
  shows "list_all (\<lambda>s. is_fixture (sp_id s) \<and> sp_operation s = OBJECT_ADD) desired"
    "distinct (map sp_id desired)"
    "\<exists>stale frame. dp_operations plan = desired @ map (\<lambda>i. remove_spec i frame) stale
       \<and> set stale = {i. PStr i \<in> set existing \<and> is_fixture i \<and> i \<notin> sp_id ` set desired}"
proof -
  let ?frame = "case desired of [] \<Rightarrow> ''base_link'' | s # _ \<Rightarrow> sp_frame s"
  obtain stale where *: "check_desired desired = Inr ()" "distinct (map sp_id desired)"
      "stale_ids (map sp_id desired) existing [] = Inr stale"
      "dp_operations plan = desired @ map (\<lambda>i. remove_spec i ?frame) stale"
    using assms by (auto simp: build_atomic_revision_diff_def bind_Inr_iff Let_def split: if_splits)
  show "list_all (\<lambda>s. is_fixture (sp_id s) \<and> sp_operation s = OBJECT_ADD) desired" "distinct (map sp_id desired)"
    using * by (simp_all add: check_desired_iff)
  have "set stale = {i. PStr i \<in> set existing \<and> is_fixture i \<and> i \<notin> sp_id ` set desired}"
    using stale_ids_set [OF *(3)] by simp
  with *(4) show "\<exists>stale frame. dp_operations plan = desired @ map (\<lambda>i. remove_spec i frame) stale
       \<and> set stale = {i. PStr i \<in> set existing \<and> is_fixture i \<and> i \<notin> sp_id ` set desired}" by blast
qed

text \<open>What applying the operations of a diff does to the objects of a scene, by their ids.\<close>

definition applies :: "(collision_spec \<Rightarrow> (string \<Rightarrow> collision_spec option) \<Rightarrow> string \<Rightarrow> collision_spec option) \<Rightarrow> bool" where
  "applies apply_op \<longleftrightarrow>
     (\<forall>s scene. sp_operation s = OBJECT_ADD \<longrightarrow> apply_op s scene = scene(sp_id s \<mapsto> s)) \<and>
     (\<forall>s scene. sp_operation s = OBJECT_REMOVE \<longrightarrow> apply_op s scene = scene(sp_id s := None))"

text \<open>The abstract effect: the fixtures are exactly the desired ones, everything else stays.\<close>

definition replaced :: "collision_spec list \<Rightarrow> (string \<Rightarrow> collision_spec option) \<Rightarrow> string \<Rightarrow> collision_spec option" where
  "replaced desired scene = (\<lambda>i. if is_fixture i then find (\<lambda>s. sp_id s = i) desired else scene i)"

definition covered :: "collision_spec list \<Rightarrow> pyval list \<Rightarrow> (string \<Rightarrow> collision_spec option) \<Rightarrow> bool" where
  "covered desired existing scene \<longleftrightarrow>
     (\<forall>i. is_fixture i \<and> scene i \<noteq> None \<longrightarrow> PStr i \<in> set existing \<or> i \<in> sp_id ` set desired)"

lemma fold_adds:
  assumes "applies apply_op" "list_all (\<lambda>s. sp_operation s = OBJECT_ADD) ss" "distinct (map sp_id ss)"
  shows "fold apply_op ss scene i = (case find (\<lambda>s. sp_id s = i) ss of Some s \<Rightarrow> Some s | None \<Rightarrow> scene i)"
  using assms(2,3)
proof (induction ss arbitrary: scene)
  case (Cons s ss)
  have "apply_op s scene = scene(sp_id s \<mapsto> s)" using assms(1) Cons.prems by (simp add: applies_def)
  moreover have "find (\<lambda>t. sp_id t = sp_id s) ss = None"
    using Cons.prems(2) by (auto simp: find_None_iff) (metis image_eqI)
  ultimately show ?case using Cons by (auto split: option.split)
qed simp

lemma fold_removes:
  assumes "applies apply_op"
  shows "fold apply_op (map (\<lambda>i. remove_spec i frame) ids) scene i = (if i \<in> set ids then None else scene i)"
proof (induction ids arbitrary: scene)
  case (Cons j ids)
  have "apply_op (remove_spec j frame) scene = scene(j := None)"
    using assms by (simp add: applies_def remove_spec_def)
  with Cons show ?case by simp
qed simp

text \<open>C23: Refinement of the abstract replacement: on every scene whose fixtures were listed when the diff was built, applying
  its operations in order leaves exactly the desired fixtures and all other objects; applying the diff once more
  (the node retries after a timeout) changes nothing.
\<close>

theorem diff_replaces_fixtures:
  assumes "build_atomic_revision_diff desired existing = Inr plan" and "applies apply_op"
    and "covered desired existing scene"
  shows "fold apply_op (dp_operations plan) scene = replaced desired scene
         \<and> fold apply_op (dp_operations plan) (replaced desired scene) = replaced desired scene"
proof -
  obtain stale frame where ops: "dp_operations plan = desired @ map (\<lambda>i. remove_spec i frame) stale"
    and stale: "set stale = {i. PStr i \<in> set existing \<and> is_fixture i \<and> i \<notin> sp_id ` set desired}"
    using diff_parts(3) [OF assms(1)] by blast
  have adds: "list_all (\<lambda>s. sp_operation s = OBJECT_ADD) desired" and fixtures: "\<forall>s \<in> set desired. is_fixture (sp_id s)"
    and dist: "distinct (map sp_id desired)"
    using diff_parts(1,2) [OF assms(1)] by (auto simp: list_all_iff)
  have applied: "fold apply_op (dp_operations plan) scene' = replaced desired scene'"
    if "covered desired existing scene'" for scene'
  proof
    fix i
    have found: "find (\<lambda>s. sp_id s = i) desired = None \<longleftrightarrow> i \<notin> sp_id ` set desired"
      by (auto simp: find_None_iff)
    have result: "fold apply_op (dp_operations plan) scene' i
        = (if i \<in> set stale then None else case find (\<lambda>s. sp_id s = i) desired of Some s \<Rightarrow> Some s | None \<Rightarrow> scene' i)"
      by (simp add: ops fold_removes [OF assms(2)] fold_adds [OF assms(2) adds dist])
    show "fold apply_op (dp_operations plan) scene' i = replaced desired scene' i"
    proof (cases "i \<in> sp_id ` set desired")
      case True
      then have "is_fixture i" "i \<notin> set stale" using fixtures stale by auto
      with True found show ?thesis by (auto simp: result replaced_def split: option.split)
    next
      case False
      then show ?thesis using found that stale by (auto simp: result replaced_def covered_def)
    qed
  qed
  have "find (\<lambda>s. sp_id s = i) desired = None \<or> i \<in> sp_id ` set desired" for i
    by (induction desired) auto
  then have "covered desired existing (replaced desired scene)"
    unfolding covered_def replaced_def by (metis (no_types, lifting))
  moreover have "replaced desired (replaced desired scene) = replaced desired scene"
    by (simp add: replaced_def fun_eq_iff)
  ultimately show ?thesis using applied assms(3) by metis
qed

section \<open>Confirmation\<close>

lemma keys_dict_set [simp]: "set (map fst (dict_set k v xs)) = insert k (set (map fst xs))"
  by (induction k v xs rule: dict_set.induct) auto

lemma distinct_dict_set: "distinct (map fst xs) \<Longrightarrow> distinct (map fst (dict_set k v xs))"
  by (induction k v xs rule: dict_set.induct) (simp_all del: set_map)

lemma distinct_count_into: "distinct (map fst counts) \<Longrightarrow> distinct (map fst (count_into ks counts))"
  by (induction ks counts rule: count_into.induct) (auto intro: distinct_dict_set)

lemma map_of_count_into:
  "map_of (count_into ks counts) k =
     (if k \<in> set ks then Some (count_list ks k + (case map_of counts k of None \<Rightarrow> 0 | Some n \<Rightarrow> n)) else map_of counts k)"
  by (induction ks counts rule: count_into.induct) (auto split: option.split)

text \<open>No fixture occurs twice.\<close>

lemma duplicate_fixtures_none:
  "duplicate_fixtures ids = [] \<longleftrightarrow> (\<forall>i \<in> set ids. is_fixture i \<longrightarrow> count_list ids i = 1)"
proof -
  have "(k, n) \<in> set (count_into ids []) \<longleftrightarrow> k \<in> set ids \<and> n = count_list ids k" for k n
    unfolding map_of_eq_Some_iff [OF distinct_count_into, of "[]", simplified, symmetric] map_of_count_into by auto
  then have "duplicate_fixtures ids = [] \<longleftrightarrow> (\<forall>k \<in> set ids. \<not> (count_list ids k > 1 \<and> is_fixture k))"
    unfolding duplicate_fixtures_def by (simp add: filter_empty_conv Ball_def)
  moreover have "k \<in> set ids \<Longrightarrow> count_list ids k > 1 \<longleftrightarrow> count_list ids k \<noteq> 1" for k
    using count_list_0_iff [of ids k] by (cases "count_list ids k") auto
  ultimately show ?thesis by blast
qed

lemma unless_Nil [simp]: "unless ok name = [] \<longleftrightarrow> ok"
  by (simp add: unless_def)

text \<open>The identities an observed scene must show, and the geometry that must match.\<close>

definition scene_agrees :: "string list \<Rightarrow> string list \<Rightarrow> bool" where
  "scene_agrees expected scene_ids \<longleftrightarrow>
     set expected \<subseteq> set scene_ids \<and>
     (\<forall>i \<in> set scene_ids. is_fixture i \<longrightarrow> i \<in> set expected \<and> count_list scene_ids i = 1)"

definition geometry_agrees :: "py_builtins \<Rightarrow> (string \<times> pyval) list \<Rightarrow> pyval list \<Rightarrow> bool" where
  "geometry_agrees pb declared observed \<longleftrightarrow>
     (\<exists>ids. each (geometry_id pb) observed = Inr ids
        \<and> (\<forall>i \<in> set ids. is_fixture i \<longrightarrow> count_list ids i = 1)
        \<and> (\<forall>(i, g) \<in> set declared. \<exists>g'. first_by_id (zip ids observed) i = Some g' \<and> py_eq g' g))"

definition identity_agrees :: "fixture_identity \<Rightarrow> int \<Rightarrow> pyfloat \<Rightarrow> bool" where
  "identity_agrees f sequence published_at \<longleftrightarrow>
     fi_source f \<in> set (fi_owned f) \<and> fi_handoff f = TARGET_HANDOFF \<and> hex64 (fi_descriptor f)
     \<and> 1 \<le> sequence \<and> isfinite published_at"

lemma list_eq_strings [simp]: "list_eq (map PStr xs) (map PStr ys) \<longleftrightarrow> xs = ys"
proof (induction xs arbitrary: ys)
  case (Cons x xs)
  then show ?case by (cases ys) (simp_all add: scalar_eq_def)
qed auto

lemma field_of_dict: "field_of (PDict ((k, v) # d)) key = (if key = k then v else field_of (PDict d) key)"
  by (simp add: field_of_def)

lemma field_of_status:
  "field_of (canonical_fixture_status f sequence published_at state) ''schema_version'' = PInt 1"
  "field_of (canonical_fixture_status f sequence published_at state) ''state'' = PStr state"
  "field_of (canonical_fixture_status f sequence published_at state) ''owner'' = PStr FIXTURE_OWNER"
  "field_of (canonical_fixture_status f sequence published_at state) ''revision'' = PStr (fi_revision f)"
  "field_of (canonical_fixture_status f sequence published_at state) ''revision_digest'' = PStr (fi_digest f)"
  "field_of (canonical_fixture_status f sequence published_at state) ''target_source_id'' = PStr (fi_source f)"
  "field_of (canonical_fixture_status f sequence published_at state) ''target_handoff'' = PStr (fi_handoff f)"
  "field_of (canonical_fixture_status f sequence published_at state) ''sequence'' = PInt sequence"
  "field_of (canonical_fixture_status f sequence published_at state) ''published_at'' = PFloat published_at"
  "field_of (canonical_fixture_status f sequence published_at state) ''fixture_descriptor_sha256'' = PStr (fi_descriptor f)"
  by (simp_all add: canonical_fixture_status_def field_of_dict)

lemma owned_of_status:
  "(case canonical_fixture_status f sequence published_at state of
       PDict d \<Rightarrow> (case map_of d ''owned_ids'' of None \<Rightarrow> PList [] | Some x \<Rightarrow> x) | _ \<Rightarrow> PList [])
     = PList (map PStr (fi_owned f))"
  by (simp add: canonical_fixture_status_def)

lemma status_checks_identity:
  "status_checks (canonical_fixture_status f sequence published_at state) revision rd owned =
     Inr (unless True ''schema_version'' @ unless (state = FIXTURE_STATE_READY) ''state'' @ unless True ''owner''
          @ unless (fi_revision f = revision) ''revision'' @ unless (fi_digest f = rd) ''revision_digest''
          @ unless (fi_owned f = owned) ''owned_ids'' @ unless (fi_source f \<in> set owned) ''target_source_id''
          @ unless (fi_handoff f = TARGET_HANDOFF) ''target_handoff'' @ unless (1 \<le> sequence) ''sequence''
          @ unless (isfinite published_at) ''published_at'' @ unless (hex64 (fi_descriptor f)) ''fixture_descriptor_sha256'')"
  unfolding status_checks_def Let_def field_of_status owned_of_status
  by (simp add: py_items_def in_strings_def sequence_ok_def published_ok_def descriptor_ok_def scalar_eq_def)

lemma status_of_identity:
  "status_checks (canonical_fixture_status f sequence published_at FIXTURE_STATE_READY) (fi_revision f) (fi_digest f) (fi_owned f)
     = Inr checks \<Longrightarrow> checks = [] \<longleftrightarrow> identity_agrees f sequence published_at"
  unfolding status_checks_identity identity_agrees_def by auto

lemma status_of_identity_defined:
  "\<exists>checks. status_checks (canonical_fixture_status f sequence published_at state) revision rd owned = Inr checks"
  by (simp add: status_checks_identity)

lemma compare_object_none:
  "compare_object digest observed (i, g) = [] \<longleftrightarrow> (\<exists>g'. first_by_id observed i = Some g' \<and> py_eq g' g)"
  by (simp add: compare_object_def split: option.split)

lemma compare_geometry_agrees:
  "compare_geometry pb digest declared observed = Inr [] \<longleftrightarrow> geometry_agrees pb declared observed"
proof (cases "each (geometry_id pb) observed")
  case (Inr ids)
  have "concat (map (compare_object digest (zip ids observed)) declared) = []
      \<longleftrightarrow> (\<forall>(i, g) \<in> set declared. \<exists>g'. first_by_id (zip ids observed) i = Some g' \<and> py_eq g' g)"
    by (auto simp: compare_object_none simp del: split_paired_Ex)
  with Inr show ?thesis
    by (simp add: compare_geometry_def geometry_agrees_def Let_def duplicate_fixtures_none)
qed (simp add: compare_geometry_def geometry_agrees_def)

lemma confirm_ready:
  assumes "each (geometry_id pb) observed = Inr ids"
  shows "\<exists>c. confirm_fixture_revision pb digest service_result scene_ids
               (canonical_fixture_status f sequence published_at FIXTURE_STATE_READY)
               (fi_revision f) (fi_digest f) (fi_owned f) (Some declared) (Some observed) = Inr c
             \<and> (cf_ready c \<longleftrightarrow> service_result \<and> scene_agrees (fi_owned f) scene_ids
                              \<and> geometry_agrees pb declared observed \<and> identity_agrees f sequence published_at)"
proof -
  obtain checks where checks: "status_checks (canonical_fixture_status f sequence published_at FIXTURE_STATE_READY)
      (fi_revision f) (fi_digest f) (fi_owned f) = Inr checks"
    using status_of_identity_defined by blast
  obtain reasons where reasons: "compare_geometry pb digest declared observed = Inr reasons"
    using assms by (simp add: compare_geometry_def Let_def)
  have scene: "scene_agrees (fi_owned f) scene_ids \<longleftrightarrow>
      list_all (\<lambda>i. i \<in> set scene_ids) (fi_owned f) \<and> duplicate_fixtures scene_ids = []
      \<and> filter (\<lambda>i. is_fixture i \<and> i \<notin> set (fi_owned f)) scene_ids = []"
    by (auto simp: scene_agrees_def duplicate_fixtures_none list_all_iff filter_empty_conv)
  have "reasons = [] \<longleftrightarrow> geometry_agrees pb declared observed"
    using reasons compare_geometry_agrees [of pb digest declared observed] by auto
  then show ?thesis
    by (simp add: confirm_fixture_revision_def reasons checks Let_def scene status_of_identity [OF checks]) blast
qed

text \<open>What a status must say, whoever sent it, to be accepted for a revision, its digest and its ids.\<close>

definition owned_field :: "pyval \<Rightarrow> pyval" where
  "owned_field status =
     (case status of PDict d \<Rightarrow> (case map_of d ''owned_ids'' of None \<Rightarrow> PList [] | Some x \<Rightarrow> x) | _ \<Rightarrow> PList [])"

definition status_accepted :: "pyval \<Rightarrow> string \<Rightarrow> string \<Rightarrow> string list \<Rightarrow> bool" where
  "status_accepted status revision rev_digest expected \<longleftrightarrow>
     number_of (field_of status ''schema_version'') = Some (Fin 1)
     \<and> field_of status ''state'' = PStr FIXTURE_STATE_READY
     \<and> field_of status ''owner'' = PStr FIXTURE_OWNER
     \<and> field_of status ''revision'' = PStr revision
     \<and> field_of status ''revision_digest'' = PStr rev_digest
     \<and> py_items (owned_field status) = Inr (map PStr expected)
     \<and> (\<exists>source \<in> set expected. field_of status ''target_source_id'' = PStr source)
     \<and> field_of status ''target_handoff'' = PStr TARGET_HANDOFF
     \<and> (\<exists>n \<ge> 1. field_of status ''sequence'' = PInt n)
     \<and> ((\<exists>n. field_of status ''published_at'' = PInt n) \<or> (\<exists>t. field_of status ''published_at'' = PFloat (Fin t)))
     \<and> (\<exists>h. hex64 h \<and> field_of status ''fixture_descriptor_sha256'' = PStr h)"

lemma py_eq_string [simp]: "py_eq v (PStr s) \<longleftrightarrow> v = PStr s"
  by (cases v) (auto simp: scalar_eq_def)

lemma py_eq_one: "py_eq v (PInt 1) \<longleftrightarrow> number_of v = Some (Fin 1)"
  by (cases v) (auto simp: scalar_eq_def split: option.split elim: feq.elims)

lemma list_eq_string_list [simp]: "list_eq vs (map PStr ys) \<longleftrightarrow> vs = map PStr ys"
proof (induction vs arbitrary: ys)
  case (Cons v vs)
  then show ?case by (cases ys) auto
qed simp

lemma status_checks_accept:
  "status_checks status revision rd expected = Inr [] \<longleftrightarrow> status_accepted status revision rd expected"
proof -
  have seq: "sequence_ok v \<longleftrightarrow> (\<exists>n \<ge> 1. v = PInt n)" for v by (cases v) (simp_all add: sequence_ok_def)
  have pub: "published_ok v \<longleftrightarrow> (\<exists>n. v = PInt n) \<or> (\<exists>t. v = PFloat (Fin t))" for v
    by (cases v) (simp_all add: published_ok_def isfinite_iff)
  have desc: "descriptor_ok v \<longleftrightarrow> (\<exists>h. hex64 h \<and> v = PStr h)" for v by (cases v) (auto simp: descriptor_ok_def)
  have src: "in_strings v expected = Inr True \<longleftrightarrow> (\<exists>s \<in> set expected. v = PStr s)" for v
    by (cases v) (auto simp: in_strings_def)
  show ?thesis
    unfolding status_checks_def status_accepted_def Let_def py_eq_string py_eq_one seq pub desc
      src [symmetric] owned_field_def [symmetric]
    by (cases "py_items (owned_field status)"; cases "in_strings (field_of status ''target_source_id'') expected") auto
qed

definition geometry_accepted ::
  "py_builtins \<Rightarrow> (string \<times> pyval) list option \<Rightarrow> pyval list option \<Rightarrow> bool" where
  "geometry_accepted pb declared observed \<longleftrightarrow>
     (case (declared, observed) of
        (None, None) \<Rightarrow> True
      | (Some d, Some ob) \<Rightarrow> geometry_agrees pb d ob
      | _ \<Rightarrow> False)"


section \<open>Geometry\<close>

lemma quant_float_Inr: "quant_float x = Inr y \<longleftrightarrow> (\<exists>r. x = Fin r \<and> y = Fin (round_digits 6 r))"
  by (cases x) (auto simp: quant_float_def quant_def)

lemma quant_of_float: "quant v = Inr q \<Longrightarrow> py_float pb v = Inr x \<Longrightarrow> quant_float x = Inr q"
  by (auto simp: quant_def quant_float_def py_float_def int_float_Inr bind_Inr_iff split: pyval.splits pyfloat.splits)

lemma quant_idem: "each quant_float xs = Inr ys \<Longrightarrow> each quant_float ys = Inr ys"
  by (rule each_each [of quant_float quant_float]) (auto simp: quant_float_Inr)

text \<open>Composing with the identity pose only rounds.\<close>

lemma compose_identity:
  assumes "each quant_float pose = Inr qs" "length qs = 7"
  shows "compose_pose [Fin 0, Fin 0, Fin 0, Fin 0, Fin 0, Fin 0, Fin 1] qs = Inr qs"
proof -
  have idem: "each quant_float qs = Inr qs" by (rule quant_idem [OF assms(1)])
  obtain a b c d e f g where qs: "qs = [a, b, c, d, e, f, g]"
    using assms(2) by (auto simp: numeral_eq_Suc length_Suc_conv)
  then obtain ra rb rc rd re rf rg where "qs = [Fin ra, Fin rb, Fin rc, Fin rd, Fin re, Fin rf, Fin rg]"
    using idem by (auto simp: bind_Inr_iff quant_float_Inr)
  then show ?thesis using idem by (simp add: compose_pose_def Let_def)
qed

lemma identity_readback:
  "pose_readback [Fin 0, Fin 0, Fin 0, Fin 0, Fin 0, Fin 0, Fin 1] = Inr [Fin 0, Fin 0, Fin 0, Fin 0, Fin 0, Fin 0, Fin 1]"
  using round_even_int [of 0] round_even_int [of "1000000"]
  by (simp add: pose_readback_def quant_float_def quant_def round_digits_def)

lemma pose_read:
  assumes "pose_spec pose = Inr qs" "pose_from_seven pose = Inr p"
  shows "bind (pose_readback p) (compose_pose [Fin 0, Fin 0, Fin 0, Fin 0, Fin 0, Fin 0, Fin 1]) = Inr qs"
proof -
  have qs: "each quant_float pose = Inr qs" "length qs = 7"
    using assms(1) by (auto simp: pose_spec_def bind_Inr_iff split: if_splits)
  then have "length pose = 7" using each_length by metis
  then have "p = pose" using assms(2) by (simp add: pose_from_seven_def)
  then show ?thesis using qs compose_identity [OF qs] by (simp add: pose_readback_def)
qed

lemma primitive_read:
  assumes "spec_primitive pb primitive = Inr g" "primitive_message pb primitive = Inr m"
  shows "read_primitive m = Inr g"
proof -
  obtain t dims vs qs k fs where *: "py_get (PDict primitive) ''type'' = Inr t"
      "each quant vs = Inr qs" "each (py_float pb) vs = Inr fs"
      "g = PDict [(''type'', PStr (py_str pb t)), (''dimensions'', floats qs)]"
      "solid_primitive_type (py_str pb t) = Inr k" "m = (k, fs)"
    using assms by (auto simp: spec_primitive_def primitive_message_def bind_Inr_iff)
  have "each quant_float fs = Inr qs" by (rule each_each [OF quant_of_float *(2,3)])
  moreover have "solid_primitive_name k = PStr (py_str pb t)"
    using *(5) by (auto simp: solid_primitive_type_def solid_primitive_name_def split: if_splits)
  ultimately show ?thesis by (simp add: read_primitive_def *(4,6))
qed

text \<open>On the wire every coordinate of a mesh is narrowed to single precision; the declaration is narrowed the
  same way before it is compared.\<close>

definition wire_mesh :: "(pyfloat \<Rightarrow> pyfloat res) \<Rightarrow> mesh \<Rightarrow> mesh res" where
  "wire_mesh float32 m = bind (each (each float32) (fst m)) (\<lambda>vs. Inr (vs, snd m))"

definition on_wire :: "(pyfloat \<Rightarrow> pyfloat res) \<Rightarrow> object_msg \<Rightarrow> object_msg res" where
  "on_wire float32 m = bind (each (wire_mesh float32) (om_meshes m)) (\<lambda>ms. Inr (m\<lparr>om_meshes := ms\<rparr>))"

definition resolves_triples :: "((string \<times> pyval) list \<Rightarrow> mesh res) \<Rightarrow> bool" where
  "resolves_triples resolve \<longleftrightarrow> (\<forall>d vs ts. resolve d = Inr (vs, ts) \<longrightarrow> list_all (\<lambda>v. length v = 3) vs)"

lemma each_factor:
  assumes h: "\<And>x y z. F x = Inr y \<Longrightarrow> G x = Inr z \<Longrightarrow> \<exists>w. f z = Inr w \<and> k w = Inr y"
  shows "each F xs = Inr ys \<Longrightarrow> each G xs = Inr zs \<Longrightarrow> \<exists>ws. each f zs = Inr ws \<and> each k ws = Inr ys"
proof (induction xs arbitrary: ys zs)
  case (Cons x xs)
  from Cons.prems(1) obtain y ys' where y: "F x = Inr y" "each F xs = Inr ys'" "ys = y # ys'" by (rule each_Cons_InrE)
  from Cons.prems(2) obtain z zs' where z: "G x = Inr z" "each G xs = Inr zs'" "zs = z # zs'" by (rule each_Cons_InrE)
  obtain ws where "each f zs' = Inr ws" "each k ws = Inr ys'" using Cons.IH [OF y(2) z(2)] by blast
  moreover obtain w where "f z = Inr w" "k w = Inr y" using h [OF y(1) z(1)] by blast
  ultimately have "each f zs = Inr (w # ws) \<and> each k (w # ws) = Inr ys" by (simp add: y(3) z(3))
  then show ?case by blast
qed simp

lemma each_self: "each Inr xs = Inr xs"
  by (induction xs) simp_all

lemma each_bind:
  assumes "each (\<lambda>c. bind (f c) k) xs = Inr ys"
  shows "\<exists>ws. each f xs = Inr ws \<and> each k ws = Inr ys"
  by (rule each_factor [OF _ assms each_self]) (auto simp: bind_Inr_iff)

lemma mesh_read:
  assumes "spec_mesh float32 i (Some resolve) d = Inr g" "mesh_message resolve d = Inr m" "resolves_triples resolve"
  shows "\<exists>m'. wire_mesh float32 m = Inr m' \<and> read_mesh m' = Inr g"
proof -
  obtain vs ts qs where *: "resolve d = Inr (vs, ts)" "each (each (\<lambda>c. bind (float32 c) quant_float)) vs = Inr qs"
      "g = mesh_value qs ts" "m = (map (take 3) vs, ts)"
    using assms(1,2) by (auto simp: spec_mesh_def mesh_message_def bind_Inr_iff split: if_splits)
  have "\<forall>v \<in> set vs. length v = 3"
    using assms(3) *(1) unfolding resolves_triples_def list_all_iff by blast
  then have "map (take 3) vs = vs" by (intro map_idI) simp
  moreover obtain ws where "each (each float32) vs = Inr ws" "each (each quant_float) ws = Inr qs"
    using each_factor [OF _ *(2) each_self, of "each float32" "each quant_float"] each_bind by blast
  ultimately show ?thesis by (simp add: wire_mesh_def read_mesh_def *(3,4))
qed


section \<open>Witnesses\<close>

text \<open>One declared object with a box and a mesh, the message it becomes, and an environment that answers everything.\<close>

definition demo_spec :: collision_spec where
  "demo_spec = \<lparr>sp_id = ''sim_fixture/box'', sp_frame = ''base_link'', sp_operation = OBJECT_ADD,
     sp_primitives = [[(''type'', PStr ''box''), (''dimensions'', PList [PInt 1, PInt 2, PFloat (Fin (1/2))])]],
     sp_primitive_poses = [[Fin 1, Fin 0, Fin 0, Fin 0, Fin 0, Fin 0, Fin 1]],
     sp_meshes = [[(''uri'', PStr ''tri.obj'')]], sp_mesh_poses = [[Fin 0, Fin 2, Fin 0, Fin 0, Fin 0, Fin 0, Fin 1]]\<rparr>"

definition demo_resolve :: "(string \<times> pyval) list \<Rightarrow> mesh res" where
  "demo_resolve d = Inr ([[Fin 0, Fin 0, Fin 0], [Fin 1, Fin 0, Fin 0], [Fin 0, Fin 1, Fin 0]], [[0, 1, 2]])"

definition demo_builtins :: py_builtins where
  "demo_builtins = \<lparr>pb_float_text = (\<lambda>_. None), pb_render = (\<lambda>_. [])\<rparr>"

definition demo_geometry :: pyval where
  "demo_geometry = geometry_value ''sim_fixture/box'' ''base_link''
     [PDict [(''type'', PStr ''box''), (''dimensions'', floats [Fin 1, Fin 2, Fin (1/2)])]]
     [[Fin 1, Fin 0, Fin 0, Fin 0, Fin 0, Fin 0, Fin 1]]
     [mesh_value [[Fin 0, Fin 0, Fin 0], [Fin 1, Fin 0, Fin 0], [Fin 0, Fin 1, Fin 0]] [[0, 1, 2]]]
     [[Fin 0, Fin 2, Fin 0, Fin 0, Fin 0, Fin 0, Fin 1]]"

definition demo_message :: object_msg where
  "demo_message = \<lparr>om_id = ''sim_fixture/box'', om_frame = ''base_link'', om_operation = 0,
     om_pose = [Fin 0, Fin 0, Fin 0, Fin 0, Fin 0, Fin 0, Fin 1], om_primitives = [(1, [Fin 1, Fin 2, Fin (1/2)])],
     om_primitive_poses = [[Fin 1, Fin 0, Fin 0, Fin 0, Fin 0, Fin 0, Fin 1]],
     om_meshes = [([[Fin 0, Fin 0, Fin 0], [Fin 1, Fin 0, Fin 0], [Fin 0, Fin 1, Fin 0]], [[0, 1, 2]])],
     om_mesh_poses = [[Fin 0, Fin 2, Fin 0, Fin 0, Fin 0, Fin 0, Fin 1]]\<rparr>"

lemma demo_geometry_of: "spec_geometry demo_builtins Inr (Some demo_resolve) demo_spec = Inr demo_geometry"
  by code_simp

lemma demo_message_of: "spec_to_message demo_builtins demo_resolve demo_spec = Inr demo_message"
  by code_simp

definition demo_identity :: fixture_identity where
  "demo_identity = \<lparr>fi_scenario = ''demo'', fi_revision = ''1'', fi_digest = ''d'', fi_owned = [''sim_fixture/box''],
     fi_source = ''sim_fixture/box'', fi_handoff = TARGET_HANDOFF, fi_descriptor = replicate 64 CHR ''a''\<rparr>"

definition demo_apply :: "collision_spec \<Rightarrow> (string \<Rightarrow> collision_spec option) \<Rightarrow> string \<Rightarrow> collision_spec option" where
  "demo_apply s scene = (if sp_operation s = OBJECT_ADD then scene(sp_id s \<mapsto> s) else scene(sp_id s := None))"

definition demo_scene :: "string \<Rightarrow> collision_spec option" where
  "demo_scene = [''sim_fixture/old'' \<mapsto> demo_spec, ''table'' \<mapsto> demo_spec]"

lemma diff_replaces_fixtures_witness:
  "\<exists>plan. build_atomic_revision_diff [demo_spec] [PStr ''sim_fixture/old'', PStr ''table''] = Inr plan
     \<and> fold demo_apply (dp_operations plan) demo_scene ''sim_fixture/old'' = None
     \<and> fold demo_apply (dp_operations plan) demo_scene ''table'' = Some demo_spec
     \<and> fold demo_apply (dp_operations plan) demo_scene ''sim_fixture/box'' = Some demo_spec"
proof -
  have "is_ok (build_atomic_revision_diff [demo_spec] [PStr ''sim_fixture/old'', PStr ''table''])" by code_simp
  then obtain plan where plan: "build_atomic_revision_diff [demo_spec] [PStr ''sim_fixture/old'', PStr ''table''] = Inr plan"
    by (auto simp: is_ok_iff)
  have "applies demo_apply" by (simp add: applies_def demo_apply_def OBJECT_ADD_def OBJECT_REMOVE_def)
  moreover have "covered [demo_spec] [PStr ''sim_fixture/old'', PStr ''table''] demo_scene"
    by (auto simp: covered_def demo_scene_def split: if_splits)
  ultimately have "fold demo_apply (dp_operations plan) demo_scene = replaced [demo_spec] demo_scene"
    using diff_replaces_fixtures [OF plan] by blast
  moreover have "is_fixture ''sim_fixture/old''" "is_fixture ''sim_fixture/box''" "\<not> is_fixture ''table''"
    by code_simp+
  ultimately show ?thesis using plan by (simp add: replaced_def demo_scene_def demo_spec_def)
qed

lemma confirm_demo:
  "case confirm_fixture_revision demo_builtins (\<lambda>_. []) True [''sim_fixture/box'', ''table'']
         (canonical_fixture_status demo_identity 3 (Fin 1) FIXTURE_STATE_READY) ''1'' ''d'' [''sim_fixture/box'']
         (Some [(''sim_fixture/box'', demo_geometry)]) (Some [demo_geometry]) of Inl e \<Rightarrow> False | Inr c \<Rightarrow> cf_ready c"
  by code_simp

text \<open>A mesh reaching 123.456789, which single precision changes: between 64 and 128 its numbers are the
  multiples of one over two to the seventeenth.\<close>

definition demo_narrow :: "pyfloat \<Rightarrow> pyfloat res" where
  "demo_narrow x = (case x of Fin r \<Rightarrow> Inr (Fin (of_int (round_even (r * 2 ^ 17)) / 2 ^ 17)) | _ \<Rightarrow> Inr x)"

definition demo_far :: "(string \<times> pyval) list \<Rightarrow> mesh res" where
  "demo_far d = Inr ([[Fin 0, Fin 0, Fin 0], [Fin (123456789 / 1000000), Fin 0, Fin 0], [Fin 0, Fin 64, Fin 0]], [[0, 1, 2]])"

lemma demo_narrow_changes: "demo_narrow (Fin (123456789 / 1000000)) \<noteq> Inr (Fin (123456789 / 1000000))"
  by code_simp


end
