(* ===== verification/Fixture_Run.thy ===== *)
theory Fixture_Run
  imports Fixture_Safety
begin

text \<open>
  Runs of the fixture node: it serves readiness only after a confirmed readback, its heartbeats follow its
  phase, and with services that answer it becomes ready.
\<close>

section \<open>Evidence\<close>

text \<open>Ticks until the first exception, which ends the process.\<close>

fun fn_run :: "fixture_config \<Rightarrow> tick_env list \<Rightarrow> fixture_node \<Rightarrow> fixture_node res" where
  "fn_run c [] n = Inr n"
| "fn_run c (en # ens) n = (case fn_tick c en n of (n', Inl e) \<Rightarrow> Inl e | (n', Inr _) \<Rightarrow> fn_run c ens n')"

text \<open>The conditions held at ticks that follow one another in this order.\<close>

fun happened :: "('e \<Rightarrow> bool) list \<Rightarrow> 'e list \<Rightarrow> bool" where
  "happened [] es \<longleftrightarrow> True"
| "happened (p # ps) [] \<longleftrightarrow> False"
| "happened (p # ps) (e # es) \<longleftrightarrow> p e \<and> happened ps es \<or> happened (p # ps) es"

lemma happened_later: "happened ps es \<Longrightarrow> happened ps (es @ [e])"
  by (induction ps es rule: happened.induct) auto

lemma happened_last: "happened ps es \<Longrightarrow> p e \<Longrightarrow> happened (ps @ [p]) (es @ [e])"
proof (induction ps es rule: happened.induct)
  case (1 es)
  then show ?case by (induction es) auto
qed auto

text \<open>What a service answered at a tick.\<close>

definition physics_answered :: "tick_env \<Rightarrow> bool" where
  "physics_answered en \<longleftrightarrow> vw_call (te_physics en) = Finished (Inr (Some True))"

definition applied :: "tick_env \<Rightarrow> bool" where
  "applied en \<longleftrightarrow> vw_call (te_apply en) = Finished (Inr (Some True))"

definition lists :: "fixture_config \<Rightarrow> (string \<times> pyval option) list \<Rightarrow> tick_env \<Rightarrow> bool" where
  "lists c objects en \<longleftrightarrow>
     (\<exists>scene. vw_call (te_get en) = Finished (Inr (Some scene)) \<and> each (extract_object (fc_frame c)) scene = Inr objects)"

definition scene_matches :: "fixture_config \<Rightarrow> (string \<times> pyval option) list \<Rightarrow> tick_env \<Rightarrow> bool" where
  "scene_matches c objects en \<longleftrightarrow>
     scene_agrees (fi_owned (fc_identity c)) (map fst objects) \<and>
     (\<exists>geometry. expected_geometry c en = Inr geometry
        \<and> geometry_agrees (te_builtins en) geometry (List.map_filter snd objects))"

definition planned :: "fixture_config \<Rightarrow> (string \<times> pyval option) list \<Rightarrow> fixture_node \<Rightarrow> bool" where
  "planned c objects n \<longleftrightarrow>
     (\<exists>plan. fn_plan n = Some plan
        \<and> build_atomic_revision_diff (fc_specs c) (map PStr (filter is_fixture (map fst objects))) = Inr plan)"

lemma finish_call_success:
  assumes "sv_succeeded (finish_call extract now outcome s)" "\<not> sv_succeeded s"
  shows "\<exists>response r. outcome = Inr response \<and> extract response = Inr (Some r)
    \<and> sv_result (finish_call extract now outcome s) = Some r"
  using assms by (auto simp: finish_call_def reset_client_def split: sum.splits option.splits)

lemma step_success:
  assumes "step_service request extract now ttl timeout view s = (s', r)" "sv_succeeded s'" "\<not> sv_succeeded s"
  shows "\<exists>response x. vw_call view = Finished (Inr response) \<and> extract response = Inr (Some x) \<and> sv_result s' = Some x"
proof (cases "vw_call view")
  case (Finished outcome)
  with assms show ?thesis
    by (auto simp: step_service_def poll_service_def Let_def split: if_splits sum.splits
        dest!: finish_call_success)
qed (use assms in \<open>auto simp: step_service_def poll_service_def reset_client_def Let_def split: if_splits sum.splits\<close>)

lemma hard_error_keeps:
  "hard_error prefix s = (s', r) \<Longrightarrow> sv_succeeded s' = sv_succeeded s \<and> sv_result s' = sv_result s"
  by (auto simp: hard_error_def split: option.splits if_splits)

text \<open>What each phase knows about the ticks so far.\<close>

definition phase_evidence :: "fixture_config \<Rightarrow> tick_env list \<Rightarrow> fixture_node \<Rightarrow> bool" where
  "phase_evidence c h n =
     (case fn_phase n of
        Physics \<Rightarrow> \<not> sv_succeeded (fn_physics n) \<and> \<not> sv_succeeded (fn_discover n) \<and> \<not> sv_succeeded (fn_apply n)
                   \<and> \<not> sv_succeeded (fn_readback n)
      | Discover \<Rightarrow> happened [physics_answered] h \<and> \<not> sv_succeeded (fn_discover n) \<and> \<not> sv_succeeded (fn_apply n)
                   \<and> \<not> sv_succeeded (fn_readback n)
      | Apply \<Rightarrow> (\<exists>old. happened [physics_answered, lists c old] h \<and> planned c old n)
                   \<and> \<not> sv_succeeded (fn_apply n) \<and> \<not> sv_succeeded (fn_readback n)
      | Readback \<Rightarrow> (\<exists>old. happened [physics_answered, lists c old, applied] h \<and> planned c old n)
                   \<and> \<not> sv_succeeded (fn_readback n)
      | Confirm \<Rightarrow> (\<exists>old objects. happened [physics_answered, lists c old, applied, lists c objects] h \<and> planned c old n
                   \<and> fn_scene_ids n = map fst objects \<and> fn_scene_objects n = List.map_filter snd objects)
      | Ready \<Rightarrow> (\<exists>old objects. happened [physics_answered, lists c old, applied, lists c objects, scene_matches c objects] h
                   \<and> planned c old n)
      | Failed \<Rightarrow> True)"

lemma flag_extract_Some: "flag_extract response = Inr (Some x) \<Longrightarrow> response = Some True"
  by (auto simp: flag_extract_def split: option.splits bool.splits)

lemma get_extract_Some:
  "get_extract frame response = Inr (Some objects) \<Longrightarrow> \<exists>scene. response = Some scene \<and> each (extract_object frame) scene = Inr objects"
  by (auto simp: get_extract_def bind_Inr_iff split: option.splits)

lemma evidence_physics:
  assumes "advance_physics c en n = (n', Inr ())" "fn_phase n = Physics" "phase_evidence c h n"
  shows "phase_evidence c (h @ [en]) n'"
proof (cases "past_start_deadline c (te_now en) n")
  case True
  with assms(1) show ?thesis by (auto simp: advance_physics_def phase_evidence_def fail_node_def)
next
  case False
  obtain s r where step: "step_service (Inr ()) flag_extract (te_now en) SERVICE_TTL_S SERVICE_TIMEOUT_S (te_physics en)
      (fn_physics n) = (s, r)" by (metis surj_pair)
  have ev: "\<not> sv_succeeded (fn_physics n)" "\<not> sv_succeeded (fn_discover n)" "\<not> sv_succeeded (fn_apply n)"
    "\<not> sv_succeeded (fn_readback n)"
    using assms(2,3) by (simp_all add: phase_evidence_def)
  show ?thesis
  proof (cases "sv_succeeded s")
    case True
    then have "physics_answered en"
      using step_success [OF step True ev(1)] by (auto simp: physics_answered_def dest: flag_extract_Some)
    then have "happened [physics_answered] (h @ [en])" using happened_last [of "[]" h] by simp
    with True False assms(1) step ev show ?thesis
      by (auto simp: advance_physics_def phase_evidence_def split: sum.splits)
  next
    case fail: False
    with False assms(1,2) step ev show ?thesis
      by (auto simp: advance_physics_def phase_evidence_def split: sum.splits)
  qed
qed

lemma evidence_failed [simp]: "phase_evidence c h (fail_node reason n)"
  by (simp add: phase_evidence_def fail_node_def)

lemma evidence_discover:
  assumes run: "advance_discover c en n = (n', Inr ())" and "fn_phase n = Discover" "phase_evidence c h n"
  shows "phase_evidence c (h @ [en]) n'"
proof -
  have ev: "happened [physics_answered] h" "\<not> sv_succeeded (fn_discover n)" "\<not> sv_succeeded (fn_apply n)"
    "\<not> sv_succeeded (fn_readback n)"
    using assms(2,3) by (simp_all add: phase_evidence_def)
  obtain s r where hard: "hard_error ''discover existing fixtures'' (fn_discover n) = (s, r)" by (metis surj_pair)
  have s: "\<not> sv_succeeded s" using hard_error_keeps [OF hard] ev(2) by simp
  obtain s1 r1 where step: "step_service (Inr WORLD_OBJECT_COMPONENTS) (get_extract (fc_frame c)) (te_now en) SERVICE_TTL_S
      PLANNING_SCENE_SERVICE_TIMEOUT_S (te_get en) s = (s1, r1)" by (metis surj_pair)
  obtain s2 r2 where hard2: "hard_error ''discover existing fixtures'' s1 = (s2, r2)" by (metis surj_pair)
  show ?thesis
  proof (cases "sv_succeeded s2")
    case True
    then have "sv_succeeded s1" using hard_error_keeps [OF hard2] by simp
    from step_success [OF step this s] obtain response x where
      answer: "vw_call (te_get en) = Finished (Inr response)" "get_extract (fc_frame c) response = Inr (Some x)"
      "sv_result s1 = Some x" by blast
    have listed: "lists c x en" using answer get_extract_Some by (fastforce simp: lists_def)
    have "happened [physics_answered, lists c x] (h @ [en])" using happened_last [OF ev(1), of "lists c x" en] listed by simp
    with run hard step hard2 True ev answer(3) hard_error_keeps [OF hard2] show ?thesis
      by (auto simp: advance_discover_def Let_def phase_evidence_def planned_def fail_node_def
          split: if_splits option.splits sum.splits)
  next
    case False
    with run hard step hard2 ev s assms(2) show ?thesis
      by (auto simp: advance_discover_def phase_evidence_def fail_node_def happened_later
          split: if_splits option.splits sum.splits)
  qed
qed

lemma ensure_plan_keeps:
  "fn_plan n = Some plan \<Longrightarrow> ensure_plan c n = Inr n"
  by (simp add: ensure_plan_def)

lemma evidence_apply:
  assumes run: "advance_apply c en n = (n', Inr ())" and "fn_phase n = Apply" "phase_evidence c h n"
  shows "phase_evidence c (h @ [en]) n'"
proof -
  obtain old where ev: "happened [physics_answered, lists c old] h" "planned c old n" "\<not> sv_succeeded (fn_apply n)"
    "\<not> sv_succeeded (fn_readback n)"
    using assms(2,3) by (auto simp: phase_evidence_def)
  obtain s r where hard: "hard_error ''apply fixture scene'' (fn_apply n) = (s, r)" by (metis surj_pair)
  have s: "\<not> sv_succeeded s" using hard_error_keeps [OF hard] ev(3) by simp
  have plan: "ensure_plan c (n\<lparr>fn_apply := s\<rparr>) = Inr (n\<lparr>fn_apply := s\<rparr>)"
    using ev(2) by (auto simp: planned_def intro: ensure_plan_keeps)
  obtain s1 r1 where step: "step_service (build_apply_request en (n\<lparr>fn_apply := s\<rparr>)) flag_extract
      (te_now en) SERVICE_TTL_S PLANNING_SCENE_SERVICE_TIMEOUT_S (te_apply en) s = (s1, r1)" by (metis surj_pair)
  obtain s2 r2 where hard2: "hard_error ''apply fixture scene'' s1 = (s2, r2)" by (metis surj_pair)
  show ?thesis
  proof (cases "sv_succeeded s2")
    case True
    then have "sv_succeeded s1" using hard_error_keeps [OF hard2] by simp
    then have "applied en"
      using step_success [OF step _ s] by (auto simp: applied_def dest: flag_extract_Some)
    then have "happened [physics_answered, lists c old, applied] (h @ [en])"
      using happened_last [OF ev(1), of applied en] by simp
    with run hard step hard2 True ev plan show ?thesis
      by (auto simp: advance_apply_def phase_evidence_def fail_node_def planned_def
          split: if_splits option.splits sum.splits)
  next
    case False
    have "happened [physics_answered, lists c old] (h @ [en])" by (rule happened_later [OF ev(1)])
    with run hard step hard2 ev s assms(2) False plan show ?thesis
      by (auto simp: advance_apply_def phase_evidence_def fail_node_def planned_def
          split: if_splits option.splits sum.splits)
  qed
qed

lemma evidence_readback:
  assumes run: "advance_readback c en n = (n', Inr ())" and "fn_phase n = Readback" "phase_evidence c h n"
  shows "phase_evidence c (h @ [en]) n'"
proof -
  obtain old where ev: "happened [physics_answered, lists c old, applied] h" "planned c old n"
    "\<not> sv_succeeded (fn_readback n)"
    using assms(2,3) by (auto simp: phase_evidence_def)
  obtain s r where hard: "hard_error ''read back fixture scene'' (fn_readback n) = (s, r)" by (metis surj_pair)
  have s: "\<not> sv_succeeded s" using hard_error_keeps [OF hard] ev(3) by simp
  obtain s1 r1 where step: "step_service (Inr WORLD_OBJECT_COMPONENTS) (get_extract (fc_frame c)) (te_now en) SERVICE_TTL_S
      PLANNING_SCENE_SERVICE_TIMEOUT_S (te_get en) s = (s1, r1)" by (metis surj_pair)
  obtain s2 r2 where hard2: "hard_error ''read back fixture scene'' s1 = (s2, r2)" by (metis surj_pair)
  show ?thesis
  proof (cases "sv_succeeded s2")
    case True
    then have "sv_succeeded s1" using hard_error_keeps [OF hard2] by simp
    from step_success [OF step this s] obtain response x where
      answer: "vw_call (te_get en) = Finished (Inr response)" "get_extract (fc_frame c) response = Inr (Some x)"
      "sv_result s1 = Some x" by blast
    have listed: "lists c x en" using answer get_extract_Some by (fastforce simp: lists_def)
    have "happened [physics_answered, lists c old, applied, lists c x] (h @ [en])"
      using happened_last [OF ev(1), of "lists c x" en] listed by simp
    with run hard step hard2 True ev answer(3) hard_error_keeps [OF hard2] show ?thesis
      by (auto simp: advance_readback_def phase_evidence_def planned_def fail_node_def
          split: if_splits option.splits sum.splits; blast)
  next
    case False
    have "happened [physics_answered, lists c old, applied] (h @ [en])" by (rule happened_later [OF ev(1)])
    with run hard step hard2 ev s assms(2) False show ?thesis
      by (auto simp: advance_readback_def phase_evidence_def fail_node_def planned_def
          split: if_splits option.splits sum.splits)
  qed
qed

lemma confirm_raise_or_ids:
  assumes "confirm_fixture_revision pb digest service_result scene_ids status revision rd owned (Some declared) (Some observed)
    = Inr confirmed"
  shows "\<exists>ids. each (geometry_id pb) observed = Inr ids"
  using assms by (auto simp: confirm_fixture_revision_def compare_geometry_def bind_Inr_iff Let_def)

lemma evidence_confirm:
  assumes run: "advance_confirm c en n = (n', Inr ())" and "fn_phase n = Confirm" "phase_evidence c h n"
  shows "phase_evidence c (h @ [en]) n'"
proof -
  obtain old objects where ev: "happened [physics_answered, lists c old, applied, lists c objects] h" "planned c old n"
    "fn_scene_ids n = map fst objects" "fn_scene_objects n = List.map_filter snd objects"
    using assms(2,3) by (auto simp: phase_evidence_def)
  let ?f = "fc_identity c"
  obtain geometry confirmed where geometry: "expected_geometry c en = Inr geometry"
    and confirm: "confirm_fixture_revision (te_builtins en) (te_digest en) True (fn_scene_ids n)
      (fn_status c en FIXTURE_STATE_READY n) (fi_revision ?f) (fi_digest ?f) (fi_owned ?f) (Some geometry)
      (Some (fn_scene_objects n)) = Inr confirmed"
    and n': "n' = (if \<not> cf_ready confirmed
        then fail_node (''fixture readback/status confirmation failed: '' @ join_with ''; '' (cf_reasons confirmed)) n
        else n\<lparr>fn_phase := Ready, fn_state := FIXTURE_STATE_READY\<rparr>)"
    using run by (auto simp: advance_confirm_def bind_Inr_iff split: sum.splits)
  show ?thesis
  proof (cases "cf_ready confirmed")
    case True
    obtain ids where "each (geometry_id (te_builtins en)) (fn_scene_objects n) = Inr ids"
      using confirm_raise_or_ids [OF confirm] by blast
    from confirm_ready [OF this, of "te_digest en" True "fn_scene_ids n" ?f "fn_sequence n" "te_clock en" geometry]
    have "scene_matches c objects en"
      using confirm True ev(3,4) geometry by (auto simp: fn_status_def scene_matches_def)
    then have "happened [physics_answered, lists c old, applied, lists c objects, scene_matches c objects] (h @ [en])"
      using happened_last [OF ev(1), of "scene_matches c objects" en] by simp
    with True ev n' show ?thesis by (auto simp: phase_evidence_def planned_def)
  qed (simp add: n')
qed

lemma node_evidence_step:
  assumes "fn_tick c en n = (n', Inr status)" "phase_evidence c h n"
  shows "phase_evidence c (h @ [en]) n'"
proof -
  obtain n1 where n1: "advance c en n = (n1, Inr ())" and n': "n' = fst (publish_heartbeat c en n1)"
    using assms(1) by (auto simp: fn_tick_def split: prod.splits sum.splits)
  have beat: "phase_evidence c g (fst (publish_heartbeat c en m)) = phase_evidence c g m" for g m
    by (cases "fn_phase m") (simp_all add: publish_heartbeat_def phase_evidence_def planned_def Let_def)
  have "phase_evidence c (h @ [en]) n1"
  proof (cases "fn_phase n")
    case Ready
    with n1 assms(2) show ?thesis by (auto simp: advance_def phase_evidence_def intro: happened_later)
  next
    case Failed
    with n1 show ?thesis by (simp add: advance_def phase_evidence_def)
  qed (use n1 assms(2) in \<open>simp_all add: advance_def evidence_physics evidence_discover evidence_apply evidence_readback
        evidence_confirm\<close>)
  then show ?thesis by (simp add: n' beat)
qed

lemma node_evidence_run:
  assumes "fn_run c ens n = Inr n'" "phase_evidence c h n"
  shows "phase_evidence c (h @ ens) n'"
  using assms
proof (induction ens arbitrary: n h)
  case (Cons en ens)
  then obtain n1 status where tick: "fn_tick c en n = (n1, Inr status)" and rest: "fn_run c ens n1 = Inr n'"
    by (auto split: prod.splits sum.splits)
  from Cons.IH [OF rest node_evidence_step [OF tick Cons.prems(2)]] show ?case by simp
qed simp

text \<open>C24: Whenever the node reports readiness, these things happened at ticks in this order: the physics gate answered
  ready; the scene was listed; the diff built from that listing was accepted by the apply service; the scene was listed
  again; and that listing matched the declaration in its ids and its geometry.
\<close>

theorem ready_needs_confirmed_readback:
  assumes "fn_run c ens (initial_node start) = Inr n" and "fst (on_ready c en n)"
  shows "\<exists>old objects. happened [physics_answered, lists c old, applied, lists c objects, scene_matches c objects] ens
                     \<and> planned c old n"
proof -
  have "phase_evidence c [] (initial_node start)"
    by (simp add: phase_evidence_def initial_node_def new_service_def)
  from node_evidence_run [OF assms(1) this] have "phase_evidence c ens n" by simp
  then show ?thesis using assms(2) by (simp add: on_ready_def phase_evidence_def)
qed

section \<open>Heartbeats\<close>

lemma advance_keeps_sequence:
  "advance c en n = (n', r) \<Longrightarrow> fn_sequence n' = fn_sequence n"
  by (auto simp: advance_def advance_physics_def advance_discover_def advance_apply_def advance_readback_def
      advance_confirm_def ensure_plan_def fail_node_def bind_Inr_iff Let_def
      split: fixture_phase.splits if_splits option.splits sum.splits prod.splits bool.splits)

text \<open>The published state is the one of the phase.\<close>

definition state_of :: "fixture_phase \<Rightarrow> string" where
  "state_of p = (case p of Ready \<Rightarrow> FIXTURE_STATE_READY | Failed \<Rightarrow> FIXTURE_STATE_FAILED | _ \<Rightarrow> FIXTURE_STATE_PENDING)"

lemma advance_state:
  "advance c en n = (n', r) \<Longrightarrow> fn_state n = state_of (fn_phase n) \<Longrightarrow> fn_state n' = state_of (fn_phase n')"
  by (auto simp: advance_def advance_physics_def advance_discover_def advance_apply_def advance_readback_def
      advance_confirm_def ensure_plan_def fail_node_def bind_Inr_iff state_of_def Let_def
      split: fixture_phase.splits if_splits option.splits sum.splits prod.splits bool.splits)

text \<open>The statuses published by a run, in order; a raising tick publishes none and is the last.\<close>

fun published :: "fixture_config \<Rightarrow> tick_env list \<Rightarrow> fixture_node \<Rightarrow> (fixture_phase \<times> pyval) list" where
  "published c [] n = []"
| "published c (en # ens) n =
     (case fn_tick c en n of (n', Inl e) \<Rightarrow> [] | (n', Inr status) \<Rightarrow> (fn_phase n', status) # published c ens n')"

lemma advance_final:
  "advance c en n = (n', r) \<Longrightarrow> fn_phase n \<in> {Ready, Failed} \<Longrightarrow> n' = n"
  by (auto simp: advance_def)

lemma tick_publishes:
  assumes "fn_tick c en n = (n', Inr status)" "fn_state n = state_of (fn_phase n)"
  shows "status = canonical_fixture_status (fc_identity c) (fn_sequence n + 1) (te_clock en) (state_of (fn_phase n'))
    \<and> fn_sequence n' = fn_sequence n + 1 \<and> fn_state n' = state_of (fn_phase n')
    \<and> (fn_phase n \<in> {Ready, Failed} \<longrightarrow> fn_phase n' = fn_phase n)"
proof -
  obtain n1 r where n1: "advance c en n = (n1, Inr r)" and n': "publish_heartbeat c en n1 = (n', status)"
    using assms(1) by (auto simp: fn_tick_def split: prod.splits sum.splits)
  show ?thesis
    using n' advance_keeps_sequence [OF n1] advance_state [OF n1 assms(2)] advance_final [OF n1]
    by (auto simp: publish_heartbeat_def fn_status_def Let_def)
qed

lemma published_from:
  assumes "fn_state n = state_of (fn_phase n)" "k < length (published c ens n)"
  shows "snd (published c ens n ! k) = canonical_fixture_status (fc_identity c) (fn_sequence n + 1 + int k)
           (te_clock (ens ! k)) (state_of (fst (published c ens n ! k)))
    \<and> (fn_phase n \<in> {Ready, Failed} \<longrightarrow> fst (published c ens n ! k) = fn_phase n)"
  using assms
proof (induction ens arbitrary: n k)
  case (Cons en ens)
  then obtain n1 status where tick: "fn_tick c en n = (n1, Inr status)" by (auto split: prod.splits sum.splits)
  note tp = tick_publishes [OF tick Cons.prems(1)]
  show ?case
  proof (cases k)
    case 0
    then show ?thesis using tick tp by simp
  next
    case (Suc j)
    then have "j < length (published c ens n1)" using Cons.prems(2) tick by simp
    from Cons.IH [OF _ this] tp tick Suc show ?thesis by (auto simp: algebra_simps)
  qed
qed simp

lemma published_drop:
  "fn_state n = state_of (fn_phase n) \<Longrightarrow> k < length (published c ens n) \<Longrightarrow> fst (published c ens n ! k) \<in> {Ready, Failed}
   \<Longrightarrow> k \<le> j \<Longrightarrow> j < length (published c ens n) \<Longrightarrow> fst (published c ens n ! j) = fst (published c ens n ! k)"
proof (induction ens arbitrary: n j k)
  case (Cons en ens)
  then obtain n1 status where tick: "fn_tick c en n = (n1, Inr status)" by (auto split: prod.splits sum.splits)
  note tp = tick_publishes [OF tick Cons.prems(1)]
  show ?case
  proof (cases k)
    case 0
    then have "fn_phase n1 \<in> {Ready, Failed}" using Cons.prems(3) tick by simp
    with 0 tick tp Cons.prems(5) show ?thesis
      using published_from [of n1 "j - 1" c ens] by (cases j) auto
  next
    case (Suc i)
    then obtain l where j: "j = Suc l" "i \<le> l" using Cons.prems(4) by (cases j) auto
    have "fst (published c ens n1 ! l) = fst (published c ens n1 ! i)"
      using Cons.prems(2,3,5) Suc j tick tp by (intro Cons.IH) auto
    then show ?thesis by (simp add: Suc j tick)
  qed
qed simp

text \<open>Every status a run publishes is the canonical one of its phase, and the k-th one has sequence number k: the ready state
  is published exactly in the ready phase, and once a run is ready or failed all later statuses say the same.
\<close>

theorem heartbeats_follow_phase:
  assumes "k < length (published c ens (initial_node start))"
  shows "let (phase, status) = published c ens (initial_node start) ! k in
           status = canonical_fixture_status (fc_identity c) (int k + 1) (te_clock (ens ! k)) (state_of phase)
           \<and> (phase \<in> {Ready, Failed} \<longrightarrow>
                list_all (\<lambda>(later, _). later = phase) (drop k (published c ens (initial_node start))))"
proof -
  let ?n = "initial_node start" and ?ps = "published c ens (initial_node start)"
  have state: "fn_state ?n = state_of (fn_phase ?n)" and zero: "fn_sequence ?n = 0"
    by (simp_all add: initial_node_def state_of_def)
  obtain phase status where k: "?ps ! k = (phase, status)" by (metis surj_pair)
  have "list_all (\<lambda>(later, _). later = phase) (drop k ?ps)" if "phase \<in> {Ready, Failed}"
    using published_drop [OF state assms] that k by (auto simp: list_all_length split_beta)
  with published_from [OF state assms] k zero show ?thesis by (auto simp: algebra_simps)
qed

section \<open>Progress\<close>

definition idle :: "'a service \<Rightarrow> bool" where
  "idle s \<longleftrightarrow> \<not> sv_succeeded s \<and> sv_error s = None \<and> \<not> sv_future s"

definition asked :: "'a service \<Rightarrow> bool" where
  "asked s \<longleftrightarrow> \<not> sv_succeeded s \<and> sv_error s = None \<and> sv_future s \<and> sv_client s"

definition answered :: "'a service \<Rightarrow> 'a \<Rightarrow> bool" where
  "answered s x \<longleftrightarrow> sv_succeeded s \<and> sv_error s = None \<and> sv_result s = Some x"

lemma step_asks:
  "idle s \<Longrightarrow> vw_ready view \<Longrightarrow>
   \<exists>s'. step_service (Inr q) extract now ttl timeout view s = (s', Inr (Some q)) \<and> asked s'"
  by (auto simp: idle_def asked_def step_service_def poll_service_def Let_def)

lemma step_answers:
  "asked s \<Longrightarrow> vw_call view = Finished (Inr response) \<Longrightarrow> extract response = Inr (Some x) \<Longrightarrow>
   \<exists>s'. step_service request extract now ttl timeout view s = (s', Inr None) \<and> answered s' x"
  by (auto simp: asked_def answered_def step_service_def poll_service_def finish_call_def Let_def)

lemma no_hard_error: "sv_error s = None \<Longrightarrow> hard_error prefix s = (s, None)"
  by (simp add: hard_error_def)

text \<open>A tick at which everything asked for is answered, and which is not late.\<close>

definition attentive :: "fixture_config \<Rightarrow> pyfloat \<Rightarrow> tick_env \<Rightarrow> bool" where
  "attentive c start en \<longleftrightarrow>
     vw_ready (te_physics en) \<and> vw_ready (te_get en) \<and> vw_ready (te_apply en)
     \<and> physics_answered en \<and> applied en \<and> (\<exists>objects. lists c objects en)
     \<and> is_ok (each (spec_to_message (te_builtins en) (te_resolve en)) (fc_specs c))
     \<and> (\<exists>s t d. start = Fin s \<and> te_now en = Fin t \<and> fc_deadline c = Fin d \<and> s \<le> t \<and> t \<le> s + d)"

definition on_time :: "pyfloat \<Rightarrow> fixture_node \<Rightarrow> bool" where
  "on_time start n \<longleftrightarrow> (\<exists>s p. start = Fin s \<and> fn_phase_started_at n = Fin p \<and> s \<le> p)"

definition pristine :: "fixture_phase \<Rightarrow> fixture_node \<Rightarrow> bool" where
  "pristine p n \<longleftrightarrow> (p = Physics \<longrightarrow> idle (fn_discover n)) \<and> (p \<in> {Physics, Discover} \<longrightarrow> idle (fn_apply n))
     \<and> (p \<in> {Physics, Discover, Apply} \<longrightarrow> idle (fn_readback n))"

definition has_plan :: "fixture_config \<Rightarrow> fixture_node \<Rightarrow> bool" where
  "has_plan c n \<longleftrightarrow> (\<exists>existing plan. fn_plan n = Some plan \<and> build_atomic_revision_diff (fc_specs c) existing = Inr plan)"

definition at_phase :: "fixture_config \<Rightarrow> pyfloat \<Rightarrow> fixture_phase \<Rightarrow> fixture_node \<Rightarrow> bool" where
  "at_phase c start p n \<longleftrightarrow> fn_phase n = p \<and> on_time start n \<and> pristine p n \<and> (p = Apply \<longrightarrow> has_plan c n)
     \<and> fn_state n = FIXTURE_STATE_PENDING"

lemma in_time:
  "attentive c start en \<Longrightarrow> on_time start n \<Longrightarrow> \<not> past_start_deadline c (te_now en) n"
  by (auto simp: attentive_def on_time_def past_start_deadline_def)

lemma tick_of_advance:
  "advance c en n = (n1, Inr ()) \<Longrightarrow> \<exists>status. fn_tick c en n = (fst (publish_heartbeat c en n1), Inr status)"
  by (simp add: fn_tick_def split: prod.split)

lemma in_time': "attentive c start en \<Longrightarrow> at_phase c start p n \<Longrightarrow> \<not> past_start_deadline c (te_now en) n"
  unfolding at_phase_def by (blast dest: in_time)

lemma flag_extract_True: "flag_extract (Some True) = Inr (Some True)"
  by (simp add: flag_extract_def)

lemma on_time_now: "attentive c start en \<Longrightarrow> fn_phase_started_at n = te_now en \<Longrightarrow> on_time start n"
  by (auto simp: attentive_def on_time_def)

lemmas phase_facts = at_phase_def on_time_def pristine_def has_plan_def

lemma physics_asks:
  assumes "attentive c start en" "at_phase c start Physics n" "idle (fn_physics n)"
  shows "\<exists>n1. advance c en n = (n1, Inr ()) \<and> at_phase c start Physics n1 \<and> asked (fn_physics n1)"
proof -
  have "vw_ready (te_physics en)" using assms(1) by (simp add: attentive_def)
  from step_asks [OF assms(3) this, of "()"] obtain s where
    "step_service (Inr ()) flag_extract (te_now en) SERVICE_TTL_S SERVICE_TIMEOUT_S (te_physics en) (fn_physics n) = (s, Inr (Some ()))"
    "asked s" by blast
  with assms in_time show ?thesis by (auto simp: advance_def advance_physics_def phase_facts asked_def)
qed

lemma physics_answers:
  assumes "attentive c start en" "at_phase c start Physics n" "asked (fn_physics n)"
  shows "\<exists>n1. advance c en n = (n1, Inr ()) \<and> at_phase c start Discover n1 \<and> idle (fn_discover n1)"
proof -
  have "vw_call (te_physics en) = Finished (Inr (Some True))" using assms(1) by (simp add: attentive_def physics_answered_def)
  from step_answers [of _ _ _ flag_extract, OF assms(3) this flag_extract_True] obtain s where
    "step_service (Inr ()) flag_extract (te_now en) SERVICE_TTL_S SERVICE_TIMEOUT_S (te_physics en) (fn_physics n) = (s, Inr None)"
    "answered s True" by blast
  then show ?thesis
    using assms(2) in_time' [OF assms(1,2)] on_time_now [OF assms(1)]
    by (simp add: advance_def advance_physics_def at_phase_def pristine_def answered_def)
qed

lemma discover_asks:
  assumes "attentive c start en" "at_phase c start Discover n" "idle (fn_discover n)"
  shows "\<exists>n1. advance c en n = (n1, Inr ()) \<and> at_phase c start Discover n1 \<and> asked (fn_discover n1)"
proof -
  have "vw_ready (te_get en)" using assms(1) by (simp add: attentive_def)
  from step_asks [OF assms(3) this, of WORLD_OBJECT_COMPONENTS] obtain s where
    "step_service (Inr WORLD_OBJECT_COMPONENTS) (get_extract (fc_frame c)) (te_now en) SERVICE_TTL_S PLANNING_SCENE_SERVICE_TIMEOUT_S (te_get en)
      (fn_discover n) = (s, Inr (Some WORLD_OBJECT_COMPONENTS))" "asked s" by blast
  moreover have "sv_error (fn_discover n) = None" using assms(3) by (simp add: idle_def)
  ultimately show ?thesis using assms(2) in_time [OF assms(1)]
    by (auto simp: advance_def advance_discover_def phase_facts asked_def no_hard_error)
qed

lemma diff_builds:
  assumes "list_all (\<lambda>s. is_fixture (sp_id s) \<and> sp_operation s = OBJECT_ADD) specs" "distinct (map sp_id specs)"
  shows "\<exists>plan. build_atomic_revision_diff specs (map PStr ids) = Inr plan"
proof -
  have "check_desired specs = Inr ()" using assms(1) by (simp add: check_desired_iff)
  moreover obtain stale where "stale_ids (map sp_id specs) (map PStr ids) [] = Inr stale"
    using stale_ids_strings by (metis sumE)
  ultimately show ?thesis using assms(2) by (simp add: build_atomic_revision_diff_def Let_def)
qed

lemma get_answers:
  assumes "lists c objects en" "asked s"
  shows "\<exists>s'. step_service request (get_extract (fc_frame c)) now ttl timeout (te_get en) s = (s', Inr None)
    \<and> answered s' objects"
proof -
  obtain scene where call: "vw_call (te_get en) = Finished (Inr (Some scene))"
    and objects: "each (extract_object (fc_frame c)) scene = Inr objects"
    using assms(1) by (auto simp: lists_def)
  have "get_extract (fc_frame c) (Some scene) = Inr (Some objects)" using objects by (simp add: get_extract_def)
  from step_answers [of _ _ _ "get_extract (fc_frame c)", OF assms(2) call this] show ?thesis .
qed

lemma discover_answers:
  assumes "attentive c start en" "at_phase c start Discover n" "asked (fn_discover n)"
    and "list_all (\<lambda>s. is_fixture (sp_id s) \<and> sp_operation s = OBJECT_ADD) (fc_specs c)" "distinct (map sp_id (fc_specs c))"
  shows "\<exists>n1. advance c en n = (n1, Inr ()) \<and> at_phase c start Apply n1 \<and> idle (fn_apply n1)"
proof -
  obtain objects where "lists c objects en" using assms(1) by (auto simp: attentive_def)
  from get_answers [OF this assms(3)] obtain s where
    "step_service (Inr WORLD_OBJECT_COMPONENTS) (get_extract (fc_frame c)) (te_now en) SERVICE_TTL_S PLANNING_SCENE_SERVICE_TIMEOUT_S (te_get en)
      (fn_discover n) = (s, Inr None)" "answered s objects" by blast
  moreover obtain plan where "build_atomic_revision_diff (fc_specs c) (map PStr (filter is_fixture (map fst objects))) = Inr plan"
    using diff_builds [OF assms(4,5)] by blast
  moreover have "sv_error (fn_discover n) = None" using assms(3) by (simp add: asked_def)
  ultimately show ?thesis
    using assms(2) in_time' [OF assms(1,2)] on_time_now [OF assms(1)]
    by (simp add: advance_def advance_discover_def at_phase_def pristine_def has_plan_def answered_def no_hard_error Let_def)
       blast
qed

lemma removes_build: "\<exists>ms. each (spec_to_message pb resolve) (map (\<lambda>i. remove_spec i frame) ids) = Inr ms"
  by (induction ids) (auto simp: spec_to_message_def remove_spec_def)

lemma each_append: "each f (xs @ ys) = bind (each f xs) (\<lambda>us. bind (each f ys) (\<lambda>vs. Inr (us @ vs)))"
  by (induction xs) (auto simp: bind_def split: sum.split)

lemma request_builds:
  assumes "has_plan c n" "is_ok (each (spec_to_message (te_builtins en) (te_resolve en)) (fc_specs c))"
  shows "\<exists>ms. build_apply_request en n = Inr ms"
proof -
  obtain existing plan where plan: "fn_plan n = Some plan" "build_atomic_revision_diff (fc_specs c) existing = Inr plan"
    using assms(1) by (auto simp: has_plan_def)
  obtain stale frame where "dp_operations plan = fc_specs c @ map (\<lambda>i. remove_spec i frame) stale"
    using diff_parts(3) [OF plan(2)] by blast
  then show ?thesis using plan(1) assms(2) removes_build [of "te_builtins en" "te_resolve en" frame stale]
    by (auto simp: build_apply_request_def each_append is_ok_iff)
qed

lemma apply_asks:
  assumes "attentive c start en" "at_phase c start Apply n" "idle (fn_apply n)"
  shows "\<exists>n1. advance c en n = (n1, Inr ()) \<and> at_phase c start Apply n1 \<and> asked (fn_apply n1)"
proof -
  have "vw_ready (te_apply en)" using assms(1) by (simp add: attentive_def)
  have plan: "has_plan c n" using assms(2) by (simp add: at_phase_def)
  obtain ms where ms: "build_apply_request en n = Inr ms"
    using request_builds [OF plan] assms(1) by (auto simp: attentive_def)
  from step_asks [OF assms(3) \<open>vw_ready (te_apply en)\<close>, of ms] obtain s where
    "step_service (build_apply_request en n) flag_extract (te_now en) SERVICE_TTL_S PLANNING_SCENE_SERVICE_TIMEOUT_S (te_apply en)
      (fn_apply n) = (s, Inr (Some ms))" "asked s" unfolding ms by blast
  moreover have "ensure_plan c n = Inr n" using plan by (auto simp: has_plan_def intro: ensure_plan_keeps)
  moreover have "sv_error (fn_apply n) = None" using assms(3) by (simp add: idle_def)
  ultimately show ?thesis using plan assms(2) in_time' [OF assms(1,2)]
    by (simp add: advance_def advance_apply_def at_phase_def on_time_def pristine_def has_plan_def asked_def no_hard_error)
qed

lemma apply_answers:
  assumes "attentive c start en" "at_phase c start Apply n" "asked (fn_apply n)"
  shows "\<exists>n1. advance c en n = (n1, Inr ()) \<and> at_phase c start Readback n1 \<and> idle (fn_readback n1)"
proof -
  have "vw_call (te_apply en) = Finished (Inr (Some True))" using assms(1) by (simp add: attentive_def applied_def)
  from step_answers [of _ _ _ flag_extract, OF assms(3) this flag_extract_True] obtain s where
    "step_service (build_apply_request en n) flag_extract (te_now en) SERVICE_TTL_S
       PLANNING_SCENE_SERVICE_TIMEOUT_S (te_apply en) (fn_apply n) = (s, Inr None)" "answered s True" by blast
  moreover have "ensure_plan c n = Inr n" using assms(2) by (auto simp: at_phase_def has_plan_def intro: ensure_plan_keeps)
  moreover have "sv_error (fn_apply n) = None" using assms(3) by (simp add: asked_def)
  ultimately show ?thesis using assms(2) in_time' [OF assms(1,2)] on_time_now [OF assms(1)]
    by (simp add: advance_def advance_apply_def at_phase_def pristine_def answered_def no_hard_error)
qed

lemma readback_asks:
  assumes "attentive c start en" "at_phase c start Readback n" "idle (fn_readback n)"
  shows "\<exists>n1. advance c en n = (n1, Inr ()) \<and> at_phase c start Readback n1 \<and> asked (fn_readback n1)"
proof -
  have "vw_ready (te_get en)" using assms(1) by (simp add: attentive_def)
  from step_asks [OF assms(3) this, of WORLD_OBJECT_COMPONENTS] obtain s where
    "step_service (Inr WORLD_OBJECT_COMPONENTS) (get_extract (fc_frame c)) (te_now en) SERVICE_TTL_S PLANNING_SCENE_SERVICE_TIMEOUT_S (te_get en)
      (fn_readback n) = (s, Inr (Some WORLD_OBJECT_COMPONENTS))" "asked s" by blast
  moreover have "sv_error (fn_readback n) = None" using assms(3) by (simp add: idle_def)
  ultimately show ?thesis using assms(2) in_time' [OF assms(1,2)]
    by (simp add: advance_def advance_readback_def phase_facts asked_def no_hard_error)
qed

lemma readback_answers:
  assumes "attentive c start en" "at_phase c start Readback n" "asked (fn_readback n)" "lists c objects en"
  shows "\<exists>n1. advance c en n = (n1, Inr ()) \<and> fn_phase n1 = Confirm \<and> fn_scene_ids n1 = map fst objects
    \<and> fn_scene_objects n1 = List.map_filter snd objects"
proof -
  from get_answers [OF assms(4,3)] obtain s where
    "step_service (Inr WORLD_OBJECT_COMPONENTS) (get_extract (fc_frame c)) (te_now en) SERVICE_TTL_S PLANNING_SCENE_SERVICE_TIMEOUT_S (te_get en)
      (fn_readback n) = (s, Inr None)" "answered s objects" by blast
  moreover have "sv_error (fn_readback n) = None" using assms(3) by (simp add: asked_def)
  ultimately show ?thesis using assms(2) in_time' [OF assms(1,2)]
    by (simp add: advance_def advance_readback_def at_phase_def answered_def no_hard_error)
qed

lemma confirm_passes:
  assumes "fn_phase n = Confirm" "fn_scene_ids n = map fst objects" "fn_scene_objects n = List.map_filter snd objects"
    and "scene_matches c objects en" "identity_agrees (fc_identity c) (fn_sequence n) (te_clock en)"
  shows "\<exists>n1. advance c en n = (n1, Inr ()) \<and> fn_phase n1 = Ready \<and> fn_state n1 = FIXTURE_STATE_READY"
proof -
  let ?f = "fc_identity c"
  obtain geometry ids where "expected_geometry c en = Inr geometry"
    and ids: "each (geometry_id (te_builtins en)) (fn_scene_objects n) = Inr ids"
    using assms(3,4) by (auto simp: scene_matches_def geometry_agrees_def)
  moreover from confirm_ready [OF ids, of "te_digest en" True "fn_scene_ids n" ?f "fn_sequence n" "te_clock en" geometry]
  obtain confirmed where "confirm_fixture_revision (te_builtins en) (te_digest en) True (fn_scene_ids n)
      (fn_status c en FIXTURE_STATE_READY n) (fi_revision ?f) (fi_digest ?f) (fi_owned ?f) (Some geometry)
      (Some (fn_scene_objects n)) = Inr confirmed" "cf_ready confirmed"
    using assms \<open>expected_geometry c en = Inr geometry\<close> by (auto simp: fn_status_def scene_matches_def)
  ultimately show ?thesis using assms(1) by (simp add: advance_def advance_confirm_def)
qed

text \<open>A tick after a good advance only adds the heartbeat.\<close>

definition beat :: "fixture_config \<Rightarrow> tick_env \<Rightarrow> fixture_node \<Rightarrow> fixture_node" where
  "beat c en n = fst (publish_heartbeat c en n)"

lemma beat_keeps [simp]:
  "at_phase c start p (beat d en n) = at_phase c start p n"
  "fn_phase (beat d en n) = fn_phase n" "fn_state (beat d en n) = fn_state n"
  "fn_physics (beat d en n) = fn_physics n" "fn_discover (beat d en n) = fn_discover n"
  "fn_apply (beat d en n) = fn_apply n" "fn_readback (beat d en n) = fn_readback n"
  "fn_scene_ids (beat d en n) = fn_scene_ids n" "fn_scene_objects (beat d en n) = fn_scene_objects n"
  "fn_sequence (beat d en n) = fn_sequence n + 1"
  by (simp_all add: beat_def publish_heartbeat_def Let_def at_phase_def on_time_def pristine_def has_plan_def)

lemma run_advance:
  "advance c en n = (n1, Inr ()) \<Longrightarrow> fn_run c (en # ens) n = fn_run c ens (beat c en n1)"
  by (simp add: fn_tick_def beat_def split: prod.split)

text \<open>One phase of two ticks.\<close>

lemma run_two:
  assumes "\<exists>n1. advance c en1 n = (n1, Inr ()) \<and> P n1" and "\<And>m. P m \<Longrightarrow> P (beat c en1 m)"
    and "\<And>m. P m \<Longrightarrow> \<exists>n2. advance c en2 m = (n2, Inr ()) \<and> Q n2" and "\<And>m. Q m \<Longrightarrow> Q (beat c en2 m)"
  shows "\<exists>n2. fn_run c (en1 # en2 # ens) n = fn_run c ens n2 \<and> Q n2 \<and> fn_sequence n2 = fn_sequence n + 2"
proof -
  obtain n1 where n1: "advance c en1 n = (n1, Inr ())" "P n1" using assms(1) by blast
  obtain n2 where n2: "advance c en2 (beat c en1 n1) = (n2, Inr ())" "Q n2" using assms(2,3) n1(2) by blast
  have "fn_sequence n1 = fn_sequence n" "fn_sequence n2 = fn_sequence (beat c en1 n1)"
    using advance_keeps_sequence n1(1) n2(1) by blast+
  then have "fn_sequence (beat c en2 n2) = fn_sequence n + 2" by simp
  moreover have "fn_run c (en1 # en2 # ens) n = fn_run c ens (beat c en2 n2)"
    by (simp only: run_advance [OF n1(1)] run_advance [OF n2(1)])
  ultimately show ?thesis using assms(4) n2(2) by blast
qed

definition specs_valid :: "fixture_config \<Rightarrow> bool" where
  "specs_valid c \<longleftrightarrow> list_all (\<lambda>s. is_fixture (sp_id s) \<and> sp_operation s = OBJECT_ADD) (fc_specs c)
     \<and> distinct (map sp_id (fc_specs c))"

text \<open>C25: Nine ticks make the node ready, when all of this holds: the declaration is valid (fixtures to add, with distinct
  ids); at the first eight ticks the services are up, whatever was asked is answered positively, every declared object
  can be turned into a message, and no deadline has passed; the listing the eighth tick brings is the scene the ninth
  is confirmed with, and it shows exactly the declared fixtures with the declared geometry; and the identity of the scenario is well formed (its source owned, the declared
  hand-over, a descriptor digest). It says nothing of a listing that differs.
\<close>

theorem attentive_services_make_ready:
  assumes "specs_valid c" and "list_all (attentive c start) [e1, e2, e3, e4, e5, e6, e7, e8]"
    and "lists c objects e8" and "scene_matches c objects e9" and "identity_agrees (fc_identity c) 1 (te_clock e9)"
  shows "\<exists>n. fn_run c [e1, e2, e3, e4, e5, e6, e7, e8, e9] (initial_node start) = Inr n \<and> fst (on_ready c en n)"
proof -
  let ?n0 = "initial_node start"
  have a: "attentive c start e1" "attentive c start e2" "attentive c start e3" "attentive c start e4"
    "attentive c start e5" "attentive c start e6" "attentive c start e7" "attentive c start e8" using assms(2) by simp_all
  have n0: "at_phase c start Physics ?n0" "idle (fn_physics ?n0)"
    using a(1) by (auto simp: phase_facts initial_node_def new_service_def idle_def attentive_def)
  have two: "specs_valid c \<Longrightarrow> attentive c start en \<Longrightarrow> at_phase c start Discover m \<Longrightarrow> asked (fn_discover m) \<Longrightarrow>
      \<exists>n1. advance c en m = (n1, Inr ()) \<and> at_phase c start Apply n1 \<and> idle (fn_apply n1)" for en m
    unfolding specs_valid_def by (rule discover_answers) auto
  obtain n2 where n2: "fn_run c [e1, e2, e3, e4, e5, e6, e7, e8, e9] ?n0 = fn_run c [e3, e4, e5, e6, e7, e8, e9] n2"
      "at_phase c start Discover n2 \<and> idle (fn_discover n2)" "fn_sequence n2 = 2"
    using run_two [of c e1 ?n0 "\<lambda>n. at_phase c start Physics n \<and> asked (fn_physics n)" e2
        "\<lambda>n. at_phase c start Discover n \<and> idle (fn_discover n)" "[e3, e4, e5, e6, e7, e8, e9]"]
      physics_asks [OF a(1) n0] physics_answers [OF a(2)] by (auto simp: initial_node_def)
  obtain n4 where n4: "fn_run c [e3, e4, e5, e6, e7, e8, e9] n2 = fn_run c [e5, e6, e7, e8, e9] n4"
      "at_phase c start Apply n4 \<and> idle (fn_apply n4)" "fn_sequence n4 = 4"
    using run_two [of c e3 n2 "\<lambda>n. at_phase c start Discover n \<and> asked (fn_discover n)" e4
        "\<lambda>n. at_phase c start Apply n \<and> idle (fn_apply n)" "[e5, e6, e7, e8, e9]"]
      discover_asks [OF a(3)] two [OF assms(1) a(4)] n2(2,3) by auto
  obtain n6 where n6: "fn_run c [e5, e6, e7, e8, e9] n4 = fn_run c [e7, e8, e9] n6"
      "at_phase c start Readback n6 \<and> idle (fn_readback n6)" "fn_sequence n6 = 6"
    using run_two [of c e5 n4 "\<lambda>n. at_phase c start Apply n \<and> asked (fn_apply n)" e6
        "\<lambda>n. at_phase c start Readback n \<and> idle (fn_readback n)" "[e7, e8, e9]"]
      apply_asks [OF a(5)] apply_answers [OF a(6)] n4(2,3) by auto
  obtain n8 where n8: "fn_run c [e7, e8, e9] n6 = fn_run c [e9] n8"
      "fn_phase n8 = Confirm \<and> fn_scene_ids n8 = map fst objects \<and> fn_scene_objects n8 = List.map_filter snd objects"
      "fn_sequence n8 = 8"
    using run_two [of c e7 n6 "\<lambda>n. at_phase c start Readback n \<and> asked (fn_readback n)" e8
        "\<lambda>n. fn_phase n = Confirm \<and> fn_scene_ids n = map fst objects \<and> fn_scene_objects n = List.map_filter snd objects" "[e9]"]
      readback_asks [OF a(7)] readback_answers [OF a(8) _ _ assms(3)] n6(2,3) by auto
  have "identity_agrees (fc_identity c) (fn_sequence n8) (te_clock e9)"
    using assms(5) n8(3) by (simp add: identity_agrees_def)
  then obtain n9 where "advance c e9 n8 = (n9, Inr ())" "fn_phase n9 = Ready \<and> fn_state n9 = FIXTURE_STATE_READY"
    using confirm_passes [of n8 objects c e9] n8(2) assms(4) by auto
  then have "fn_run c [e9] n8 = Inr (beat c e9 n9)" "fst (on_ready c en (beat c e9 n9))"
    by (simp_all add: run_advance on_ready_def del: fn_run.simps(2))
  then show ?thesis using n2(1) n4(1) n6(1) n8(1) by metis
qed

section \<open>Witnesses\<close>

definition demo_config :: fixture_config where
  "demo_config = \<lparr>fc_identity = demo_identity,
     fc_frame = Some ''base_link'', fc_specs = [demo_spec], fc_deadline = Fin 60\<rparr>"

definition demo_env :: tick_env where
  "demo_env = \<lparr>te_now = Fin 1, te_clock = Fin 1, te_physics = \<lparr>vw_ready = True, vw_call = Finished (Inr (Some True))\<rparr>,
     te_get = \<lparr>vw_ready = True, vw_call = Finished (Inr (Some [demo_message, demo_message\<lparr>om_id := ''table''\<rparr>]))\<rparr>,
     te_apply = \<lparr>vw_ready = True, vw_call = Finished (Inr (Some True))\<rparr>,
     te_builtins = demo_builtins, te_digest = (\<lambda>_. []), te_float32 = Inr, te_resolve = demo_resolve\<rparr>"

definition demo_ready :: "fixture_node res \<Rightarrow> bool" where
  "demo_ready r = (case r of Inl _ \<Rightarrow> False | Inr n \<Rightarrow> fst (on_ready demo_config demo_env n))"

lemma demo_run: "demo_ready (fn_run demo_config (replicate 9 demo_env) (initial_node (Fin 0)))"
  by code_simp
text \<open>
  Building the request is not guarded: a mesh that cannot be loaded raises out of the timer callback and ends the node, which
  then publishes no failure. An exception of a service call whose text mentions a timeout is taken for one.
\<close>

lemma unloadable_mesh_ends_node:
  "\<not> is_ok (fn_run demo_config (replicate 5 (demo_env\<lparr>te_resolve := \<lambda>_. Inl (ValueError ''mesh asset not found'')\<rparr>))
             (initial_node (Fin 0)))"
  by code_simp

lemma timeout_text_is_retried:
  "snd (hard_error ''apply fixture scene''
     ((new_service :: bool service)\<lparr>sv_error := Some ''service call failed: handshake timed out''\<rparr>)) = None"
  by code_simp

lemma ready_needs_confirmed_readback_witness:
  "\<exists>old objects. happened [physics_answered, lists demo_config old, applied, lists demo_config objects,
                           scene_matches demo_config objects] (replicate 9 demo_env)"
proof -
  obtain n where "fn_run demo_config (replicate 9 demo_env) (initial_node (Fin 0)) = Inr n"
    "fst (on_ready demo_config demo_env n)"
    using demo_run by (auto simp: demo_ready_def split: sum.splits)
  from ready_needs_confirmed_readback [OF this] show ?thesis by blast
qed

lemma heartbeats_follow_phase_witness:
  "snd (published demo_config [demo_env, demo_env] (initial_node (Fin 0)) ! 1)
   = canonical_fixture_status (fc_identity demo_config) 2 (Fin 1) FIXTURE_STATE_PENDING"
proof -
  have "length (published demo_config [demo_env, demo_env] (initial_node (Fin 0))) = 2"
    "fst (published demo_config [demo_env, demo_env] (initial_node (Fin 0)) ! 1) = Discover" by code_simp+
  then show ?thesis
    using heartbeats_follow_phase [of 1 demo_config "[demo_env, demo_env]" "Fin 0"]
    by (simp add: split_beta state_of_def demo_env_def)
qed

lemma attentive_services_make_ready_witness:
  "\<exists>n. fn_run demo_config (replicate 9 demo_env) (initial_node (Fin 0)) = Inr n \<and> fst (on_ready demo_config demo_env n)"
proof -
  let ?objects = "[(''sim_fixture/box'', Some demo_geometry), (''table'', None)]"
  have "each (extract_object (fc_frame demo_config)) [demo_message, demo_message\<lparr>om_id := ''table''\<rparr>] = Inr ?objects"
    by code_simp
  then have listed: "lists demo_config ?objects demo_env" by (simp add: lists_def demo_env_def)
  have "is_ok (each (spec_to_message (te_builtins demo_env) (te_resolve demo_env)) (fc_specs demo_config))" by code_simp
  then have att: "attentive demo_config (Fin 0) demo_env"
    using listed by (auto simp: attentive_def physics_answered_def applied_def demo_env_def demo_config_def demo_identity_def)
  have geometry: "expected_geometry demo_config demo_env = Inr [(''sim_fixture/box'', demo_geometry)]" by code_simp
  have ids: "each (geometry_id (te_builtins demo_env)) [demo_geometry] = Inr [''sim_fixture/box'']" by code_simp
  have eq: "py_eq demo_geometry demo_geometry" by code_simp
  have "is_fixture ''sim_fixture/box''" "\<not> is_fixture ''table''" by code_simp+
  then have match: "scene_matches demo_config ?objects demo_env"
    using geometry ids eq
    by (simp add: scene_matches_def scene_agrees_def geometry_agrees_def List.map_filter_def demo_config_def demo_identity_def)
  have "specs_valid demo_config" by code_simp
  moreover have "identity_agrees (fc_identity demo_config) 1 (te_clock demo_env)" by code_simp
  moreover have "replicate 9 demo_env = [demo_env, demo_env, demo_env, demo_env, demo_env, demo_env, demo_env, demo_env, demo_env]"
    by (simp add: numeral_eq_Suc)
  ultimately show ?thesis
    using attentive_services_make_ready [of demo_config "Fin 0" demo_env demo_env demo_env demo_env demo_env demo_env
        demo_env demo_env ?objects demo_env demo_env] att listed match by simp
qed

end
