(* ===== verification/Episode.thy ===== *)
theory Episode
  imports Py_Values
begin

text \<open>
  The small pure modules of the simulator core: the episode controller (\<open>control.py\<close>), actor paths
  (\<open>actor_path.py\<close>), the scoring of postconditions (\<open>evaluator.py\<close>) and the resolution of the physics and control
  rates (\<open>physics_rate.py\<close>). \<open>math.dist\<close>, \<open>math.atan2\<close>, the float a text denotes and the rendering of
  a float are arguments.
\<close>

section \<open>Episode controller\<close>

record episode =
  ep_time :: pyfloat
  ep_start :: pyfloat
  ep_id :: int
  ep_scenario :: string
  ep_seed :: int
  ep_paused :: bool

definition episode_new :: "int \<Rightarrow> episode" where
  "episode_new seed =
     \<lparr>ep_time = Fin 0, ep_start = Fin 0, ep_id = 0, ep_scenario = ''empty'', ep_seed = seed, ep_paused = False\<rparr>"

definition ep_advance :: "pyfloat \<Rightarrow> episode \<Rightarrow> episode \<times> pyfloat res" where
  "ep_advance dt e0 =
     (if flt dt (Fin 0) then (e0, Inl (ValueError ''dt must be non-negative''))
      else let e = (if \<not> ep_paused e0 then e0\<lparr>ep_time := fadd (ep_time e0) dt\<rparr> else e0) in (e, Inr (ep_time e)))"

definition ep_step_paused :: "int \<Rightarrow> pyfloat \<Rightarrow> episode \<Rightarrow> episode \<times> pyfloat res" where
  "ep_step_paused steps dt e0 =
     (if \<not> ep_paused e0 then (e0, Inl (RuntimeError ''explicit stepping requires a paused simulation''))
      else if steps < 1 then (e0, Inl (ValueError ''steps must be positive''))
      else let e = e0\<lparr>ep_time := fadd (ep_time e0) (fmul (Fin (of_int steps)) dt)\<rparr> in (e, Inr (ep_time e)))"

definition ep_pause :: "bool \<Rightarrow> episode \<Rightarrow> episode" where
  "ep_pause paused e = e\<lparr>ep_paused := paused\<rparr>"

definition ep_reset :: "int option \<Rightarrow> episode \<Rightarrow> episode" where
  "ep_reset seed e0 =
     (let e = e0\<lparr>ep_id := ep_id e0 + 1, ep_start := ep_time e0\<rparr>
      in case seed of None \<Rightarrow> e | Some s \<Rightarrow> e\<lparr>ep_seed := s\<rparr>)"

definition ep_load_scenario :: "string \<Rightarrow> int \<Rightarrow> episode \<Rightarrow> episode \<times> unit res" where
  "ep_load_scenario scenario seed e =
     (if \<not> ep_paused e then (e, Inl (RuntimeError ''scenario load requires a paused simulation''))
      else if scenario = [] \<or> py_contains ''/'' scenario \<or> py_contains ''..'' scenario
      then (e, Inl (ValueError ''invalid scenario identifier''))
      else (ep_reset (Some seed) (e\<lparr>ep_scenario := scenario, ep_seed := seed\<rparr>), Inr ()))"

record episode_status =
  es_id :: int
  es_scenario :: string
  es_state :: string
  es_simulation_time :: pyfloat
  es_start :: pyfloat
  es_seed :: int

definition ep_status :: "episode \<Rightarrow> episode_status" where
  "ep_status e =
     \<lparr>es_id = ep_id e, es_scenario = ep_scenario e, es_state = (if ep_paused e then ''paused'' else ''running''),
      es_simulation_time = ep_time e, es_start = ep_start e, es_seed = ep_seed e\<rparr>"

definition episode_time :: "episode_status \<Rightarrow> pyfloat" where
  "episode_time s = fsub (es_simulation_time s) (es_start s)"

section \<open>Actor paths\<close>

type_synonym point = "pyfloat \<times> pyfloat"

text \<open>\<open>len(x)\<close> with the items: indexing a dictionary by a number raises.\<close>

definition indexed :: "pyval \<Rightarrow> pyval list res" where
  "indexed v = (case v of PList xs \<Rightarrow> Inr xs | PStr s \<Rightarrow> Inr (map (\<lambda>c. PStr [c]) s)
     | PDict d \<Rightarrow> (if length d = 2 then Inl (KeyError ''0'') else Inl (ValueError ''actor path waypoints must be [x, y] pairs''))
     | _ \<Rightarrow> Inl (TypeError ''object has no len()''))"

definition waypoint :: "py_builtins \<Rightarrow> pyval \<Rightarrow> point res" where
  "waypoint pb v =
     bind (indexed v) (\<lambda>xs.
       if length xs \<noteq> 2 then Inl (ValueError ''actor path waypoints must be [x, y] pairs'')
       else bind (py_float pb (xs ! 0)) (\<lambda>x. bind (py_float pb (xs ! 1)) (\<lambda>y.
              if \<not> (isfinite x \<and> isfinite y) then Inl (ValueError ''actor path waypoints must be finite'')
              else Inr (x, y))))"

definition validate_path :: "py_builtins \<Rightarrow> pyval \<Rightarrow> point list res" where
  "validate_path pb path =
     bind (py_items path) (\<lambda>ws.
       if length ws < 2 then Inl (ValueError ''actor path requires at least two waypoints'')
       else each (waypoint pb) ws)"

definition segments :: "point list \<Rightarrow> (point \<times> point) list" where
  "segments ps = zip ps (tl ps)"

definition path_length :: "py_builtins \<Rightarrow> (point \<Rightarrow> point \<Rightarrow> pyfloat) \<Rightarrow> pyval \<Rightarrow> pyfloat res" where
  "path_length pb gap path =
     bind (validate_path pb path) (\<lambda>ps. Inr (foldl fadd (Fin 0) (map (\<lambda>(p, q). gap p q) (segments ps))))"

definition same_point :: "point \<Rightarrow> point \<Rightarrow> bool" where
  "same_point p q \<longleftrightarrow> feq (fst p) (fst q) \<and> feq (snd p) (snd q)"

definition same_segment :: "point \<times> point \<Rightarrow> point \<times> point \<Rightarrow> bool" where
  "same_segment s t \<longleftrightarrow> same_point (fst s) (fst t) \<and> same_point (snd s) (snd t)"

definition between :: "point \<Rightarrow> point \<Rightarrow> pyfloat \<Rightarrow> point" where
  "between p q fraction =
     (fadd (fst p) (fmul (fsub (fst q) (fst p)) fraction), fadd (snd p) (fmul (fsub (snd q) (snd p)) fraction))"

fun walk :: "(point \<Rightarrow> point \<Rightarrow> pyfloat) \<Rightarrow> (pyfloat \<Rightarrow> pyfloat \<Rightarrow> pyfloat) \<Rightarrow> point \<times> point
    \<Rightarrow> (point \<times> point) list \<Rightarrow> pyfloat \<Rightarrow> (point \<times> pyfloat) option" where
  "walk gap atan2 final [] remaining = None"
| "walk gap atan2 final ((p, q) # segs) remaining =
     (let segment = gap p q; yaw = atan2 (fsub (snd q) (snd p)) (fsub (fst q) (fst p))
      in if fle remaining segment \<or> same_segment (p, q) final
         then let fraction = (if flt (Fin 0) segment then pymin (Fin 1) (fdiv remaining segment) else Fin 1)
              in Some (between p q fraction, yaw)
         else walk gap atan2 final segs (fsub remaining segment))"

text \<open>The loop always returns in the last segment; falling out of it would return None.\<close>

definition path_pose_at :: "py_builtins \<Rightarrow> (point \<Rightarrow> point \<Rightarrow> pyfloat) \<Rightarrow> (pyfloat \<Rightarrow> pyfloat \<Rightarrow> pyfloat)
    \<Rightarrow> pyval \<Rightarrow> pyfloat \<Rightarrow> (point \<times> pyfloat) option res" where
  "path_pose_at pb gap atan2 path distance =
     bind (validate_path pb path) (\<lambda>ps.
       if \<not> isfinite distance then Inl (ValueError ''actor path distance must be finite'')
       else Inr (walk gap atan2 (last (segments ps)) (segments ps) (pymax (Fin 0) distance)))"

section \<open>Postconditions\<close>

record evaluation =
  ev_success :: bool
  ev_satisfied :: "string list"
  ev_failed :: "string list"

fun lookup_path :: "string \<Rightarrow> string list \<Rightarrow> pyval \<Rightarrow> pyval res" where
  "lookup_path dotted [] v = Inr v"
| "lookup_path dotted (component # cs) v =
     (case v of
        PDict d \<Rightarrow> (case map_of d component of None \<Rightarrow> Inl (KeyError dotted) | Some x \<Rightarrow> lookup_path dotted cs x)
      | _ \<Rightarrow> Inl (KeyError dotted))"

definition lookup_dotted :: "pyval \<Rightarrow> string \<Rightarrow> pyval res" where
  "lookup_dotted state dotted = lookup_path dotted (py_split (CHR ''.'') dotted) state"

text \<open>\<open>x in container\<close>, and \<open>set(x)\<close>: lists and dictionaries are not hashable.\<close>

definition hashable :: "pyval \<Rightarrow> bool" where
  "hashable v = (case v of PList _ \<Rightarrow> False | PDict _ \<Rightarrow> False | _ \<Rightarrow> True)"

definition py_in :: "pyval \<Rightarrow> pyval \<Rightarrow> bool res" where
  "py_in x container =
     (case container of
        PList xs \<Rightarrow> Inr (list_ex (\<lambda>y. py_eq y x) xs)
      | PDict d \<Rightarrow> (if hashable x then Inr (case x of PStr k \<Rightarrow> k \<in> fst ` set d | _ \<Rightarrow> False) else Inl (TypeError ''unhashable type''))
      | PStr s \<Rightarrow> (case x of PStr t \<Rightarrow> Inr (py_contains t s \<or> t = []) | _ \<Rightarrow> Inl (TypeError ''requires string as left operand''))
      | _ \<Rightarrow> Inl (TypeError ''argument is not iterable''))"

definition py_set :: "pyval \<Rightarrow> pyval list res" where
  "py_set v = bind (py_items v) (\<lambda>xs. if list_all hashable xs then Inr xs else Inl (TypeError ''unhashable type''))"

definition set_eq :: "pyval list \<Rightarrow> pyval list \<Rightarrow> bool" where
  "set_eq xs ys \<longleftrightarrow> list_all (\<lambda>x. list_ex (py_eq x) ys) xs \<and> list_all (\<lambda>y. list_ex (\<lambda>x. py_eq x y) xs) ys"

text \<open>\<open>math.dist\<close> of two sequences of floats, which raises for different lengths.\<close>

definition compare_condition :: "py_builtins \<Rightarrow> (pyfloat list \<Rightarrow> pyfloat list \<Rightarrow> pyfloat) \<Rightarrow> pyval \<Rightarrow> pyval \<Rightarrow> bool res" where
  "compare_condition pb distn actual condition =
     bind (py_get condition ''operator'') (\<lambda>operator. bind (py_get_default condition ''value'' PNone) (\<lambda>expected.
       if py_eq operator (PStr ''equals'') then Inr (py_eq actual expected)
       else if py_eq operator (PStr ''less_than_or_equal'')
       then bind (py_float pb actual) (\<lambda>a. bind (py_float pb expected) (\<lambda>e. Inr (fle a e)))
       else if py_eq operator (PStr ''greater_than_or_equal'')
       then bind (py_float pb actual) (\<lambda>a. bind (py_float pb expected) (\<lambda>e. Inr (fle e a)))
       else if py_eq operator (PStr ''contains'') then py_in expected actual
       else if py_eq operator (PStr ''set_equals'')
       then bind (py_set actual) (\<lambda>a. bind (py_set expected) (\<lambda>e. Inr (set_eq a e)))
       else if py_eq operator (PStr ''distance_less_than_or_equal'')
       then bind (bind (py_items actual) (each (py_float pb))) (\<lambda>a. bind (bind (py_items expected) (each (py_float pb))) (\<lambda>e.
              if length a \<noteq> length e then Inl (ValueError ''both points must have the same number of dimensions'')
              else bind (py_get condition ''tolerance'') (\<lambda>t. bind (py_float pb t) (\<lambda>tolerance.
                     Inr (fle (distn a e) tolerance)))))
       else Inl (ValueError (''unsupported postcondition operator: '' @ py_str pb operator))))"

text \<open>The three exceptions the loop catches; another one would leave it.\<close>

definition caught :: "exc \<Rightarrow> bool" where
  "caught e = (case e of KeyError _ \<Rightarrow> True | TypeError _ \<Rightarrow> True | ValueError _ \<Rightarrow> True | _ \<Rightarrow> False)"

definition check_condition :: "py_builtins \<Rightarrow> (pyfloat list \<Rightarrow> pyfloat list \<Rightarrow> pyfloat) \<Rightarrow> pyval \<Rightarrow> pyval \<Rightarrow> bool res" where
  "check_condition pb distn truth condition =
     (case bind (bind (py_get condition ''path'') (\<lambda>p. lookup_dotted truth (py_str pb p)))
                (\<lambda>actual. compare_condition pb distn actual condition) of
        Inr passed \<Rightarrow> Inr passed
      | Inl e \<Rightarrow> if caught e then Inr False else Inl e)"

fun evaluate_all :: "py_builtins \<Rightarrow> (pyfloat list \<Rightarrow> pyfloat list \<Rightarrow> pyfloat) \<Rightarrow> pyval \<Rightarrow> pyval list
    \<Rightarrow> string list \<Rightarrow> string list \<Rightarrow> evaluation res" where
  "evaluate_all pb distn truth [] satisfied failed =
     Inr \<lparr>ev_success = (failed = []), ev_satisfied = satisfied, ev_failed = failed\<rparr>"
| "evaluate_all pb distn truth (c # cs) satisfied failed =
     bind (py_get c ''name'') (\<lambda>n. bind (check_condition pb distn truth c) (\<lambda>passed.
       if passed then evaluate_all pb distn truth cs (satisfied @ [py_str pb n]) failed
       else evaluate_all pb distn truth cs satisfied (failed @ [py_str pb n])))"

definition evaluate :: "py_builtins \<Rightarrow> (pyfloat list \<Rightarrow> pyfloat list \<Rightarrow> pyfloat) \<Rightarrow> pyval list \<Rightarrow> pyval \<Rightarrow> evaluation res" where
  "evaluate pb distn conditions truth = evaluate_all pb distn truth conditions [] []"

section \<open>Rates\<close>

definition MINIMUM_PHYSICS_HZ :: rat where "MINIMUM_PHYSICS_HZ = 30"
definition MINIMUM_CONTROL_HZ :: rat where "MINIMUM_CONTROL_HZ = 30"
definition MAXIMUM_SOLVER_ITERATIONS :: int where "MAXIMUM_SOLVER_ITERATIONS = 255"

text \<open>
  The guards the two rates share: a number, finite and positive, at most the reference rate, at least the floor.
  \<open>override\<close> is the text of the environment variable, or none; messages are those of the code without the values.
\<close>

definition unset :: "string option \<Rightarrow> bool" where
  "unset override \<longleftrightarrow> (case override of None \<Rightarrow> True | Some s \<Rightarrow> py_strip s = [])"

definition checked_rate :: "(string \<Rightarrow> pyfloat option) \<Rightarrow> string \<Rightarrow> string \<Rightarrow> pyfloat \<Rightarrow> rat \<Rightarrow> pyfloat res" where
  "checked_rate float_text name text limit lowest =
     (case float_text (py_strip text) of
        None \<Rightarrow> Inl (ValueError (name @ '' must be a number''))
      | Some value \<Rightarrow>
          if \<not> isfinite value \<or> fle value (Fin 0) then Inl (ValueError (name @ '' must be finite and positive''))
          else if flt limit value then Inl (ValueError (name @ '' exceeds the reference rate''))
          else if flt value (Fin lowest) then Inl (ValueError (name @ '' is below the floor''))
          else Inr value)"

definition resolve_physics_hz :: "(string \<Rightarrow> pyfloat option) \<Rightarrow> pyfloat \<Rightarrow> string option \<Rightarrow> pyfloat res" where
  "resolve_physics_hz float_text default_hz override =
     (case override of
        Some s \<Rightarrow> if unset override then Inr default_hz
                  else checked_rate float_text ''TINKER_SIM_PHYSICS_HZ'' s default_hz MINIMUM_PHYSICS_HZ
      | None \<Rightarrow> Inr default_hz)"

text \<open>\<open>abs(ratio - round(ratio)) > 1e-9\<close>; rounding infinity or NaN raises.\<close>

definition py_round :: "pyfloat \<Rightarrow> int res" where
  "py_round x = (case x of Fin r \<Rightarrow> Inr (round_even r) | NaN \<Rightarrow> Inl (ValueError ''cannot convert float NaN to integer'')
     | _ \<Rightarrow> Inl (OtherError ''cannot convert float infinity to integer''))"

definition off_grid :: "pyfloat \<Rightarrow> int \<Rightarrow> bool" where
  "off_grid ratio n \<longleftrightarrow> flt (Fin (1 / 10 ^ 9)) (fabs (fsub ratio (Fin (of_int n))))"

definition resolve_control_hz :: "(string \<Rightarrow> pyfloat option) \<Rightarrow> pyfloat \<Rightarrow> string option \<Rightarrow> pyfloat res" where
  "resolve_control_hz float_text physics_hz override =
     (case override of
        Some s \<Rightarrow>
          if unset override then Inr physics_hz
          else bind (checked_rate float_text ''TINKER_SIM_CONTROL_HZ'' s physics_hz MINIMUM_CONTROL_HZ) (\<lambda>value.
                 let ratio = fdiv physics_hz value
                 in bind (py_round ratio) (\<lambda>n.
                      if off_grid ratio n
                      then Inl (ValueError ''TINKER_SIM_CONTROL_HZ does not divide the physics rate into whole PhysX substeps'')
                      else Inr value))
      | None \<Rightarrow> Inr physics_hz)"

definition physics_substeps :: "pyfloat \<Rightarrow> pyfloat \<Rightarrow> int res" where
  "physics_substeps physics_hz control_hz =
     (if feq control_hz (Fin 0) then Inl (OtherError ''float division by zero'')
      else let ratio = fdiv physics_hz control_hz
           in bind (py_round ratio) (\<lambda>substeps.
                if substeps < 1 \<or> off_grid ratio substeps
                then Inl (ValueError ''physics_hz is not a whole multiple of control_hz'') else Inr substeps))"

definition whole_number :: "string \<Rightarrow> string \<Rightarrow> int \<Rightarrow> int option res" where
  "whole_number name text lowest =
     (case int_token (py_strip text) of
        Inl _ \<Rightarrow> Inl (ValueError (name @ '' must be a whole number''))
      | Inr value \<Rightarrow> if value < lowest \<or> value > MAXIMUM_SOLVER_ITERATIONS
                     then Inl (ValueError (name @ '' is outside the range'')) else Inr (Some value))"

definition resolve_solver_iterations :: "string option \<Rightarrow> int option res" where
  "resolve_solver_iterations override =
     (case override of Some s \<Rightarrow> if unset override then Inr None else whole_number ''TINKER_SIM_SOLVER_ITERATIONS'' s 1
      | None \<Rightarrow> Inr None)"

text \<open>The two attributes of the scene: whether each could be set, in order; the log holds the writes.\<close>

definition configure_scene_velocity_iterations :: "bool \<times> bool \<Rightarrow> string option \<Rightarrow> (string \<times> int) list \<times> int option res" where
  "configure_scene_velocity_iterations settable override =
     (case override of
        None \<Rightarrow> ([], Inr None)
      | Some s \<Rightarrow>
          if unset override then ([], Inr None)
          else (case whole_number ''TINKER_SIM_SCENE_VELOCITY_ITERATIONS'' s 0 of
                  Inl e \<Rightarrow> ([], Inl e)
                | Inr None \<Rightarrow> ([], Inr None)
                | Inr (Some value) \<Rightarrow>
                    if \<not> fst settable
                    then ([], Inl (RuntimeError ''Cannot configure PhysX scene attribute minVelocityIterationCount''))
                    else if \<not> snd settable
                    then ([(''minVelocityIterationCount'', value)],
                          Inl (RuntimeError ''Cannot configure PhysX scene attribute maxVelocityIterationCount''))
                    else ([(''minVelocityIterationCount'', value), (''maxVelocityIterationCount'', value)], Inr (Some value))))"

end
