(* ===== verification/Episode_Safety.thy ===== *)
theory Episode_Safety
  imports Episode
begin

text \<open>
  The episode clock never runs backwards and its scenario is a safe name; an actor walks its path at the distance asked
  for, unless the last segment of the path occurs earlier; scoring is total and strict; accepted rates divide.
\<close>

section \<open>Episode controller\<close>

datatype episode_op =
    Advance pyfloat
  | Step_Paused int pyfloat
  | Pause bool
  | Reset "int option"
  | Load string int

text \<open>One call: the state after it, and whether it returned.\<close>

fun ep_call :: "episode_op \<Rightarrow> episode \<Rightarrow> episode \<times> bool" where
  "ep_call (Advance dt) e = (case ep_advance dt e of (e', r) \<Rightarrow> (e', is_ok r))"
| "ep_call (Step_Paused n dt) e = (case ep_step_paused n dt e of (e', r) \<Rightarrow> (e', is_ok r))"
| "ep_call (Pause b) e = (ep_pause b e, True)"
| "ep_call (Reset s) e = (ep_reset s e, True)"
| "ep_call (Load n s) e = (case ep_load_scenario n s e of (e', r) \<Rightarrow> (e', is_ok r))"

definition ep_run :: "episode_op list \<Rightarrow> episode \<Rightarrow> episode" where
  "ep_run = run_events (\<lambda>op e. fst (ep_call op e))"

text \<open>Time steps are finite, and those of explicit stepping are not negative.\<close>

fun sane :: "episode_op \<Rightarrow> bool" where
  "sane (Advance dt) \<longleftrightarrow> isfinite dt"
| "sane (Step_Paused n dt) \<longleftrightarrow> isfinite dt \<and> \<not> flt dt (Fin 0)"
| "sane _ \<longleftrightarrow> True"

definition safe_name :: "string \<Rightarrow> bool" where
  "safe_name s \<longleftrightarrow> s \<noteq> [] \<and> CHR ''/'' \<notin> set s \<and> \<not> py_contains ''..'' s"

definition fine_episode :: "episode \<Rightarrow> bool" where
  "fine_episode e \<longleftrightarrow>
     (\<exists>t0 t. ep_start e = Fin t0 \<and> ep_time e = Fin t \<and> 0 \<le> t0 \<and> t0 \<le> t) \<and> safe_name (ep_scenario e) \<and> 0 \<le> ep_id e"

lemma contains_char: "py_contains [c] s \<longleftrightarrow> c \<in> set s"
proof -
  have "startswith (drop k s) [c] \<longleftrightarrow> s ! k = c" if "k < length s" for k
    using that by (simp add: startswith_def Cons_nth_drop_Suc [symmetric])
  then show ?thesis by (auto simp: py_contains_def list_ex_iff in_set_conv_nth)
qed

text \<open>What one call does to the clock, the episode and its name.\<close>

definition follows :: "episode_op \<Rightarrow> episode \<Rightarrow> episode \<Rightarrow> bool" where
  "follows op e e' \<longleftrightarrow>
     fle (ep_time e) (ep_time e')
     \<and> ep_id e' = ep_id e + (if snd (ep_call op e) \<and> (case op of Reset _ \<Rightarrow> True | Load _ _ \<Rightarrow> True | _ \<Rightarrow> False) then 1 else 0)
     \<and> (ep_id e' = ep_id e \<longrightarrow> ep_start e' = ep_start e \<and> ep_scenario e' = ep_scenario e \<and> ep_seed e' = ep_seed e)
     \<and> (ep_id e' \<noteq> ep_id e \<longrightarrow> ep_start e' = ep_time e' \<and> ep_time e' = ep_time e)
     \<and> (\<not> snd (ep_call op e) \<longrightarrow> e' = e)"

lemma ep_call_follows:
  assumes "fine_episode e" "sane op"
  shows "fine_episode (fst (ep_call op e)) \<and> follows op e (fst (ep_call op e))"
proof -
  obtain t0 t where t: "ep_start e = Fin t0" "ep_time e = Fin t" "0 \<le> t0" "t0 \<le> t" "safe_name (ep_scenario e)" "0 \<le> ep_id e"
    using assms(1) by (auto simp: fine_episode_def)
  show ?thesis
  proof (cases op)
    case (Advance dt)
    then show ?thesis using t assms(2)
      by (auto simp: ep_advance_def fine_episode_def follows_def isfinite_iff)
  next
    case (Step_Paused n dt)
    then obtain r where "dt = Fin r" "0 \<le> r" using assms(2) by (auto simp: isfinite_iff)
    moreover have "t0 \<le> t + of_int n * r \<and> 0 \<le> of_int n * r" if "\<not> n < 1"
      using that \<open>0 \<le> r\<close> t(4) add_increasing2 [of "of_int n * r" t0 t] by simp
    ultimately show ?thesis using t Step_Paused
      by (auto simp: ep_step_paused_def fine_episode_def follows_def Let_def)
  next
    case (Load name seed)
    then show ?thesis using t
      by (auto simp: ep_load_scenario_def ep_reset_def fine_episode_def follows_def safe_name_def contains_char Let_def)
  qed (use t in \<open>auto simp: ep_pause_def ep_reset_def fine_episode_def follows_def Let_def split: option.splits\<close>)
qed

interpretation episode_sane: event_invariant "\<lambda>op e. if sane op then fst (ep_call op e) else e" fine_episode
  by unfold_locales (simp add: ep_call_follows)

lemma run_sane:
  "list_all sane ops \<Longrightarrow> ep_run ops e = run_events (\<lambda>op e. if sane op then fst (ep_call op e) else e) ops e"
  by (induction ops arbitrary: e) (auto simp: ep_run_def)

lemma fine_new: "fine_episode (episode_new seed)"
proof -
  have "safe_name ''empty''" by code_simp
  then show ?thesis by (simp add: fine_episode_def episode_new_def)
qed

text \<open>After any calls with finite steps (explicit steps not negative) the time of the episode is not negative, the
  scenario is a safe file name, and each further call keeps the clock from running backwards, starts an episode exactly when
  a reset or a load succeeds, changes nothing else of the episode, and leaves the state alone when it raises.
\<close>

theorem episode_clock_monotone:
  assumes "list_all sane ops" and "sane op"
  shows "let e = ep_run ops (episode_new seed) in
           (\<exists>t\<ge>0. episode_time (ep_status e) = Fin t) \<and> safe_name (ep_scenario e) \<and> follows op e (fst (ep_call op e))"
proof -
  let ?e = "ep_run ops (episode_new seed)"
  have fine: "fine_episode ?e"
    unfolding run_sane [OF assms(1)] by (rule episode_sane.run_inv [OF fine_new])
  then have "\<exists>t\<ge>0. episode_time (ep_status ?e) = Fin t"
    by (auto simp: fine_episode_def episode_time_def ep_status_def)
  with fine ep_call_follows [OF fine assms(2)] show ?thesis by (simp add: fine_episode_def)
qed

lemma episode_clock_monotone_witness:
  "let e = ep_run [Pause True, Load ''demo'' 7, Step_Paused 2 (Fin (1/10))] (episode_new 0) in
     safe_name (ep_scenario e) \<and> follows (Load ''../etc'' 1) e (fst (ep_call (Load ''../etc'' 1) e))"
  using episode_clock_monotone [of "[Pause True, Load ''demo'' 7, Step_Paused 2 (Fin (1/10))]" "Load ''../etc'' 1" 0]
  by (simp add: Let_def)

text \<open>Explicit stepping checks the number of steps, not their length: the clock can run backwards.\<close>

lemma step_paused_backwards:
  "snd (ep_step_paused 1 (Fin (- 5)) (ep_pause True (episode_new 0))) = Inr (Fin (- 5))"
  by (simp add: ep_step_paused_def ep_pause_def episode_new_def)

section \<open>Actor paths\<close>

text \<open>Of the distance of two finite points this is used: it is finite and not negative.\<close>

definition distance_ok :: "(point \<Rightarrow> point \<Rightarrow> pyfloat) \<Rightarrow> bool" where
  "distance_ok gap \<longleftrightarrow>
     (\<forall>p q. isfinite (fst p) \<and> isfinite (snd p) \<and> isfinite (fst q) \<and> isfinite (snd q) \<longrightarrow> (\<exists>r\<ge>0. gap p q = Fin r))"

definition finite_point :: "point \<Rightarrow> bool" where
  "finite_point p \<longleftrightarrow> isfinite (fst p) \<and> isfinite (snd p)"

lemma validated_path:
  assumes "validate_path pb path = Inr ps"
  shows "2 \<le> length ps" "list_all finite_point ps"
proof -
  obtain ws where ws: "2 \<le> length ws" "each (waypoint pb) ws = Inr ps"
    using assms by (auto simp: validate_path_def bind_Inr_iff not_less split: if_splits)
  show "2 \<le> length ps" using ws each_length [OF ws(2)] by simp
  show "list_all finite_point ps"
    by (rule each_all [OF _ ws(2)]) (auto simp: waypoint_def bind_Inr_iff finite_point_def split: if_splits)
qed

text \<open>The length of a segment, and of the way to a point of it.\<close>

definition seg_len :: "(point \<Rightarrow> point \<Rightarrow> pyfloat) \<Rightarrow> point \<times> point \<Rightarrow> rat" where
  "seg_len gap s = (case gap (fst s) (snd s) of Fin r \<Rightarrow> r | _ \<Rightarrow> 0)"

definition way :: "(point \<Rightarrow> point \<Rightarrow> pyfloat) \<Rightarrow> (point \<times> point) list \<Rightarrow> rat" where
  "way gap segs = sum_list (map (seg_len gap) segs)"

text \<open>A pose at a fraction of the k-th segment, with the heading of that segment.\<close>

definition stands_at :: "(pyfloat \<Rightarrow> pyfloat \<Rightarrow> pyfloat) \<Rightarrow> (point \<times> point) list \<Rightarrow> nat \<Rightarrow> rat \<Rightarrow> point \<times> pyfloat \<Rightarrow> bool" where
  "stands_at atan2 segs k f pose \<longleftrightarrow>
     k < length segs \<and> 0 \<le> f \<and> f \<le> 1 \<and>
     (let (p, q) = segs ! k
      in pose = (between p q (Fin f), atan2 (fsub (snd q) (snd p)) (fsub (fst q) (fst p))))"

definition finite_segment :: "point \<times> point \<Rightarrow> bool" where
  "finite_segment s \<longleftrightarrow> finite_point (fst s) \<and> finite_point (snd s)"

lemma gap_len:
  assumes "distance_ok gap" "finite_segment (p, q)"
  shows "gap p q = Fin (seg_len gap (p, q)) \<and> 0 \<le> seg_len gap (p, q)"
proof -
  obtain r where "gap p q = Fin r" "0 \<le> r"
    using assms(1) [unfolded distance_ok_def, rule_format, of p q] assms(2)
    by (auto simp: finite_segment_def finite_point_def)
  then show ?thesis by (simp add: seg_len_def)
qed

lemma way_nonneg: "distance_ok gap \<Longrightarrow> list_all finite_segment segs \<Longrightarrow> 0 \<le> way gap segs"
  by (induction segs) (auto simp: way_def dest: gap_len)

lemma same_segment_iff: "finite_segment s \<Longrightarrow> finite_segment t \<Longrightarrow> same_segment s t \<longleftrightarrow> s = t"
  by (auto simp: same_segment_def same_point_def finite_segment_def finite_point_def prod_eq_iff isfinite_iff)

lemma walk_stands:
  assumes "distance_ok gap" "list_all finite_segment segs" "segs \<noteq> []" "last segs = final" "final \<notin> set (butlast segs)" "0 \<le> r"
  shows "\<exists>pose k f. walk gap atan2 final segs (Fin r) = Some pose \<and> stands_at atan2 segs k f pose
           \<and> way gap (take k segs) + f * seg_len gap (segs ! k) = min r (way gap segs)"
  using assms(2-)
proof (induction segs arbitrary: r)
  case (Cons s segs)
  obtain p q where s: "s = (p, q)" by (cases s)
  let ?l = "seg_len gap (p, q)"
  have l: "gap p q = Fin ?l" "0 \<le> ?l" using gap_len [OF assms(1)] Cons.prems(1) s by auto
  have rest: "0 \<le> way gap segs" using way_nonneg [OF assms(1)] Cons.prems(1) by simp
  have fin: "finite_segment (p, q)" "finite_segment final"
    using Cons.prems(1,2,3) s by (auto simp: list_all_iff)
  show ?case
  proof (cases "r \<le> ?l \<or> same_segment (p, q) final")
    case True
    define f where "f = (if 0 < ?l then min 1 (r / ?l) else 1)"
    have frac: "(if flt (Fin 0) (Fin ?l) then pymin (Fin 1) (fdiv (Fin r) (Fin ?l)) else Fin 1) = Fin f"
      by (auto simp: f_def pymin_def min_def)
    have "walk gap atan2 final (s # segs) (Fin r)
      = Some (between p q (Fin f), atan2 (fsub (snd q) (snd p)) (fsub (fst q) (fst p)))"
      unfolding s walk.simps Let_def l(1) frac using True by (simp add: l(1))
    moreover have "0 \<le> f" "f \<le> 1" using Cons.prems(5) l by (auto simp: f_def)
    moreover have "f * ?l = min r (way gap (s # segs))"
    proof (cases "r \<le> ?l")
      case True
      then show ?thesis using rest l Cons.prems(5) by (auto simp: f_def way_def s min_def)
    next
      case False
      then have "segs = []" using \<open>r \<le> ?l \<or> _\<close> same_segment_iff [OF fin] Cons.prems(4) s by (cases segs) auto
      then show ?thesis using False l by (auto simp: f_def way_def s min_def field_simps)
    qed
    ultimately show ?thesis
      by (intro exI [of _ "(between p q (Fin f), atan2 (fsub (snd q) (snd p)) (fsub (fst q) (fst p)))"] exI [of _ 0] exI [of _ f])
         (simp add: stands_at_def s way_def)
  next
    case False
    then have ne: "segs \<noteq> []" using Cons.prems(3) s same_segment_iff [OF fin] by (auto split: if_splits)
    have "\<exists>pose k f. walk gap atan2 final segs (Fin (r - ?l)) = Some pose \<and> stands_at atan2 segs k f pose
           \<and> way gap (take k segs) + f * seg_len gap (segs ! k) = min (r - ?l) (way gap segs)"
      using Cons.prems False ne by (intro Cons.IH) auto
    then obtain pose k f where w: "walk gap atan2 final segs (Fin (r - ?l)) = Some pose" "stands_at atan2 segs k f pose"
      "way gap (take k segs) + f * seg_len gap (segs ! k) = min (r - ?l) (way gap segs)" by blast
    have "walk gap atan2 final (s # segs) (Fin r) = Some pose" using False w(1) by (simp add: s l)
    moreover have "stands_at atan2 (s # segs) (Suc k) f pose" using w(2) by (simp add: stands_at_def)
    moreover have "way gap (take (Suc k) (s # segs)) + f * seg_len gap ((s # segs) ! Suc k) = min r (way gap (s # segs))"
      using w(3) by (simp add: way_def s min_def split: if_splits)
    ultimately show ?thesis by blast
  qed
qed simp

lemma segments_finite: "list_all finite_point ps \<Longrightarrow> list_all finite_segment (segments ps)"
  by (auto simp: list_all_length segments_def finite_segment_def nth_tl)

text \<open>For a path whose last segment does not occur earlier, the pose at a distance is on the k-th segment at a
  fraction f of it, heading along it, such that the way up to there is the distance asked for, from zero up to the length
  of the path; the call never falls out of its loop.
\<close>

theorem path_pose_at_distance:
  assumes "distance_ok gap" and "validate_path pb path = Inr ps"
    and "last (segments ps) \<notin> set (butlast (segments ps))"
  shows "\<exists>pose k f. path_pose_at pb gap atan2 path (Fin d) = Inr (Some pose) \<and> stands_at atan2 (segments ps) k f pose
           \<and> way gap (take k (segments ps)) + f * seg_len gap (segments ps ! k) = min (max 0 d) (way gap (segments ps))"
proof -
  have "segments ps \<noteq> []" using validated_path(1) [OF assms(2)] by (cases ps; cases "tl ps") (auto simp: segments_def)
  moreover have "pymax (Fin 0) (Fin d) = Fin (max 0 d)" by (simp add: pymax_def max_def)
  ultimately show ?thesis
    using walk_stands [OF assms(1) segments_finite [OF validated_path(2) [OF assms(2)]] _ refl assms(3), of "max 0 d" atan2]
      assms(2) by (simp add: path_pose_at_def)
qed

definition taxi :: "point \<Rightarrow> point \<Rightarrow> pyfloat" where
  "taxi p q = fadd (fabs (fsub (fst q) (fst p))) (fabs (fsub (snd q) (snd p)))"

lemma taxi_ok: "distance_ok taxi"
  by (auto simp: distance_ok_def taxi_def fabs_def isfinite_iff)

definition plain_builtins :: py_builtins where
  "plain_builtins = \<lparr>pb_float_text = (\<lambda>_. None), pb_render = (\<lambda>_. [])\<rparr>"

definition corner_path :: pyval where
  "corner_path = PList [PList [PInt 0, PInt 0], PList [PInt 2, PInt 0], PList [PInt 2, PInt 1]]"

lemma path_pose_at_distance_witness:
  "\<exists>pose k f. path_pose_at plain_builtins taxi (\<lambda>_ _. Fin 0) corner_path (Fin (5/2)) = Inr (Some pose)
     \<and> stands_at (\<lambda>_ _. Fin 0) [((Fin 0, Fin 0), (Fin 2, Fin 0)), ((Fin 2, Fin 0), (Fin 2, Fin 1))] k f pose"
proof -
  have ps: "validate_path plain_builtins corner_path = Inr [(Fin 0, Fin 0), (Fin 2, Fin 0), (Fin 2, Fin 1)]" by code_simp
  have segs: "segments [(Fin 0, Fin 0), (Fin 2, Fin 0), (Fin 2, Fin 1)]
    = [((Fin 0, Fin 0), (Fin 2, Fin 0)), ((Fin 2, Fin 0), (Fin 2, Fin 1))]" by (simp add: segments_def)
  have "last (segments [(Fin 0, Fin 0), (Fin 2, Fin 0), (Fin 2, Fin 1)])
    \<notin> set (butlast (segments [(Fin 0, Fin 0), (Fin 2, Fin 0), (Fin 2, Fin 1)]))" by (simp add: segs)
  from path_pose_at_distance [OF taxi_ok ps this, of "\<lambda>_ _. Fin 0" "5/2"] show ?thesis unfolding segs by blast
qed

text \<open>A path that goes to and fro ends on its first leg: at distance 2 of 3 it reports the end and not the middle.\<close>

definition patrol :: pyval where
  "patrol = PList [PList [PInt 0, PInt 0], PList [PInt 1, PInt 0], PList [PInt 0, PInt 0], PList [PInt 1, PInt 0]]"

lemma patrol_stops_early:
  "path_length plain_builtins taxi patrol = Inr (Fin 3)"
  "path_pose_at plain_builtins taxi (\<lambda>_ _. Fin 0) patrol (Fin 2) = Inr (Some ((Fin 1, Fin 0), Fin 0))"
  by code_simp+

section \<open>Postconditions\<close>

text \<open>A condition passes if it can be looked up and compared, and holds.\<close>

definition passes :: "py_builtins \<Rightarrow> (pyfloat list \<Rightarrow> pyfloat list \<Rightarrow> pyfloat) \<Rightarrow> pyval \<Rightarrow> pyval \<Rightarrow> bool" where
  "passes pb distn truth c \<longleftrightarrow>
     (\<exists>p actual. py_get c ''path'' = Inr p \<and> lookup_dotted truth (py_str pb p) = Inr actual
        \<and> compare_condition pb distn actual c = Inr True)"

text \<open>Every integer in a value rounds to a float.\<close>

fun fits :: "pyval \<Rightarrow> bool" where
  "fits (PInt i) = (\<bar>i\<bar> < FLOAT_LIMIT)"
| "fits (PList xs) = list_all fits xs"
| "fits (PDict d) = list_all (\<lambda>(k, v). fits v) d"
| "fits _ = True"

definition too_large :: exc where
  "too_large = OtherError ''int too large to convert to float''"

text \<open>An exception that the loop catches, or the one of an integer beyond the floats.\<close>

definition expected_error :: "bool \<Rightarrow> exc \<Rightarrow> bool" where
  "expected_error beyond e \<longleftrightarrow> caught e \<or> e = too_large \<and> beyond"

lemma caught_expected: "caught e \<Longrightarrow> expected_error b e"
  by (simp add: expected_error_def)

lemma fits_of_map: "fits (PDict d) \<Longrightarrow> map_of d k = Some x \<Longrightarrow> fits x"
  by (auto simp: list_all_iff dest!: map_of_SomeD)

lemma fits_lookup: "lookup_path dotted cs v = Inr x \<Longrightarrow> fits v \<Longrightarrow> fits x"
proof (induction cs arbitrary: v)
  case (Cons c cs)
  then show ?case by (cases v) (auto dest: fits_of_map split: option.splits simp del: fits.simps)
qed simp

lemma fits_items: "py_items v = Inr xs \<Longrightarrow> fits v \<Longrightarrow> list_all fits xs"
  by (auto simp: py_items_def list_all_iff split: pyval.splits)

lemma bind_Inl_iff: "bind r f = Inl e \<longleftrightarrow> r = Inl e \<or> (\<exists>x. r = Inr x \<and> f x = Inl e)"
  by (cases r) auto

text \<open>A computation raises only such exceptions; the rules follow the source's sequence of calls.\<close>

definition raises_only :: "bool \<Rightarrow> 'a res \<Rightarrow> bool" where
  "raises_only beyond r \<longleftrightarrow> (\<forall>e. r = Inl e \<longrightarrow> expected_error beyond e)"

lemma raises_Inr: "raises_only b (Inr x)"
  by (simp add: raises_only_def)

lemma raises_value: "raises_only b (Inl (ValueError m))"
  by (simp add: raises_only_def expected_error_def caught_def)

lemma raises_bind: "raises_only b r \<Longrightarrow> (\<And>x. r = Inr x \<Longrightarrow> raises_only b (f x)) \<Longrightarrow> raises_only b (bind r f)"
  by (auto simp: raises_only_def bind_Inl_iff)

lemma raises_if: "(c \<Longrightarrow> raises_only b r) \<Longrightarrow> (\<not> c \<Longrightarrow> raises_only b r') \<Longrightarrow> raises_only b (if c then r else r')"
  by simp

lemma raises_get: "raises_only b (py_get (PDict d) k)"
  by (auto simp: raises_only_def expected_error_def py_get_def caught_def split: option.splits)

lemma raises_default: "raises_only b (py_get_default (PDict d) k x)"
  by (auto simp: raises_only_def py_get_default_def split: option.splits)

lemma raises_float: "(\<not> fits v \<Longrightarrow> b) \<Longrightarrow> raises_only b (py_float pb v)"
  by (auto simp: raises_only_def py_float_def int_float_def caught_def expected_error_def too_large_def
      split: pyval.splits option.splits if_splits)

lemma raises_floats: "(\<not> list_all fits xs \<Longrightarrow> b) \<Longrightarrow> raises_only b (each (py_float pb) xs)"
proof (induction xs)
  case (Cons x xs)
  then show ?case by (auto intro!: raises_bind raises_float raises_Inr)
qed (simp add: raises_Inr)

lemma raises_items: "raises_only b (py_items v)"
  by (auto simp: raises_only_def expected_error_def py_items_def caught_def split: pyval.splits)

lemma raises_points:
  assumes "\<not> fits v \<Longrightarrow> b"
  shows "raises_only b (bind (py_items v) (each (py_float pb)))"
proof (rule raises_bind [OF raises_items raises_floats])
  fix xs
  assume "py_items v = Inr xs" "\<not> list_all fits xs"
  then show b using assms fits_items by blast
qed

lemma raises_set: "raises_only b (py_set v)"
  unfolding py_set_def
  by (intro raises_bind raises_items raises_if raises_Inr) (simp add: raises_only_def expected_error_def caught_def)

lemma raises_in: "raises_only b (py_in x v)"
  by (auto simp: raises_only_def expected_error_def py_in_def caught_def split: pyval.splits if_splits)

lemma raises_lookup: "raises_only b (lookup_path dotted cs v)"
  by (induction cs arbitrary: v) (auto simp: raises_only_def expected_error_def caught_def split: pyval.splits option.splits)

lemma py_get_fits: "py_get (PDict d) k = Inr x \<Longrightarrow> fits (PDict d) \<Longrightarrow> fits x"
  by (auto simp: py_get_def dest: fits_of_map split: option.splits simp del: fits.simps)

lemma default_fits: "py_get_default (PDict d) k PNone = Inr x \<Longrightarrow> fits (PDict d) \<Longrightarrow> fits x"
  by (auto simp: py_get_default_def simp del: fits.simps dest: fits_of_map split: option.splits) simp

lemma raises_compare:
  assumes "\<not> (fits actual \<and> fits (PDict d)) \<Longrightarrow> b"
  shows "raises_only b (compare_condition pb distn actual (PDict d))"
  unfolding compare_condition_def
  by (intro raises_bind raises_if raises_Inr raises_value raises_get raises_default raises_in raises_set raises_float raises_points)
    (use assms default_fits py_get_fits in blast)+

lemma check_condition_passes:
  "check_condition pb distn truth (PDict d) = Inr (passes pb distn truth (PDict d))
   \<or> check_condition pb distn truth (PDict d) = Inl too_large \<and> \<not> (fits truth \<and> fits (PDict d))"
proof (cases "bind (bind (py_get (PDict d) ''path'') (\<lambda>p. lookup_dotted truth (py_str pb p)))
                (\<lambda>actual. compare_condition pb distn actual (PDict d))")
  case (Inl e)
  let ?b = "\<not> (fits truth \<and> fits (PDict d))"
  have "raises_only ?b (bind (bind (py_get (PDict d) ''path'') (\<lambda>p. lookup_dotted truth (py_str pb p)))
          (\<lambda>actual. compare_condition pb distn actual (PDict d)))"
    unfolding lookup_dotted_def
  proof (intro raises_bind raises_get raises_lookup raises_compare)
    fix actual
    assume found: "bind (py_get (PDict d) ''path'')
        (\<lambda>p. lookup_path (py_str pb p) (py_split (CHR ''.'') (py_str pb p)) truth) = Inr actual"
      and beyond: "\<not> (fits actual \<and> fits (PDict d))"
    from found have "fits truth \<Longrightarrow> fits actual" by (auto simp: bind_Inr_iff intro: fits_lookup)
    then show ?b using beyond by blast
  qed
  then have "expected_error ?b e" using Inl by (simp add: raises_only_def)
  moreover have "\<not> passes pb distn truth (PDict d)" using Inl by (auto simp: passes_def bind_Inl_iff)
  ultimately show ?thesis using Inl by (auto simp: check_condition_def expected_error_def)
next
  case (Inr b)
  then show ?thesis by (auto simp: check_condition_def passes_def bind_Inr_iff)
qed

text \<open>C40: Conditions named by a string are scored, and only an integer that does not round to a float can make the scoring
  raise. Whatever the truth holds, either the names of the conditions that pass and of those that do not are reported in
  order, with success exactly when all pass, or the conversion of such an integer raised; and when no integer in the truth
  or in the conditions is that large (in magnitude at least two to the 1024 less two to the 970), it is the former.
\<close>

theorem evaluate_total:
  assumes "list_all (\<lambda>(d, name). py_get (PDict d) ''name'' = Inr (PStr name)) conditions"
    and "R = \<lparr>ev_success = list_all (\<lambda>(d, name). passes pb distn truth (PDict d)) conditions,
          ev_satisfied = map snd (filter (\<lambda>(d, name). passes pb distn truth (PDict d)) conditions),
          ev_failed = map snd (filter (\<lambda>(d, name). \<not> passes pb distn truth (PDict d)) conditions)\<rparr>"
  shows "(fits truth \<and> list_all (\<lambda>(d, name). fits (PDict d)) conditions \<longrightarrow>
            evaluate pb distn (map (PDict \<circ> fst) conditions) truth = Inr R)
     \<and> evaluate pb distn (map (PDict \<circ> fst) conditions) truth \<in> {Inr R, Inl too_large}"
proof -
  let ?p = "\<lambda>(d, name). passes pb distn truth (PDict d)"
  let ?R = "\<lambda>satisfied failed. \<lparr>ev_success = (failed = [] \<and> list_all ?p conditions),
      ev_satisfied = satisfied @ map snd (filter ?p conditions),
      ev_failed = failed @ map snd (filter (\<lambda>c. \<not> ?p c) conditions)\<rparr>"
  let ?fits = "fits truth \<and> list_all (\<lambda>(d, name). fits (PDict d)) conditions"
  have "evaluate_all pb distn truth (map (PDict \<circ> fst) conditions) satisfied failed = Inr (?R satisfied failed)
     \<or> evaluate_all pb distn truth (map (PDict \<circ> fst) conditions) satisfied failed = Inl too_large \<and> \<not> ?fits"
    for satisfied failed
    using assms(1)
  proof (induction conditions arbitrary: satisfied failed)
    case (Cons c cs)
    obtain d name where c: "c = (d, name)" by (cases c)
    show ?case
    proof (cases "check_condition pb distn truth (PDict d) = Inr (passes pb distn truth (PDict d))")
      case True
      then show ?thesis
        using Cons.prems Cons.IH [of "satisfied @ [name]" failed] Cons.IH [of satisfied "failed @ [name]"] c
        by (cases "passes pb distn truth (PDict d)") (auto simp: py_str_def simp del: fits.simps)
    next
      case False
      then have "check_condition pb distn truth (PDict d) = Inl too_large" "\<not> (fits truth \<and> fits (PDict d))"
        using check_condition_passes [of pb distn truth d] by blast+
      then show ?thesis using Cons.prems c by (auto simp del: fits.simps)
    qed
  qed simp
  from this [of "[]" "[]"] show ?thesis unfolding assms(2) evaluate_def by (auto simp: case_prod_unfold simp del: fits.simps)
qed

text \<open>The exception is real: such an integer in the truth ends the scoring.\<close>

lemma huge_integer_ends_scoring:
  "evaluate plain_builtins (\<lambda>_ _. Fin 0)
     [PDict [(''name'', PStr ''near''), (''path'', PStr ''x''), (''operator'', PStr ''less_than_or_equal''), (''value'', PInt 2)]]
     (PDict [(''x'', PInt FLOAT_LIMIT)]) = Inl too_large"
  by code_simp

lemma evaluate_total_witness:
  "evaluate plain_builtins (\<lambda>_ _. Fin 0)
     [PDict [(''name'', PStr ''near''), (''path'', PStr ''cup.x''), (''operator'', PStr ''less_than_or_equal''), (''value'', PInt 2)],
      PDict [(''name'', PStr ''held''), (''path'', PStr ''arm.held''), (''operator'', PStr ''equals''), (''value'', PBool True)]]
     (PDict [(''cup'', PDict [(''x'', PFloat (Fin (3/2)))])])
   = Inr \<lparr>ev_success = False, ev_satisfied = [''near''], ev_failed = [''held'']\<rparr>"
proof -
  let ?c1 = "[(''name'', PStr ''near''), (''path'', PStr ''cup.x''), (''operator'', PStr ''less_than_or_equal''), (''value'', PInt 2)]"
  let ?c2 = "[(''name'', PStr ''held''), (''path'', PStr ''arm.held''), (''operator'', PStr ''equals''), (''value'', PBool True)]"
  let ?truth = "PDict [(''cup'', PDict [(''x'', PFloat (Fin (3/2)))])]"
  have "check_condition plain_builtins (\<lambda>_ _. Fin 0) ?truth (PDict ?c1) = Inr True"
    "check_condition plain_builtins (\<lambda>_ _. Fin 0) ?truth (PDict ?c2) = Inr False" by code_simp+
  then have "passes plain_builtins (\<lambda>_ _. Fin 0) ?truth (PDict ?c1)" "\<not> passes plain_builtins (\<lambda>_ _. Fin 0) ?truth (PDict ?c2)"
    using check_condition_passes [of plain_builtins "\<lambda>_ _. Fin 0" ?truth] by (metis sum.inject(2) sum.simps(4))+
  moreover have "fits ?truth" "fits (PDict ?c1)" "fits (PDict ?c2)" by (simp_all add: FLOAT_LIMIT_def)
  ultimately show ?thesis
    using evaluate_total [where conditions = "[(?c1, ''near''), (?c2, ''held'')]" and pb = plain_builtins
        and distn = "\<lambda>_ _. Fin 0" and truth = ?truth, OF _ refl]
    by (simp add: py_get_def py_str_def del: fits.simps)
qed

section \<open>Rates\<close>

lemma checked_rate_bounds:
  assumes "checked_rate ft name s (Fin limit) lowest = Inr v"
  shows "\<exists>r. v = Fin r \<and> lowest \<le> r \<and> r \<le> limit \<and> 0 < r"
  using assms by (auto simp: checked_rate_def isfinite_iff not_le not_less split: option.splits if_splits)

lemma physics_rate_bounds:
  assumes "resolve_physics_hz ft (Fin d) override = Inr v" "30 \<le> d"
  shows "\<exists>p. v = Fin p \<and> 30 \<le> p \<and> p \<le> d"
  using assms by (auto simp: resolve_physics_hz_def MINIMUM_PHYSICS_HZ_def split: option.splits if_splits dest!: checked_rate_bounds)

lemma on_grid: "\<not> off_grid (Fin r) n \<longleftrightarrow> \<bar>r - of_int n\<bar> \<le> 1 / 10 ^ 9"
  by (auto simp: off_grid_def fabs_def abs_if not_less)

lemma control_rate_bounds:
  assumes "resolve_control_hz ft (Fin p) override = Inr v" "30 \<le> p"
  shows "\<exists>c. v = Fin c \<and> 30 \<le> c \<and> c \<le> p \<and> \<bar>p / c - of_int (round_even (p / c))\<bar> \<le> 1 / 10 ^ 9"
proof (cases "unset override")
  case True
  then have "v = Fin p" using assms(1) by (auto simp: resolve_control_hz_def unset_def split: option.splits)
  moreover have "p / p = of_int 1" using assms(2) by simp
  ultimately show ?thesis using assms(2) by (metis abs_zero diff_self order_refl round_even_int zero_le_divide_1_iff zero_le_numeral zero_le_power)
next
  case False
  then obtain s where "override = Some s" by (auto simp: unset_def split: option.splits)
  then obtain n where *: "checked_rate ft ''TINKER_SIM_CONTROL_HZ'' s (Fin p) MINIMUM_CONTROL_HZ = Inr v"
      "py_round (fdiv (Fin p) v) = Inr n" "\<not> off_grid (fdiv (Fin p) v) n"
    using assms(1) False by (auto simp: resolve_control_hz_def bind_Inr_iff Let_def split: if_splits)
  then obtain c where "v = Fin c" "30 \<le> c" "c \<le> p" using checked_rate_bounds by (fastforce simp: MINIMUM_CONTROL_HZ_def)
  with * show ?thesis by (simp add: py_round_def on_grid)
qed

lemma round_even_least: "1 \<le> x \<Longrightarrow> 1 \<le> round_even x"
proof -
  assume "1 \<le> x"
  then have "1 \<le> \<lfloor>x\<rfloor>" by (simp add: le_floor_iff)
  then show ?thesis by (simp add: round_even_def Let_def)
qed

text \<open>Rates that are accepted fit together: with a default of at least 30 Hz, the physics rate lies between 30 Hz and the default,
  the control rate between 30 Hz and the physics rate, and a control step is a positive whole number of physics
  steps, up to a billionth.
\<close>

theorem accepted_rates_divide:
  assumes "resolve_physics_hz ft (Fin d) physics_text = Inr physics" and "30 \<le> d"
    and "resolve_control_hz ft physics control_text = Inr control"
  shows "\<exists>p c n. physics = Fin p \<and> control = Fin c \<and> 30 \<le> c \<and> c \<le> p \<and> p \<le> d \<and> physics_substeps physics control = Inr n
                 \<and> 1 \<le> n \<and> \<bar>p / c - of_int n\<bar> \<le> 1 / 10 ^ 9"
proof -
  obtain p where p: "physics = Fin p" "30 \<le> p" "p \<le> d" using physics_rate_bounds [OF assms(1,2)] by blast
  obtain c where c: "control = Fin c" "30 \<le> c" "c \<le> p" "\<bar>p / c - of_int (round_even (p / c))\<bar> \<le> 1 / 10 ^ 9"
    using control_rate_bounds assms(3) p by blast
  then have "1 \<le> p / c" by simp
  then have "1 \<le> round_even (p / c)" by (rule round_even_least)
  moreover have "\<not> off_grid (Fin (p / c)) (round_even (p / c))" using c(4) by (simp only: on_grid)
  ultimately have "1 \<le> round_even (p / c)" "physics_substeps physics control = Inr (round_even (p / c))"
    using c p by (simp_all add: physics_substeps_def py_round_def)
  then show ?thesis using p c by blast
qed

lemma accepted_rates_divide_witness:
  "\<exists>n. physics_substeps (Fin 120) (Fin 60) = Inr n \<and> 1 \<le> n"
proof -
  let ?ft = "\<lambda>s. case int_token s of Inl _ \<Rightarrow> None | Inr i \<Rightarrow> Some (Fin (of_int i))"
  have "resolve_physics_hz ?ft (Fin 240) (Some ''120'') = Inr (Fin 120)"
    "resolve_control_hz ?ft (Fin 120) (Some '' 60 '') = Inr (Fin 60)" by code_simp+
  from accepted_rates_divide [OF this(1) _ this(2)] show ?thesis by auto
qed

end
