(* ===== verification/Scenario.thy ===== *)
theory Scenario
  imports Fixture_Contract Episode
begin

text \<open>
  Scenario declarations (\<open>scenario.py\<close>) and their compilation to operations (\<open>orchestration.py\<close>). A scenario file is
  read and parsed outside: \<open>raw\<close> is the JSON value, \<open>path\<close> the text of its path in messages. SHA-256 of canonical
  JSON, the files and the resolution of a path are arguments.
\<close>

section \<open>Helpers\<close>

text \<open>The first guard that fails raises; \<open>failed\<close> messages carry the path.\<close>

fun guards :: "string \<Rightarrow> (bool \<times> string) list \<Rightarrow> unit res" where
  "guards path [] = Inr ()"
| "guards path ((bad, message) # gs) =
     (if bad then Inl (ValueError (path @ '': '' @ message)) else guards path gs)"

definition is_dict :: "pyval \<Rightarrow> bool" where
  "is_dict v = (case v of PDict _ \<Rightarrow> True | _ \<Rightarrow> False)"

definition is_list :: "pyval \<Rightarrow> bool" where
  "is_list v = (case v of PList _ \<Rightarrow> True | _ \<Rightarrow> False)"

definition full_list :: "pyval \<Rightarrow> bool" where
  "full_list v = (case v of PList xs \<Rightarrow> xs \<noteq> [] | _ \<Rightarrow> False)"

definition full_string :: "pyval \<Rightarrow> bool" where
  "full_string v = (case v of PStr s \<Rightarrow> s \<noteq> [] | _ \<Rightarrow> False)"

definition has_key :: "pyval \<Rightarrow> string \<Rightarrow> bool" where
  "has_key v k = (case v of PDict d \<Rightarrow> k \<in> fst ` set d | _ \<Rightarrow> False)"

definition list_of :: "pyval \<Rightarrow> pyval list" where
  "list_of v = (case v of PList xs \<Rightarrow> xs | _ \<Rightarrow> [])"

definition get_or :: "pyval \<Rightarrow> string \<Rightarrow> pyval \<Rightarrow> pyval" where
  "get_or v k fallback = (case v of PDict d \<Rightarrow> (case map_of d k of None \<Rightarrow> fallback | Some x \<Rightarrow> x) | _ \<Rightarrow> fallback)"

definition py_repr :: "py_builtins \<Rightarrow> pyval \<Rightarrow> string" where
  "py_repr pb v = (case v of PStr s \<Rightarrow> repr_str s | _ \<Rightarrow> py_str pb v)"

section \<open>The planning scene\<close>

definition finite_number :: "py_builtins \<Rightarrow> string \<Rightarrow> pyval \<Rightarrow> pyfloat res" where
  "finite_number pb label item =
     (case item of
        PBool _ \<Rightarrow> Inl (ValueError (label @ '' entries must be finite numbers''))
      | _ \<Rightarrow> (case py_float pb item of
                Inl _ \<Rightarrow> Inl (ValueError (label @ '' entries must be numeric''))
              | Inr number \<Rightarrow> if \<not> isfinite number then Inl (ValueError (label @ '' entries must be finite'')) else Inr number))"

definition finite_numbers :: "py_builtins \<Rightarrow> pyval \<Rightarrow> nat \<Rightarrow> string \<Rightarrow> pyfloat list res" where
  "finite_numbers pb v n label =
     (case v of
        PList xs \<Rightarrow> if length xs \<noteq> n then Inl (ValueError (label @ '' must contain '' @ dec_nat n @ '' numbers''))
                    else each (finite_number pb label) xs
      | _ \<Rightarrow> Inl (ValueError (label @ '' must contain '' @ dec_nat n @ '' numbers'')))"

definition validate_fixture_pose :: "py_builtins \<Rightarrow> string \<Rightarrow> string \<Rightarrow> pyval \<Rightarrow> unit res" where
  "validate_fixture_pose pb path i rec =
     (let pose = field_of rec ''pose''
      in bind (guards path [(\<not> is_dict pose, ''fixture '' @ i @ '' requires a pose object'')]) (\<lambda>_.
         bind (finite_numbers pb (field_of pose ''xyz'') 3 (i @ ''.pose.xyz'')) (\<lambda>_.
         bind (finite_numbers pb (get_or pose ''quaternion_xyzw'' (PList [PFloat (Fin 0), PFloat (Fin 0), PFloat (Fin 0), PFloat (Fin 1)]))
                 4 (i @ ''.pose.quaternion_xyzw'')) (\<lambda>_. Inr ()))))"

definition primitive_arity :: "pyval \<Rightarrow> nat" where
  "primitive_arity t = (if t = PStr ''box'' then 3 else if t = PStr ''cylinder'' then 2 else 1)"

definition validate_primitive :: "py_builtins \<Rightarrow> string \<Rightarrow> string \<Rightarrow> pyval \<Rightarrow> unit res" where
  "validate_primitive pb path i primitive =
     bind (guards path [(\<not> is_dict primitive, ''fixture '' @ i @ '' primitive must be an object'')]) (\<lambda>_.
     bind (in_strings (field_of primitive ''type'') [''box'', ''cylinder'', ''sphere'']) (\<lambda>supported.
     bind (guards path [(\<not> supported, ''fixture '' @ i @ '' has unsupported primitive type'')]) (\<lambda>_.
     bind (finite_numbers pb (field_of primitive ''dimensions'') (primitive_arity (field_of primitive ''type''))
             (i @ ''.primitive.dimensions'')) (\<lambda>dimensions.
       guards path [(list_ex (\<lambda>v. fle v (Fin 0)) dimensions, ''fixture '' @ i @ '' primitive dimensions must be positive'')]))))"

text \<open>What the validation asks of the file system: the bytes of a file, if it is one, and their digest.\<close>

record asset_env =
  ae_files :: "string \<Rightarrow> string option"
  ae_sha256 :: "string \<Rightarrow> string"
  ae_project_root :: string

definition string_of :: "pyval \<Rightarrow> string" where
  "string_of v = (case v of PStr s \<Rightarrow> s | _ \<Rightarrow> [])"

definition asset_path :: "asset_env \<Rightarrow> string \<Rightarrow> string \<times> string list" where
  "asset_path ae uri = (if path_root uri \<noteq> [] then path_of uri else path_join (path_of (ae_project_root ae)) uri)"

definition validate_mesh_declaration :: "py_builtins \<Rightarrow> asset_env \<Rightarrow> string \<Rightarrow> string \<Rightarrow> pyval \<Rightarrow> unit res" where
  "validate_mesh_declaration pb ae path i mesh =
     (let uri = field_of mesh ''uri''; digest = field_of mesh ''sha256''; u = string_of uri;
          candidate = asset_path ae u; extension = py_lower (name_suffix (path_name candidate))
      in bind (guards path
             [(\<not> is_dict mesh, ''fixture '' @ i @ '' mesh must be an object''),
              (\<not> full_string uri \<or> py_contains ''..'' u, ''fixture '' @ i @ '' mesh uri must be a non-empty path without traversal''),
              (\<not> descriptor_ok digest, ''fixture '' @ i @ '' mesh sha256 must be a lowercase 64-hex digest'')]) (\<lambda>_.
         bind (if has_key mesh ''scale''
               then bind (finite_numbers pb (field_of mesh ''scale'') 3 (i @ ''.mesh.scale'')) (\<lambda>scale.
                      guards path [(list_ex (\<lambda>v. fle v (Fin 0)) scale, ''fixture '' @ i @ '' mesh scale must be positive'')])
               else Inr ()) (\<lambda>_.
           guards path
             [(ae_files ae (path_str candidate) = None, ''fixture '' @ i @ '' mesh asset not found: '' @ path_str candidate),
              (extension \<noteq> ''.stl'' \<and> extension \<noteq> ''.obj'',
               ''fixture '' @ i @ '' mesh format '' @ repr_str extension @ '' is not supported (supported: .stl, .obj)''),
              (map_option (ae_sha256 ae) (ae_files ae (path_str candidate)) \<noteq> Some (string_of digest),
               ''fixture '' @ i @ '' mesh sha256 mismatch'')])))"

definition validate_fixture_shape :: "py_builtins \<Rightarrow> asset_env \<Rightarrow> string \<Rightarrow> string \<Rightarrow> pyval \<Rightarrow> unit res" where
  "validate_fixture_shape pb ae path i rec =
     bind (guards path [(has_key rec ''primitive'' = has_key rec ''mesh'',
                         ''fixture '' @ i @ '' must declare exactly one of primitive or mesh'')]) (\<lambda>_.
       if has_key rec ''primitive'' then validate_primitive pb path i (field_of rec ''primitive'')
       else validate_mesh_declaration pb ae path i (field_of rec ''mesh''))"

definition validate_fixture :: "py_builtins \<Rightarrow> asset_env \<Rightarrow> string \<Rightarrow> pyval \<Rightarrow> string res" where
  "validate_fixture pb ae path rec =
     (let i = string_of (field_of rec ''id'')
      in bind (guards path
             [(\<not> is_dict rec, ''every planning_scene fixture must be an object''),
              (\<not> is_fixture i, ''fixture id must be prefixed '' @ repr_str FIXTURE_NAMESPACE_PREFIX)]) (\<lambda>_.
         bind (validate_fixture_pose pb path i rec) (\<lambda>_. bind (validate_fixture_shape pb ae path i rec) (\<lambda>_. Inr i))))"

definition enters_bodies :: "pyval \<Rightarrow> bool" where
  "enters_bodies rec = (field_of rec ''enter_collision_bodies'' = PBool True)"

definition flag_declared :: "string \<Rightarrow> pyval \<Rightarrow> py_builtins \<Rightarrow> unit res" where
  "flag_declared path rec pb =
     (let i = py_str pb (field_of rec ''id''); flag = field_of rec ''enter_collision_bodies''
      in guards path
           [(\<not> has_key rec ''enter_collision_bodies'', ''diagnostic '' @ i @ '' must declare enter_collision_bodies''),
            (\<not> (py_eq flag (PBool True) \<or> py_eq flag (PBool False)),
             ''diagnostic '' @ i @ '' enter_collision_bodies must be a boolean'')])"

definition validate_planning_scene :: "py_builtins \<Rightarrow> (pyval \<Rightarrow> string) \<Rightarrow> asset_env \<Rightarrow> string \<Rightarrow> pyval \<Rightarrow> unit res" where
  "validate_planning_scene pb digest ae path scene =
     (let rd = field_of scene ''revision_digest''; source = field_of scene ''target_source_id'';
          objects = field_of scene ''objects''; diagnostics = get_or scene ''diagnostic_objects'' (PList []);
          own = digest (PDict (case scene of PDict d \<Rightarrow> filter (\<lambda>(k, v). k \<noteq> ''revision_digest'') d | _ \<Rightarrow> []))
      in bind (guards path
             [(\<not> is_dict scene, ''planning_scene must be an object''),
              (\<not> full_string (field_of scene ''revision''), ''planning_scene.revision must be a non-empty string''),
              (\<not> py_eq (field_of scene ''frame_id'') (PStr ''base_link''), ''planning_scene.frame_id must be base_link''),
              (\<not> descriptor_ok rd, ''planning_scene.revision_digest must be a lowercase 64-hex digest''),
              (string_of rd \<noteq> own, ''planning_scene.revision_digest does not match the canonical digest''),
              (\<not> full_string source, ''planning_scene.target_source_id must be a non-empty string''),
              (\<not> py_eq (field_of scene ''target_handoff'') (PStr TARGET_HANDOFF),
               ''planning_scene.target_handoff must be '' @ repr_str TARGET_HANDOFF),
              (\<not> full_list objects, ''planning_scene.objects must be a non-empty array''),
              (\<not> is_list diagnostics, ''planning_scene.diagnostic_objects must be an array'')]) (\<lambda>_.
         bind (each (validate_fixture pb ae path) (list_of objects @ list_of diagnostics)) (\<lambda>ids.
         let body_ids = map (\<lambda>r. py_str pb (field_of r ''id'')) (list_of objects @ filter enters_bodies (list_of diagnostics))
         in bind (guards path
               [(\<not> distinct ids, ''sim_fixture ids must be unique''),
                (string_of source \<notin> set body_ids,
                 ''planning_scene.target_source_id must name a fixture that enters the collision-body set'')]) (\<lambda>_.
            bind (each (\<lambda>r. flag_declared path r pb) (list_of diagnostics)) (\<lambda>_. Inr ())))))"

section \<open>The integrated contract\<close>

definition json_number :: "pyval \<Rightarrow> bool" where
  "json_number v = (case v of PInt _ \<Rightarrow> True | PFloat _ \<Rightarrow> True | _ \<Rightarrow> False)"

definition number_or_nan :: "pyval \<Rightarrow> pyfloat" where
  "number_or_nan v = (case v of PInt i \<Rightarrow> Fin (of_int i) | PFloat f \<Rightarrow> f | _ \<Rightarrow> NaN)"

definition finite_list :: "string \<Rightarrow> string \<Rightarrow> nat option \<Rightarrow> pyval \<Rightarrow> unit res" where
  "finite_list path label len v =
     bind (guards path
        [(\<not> is_list v, label @ '' must be an array''),
         ((case len of None \<Rightarrow> False | Some n \<Rightarrow> length (list_of v) \<noteq> n),
          label @ '' must contain exactly '' @ (case len of None \<Rightarrow> [] | Some n \<Rightarrow> dec_nat n) @ '' numbers'')]) (\<lambda>_.
     bind (each (\<lambda>item. guards path
        [(\<not> json_number item, label @ '' entries must be finite numbers''),
         (\<not> isfinite (number_or_nan item), label @ '' entries must be finite'')]) (list_of v)) (\<lambda>_. Inr ()))"

definition validate_negative :: "string \<Rightarrow> pyval \<Rightarrow> pyval \<Rightarrow> unit res" where
  "validate_negative path integrated negative =
     (let timeout = field_of integrated ''trigger_timeout_s''
      in guards path
           [(\<not> is_dict negative, ''integrated.expected_negative must be an object or null''),
            (\<not> py_eq (field_of integrated ''race_policy'') (PStr ''bounded-observable-trigger''),
             ''integrated.race_policy must be '' @ repr_str ''bounded-observable-trigger'' @ '' when expected_negative is present''),
            (\<not> json_number timeout \<or> \<not> isfinite (number_or_nan timeout) \<or> fle (number_or_nan timeout) (Fin 0),
             ''integrated.trigger_timeout_s must be a finite positive number''),
            (\<not> full_list (field_of integrated ''forbidden_after_terminal''),
             ''integrated.forbidden_after_terminal must be a non-empty array''),
            (\<not> full_list (field_of negative ''required''), ''integrated.expected_negative.required must be a non-empty array''),
            (\<not> full_list (field_of negative ''forbidden''), ''integrated.expected_negative.forbidden must be a non-empty array'')])"

definition validate_back :: "string \<Rightarrow> string \<Rightarrow> pyval \<Rightarrow> pyval \<Rightarrow> unit res" where
  "validate_back path scenario_id negative back =
     (if scenario_id = ''qualification-pick-place-malformed-back''
      then bind (finite_list path ''integrated.back_positions'' (Some 6) back) (\<lambda>_.
             guards path
               [(negative \<noteq> PNone \<and> \<not> list_ex (py_eq (PStr ''goal_rejected_pre_send'')) (list_of (field_of negative ''required'')),
                 ''malformed-back requires expected_negative.required to contain goal_rejected_pre_send'')])
      else finite_list path ''integrated.back_positions'' (Some 7) back)"

definition validate_integrated :: "string \<Rightarrow> string \<Rightarrow> pyval \<Rightarrow> unit res" where
  "validate_integrated path scenario_id integrated =
     (let stage = field_of integrated ''stage''; acceptance = field_of integrated ''acceptance'';
          polarity = field_of acceptance ''polarity''; negative = field_of integrated ''expected_negative'';
          goal = field_of integrated ''goal''; region = field_of goal ''place_region'';
          scene = field_of integrated ''expected_scene''; owned = field_of scene ''owned_ids'';
          back = field_of integrated ''back_positions''
      in bind (guards path
             [(\<not> is_dict integrated, ''integrated must be an object''),
              (\<not> py_eq (field_of integrated ''execution_profile'') (PStr ''sim_ompl''),
               ''integrated.execution_profile must be '' @ repr_str ''sim_ompl''),
              (stage \<notin> PStr ` {''C'', ''D'', ''E'', ''F''},
               ''integrated.stage must be one of '' @ repr_strs [''C'', ''D'', ''E'', ''F'']),
              (\<not> py_eq (field_of integrated ''authority'') (PStr ''physics_truth''),
               ''integrated.authority must be '' @ repr_str ''physics_truth''),
              (\<not> is_dict acceptance, ''integrated.acceptance must be an object''),
              (\<not> full_string polarity, ''integrated.acceptance.polarity must be a non-empty string''),
              (polarity = PStr ''positive'' \<and> negative \<noteq> PNone, ''positive polarity requires expected_negative to be null''),
              (polarity = PStr ''negative'' \<and> negative = PNone,
               ''negative polarity requires a complete expected_negative mapping'')]) (\<lambda>_.
         bind (if negative \<noteq> PNone then validate_negative path integrated negative else Inr ()) (\<lambda>_.
         bind (guards path
             [(\<not> is_dict goal, ''integrated.goal must be an object''),
              (\<not> full_string (field_of goal ''target_object_id''), ''integrated.goal.target_object_id must be a non-empty string''),
              (\<not> full_string (field_of goal ''target_source_id''), ''integrated.goal.target_source_id must be a non-empty string''),
              (region \<noteq> PNone \<and> \<not> full_string region, ''integrated.goal.place_region must be a non-empty string or null''),
              (has_key goal ''approach'' \<and> \<not> full_string (field_of goal ''approach''),
               ''integrated.goal.approach must be a non-empty string'')]) (\<lambda>_.
         bind (if has_key goal ''target_tcp_xyz''
               then finite_list path ''integrated.goal.target_tcp_xyz'' (Some 3) (field_of goal ''target_tcp_xyz'') else Inr ()) (\<lambda>_.
         bind (guards path
             [(\<not> is_dict scene, ''integrated.expected_scene must be an object''),
              (\<not> full_list owned \<or> \<not> list_all full_string (list_of owned),
               ''integrated.expected_scene.owned_ids must be a non-empty array of strings''),
              (\<not> is_list (field_of scene ''attached_ids''), ''integrated.expected_scene.attached_ids must be an array''),
              (\<not> full_string (field_of scene ''task_target_id''),
               ''integrated.expected_scene.task_target_id must be a non-empty string''),
              (\<not> is_list (field_of integrated ''expected_physical''), ''integrated.expected_physical must be an array'')]) (\<lambda>_.
         bind (if back \<noteq> PNone then validate_back path scenario_id negative back else Inr ()) (\<lambda>_.
           guards path
             [(\<not> is_list (field_of integrated ''forbidden_endpoints''), ''integrated.forbidden_endpoints must be an array''),
              (\<not> full_string (field_of integrated ''terminal_policy''),
               ''integrated.terminal_policy must be a non-empty string'')])))))))"

section \<open>Loading\<close>

type_synonym record_dict = "(string \<times> pyval) list"

record scenario =
  sc_id :: string
  sc_world :: record_dict
  sc_robot :: record_dict
  sc_actors :: "record_dict list"
  sc_objects :: "record_dict list"
  sc_regions :: "record_dict list"
  sc_events :: "record_dict list"
  sc_dialogue :: "record_dict list"
  sc_postconditions :: "record_dict list"
  sc_planning_scene :: "pyval option"
  sc_integrated :: "pyval option"
  sc_declaration :: "record_dict option"

definition mapping_field :: "string \<Rightarrow> pyval \<Rightarrow> string \<Rightarrow> record_dict res" where
  "mapping_field path raw key =
     (case field_of raw key of PDict d \<Rightarrow> Inr d | _ \<Rightarrow> Inl (ValueError (path @ '': '' @ key @ '' must be an object'')))"

definition dict_of :: "pyval \<Rightarrow> record_dict" where
  "dict_of v = (case v of PDict d \<Rightarrow> d | _ \<Rightarrow> [])"

definition records :: "string \<Rightarrow> pyval \<Rightarrow> string \<Rightarrow> bool \<Rightarrow> record_dict list res" where
  "records path raw key required =
     (let v = get_or raw key (PList [])
      in bind (guards path
           [(\<not> is_list v \<or> required \<and> list_of v = [], key @ '' must be an array'' @ (if required then '' and non-empty'' else [])),
            (\<not> list_all is_dict (list_of v), ''every '' @ key @ '' entry must be an object'')]) (\<lambda>_.
           Inr (map dict_of (list_of v))))"

definition rfield :: "record_dict \<Rightarrow> string \<Rightarrow> pyval" where
  "rfield r k = field_of (PDict r) k"

definition validate_ids :: "string \<Rightarrow> string \<times> record_dict list \<Rightarrow> unit res" where
  "validate_ids path = (\<lambda>(group, rs).
     guards path
       [(\<not> list_all (\<lambda>r. full_string (rfield r ''id'')) rs, ''every '' @ group @ '' record requires an id''),
        (\<not> distinct (map (\<lambda>r. rfield r ''id'') rs), ''duplicate '' @ group @ '' id'')])"

definition validate_event :: "py_builtins \<Rightarrow> string \<Rightarrow> record_dict list \<Rightarrow> record_dict \<Rightarrow> unit res" where
  "validate_event pb path actors event =
     (let timed = has_key (PDict event) ''at_sim_time''; actor = rfield event ''actor'';
          ids = map (\<lambda>r. py_str pb (rfield r ''id'')) actors
      in bind (guards path
           [(\<not> timed \<and> \<not> has_key (PDict event) ''trigger'', ''event requires at_sim_time or trigger'')]) (\<lambda>_.
         if \<not> py_eq (rfield event ''type'') (PStr ''actor_path_start'') then Inr ()
         else
           bind (guards path [(\<not> timed, ''actor_path_start event requires at_sim_time (trigger-keyed actor_path_start is not supported; ''
                   @ ''the driver has no way to wait on a trigger and would start the walk immediately)'')]) (\<lambda>_.
           bind (in_strings actor ids) (\<lambda>known.
           bind (guards path [(\<not> known, ''event names unknown actor: '' @ py_repr pb actor)]) (\<lambda>_.
             case find (\<lambda>r. PStr (py_str pb (rfield r ''id'')) = actor) actors of
               None \<Rightarrow> Inl (OtherError ''StopIteration'')
             | Some r \<Rightarrow> bind (validate_path pb (get_or (PDict r) ''path'' (PList []))) (\<lambda>_. Inr ()))))))"

definition validate_dialogue :: "string \<Rightarrow> record_dict \<Rightarrow> unit res" where
  "validate_dialogue path item =
     guards path (map (\<lambda>key. (\<not> has_key (PDict item) key, ''dialogue entry requires '' @ key)) [''endpoint'', ''actor'', ''outcome''])"

definition validate_identifiers :: "py_builtins \<Rightarrow> string \<Rightarrow> scenario \<Rightarrow> unit res" where
  "validate_identifiers pb path s =
     bind (each (validate_ids path) [(''actors'', sc_actors s), (''objects'', sc_objects s), (''regions'', sc_regions s)]) (\<lambda>_.
     bind (each (validate_event pb path (sc_actors s)) (sc_events s)) (\<lambda>_.
     bind (each (validate_dialogue path) (sc_dialogue s)) (\<lambda>_. Inr ())))"

definition unless_none :: "pyval \<Rightarrow> (pyval \<Rightarrow> unit res) \<Rightarrow> pyval option res" where
  "unless_none v check = (if v = PNone then Inr None else bind (check v) (\<lambda>_. Inr (Some v)))"

definition load_scenario :: "py_builtins \<Rightarrow> (pyval \<Rightarrow> string) \<Rightarrow> asset_env \<Rightarrow> string \<Rightarrow> pyval \<Rightarrow> scenario res" where
  "load_scenario pb digest ae path raw =
     bind (if is_dict raw then Inr () else Inl (OtherError ''no attribute get'')) (\<lambda>_.
     bind (guards path
        [(\<not> py_eq (field_of raw ''schema_version'') (PInt 2), ''scenario schema_version must be 2''),
         (\<not> full_string (field_of raw ''id''), ''scenario id must be a non-empty string'')]) (\<lambda>_.
     let i = string_of (field_of raw ''id'')
     in bind (mapping_field path raw ''world'') (\<lambda>world. bind (mapping_field path raw ''robot'') (\<lambda>robot.
        bind (unless_none (field_of raw ''planning_scene'') (validate_planning_scene pb digest ae path)) (\<lambda>scene.
        bind (unless_none (field_of raw ''integrated'') (validate_integrated path i)) (\<lambda>integrated.
        bind (records path raw ''actors'' False) (\<lambda>actors. bind (records path raw ''objects'' False) (\<lambda>objects.
        bind (records path raw ''regions'' False) (\<lambda>regions. bind (records path raw ''events'' False) (\<lambda>events.
        bind (records path raw ''dialogue'' False) (\<lambda>dialogue. bind (records path raw ''postconditions'' True) (\<lambda>postconditions.
        let s = \<lparr>sc_id = i, sc_world = world, sc_robot = robot, sc_actors = actors, sc_objects = objects, sc_regions = regions,
                 sc_events = events, sc_dialogue = dialogue, sc_postconditions = postconditions,
                 sc_planning_scene = scene, sc_integrated = integrated,
                 sc_declaration = Some (filter (\<lambda>(k, v). k \<noteq> ''id'' \<and> k \<noteq> ''seed'') (dict_of raw))\<rparr>
        in bind (validate_identifiers pb path s) (\<lambda>_. Inr s)))))))))))))"

text \<open>A named scenario: \<open>parsed\<close> gives the JSON value of its file, or nothing when there is none.\<close>

definition load_named_scenario :: "py_builtins \<Rightarrow> (pyval \<Rightarrow> string) \<Rightarrow> asset_env \<Rightarrow> string \<times> string list
    \<Rightarrow> (string \<Rightarrow> pyval res option) \<Rightarrow> string \<Rightarrow> scenario res" where
  "load_named_scenario pb digest ae root_path parsed name =
     (let path = path_str (fst root_path, snd root_path @ [''simulation'', ''scenarios'', name @ ''.json''])
      in if name = [] \<or> CHR ''/'' \<in> set name \<or> CHR 0x5C \<in> set name \<or> name = ''.'' \<or> name = ''..''
         then Inl (ValueError (''unsafe scenario name: '' @ repr_str name))
         else
           case parsed path of
             None \<Rightarrow> Inl (OtherError (''scenario not found: '' @ name))
           | Some raw \<Rightarrow>
               bind raw (\<lambda>v. bind (load_scenario pb digest ae path v) (\<lambda>s.
                 if sc_id s \<noteq> name then Inl (ValueError (path @ '': id does not match filename'')) else Inr s)))"

definition validate_world_selection :: "py_builtins \<Rightarrow> scenario \<Rightarrow> string option \<Rightarrow> string list res" where
  "validate_world_selection pb s arena_id =
     (let mode = get_or (PDict (sc_world s)) ''mode'' (PStr ''current''); declared = rfield (sc_world s) ''arena''
      in if py_eq mode (PStr ''current'')
         then (if arena_id = None \<and> (sc_objects s \<noteq> [] \<or> sc_actors s \<noteq> [])
               then Inr [sc_id s @ '': world mode '' @ repr_str ''current'' @ '' with no --arena spawns ''
                         @ dec_nat (length (sc_objects s) + length (sc_actors s))
                         @ '' entities onto a bare ground plane; pass --arena (or declare world mode '' @ repr_str ''arena''
                         @ '') if a furnished world was intended'']
               else Inr [])
         else
           bind (guards (sc_id s)
             [(\<not> py_eq mode (PStr ''arena''), ''unsupported world mode '' @ py_repr pb mode),
              (has_key (PDict (sc_world s)) ''uri'', ''world mode '' @ repr_str ''arena'' @ '' must not carry uri''),
              (\<not> full_string declared, ''world mode '' @ repr_str ''arena'' @ '' requires an arena id''),
              (arena_id = None, ''scenario requires arena '' @ repr_str (string_of declared) @ ''; launch with --arena''),
              (arena_id \<noteq> Some (string_of declared),
               ''scenario requires arena '' @ repr_str (string_of declared) @ '', launcher selected ''
               @ (case arena_id of None \<Rightarrow> ''None'' | Some a \<Rightarrow> repr_str a))]) (\<lambda>_. Inr []))"

section \<open>Compilation to operations\<close>

record scenario_operation =
  so_kind :: string
  so_payload :: record_dict

text \<open>\<open>root / value\<close> resolved to a file: \<open>resolve\<close> gives the text of the resolved path and whether it is a file.\<close>

definition resource_uri :: "(string \<times> string list \<Rightarrow> string \<times> bool) \<Rightarrow> string \<times> string list \<Rightarrow> string \<Rightarrow> string res" where
  "resource_uri resolve root_path v =
     (if py_contains ''://'' v then Inr v
      else
        let resolved = resolve (if path_root v \<noteq> [] then path_of v else path_join root_path v)
        in if \<not> snd resolved then Inl (OtherError (''scenario resource not found: '' @ fst resolved)) else Inr (fst resolved))"

definition spawn_operation :: "py_builtins \<Rightarrow> (string \<times> string list \<Rightarrow> string \<times> bool) \<Rightarrow> string \<times> string list \<Rightarrow> record_dict
    \<Rightarrow> scenario_operation res" where
  "spawn_operation pb resolve root_path r =
     (let i = rfield r ''id''; n = string_of i; asset = rfield r ''asset_uri''
      in if \<not> full_string i then Inl (ValueError ''every spawned entity requires a logical id'')
         else if CHR ''/'' \<in> set n \<or> CHR 0x5C \<in> set n
         then Inl (ValueError (''entity id is not a stable path component: '' @ repr_str n))
         else if \<not> full_string asset then Inl (ValueError (''entity '' @ repr_str n @ '' requires asset_uri''))
         else
           bind (Inr (get_or (PDict r) ''pose'' (PDict []))) (\<lambda>pose.
           bind (py_get_default pose ''xyz'' (PList [PFloat (Fin 0), PFloat (Fin 0), PFloat (Fin 0)])) (\<lambda>xyz.
           bind (py_get_default pose ''quaternion_xyzw''
                   (PList [PFloat (Fin 0), PFloat (Fin 0), PFloat (Fin 0), PFloat (Fin 1)])) (\<lambda>xyzw.
           bind (py_items xyz) (\<lambda>ps. bind (if length ps \<noteq> 3 then Inr [] else py_items xyzw) (\<lambda>qs.
             if length ps \<noteq> 3 \<or> length qs \<noteq> 4 then Inl (ValueError (''entity '' @ repr_str n @ '' has invalid pose''))
             else
               bind (resource_uri resolve root_path (string_of asset)) (\<lambda>uri.
               bind (py_get_default pose ''frame_id'' (PStr ''world'')) (\<lambda>frame.
               bind (each (py_float pb) ps) (\<lambda>pf. bind (each (py_float pb) qs) (\<lambda>qf.
                 Inr \<lparr>so_kind = ''spawn_entity'', so_payload =
                   [(''logical_id'', PStr n), (''name'', PStr (''/World/Scenario/'' @ n)), (''entity_namespace'', PStr ''Scenario''),
                    (''prim_path'', PStr (''/World/Scenario/'' @ n)), (''uri'', PStr uri), (''frame_id'', PStr (py_str pb frame)),
                    (''xyz'', floats pf), (''quaternion_xyzw'', floats qf)]\<rparr>))))))))))"

definition final_operation :: "scenario \<Rightarrow> int \<Rightarrow> scenario_operation" where
  "final_operation s seed =
     \<lparr>so_kind = ''set_simulation_state'', so_payload =
        [(''state'', PInt 1), (''boundary'', PStr ''PHYSICS_READY''), (''seed'', PInt seed)]
        @ (case sc_declaration s of None \<Rightarrow> []
           | Some d \<Rightarrow> [(''scenario'', PDict [(''id'', PStr (sc_id s)), (''seed'', PInt seed), (''declaration'', PDict d)])])
        @ (case sc_planning_scene s of None \<Rightarrow> [] | Some v \<Rightarrow> [(''planning_scene'', PDict (dict_of v))])
        @ (case sc_integrated s of None \<Rightarrow> [] | Some v \<Rightarrow> [(''integrated'', PDict (dict_of v))])\<rparr>"

definition boot_operations :: "(string \<times> string list \<Rightarrow> string \<times> bool) \<Rightarrow> string \<times> string list \<Rightarrow> scenario \<Rightarrow> bool
    \<Rightarrow> scenario_operation list res" where
  "boot_operations resolve root_path s spawn_while_playing =
     (let uri = rfield (sc_world s) ''uri''
      in if spawn_while_playing \<and> py_truthy uri
         then Inl (ValueError (''spawn_while_playing cannot load a world uri: world loads require a stopped timeline''))
         else
           bind (if py_truthy uri
                 then (case uri of
                         PStr u \<Rightarrow> bind (resource_uri resolve root_path u) (\<lambda>w.
                                    Inr [\<lparr>so_kind = ''load_world'', so_payload = [(''uri'', PStr w)]\<rparr>])
                       | _ \<Rightarrow> Inl (TypeError ''argument should be a str or an os.PathLike object''))
                 else if \<not> spawn_while_playing
                 then Inr [\<lparr>so_kind = ''reset_spawned'', so_payload = [(''scope'', PInt 4)]\<rparr>] else Inr []) (\<lambda>first.
             Inr (first @ (if \<not> spawn_while_playing
                  then [\<lparr>so_kind = ''set_simulation_state'',
                         so_payload = [(''state'', PInt 0), (''boundary'', PStr ''SPAWN_READY'')]\<rparr>] else []))))"

definition standard_operations :: "py_builtins \<Rightarrow> (string \<times> string list \<Rightarrow> string \<times> bool) \<Rightarrow> string \<times> string list
    \<Rightarrow> scenario \<Rightarrow> int \<Rightarrow> bool \<Rightarrow> scenario_operation list res" where
  "standard_operations pb resolve root_path s seed spawn_while_playing =
     (if seed < 0 \<or> seed > 2 ^ 64 - 1 then Inl (ValueError ''seed must fit uint64'')
      else bind (boot_operations resolve root_path s spawn_while_playing) (\<lambda>ops.
           bind (each (spawn_operation pb resolve root_path) (sc_actors s @ sc_objects s)) (\<lambda>spawns.
             Inr (ops @ spawns @ [final_operation s seed]))))"

end
