(* ===== verification/Report.thy ===== *)
theory Report
  imports Scenario
begin

text \<open>
  The canonical scenario report (\<open>integrated_readiness.py\<close>): its identities, its construction, its structural
  check and its validation against an expected contract.

  A JSON text is represented by the value it denotes: writing a value with sorted keys and reading it back
  gives \<open>sorted_keys\<close> of it. SHA-256 of the compact text of a value is the argument \<open>sha\<close>; reading a text is
  the argument \<open>loads\<close>, with \<open>None\<close> for a text that is not UTF-8 or not JSON. Messages leave out the text of the
  parser. \<open>ReportValidationError\<close> is a subclass of \<open>ValueError\<close> and is written as one.
\<close>

definition REPORT_SCHEMA_VERSION :: int where "REPORT_SCHEMA_VERSION = 1"
definition REPORT_REVISION :: string where "REPORT_REVISION = ''integrated-manipulation-v1''"
definition FINAL_SIMULATION_STATE :: string where "FINAL_SIMULATION_STATE = ''STATE_PLAYING''"
definition PHYSICS_READY_BOUNDARY :: string where "PHYSICS_READY_BOUNDARY = ''PHYSICS_READY''"
definition SIMULATION_STATE_PLAYING :: int where "SIMULATION_STATE_PLAYING = 1"

definition REPORT_REQUIRED_TOP_LEVEL :: "string list" where
  "REPORT_REQUIRED_TOP_LEVEL =
     [''schema_version'', ''report_revision'', ''scenario'', ''planning_scene'', ''integrated'', ''identities'',
      ''operations'', ''final_simulation_state'']"

definition IDENTITIES_KEYS :: "string list" where
  "IDENTITIES_KEYS =
     [''scenario_id'', ''seed'', ''scenario_declaration_sha256'', ''planning_scene_sha256'', ''integrated_sha256'',
      ''model_fingerprint'', ''provider_manifest_sha256'']"

definition PLANNING_SCENE_REPORT_KEYS :: "string list" where
  "PLANNING_SCENE_REPORT_KEYS = [''revision'', ''owned_ids'', ''target_source_id'', ''target_handoff'']"

section \<open>Canonical JSON\<close>

primrec sorted_keys :: "pyval \<Rightarrow> pyval" where
  "sorted_keys PNone = PNone"
| "sorted_keys (PBool b) = PBool b"
| "sorted_keys (PInt i) = PInt i"
| "sorted_keys (PFloat x) = PFloat x"
| "sorted_keys (PStr s) = PStr s"
| "sorted_keys (PList xs) = PList (map sorted_keys xs)"
| "sorted_keys (PDict d) = PDict (sort_key fst (map (map_prod id sorted_keys) d))"

definition sha256_json :: "(pyval \<Rightarrow> string) \<Rightarrow> pyval \<Rightarrow> string" where
  "sha256_json sha v = sha (sorted_keys v)"

text \<open>\<open>{**d, **e}\<close>.\<close>

definition dict_merge :: "record_dict \<Rightarrow> record_dict \<Rightarrow> record_dict" where
  "dict_merge d e = foldl (\<lambda>d (k, v). dict_set k v d) d e"

section \<open>Identities and construction\<close>

definition public_integrated_mapping :: "string \<Rightarrow> pyval" where
  "public_integrated_mapping execution_profile = PDict [(''execution_profile'', PStr execution_profile)]"

definition scenario_mapping :: "string \<Rightarrow> int \<Rightarrow> record_dict \<Rightarrow> pyval" where
  "scenario_mapping scenario_id seed declaration =
     PDict [(''id'', PStr scenario_id), (''seed'', PInt seed), (''declaration'', PDict declaration)]"

definition planning_scene_mapping :: "py_builtins \<Rightarrow> pyval \<Rightarrow> pyval res" where
  "planning_scene_mapping pb scene =
     bind (str_field pb scene ''revision'') (\<lambda>revision. bind (fixture_owned_ids pb scene) (\<lambda>owned.
     bind (str_field pb scene ''target_source_id'') (\<lambda>source. bind (str_field pb scene ''target_handoff'') (\<lambda>handoff.
       Inr (PDict [(''revision'', PStr revision), (''owned_ids'', PList (map PStr owned)),
                   (''target_source_id'', PStr source), (''target_handoff'', PStr handoff)])))))"

definition planning_scene_digest :: "(pyval \<Rightarrow> string) \<Rightarrow> record_dict \<Rightarrow> string" where
  "planning_scene_digest sha scene = sha256_json sha (PDict (filter (\<lambda>(k, v). k \<noteq> ''revision_digest'') scene))"

definition report_identities :: "py_builtins \<Rightarrow> (pyval \<Rightarrow> string) \<Rightarrow> string \<Rightarrow> int \<Rightarrow> record_dict \<Rightarrow> pyval
    \<Rightarrow> record_dict \<Rightarrow> string \<Rightarrow> string \<Rightarrow> record_dict res" where
  "report_identities pb sha scenario_id seed declaration scene integrated fingerprint manifest =
     bind (planning_scene_mapping pb scene) (\<lambda>plan.
       Inr [(''scenario_id'', PStr scenario_id), (''seed'', PInt seed),
            (''scenario_declaration_sha256'', PStr (sha256_json sha (scenario_mapping scenario_id seed declaration))),
            (''planning_scene_sha256'', PStr (sha256_json sha plan)),
            (''integrated_sha256'', PStr (sha256_json sha (PDict integrated))),
            (''model_fingerprint'', PStr fingerprint), (''provider_manifest_sha256'', PStr manifest)])"

definition closing_operation :: "record_dict \<Rightarrow> record_dict" where
  "closing_operation identities =
     dict_merge [(''operation'', PStr ''set_simulation_state''), (''accepted'', PBool True),
                 (''state'', PInt SIMULATION_STATE_PLAYING), (''boundary'', PStr PHYSICS_READY_BOUNDARY)] identities"

definition build_canonical_report :: "py_builtins \<Rightarrow> (pyval \<Rightarrow> string) \<Rightarrow> string \<Rightarrow> int \<Rightarrow> record_dict \<Rightarrow> pyval
    \<Rightarrow> record_dict \<Rightarrow> record_dict list \<Rightarrow> string \<Rightarrow> string \<Rightarrow> string \<Rightarrow> pyval res" where
  "build_canonical_report pb sha scenario_id seed declaration scene integrated operations fingerprint manifest state =
     bind (report_identities pb sha scenario_id seed declaration scene integrated fingerprint manifest) (\<lambda>identities.
     bind (planning_scene_mapping pb scene) (\<lambda>plan.
     let listed = (if operations \<noteq> [] then butlast operations @ [dict_merge (last operations) identities]
                   else [closing_operation identities])
     in Inr (PDict [(''schema_version'', PInt REPORT_SCHEMA_VERSION), (''report_revision'', PStr REPORT_REVISION),
               (''scenario'', scenario_mapping scenario_id seed declaration), (''planning_scene'', plan),
               (''integrated'', PDict integrated), (''identities'', PDict identities),
               (''operations'', PList (map PDict listed)), (''final_simulation_state'', PStr state)])))"

section \<open>The structural check\<close>

definition key_list :: "pyval \<Rightarrow> string list" where
  "key_list v = (case v of PDict d \<Rightarrow> map fst d | _ \<Rightarrow> [])"

definition missing_keys :: "string list \<Rightarrow> pyval \<Rightarrow> string list" where
  "missing_keys required v = sort (filter (\<lambda>k. \<not> has_key v k) required)"

fun report_guards :: "(bool \<times> string) list \<Rightarrow> unit res" where
  "report_guards [] = Inr ()"
| "report_guards ((bad, message) # gs) = (if bad then Inl (ValueError message) else report_guards gs)"

definition check_report :: "py_builtins \<Rightarrow> pyval \<Rightarrow> pyval res" where
  "check_report pb report =
     (let scene = field_of report ''planning_scene''; integrated = field_of report ''integrated'';
          identities = field_of report ''identities'';
          missing = missing_keys REPORT_REQUIRED_TOP_LEVEL report; missing_ids = missing_keys IDENTITIES_KEYS identities
      in bind (report_guards
         [(\<not> is_dict report, ''report must contain a JSON object''),
          (missing \<noteq> [], ''report missing required fields '' @ repr_strs missing),
          (\<not> py_eq (field_of report ''schema_version'') (PInt REPORT_SCHEMA_VERSION),
           ''unsupported report schema_version '' @ py_str pb (field_of report ''schema_version'')),
          (\<not> py_eq (field_of report ''report_revision'') (PStr REPORT_REVISION),
           ''unexpected report_revision '' @ py_repr pb (field_of report ''report_revision'')),
          (\<not> is_dict (field_of report ''scenario'') \<or> \<not> is_dict scene, ''report scenario/planning_scene must be objects''),
          (\<not> is_dict integrated \<or> \<not> is_dict identities, ''report integrated/identities must be objects''),
          (missing_ids \<noteq> [], ''report identities missing '' @ repr_strs missing_ids),
          (\<not> full_list (field_of report ''operations''), ''report operations must be a nonempty array''),
          (\<not> py_eq (field_of report ''final_simulation_state'') (PStr FINAL_SIMULATION_STATE),
           ''report final_simulation_state must be '' @ FINAL_SIMULATION_STATE),
          (set (key_list scene) \<noteq> set PLANNING_SCENE_REPORT_KEYS,
           ''report planning_scene keys '' @ repr_strs (sort (key_list scene)) @ '' != ''
           @ repr_strs (sort PLANNING_SCENE_REPORT_KEYS)),
          (set (key_list integrated) \<noteq> {''execution_profile''},
           ''report integrated keys '' @ repr_strs (sort (key_list integrated)) @ '' != {'' @ repr_str ''execution_profile'' @ ''}''),
          (case field_of integrated ''execution_profile'' of PStr _ \<Rightarrow> False | _ \<Rightarrow> True,
           ''report integrated execution_profile must be a string'')]) (\<lambda>_. Inr report))"

definition parse_canonical_report :: "py_builtins \<Rightarrow> (string \<Rightarrow> pyval option) \<Rightarrow> string \<Rightarrow> pyval res" where
  "parse_canonical_report pb loads data =
     (case loads data of None \<Rightarrow> Inl (ValueError ''report is not valid JSON'') | Some report \<Rightarrow> check_report pb report)"

section \<open>Validation\<close>

text \<open>
  The contract a report is compared with. \<open>ec_owned\<close> is the list of ids or a JSON text of one;
  \<open>ec_public\<close> and \<open>ec_integrated\<close> are absent when the key is.
\<close>

record expected_contract =
  ec_scenario_id :: string
  ec_seed :: int
  ec_declaration :: string
  ec_revision :: string
  ec_revision_digest :: string
  ec_owned :: pyval
  ec_source :: string
  ec_handoff :: string
  ec_public :: "pyval option"
  ec_integrated :: "pyval option"
  ec_fingerprint :: string
  ec_manifest :: string

definition only_strings :: "pyval list \<Rightarrow> string list" where
  "only_strings xs = concat (map (\<lambda>v. case v of PStr s \<Rightarrow> [s] | _ \<Rightarrow> []) xs)"

definition coerce_owned_ids :: "py_builtins \<Rightarrow> (string \<Rightarrow> pyval option) \<Rightarrow> pyval \<Rightarrow> string list" where
  "coerce_owned_ids pb loads v =
     (case v of
        PStr s \<Rightarrow> (case loads s of Some (PList xs) \<Rightarrow> only_strings xs | _ \<Rightarrow> [])
      | PList xs \<Rightarrow> map (py_str pb) xs
      | _ \<Rightarrow> [])"

definition expected_planning_scene_contract :: "py_builtins \<Rightarrow> (string \<Rightarrow> pyval option) \<Rightarrow> expected_contract \<Rightarrow> pyval" where
  "expected_planning_scene_contract pb loads expected =
     PDict [(''revision'', PStr (ec_revision expected)),
            (''owned_ids'', PList (map PStr (coerce_owned_ids pb loads (ec_owned expected)))),
            (''target_source_id'', PStr (ec_source expected)), (''target_handoff'', PStr (ec_handoff expected))]"

record validation =
  vr_ready :: bool
  vr_reasons :: "string list"
  vr_observed :: record_dict

definition final_operation_reasons :: "record_dict \<Rightarrow> pyval \<Rightarrow> string list" where
  "final_operation_reasons identities op =
     (if \<not> is_dict op then [''report final operation must be an object'']
      else
        unless (py_eq (field_of op ''operation'') (PStr ''set_simulation_state''))
          ''report final operation must be set_simulation_state''
        @ unless (field_of op ''accepted'' = PBool True) ''report final operation must be accepted''
        @ unless (py_eq (field_of op ''state'') (PInt SIMULATION_STATE_PLAYING))
            (''report final operation state must be '' @ dec_int SIMULATION_STATE_PLAYING)
        @ unless (py_eq (field_of op ''boundary'') (PStr PHYSICS_READY_BOUNDARY))
            (''report final operation boundary must be '' @ PHYSICS_READY_BOUNDARY)
        @ concat (map (\<lambda>key. unless (py_eq (field_of op key) (field_of (PDict identities) key))
                    (''report final operation identity '' @ repr_str key @ '' does not match'')) (sort IDENTITIES_KEYS)))"

definition contract_integrated :: "expected_contract \<Rightarrow> pyval option" where
  "contract_integrated expected = (case ec_public expected of Some v \<Rightarrow> Some v | None \<Rightarrow> ec_integrated expected)"

definition report_reasons :: "py_builtins \<Rightarrow> (pyval \<Rightarrow> string) \<Rightarrow> (string \<Rightarrow> pyval option) \<Rightarrow> expected_contract \<Rightarrow> pyval
    \<Rightarrow> string list" where
  "report_reasons pb sha loads expected parsed =
     (let scenario = field_of parsed ''scenario''; plan = field_of parsed ''planning_scene'';
          integrated = field_of parsed ''integrated''; identities = field_of parsed ''identities'';
          identity = field_of identities
      in unless (py_eq (field_of scenario ''id'') (PStr (ec_scenario_id expected)))
           (''report scenario id '' @ py_repr pb (field_of scenario ''id'') @ '' != expected '' @ repr_str (ec_scenario_id expected))
         @ unless (py_eq (field_of scenario ''seed'') (PInt (ec_seed expected)))
             (''report seed '' @ py_repr pb (field_of scenario ''seed'') @ '' != expected '' @ dec_int (ec_seed expected))
         @ unless (py_eq (identity ''scenario_declaration_sha256'') (PStr (ec_declaration expected)))
             ''report scenario_declaration_sha256 does not match expected''
         @ unless (py_eq (identity ''scenario_declaration_sha256'') (PStr (sha256_json sha scenario)))
             ''report scenario_declaration_sha256 does not match its mapping''
         @ unless (py_eq (identity ''planning_scene_sha256'') (PStr (sha256_json sha plan)))
             ''report planning_scene_sha256 does not match its mapping''
         @ unless (py_eq plan (expected_planning_scene_contract pb loads expected))
             ''report planning_scene mapping does not match expected''
         @ unless (py_eq (identity ''integrated_sha256'') (PStr (sha256_json sha integrated)))
             ''report integrated_sha256 does not match its mapping''
         @ unless (case contract_integrated expected of None \<Rightarrow> True | Some v \<Rightarrow> py_eq integrated v)
             ''report integrated mapping does not match expected''
         @ unless (py_eq (identity ''model_fingerprint'') (PStr (ec_fingerprint expected)))
             ''report model_fingerprint does not match expected''
         @ unless (py_eq (identity ''provider_manifest_sha256'') (PStr (ec_manifest expected)))
             ''report provider_manifest_sha256 does not match expected''
         @ final_operation_reasons (dict_of identities) (last (list_of (field_of parsed ''operations''))))"

definition validate_report :: "py_builtins \<Rightarrow> (pyval \<Rightarrow> string) \<Rightarrow> (string \<Rightarrow> pyval option) \<Rightarrow> pyval \<Rightarrow> expected_contract
    \<Rightarrow> validation" where
  "validate_report pb sha loads report expected =
     (case check_report pb (sorted_keys report) of
        Inl e \<Rightarrow> \<lparr>vr_ready = False, vr_reasons = [''report: '' @ exc_text e], vr_observed = []\<rparr>
      | Inr parsed \<Rightarrow>
          let reasons = report_reasons pb sha loads expected parsed; scenario = field_of parsed ''scenario''
          in \<lparr>vr_ready = (reasons = []), vr_reasons = reasons, vr_observed =
               [(''scenario_id'', field_of scenario ''id''), (''seed'', field_of scenario ''seed''),
                (''planning_scene'', field_of parsed ''planning_scene''), (''integrated'', field_of parsed ''integrated''),
                (''identities'', field_of parsed ''identities''),
                (''final_simulation_state'', field_of parsed ''final_simulation_state'')]\<rparr>)"

end
