(* ===== verification/Scenario_Runner.thy ===== *)
theory Scenario_Runner
  imports Report
begin

text \<open>
  The scenario runner (\<open>scenario_runner.py\<close>): the standard service calls with their retries, the execution of the
  compiled operations, the wait for the simulator's services, and the verification and report of a run.

  What the services answer is the argument \<open>world\<close>: the outcome of the n-th call. Clock readings and
  the messages that arrive during a spin are arguments. ROS node construction, logging and the parsing of
  command line arguments are left out.
\<close>

section \<open>Service calls\<close>

datatype request =
    Load_World string
  | Reset_Spawned
  | Spawn string string string string "pyfloat list" "pyfloat list"
  | Set_State int

fun srv_name :: "request \<Rightarrow> string" where
  "srv_name (Load_World _) = ''/load_world''"
| "srv_name Reset_Spawned = ''/reset_simulation''"
| "srv_name (Spawn _ _ _ _ _ _) = ''/spawn_entity''"
| "srv_name (Set_State _) = ''/set_simulation_state''"

text \<open>
  How a call goes on: the service is not found in time, the answer does not come in time, the future has
  no response, or a response with its result code, its message and the name of the entity.
\<close>

datatype call_outcome = Not_Found | Not_Answered | No_Response | Response int string string

definition RESULT_OK :: int where "RESULT_OK = 1"
definition STATE_STOPPED :: int where "STATE_STOPPED = 0"

record runner =
  rn_calls :: "request list"
  rn_events :: "(string \<times> bool) list"
  rn_stop_play :: bool

text \<open>A call fails for good, or in a way the caller may retry (\<open>_RetryableServiceError\<close>).\<close>

datatype call_result = Retryable string | Refused string | Answered string

definition call_service :: "(nat \<Rightarrow> call_outcome) \<Rightarrow> request \<Rightarrow> runner \<Rightarrow> runner \<times> call_result" where
  "call_service world request s =
     (s\<lparr>rn_calls := rn_calls s @ [request]\<rparr>,
      case world (length (rn_calls s)) of
        Not_Found \<Rightarrow> Retryable (''standard service unavailable: '' @ srv_name request)
      | Not_Answered \<Rightarrow> Retryable (''standard service timed out: '' @ srv_name request)
      | No_Response \<Rightarrow> Retryable (''standard service failed: '' @ srv_name request)
      | Response code message entity \<Rightarrow>
          if code \<noteq> RESULT_OK
          then Refused (srv_name request @ '' rejected operation ('' @ dec_int code @ ''): '' @ message)
          else Answered entity)"

text \<open>\<open>call\<close> outside the retry loops: every failure leaves as a \<open>RuntimeError\<close>.\<close>

definition call_once :: "(nat \<Rightarrow> call_outcome) \<Rightarrow> request \<Rightarrow> runner \<Rightarrow> runner \<times> string res" where
  "call_once world request s =
     (case call_service world request s of
        (s', Retryable m) \<Rightarrow> (s', Inl (RuntimeError m))
      | (s', Refused m) \<Rightarrow> (s', Inl (RuntimeError m))
      | (s', Answered entity) \<Rightarrow> (s', Inr entity))"

text \<open>\<open>_initial_reset\<close> and \<open>_call_state\<close>: at most \<open>attempts\<close> calls; \<open>left\<close> attempts remain.\<close>

fun retry :: "(nat \<Rightarrow> call_outcome) \<Rightarrow> string \<Rightarrow> nat \<Rightarrow> request \<Rightarrow> nat \<Rightarrow> runner \<Rightarrow> runner \<times> string res" where
  "retry world what attempts request 0 s = (s, Inl (OtherError ''no attempt''))"
| "retry world what attempts request (Suc left) s =
     (case call_service world request s of
        (s', Answered entity) \<Rightarrow> (s', Inr entity)
      | (s', Refused m) \<Rightarrow> (s', Inl (RuntimeError m))
      | (s', Retryable m) \<Rightarrow>
          if left = 0
          then (s', Inl (RuntimeError (what @ '' failed after '' @ dec_nat attempts @ '' attempts: '' @ m)))
          else retry world what attempts request left s')"

section \<open>Execution\<close>

definition py_int :: "pyval \<Rightarrow> int res" where
  "py_int v =
     (case v of
        PInt i \<Rightarrow> Inr i
      | PBool b \<Rightarrow> Inr (if b then 1 else 0)
      | PFloat (Fin r) \<Rightarrow> Inr (if 0 \<le> r then \<lfloor>r\<rfloor> else \<lceil>r\<rceil>)
      | PFloat NaN \<Rightarrow> Inl (ValueError ''cannot convert float NaN to integer'')
      | PFloat _ \<Rightarrow> Inl (OtherError ''cannot convert float infinity to integer'')
      | PStr t \<Rightarrow> int_token (py_strip t)
      | _ \<Rightarrow> Inl (TypeError ''int() argument must be a string or a number''))"

definition unpacked :: "py_builtins \<Rightarrow> nat \<Rightarrow> pyval \<Rightarrow> pyfloat list res" where
  "unpacked pb n v =
     bind (py_items v) (\<lambda>xs. if length xs \<noteq> n then Inl (ValueError ''wrong number of values to unpack'')
                             else each (py_float pb) xs)"

definition spawn_request :: "py_builtins \<Rightarrow> record_dict \<Rightarrow> request res" where
  "spawn_request pb payload =
     (let text = str_field pb (PDict payload)
      in bind (text ''name'') (\<lambda>n. bind (text ''uri'') (\<lambda>uri. bind (text ''entity_namespace'') (\<lambda>ns.
         bind (text ''frame_id'') (\<lambda>frame.
         bind (py_get (PDict payload) ''xyz'') (\<lambda>p. bind (py_get (PDict payload) ''quaternion_xyzw'') (\<lambda>q.
         bind (unpacked pb 3 p) (\<lambda>xyz. bind (unpacked pb 4 q) (\<lambda>xyzw. Inr (Spawn n uri ns frame xyz xyzw)))))))))) "

definition execute_spawn :: "py_builtins \<Rightarrow> (nat \<Rightarrow> call_outcome) \<Rightarrow> record_dict \<Rightarrow> runner \<Rightarrow> runner \<times> unit res" where
  "execute_spawn pb world payload s =
     (case spawn_request pb payload of
        Inl e \<Rightarrow> (s, Inl e)
      | Inr request \<Rightarrow>
          (case call_once world request s of
             (s', Inl e) \<Rightarrow> (s', Inl e)
           | (s', Inr actual) \<Rightarrow>
               (case str_field pb (PDict payload) ''prim_path'' of
                  Inl e \<Rightarrow> (s', Inl e)
                | Inr expected \<Rightarrow>
                    if actual \<noteq> [] \<and> actual \<noteq> expected
                    then (s', Inl (RuntimeError (''spawned entity path changed from '' @ expected @ '' to '' @ actual)))
                    else (s'\<lparr>rn_events := rn_events s' @ [(expected, rn_stop_play s')]\<rparr>, Inr ()))))"

definition execute_state :: "py_builtins \<Rightarrow> (nat \<Rightarrow> call_outcome) \<Rightarrow> nat \<Rightarrow> record_dict \<Rightarrow> runner \<Rightarrow> runner \<times> unit res" where
  "execute_state pb world attempts payload s =
     (case bind (py_get (PDict payload) ''state'') py_int of
        Inl e \<Rightarrow> (s, Inl e)
      | Inr state \<Rightarrow>
          if state \<notin> {STATE_STOPPED, SIMULATION_STATE_PLAYING}
          then (s, Inl (RuntimeError (''unsupported scenario simulation state: '' @ dec_int state)))
          else
            (case retry world ''set_simulation_state'' attempts (Set_State state) attempts s of
               (s', Inl e) \<Rightarrow> (s', Inl e)
             | (s', Inr _) \<Rightarrow>
                 let boundary = py_str pb (get_or (PDict payload) ''boundary'' (PStr []))
                 in (if boundary = ''SPAWN_READY'' then s'\<lparr>rn_stop_play := True\<rparr>
                     else if boundary = ''PHYSICS_READY'' then s'\<lparr>rn_stop_play := False\<rparr> else s', Inr ())))"

definition operation_result :: "py_builtins \<Rightarrow> scenario_operation \<Rightarrow> record_dict res" where
  "operation_result pb op =
     (let base = [(''operation'', PStr (so_kind op)), (''accepted'', PBool True)]; payload = PDict (so_payload op)
      in if so_kind op = ''set_simulation_state''
         then bind (bind (py_get payload ''state'') py_int) (\<lambda>state.
                Inr (base @ [(''state'', PInt state)]
                     @ (if has_key payload ''boundary'' then [(''boundary'', PStr (py_str pb (field_of payload ''boundary'')))] else [])))
         else if so_kind op = ''spawn_entity''
         then bind (str_field pb payload ''logical_id'') (\<lambda>i. bind (str_field pb payload ''prim_path'') (\<lambda>p.
                Inr (base @ [(''logical_id'', PStr i), (''prim_path'', PStr p)])))
         else Inr base)"

definition execute_operation :: "py_builtins \<Rightarrow> (nat \<Rightarrow> call_outcome) \<Rightarrow> nat \<Rightarrow> nat \<Rightarrow> scenario_operation \<Rightarrow> runner
    \<Rightarrow> runner \<times> unit res" where
  "execute_operation pb world attempts index op s =
     (let simple = (\<lambda>(s', r). (s', map_sum id (\<lambda>_. ()) r))
      in if so_kind op = ''load_world''
         then (case str_field pb (PDict (so_payload op)) ''uri'' of
                 Inl e \<Rightarrow> (s, Inl e) | Inr uri \<Rightarrow> simple (call_once world (Load_World uri) s))
         else if so_kind op = ''reset_spawned''
         then simple (if index = 0 then retry world ''initial reset'' attempts Reset_Spawned attempts s
                      else call_once world Reset_Spawned s)
         else if so_kind op = ''spawn_entity'' then execute_spawn pb world (so_payload op) s
         else if so_kind op = ''set_simulation_state'' then execute_state pb world attempts (so_payload op) s
         else (s, Inl (RuntimeError (''unsupported standard operation: '' @ so_kind op))))"

fun execute_from :: "py_builtins \<Rightarrow> (nat \<Rightarrow> call_outcome) \<Rightarrow> nat \<Rightarrow> nat \<Rightarrow> scenario_operation list \<Rightarrow> runner
    \<Rightarrow> runner \<times> record_dict list res" where
  "execute_from pb world attempts index [] s = (s, Inr [])"
| "execute_from pb world attempts index (op # ops) s =
     (case execute_operation pb world attempts index op s of
        (s', Inl e) \<Rightarrow> (s', Inl e)
      | (s', Inr _) \<Rightarrow>
          (case operation_result pb op of
             Inl e \<Rightarrow> (s', Inl e)
           | Inr r \<Rightarrow>
               (case execute_from pb world attempts (index + 1) ops s' of
                  (s'', Inl e) \<Rightarrow> (s'', Inl e)
                | (s'', Inr rs) \<Rightarrow> (s'', Inr (r # rs)))))"

definition runner_new :: runner where
  "runner_new = \<lparr>rn_calls = [], rn_events = [], rn_stop_play = False\<rparr>"

definition execute :: "py_builtins \<Rightarrow> (nat \<Rightarrow> call_outcome) \<Rightarrow> nat \<Rightarrow> scenario_operation list \<Rightarrow> runner
    \<Rightarrow> runner \<times> record_dict list res" where
  "execute pb world attempts ops s = execute_from pb world attempts 0 ops (s\<lparr>rn_stop_play := False\<rparr>)"

text \<open>The arguments the constructor accepts.\<close>

definition runner_parameters :: "pyfloat \<Rightarrow> int \<Rightarrow> pyfloat \<Rightarrow> nat res" where
  "runner_parameters timeout_s reset_attempts delay =
     (if fle timeout_s (Fin 0) then Inl (ValueError ''timeout must be positive'')
      else if reset_attempts < 1 then Inl (ValueError ''reset attempts must be at least one'')
      else if flt delay (Fin 0) then Inl (ValueError ''reset retry delay must not be negative'')
      else Inr (nat reset_attempts))"

section \<open>Waiting for the services\<close>

definition SERVICES_READY_TIMEOUT_S :: rat where "SERVICES_READY_TIMEOUT_S = 300"
definition SERVICES_READY_GRACE_S :: rat where "SERVICES_READY_GRACE_S = 10"

record service_status =
  ss_seen :: bool
  ss_has_field :: bool
  ss_ready :: bool

text \<open>
  The subscription callback: \<open>loads\<close> reads the message, \<open>None\<close> if it is no JSON. The test for the field
  accepts texts and lists as well, on which \<open>get\<close> then raises.
\<close>

definition contains_field :: "pyval \<Rightarrow> string \<Rightarrow> bool res" where
  "contains_field v field =
     (case v of PDict d \<Rightarrow> Inr (field \<in> fst ` set d) | PList xs \<Rightarrow> Inr (list_ex (py_eq (PStr field)) xs)
      | PStr s \<Rightarrow> Inr (py_contains field s) | _ \<Rightarrow> Inl (TypeError ''argument is not iterable''))"

definition on_status :: "(string \<Rightarrow> pyval option) \<Rightarrow> string \<Rightarrow> service_status \<Rightarrow> service_status res" where
  "on_status loads message s =
     (case loads message of
        None \<Rightarrow> Inr s
      | Some payload \<Rightarrow>
          bind (contains_field payload ''services_ready'') (\<lambda>present.
            if \<not> present then Inr (s\<lparr>ss_seen := True\<rparr>)
            else bind (py_get_default payload ''services_ready'' PNone) (\<lambda>ready.
                   Inr (s\<lparr>ss_seen := True, ss_has_field := True, ss_ready := ss_ready s \<or> py_truthy ready\<rparr>))))"

text \<open>One turn of a wait: the clock before the spin, and the messages that arrive during it.\<close>

type_synonym turn = "pyfloat \<times> string list"

fun on_messages :: "(string \<Rightarrow> pyval option) \<Rightarrow> string list \<Rightarrow> service_status \<Rightarrow> service_status res" where
  "on_messages loads [] s = Inr s"
| "on_messages loads (m # ms) s = bind (on_status loads m s) (on_messages loads ms)"

text \<open>
  \<open>while not done(status) and now() < deadline: spin\<close>. The result is the status and the turns that are
  left, or nothing when the turns run out first.
\<close>

fun spin_until :: "(string \<Rightarrow> pyval option) \<Rightarrow> (service_status \<Rightarrow> bool) \<Rightarrow> pyfloat \<Rightarrow> turn list \<Rightarrow> service_status
    \<Rightarrow> (service_status \<times> turn list) option res" where
  "spin_until loads done deadline [] s = (if done s then Inr (Some (s, [])) else Inr None)"
| "spin_until loads done deadline ((now, ms) # ts) s =
     (if done s then Inr (Some (s, (now, ms) # ts))
      else if \<not> flt now deadline then Inr (Some (s, ts))
      else bind (on_messages loads ms s) (spin_until loads done deadline ts))"

definition wait_for_services_ready :: "(string \<Rightarrow> pyval option) \<Rightarrow> rat \<Rightarrow> rat \<Rightarrow> pyfloat \<Rightarrow> pyfloat \<Rightarrow> turn list
    \<Rightarrow> unit option res" where
  "wait_for_services_ready loads timeout_s grace_s start second turns =
     bind (spin_until loads ss_seen (fadd start (Fin grace_s)) turns
             \<lparr>ss_seen = False, ss_has_field = False, ss_ready = False\<rparr>) (\<lambda>r.
       case r of
         None \<Rightarrow> Inr None
       | Some (s, left) \<Rightarrow>
           if \<not> ss_seen s \<or> \<not> ss_has_field s \<or> ss_ready s then Inr (Some ())
           else bind (spin_until loads ss_ready (fadd second (Fin timeout_s)) left s) (\<lambda>r.
                  case r of
                    None \<Rightarrow> Inr None
                  | Some (s', _) \<Rightarrow>
                      if ss_ready s' then Inr (Some ())
                      else Inl (RuntimeError ''/sim/status/isaac never reported services_ready'')))"

section \<open>Verification and report\<close>

definition planned_end :: record_dict where
  "planned_end = [(''operation'', PStr ''set_simulation_state''), (''accepted'', PBool True), (''state'', PInt 1),
     (''boundary'', PStr ''PHYSICS_READY'')]"

text \<open>\<open>json.loads\<close> of the expected owned ids; a failure raises, and so does a value that cannot be iterated.\<close>

definition expected_owned :: "py_builtins \<Rightarrow> (string \<Rightarrow> pyval option) \<Rightarrow> pyval \<Rightarrow> string list res" where
  "expected_owned pb loads v =
     (case loads (py_str pb v) of
        None \<Rightarrow> Inl (ValueError ''Expecting value'')
      | Some w \<Rightarrow> bind (py_items w) (\<lambda>xs. Inr (map (py_str pb) xs)))"

definition verify_expected_values :: "py_builtins \<Rightarrow> (pyval \<Rightarrow> string) \<Rightarrow> (string \<Rightarrow> pyval option) \<Rightarrow> string \<Rightarrow> int
    \<Rightarrow> record_dict \<Rightarrow> record_dict \<Rightarrow> record_dict \<Rightarrow> expected_contract \<Rightarrow> string list res" where
  "verify_expected_values pb sha loads scenario_id seed declaration scene integrated expected =
     bind (build_canonical_report pb sha scenario_id seed declaration (PDict scene) integrated [planned_end]
             (ec_fingerprint expected) (ec_manifest expected) FINAL_SIMULATION_STATE) (\<lambda>report.
     let validation = validate_report pb sha loads report expected; actual = planning_scene_digest sha scene
     in bind (fixture_owned_ids pb (PDict scene)) (\<lambda>owned. bind (expected_owned pb loads (ec_owned expected)) (\<lambda>wanted.
          Inr (vr_reasons validation
               @ unless (actual = ec_revision_digest expected)
                   (''planning_scene digest '' @ repr_str actual @ '' != expected '' @ repr_str (ec_revision_digest expected))
               @ unless (owned = wanted)
                   (''planning_scene owned ids '' @ repr_strs owned @ '' != expected '' @ repr_strs wanted)))))"

definition build_scenario_report :: "py_builtins \<Rightarrow> (pyval \<Rightarrow> string) \<Rightarrow> string \<Rightarrow> int \<Rightarrow> record_dict \<Rightarrow> record_dict
    \<Rightarrow> record_dict \<Rightarrow> record_dict list \<Rightarrow> string \<Rightarrow> string \<Rightarrow> pyval res" where
  "build_scenario_report pb sha scenario_id seed declaration scene integrated operations fingerprint manifest =
     build_canonical_report pb sha scenario_id seed declaration (PDict scene) integrated operations fingerprint manifest
       FINAL_SIMULATION_STATE"

text \<open>
  The integrated path of \<open>main\<close>: the scenario has been loaded as \<open>s\<close> from the JSON value \<open>raw\<close>;
  \<open>manifest_digest\<close> is the digest of the provider manifest file, when one is given; \<open>ready\<close> is the outcome of the wait for the
  services. The result is the report that is written.
\<close>

definition run_integrated :: "py_builtins \<Rightarrow> (pyval \<Rightarrow> string) \<Rightarrow> (string \<Rightarrow> pyval option)
    \<Rightarrow> (string \<times> string list \<Rightarrow> string \<times> bool) \<Rightarrow> string \<times> string list \<Rightarrow> pyval \<Rightarrow> scenario \<Rightarrow> int \<Rightarrow> bool
    \<Rightarrow> record_dict \<Rightarrow> expected_contract \<Rightarrow> string option \<Rightarrow> unit res \<Rightarrow> (nat \<Rightarrow> call_outcome) \<Rightarrow> nat
    \<Rightarrow> runner \<times> pyval res" where
  "run_integrated pb sha loads resolve root_path raw s seed spawn_while_playing integrated expected manifest_digest ready
       world attempts =
     (let declaration = filter (\<lambda>(k, v). k \<noteq> ''id'' \<and> k \<noteq> ''seed'') (dict_of raw)
      in case sc_planning_scene s of
           None \<Rightarrow> (runner_new, Inl (RuntimeError ''canonical integrated report requires a planning_scene declaration''))
         | Some v \<Rightarrow>
             let scene = dict_of v
             in (case verify_expected_values pb sha loads (ec_scenario_id expected) seed declaration scene integrated expected of
                   Inl e \<Rightarrow> (runner_new, Inl e)
                 | Inr reasons \<Rightarrow>
                     if reasons \<noteq> []
                     then (runner_new, Inl (RuntimeError (''scenario identity mismatch: '' @ join_with ''; '' reasons)))
                     else if manifest_digest \<noteq> None \<and> manifest_digest \<noteq> Some (ec_manifest expected)
                     then (runner_new, Inl (RuntimeError ''provider manifest sha256 does not match bytes''))
                     else
                       (case bind (standard_operations pb resolve root_path s seed spawn_while_playing) (\<lambda>ops.
                                bind ready (\<lambda>_. Inr ops)) of
                          Inl e \<Rightarrow> (runner_new, Inl e)
                        | Inr ops \<Rightarrow>
                            (case execute pb world attempts ops runner_new of
                               (r, Inl e) \<Rightarrow> (r, Inl e)
                             | (r, Inr results) \<Rightarrow>
                                 (r, build_scenario_report pb sha (sc_id s) seed declaration scene integrated results
                                       (ec_fingerprint expected) (ec_manifest expected))))))"

end
