(* ===== verification/Physics_Gate.thy ===== *)
theory Physics_Gate
  imports Report
begin

text \<open>
  The gate behind the scenario runner (\<open>physics_ready_gate.py\<close>) and the process that waits for it
  (\<open>readiness_waiter.py\<close>). The bytes of the report file, reading JSON, SHA-256, the outcome of writing
  \<open>physics-ready.json\<close>, clock readings and what a service client shows are arguments. A status is the value
  that is serialised.
\<close>

section \<open>The gate\<close>

definition STATE_PENDING :: string where "STATE_PENDING = ''PHYSICS_PENDING''"
definition STATE_READY :: string where "STATE_READY = ''PHYSICS_READY''"
definition STATE_FAILED :: string where "STATE_FAILED = ''PHYSICS_FAILED''"

text \<open>The parameters of the node, as strings where they are strings.\<close>

record gate_parameters =
  gp_report_path :: string
  gp_ready_path :: string
  gp_period :: pyfloat
  gp_timeout :: pyfloat
  gp_scenario_id :: string
  gp_seed :: int
  gp_declaration :: string
  gp_revision :: string
  gp_revision_digest :: string
  gp_owned :: string
  gp_source :: string
  gp_handoff :: string
  gp_integrated :: string
  gp_public :: string
  gp_fingerprint :: string
  gp_manifest_path :: string
  gp_manifest :: string
  gp_contract_sha256 :: string

definition json_object :: "(string \<Rightarrow> pyval option) \<Rightarrow> string \<Rightarrow> string \<Rightarrow> pyval res" where
  "json_object loads label text =
     (case loads text of
        None \<Rightarrow> Inl (ValueError (label @ '' parameter is not valid JSON''))
      | Some v \<Rightarrow> if is_dict v then Inr v else Inl (ValueError (label @ '' parameter must be a JSON object'')))"

definition build_expected :: "(string \<Rightarrow> pyval option) \<Rightarrow> gate_parameters \<Rightarrow> expected_contract res" where
  "build_expected loads p =
     bind (json_object loads ''integrated_mapping'' (gp_integrated p)) (\<lambda>integrated.
     bind (if gp_public p \<noteq> [] \<and> py_strip (gp_public p) \<noteq> [] then json_object loads ''public_integrated_mapping'' (gp_public p)
           else Inr integrated) (\<lambda>public.
       Inr \<lparr>ec_scenario_id = gp_scenario_id p, ec_seed = gp_seed p, ec_declaration = gp_declaration p,
            ec_revision = gp_revision p, ec_revision_digest = gp_revision_digest p, ec_owned = PStr (gp_owned p),
            ec_source = gp_source p, ec_handoff = gp_handoff p, ec_public = Some public, ec_integrated = Some public,
            ec_fingerprint = gp_fingerprint p, ec_manifest = gp_manifest p\<rparr>))"

text \<open>
  The observation of the simulation state: what the client object shows at a tick is a \<open>state_view\<close>, with
  the state number of a response, minus one for a response without a state.
\<close>

datatype state_call = State_Waiting | State_Raised string | State_Reported int

record state_view =
  sw_importable :: bool
  sw_service_ready :: bool
  sw_call :: state_call

record state_service =
  st_started_at :: "pyfloat option"
  st_called :: bool
  st_succeeded :: bool
  st_error :: "string option"

record gate =
  pg_expected :: expected_contract
  pg_state :: string
  pg_fail_reason :: "string option"
  pg_sha256 :: "string option"
  pg_report :: "pyval option"
  pg_report_reasons :: "string list"
  pg_started :: pyfloat
  pg_timeout :: pyfloat
  pg_observed :: pyval
  pg_service :: state_service
  pg_manifest_path :: string
  pg_contract_sha256 :: string

definition gate_status :: "gate \<Rightarrow> pyfloat \<Rightarrow> pyval" where
  "gate_status g published_at =
     (let report = (case pg_report g of None \<Rightarrow> PDict [] | Some r \<Rightarrow> r)
      in PDict [(''schema_version'', PInt 1), (''state'', PStr (pg_state g)),
           (''scenario'', get_or report ''scenario'' (PDict [])), (''planning_scene'', get_or report ''planning_scene'' (PDict [])),
           (''integrated'', get_or report ''integrated'' (PDict [])), (''identities'', get_or report ''identities'' (PDict [])),
           (''final_simulation_state'', field_of report ''final_simulation_state''),
           (''provider_manifest_path'', PStr (pg_manifest_path g)),
           (''provider_manifest_sha256'', PStr (ec_manifest (pg_expected g))),
           (''runtime_contract_sha256'', PStr (pg_contract_sha256 g)),
           (''scenario_report_sha256'', (case pg_sha256 g of None \<Rightarrow> PNone | Some s \<Rightarrow> PStr s)),
           (''sim_state_observed'', pg_observed g), (''published_at'', PFloat published_at)])"

text \<open>The ready service: \<open>success\<close> and the status sent as message.\<close>

definition gate_on_ready :: "gate \<Rightarrow> pyfloat \<Rightarrow> bool \<times> pyval" where
  "gate_on_ready g published_at = (pg_state g = STATE_READY \<and> pg_report g \<noteq> None, gate_status g published_at)"

definition fail_gate :: "string \<Rightarrow> gate \<Rightarrow> gate" where
  "fail_gate reason g = g\<lparr>pg_fail_reason := Some reason, pg_state := STATE_FAILED\<rparr>"

text \<open>What a tick finds: the file, if it is one, the digest of its bytes, and the outcome of the write.\<close>

record report_file =
  rf_bytes :: "string option"
  rf_sha256 :: string
  rf_written :: "unit res"

definition parse_report :: "py_builtins \<Rightarrow> (pyval \<Rightarrow> string) \<Rightarrow> (string \<Rightarrow> pyval option) \<Rightarrow> report_file \<Rightarrow> gate
    \<Rightarrow> gate \<times> unit res" where
  "parse_report pb sha loads f g =
     (case rf_bytes f of
        None \<Rightarrow> (fail_gate ''scenario report not found'' g, Inr ())
      | Some data \<Rightarrow>
          let g1 = g\<lparr>pg_sha256 := Some (rf_sha256 f)\<rparr>
          in (case parse_canonical_report pb loads data of
                Inl e \<Rightarrow> (fail_gate (''scenario report parse failed: '' @ exc_text e) g1, Inr ())
              | Inr report \<Rightarrow>
                  let validation = validate_report pb sha loads report (pg_expected g1);
                      g2 = g1\<lparr>pg_report := Some report, pg_report_reasons := vr_reasons validation\<rparr>
                  in if \<not> vr_ready validation then (fail_gate (join_with ''; '' (vr_reasons validation)) g2, Inr ())
                     else
                       (case rf_written f of
                          Inl e \<Rightarrow> (g2, Inl e)
                        | Inr _ \<Rightarrow> (g2\<lparr>pg_state := STATE_READY\<rparr>, Inr ()))))"

definition physics_ready_payload :: "pyval \<Rightarrow> string \<Rightarrow> pyval" where
  "physics_ready_payload report digest =
     sorted_keys (PDict [(''schema_version'', PInt 1), (''state'', PStr STATE_READY),
                         (''scenario_report_sha256'', PStr digest), (''report'', report)])"

definition observe_sim_state :: "pyfloat \<Rightarrow> state_view \<Rightarrow> gate \<Rightarrow> gate" where
  "observe_sim_state now v g =
     (let s = pg_service g
      in if \<not> sw_importable v then g\<lparr>pg_observed := PStr ''unavailable''\<rparr>
         else if st_succeeded s then g\<lparr>pg_observed := PStr ''STATE_PLAYING''\<rparr>
         else if \<not> sw_service_ready v
         then (case st_started_at s of
                 None \<Rightarrow> g
               | Some t \<Rightarrow> if flt (pg_timeout g) (fsub now t)
                           then g\<lparr>pg_service := s\<lparr>st_started_at := None, st_error := Some ''get_simulation_state timed out''\<rparr>\<rparr>
                           else g)
         else if \<not> st_called s then g\<lparr>pg_service := s\<lparr>st_called := True, st_started_at := Some now\<rparr>\<rparr>
         else
           (case sw_call v of
              State_Waiting \<Rightarrow> g
            | State_Raised e \<Rightarrow> g\<lparr>pg_service := s\<lparr>st_called := False, st_error := Some e\<rparr>\<rparr>
            | State_Reported n \<Rightarrow>
                if n = 1
                then g\<lparr>pg_service := s\<lparr>st_called := False, st_succeeded := True\<rparr>, pg_observed := PStr ''STATE_PLAYING''\<rparr>
                else g\<lparr>pg_service := s\<lparr>st_called := False, st_error :=
                         Some (''simulation state is '' @ dec_int n @ '', expected STATE_PLAYING'')\<rparr>\<rparr>))"

definition gate_tick :: "py_builtins \<Rightarrow> (pyval \<Rightarrow> string) \<Rightarrow> (string \<Rightarrow> pyval option) \<Rightarrow> pyfloat \<Rightarrow> state_view \<Rightarrow> report_file
    \<Rightarrow> gate \<Rightarrow> gate \<times> unit res" where
  "gate_tick pb sha loads now v f g0 =
     (let g = observe_sim_state now v g0
      in if pg_state g = STATE_PENDING
         then (if flt (pg_timeout g) (fsub now (pg_started g))
               then (g\<lparr>pg_fail_reason := Some (case pg_fail_reason g of
                          Some r \<Rightarrow> if r \<noteq> [] then r else ''timed out waiting for physics ready''
                        | None \<Rightarrow> ''timed out waiting for physics ready''),
                       pg_state := STATE_FAILED\<rparr>, Inr ())
               else parse_report pb sha loads f g)
         else (g, Inr ()))"

definition gate_new :: "gate_parameters \<Rightarrow> pyfloat \<Rightarrow> expected_contract \<Rightarrow> gate" where
  "gate_new p started expected =
     \<lparr>pg_expected = expected, pg_state = STATE_PENDING, pg_fail_reason = None, pg_sha256 = None, pg_report = None,
      pg_report_reasons = [], pg_started = started, pg_timeout = gp_timeout p, pg_observed = PNone,
      pg_service = \<lparr>st_started_at = None, st_called = False, st_succeeded = False, st_error = None\<rparr>,
      pg_manifest_path = gp_manifest_path p, pg_contract_sha256 = gp_contract_sha256 p\<rparr>"

definition gate_initialize :: "py_builtins \<Rightarrow> (pyval \<Rightarrow> string) \<Rightarrow> (string \<Rightarrow> pyval option) \<Rightarrow> gate_parameters \<Rightarrow> pyfloat
    \<Rightarrow> report_file \<Rightarrow> gate res" where
  "gate_initialize pb sha loads p started f =
     (if gp_report_path p = [] then Inl (ValueError ''report_path parameter is required'')
      else if gp_ready_path p = [] then Inl (ValueError ''physics_ready_path parameter is required'')
      else if \<not> (flt (Fin 0) (gp_period p) \<and> flt (Fin 0) (gp_timeout p))
      then Inl (ValueError ''check_period_s and timeout_s must be positive'')
      else bind (build_expected loads p) (\<lambda>expected.
        case parse_report pb sha loads f (gate_new p started expected) of
          (g, Inl e) \<Rightarrow> Inl e
        | (g, Inr _) \<Rightarrow> Inr g))"

section \<open>The waiter\<close>

definition EXIT_SUCCESS :: int where "EXIT_SUCCESS = 0"
definition EXIT_CALL_FAILED :: int where "EXIT_CALL_FAILED = 1"
definition EXIT_SERVICE_UNAVAILABLE :: int where "EXIT_SERVICE_UNAVAILABLE = 2"
definition EXIT_CALL_TIMEOUT :: int where "EXIT_CALL_TIMEOUT = 3"

definition endswith :: "string \<Rightarrow> string \<Rightarrow> bool" where
  "endswith s t \<longleftrightarrow> length t \<le> length s \<and> drop (length s - length t) s = t"

definition response_is_pending :: "(string \<Rightarrow> pyval option) \<Rightarrow> string \<Rightarrow> bool" where
  "response_is_pending loads message =
     (case loads message of
        None \<Rightarrow> False
      | Some payload \<Rightarrow>
          (case field_of payload ''state'' of
             PStr s \<Rightarrow> s = ''PENDING'' \<or> endswith s ''_PENDING''
           | _ \<Rightarrow> False))"

text \<open>
  One turn of the loop: the clock before the call, how the call ends, and the clock after a pending answer.
\<close>

datatype reply = Unanswered | Empty | Trigger bool string | Call_Raises

record wait_turn =
  at_before :: pyfloat
  at_reply :: reply
  at_after :: pyfloat

fun wait_loop :: "(string \<Rightarrow> pyval option) \<Rightarrow> pyfloat \<Rightarrow> wait_turn list \<Rightarrow> int option" where
  "wait_loop loads deadline [] = None"
| "wait_loop loads deadline (a # as) =
     (if fle (fsub deadline (at_before a)) (Fin 0) then Some EXIT_CALL_TIMEOUT
      else
        (case at_reply a of
           Call_Raises \<Rightarrow> Some EXIT_CALL_FAILED
         | Unanswered \<Rightarrow> wait_loop loads deadline as
         | Empty \<Rightarrow> wait_loop loads deadline as
         | Trigger success message \<Rightarrow>
             if success then Some EXIT_SUCCESS
             else if \<not> response_is_pending loads message then Some EXIT_CALL_FAILED
             else if fle (fsub deadline (at_after a)) (Fin 0) then Some EXIT_CALL_TIMEOUT
             else wait_loop loads deadline as))"

text \<open>\<open>discovered\<close>: whether the service appeared within the deadline, or waiting for it raised.\<close>

definition wait_for_trigger :: "(string \<Rightarrow> pyval option) \<Rightarrow> pyfloat \<Rightarrow> pyfloat \<Rightarrow> bool option \<Rightarrow> wait_turn list \<Rightarrow> int option" where
  "wait_for_trigger loads start deadline_s discovered attempts =
     (case discovered of
        None \<Rightarrow> Some EXIT_CALL_FAILED
      | Some False \<Rightarrow> Some EXIT_SERVICE_UNAVAILABLE
      | Some True \<Rightarrow> wait_loop loads (fadd start deadline_s) attempts)"

end
