(* ===== verification/Report_Safety.thy ===== *)
theory Report_Safety
  imports Report Fixture_Safety
begin

text \<open>
  What reading back a serialised report gives, which reports pass the structural check, and what the validation
  promises.
\<close>

section \<open>Sorted keys\<close>

lemma map_of_filtered: "map_of xs k = map_option snd (List.find (\<lambda>p. fst p = k) xs)"
  by (induction xs) auto

lemma find_filter: "List.find P xs = (case filter P xs of [] \<Rightarrow> None | x # _ \<Rightarrow> Some x)"
  by (induction xs) auto

lemma map_of_sort_key [simp]: "map_of (sort_key fst xs) k = map_of xs k"
proof -
  have "filter (\<lambda>p. fst p = k) (sort_key fst xs) = filter (\<lambda>p. fst p = k) xs" by (rule sort_key_stable)
  then show ?thesis by (simp add: map_of_filtered find_filter)
qed

lemma map_of_mapped: "map_of (map (map_prod id g) xs) k = map_option g (map_of xs k)"
  by (induction xs) auto

lemma insort_map_values:
  "insort_key fst (map_prod id g p) (map (map_prod id g) xs) = map (map_prod id g) (insort_key fst p xs)"
  by (induction xs) auto

lemma sort_map_values: "sort_key fst (map (map_prod id g) xs) = map (map_prod id g) (sort_key fst xs)"
  by (induction xs) (simp_all only: list.map sort_key_simps insort_map_values)

lemma sorted_keys_idem [simp]: "sorted_keys (sorted_keys v) = sorted_keys v"
proof (induction v)
  case (PDict d)
  have sorted: "sort_key fst (sort_key fst d) = sort_key fst d"
    by (simp add: sort_key_id_if_sorted sorted_sort_key)
  have "map (map_prod id (sorted_keys \<circ> sorted_keys)) d = map (map_prod id sorted_keys) d"
    using PDict.IH by (auto simp: snds.simps)
  then have "map (map_prod id (sorted_keys \<circ> sorted_keys)) (sort_key fst d) = map (map_prod id sorted_keys) (sort_key fst d)"
    by (metis sort_map_values)
  then show ?case by (simp add: sort_map_values map_prod.comp sorted)
qed simp_all

lemma sha256_sorted [simp]: "sha256_json sha (sorted_keys v) = sha256_json sha v"
  by (simp add: sha256_json_def)

lemma field_of_sorted: "field_of (sorted_keys v) k = sorted_keys (field_of v k)"
  by (cases v) (auto simp: field_of_def map_of_mapped split: option.split)

lemma is_dict_sorted [simp]: "is_dict (sorted_keys v) = is_dict v"
  by (cases v) (simp_all add: is_dict_def)

lemma has_key_sorted [simp]: "has_key (sorted_keys v) k = has_key v k"
  by (cases v) (auto simp: has_key_def image_image)

lemma list_of_sorted [simp]: "list_of (sorted_keys v) = map sorted_keys (list_of v)"
  by (cases v) (simp_all add: list_of_def)

lemma full_list_sorted [simp]: "full_list (sorted_keys v) = full_list v"
  by (cases v) (simp_all add: full_list_def)

lemma key_list_sorted [simp]: "set (key_list (sorted_keys v)) = set (key_list v)"
  by (cases v) (auto simp: key_list_def image_image)

lemma missing_sorted [simp]: "missing_keys ks (sorted_keys v) = missing_keys ks v"
  by (simp add: missing_keys_def)

lemma sorted_string [simp]: "sorted_keys v = PStr s \<longleftrightarrow> v = PStr s"
  "sorted_keys v = PInt i \<longleftrightarrow> v = PInt i" "sorted_keys v = PBool b \<longleftrightarrow> v = PBool b" "sorted_keys v = PNone \<longleftrightarrow> v = PNone"
  by (cases v; simp)+

text \<open>Sorting keys does not change what a value equals.\<close>

lemma dict_sub_iff: "dict_sub d e \<longleftrightarrow> (\<forall>(k, v) \<in> set d. \<exists>w. map_of e k = Some w \<and> py_eq v w)"
proof (induction d)
  case (Cons p d)
  then show ?case by (cases p; cases "map_of e (fst p)") simp_all
qed simp

lemma py_eq_sorted: "py_eq (sorted_keys v) w = py_eq v w"
proof (induction v arbitrary: w)
  case (PList xs)
  then have "list_eq (map sorted_keys xs) ys = list_eq xs ys" for ys
  proof (induction xs arbitrary: ys)
    case (Cons x xs)
    then show ?case by (cases ys) auto
  qed simp
  then show ?case by (cases w) simp_all
next
  case (PDict d)
  have "py_eq (sorted_keys v) w = py_eq v w" if "(k, v) \<in> set d" for k v w
    by (rule PDict.IH [of "(k, v)" v]) (use that in \<open>simp_all\<close>)
  then have "dict_sub (sort_key fst (map (map_prod id sorted_keys) d)) e = dict_sub d e" for e
    unfolding dict_sub_iff by (fastforce simp: image_iff)
  then show ?case by (cases w) simp_all
qed simp_all

section \<open>Built reports\<close>

lemma report_guards_Cons [simp]: "report_guards ((bad, message) # gs) = Inr u \<longleftrightarrow> \<not> bad \<and> report_guards gs = Inr u"
  by simp

lemma planning_mapping_InrE:
  assumes "planning_scene_mapping pb scene = Inr plan"
  obtains revision owned source handoff where "fixture_owned_ids pb scene = Inr owned"
    "str_field pb scene ''revision'' = Inr revision" "str_field pb scene ''target_source_id'' = Inr source"
    "str_field pb scene ''target_handoff'' = Inr handoff"
    "plan = PDict [(''revision'', PStr revision), (''owned_ids'', PList (map PStr owned)),
                   (''target_source_id'', PStr source), (''target_handoff'', PStr handoff)]"
  using assms by (auto simp: planning_scene_mapping_def bind_Inr_iff)

lemma built_InrE:
  assumes "build_canonical_report pb sha i seed declaration scene integrated ops fingerprint manifest state = Inr r"
  obtains plan identities where "planning_scene_mapping pb scene = Inr plan"
    "identities = [(''scenario_id'', PStr i), (''seed'', PInt seed),
            (''scenario_declaration_sha256'', PStr (sha256_json sha (scenario_mapping i seed declaration))),
            (''planning_scene_sha256'', PStr (sha256_json sha plan)),
            (''integrated_sha256'', PStr (sha256_json sha (PDict integrated))),
            (''model_fingerprint'', PStr fingerprint), (''provider_manifest_sha256'', PStr manifest)]"
    "r = PDict [(''schema_version'', PInt REPORT_SCHEMA_VERSION), (''report_revision'', PStr REPORT_REVISION),
               (''scenario'', scenario_mapping i seed declaration), (''planning_scene'', plan),
               (''integrated'', PDict integrated), (''identities'', PDict identities),
               (''operations'', PList (map PDict (if ops \<noteq> [] then butlast ops @ [dict_merge (last ops) identities]
                   else [closing_operation identities]))), (''final_simulation_state'', PStr state)]"
  using assms by (auto simp: build_canonical_report_def report_identities_def bind_Inr_iff Let_def)

text \<open>The fields of a built report.\<close>

lemmas report_field = field_of_dict scenario_mapping_def

lemma check_built:
  assumes "build_canonical_report pb sha i seed declaration scene integrated ops fingerprint manifest FINAL_SIMULATION_STATE = Inr r"
    and "integrated = [(''execution_profile'', PStr profile)]"
  shows "check_report pb (sorted_keys r) = Inr (sorted_keys r)"
proof -
  obtain plan identities where r: "planning_scene_mapping pb scene = Inr plan"
    "identities = [(''scenario_id'', PStr i), (''seed'', PInt seed),
            (''scenario_declaration_sha256'', PStr (sha256_json sha (scenario_mapping i seed declaration))),
            (''planning_scene_sha256'', PStr (sha256_json sha plan)),
            (''integrated_sha256'', PStr (sha256_json sha (PDict integrated))),
            (''model_fingerprint'', PStr fingerprint), (''provider_manifest_sha256'', PStr manifest)]"
    "r = PDict [(''schema_version'', PInt REPORT_SCHEMA_VERSION), (''report_revision'', PStr REPORT_REVISION),
               (''scenario'', scenario_mapping i seed declaration), (''planning_scene'', plan),
               (''integrated'', PDict integrated), (''identities'', PDict identities),
               (''operations'', PList (map PDict (if ops \<noteq> [] then butlast ops @ [dict_merge (last ops) identities]
                   else [closing_operation identities]))), (''final_simulation_state'', PStr FINAL_SIMULATION_STATE)]"
    using assms(1) by (rule built_InrE)
  have plan: "is_dict plan" "set (key_list plan) = set PLANNING_SCENE_REPORT_KEYS"
    using r(1) by (auto elim!: planning_mapping_InrE simp: is_dict_def key_list_def PLANNING_SCENE_REPORT_KEYS_def)
  have keys: "missing_keys REPORT_REQUIRED_TOP_LEVEL r = []" "missing_keys IDENTITIES_KEYS (PDict identities) = []"
    by (simp_all add: r(2,3) missing_keys_def REPORT_REQUIRED_TOP_LEVEL_def IDENTITIES_KEYS_def has_key_def)
  have fields: "field_of r ''schema_version'' = PInt REPORT_SCHEMA_VERSION" "field_of r ''report_revision'' = PStr REPORT_REVISION"
    "field_of r ''scenario'' = scenario_mapping i seed declaration" "field_of r ''planning_scene'' = plan"
    "field_of r ''integrated'' = PDict integrated" "field_of r ''identities'' = PDict identities"
    "field_of r ''final_simulation_state'' = PStr FINAL_SIMULATION_STATE" "is_dict r"
    by (simp_all add: r(3) field_of_dict is_dict_def)
  have ops: "full_list (field_of r ''operations'')"
    by (simp add: r(3) field_of_dict full_list_def)
  show ?thesis
    unfolding check_report_def Let_def field_of_sorted fields is_dict_sorted missing_sorted full_list_sorted key_list_sorted keys
    using plan ops fields(8)
    by (simp add: is_dict_def scenario_mapping_def assms(2) key_list_def field_of_dict scalar_eq_def)
qed

text \<open>The part of a report that the validation reads of the operations is the last one.\<close>

lemma same_end_same_reasons:
  assumes "build_canonical_report pb sha i seed declaration scene integrated ops1 fingerprint manifest FINAL_SIMULATION_STATE = Inr r1"
    and "build_canonical_report pb sha i seed declaration scene integrated ops2 fingerprint manifest FINAL_SIMULATION_STATE = Inr r2"
    and "ops1 \<noteq> []" "ops2 \<noteq> []" "last ops1 = last ops2" "integrated = [(''execution_profile'', PStr profile)]"
  shows "vr_reasons (validate_report pb sha loads r1 expected) = vr_reasons (validate_report pb sha loads r2 expected)"
proof -
  have checks: "check_report pb (sorted_keys r1) = Inr (sorted_keys r1)" "check_report pb (sorted_keys r2) = Inr (sorted_keys r2)"
    using check_built assms(1,2,6) by blast+
  have same: "field_of r1 k = field_of r2 k" if "k \<noteq> ''operations''" for k
    using assms(1,2) that by (auto elim!: built_InrE simp: field_of_dict)
  have ends: "last (list_of (field_of r1 ''operations'')) = last (list_of (field_of r2 ''operations''))"
    using assms(1-5) by (auto elim!: built_InrE simp: field_of_dict list_of_def)
  have nonempty: "list_of (field_of r1 ''operations'') \<noteq> []" "list_of (field_of r2 ''operations'') \<noteq> []"
    using assms(1-4) by (auto elim!: built_InrE simp: field_of_dict list_of_def)
  show ?thesis
    unfolding validate_report_def checks
    by (simp add: report_reasons_def Let_def field_of_sorted same ends nonempty last_map)
qed

definition ends_playing :: "record_dict \<Rightarrow> bool" where
  "ends_playing op \<longleftrightarrow>
     map_of op ''operation'' = Some (PStr ''set_simulation_state'') \<and> map_of op ''accepted'' = Some (PBool True)
     \<and> map_of op ''state'' = Some (PInt SIMULATION_STATE_PLAYING) \<and> map_of op ''boundary'' = Some (PStr PHYSICS_READY_BOUNDARY)"

lemma ends_playing_merge:
  assumes "ends_playing op" and "set (map fst identities) = set IDENTITIES_KEYS"
  shows "ends_playing (dict_merge op identities)"
    and "\<And>k. k \<in> set IDENTITIES_KEYS \<Longrightarrow> distinct (map fst identities) \<Longrightarrow> map_of (dict_merge op identities) k = map_of identities k"
proof -
  have other: "map_of (dict_merge d e) k = map_of d k" if "k \<notin> set (map fst e)" for d e :: record_dict and k
    using that by (induction e arbitrary: d) (auto simp: dict_merge_def)
  then show "ends_playing (dict_merge op identities)"
    using assms by (auto simp: ends_playing_def IDENTITIES_KEYS_def)
  have own: "map_of (dict_merge d e) k = map_of e k" if "k \<in> set (map fst e)" "distinct (map fst e)" for d e :: record_dict and k
    using that
  proof (induction e arbitrary: d)
    case (Cons p e)
    obtain k' v where p: "p = (k', v)" by (cases p)
    have step: "dict_merge d ((k', v) # e) = dict_merge (dict_set k' v d) e" by (simp add: dict_merge_def)
    show ?case
    proof (cases "k = k'")
      case True
      then have "map_of (dict_merge (dict_set k' v d) e) k = map_of (dict_set k' v d) k"
        using Cons.prems(2) p by (intro other) auto
      then show ?thesis using True by (simp add: p step)
    next
      case False
      then show ?thesis using Cons.IH [of "dict_set k' v d"] Cons.prems p by (simp add: step)
    qed
  qed simp
  then show "\<And>k. k \<in> set IDENTITIES_KEYS \<Longrightarrow> distinct (map fst identities) \<Longrightarrow> map_of (dict_merge op identities) k = map_of identities k"
    using assms(2) by blast
qed

text \<open>What the validation compares, for a report that has passed the structural check.\<close>

definition report_agrees :: "py_builtins \<Rightarrow> (pyval \<Rightarrow> string) \<Rightarrow> (string \<Rightarrow> pyval option) \<Rightarrow> expected_contract \<Rightarrow> pyval \<Rightarrow> bool" where
  "report_agrees pb sha loads expected report \<longleftrightarrow>
     (let scenario = field_of report ''scenario''; plan = field_of report ''planning_scene'';
          integrated = field_of report ''integrated''; identities = field_of report ''identities'';
          op = last (list_of (field_of report ''operations''))
      in field_of scenario ''id'' = PStr (ec_scenario_id expected) \<and> py_eq (field_of scenario ''seed'') (PInt (ec_seed expected))
         \<and> ec_declaration expected = sha256_json sha scenario
         \<and> field_of identities ''scenario_declaration_sha256'' = PStr (sha256_json sha scenario)
         \<and> field_of identities ''planning_scene_sha256'' = PStr (sha256_json sha plan)
         \<and> field_of identities ''integrated_sha256'' = PStr (sha256_json sha integrated)
         \<and> field_of identities ''model_fingerprint'' = PStr (ec_fingerprint expected)
         \<and> field_of identities ''provider_manifest_sha256'' = PStr (ec_manifest expected)
         \<and> py_eq plan (expected_planning_scene_contract pb loads expected)
         \<and> (\<forall>v. contract_integrated expected = Some v \<longrightarrow> py_eq integrated v)
         \<and> is_dict op \<and> field_of op ''operation'' = PStr ''set_simulation_state'' \<and> field_of op ''accepted'' = PBool True
         \<and> py_eq (field_of op ''state'') (PInt SIMULATION_STATE_PLAYING) \<and> field_of op ''boundary'' = PStr PHYSICS_READY_BOUNDARY
         \<and> (\<forall>k \<in> set IDENTITIES_KEYS. py_eq (field_of op k) (field_of identities k)))"

lemma py_eq_str: "py_eq v (PStr s) \<longleftrightarrow> v = PStr s"
  by (cases v) (auto simp: scalar_eq_def split: option.splits)

lemma check_report_same: "check_report pb r = Inr r' \<Longrightarrow> r' = r \<and> is_dict r \<and> is_dict (field_of r ''identities'')
    \<and> full_list (field_of r ''operations'')"
  by (auto simp: check_report_def Let_def bind_Inr_iff simp del: report_guards.simps)

lemma valid_report_iff:
  assumes "check_report pb (sorted_keys r) = Inr (sorted_keys r)"
  shows "vr_ready (validate_report pb sha loads r expected) \<longleftrightarrow> report_agrees pb sha loads expected (sorted_keys r)"
    and "vr_reasons (validate_report pb sha loads r expected) = report_reasons pb sha loads expected (sorted_keys r)"
proof -
  have "is_dict (field_of (sorted_keys r) ''identities'')" using check_report_same [OF assms] by blast
  then obtain d where d: "field_of (sorted_keys r) ''identities'' = PDict d" by (cases "field_of (sorted_keys r) ''identities''") (auto simp: is_dict_def)
  have "report_reasons pb sha loads expected (sorted_keys r) = [] \<longleftrightarrow> report_agrees pb sha loads expected (sorted_keys r)"
    unfolding report_reasons_def report_agrees_def Let_def final_operation_reasons_def d
    by (auto simp: py_eq_str dict_of_def split: option.split)
  then show "vr_ready (validate_report pb sha loads r expected) \<longleftrightarrow> report_agrees pb sha loads expected (sorted_keys r)"
    by (simp add: validate_report_def assms Let_def)
  show "vr_reasons (validate_report pb sha loads r expected) = report_reasons pb sha loads expected (sorted_keys r)"
    by (simp add: validate_report_def assms Let_def)
qed

lemma valid_report_checked:
  assumes "vr_ready (validate_report pb sha loads r expected)"
  shows "check_report pb (sorted_keys r) = Inr (sorted_keys r) \<and> report_agrees pb sha loads expected (sorted_keys r)"
proof -
  obtain p where p: "check_report pb (sorted_keys r) = Inr p"
    using assms by (cases "check_report pb (sorted_keys r)") (auto simp: validate_report_def)
  then have "p = sorted_keys r" using check_report_same by blast
  then show ?thesis using p valid_report_iff(1) [of pb r] assms by blast
qed

lemma built_agrees:
  assumes "build_canonical_report pb sha i seed declaration scene integrated ops fingerprint manifest FINAL_SIMULATION_STATE = Inr r"
    and "integrated = [(''execution_profile'', PStr profile)]" and "ops = [] \<or> ends_playing (last ops)"
    and "planning_scene_mapping pb scene = Inr (expected_planning_scene_contract pb loads expected)"
    and "ec_scenario_id expected = i" "ec_seed expected = seed" "ec_fingerprint expected = fingerprint" "ec_manifest expected = manifest"
    and "ec_declaration expected = sha256_json sha (scenario_mapping i seed declaration)"
    and "contract_integrated expected = Some (PDict integrated)"
  shows "report_agrees pb sha loads expected (sorted_keys r)"
proof -
  let ?identities = "[(''scenario_id'', PStr i), (''seed'', PInt seed),
            (''scenario_declaration_sha256'', PStr (sha256_json sha (scenario_mapping i seed declaration))),
            (''planning_scene_sha256'', PStr (sha256_json sha (expected_planning_scene_contract pb loads expected))),
            (''integrated_sha256'', PStr (sha256_json sha (PDict integrated))),
            (''model_fingerprint'', PStr fingerprint), (''provider_manifest_sha256'', PStr manifest)]"
  let ?op = "if ops \<noteq> [] then dict_merge (last ops) ?identities else closing_operation ?identities"
  have ids: "set (map fst ?identities) = set IDENTITIES_KEYS" "distinct (map fst ?identities)"
    by (simp_all add: IDENTITIES_KEYS_def)
  obtain base where base: "ends_playing base" "?op = dict_merge base ?identities"
  proof (cases "ops = []")
    case True
    show thesis
      by (rule that [of "[(''operation'', PStr ''set_simulation_state''), (''accepted'', PBool True),
          (''state'', PInt SIMULATION_STATE_PLAYING), (''boundary'', PStr PHYSICS_READY_BOUNDARY)]"])
        (simp_all only: True ends_playing_def closing_operation_def, simp_all)
  next
    case False
    then show thesis using that [of "last ops"] assms(3) by simp
  qed
  have op: "ends_playing ?op" "\<And>k. k \<in> set IDENTITIES_KEYS \<Longrightarrow> map_of ?op k = map_of ?identities k"
    unfolding base(2) using ends_playing_merge [OF base(1) ids(1)] ids(2) by blast+
  have fields: "field_of r ''scenario'' = scenario_mapping i seed declaration"
    "field_of r ''planning_scene'' = expected_planning_scene_contract pb loads expected"
    "field_of r ''integrated'' = PDict integrated" "field_of r ''identities'' = PDict ?identities"
    "last (list_of (field_of r ''operations'')) = PDict ?op" "list_of (field_of r ''operations'') \<noteq> []"
    using assms(1,4) by (auto elim!: built_InrE simp: field_of_dict list_of_def split: if_splits)
  have last_op: "last (map sorted_keys (list_of (field_of r ''operations''))) = sorted_keys (PDict ?op)"
    unfolding last_map [OF fields(6)] fields(5) by (rule refl)
  have opf: "field_of (PDict ?op) ''operation'' = PStr ''set_simulation_state''" "field_of (PDict ?op) ''accepted'' = PBool True"
    "field_of (PDict ?op) ''state'' = PInt SIMULATION_STATE_PLAYING" "field_of (PDict ?op) ''boundary'' = PStr PHYSICS_READY_BOUNDARY"
    using op(1) unfolding ends_playing_def field_of_def by simp_all
  have opi: "field_of (PDict ?op) k = field_of (PDict ?identities) k" if "k \<in> set IDENTITIES_KEYS" for k
    using op(2) [OF that] by (simp add: field_of_def)
  have plan: "py_eq (expected_planning_scene_contract pb loads expected) (expected_planning_scene_contract pb loads expected)"
    by (simp add: expected_planning_scene_contract_def scalar_eq_def)
  have "report_agrees pb sha loads expected (sorted_keys r)"
    unfolding report_agrees_def Let_def field_of_sorted list_of_sorted last_op fields(1-4) opf is_dict_sorted
    using assms(5-10) plan
    by (auto simp: scenario_mapping_def field_of_dict py_eq_sorted scalar_eq_def opi sorted_keys.simps(3,5) is_dict_def assms(2)
        IDENTITIES_KEYS_def simp del: sorted_keys.simps(7))
  then show ?thesis .
qed

text \<open>C33: A report that was built and written is read back as itself, and agrees with the contract it was built for: the file passes
  the structural check and the validation as soon as its last operation is the accepted start of the simulation and the contract
  names the scenario, the scene, the mapping, the model and the manifest it was built from.
\<close>

theorem built_report_valid:
  assumes "build_canonical_report pb sha i seed declaration scene integrated ops fingerprint manifest FINAL_SIMULATION_STATE = Inr r"
    and "integrated = [(''execution_profile'', PStr profile)]" and "ops = [] \<or> ends_playing (last ops)"
    and "planning_scene_mapping pb scene = Inr (expected_planning_scene_contract pb loads expected)"
    and "ec_scenario_id expected = i" "ec_seed expected = seed" "ec_fingerprint expected = fingerprint" "ec_manifest expected = manifest"
    and "ec_declaration expected = sha256_json sha (scenario_mapping i seed declaration)"
    and "contract_integrated expected = Some (PDict integrated)" and "loads data = Some (sorted_keys r)"
  shows "parse_canonical_report pb loads data = Inr (sorted_keys r)
         \<and> vr_ready (validate_report pb sha loads (sorted_keys r) expected)"
proof -
  have check: "check_report pb (sorted_keys r) = Inr (sorted_keys r)" using assms(1,2) by (rule check_built)
  moreover have "report_agrees pb sha loads expected (sorted_keys r)" using assms(1-10) by (rule built_agrees)
  ultimately have "vr_ready (validate_report pb sha loads (sorted_keys r) expected)"
    using valid_report_iff(1) [of pb "sorted_keys r"] by simp
  then show ?thesis using check assms(11) by (simp add: parse_canonical_report_def)
qed

end
