(* ===== verification/Scenario_Safety.thy ===== *)
theory Scenario_Safety
  imports Scenario Fixture_Run Mesh_Safety
begin

text \<open>
  What the validation of a scenario promises to the programs that run it: the fixture node starts from a validated
  planning scene, and the compiled operations stop, spawn and start in that order.
\<close>

section \<open>Validated fixtures\<close>

lemma guards_Cons [simp]: "guards path ((bad, message) # gs) = Inr u \<longleftrightarrow> \<not> bad \<and> guards path gs = Inr u"
  by simp

lemma each_exists: "(\<And>x. x \<in> set xs \<Longrightarrow> \<exists>y. f x = Inr y) \<Longrightarrow> \<exists>ys. each f xs = Inr ys"
proof (induction xs)
  case (Cons x xs)
  obtain y ys where "f x = Inr y" "each f xs = Inr ys" using Cons by fastforce
  then show ?case by simp
qed simp

lemma each_eq_map: "(\<And>x. x \<in> set xs \<Longrightarrow> f x = Inr (h x)) \<Longrightarrow> each f xs = Inr (map h xs)"
  by (induction xs) simp_all

lemma each_elem: "each f xs = Inr ys \<Longrightarrow> x \<in> set xs \<Longrightarrow> \<exists>y. f x = Inr y"
  by (induction xs arbitrary: ys) (auto simp: bind_Inr_iff)

lemma each_mapped: "each f xs = Inr ys \<Longrightarrow> (\<And>x y. x \<in> set xs \<Longrightarrow> f x = Inr y \<Longrightarrow> y = h x) \<Longrightarrow> ys = map h xs"
  by (induction xs arbitrary: ys) (auto simp: bind_Inr_iff)

lemma finite_numbers_InrE:
  assumes "finite_numbers pb v n label = Inr fs"
  obtains xs where "v = PList xs" "length xs = n" "each (py_float pb) xs = Inr fs"
proof -
  obtain xs where xs: "v = PList xs" "length xs = n" "each (finite_number pb label) xs = Inr fs"
    using assms by (cases v) (auto simp: finite_numbers_def split: if_splits)
  have "py_float pb x = Inr y" if "finite_number pb label x = Inr y" for x y
    using that by (auto simp: finite_number_def py_float_def split: pyval.splits sum.splits if_splits option.splits)
  then have "each (py_float pb) xs = Inr fs" using each_map [of "finite_number pb label" "py_float pb" id, OF _ xs(3)] by simp
  then show thesis using that xs by blast
qed

lemma is_dictE: "is_dict v \<Longrightarrow> (\<And>d. v = PDict d \<Longrightarrow> thesis) \<Longrightarrow> thesis"
  by (cases v) (auto simp: is_dict_def)

lemma py_get_field: "field_of v k \<noteq> PNone \<Longrightarrow> py_get v k = Inr (field_of v k)"
  by (cases v) (auto simp: field_of_def py_get_def split: option.splits)

lemma py_get_or: "is_dict v \<Longrightarrow> py_get_default v k fallback = Inr (get_or v k fallback)"
  by (cases v) (auto simp: is_dict_def py_get_default_def get_or_def split: option.split)

lemma each_py_float_append: "each (py_float pb) xs = Inr a \<Longrightarrow> each (py_float pb) ys = Inr b \<Longrightarrow>
    each (py_float pb) (xs @ ys) = Inr (a @ b)"
  by (simp add: each_append)

lemma valid_pose:
  assumes "validate_fixture_pose pb path i rec = Inr u"
  obtains pose where "pose_seven pb rec = Inr pose"
proof -
  let ?q = "PList [PFloat (Fin 0), PFloat (Fin 0), PFloat (Fin 0), PFloat (Fin 1)]"
  obtain a b where d: "is_dict (field_of rec ''pose'')"
      "finite_numbers pb (field_of (field_of rec ''pose'') ''xyz'') 3 (i @ ''.pose.xyz'') = Inr a"
      "finite_numbers pb (get_or (field_of rec ''pose'') ''quaternion_xyzw'' ?q) 4 (i @ ''.pose.quaternion_xyzw'') = Inr b"
    using assms by (auto simp: validate_fixture_pose_def Let_def bind_Inr_iff simp del: guards.simps)
  obtain xs where xs: "field_of (field_of rec ''pose'') ''xyz'' = PList xs" "each (py_float pb) xs = Inr a"
    using d(2) by (rule finite_numbers_InrE)
  obtain ys where ys: "get_or (field_of rec ''pose'') ''quaternion_xyzw'' ?q = PList ys" "each (py_float pb) ys = Inr b"
    using d(3) by (rule finite_numbers_InrE)
  have "py_get rec ''pose'' = Inr (field_of rec ''pose'')" using d(1) by (intro py_get_field) (auto simp: is_dict_def)
  moreover have "py_get (field_of rec ''pose'') ''xyz'' = Inr (PList xs)" using py_get_field [of _ "''xyz''"] xs(1) by simp
  ultimately show thesis
    using that each_py_float_append [OF xs(2) ys(2)]
    by (simp add: pose_seven_def py_get_or [OF d(1)] ys(1) py_items_def)
qed

lemma field_of_map: "field_of (PDict d) k = (case map_of d k of None \<Rightarrow> PNone | Some x \<Rightarrow> x)"
  by (simp add: field_of_def)

lemma has_key_field: "field_of v k \<noteq> PNone \<Longrightarrow> has_key v k"
  by (cases v) (auto simp: field_of_def has_key_def split: option.splits dest: map_of_SomeD intro: rev_image_eqI)

lemma key_of_dict: "has_key (PDict d) k \<longleftrightarrow> map_of d k = Some (field_of (PDict d) k)"
  by (auto simp: has_key_def field_of_def dom_map_of_conv_image_fst [symmetric])

lemma full_string_field: "full_string v \<Longrightarrow> v = PStr (string_of v) \<and> v \<noteq> PNone"
  by (cases v) (auto simp: full_string_def string_of_def)

lemma valid_mesh_scale:
  assumes "has_key mesh ''scale'' \<longrightarrow> (\<exists>fs. finite_numbers pb (field_of mesh ''scale'') 3 l = Inr fs)" "is_dict mesh"
  shows "\<exists>v vs fs. py_get_default mesh ''scale'' (PList [PFloat (Fin 1), PFloat (Fin 1), PFloat (Fin 1)]) = Inr v
    \<and> py_items v = Inr vs \<and> each (py_float pb) vs = Inr fs"
proof (cases "has_key mesh ''scale''")
  case True
  then obtain fs where "finite_numbers pb (field_of mesh ''scale'') 3 l = Inr fs" using assms(1) by blast
  then obtain xs where "field_of mesh ''scale'' = PList xs" "each (py_float pb) xs = Inr fs" by (rule finite_numbers_InrE)
  moreover obtain d where "mesh = PDict d" using assms(2) by (rule is_dictE)
  ultimately show ?thesis
    by (auto simp: py_get_default_def field_of_def py_items_def split: option.splits)
next
  case False
  obtain d where d: "mesh = PDict d" using assms(2) by (rule is_dictE)
  then have "map_of d ''scale'' = None" using False by (auto simp: has_key_def map_of_eq_None_iff)
  then show ?thesis by (simp add: d py_get_default_def py_items_def py_float_def)
qed

lemma valid_fixture_spec:
  assumes "validate_fixture pb ae path rec = Inr i"
  obtains d s where "rec = PDict d" "field_of rec ''id'' = PStr i" "is_fixture i"
    "record_to_spec pb frame rec = Inr s" "sp_id s = i" "one_shape frame s"
proof -
  have *: "is_dict rec" "i = string_of (field_of rec ''id'')" "is_fixture i"
      "validate_fixture_pose pb path i rec = Inr ()" "validate_fixture_shape pb ae path i rec = Inr ()"
    using assms by (auto simp: validate_fixture_def Let_def bind_Inr_iff simp del: guards.simps)
  obtain d where d: "rec = PDict d" using *(1) by (rule is_dictE)
  have i: "field_of rec ''id'' = PStr i"
    using *(2,3) by (cases "field_of rec ''id''") (auto simp: string_of_def is_fixture_def FIXTURE_NAMESPACE_PREFIX_def startswith_def)
  then have get_id: "py_get rec ''id'' = Inr (PStr i)" using py_get_field [of rec "''id''"] by simp
  obtain pose where pose: "pose_seven pb rec = Inr pose" using *(4) by (rule valid_pose)
  have one: "has_key rec ''primitive'' \<noteq> has_key rec ''mesh''"
    using *(5) by (auto simp: validate_fixture_shape_def bind_Inr_iff simp del: guards.simps)
  have "\<exists>s. record_to_spec pb frame rec = Inr s \<and> sp_id s = i \<and> one_shape frame s"
  proof (cases "has_key rec ''primitive''")
    case True
    then have "is_dict (field_of rec ''primitive'')"
      using *(5) one by (auto simp: validate_fixture_shape_def validate_primitive_def bind_Inr_iff simp del: guards.simps)
    then obtain p where "field_of rec ''primitive'' = PDict p" by (rule is_dictE)
    then have "map_of d ''primitive'' = Some (PDict p)" using True key_of_dict d by simp
    then show ?thesis using get_id pose by (simp add: d record_to_spec_def py_dict_def py_str_def one_shape_def)
  next
    case False
    let ?mesh = "field_of rec ''mesh''"
    have mesh: "is_dict ?mesh" "full_string (field_of ?mesh ''uri'')" "descriptor_ok (field_of ?mesh ''sha256'')"
        "has_key ?mesh ''scale'' \<longrightarrow> (\<exists>fs. finite_numbers pb (field_of ?mesh ''scale'') 3 (i @ ''.mesh.scale'') = Inr fs)"
      using *(5) one False
      by (auto simp: validate_fixture_shape_def validate_mesh_declaration_def Let_def bind_Inr_iff simp del: guards.simps)
    obtain v vs fs where scale: "py_get_default ?mesh ''scale'' (PList [PFloat (Fin 1), PFloat (Fin 1), PFloat (Fin 1)]) = Inr v"
        "py_items v = Inr vs" "each (py_float pb) vs = Inr fs"
      using valid_mesh_scale [OF mesh(4,1)] by blast
    have none: "map_of d ''primitive'' = None" using False d by (auto simp: has_key_def map_of_eq_None_iff)
    have "py_get rec ''mesh'' = Inr ?mesh" using mesh(1) by (intro py_get_field) (auto simp: is_dict_def)
    moreover have "py_get ?mesh ''uri'' = Inr (field_of ?mesh ''uri'')" using mesh(2) full_string_field by (intro py_get_field) blast
    moreover have "py_get ?mesh ''sha256'' = Inr (field_of ?mesh ''sha256'')"
      using mesh(3) by (intro py_get_field) (auto simp: descriptor_ok_def)
    ultimately show ?thesis
      using get_id pose scale none unfolding d by (simp add: record_to_spec_def py_str_def one_shape_def)
  qed
  then show thesis using that [OF d i *(3)] by blast
qed

section \<open>A validated planning scene\<close>

text \<open>The facts of a validated scene that the fixture node uses.\<close>

lemma valid_scene_facts:
  assumes "validate_planning_scene pb digest ae path scene = Inr u"
  obtains d where "scene = PDict d"
    "full_string (field_of scene ''revision'')" "py_eq (field_of scene ''frame_id'') (PStr ''base_link'')"
    "string_of (field_of scene ''revision_digest'') = digest (PDict (filter (\<lambda>(k, v). k \<noteq> ''revision_digest'') d))"
    "full_string (field_of scene ''target_source_id'')" "py_eq (field_of scene ''target_handoff'') (PStr TARGET_HANDOFF)"
    "full_list (field_of scene ''objects'')" "is_list (get_or scene ''diagnostic_objects'' (PList []))"
    "\<exists>ids. each (validate_fixture pb ae path) (list_of (field_of scene ''objects'')
         @ list_of (get_or scene ''diagnostic_objects'' (PList []))) = Inr ids \<and> distinct ids"
    "string_of (field_of scene ''target_source_id'') \<in> set (map (\<lambda>r. py_str pb (field_of r ''id''))
         (list_of (field_of scene ''objects'')
          @ filter enters_bodies (list_of (get_or scene ''diagnostic_objects'' (PList [])))))"
proof -
  have "is_dict scene"
    using assms by (auto simp: validate_planning_scene_def Let_def bind_Inr_iff simp del: guards.simps)
  then obtain d where d: "scene = PDict d" by (rule is_dictE)
  show thesis
    by (rule that [of d])
      (use assms in \<open>auto simp: d validate_planning_scene_def Let_def bind_Inr_iff simp del: guards.simps\<close>)
qed

lemma entering_exists:
  assumes "\<And>r. r \<in> set rs \<Longrightarrow> \<exists>d x. r = PDict d \<and> f r = Inr x"
  shows "\<exists>xs. entering f rs = Inr xs \<and> each f (filter enters_bodies rs) = Inr xs"
  using assms
proof (induction rs)
  case (Cons r rs)
  obtain d x where r: "r = PDict d" "f r = Inr x" using Cons.prems by fastforce
  have "diagnostic_enters r = Inr (enters_bodies r)"
    by (simp add: r(1) diagnostic_enters_def enters_bodies_def py_get_default_def field_of_def)
  moreover obtain xs where "entering f rs = Inr xs" "each f (filter enters_bodies rs) = Inr xs"
    using Cons by fastforce
  ultimately show ?case using r(2) by simp
qed simp

text \<open>The records of a validated scene that enter the collision bodies are exactly those the adapter visits.\<close>

definition body_records :: "pyval \<Rightarrow> pyval list" where
  "body_records scene = list_of (field_of scene ''objects'')
     @ filter enters_bodies (list_of (get_or scene ''diagnostic_objects'' (PList [])))"

lemma over_valid_fixtures:
  assumes "validate_planning_scene pb digest ae path scene = Inr u"
    and f: "\<And>r i. validate_fixture pb ae path r = Inr i \<Longrightarrow> \<exists>x. f r = Inr x"
  obtains xs where "over_fixtures f scene = Inr xs" "each f (body_records scene) = Inr xs"
proof -
  let ?o = "list_of (field_of scene ''objects'')" and ?dg = "list_of (get_or scene ''diagnostic_objects'' (PList []))"
  obtain d ids where *: "scene = PDict d" "full_list (field_of scene ''objects'')"
      "is_list (get_or scene ''diagnostic_objects'' (PList []))"
      "each (validate_fixture pb ae path) (?o @ ?dg) = Inr ids"
    using valid_scene_facts [OF assms(1)] by metis
  have each_ok: "\<exists>d x. r = PDict d \<and> f r = Inr x" if "r \<in> set ?o \<union> set ?dg" for r
  proof -
    have "r \<in> set (?o @ ?dg)" using that by simp
    then obtain i where i: "validate_fixture pb ae path r = Inr i" using each_elem [OF *(4)] by blast
    then obtain d where "r = PDict d" using valid_fixture_spec by metis
    then show ?thesis using f [OF i] by blast
  qed
  have "py_get_default scene ''objects'' (PList []) = Inr (field_of scene ''objects'')"
    using *(2) by (auto simp: *(1) py_get_default_def field_of_def full_list_def split: option.splits)
  moreover have "py_items (field_of scene ''objects'') = Inr ?o"
    using *(2) by (cases "field_of scene ''objects''") (simp_all add: full_list_def py_items_def list_of_def)
  moreover have "py_get_default scene ''diagnostic_objects'' (PList []) = Inr (get_or scene ''diagnostic_objects'' (PList []))"
    by (rule py_get_or) (simp add: *(1) is_dict_def)
  moreover have "py_items (get_or scene ''diagnostic_objects'' (PList [])) = Inr ?dg"
    using *(3) by (cases "get_or scene ''diagnostic_objects'' (PList [])") (simp_all add: is_list_def py_items_def list_of_def)
  moreover obtain xs where "each f ?o = Inr xs" using each_exists [of ?o f] each_ok by blast
  moreover obtain ys where "entering f ?dg = Inr ys" "each f (filter enters_bodies ?dg) = Inr ys"
    using entering_exists [of ?dg f] each_ok by blast
  ultimately show thesis using that by (simp add: over_fixtures_def body_records_def each_append)
qed

lemma distinct_with_filter: "distinct (map f (xs @ ys)) \<Longrightarrow> distinct (map f (xs @ filter P ys))"
  by (auto simp: distinct_map_filter)

lemma valid_scene_specs:
  assumes "validate_planning_scene pb digest ae path scene = Inr u"
  obtains specs where "fixture_to_specs pb scene = Inr specs" "fixture_owned_ids pb scene = Inr (map sp_id specs)"
    "list_all (\<lambda>s. is_fixture (sp_id s) \<and> sp_operation s = OBJECT_ADD) specs" "distinct (map sp_id specs)"
    "string_of (field_of scene ''target_source_id'') \<in> set (map sp_id specs)"
proof -
  let ?o = "list_of (field_of scene ''objects'')" and ?dg = "list_of (get_or scene ''diagnostic_objects'' (PList []))"
  let ?id = "\<lambda>r. py_str pb (field_of r ''id'')"
  obtain d ids where *: "scene = PDict d" "py_eq (field_of scene ''frame_id'') (PStr ''base_link'')"
      "each (validate_fixture pb ae path) (?o @ ?dg) = Inr ids" "distinct ids"
      "string_of (field_of scene ''target_source_id'') \<in> set (map ?id (body_records scene))"
    using valid_scene_facts [OF assms] unfolding body_records_def by metis
  have get_frame: "py_get scene ''frame_id'' = Inr (PStr ''base_link'')"
    using *(2) py_get_field [of scene "''frame_id''"] by (simp add: py_eq_string)
  have spec: "\<exists>s. record_to_spec pb ''base_link'' r = Inr s \<and> sp_id s = i \<and> ?id r = i \<and> is_fixture i \<and> sp_operation s = OBJECT_ADD"
    if valid: "validate_fixture pb ae path r = Inr i" for r i
  proof -
    obtain d s where "r = PDict d" "field_of r ''id'' = PStr i" "is_fixture i" "record_to_spec pb ''base_link'' r = Inr s" "sp_id s = i"
        "one_shape ''base_link'' s"
      using valid by (rule valid_fixture_spec)
    then show ?thesis by (auto simp: one_shape_def py_str_def)
  qed
  obtain specs where specs: "over_fixtures (record_to_spec pb ''base_link'') scene = Inr specs"
      "each (record_to_spec pb ''base_link'') (body_records scene) = Inr specs"
    using over_valid_fixtures [OF assms, of "record_to_spec pb ''base_link''"] spec by blast
  have good: "list_all (\<lambda>s. is_fixture (sp_id s) \<and> sp_operation s = OBJECT_ADD) specs \<and> map sp_id specs = map ?id (body_records scene)"
  proof -
    have "list_all (\<lambda>s. is_fixture (sp_id s) \<and> sp_operation s = OBJECT_ADD) ss \<and> map sp_id ss = map ?id rs"
      if "each (record_to_spec pb ''base_link'') rs = Inr ss" "set rs \<subseteq> set (?o @ ?dg)" for rs ss
      using that
    proof (induction rs arbitrary: ss)
      case (Cons r rs)
      obtain s ss' where s: "record_to_spec pb ''base_link'' r = Inr s" "each (record_to_spec pb ''base_link'') rs = Inr ss'"
          "ss = s # ss'" using Cons.prems(1) by (rule each_Cons_InrE)
      obtain i where "validate_fixture pb ae path r = Inr i" using each_elem [OF *(3), of r] Cons.prems(2) by auto
      then show ?case using spec [of r i] s Cons.IH [OF s(2)] Cons.prems(2) by auto
    qed simp
    then show ?thesis using specs(2) by (force simp: body_records_def)
  qed
  have "ids = map ?id (?o @ ?dg)"
  proof (rule each_mapped [OF *(3)])
    fix r i assume "validate_fixture pb ae path r = Inr i"
    then show "i = ?id r" using spec [of r i] by auto
  qed
  then have distinct_ids: "distinct (map ?id (body_records scene))"
    using *(4) unfolding body_records_def by (simp only: distinct_with_filter)
  have all_specs: "fixture_to_specs pb scene = Inr specs"
    using specs(1) by (simp add: fixture_to_specs_def get_frame py_str_def)
  have owned: "fixture_owned_ids pb scene = Inr (map sp_id specs)"
    unfolding fixture_owned_ids_def by (rule over_fixtures_map [OF record_to_spec_id specs(1)])
  have ids_eq: "map sp_id specs = map ?id (body_records scene)" using good by (rule conjunct2)
  show thesis
    by (rule that [OF all_specs owned conjunct1 [OF good]]) (simp_all only: ids_eq distinct_ids *(5))
qed

text \<open>
  The facts of a loaded scenario: its planning scene is the one of the file, and has been validated.
\<close>

lemma load_scenario_scene:
  assumes "load_scenario pb digest ae path raw = Inr s" "sc_planning_scene s = Some scene"
  obtains d where "raw = PDict d" "field_of raw ''planning_scene'' = scene" "full_string (field_of raw ''id'')"
    "sc_id s = string_of (field_of raw ''id'')" "validate_planning_scene pb digest ae path scene = Inr ()"
proof -
  have dict: "is_dict raw" and "full_string (field_of raw ''id'')"
      "\<exists>w r ss i as bs cs es ds ps. unless_none (field_of raw ''planning_scene'') (validate_planning_scene pb digest ae path) = Inr ss
        \<and> s = \<lparr>sc_id = string_of (field_of raw ''id''), sc_world = w, sc_robot = r, sc_actors = as, sc_objects = bs, sc_regions = cs,
            sc_events = es, sc_dialogue = ds, sc_postconditions = ps, sc_planning_scene = ss, sc_integrated = i,
            sc_declaration = Some (filter (\<lambda>(k, v). k \<noteq> ''id'' \<and> k \<noteq> ''seed'') (dict_of raw))\<rparr>"
    using assms(1) unfolding load_scenario_def Let_def bind_Inr_iff guards_Cons by (simp_all split: if_splits) blast
  moreover obtain d where "raw = PDict d" using dict by (rule is_dictE)
  moreover have "field_of raw ''planning_scene'' = scene \<and> validate_planning_scene pb digest ae path scene = Inr ()"
    if "unless_none (field_of raw ''planning_scene'') (validate_planning_scene pb digest ae path) = Inr (Some scene)"
    using that by (auto simp: unless_none_def bind_Inr_iff split: if_splits)
  ultimately show thesis using that assms(2) by auto
qed

text \<open>C29: A planning scene that passed the validation of a scenario is one the fixture node can start from: with legal timing
  parameters the node initialises, owns exactly the ids of the objects it will insert, all of them its own and distinct, and carries
  the revision, the digest, the source and the handoff that the file declares, the source being one it owns and the handoff
  the agreed one; so its identity is well formed as soon as the digest of its descriptor is one.
\<close>

theorem valid_scene_initializes:
  assumes "load_scenario pb digest ae path raw = Inr s" "sc_planning_scene s = Some scene"
    and "file_name \<noteq> []" "positive_finite period" "positive_finite start_deadline"
  shows "\<exists>c. initialize pb digest json_loads file_name raw period start_deadline [] now = Inr (c, initial_node now)
      \<and> specs_valid c \<and> fc_frame c = Some ''base_link'' \<and> fi_scenario (fc_identity c) = sc_id s
      \<and> fi_owned (fc_identity c) = map sp_id (fc_specs c)
      \<and> field_of scene ''revision'' = PStr (fi_revision (fc_identity c))
      \<and> field_of scene ''revision_digest'' = PStr (fi_digest (fc_identity c))
      \<and> field_of scene ''target_source_id'' = PStr (fi_source (fc_identity c))
      \<and> field_of scene ''target_handoff'' = PStr (fi_handoff (fc_identity c))
      \<and> fi_source (fc_identity c) \<in> set (fi_owned (fc_identity c)) \<and> fi_handoff (fc_identity c) = TARGET_HANDOFF
      \<and> (identity_agrees (fc_identity c) 1 (Fin t) \<longleftrightarrow> hex64 (fi_descriptor (fc_identity c)))"
proof -
  obtain e where raw: "raw = PDict e" "field_of raw ''planning_scene'' = scene" "full_string (field_of raw ''id'')"
      "sc_id s = string_of (field_of raw ''id'')" "validate_planning_scene pb digest ae path scene = Inr ()"
    using assms(1,2) by (rule load_scenario_scene)
  obtain specs where specs: "fixture_to_specs pb scene = Inr specs" "fixture_owned_ids pb scene = Inr (map sp_id specs)"
    "list_all (\<lambda>s. is_fixture (sp_id s) \<and> sp_operation s = OBJECT_ADD) specs" "distinct (map sp_id specs)"
    "string_of (field_of scene ''target_source_id'') \<in> set (map sp_id specs)"
    using raw(5) by (rule valid_scene_specs)
  obtain d where scene: "scene = PDict d" "full_string (field_of scene ''revision'')"
      "field_of scene ''frame_id'' = PStr ''base_link''"
      "string_of (field_of scene ''revision_digest'') = digest (PDict (filter (\<lambda>(k, v). k \<noteq> ''revision_digest'') d))"
      "full_string (field_of scene ''target_source_id'')" "field_of scene ''target_handoff'' = PStr TARGET_HANDOFF"
    using valid_scene_facts [OF raw(5)] unfolding py_eq_string by metis
  have "descriptor_ok (field_of scene ''revision_digest'')"
    using raw(5) by (auto simp: validate_planning_scene_def Let_def bind_Inr_iff simp del: guards.simps)
  then have rd: "field_of scene ''revision_digest'' = PStr (string_of (field_of scene ''revision_digest''))"
    by (cases "field_of scene ''revision_digest''") (auto simp: descriptor_ok_def string_of_def)
  have str_of: "field_of v k = PStr (string_of (field_of v k))" if full: "full_string (field_of v k)" for v k
    using full_string_field [OF full] by (auto simp: string_of_def)
  have str: "str_field pb v k = Inr (string_of (field_of v k))" if full: "full_string (field_of v k)" for v k
  proof -
    obtain x where "field_of v k = PStr x" using full_string_field [OF full] by blast
    then show ?thesis using py_get_field [of v k] by (simp add: str_field_def py_str_def string_of_def)
  qed
  have frame: "str_field pb scene ''frame_id'' = Inr ''base_link''" "str_field pb scene ''target_handoff'' = Inr TARGET_HANDOFF"
    using str [of scene] scene(3,6) by (auto simp: full_string_def string_of_def TARGET_HANDOFF_def)
  have own: "revision_digest digest scene = Inr (string_of (field_of scene ''revision_digest''))"
    unfolding revision_digest_def using scene(1,4) by simp
  obtain descriptor where desc: "fixture_descriptor pb digest scene = Inr descriptor"
    by (simp add: fixture_descriptor_def specs(1,2) str [OF scene(2)] str [OF scene(5)] own frame)
  let ?identity = "\<lparr>fi_scenario = sc_id s, fi_revision = string_of (field_of scene ''revision''),
      fi_digest = string_of (field_of scene ''revision_digest''), fi_owned = map sp_id specs,
      fi_source = string_of (field_of scene ''target_source_id''), fi_handoff = TARGET_HANDOFF, fi_descriptor = digest descriptor\<rparr>"
  have "py_get_default raw ''planning_scene'' PNone = Inr scene"
    using raw(2) by (simp add: raw(1) py_get_default_def field_of_def)
  then have "load_identity pb digest file_name raw = Inr (?identity, scene)"
    using str [OF raw(3)] str [OF scene(2)] str [OF scene(5)] own frame specs(2) desc raw(4)
    unfolding scene(1) by (simp add: load_identity_def)
  moreover have "py_get_default scene ''frame_id'' PNone = Inr (PStr ''base_link'')"
    using scene(3) by (simp add: scene(1) py_get_default_def field_of_def)
  ultimately show ?thesis
    using assms(3-5) specs rd str_of [OF scene(2)] str_of [OF scene(5)] scene(6)
    by (simp add: initialize_def specs_valid_def py_truthy_def py_str_def identity_agrees_def)
qed

section \<open>Operations\<close>

definition boundary :: "scenario_operation \<Rightarrow> pyval" where
  "boundary op = rfield (so_payload op) ''boundary''"

lemma rfield_Cons: "rfield ((k, v) # r) key = (if key = k then v else rfield r key)"
  by (simp add: rfield_def field_of_dict)

lemma spawn_operation_facts:
  assumes "spawn_operation pb resolve root_path r = Inr op"
  shows "so_kind op = ''spawn_entity'' \<and> rfield (so_payload op) ''logical_id'' = rfield r ''id''
    \<and> rfield (so_payload op) ''prim_path'' = PStr (''/World/Scenario/'' @ string_of (rfield r ''id''))
    \<and> full_string (rfield r ''id'') \<and> CHR ''/'' \<notin> set (string_of (rfield r ''id''))"
proof -
  have id: "full_string (rfield r ''id'')" "CHR ''/'' \<notin> set (string_of (rfield r ''id''))"
    using assms by (auto simp: spawn_operation_def Let_def split: if_splits)
  obtain uri frame pf qf where "op = \<lparr>so_kind = ''spawn_entity'', so_payload =
      [(''logical_id'', PStr (string_of (rfield r ''id''))), (''name'', PStr (''/World/Scenario/'' @ string_of (rfield r ''id''))),
       (''entity_namespace'', PStr ''Scenario''), (''prim_path'', PStr (''/World/Scenario/'' @ string_of (rfield r ''id''))),
       (''uri'', PStr uri), (''frame_id'', PStr (py_str pb frame)), (''xyz'', floats pf), (''quaternion_xyzw'', floats qf)]\<rparr>"
    using assms unfolding spawn_operation_def Let_def bind_Inr_iff by (auto simp: bind_Inr_iff split: if_splits)
  moreover have "PStr (string_of (rfield r ''id'')) = rfield r ''id''" using full_string_field [OF id(1)] by simp
  ultimately show ?thesis using id by (simp add: rfield_Cons)
qed

lemma boot_operations_facts:
  assumes "boot_operations resolve root_path s playing = Inr ops"
  shows "list_all (\<lambda>op. so_kind op \<noteq> ''spawn_entity'' \<and> boundary op \<noteq> PStr ''PHYSICS_READY'') ops
    \<and> (if playing then ops = []
       else \<exists>op. ops = [op, \<lparr>so_kind = ''set_simulation_state'', so_payload = [(''state'', PInt 0), (''boundary'', PStr ''SPAWN_READY'')]\<rparr>]
         \<and> so_kind op = (if py_truthy (rfield (sc_world s) ''uri'') then ''load_world'' else ''reset_spawned''))"
  using assms
  by (auto simp: boot_operations_def Let_def bind_Inr_iff boundary_def rfield_Cons rfield_def field_of_def
      split: if_splits pyval.splits)

lemma boundary_final: "boundary (final_operation s seed) = PStr ''PHYSICS_READY''"
  by (simp add: boundary_def final_operation_def rfield_Cons)

text \<open>The compiled operations have the order the simulator relies on: unless spawning happens on the running timeline, the world
  is loaded or reset and the timeline stopped first; then every actor and every object is spawned, in declaration order, each at
  the path of its own id and never below another; the single boundary PHYSICS_READY comes last and carries the seed, which fits 64
  bits.
\<close>

theorem operations_stop_spawn_start:
  assumes "standard_operations pb resolve root_path s seed playing = Inr ops"
  shows "\<exists>boot spawns. ops = boot @ spawns @ [final_operation s seed]
      \<and> (if playing then boot = [] else length boot = 2 \<and> boundary (boot ! 1) = PStr ''SPAWN_READY'')
      \<and> map (\<lambda>op. (so_kind op, rfield (so_payload op) ''prim_path'')) spawns
        = map (\<lambda>r. (''spawn_entity'', PStr (''/World/Scenario/'' @ string_of (rfield r ''id'')))) (sc_actors s @ sc_objects s)
      \<and> list_all (\<lambda>r. full_string (rfield r ''id'') \<and> CHR ''/'' \<notin> set (string_of (rfield r ''id''))) (sc_actors s @ sc_objects s)
      \<and> list_all (\<lambda>op. so_kind op \<noteq> ''spawn_entity'' \<and> boundary op \<noteq> PStr ''PHYSICS_READY'') boot
      \<and> boundary (final_operation s seed) = PStr ''PHYSICS_READY''
      \<and> rfield (so_payload (final_operation s seed)) ''seed'' = PInt seed \<and> 0 \<le> seed \<and> seed < 2 ^ 64"
proof -
  obtain boot spawns where ops: "boot_operations resolve root_path s playing = Inr boot"
      "each (spawn_operation pb resolve root_path) (sc_actors s @ sc_objects s) = Inr spawns"
      "ops = boot @ spawns @ [final_operation s seed]" "0 \<le> seed" "seed < 2 ^ 64"
    using assms by (auto simp: standard_operations_def bind_Inr_iff split: if_splits)
  have "map (\<lambda>op. (so_kind op, rfield (so_payload op) ''prim_path'')) ops'
        = map (\<lambda>r. (''spawn_entity'', PStr (''/World/Scenario/'' @ string_of (rfield r ''id'')))) rs
      \<and> list_all (\<lambda>r. full_string (rfield r ''id'') \<and> CHR ''/'' \<notin> set (string_of (rfield r ''id''))) rs"
    if "each (spawn_operation pb resolve root_path) rs = Inr ops'" for rs ops'
    using that
  proof (induction rs arbitrary: ops')
    case (Cons r rs)
    from Cons.prems show ?case
      by (rule each_Cons_InrE) (use Cons.IH spawn_operation_facts in auto)
  qed simp
  note this [OF ops(2)]
  moreover have "rfield (so_payload (final_operation s seed)) ''seed'' = PInt seed"
    by (simp add: final_operation_def rfield_Cons)
  moreover have "if playing then boot = [] else length boot = 2 \<and> boundary (boot ! 1) = PStr ''SPAWN_READY''"
    using boot_operations_facts [OF ops(1)] by (auto simp: boundary_def rfield_Cons)
  ultimately show ?thesis using boot_operations_facts [OF ops(1)] ops(3-5) boundary_final by blast
qed

section \<open>What the validation lets through\<close>

text \<open>
  An actor and an object with the same id are accepted, since ids are compared within a group only, and are both
  spawned at the same path.
\<close>

definition same_id_scenario :: pyval where
  "same_id_scenario = PDict [(''schema_version'', PInt 2), (''id'', PStr ''s''), (''world'', PDict []), (''robot'', PDict []),
     (''actors'', PList [PDict [(''id'', PStr ''x''), (''asset_uri'', PStr ''omni://a'')]]),
     (''objects'', PList [PDict [(''id'', PStr ''x''), (''asset_uri'', PStr ''omni://b'')]]),
     (''postconditions'', PList [PDict []])]"

definition no_assets :: asset_env where
  "no_assets = \<lparr>ae_files = (\<lambda>_. None), ae_sha256 = (\<lambda>_. []), ae_project_root = ''/repo''\<rparr>"

definition spawn_paths :: "scenario_operation list res \<Rightarrow> pyval list" where
  "spawn_paths r = (case r of Inl _ \<Rightarrow> []
     | Inr ops \<Rightarrow> map (\<lambda>op. rfield (so_payload op) ''prim_path'') (filter (\<lambda>op. so_kind op = ''spawn_entity'') ops))"

lemma same_id_twice:
  "spawn_paths (bind (load_scenario demo_builtins (\<lambda>_. []) no_assets ''s.json'' same_id_scenario)
       (\<lambda>s. standard_operations demo_builtins (\<lambda>_. ([], False)) (''/'', []) s 1 False))
     = [PStr ''/World/Scenario/x'', PStr ''/World/Scenario/x'']"
  by code_simp

text \<open>A dimension given as text passes the validation, but has no canonical geometry.\<close>

definition text_dimension :: pyval where
  "text_dimension = PDict [(''id'', PStr ''sim_fixture/ball''),
     (''pose'', PDict [(''xyz'', PList [PInt 0, PInt 0, PInt 0])]),
     (''primitive'', PDict [(''type'', PStr ''sphere''), (''dimensions'', PList [PStr ''1''])])]"

definition one_text :: py_builtins where
  "one_text = \<lparr>pb_float_text = (\<lambda>s. if s = ''1'' then Some (Fin 1) else None), pb_render = (\<lambda>_. [])\<rparr>"

lemma text_dimension_fails_later:
  "validate_fixture one_text no_assets ''s.json'' text_dimension = Inr ''sim_fixture/ball''
   \<and> bind (record_to_spec one_text ''base_link'' text_dimension) (spec_geometry one_text Inr None)
       = Inl (ValueError ''geometry value must be a finite number'')"
  by code_simp

text \<open>The number one passes as the flag of a diagnostic object, but does not enter it into the collision bodies.\<close>

lemma numeric_flag_is_ignored:
  "flag_declared ''s.json'' (PDict [(''enter_collision_bodies'', PInt 1)]) one_text = Inr ()
   \<and> enters_bodies (PDict [(''enter_collision_bodies'', PInt 1)]) = False"
  by code_simp

section \<open>Witnesses\<close>

definition one_digest :: string where "one_digest = replicate 64 CHR ''a''"

definition valid_scene :: pyval where
  "valid_scene = PDict
     [(''revision'', PStr ''r1''), (''frame_id'', PStr ''base_link''), (''revision_digest'', PStr one_digest),
      (''target_source_id'', PStr ''sim_fixture/bin''), (''target_handoff'', PStr TARGET_HANDOFF),
      (''objects'', PList [PDict [(''id'', PStr ''sim_fixture/table''), (''pose'', PDict [(''xyz'', PList [PInt 0, PInt 0, PInt 1])]),
         (''primitive'', PDict [(''type'', PStr ''box''), (''dimensions'', PList [PInt 1, PInt 1, PInt 1])])]]),
      (''diagnostic_objects'', PList [PDict [(''id'', PStr ''sim_fixture/bin''), (''enter_collision_bodies'', PBool True),
         (''pose'', PDict [(''xyz'', PList [PInt 1, PInt 0, PInt 0])]),
         (''mesh'', PDict [(''uri'', PStr ''bin.stl''), (''sha256'', PStr one_digest)])]])]"

definition valid_scenario :: pyval where
  "valid_scenario = PDict [(''schema_version'', PInt 2), (''id'', PStr ''s''), (''world'', PDict []), (''robot'', PDict []),
     (''planning_scene'', valid_scene), (''actors'', PList [PDict [(''id'', PStr ''x''), (''asset_uri'', PStr ''omni://a'')]]),
     (''objects'', PList [PDict [(''id'', PStr ''y''), (''asset_uri'', PStr ''omni://b'')]]),
     (''postconditions'', PList [PDict []])]"

definition one_asset :: asset_env where
  "one_asset = \<lparr>ae_files = (\<lambda>p. if p = ''/repo/bin.stl'' then Some ''solid'' else None), ae_sha256 = (\<lambda>_. one_digest),
     ae_project_root = ''/repo''\<rparr>"

lemma valid_scenario_loads:
  obtains s where "load_scenario one_text (\<lambda>_. one_digest) one_asset ''s.json'' valid_scenario = Inr s"
    "sc_planning_scene s = Some valid_scene"
proof -
  have "map_sum id sc_planning_scene (load_scenario one_text (\<lambda>_. one_digest) one_asset ''s.json'' valid_scenario)
      = Inr (Some valid_scene)" by code_simp
  then show thesis using that
    by (cases "load_scenario one_text (\<lambda>_. one_digest) one_asset ''s.json'' valid_scenario") auto
qed

lemma valid_scene_initializes_witness:
  "\<exists>c. initialize one_text (\<lambda>_. one_digest) (\<lambda>_. Inr PNone) ''s.json'' valid_scenario (Fin 1) (Fin 60) [] (Fin 0) = Inr (c, initial_node (Fin 0))
      \<and> specs_valid c \<and> fi_owned (fc_identity c) = map sp_id (fc_specs c)"
proof -
  obtain s where "load_scenario one_text (\<lambda>_. one_digest) one_asset ''s.json'' valid_scenario = Inr s"
      "sc_planning_scene s = Some valid_scene" by (rule valid_scenario_loads)
  moreover have "positive_finite (Fin 1)" "positive_finite (Fin 60)" by code_simp+
  ultimately show ?thesis
    using valid_scene_initializes [of one_text "\<lambda>_. one_digest" one_asset "''s.json''" valid_scenario s valid_scene "''s.json''"
        "Fin 1" "Fin 60" "\<lambda>_. Inr PNone" "Fin 0" 0] by blast
qed

definition two_spawns :: scenario where
  "two_spawns = \<lparr>sc_id = ''s'', sc_world = [], sc_robot = [],
     sc_actors = [[(''id'', PStr ''x''), (''asset_uri'', PStr ''omni://a'')]],
     sc_objects = [[(''id'', PStr ''y''), (''asset_uri'', PStr ''omni://b'')]], sc_regions = [], sc_events = [], sc_dialogue = [],
     sc_postconditions = [], sc_planning_scene = None, sc_integrated = None, sc_declaration = None\<rparr>"

lemma operations_stop_spawn_start_witness:
  "\<exists>ops boot spawns. standard_operations one_text (\<lambda>_. ([], False)) (''/'', []) two_spawns 7 False = Inr ops
      \<and> ops = boot @ spawns @ [final_operation two_spawns 7] \<and> length boot = 2 \<and> boundary (boot ! 1) = PStr ''SPAWN_READY''
      \<and> map (\<lambda>op. (so_kind op, rfield (so_payload op) ''prim_path'')) spawns
        = [(''spawn_entity'', PStr ''/World/Scenario/x''), (''spawn_entity'', PStr ''/World/Scenario/y'')]"
proof -
  have "map_sum id length (standard_operations one_text (\<lambda>_. ([], False)) (''/'', []) two_spawns 7 False) = Inr 5" by code_simp
  then obtain ops where ops: "standard_operations one_text (\<lambda>_. ([], False)) (''/'', []) two_spawns 7 False = Inr ops"
    by (cases "standard_operations one_text (\<lambda>_. ([], False)) (''/'', []) two_spawns 7 False") auto
  have paths: "map (\<lambda>r. (''spawn_entity'', PStr (''/World/Scenario/'' @ string_of (rfield r ''id'')))) (sc_actors two_spawns @ sc_objects two_spawns)
      = [(''spawn_entity'', PStr ''/World/Scenario/x''), (''spawn_entity'', PStr ''/World/Scenario/y'')]" by code_simp
  obtain boot spawns where "ops = boot @ spawns @ [final_operation two_spawns 7]" "length boot = 2"
      "boundary (boot ! 1) = PStr ''SPAWN_READY''"
      "map (\<lambda>op. (so_kind op, rfield (so_payload op) ''prim_path'')) spawns
        = [(''spawn_entity'', PStr ''/World/Scenario/x''), (''spawn_entity'', PStr ''/World/Scenario/y'')]"
    using operations_stop_spawn_start [OF ops] unfolding paths if_False
    by (elim exE conjE) (rule that; assumption)
  then show ?thesis using ops by (intro exI conjI)
qed

end
