(* ===== verification/Bringup_Safety.thy ===== *)
theory Bringup_Safety
  imports Scenario_Runner Physics_Gate Report_Safety Scenario_Safety
begin

text \<open>
  The bring-up of a scenario: the runner calls the services in the order of the operations, within its budget of attempts;
  the report it writes opens the gate; the gate decides once and for good; the waiter ends.
\<close>

section \<open>Calls\<close>

text \<open>The requests among \<open>calls\<close> that were accepted, when the first one is the n-th call.\<close>

definition accepts :: "call_outcome \<Rightarrow> bool" where
  "accepts outcome = (case outcome of Response code _ _ \<Rightarrow> code = RESULT_OK | _ \<Rightarrow> False)"

fun accepted :: "(nat \<Rightarrow> call_outcome) \<Rightarrow> nat \<Rightarrow> request list \<Rightarrow> request list" where
  "accepted world n [] = []"
| "accepted world n (c # cs) = (if accepts (world n) then [c] else []) @ accepted world (n + 1) cs"

lemma accepted_append: "accepted world n (xs @ ys) = accepted world n xs @ accepted world (n + length xs) ys"
  by (induction xs arbitrary: n) auto

lemma is_ok_map_sum [simp]: "is_ok (map_sum f g r) = is_ok r"
  by (cases r) auto

text \<open>The call an operation makes.\<close>

definition request_of :: "py_builtins \<Rightarrow> scenario_operation \<Rightarrow> request res" where
  "request_of pb op =
     (if so_kind op = ''load_world'' then bind (str_field pb (PDict (so_payload op)) ''uri'') (\<lambda>uri. Inr (Load_World uri))
      else if so_kind op = ''reset_spawned'' then Inr Reset_Spawned
      else if so_kind op = ''spawn_entity'' then spawn_request pb (so_payload op)
      else bind (bind (py_get (PDict (so_payload op)) ''state'') py_int) (\<lambda>state. Inr (Set_State state)))"

definition made_calls :: "(nat \<Rightarrow> call_outcome) \<Rightarrow> nat \<Rightarrow> request \<Rightarrow> runner \<Rightarrow> runner \<Rightarrow> bool \<Rightarrow> bool" where
  "made_calls world attempts request s s' ok \<longleftrightarrow>
     (\<exists>cs. rn_calls s' = rn_calls s @ cs \<and> set cs \<subseteq> {request} \<and> length cs \<le> attempts
        \<and> accepted world (length (rn_calls s)) cs = (if ok then [request] else []))"

lemma call_made:
  "call_service world request s = (s', r) \<Longrightarrow>
     rn_calls s' = rn_calls s @ [request] \<and> rn_events s' = rn_events s \<and> rn_stop_play s' = rn_stop_play s
     \<and> (accepts (world (length (rn_calls s))) \<longleftrightarrow> (\<exists>e. r = Answered e))"
  by (auto simp: call_service_def accepts_def split: call_outcome.splits if_splits)

lemma call_once_made:
  assumes "call_once world request s = (s', r)"
  shows "made_calls world 1 request s s' (is_ok r)"
proof -
  obtain c where c: "call_service world request s = (s', c)" "is_ok r \<longleftrightarrow> (\<exists>e. c = Answered e)"
    using assms by (auto simp: call_once_def split: prod.splits call_result.splits)
  then show ?thesis using call_made [OF c(1)] by (auto simp: made_calls_def)
qed

lemma retry_made:
  "retry world what attempts request left s = (s', r) \<Longrightarrow> made_calls world left request s s' (is_ok r)"
proof (induction left arbitrary: s s' r)
  case 0
  then show ?case by (auto simp: made_calls_def)
next
  case (Suc left)
  obtain s1 c where c: "call_service world request s = (s1, c)" by fastforce
  note made = call_made [OF c]
  show ?case
  proof (cases "\<exists>m. c = Retryable m \<and> left \<noteq> 0")
    case True
    then have "retry world what attempts request left s1 = (s', r)" using Suc.prems c by auto
    then obtain cs where cs: "rn_calls s' = rn_calls s1 @ cs" "set cs \<subseteq> {request}" "length cs \<le> left"
        "accepted world (length (rn_calls s1)) cs = (if is_ok r then [request] else [])"
      using Suc.IH unfolding made_calls_def by blast
    have "\<not> accepts (world (length (rn_calls s)))" using made True by auto
    then show ?thesis
      unfolding made_calls_def using made cs by (intro exI [of _ "request # cs"]) auto
  next
    case False
    then have "s' = s1 \<and> (is_ok r \<longleftrightarrow> (\<exists>e. c = Answered e))"
      using Suc.prems c by (auto split: call_result.splits if_splits)
    then show ?thesis
      unfolding made_calls_def using made by (intro exI [of _ "[request]"]) auto
  qed
qed

lemma made_more: "made_calls world n request s s' ok \<Longrightarrow> n \<le> m \<Longrightarrow> made_calls world m request s s' ok"
  unfolding made_calls_def by (meson le_trans)

text \<open>One operation: either it makes no call and fails, or it makes its call, once accepted when it succeeds.\<close>

lemma operation_calls:
  assumes "execute_operation pb world attempts index op s = (s', r)" and "1 \<le> attempts"
  shows "s' = s \<and> \<not> is_ok r \<or> (\<exists>request ok. request_of pb op = Inr request \<and> made_calls world attempts request s s' ok \<and> (is_ok r \<longrightarrow> ok))"
proof -
  have more: "made_calls world 1 request s s' ok \<Longrightarrow> made_calls world attempts request s s' ok" for request ok
    using made_more assms(2) by blast
  consider (load) "so_kind op = ''load_world''" | (reset) "so_kind op = ''reset_spawned''" | (spawn) "so_kind op = ''spawn_entity''"
    | (state) "so_kind op = ''set_simulation_state''"
    | (other) "so_kind op \<notin> {''load_world'', ''reset_spawned'', ''spawn_entity'', ''set_simulation_state''}" by blast
  then show ?thesis
  proof cases
    case load
    show ?thesis
    proof (cases "str_field pb (PDict (so_payload op)) ''uri''")
      case (Inr uri)
      obtain s1 q where q: "call_once world (Load_World uri) s = (s1, q)" by fastforce
      then have "s1 = s'" "is_ok r = is_ok q"
        using assms(1) Inr load by (auto simp: execute_operation_def Let_def)
      then show ?thesis using call_once_made [OF q] more Inr load by (auto simp: request_of_def)
    qed (use assms(1) load in \<open>auto simp: execute_operation_def Let_def\<close>)
  next
    case reset
    show ?thesis
    proof (cases "index = 0")
      case True
      obtain s1 q where q: "retry world ''initial reset'' attempts Reset_Spawned attempts s = (s1, q)" by fastforce
      then have "s1 = s'" "is_ok r = is_ok q" using assms(1) True reset by (auto simp: execute_operation_def Let_def)
      then show ?thesis using retry_made [OF q] reset by (auto simp: request_of_def)
    next
      case False
      obtain s1 q where q: "call_once world Reset_Spawned s = (s1, q)" by fastforce
      then have "s1 = s'" "is_ok r = is_ok q" using assms(1) False reset by (auto simp: execute_operation_def Let_def)
      then show ?thesis using call_once_made [OF q] more reset by (auto simp: request_of_def)
    qed
  next
    case spawn
    then have run: "execute_spawn pb world (so_payload op) s = (s', r)" using assms(1) by (simp add: execute_operation_def)
    show ?thesis
    proof (cases "spawn_request pb (so_payload op)")
      case (Inr request)
      obtain s1 q where q: "call_once world request s = (s1, q)" by fastforce
      then have "rn_calls s' = rn_calls s1" "is_ok r \<longrightarrow> is_ok q"
        using run Inr by (auto simp: execute_spawn_def split: sum.splits if_splits)
      then have "made_calls world attempts request s s' (is_ok q)" "is_ok r \<longrightarrow> is_ok q"
        using more call_once_made [OF q] by (auto simp: made_calls_def)
      then show ?thesis using spawn Inr by (auto simp: request_of_def)
    qed (use run in \<open>auto simp: execute_spawn_def\<close>)
  next
    case state
    then have run: "execute_state pb world attempts (so_payload op) s = (s', r)" using assms(1) by (simp add: execute_operation_def)
    show ?thesis
    proof (cases "bind (py_get (PDict (so_payload op)) ''state'') py_int")
      case (Inr n)
      show ?thesis
      proof (cases "n \<in> {STATE_STOPPED, SIMULATION_STATE_PLAYING}")
        case True
        obtain s1 q where q: "retry world ''set_simulation_state'' attempts (Set_State n) attempts s = (s1, q)" by fastforce
        then have "rn_calls s' = rn_calls s1" "is_ok r = is_ok q"
          using run Inr True by (auto simp: execute_state_def Let_def split: sum.splits if_splits)
        then have "made_calls world attempts (Set_State n) s s' (is_ok q)" "is_ok r = is_ok q"
          using retry_made [OF q] by (auto simp: made_calls_def)
        then show ?thesis using state Inr by (auto simp: request_of_def)
      qed (use run Inr in \<open>auto simp: execute_state_def\<close>)
    qed (use run in \<open>auto simp: execute_state_def\<close>)
  next
    case other
    then show ?thesis using assms(1) by (auto simp: execute_operation_def Let_def)
  qed
qed

lemma execute_from_calls:
  assumes "execute_from pb world attempts index ops s = (s', r)" and "1 \<le> attempts"
  shows "\<exists>cs k. rn_calls s' = rn_calls s @ cs \<and> k \<le> length ops \<and> length cs \<le> attempts * length ops
      \<and> map Inr (accepted world (length (rn_calls s)) cs) = map (request_of pb) (take k ops)
      \<and> (\<forall>c \<in> set cs. Inr c \<in> request_of pb ` set (take (k + 1) ops)) \<and> (is_ok r \<longrightarrow> k = length ops)"
  using assms(1)
proof (induction ops arbitrary: index s r)
  case (Cons op ops)
  obtain s1 q where q: "execute_operation pb world attempts index op s = (s1, q)" by fastforce
  from operation_calls [OF q assms(2)] consider
      (none) "s1 = s" "\<not> is_ok q"
    | (some) request ok where "request_of pb op = Inr request" "made_calls world attempts request s s1 ok" "is_ok q \<longrightarrow> ok" by blast
  then show ?case
  proof cases
    case none
    then have "s' = s" "\<not> is_ok r" using Cons.prems q by (auto split: sum.splits)
    then show ?thesis by (intro exI [of _ "[]"] exI [of _ 0]) simp
  next
    case some
    obtain cs1 where cs1: "rn_calls s1 = rn_calls s @ cs1" "set cs1 \<subseteq> {request}" "length cs1 \<le> attempts"
        "accepted world (length (rn_calls s)) cs1 = (if ok then [request] else [])"
      using some(2) unfolding made_calls_def by blast
    show ?thesis
    proof (cases "\<exists>x y. q = Inr x \<and> operation_result pb op = Inr y")
      case False
      then have "s' = s1" "\<not> is_ok r" using Cons.prems q by (auto split: sum.splits)
      then show ?thesis
        using cs1 some(1) by (intro exI [of _ cs1] exI [of _ "if ok then 1 else 0"]) auto
    next
      case True
      then obtain s2 r2 where r2: "execute_from pb world attempts (index + 1) ops s1 = (s2, r2)" "s' = s2" "is_ok r \<longleftrightarrow> is_ok r2"
        using Cons.prems q by (auto split: sum.splits prod.splits)
      then obtain cs k where cs: "rn_calls s' = rn_calls s1 @ cs" "k \<le> length ops" "length cs \<le> attempts * length ops"
          "map Inr (accepted world (length (rn_calls s1)) cs) = map (request_of pb) (take k ops)"
          "\<forall>c \<in> set cs. Inr c \<in> request_of pb ` set (take (k + 1) ops)" "is_ok r \<longrightarrow> k = length ops"
        using Cons.IH [of "index + 1" s1 r2] by auto
      have "ok" using True some(3) by auto
      then show ?thesis
        using cs cs1 some(1)
        by (intro exI [of _ "cs1 @ cs"] exI [of _ "Suc k"]) (auto simp: accepted_append)
    qed
  qed
qed auto

text \<open>C32: The runner keeps the order of the operations: in every run, whatever the services do, the requests that were accepted are
  exactly those of a prefix of the operations, in order; every call belongs to that prefix or to the operation after it; the
  calls number at most the allowed attempts times the operations; and the run succeeds only when every operation was accepted.
\<close>

theorem runner_keeps_order:
  assumes "execute pb world attempts ops runner_new = (s, r)" and "1 \<le> attempts"
  shows "\<exists>k \<le> length ops. map Inr (accepted world 0 (rn_calls s)) = map (request_of pb) (take k ops)
      \<and> (\<forall>c \<in> set (rn_calls s). Inr c \<in> request_of pb ` set (take (k + 1) ops))
      \<and> length (rn_calls s) \<le> attempts * length ops \<and> (is_ok r \<longrightarrow> k = length ops)"
  using execute_from_calls [of pb world attempts 0 ops "runner_new\<lparr>rn_stop_play := False\<rparr>" s r] assms
  by (auto simp: execute_def runner_new_def)

section \<open>The report of a run\<close>

lemma execute_from_results:
  "execute_from pb world attempts index ops s = (s', Inr rs) \<Longrightarrow> each (operation_result pb) ops = Inr rs"
proof (induction ops arbitrary: index s s' rs)
  case (Cons op ops)
  obtain s1 q where "execute_operation pb world attempts index op s = (s1, q)" by fastforce
  then obtain r s2 rs' where r: "operation_result pb op = Inr r" "execute_from pb world attempts (index + 1) ops s1 = (s2, Inr rs')"
      "rs = r # rs'"
    using Cons.prems by (auto split: sum.splits prod.splits)
  then show ?case using Cons.IH [OF r(2)] by simp
qed simp

lemma each_last: "each f xs = Inr ys \<Longrightarrow> xs \<noteq> [] \<Longrightarrow> ys \<noteq> [] \<and> f (last xs) = Inr (last ys)"
proof (induction xs arbitrary: ys)
  case (Cons x xs)
  from Cons.prems(1) obtain z zs where z: "f x = Inr z" "each f xs = Inr zs" "ys = z # zs" by (rule each_Cons_InrE)
  then show ?case using Cons.IH [OF z(2)] by (cases xs) auto
qed simp

lemma final_result: "operation_result pb (final_operation s seed) = Inr planned_end"
proof -
  have "py_get (PDict (so_payload (final_operation s seed))) ''state'' = Inr (PInt 1)"
    "has_key (PDict (so_payload (final_operation s seed))) ''boundary''"
    "field_of (PDict (so_payload (final_operation s seed))) ''boundary'' = PStr ''PHYSICS_READY''"
    by (simp_all add: final_operation_def py_get_def has_key_def field_of_dict)
  then show ?thesis
    unfolding operation_result_def Let_def
    by (simp add: py_int_def py_str_def planned_end_def final_operation_def)
qed

lemma standard_operations_last:
  assumes "standard_operations pb resolve root_path s seed playing = Inr ops"
  shows "ops \<noteq> [] \<and> last ops = final_operation s seed"
  using assms by (auto simp: standard_operations_def bind_Inr_iff split: if_splits)

lemma executed_results:
  assumes "standard_operations pb resolve root_path s seed playing = Inr ops" "execute pb world attempts ops r0 = (r, Inr results)"
  shows "results \<noteq> [] \<and> last results = planned_end"
proof -
  have each: "each (operation_result pb) ops = Inr results"
    using execute_from_results assms(2) unfolding execute_def by blast
  have "results \<noteq> []" "operation_result pb (last ops) = Inr (last results)"
    using each_last [OF each] standard_operations_last [OF assms(1)] by blast+
  then show ?thesis using final_result standard_operations_last [OF assms(1)] by simp
qed

lemma run_integrated_InrE:
  assumes "run_integrated pb sha loads resolve root_path raw s seed playing integrated expected manifest_digest ready world attempts
      = (r, Inr report)"
  obtains v decl ops results where "sc_planning_scene s = Some v"
    "decl = filter (\<lambda>(k, v). k \<noteq> ''id'' \<and> k \<noteq> ''seed'') (dict_of raw)"
    "verify_expected_values pb sha loads (ec_scenario_id expected) seed decl (dict_of v) integrated expected = Inr []"
    "standard_operations pb resolve root_path s seed playing = Inr ops"
    "execute pb world attempts ops runner_new = (r, Inr results)"
    "build_scenario_report pb sha (sc_id s) seed decl (dict_of v) integrated results (ec_fingerprint expected)
       (ec_manifest expected) = Inr report"
proof -
  let ?decl = "filter (\<lambda>(k, v). k \<noteq> ''id'' \<and> k \<noteq> ''seed'') (dict_of raw)"
  obtain v where v: "sc_planning_scene s = Some v"
    using assms by (auto simp: run_integrated_def Let_def split: option.splits)
  obtain reasons where reasons: "verify_expected_values pb sha loads (ec_scenario_id expected) seed ?decl (dict_of v)
      integrated expected = Inr reasons"
    using assms by (auto simp: run_integrated_def Let_def v split: sum.splits)
  then have none: "reasons = []"
    using assms by (auto simp: run_integrated_def Let_def v split: if_splits)
  obtain ops where ops: "standard_operations pb resolve root_path s seed playing = Inr ops" "\<exists>u. ready = Inr u"
    using assms reasons none
    by (auto simp: run_integrated_def Let_def v bind_Inr_iff split: if_splits sum.splits prod.splits)
  then obtain results where "execute pb world attempts ops runner_new = (r, Inr results)"
    "build_scenario_report pb sha (sc_id s) seed ?decl (dict_of v) integrated results (ec_fingerprint expected)
       (ec_manifest expected) = Inr report"
    using assms reasons none
    by (auto simp: run_integrated_def Let_def v split: if_splits sum.splits prod.splits)
  then show thesis using that v reasons none ops by blast
qed

text \<open>The verification passes when the contract is the one the scenario declares.\<close>

lemma verify_complete:
  assumes "planning_scene_mapping pb (PDict scene) = Inr (expected_planning_scene_contract pb loads expected)"
    and "ec_declaration expected = sha256_json sha (scenario_mapping (ec_scenario_id expected) (ec_seed expected) decl)"
    and "contract_integrated expected = Some (PDict integrated)" "integrated = [(''execution_profile'', PStr profile)]"
    and "planning_scene_digest sha scene = ec_revision_digest expected"
    and "fixture_owned_ids pb (PDict scene) = Inr owned" "expected_owned pb loads (ec_owned expected) = Inr owned"
  shows "verify_expected_values pb sha loads (ec_scenario_id expected) (ec_seed expected) decl scene integrated expected = Inr []"
proof -
  obtain r where r: "build_canonical_report pb sha (ec_scenario_id expected) (ec_seed expected) decl (PDict scene) integrated [planned_end]
      (ec_fingerprint expected) (ec_manifest expected) FINAL_SIMULATION_STATE = Inr r"
    by (simp add: build_canonical_report_def report_identities_def assms(1))
  have "ends_playing planned_end"
    by (simp add: ends_playing_def planned_end_def SIMULATION_STATE_PLAYING_def PHYSICS_READY_BOUNDARY_def)
  then have "report_agrees pb sha loads expected (sorted_keys r)"
    using built_agrees [OF r assms(4)] assms(1-3) by simp
  moreover have check: "check_report pb (sorted_keys r) = Inr (sorted_keys r)" using r assms(4) by (rule check_built)
  ultimately have "vr_ready (validate_report pb sha loads r expected)" using valid_report_iff(1) by blast
  then have "vr_reasons (validate_report pb sha loads r expected) = []"
    by (simp add: validate_report_def check Let_def)
  then show ?thesis by (simp add: verify_expected_values_def r assms(5-7) Let_def)
qed

lemma run_after_verify:
  assumes "verify_expected_values pb sha loads (ec_scenario_id expected) seed (filter (\<lambda>(k, v). k \<noteq> ''id'' \<and> k \<noteq> ''seed'') (dict_of raw))
      (dict_of v) integrated expected = Inr []"
    and "sc_planning_scene s = Some v" "standard_operations pb resolve root_path s seed playing = Inr ops"
    and "execute pb world attempts ops runner_new = (r, Inr results)"
  shows "run_integrated pb sha loads resolve root_path raw s seed playing integrated expected None (Inr u) world attempts
      = (r, build_scenario_report pb sha (sc_id s) seed (filter (\<lambda>(k, v). k \<noteq> ''id'' \<and> k \<noteq> ''seed'') (dict_of raw)) (dict_of v)
              integrated results (ec_fingerprint expected) (ec_manifest expected))"
  using assms by (simp add: run_integrated_def Let_def)

text \<open>A verified run leaves a report that agrees with the contract it was verified against.\<close>

lemma verified_report:
  assumes "run_integrated pb sha loads resolve root_path raw s seed playing integrated expected manifest_digest ready world attempts
      = (r, Inr report)"
    and "sc_id s = ec_scenario_id expected" and "integrated = [(''execution_profile'', PStr profile)]"
  shows "check_report pb (sorted_keys report) = Inr (sorted_keys report) \<and> report_agrees pb sha loads expected (sorted_keys report)"
proof -
  obtain v decl ops results where run:
    "verify_expected_values pb sha loads (ec_scenario_id expected) seed decl (dict_of v) integrated expected = Inr []"
    "standard_operations pb resolve root_path s seed playing = Inr ops"
    "execute pb world attempts ops runner_new = (r, Inr results)"
    "build_scenario_report pb sha (sc_id s) seed decl (dict_of v) integrated results (ec_fingerprint expected)
       (ec_manifest expected) = Inr report"
    using assms(1) by (rule run_integrated_InrE)
  obtain planned where planned: "build_canonical_report pb sha (ec_scenario_id expected) seed decl (PDict (dict_of v)) integrated
      [planned_end] (ec_fingerprint expected) (ec_manifest expected) FINAL_SIMULATION_STATE = Inr planned"
    "vr_reasons (validate_report pb sha loads planned expected) = []"
    using run(1) by (auto simp: verify_expected_values_def bind_Inr_iff Let_def)
  have built: "build_canonical_report pb sha (ec_scenario_id expected) seed decl (PDict (dict_of v)) integrated
      results (ec_fingerprint expected) (ec_manifest expected) FINAL_SIMULATION_STATE = Inr report"
    using run(4) assms(2) by (simp add: build_scenario_report_def)
  have "vr_reasons (validate_report pb sha loads report expected) = []"
    using same_end_same_reasons [OF built planned(1) _ _ _ assms(3)] executed_results [OF run(2,3)] planned(2) by simp
  moreover have check: "check_report pb (sorted_keys report) = Inr (sorted_keys report)" using built assms(3) by (rule check_built)
  ultimately show ?thesis
    using valid_report_iff [OF check] by (simp add: validate_report_def check Let_def)
qed

section \<open>The gate\<close>

lemma parse_report_cases:
  "parse_report pb sha loads f g = (g', r) \<Longrightarrow>
     (pg_state g' = STATE_READY \<and> r = Inr () \<longleftrightarrow>
        (\<exists>data report. rf_bytes f = Some data \<and> parse_canonical_report pb loads data = Inr report
           \<and> vr_ready (validate_report pb sha loads report (pg_expected g)) \<and> is_ok (rf_written f)))
     \<or> pg_state g = STATE_READY"
  by (auto simp: parse_report_def fail_gate_def Let_def STATE_READY_def STATE_FAILED_def
      split: option.splits sum.splits if_splits)

lemma parse_report_state:
  "parse_report pb sha loads f g = (g', Inr u) \<Longrightarrow>
     pg_expected g' = pg_expected g
     \<and> (pg_state g' = STATE_FAILED \<or> pg_state g' = STATE_READY \<and>
         (\<exists>data report. rf_bytes f = Some data \<and> parse_canonical_report pb loads data = Inr report \<and> pg_report g' = Some report
           \<and> vr_ready (validate_report pb sha loads report (pg_expected g)) \<and> rf_written f = Inr ()))"
  by (auto simp: parse_report_def fail_gate_def Let_def split: option.splits sum.splits if_splits)

lemma observe_keeps [simp]:
  "pg_state (observe_sim_state now v g) = pg_state g" "pg_report (observe_sim_state now v g) = pg_report g"
  by (auto simp: observe_sim_state_def Let_def split: option.splits state_call.splits)

fun gate_run :: "py_builtins \<Rightarrow> (pyval \<Rightarrow> string) \<Rightarrow> (string \<Rightarrow> pyval option) \<Rightarrow> (pyfloat \<times> state_view \<times> report_file) list
    \<Rightarrow> gate \<Rightarrow> gate" where
  "gate_run pb sha loads [] g = g"
| "gate_run pb sha loads ((now, v, f) # ts) g = gate_run pb sha loads ts (fst (gate_tick pb sha loads now v f g))"

lemma decided_run:
  "pg_state g \<noteq> STATE_PENDING \<Longrightarrow> pg_state (gate_run pb sha loads ticks g) = pg_state g
     \<and> pg_report (gate_run pb sha loads ticks g) = pg_report g"
proof (induction ticks arbitrary: g)
  case (Cons t ticks)
  obtain now v f where "t = (now, v, f)" by (cases t)
  then show ?case using Cons by (simp add: gate_tick_def Let_def)
qed simp

lemma gate_initialize_InrE:
  assumes "gate_initialize pb sha loads p started f = Inr g"
  obtains expected where "build_expected loads p = Inr expected"
    "parse_report pb sha loads f (gate_new p started expected) = (g, Inr ())"
proof -
  obtain expected where expected: "build_expected loads p = Inr expected"
    using assms by (auto simp: gate_initialize_def bind_Inr_iff split: if_splits)
  obtain g' r where "parse_report pb sha loads f (gate_new p started expected) = (g', r)" by fastforce
  then show thesis
    using that assms expected by (cases r) (auto simp: gate_initialize_def split: if_splits)
qed

lemma gate_new_fields [simp]:
  "pg_expected (gate_new p started expected) = expected" "pg_state (gate_new p started expected) = STATE_PENDING"
  "pg_report (gate_new p started expected) = None"
  by (simp_all add: gate_new_def)

lemma accepted_report:
  "parse_canonical_report pb loads data = Inr report \<and> vr_ready (validate_report pb sha loads report expected) \<longleftrightarrow>
     loads data = Some report \<and> check_report pb report = Inr report
     \<and> check_report pb (sorted_keys report) = Inr (sorted_keys report) \<and> report_agrees pb sha loads expected (sorted_keys report)"
proof -
  have "parse_canonical_report pb loads data = Inr report \<longleftrightarrow> loads data = Some report \<and> check_report pb report = Inr report"
    using check_report_same [of pb _ report] by (auto simp: parse_canonical_report_def split: option.split)
  then show ?thesis
    using valid_report_checked [of pb sha loads report expected] valid_report_iff(1) [of pb report sha loads expected] by blast
qed

text \<open>C31: The gate decides when it is created, for good: after any number of ticks it answers the ready service with success exactly
  when the report file it found then was readable, passed the structural check, agreed with the parameters of the
  gate and \<open>physics-ready.json\<close> was written; otherwise it has failed, and no later change of the file opens it.
\<close>

theorem gate_decides_once:
  assumes "gate_initialize pb sha loads p started f = Inr g" and "build_expected loads p = Inr expected"
  shows "fst (gate_on_ready (gate_run pb sha loads ticks g) t)
      = (\<exists>data report. rf_bytes f = Some data \<and> loads data = Some report \<and> check_report pb report = Inr report
           \<and> check_report pb (sorted_keys report) = Inr (sorted_keys report)
           \<and> report_agrees pb sha loads expected (sorted_keys report) \<and> rf_written f = Inr ())"
proof -
  have parsed: "parse_report pb sha loads f (gate_new p started expected) = (g, Inr ())"
    using assms by (auto elim!: gate_initialize_InrE)
  have state: "pg_state g \<noteq> STATE_PENDING"
    using parse_report_state [OF parsed] by (auto simp: STATE_PENDING_def STATE_READY_def STATE_FAILED_def)
  have "fst (gate_on_ready (gate_run pb sha loads ticks g) t) = (pg_state g = STATE_READY \<and> pg_report g \<noteq> None)"
    using decided_run [OF state] by (simp add: gate_on_ready_def)
  also have "\<dots> = (\<exists>data report. rf_bytes f = Some data \<and> parse_canonical_report pb loads data = Inr report
           \<and> vr_ready (validate_report pb sha loads report expected) \<and> rf_written f = Inr ())"
    using parse_report_cases [OF parsed] parse_report_state [OF parsed]
    by (auto simp: is_ok_iff STATE_PENDING_def STATE_READY_def STATE_FAILED_def)
  also have "\<dots> = (\<exists>data report. rf_bytes f = Some data \<and> loads data = Some report \<and> check_report pb report = Inr report
           \<and> check_report pb (sorted_keys report) = Inr (sorted_keys report)
           \<and> report_agrees pb sha loads expected (sorted_keys report) \<and> rf_written f = Inr ())"
    using accepted_report [of pb loads _ _ sha expected] by blast
  finally show ?thesis .
qed

lemma agrees_public:
  "contract_integrated expected = Some v \<Longrightarrow>
     report_agrees pb sha loads (expected\<lparr>ec_public := Some v, ec_integrated := Some v\<rparr>) report
       = report_agrees pb sha loads expected report"
  by (simp add: report_agrees_def Let_def contract_integrated_def expected_planning_scene_contract_def)

text \<open>The parts of a bring-up fit together: the arguments of the gate are those the run was verified against.\<close>

definition launched :: "(string \<Rightarrow> pyval option) \<Rightarrow> gate_parameters \<Rightarrow> expected_contract \<Rightarrow> pyval \<Rightarrow> bool" where
  "launched loads p expected integrated \<longleftrightarrow>
     build_expected loads p = Inr (expected\<lparr>ec_public := Some integrated, ec_integrated := Some integrated\<rparr>)
     \<and> ec_public expected = None \<and> ec_integrated expected = Some integrated
     \<and> gp_report_path p \<noteq> [] \<and> gp_ready_path p \<noteq> [] \<and> flt (Fin 0) (gp_period p) \<and> flt (Fin 0) (gp_timeout p)"

lemma gate_opens:
  assumes "launched loads p expected integrated" and "rf_bytes f = Some data" "loads data = Some (sorted_keys report)" "rf_written f = Inr ()"
    and "check_report pb (sorted_keys report) = Inr (sorted_keys report)" "report_agrees pb sha loads expected (sorted_keys report)"
  shows "\<exists>g. gate_initialize pb sha loads p started f = Inr g \<and> pg_state g = STATE_READY \<and> pg_report g \<noteq> None"
proof -
  let ?e = "expected\<lparr>ec_public := Some integrated, ec_integrated := Some integrated\<rparr>"
  have "contract_integrated expected = Some integrated" using assms(1) by (simp add: launched_def contract_integrated_def)
  then have "report_agrees pb sha loads ?e (sorted_keys report)" using assms(6) by (simp only: agrees_public)
  then have valid: "parse_canonical_report pb loads data = Inr (sorted_keys report) \<and> vr_ready (validate_report pb sha loads (sorted_keys report) ?e)"
    using assms(3,5) by (simp add: accepted_report)
  then obtain g where g: "parse_report pb sha loads f (gate_new p started ?e) = (g, Inr ())" "pg_state g = STATE_READY" "pg_report g \<noteq> None"
    using assms(2,4) by (auto simp: parse_report_def Let_def)
  have "gate_initialize pb sha loads p started f = Inr g"
    using assms(1) g(1) by (simp add: gate_initialize_def launched_def)
  then show ?thesis using g by blast
qed

text \<open>C30: A verified run brings the simulation up: when the runner, having verified the scenario against the launch's contract, executed the
  standard operations and wrote its report, the gate that is launched with the same contract opens on that report, keeps
  answering with success whatever its ticks observe, and a waiter that gets its answer in time ends with success.
\<close>

theorem verified_run_opens_gate:
  assumes "run_integrated pb sha loads resolve root_path raw s seed playing integrated expected manifest_digest services world attempts
      = (r, Inr report)"
    and "sc_id s = ec_scenario_id expected" and "integrated = [(''execution_profile'', PStr profile)]"
    and "launched loads p expected (PDict integrated)"
    and "rf_bytes f = Some data" "loads data = Some (sorted_keys report)" "rf_written f = Inr ()"
    and "flt (Fin 0) (fsub deadline now)"
  shows "\<exists>g. gate_initialize pb sha loads p started f = Inr g \<and> fst (gate_on_ready (gate_run pb sha loads ticks g) t)
      \<and> wait_loop loads deadline (\<lparr>at_before = now, at_reply = Trigger (fst (gate_on_ready (gate_run pb sha loads ticks g) t)) m,
          at_after = later\<rparr> # attempts_left) = Some EXIT_SUCCESS"
proof -
  obtain g where g: "gate_initialize pb sha loads p started f = Inr g" "pg_state g = STATE_READY" "pg_report g \<noteq> None"
    using gate_opens [OF assms(4-7)] verified_report [OF assms(1-3)] by blast
  have "\<not> fle (fsub deadline now) (Fin 0)" using assms(8) by (cases "fsub deadline now") auto
  moreover have "fst (gate_on_ready (gate_run pb sha loads ticks g) t)"
    using decided_run [of g pb sha loads ticks] g(2,3) by (simp add: gate_on_ready_def STATE_PENDING_def STATE_READY_def)
  ultimately show ?thesis using g(1) by auto
qed

section \<open>The waiter\<close>

text \<open>C34: The waiter ends: once its clock has passed the deadline at some turn it has returned, and it returns success only if the
  service answered with success at a turn before the deadline.
\<close>

theorem waiter_ends:
  assumes "a \<in> set as" and "fle (fsub deadline (at_before a)) (Fin 0)"
  shows "\<exists>code. wait_loop loads deadline as = Some code \<and> code \<in> {EXIT_SUCCESS, EXIT_CALL_FAILED, EXIT_CALL_TIMEOUT}
      \<and> (code = EXIT_SUCCESS \<longrightarrow>
         (\<exists>b m. b \<in> set as \<and> at_reply b = Trigger True m \<and> \<not> fle (fsub deadline (at_before b)) (Fin 0)))"
  using assms
proof (induction as)
  case (Cons b as)
  show ?case
  proof (cases "wait_loop loads deadline (b # as) = wait_loop loads deadline as \<and> a \<noteq> b")
    case True
    then obtain code where "wait_loop loads deadline as = Some code" "code \<in> {EXIT_SUCCESS, EXIT_CALL_FAILED, EXIT_CALL_TIMEOUT}"
        "code = EXIT_SUCCESS \<longrightarrow>
         (\<exists>b m. b \<in> set as \<and> at_reply b = Trigger True m \<and> \<not> fle (fsub deadline (at_before b)) (Fin 0))"
      using Cons by auto
    then show ?thesis using True by (intro exI [of _ code]) auto
  next
    case False
    then show ?thesis using Cons.prems
      by (auto simp: EXIT_SUCCESS_def EXIT_CALL_FAILED_def EXIT_CALL_TIMEOUT_def split: reply.splits if_splits)
  qed
qed simp

section \<open>What the checks leave open\<close>

text \<open>The revision digest of the contract is not compared: the gate opens whatever it says.\<close>

lemma revision_digest_unchecked:
  "validate_report pb sha loads report (expected\<lparr>ec_revision_digest := anything\<rparr>) = validate_report pb sha loads report expected"
proof -
  have "contract_integrated (expected\<lparr>ec_revision_digest := anything\<rparr>) = contract_integrated expected"
    by (cases "ec_public expected") (simp_all add: contract_integrated_def)
  moreover have "expected_planning_scene_contract pb loads (expected\<lparr>ec_revision_digest := anything\<rparr>)
      = expected_planning_scene_contract pb loads expected" by (simp add: expected_planning_scene_contract_def)
  ultimately have "report_reasons pb sha loads (expected\<lparr>ec_revision_digest := anything\<rparr>) = report_reasons pb sha loads expected"
    by (intro ext) (simp add: report_reasons_def)
  then show ?thesis unfolding validate_report_def by (rule ssubst) (rule refl)
qed

text \<open>A status that is a JSON number, or a text or list that contains the name of the field, ends the runner.\<close>

lemma scalar_status_raises:
  "on_status (\<lambda>_. Some (PInt 3)) m s = Inl (TypeError ''argument is not iterable'')"
  "on_status (\<lambda>_. Some (PList [PStr ''services_ready''])) m s = Inl (OtherError ''no attribute get'')"
  by (simp_all add: on_status_def contains_field_def py_get_default_def scalar_eq_def)

text \<open>The gate is never pending: its time limit and the reading of the report at a tick are never reached.\<close>

lemma gate_never_pending:
  assumes "gate_initialize pb sha loads p started f = Inr g"
  shows "pg_state (gate_run pb sha loads ticks g) \<noteq> STATE_PENDING"
proof -
  obtain expected where "parse_report pb sha loads f (gate_new p started expected) = (g, Inr ())"
    using assms by (rule gate_initialize_InrE)
  then have "pg_state g \<noteq> STATE_PENDING"
    using parse_report_state by (fastforce simp: STATE_PENDING_def STATE_READY_def STATE_FAILED_def)
  then show ?thesis using decided_run by metis
qed

section \<open>Witnesses\<close>

definition run_scene :: record_dict where
  "run_scene = [(''revision'', PStr ''r1''), (''target_source_id'', PStr ''sim_fixture/bin''), (''target_handoff'', PStr TARGET_HANDOFF),
     (''objects'', PList [PDict [(''id'', PStr ''sim_fixture/bin'')]])]"

definition public :: record_dict where "public = [(''execution_profile'', PStr ''sim_ompl'')]"

definition demo_texts :: "string \<Rightarrow> pyval option" where
  "demo_texts t = (if t = ''ids'' then Some (PList [PStr ''sim_fixture/bin'']) else if t = ''public'' then Some (PDict public) else None)"

definition demo_contract :: expected_contract where
  "demo_contract = \<lparr>ec_scenario_id = ''s'', ec_seed = 7, ec_declaration = one_digest, ec_revision = ''r1'', ec_revision_digest = one_digest,
     ec_owned = PStr ''ids'', ec_source = ''sim_fixture/bin'', ec_handoff = TARGET_HANDOFF, ec_public = None,
     ec_integrated = Some (PDict public), ec_fingerprint = ''fp'', ec_manifest = ''mf''\<rparr>"

definition demo_parameters :: gate_parameters where
  "demo_parameters = \<lparr>gp_report_path = ''/r'', gp_ready_path = ''/p'', gp_period = Fin 1, gp_timeout = Fin 30, gp_scenario_id = ''s'', gp_seed = 7,
     gp_declaration = one_digest, gp_revision = ''r1'', gp_revision_digest = one_digest, gp_owned = ''ids'',
     gp_source = ''sim_fixture/bin'', gp_handoff = TARGET_HANDOFF, gp_integrated = ''public'', gp_public = ''public'', gp_fingerprint = ''fp'',
     gp_manifest_path = ''/m'', gp_manifest = ''mf'', gp_contract_sha256 = []\<rparr>"

text \<open>The texts of the launch and of the report file.\<close>

definition all_texts :: "pyval \<Rightarrow> string \<Rightarrow> pyval option" where
  "all_texts report t = (if t = ''report'' then Some (sorted_keys report) else demo_texts t)"

lemma all_texts_simps [simp]:
  "all_texts report ''report'' = Some (sorted_keys report)" "all_texts report ''ids'' = Some (PList [PStr ''sim_fixture/bin''])"
  "all_texts report ''public'' = Some (PDict public)"
  by (simp_all add: all_texts_def demo_texts_def)

definition demo_world :: "nat \<Rightarrow> call_outcome" where
  "demo_world n = (if n = 0 then Not_Answered else Response 1 [] [])"

definition demo_scenario :: scenario where
  "demo_scenario = two_spawns\<lparr>sc_planning_scene := Some (PDict run_scene)\<rparr>"

definition demo_file :: report_file where
  "demo_file = \<lparr>rf_bytes = Some ''report'', rf_sha256 = one_digest, rf_written = Inr ()\<rparr>"

lemma run_plan: "planning_scene_mapping one_text (PDict run_scene)
      = Inr (PDict [(''revision'', PStr ''r1''), (''owned_ids'', PList [PStr ''sim_fixture/bin'']),
          (''target_source_id'', PStr ''sim_fixture/bin''), (''target_handoff'', PStr TARGET_HANDOFF)])"
  by code_simp

lemma run_mapping: "planning_scene_mapping one_text (PDict run_scene)
    = Inr (expected_planning_scene_contract one_text (all_texts report) demo_contract)"
  by (simp add: run_plan expected_planning_scene_contract_def demo_contract_def coerce_owned_ids_def only_strings_def)

lemma demo_bringup:
  obtains r report where "run_integrated one_text (\<lambda>_. one_digest) (all_texts report) (\<lambda>_. ([], False)) (''/'', []) (PDict [])
     demo_scenario 7 False public demo_contract None (Inr ()) demo_world 3 = (r, Inr report)"
proof -
  have "is_ok (bind (standard_operations one_text (\<lambda>_. ([], False)) (''/'', []) demo_scenario 7 False) (\<lambda>ops.
      snd (execute one_text demo_world 3 ops runner_new)))" by code_simp
  then obtain ops r results where ops: "standard_operations one_text (\<lambda>_. ([], False)) (''/'', []) demo_scenario 7 False = Inr ops"
      "execute one_text demo_world 3 ops runner_new = (r, Inr results)"
    by (auto simp: is_ok_iff bind_Inr_iff) (metis prod.collapse)
  obtain report where report: "build_scenario_report one_text (\<lambda>_. one_digest) (sc_id demo_scenario) 7 [] run_scene public results
      (ec_fingerprint demo_contract) (ec_manifest demo_contract) = Inr report"
    by (simp add: build_scenario_report_def build_canonical_report_def report_identities_def run_plan)
  have "fixture_owned_ids one_text (PDict run_scene) = Inr [''sim_fixture/bin'']" by code_simp
  then have "verify_expected_values one_text (\<lambda>_. one_digest) (all_texts report) (ec_scenario_id demo_contract) (ec_seed demo_contract) []
      run_scene public demo_contract = Inr []"
    using verify_complete [OF run_mapping, where sha = "\<lambda>_. one_digest" and decl = "[]" and integrated = public and owned = "[''sim_fixture/bin'']"]
    by (simp add: demo_contract_def sha256_json_def contract_integrated_def public_def planning_scene_digest_def expected_owned_def
        py_str_def py_items_def)
  then have "run_integrated one_text (\<lambda>_. one_digest) (all_texts report) (\<lambda>_. ([], False)) (''/'', []) (PDict []) demo_scenario 7 False
      public demo_contract None (Inr ()) demo_world 3 = (r, Inr report)"
    using run_after_verify [of one_text "\<lambda>_. one_digest" "all_texts report" demo_contract 7 "PDict []" "PDict run_scene" public demo_scenario,
        OF _ _ ops] report by (simp add: dict_of_def demo_scenario_def demo_contract_def)
  then show thesis by (rule that)
qed

lemma demo_launched: "launched (all_texts report) demo_parameters demo_contract (PDict public)"
  by (simp add: launched_def build_expected_def demo_parameters_def demo_contract_def json_object_def is_dict_def py_strip_def is_space_def
      Let_def)

lemma verified_run_opens_gate_witness:
  "\<exists>report g. gate_initialize one_text (\<lambda>_. one_digest) (all_texts report) demo_parameters (Fin 0) demo_file = Inr g
     \<and> fst (gate_on_ready (gate_run one_text (\<lambda>_. one_digest) (all_texts report) [] g) (Fin 1))"
proof -
  obtain r report where run: "run_integrated one_text (\<lambda>_. one_digest) (all_texts report) (\<lambda>_. ([], False)) (''/'', []) (PDict [])
     demo_scenario 7 False public demo_contract None (Inr ()) demo_world 3 = (r, Inr report)" by (rule demo_bringup)
  have "sc_id demo_scenario = ec_scenario_id demo_contract" "flt (Fin 0) (fsub (Fin 9) (Fin 1))"
    by (simp_all add: demo_scenario_def two_spawns_def demo_contract_def)
  then show ?thesis
    using verified_run_opens_gate [OF run _ public_def demo_launched, of demo_file "''report''" "Fin 9" "Fin 1"
        "Fin 0" "[]" "Fin 1" "[]" "Fin 1" "[]"]
    by (auto simp: demo_file_def)
qed

lemma built_report_valid_witness:
  "\<exists>r. parse_canonical_report one_text (all_texts r) ''report'' = Inr (sorted_keys r)
     \<and> vr_ready (validate_report one_text (\<lambda>_. one_digest) (all_texts r) (sorted_keys r) demo_contract)"
proof -
  obtain r where r: "build_canonical_report one_text (\<lambda>_. one_digest) ''s'' 7 [] (PDict run_scene) public [] ''fp'' ''mf''
      FINAL_SIMULATION_STATE = Inr r"
    by (simp add: build_canonical_report_def report_identities_def run_plan)
  show ?thesis
    using built_report_valid [OF r public_def _ run_mapping, of r "''report''"]
    by (auto simp: demo_contract_def contract_integrated_def sha256_json_def)
qed

lemma runner_keeps_order_witness:
  "\<exists>k \<le> 2. map Inr (accepted (\<lambda>_. Response 1 [] []) 0 [Reset_Spawned, Set_State 1])
     = map (request_of one_text) (take k [\<lparr>so_kind = ''reset_spawned'', so_payload = []\<rparr>,
         \<lparr>so_kind = ''set_simulation_state'', so_payload = [(''state'', PInt 1)]\<rparr>])"
proof -
  let ?ops = "[\<lparr>so_kind = ''reset_spawned'', so_payload = []\<rparr>, \<lparr>so_kind = ''set_simulation_state'', so_payload = [(''state'', PInt 1)]\<rparr>]"
  have calls: "rn_calls (fst (execute one_text (\<lambda>_. Response 1 [] []) 2 ?ops runner_new)) = [Reset_Spawned, Set_State 1]" by code_simp
  obtain s r where run: "execute one_text (\<lambda>_. Response 1 [] []) 2 ?ops runner_new = (s, r)" by fastforce
  have made: "rn_calls s = [Reset_Spawned, Set_State 1]" using calls by (simp add: run)
  have "1 \<le> (2::nat)" by simp
  from runner_keeps_order [OF run this] obtain k where "k \<le> length ?ops"
      "map Inr (accepted (\<lambda>_. Response 1 [] []) 0 (rn_calls s)) = map (request_of one_text) (take k ?ops)" by blast
  moreover have "length ?ops = 2" by simp
  ultimately show ?thesis unfolding made by (intro exI [of _ k]) (simp only: simp_thms)
qed

lemma gate_decides_once_witness:
  "\<exists>g. gate_initialize one_text (\<lambda>_. one_digest) demo_texts demo_parameters (Fin 0) (demo_file\<lparr>rf_bytes := None\<rparr>) = Inr g
     \<and> \<not> fst (gate_on_ready (gate_run one_text (\<lambda>_. one_digest) demo_texts [] g) (Fin 1))"
proof -
  obtain g expected where g: "gate_initialize one_text (\<lambda>_. one_digest) demo_texts demo_parameters (Fin 0) (demo_file\<lparr>rf_bytes := None\<rparr>) = Inr g"
    "build_expected demo_texts demo_parameters = Inr expected"
    by (simp add: gate_initialize_def parse_report_def build_expected_def json_object_def demo_parameters_def demo_texts_def is_dict_def
        py_strip_def is_space_def Let_def)
  show ?thesis using gate_decides_once [OF g, of "[]" "Fin 1"] g(1) by auto
qed

lemma waiter_ends_witness:
  "\<exists>code. wait_loop (\<lambda>_. None) (Fin 5) [\<lparr>at_before = Fin 1, at_reply = Unanswered, at_after = Fin 1\<rparr>,
      \<lparr>at_before = Fin 6, at_reply = Unanswered, at_after = Fin 6\<rparr>] = Some code"
  using waiter_ends [of "\<lparr>at_before = Fin 6, at_reply = Unanswered, at_after = Fin 6\<rparr>"
      "[\<lparr>at_before = Fin 1, at_reply = Unanswered, at_after = Fin 1\<rparr>, \<lparr>at_before = Fin 6, at_reply = Unanswered, at_after = Fin 6\<rparr>]"
      "Fin 5" "\<lambda>_. None"] by auto

end
