(* ===== verification/Readiness.thy ===== *)
theory Readiness
  imports Scenario_Runner
begin

text \<open>
  The integrated readiness evaluator (\<open>integrated_readiness.py\<close>): the canonical endpoints, the agreement of publishers,
  services, actions, controllers and the provider manifest with them, and the fail-closed evaluation of a
  snapshot of observations.

  Snapshots and contracts are JSON-like values; the bytes of a report are a text value. SHA-256 of bytes is the
  argument \<open>sha_bytes\<close>. Messages carry the rendering of values that \<open>str\<close> and \<open>repr\<close> give.
\<close>

section \<open>The canonical endpoints\<close>

definition INTEGRATED_ACTIONS :: record_dict where
  "INTEGRATED_ACTIONS =
     [(''/move_action'', PDict [(''type'', PStr ''moveit_msgs/action/MoveGroup''), (''source'', PStr
        ''/move_group'')]),
      (''/execute_trajectory'', PDict [(''type'', PStr ''moveit_msgs/action/ExecuteTrajectory''), (''source'', PStr
        ''/move_group'')]),
      (''/xarm_gripper/gripper_action'', PDict [(''type'', PStr ''control_msgs/action/GripperCommand''), (''source'',
        PStr ''/tinker_sim_gripper_facade'')]),
      (''/xarm7_traj_controller/follow_joint_trajectory'', PDict [(''type'', PStr
        ''control_msgs/action/FollowJointTrajectory''), (''source'', PStr
        ''controller_resource:xarm7_traj_controller'')]),
      (''/pickup_action'', PDict [(''type'', PStr ''tinker_arm_msgs/action/Pick''), (''source'', PStr
        ''/pick_and_place'')]),
      (''/place_action'', PDict [(''type'', PStr ''tinker_arm_msgs/action/Place''), (''source'', PStr
        ''/pick_and_place'')]),
      (''/cartesian_move_action'', PDict [(''type'', PStr ''tinker_arm_msgs/action/CartesianMove''), (''source'', PStr
        ''/pick_and_place'')]),
      (''/joint_move_action'', PDict [(''type'', PStr ''tinker_arm_msgs/action/JointMove''), (''source'', PStr
        ''/pick_and_place'')]),
      (''/fold_action'', PDict [(''type'', PStr ''tinker_arm_msgs/action/Fold''), (''source'', PStr
        ''/pick_and_place'')])]"

definition INTEGRATED_SERVICES :: record_dict where
  "INTEGRATED_SERVICES =
     [(''/controller_manager/list_controllers'', PDict [(''type'', PStr
        ''controller_manager_msgs/srv/ListControllers''), (''source'', PStr ''/controller_manager'')]),
      (''/controller_manager/load_controller'', PDict [(''type'', PStr
        ''controller_manager_msgs/srv/LoadController''), (''source'', PStr ''/controller_manager'')]),
      (''/controller_manager/configure_controller'', PDict [(''type'', PStr
        ''controller_manager_msgs/srv/ConfigureController''), (''source'', PStr ''/controller_manager'')]),
      (''/controller_manager/switch_controller'', PDict [(''type'', PStr
        ''controller_manager_msgs/srv/SwitchController''), (''source'', PStr ''/controller_manager'')]),
      (''/get_planning_scene'', PDict [(''type'', PStr ''moveit_msgs/srv/GetPlanningScene''), (''source'', PStr
        ''/move_group'')]),
      (''/apply_planning_scene'', PDict [(''type'', PStr ''moveit_msgs/srv/ApplyPlanningScene''), (''source'', PStr
        ''/move_group'')]),
      (''/check_state_validity'', PDict [(''type'', PStr ''moveit_msgs/srv/GetStateValidity''), (''source'', PStr
        ''/move_group'')]),
      (''/compute_cartesian_path'', PDict [(''type'', PStr ''moveit_msgs/srv/GetCartesianPath''), (''source'', PStr
        ''/move_group'')]),
      (''/arm_joint_service'', PDict [(''type'', PStr ''tinker_arm_msgs/srv/ArmJointService''), (''source'', PStr
        ''/pick_and_place'')]),
      (''/sim/ready/physics'', PDict [(''type'', PStr ''std_srvs/srv/Trigger''), (''source'', PStr
        ''/tinker_sim_physics_ready_gate'')]),
      (''/sim/ready/fixture'', PDict [(''type'', PStr ''std_srvs/srv/Trigger''), (''source'', PStr
        ''/fixture_planning_scene'')])]"

definition INTEGRATED_PUBLISHERS :: record_dict where
  "INTEGRATED_PUBLISHERS =
     [(''/joint_states'', PDict [(''type'', PStr ''sensor_msgs/msg/JointState''), (''source'', PStr
        ''/joint_state_broadcaster''), (''logical_resource'', PStr ''joint_state_broadcaster''), (''cardinality'',
        PInt 1), (''max_age_s'', PFloat (Fin (1 / 4))), (''durability'', PStr ''VOLATILE''), (''reliability'', PStr
        ''RELIABLE''), (''depth'', PInt 10)]),
      (''/isaac_joint_commands'', PDict [(''type'', PStr ''sensor_msgs/msg/JointState''), (''source'', PStr
        ''/tinker_sim_command_gateway''), (''cardinality'', PInt 1), (''max_age_s'', PNone), (''durability'', PStr
        ''VOLATILE''), (''reliability'', PStr ''RELIABLE''), (''depth'', PInt 50)]),
      (''/sim/controller/gripper_commands'', PDict [(''type'', PStr ''sensor_msgs/msg/JointState''), (''source'', PStr
        ''/tinker_sim_gripper_facade''), (''cardinality'', PInt 1), (''max_age_s'', PNone), (''durability'', PStr
        ''VOLATILE''), (''reliability'', PStr ''RELIABLE''), (''depth'', PInt 20)]),
      (''/sim/safety/operator'', PDict [(''type'', PStr ''std_msgs/msg/Bool''), (''source'', PStr
        ''/tinker_integrated_gate_executor''), (''cardinality'', PInt 1), (''max_age_s'', PFloat (Fin (1 / 4))),
        (''durability'', PStr ''TRANSIENT_LOCAL''), (''reliability'', PStr ''RELIABLE''), (''depth'', PInt 1),
        (''clear_value'', PBool False)]),
      (''/sim/hardware/safety_stop'', PDict [(''type'', PStr ''std_msgs/msg/Bool''), (''source'', PStr
        ''/tinker_sim_safety_supervisor''), (''cardinality'', PInt 1), (''max_age_s'', PFloat (Fin (1 / 4))),
        (''durability'', PStr ''TRANSIENT_LOCAL''), (''reliability'', PStr ''RELIABLE''), (''depth'', PInt 1),
        (''min_samples'', PInt 2), (''clear_value'', PBool False)]),
      (''/sim/status/planning_scene_fixture'', PDict [(''type'', PStr ''std_msgs/msg/String''), (''source'', PStr
        ''/fixture_planning_scene''), (''cardinality'', PInt 1), (''max_age_s'', PFloat (Fin (1 / 4))),
        (''durability'', PStr ''TRANSIENT_LOCAL''), (''reliability'', PStr ''RELIABLE''), (''depth'', PInt 1)]),
      (''/sim/status/integrated_manipulation'', PDict [(''type'', PStr ''std_msgs/msg/String''), (''source'', PStr
        ''/integrated_readiness''), (''cardinality'', PInt 1), (''max_age_s'', PFloat (Fin (1 / 4))), (''durability'',
        PStr ''TRANSIENT_LOCAL''), (''reliability'', PStr ''RELIABLE''), (''depth'', PInt 1)])]"

definition INTEGRATED_JOINT_STATE_NAMES :: "string list" where
  "INTEGRATED_JOINT_STATE_NAMES = map (\<lambda>i. ''joint'' @ dec_nat i) [1..<8] @ [''drive_joint'']"

definition INTEGRATED_TOUCH_LINKS :: "string list" where
  "INTEGRATED_TOUCH_LINKS =
     [''xarm_gripper_base_link'', ''left_outer_knuckle'', ''left_finger'', ''left_inner_knuckle'', ''right_inner_knuckle'',
      ''right_outer_knuckle'', ''right_finger'', ''link_tcp'']"

definition build_integrated_mapping :: record_dict where
  "build_integrated_mapping =
     [(''report_revision'', PStr REPORT_REVISION), (''actions'', PDict INTEGRATED_ACTIONS),
      (''services'', PDict INTEGRATED_SERVICES), (''publishers'', PDict INTEGRATED_PUBLISHERS),
      (''joint_names'', PList (map PStr INTEGRATED_JOINT_STATE_NAMES)), (''touch_links'', PList (map PStr INTEGRATED_TOUCH_LINKS)),
      (''tf'', PDict [(''parent'', PStr ''base_link''), (''child'', PStr ''link_tcp'')]),
      (''controller_resources'', PDict [(''joint_state_broadcaster'', PStr ''active''), (''xarm7_traj_controller'', PStr ''active'')]),
      (''final_simulation_state'', PStr FINAL_SIMULATION_STATE)]"

section \<open>Helpers\<close>

text \<open>\<open>text.upper()\<close> of letters that stay below code point 256, and \<open>text.rsplit(".", 1)[-1]\<close>.\<close>

definition upper_char :: "char \<Rightarrow> char" where
  "upper_char c =
     (let n = (of_char c :: nat) in
      if 97 \<le> n \<and> n \<le> 122 \<or> 224 \<le> n \<and> n \<le> 254 \<and> n \<noteq> 247 then char_of (n - 32) else c)"

definition normalize_qos_value :: "py_builtins \<Rightarrow> pyval \<Rightarrow> string" where
  "normalize_qos_value pb v = map upper_char (py_strip (last (py_split (CHR ''.'') (py_str pb v))))"

fun split_once :: "string \<Rightarrow> string \<Rightarrow> (string \<times> string) option" where
  "split_once marker [] = (if marker = [] then Some ([], []) else None)"
| "split_once marker (c # cs) =
     (if startswith (c # cs) marker then Some ([], drop (length marker) (c # cs))
      else map_option (\<lambda>(a, b). (c # a, b)) (split_once marker cs))"

definition derive_goal_service_type :: "string \<Rightarrow> string" where
  "derive_goal_service_type action_type =
     (case split_once ''/action/'' action_type of
        None \<Rightarrow> []
      | Some (package, action) \<Rightarrow> package @ ''/action/'' @ action @ ''_SendGoal'')"

definition either :: "pyval \<Rightarrow> pyval \<Rightarrow> pyval" where
  "either a b = (if py_truthy a then a else b)"

text \<open>\<open>_append_reason\<close>: the reasons it adds.\<close>

definition append_reason :: "py_builtins \<Rightarrow> string \<Rightarrow> bool \<Rightarrow> pyval \<Rightarrow> string list res" where
  "append_reason pb prefix ready reasons =
     (if ready then Inr []
      else bind (py_items (either reasons (PList [PStr ''not ready'']))) (\<lambda>rs.
             Inr (map (\<lambda>r. if py_truthy r then prefix @ '': '' @ py_str pb r else prefix) rs)))"

definition strings :: "string list \<Rightarrow> pyval" where
  "strings ss = PList (map PStr ss)"

definition check_observed_types :: "py_builtins \<Rightarrow> pyval \<Rightarrow> string \<Rightarrow> string \<Rightarrow> string \<Rightarrow> string list res" where
  "check_observed_types pb observed expected endpoint kind =
     bind (py_items observed) (\<lambda>vs.
       let normalized = map (py_str pb) vs
       in Inr (if normalized = [] then [kind @ '' '' @ endpoint @ '' observed no types'']
               else if card (set normalized) \<noteq> 1 \<or> hd normalized \<noteq> expected
               then [kind @ '' '' @ endpoint @ '' observed types '' @ repr_strs (sort (remdups normalized)) @ '' != expected ''
                     @ repr_str expected]
               else []))"

section \<open>Publishers and the provider manifest\<close>

definition qos_dimension :: "py_builtins \<Rightarrow> string \<Rightarrow> pyval \<Rightarrow> pyval \<Rightarrow> string \<Rightarrow> string list res" where
  "qos_dimension pb topic spec qos dimension =
     bind (py_get_default spec dimension PNone) (\<lambda>expected.
       if expected = PNone then Inr []
       else bind (py_get_default qos dimension (PStr [])) (\<lambda>v.
              let observed = normalize_qos_value pb v
              in Inr (unless (observed = normalize_qos_value pb (PStr (py_str pb expected)))
                   (''publisher '' @ topic @ '' '' @ dimension @ '' '' @ repr_str observed @ '' != expected '' @ py_repr pb expected))))"

text \<open>\<open>int(observed_depth)\<close>, with zero for what is no number.\<close>

definition depth_of :: "pyval \<Rightarrow> int res" where
  "depth_of v = (case py_int v of Inl (TypeError _) \<Rightarrow> Inr 0 | Inl (ValueError _) \<Rightarrow> Inr 0 | r \<Rightarrow> r)"

definition qos_depth :: "py_builtins \<Rightarrow> string \<Rightarrow> pyval \<Rightarrow> pyval \<Rightarrow> string list res" where
  "qos_depth pb topic spec qos =
     bind (py_get_default spec ''depth'' PNone) (\<lambda>expected.
       if expected = PNone then Inr []
       else bind (py_get_default qos ''depth'' PNone) (\<lambda>observed. bind (depth_of observed) (\<lambda>depth.
              if \<not> 0 < depth then Inr []
              else bind (py_int expected) (\<lambda>wanted.
                     Inr (unless (depth = wanted)
                       (''publisher '' @ topic @ '' depth '' @ py_repr pb observed @ '' != expected '' @ py_repr pb expected))))))"

definition publisher_reasons :: "py_builtins \<Rightarrow> pyval \<Rightarrow> string \<times> pyval \<Rightarrow> string list res" where
  "publisher_reasons pb observed = (\<lambda>(topic, spec).
     bind (py_get_default observed topic (PDict [])) (\<lambda>entry.
     bind (py_get_default entry ''count'' (PInt 0)) (\<lambda>count. bind (py_get_default spec ''cardinality'' (PInt 1)) (\<lambda>cardinality.
       if \<not> py_eq count cardinality
       then Inr [''publisher '' @ topic @ '' count '' @ py_str pb count @ '' != '' @ py_str pb cardinality]
       else
         bind (py_get_default spec ''type'' (PStr [])) (\<lambda>t. bind (py_get_default entry ''types'' (PList [])) (\<lambda>ts.
         bind (py_items ts) (\<lambda>vs.
         bind (py_get_default spec ''source'' (PStr [])) (\<lambda>src. bind (py_get_default entry ''source'' PNone) (\<lambda>source.
         bind (py_get_default entry ''qos'' PNone) (\<lambda>q.
         let expected_type = py_str pb t; types = map (py_str pb) vs; expected_source = py_str pb src; qos = either q (PDict [])
         in bind (qos_dimension pb topic spec qos ''reliability'') (\<lambda>r1.
            bind (qos_dimension pb topic spec qos ''durability'') (\<lambda>r2.
            bind (qos_depth pb topic spec qos) (\<lambda>r3.
              Inr (unless (expected_type = [] \<or> types = [] \<or> expected_type \<in> set types)
                     (''publisher '' @ topic @ '' observed types '' @ repr_strs (sort (remdups types)) @ '' do not include ''
                      @ repr_str expected_type)
                   @ unless (expected_source = [] \<or> py_eq source (PStr expected_source))
                       (''publisher '' @ topic @ '' source '' @ py_repr pb source @ '' != '' @ repr_str expected_source)
                   @ r1 @ r2 @ r3))))))))))))))"

definition evaluate_publisher_metadata :: "py_builtins \<Rightarrow> pyval \<Rightarrow> record_dict \<Rightarrow> string list res" where
  "evaluate_publisher_metadata pb observed publishers =
     bind (each (publisher_reasons pb observed) publishers) (\<lambda>rs. Inr (concat rs))"

text \<open>An entry of the manifest that must be live at least as often as it says.\<close>

definition live_reasons :: "py_builtins \<Rightarrow> string \<Rightarrow> string \<Rightarrow> string list \<Rightarrow> string list \<Rightarrow> pyval \<Rightarrow> string list res" where
  "live_reasons pb what key excluded live entry =
     bind (py_get_default entry key (PStr [])) (\<lambda>v.
       let n = py_str pb v
       in if n \<in> set excluded then Inr []
          else bind (py_get_default entry ''cardinality'' (PInt 1)) (\<lambda>c. bind (py_int c) (\<lambda>cardinality.
                 let present = count_list live n
                 in Inr (unless (\<not> int present < cardinality)
                      (''manifest '' @ what @ '' '' @ repr_str n @ '' not live (found '' @ dec_nat present @ '')'')))))"

definition controller_reasons :: "py_builtins \<Rightarrow> (string \<times> string) list \<Rightarrow> pyval \<Rightarrow> string list res" where
  "controller_reasons pb observed entry =
     bind (py_get_default entry ''resource_name'' (PStr [])) (\<lambda>n. bind (py_get_default entry ''expected_state'' (PStr [])) (\<lambda>e.
       let i = py_str pb n; expected = py_str pb e
       in Inr (unless (map_of observed i = Some expected)
                (''manifest controller '' @ repr_str i @ '' state ''
                 @ (case map_of observed i of None \<Rightarrow> ''None'' | Some s \<Rightarrow> repr_str s) @ '' != expected '' @ repr_str expected))))"

definition over_entries :: "pyval \<Rightarrow> string \<Rightarrow> (pyval \<Rightarrow> string list res) \<Rightarrow> string list res" where
  "over_entries manifest key f =
     bind (py_get_default manifest key (PList [])) (\<lambda>v. bind (py_items v) (\<lambda>entries.
     bind (each f entries) (\<lambda>rs. Inr (concat rs))))"

definition provider_manifest_agreement :: "py_builtins \<Rightarrow> pyval \<Rightarrow> string list \<Rightarrow> string list \<Rightarrow> (string \<times> string) list
    \<Rightarrow> string list res" where
  "provider_manifest_agreement pb manifest nodes publishers controllers =
     bind (over_entries manifest ''persistent_nodes'' (live_reasons pb ''persistent node'' ''node'' [] nodes)) (\<lambda>r1.
     bind (over_entries manifest ''publishers'' (live_reasons pb ''publisher'' ''topic'' [''/sim/safety/operator''] publishers)) (\<lambda>r2.
     bind (over_entries manifest ''controller_resources'' (controller_reasons pb controllers)) (\<lambda>r3.
       Inr (r1 @ r2 @ r3))))"

section \<open>The evaluation\<close>

record readiness_report =
  rr_ready :: bool
  rr_reasons :: "string list"
  rr_evidence :: record_dict

text \<open>A section gives its reasons and its evidence. Ten of them only pass on the verdict of an observation.\<close>

type_synonym section_result = "(string list \<times> string \<times> pyval) res"

definition flagged :: "py_builtins \<Rightarrow> pyval \<Rightarrow> string \<Rightarrow> section_result" where
  "flagged pb snapshot n =
     bind (py_get_default snapshot n (PDict [])) (\<lambda>entry. bind (py_get_default entry ''ready'' PNone) (\<lambda>ready.
     bind (py_get_default entry ''reasons'' (PList [])) (\<lambda>reasons.
     bind (append_reason pb n (py_truthy ready) reasons) (\<lambda>rs. Inr (rs, n, entry)))))"

definition report_section :: "py_builtins \<Rightarrow> (string \<Rightarrow> string) \<Rightarrow> pyval \<Rightarrow> section_result" where
  "report_section pb sha_bytes snapshot =
     bind (py_get_default snapshot ''shared_report'' (PDict [])) (\<lambda>entry. bind (py_get_default entry ''ready'' PNone) (\<lambda>ready.
     bind (py_get_default entry ''scenario_report_sha256'' PNone) (\<lambda>digest.
     bind (if py_truthy digest
           then bind (py_get_default entry ''scenario_report_sha256_bytes'' (PStr [])) (\<lambda>b.
                  case b of PStr bytes \<Rightarrow> Inr (py_eq digest (PStr (sha_bytes bytes)))
                  | _ \<Rightarrow> Inl (TypeError ''object supporting the buffer API required''))
           else bind (py_get_default entry ''scenario_report_sha256_matches'' PNone) (\<lambda>m. Inr (py_truthy m))) (\<lambda>matches.
     bind (py_get_default entry ''reasons'' (PList [])) (\<lambda>v. bind (py_items v) (\<lambda>given.
     bind (py_get_default entry ''final_simulation_state'' PNone) (\<lambda>state.
     let playing = py_eq state (PStr FINAL_SIMULATION_STATE)
     in bind (append_reason pb ''shared_report'' (py_truthy ready \<and> matches \<and> playing)
                (PList (given @ map PStr (unless matches ''scenario_report_sha256 does not match the report bytes''
                                          @ unless playing (''final_simulation_state must be '' @ FINAL_SIMULATION_STATE))))) (\<lambda>rs.
          Inr (rs, ''shared_report'', entry)))))))))"

definition items_of :: "pyval \<Rightarrow> string \<Rightarrow> record_dict res" where
  "items_of v key =
     bind (py_get_default v key (PDict [])) (\<lambda>d. case d of PDict kvs \<Rightarrow> Inr kvs | _ \<Rightarrow> Inl (OtherError ''no attribute items''))"

definition controller_section :: "py_builtins \<Rightarrow> pyval \<Rightarrow> pyval \<Rightarrow> section_result" where
  "controller_section pb snapshot contract =
     bind (py_get_default snapshot ''controller_resources'' (PDict [])) (\<lambda>controllers.
     bind (items_of contract ''controller_resources'') (\<lambda>expected.
     bind (each (\<lambda>(n, state). bind (py_get_default controllers n (PDict [])) (\<lambda>entry.
              bind (py_get_default entry ''state'' PNone) (\<lambda>observed.
                Inr (unless (py_eq observed state)
                       (''controller '' @ repr_str n @ '' state '' @ py_repr pb observed @ '' != expected '' @ py_repr pb state),
                     n, entry)))) expected) (\<lambda>rows.
     bind (if py_truthy (get_or (PDict expected) ''xarm7_traj_controller'' PNone)
           then bind (py_get_default controllers ''xarm7_traj_controller'' (PDict [])) (\<lambda>entry.
                bind (py_get_default entry ''action_server_count'' PNone) (\<lambda>count.
                  Inr (unless (py_eq count (PInt 1))
                         (''xarm7_traj_controller follow_joint_trajectory server count is '' @ py_str pb count @ '', expected 1''))))
           else Inr []) (\<lambda>server.
     let reasons = concat (map fst rows) @ server
     in bind (append_reason pb ''controller_resources'' (reasons = []) (strings reasons)) (\<lambda>rs.
          Inr (rs, ''controller_resources'', PDict (map snd rows)))))))"

definition observed_types :: "pyval \<Rightarrow> pyval res" where
  "observed_types entry =
     bind (py_get_default entry ''observed_types'' PNone) (\<lambda>a. bind (py_get_default entry ''types'' PNone) (\<lambda>b.
       Inr (either (either a b) (PList []))))"

definition count_reasons :: "py_builtins \<Rightarrow> string \<Rightarrow> string \<Rightarrow> pyval \<Rightarrow> pyval \<Rightarrow> string list res" where
  "count_reasons pb kind endpoint entry expected =
     bind (py_get_default entry ''count'' PNone) (\<lambda>count. bind (py_get_default expected ''cardinality'' (PInt 1)) (\<lambda>cardinality.
       Inr (unless (py_eq count cardinality)
              (kind @ '' '' @ endpoint @ '' server count '' @ py_str pb count @ '' != '' @ py_str pb cardinality))))"

definition action_types :: "py_builtins \<Rightarrow> string \<Rightarrow> pyval \<Rightarrow> pyval \<Rightarrow> string list res" where
  "action_types pb endpoint types expected =
     bind (py_get_default expected ''type'' (PStr [])) (\<lambda>t.
       let goal_type = derive_goal_service_type (py_str pb t)
       in if goal_type \<noteq> [] then check_observed_types pb types goal_type endpoint ''action''
          else if py_truthy types \<and> \<not> py_eq types (PList [field_of expected ''type''])
          then bind (py_items types) (\<lambda>vs. Inr [''action '' @ endpoint @ '' observed types ''
                 @ repr_strs (sort (remdups (map (py_str pb) vs))) @ '' != expected '' @ py_repr pb (field_of expected ''type'')])
          else Inr [])"

definition source_reasons :: "py_builtins \<Rightarrow> string \<Rightarrow> string \<Rightarrow> pyval \<Rightarrow> pyval \<Rightarrow> string list res" where
  "source_reasons pb kind endpoint entry expected =
     bind (py_get_default entry ''source'' PNone) (\<lambda>source. bind (py_get_default expected ''source'' PNone) (\<lambda>wanted.
       Inr (unless (py_eq source wanted)
              (kind @ '' '' @ endpoint @ '' source '' @ py_repr pb source @ '' != '' @ py_repr pb wanted))))"

definition endpoint_reasons :: "(pyval \<Rightarrow> pyval \<Rightarrow> string list res) \<Rightarrow> py_builtins \<Rightarrow> string \<Rightarrow> pyval \<Rightarrow> string \<times> pyval
    \<Rightarrow> (string list \<times> string \<times> pyval) res" where
  "endpoint_reasons types_of pb kind observed = (\<lambda>(endpoint, expected).
     bind (py_get_default observed endpoint (PDict [])) (\<lambda>entry.
     bind (count_reasons pb kind endpoint entry expected) (\<lambda>r1.
     bind (observed_types entry) (\<lambda>types. bind (types_of types expected) (\<lambda>r2.
     bind (source_reasons pb kind endpoint entry expected) (\<lambda>r3. Inr (r1 @ r2 @ r3, endpoint, entry)))))))"

definition action_section :: "py_builtins \<Rightarrow> pyval \<Rightarrow> pyval \<Rightarrow> section_result" where
  "action_section pb snapshot contract =
     bind (py_get_default snapshot ''actions'' (PDict [])) (\<lambda>observed. bind (items_of contract ''actions'') (\<lambda>expected.
     bind (each (\<lambda>(endpoint, spec). endpoint_reasons (action_types pb endpoint) pb ''action'' observed (endpoint, spec)) expected) (\<lambda>rows.
     let reasons = concat (map fst rows)
     in bind (append_reason pb ''actions'' (reasons = []) (strings reasons)) (\<lambda>rs. Inr (rs, ''actions'', PDict (map snd rows))))))"

definition service_types :: "py_builtins \<Rightarrow> string \<Rightarrow> pyval \<Rightarrow> pyval \<Rightarrow> string list res" where
  "service_types pb endpoint types expected =
     bind (py_get_default expected ''type'' (PStr [])) (\<lambda>t. check_observed_types pb types (py_str pb t) endpoint ''service'')"

definition service_section :: "py_builtins \<Rightarrow> pyval \<Rightarrow> pyval \<Rightarrow> section_result" where
  "service_section pb snapshot contract =
     bind (py_get_default snapshot ''services'' (PDict [])) (\<lambda>observed. bind (items_of contract ''services'') (\<lambda>expected.
     bind (each (\<lambda>(endpoint, spec). endpoint_reasons (service_types pb endpoint) pb ''service'' observed (endpoint, spec)) expected) (\<lambda>rows.
     let reasons = concat (map fst rows)
     in bind (append_reason pb ''services'' (reasons = []) (strings reasons)) (\<lambda>rs. Inr (rs, ''services'', PDict (map snd rows))))))"

definition publisher_section :: "py_builtins \<Rightarrow> pyval \<Rightarrow> pyval \<Rightarrow> section_result" where
  "publisher_section pb snapshot contract =
     bind (py_get_default snapshot ''publishers'' (PDict [])) (\<lambda>observed. bind (py_get_default contract ''publishers'' PNone) (\<lambda>p.
     bind (if py_truthy p
           then bind (items_of contract ''publishers'') (evaluate_publisher_metadata pb observed) else Inr []) (\<lambda>reasons.
     bind (append_reason pb ''publishers'' (reasons = []) (strings reasons)) (\<lambda>rs. Inr (rs, ''publishers'', observed)))))"

text \<open>The agreement of the provider is only looked at when it says that it is ready and carries a manifest object.\<close>

definition texts_of :: "py_builtins \<Rightarrow> pyval \<Rightarrow> string \<Rightarrow> string list res" where
  "texts_of pb v key =
     bind (py_get_default v key (PList [])) (\<lambda>xs. bind (py_items xs) (\<lambda>vs. Inr (map (py_str pb) vs)))"

definition provider_verdict :: "py_builtins \<Rightarrow> pyval \<Rightarrow> bool \<Rightarrow> pyval list \<Rightarrow> pyval \<Rightarrow> (bool \<times> pyval list) res" where
  "provider_verdict pb provider ready given manifest =
     (if ready \<and> is_dict manifest
      then bind (texts_of pb provider ''observed_nodes'') (\<lambda>nodes. bind (texts_of pb provider ''observed_publishers'') (\<lambda>publishers.
           bind (items_of provider ''observed_controllers'') (\<lambda>controllers.
           bind (provider_manifest_agreement pb manifest nodes publishers (map (\<lambda>(n, s). (n, py_str pb s)) controllers)) (\<lambda>more.
             let reasons = given @ map PStr more in Inr (reasons = [], reasons)))))
      else Inr (ready, given))"

definition provider_section :: "py_builtins \<Rightarrow> pyval \<Rightarrow> section_result" where
  "provider_section pb snapshot =
     bind (py_get_default snapshot ''provider_manifest'' (PDict [])) (\<lambda>provider.
     bind (py_get_default provider ''ready'' PNone) (\<lambda>ready. bind (py_get_default provider ''reasons'' (PList [])) (\<lambda>v.
     bind (py_items v) (\<lambda>given. bind (py_get_default provider ''manifest'' PNone) (\<lambda>manifest.
     bind (provider_verdict pb provider (py_truthy ready) given manifest) (\<lambda>(ok, reasons).
     bind (append_reason pb ''provider_manifest'' ok (PList reasons)) (\<lambda>rs. Inr (rs, ''provider_manifest'', provider))))))))"

definition evaluate_integrated_readiness :: "py_builtins \<Rightarrow> (string \<Rightarrow> string) \<Rightarrow> pyval \<Rightarrow> pyval \<Rightarrow> readiness_report res" where
  "evaluate_integrated_readiness pb sha_bytes snapshot contract =
     bind (each id
       [flagged pb snapshot ''model_preflight'', report_section pb sha_bytes snapshot, flagged pb snapshot ''joint_states'',
        flagged pb snapshot ''tf'', controller_section pb snapshot contract, flagged pb snapshot ''operator_input'',
        flagged pb snapshot ''safety_stop'', action_section pb snapshot contract, service_section pb snapshot contract,
        flagged pb snapshot ''arm_joint_service'', flagged pb snapshot ''fixture_status'', flagged pb snapshot ''mapping_agreement'',
        publisher_section pb snapshot contract, provider_section pb snapshot, flagged pb snapshot ''semantic_model'',
        flagged pb snapshot ''collision_state'']) (\<lambda>sections.
       let reasons = concat (map fst sections)
       in Inr \<lparr>rr_ready = (reasons = []), rr_reasons = reasons, rr_evidence = map snd sections\<rparr>)"

end
