(* ===== verification/Readiness_Safety.thy ===== *)
theory Readiness_Safety
  imports Readiness Report_Safety Scenario_Safety Episode_Safety
begin

text \<open>
  The evaluator of the integrated readiness is fail-closed: a verdict of ready means that every observation it asks for was
  made, was itself ready, and agrees with the contract, endpoint by endpoint.
\<close>

section \<open>What ready means\<close>

definition truly :: "pyval \<Rightarrow> string \<Rightarrow> bool" where
  "truly v key = py_truthy (field_of v key)"

definition entry_of :: "pyval \<Rightarrow> string \<Rightarrow> pyval" where
  "entry_of v key = get_or v key (PDict [])"

definition pairs_of :: "pyval \<Rightarrow> string \<Rightarrow> record_dict" where
  "pairs_of v key = (case field_of v key of PDict kvs \<Rightarrow> kvs | _ \<Rightarrow> [])"

definition members_of :: "pyval \<Rightarrow> string \<Rightarrow> pyval list" where
  "members_of v key = (case field_of v key of PList xs \<Rightarrow> xs | _ \<Rightarrow> [])"

definition only_type :: "py_builtins \<Rightarrow> pyval \<Rightarrow> string \<Rightarrow> bool" where
  "only_type pb entry wanted =
     (case py_items (either (either (field_of entry ''observed_types'') (field_of entry ''types'')) (PList [])) of
        Inl e \<Rightarrow> False
      | Inr vs \<Rightarrow> vs \<noteq> [] \<and> list_all (\<lambda>v. py_str pb v = wanted) vs)"

definition served :: "pyval \<Rightarrow> pyval \<Rightarrow> bool" where
  "served entry spec \<longleftrightarrow>
     py_eq (field_of entry ''count'') (get_or spec ''cardinality'' (PInt 1)) \<and> py_eq (field_of entry ''source'') (field_of spec ''source'')"

definition type_text :: "py_builtins \<Rightarrow> pyval \<Rightarrow> string" where
  "type_text pb spec = py_str pb (get_or spec ''type'' (PStr []))"

definition action_agrees :: "py_builtins \<Rightarrow> pyval \<Rightarrow> string \<times> pyval \<Rightarrow> bool" where
  "action_agrees pb snapshot = (\<lambda>(endpoint, spec).
     let entry = entry_of (entry_of snapshot ''actions'') endpoint; goal = derive_goal_service_type (type_text pb spec)
     in served entry spec \<and> (goal = [] \<or> only_type pb entry goal))"

definition service_agrees :: "py_builtins \<Rightarrow> pyval \<Rightarrow> string \<times> pyval \<Rightarrow> bool" where
  "service_agrees pb snapshot = (\<lambda>(endpoint, spec).
     let entry = entry_of (entry_of snapshot ''services'') endpoint in served entry spec \<and> only_type pb entry (type_text pb spec))"

definition controller_agrees :: "pyval \<Rightarrow> string \<times> pyval \<Rightarrow> bool" where
  "controller_agrees snapshot = (\<lambda>(n, state). py_eq (field_of (entry_of (entry_of snapshot ''controller_resources'') n) ''state'') state)"

definition qos_agrees :: "py_builtins \<Rightarrow> pyval \<Rightarrow> pyval \<Rightarrow> string \<Rightarrow> bool" where
  "qos_agrees pb entry spec dimension \<longleftrightarrow>
     field_of spec dimension = PNone
     \<or> normalize_qos_value pb (get_or (either (field_of entry ''qos'') (PDict [])) dimension (PStr []))
         = normalize_qos_value pb (PStr (py_str pb (field_of spec dimension)))"

text \<open>The type is compared when some type was observed, the depth when a positive one was.\<close>

definition type_agrees :: "py_builtins \<Rightarrow> pyval \<Rightarrow> string \<Rightarrow> bool" where
  "type_agrees pb entry wanted \<longleftrightarrow>
     (case py_items (get_or entry ''types'' (PList [])) of
        Inl e \<Rightarrow> False
      | Inr vs \<Rightarrow> wanted = [] \<or> vs = [] \<or> wanted \<in> set (map (py_str pb) vs))"

definition depth_agrees :: "pyval \<Rightarrow> pyval \<Rightarrow> bool" where
  "depth_agrees entry spec \<longleftrightarrow>
     field_of spec ''depth'' = PNone
     \<or> (case depth_of (field_of (either (field_of entry ''qos'') (PDict [])) ''depth'') of
           Inl e \<Rightarrow> False
         | Inr depth \<Rightarrow> depth \<le> 0 \<or> py_int (field_of spec ''depth'') = Inr depth)"

definition publisher_agrees :: "py_builtins \<Rightarrow> pyval \<Rightarrow> string \<times> pyval \<Rightarrow> bool" where
  "publisher_agrees pb snapshot = (\<lambda>(topic, spec).
     let entry = entry_of (entry_of snapshot ''publishers'') topic; source = py_str pb (get_or spec ''source'' (PStr []))
     in py_eq (get_or entry ''count'' (PInt 0)) (get_or spec ''cardinality'' (PInt 1))
        \<and> (source = [] \<or> py_eq (field_of entry ''source'') (PStr source))
        \<and> type_agrees pb entry (type_text pb spec)
        \<and> qos_agrees pb entry spec ''reliability'' \<and> qos_agrees pb entry spec ''durability''
        \<and> depth_agrees entry spec)"

definition report_agrees_now :: "(string \<Rightarrow> string) \<Rightarrow> pyval \<Rightarrow> bool" where
  "report_agrees_now sha_bytes entry \<longleftrightarrow>
     truly entry ''ready'' \<and> py_eq (field_of entry ''final_simulation_state'') (PStr FINAL_SIMULATION_STATE)
     \<and> (if truly entry ''scenario_report_sha256''
         then py_eq (field_of entry ''scenario_report_sha256'')
                (PStr (sha_bytes (case get_or entry ''scenario_report_sha256_bytes'' (PStr []) of PStr b \<Rightarrow> b | _ \<Rightarrow> [])))
         else truly entry ''scenario_report_sha256_matches'')"

text \<open>Every node and every publisher of the manifest is live as often as it says.\<close>

definition live_enough :: "py_builtins \<Rightarrow> string \<Rightarrow> string list \<Rightarrow> string list \<Rightarrow> pyval \<Rightarrow> bool" where
  "live_enough pb key excluded live entry =
     (let n = py_str pb (get_or entry key (PStr []))
      in n \<in> set excluded
         \<or> (case py_int (get_or entry ''cardinality'' (PInt 1)) of Inl e \<Rightarrow> False | Inr c \<Rightarrow> c \<le> int (count_list live n)))"

definition seen_texts :: "py_builtins \<Rightarrow> pyval \<Rightarrow> string \<Rightarrow> string list" where
  "seen_texts pb provider key = (case py_items (get_or provider key (PList [])) of Inl e \<Rightarrow> [] | Inr vs \<Rightarrow> map (py_str pb) vs)"

definition provider_agrees :: "py_builtins \<Rightarrow> pyval \<Rightarrow> bool" where
  "provider_agrees pb snapshot =
     (let provider = entry_of snapshot ''provider_manifest''; manifest = field_of provider ''manifest''
      in truly provider ''ready''
         \<and> (is_dict manifest \<longrightarrow>
              list_all (live_enough pb ''node'' [] (seen_texts pb provider ''observed_nodes'')) (members_of manifest ''persistent_nodes'')
              \<and> list_all (live_enough pb ''topic'' [''/sim/safety/operator''] (seen_texts pb provider ''observed_publishers''))
                  (members_of manifest ''publishers'')))"

definition VERDICTS :: "string list" where
  "VERDICTS = [''model_preflight'', ''joint_states'', ''tf'', ''operator_input'', ''safety_stop'', ''arm_joint_service'',
     ''fixture_status'', ''mapping_agreement'', ''semantic_model'', ''collision_state'']"

section \<open>Sections without a reason\<close>

lemma get_or_None: "get_or v k PNone = field_of v k"
  by (cases v) (auto simp: get_or_def field_of_def split: option.split)

lemma py_get_default_iff: "py_get_default v k fallback = Inr x \<longleftrightarrow> is_dict v \<and> x = get_or v k fallback"
  by (cases v) (auto simp: is_dict_def py_get_default_def get_or_def)

lemma truthy_items: "py_items v = Inr xs \<Longrightarrow> py_truthy v \<Longrightarrow> xs \<noteq> []"
  by (cases v) (auto simp: py_items_def py_truthy_def)

lemma append_reason_Nil: "append_reason pb prefix ready reasons = Inr [] \<Longrightarrow> ready"
  by (auto simp: append_reason_def bind_Inr_iff either_def py_truthy_def split: if_splits dest!: truthy_items)

lemma each_nothing:
  assumes "each f xs = Inr ys" "concat (map fst ys) = []" "x \<in> set xs"
  shows "\<exists>e. f x = Inr ([], e)"
  using assms by (induction xs arbitrary: ys) (fastforce simp: bind_Inr_iff)+

lemma each_empty: "each f xs = Inr ys \<Longrightarrow> concat ys = [] \<Longrightarrow> x \<in> set xs \<Longrightarrow> f x = Inr []"
  by (induction xs arbitrary: ys) (auto simp: bind_Inr_iff)

lemma bind_InrE: "bind r f = Inr y \<Longrightarrow> (\<And>x. r = Inr x \<Longrightarrow> f x = Inr y \<Longrightarrow> thesis) \<Longrightarrow> thesis"
  by (auto simp: bind_Inr_iff)

lemma get_defaultE: "py_get_default v k fallback = Inr x \<Longrightarrow> (is_dict v \<Longrightarrow> x = get_or v k fallback \<Longrightarrow> thesis) \<Longrightarrow> thesis"
  by (simp add: py_get_default_iff)

lemmas section_simps = bind_Inr_iff py_get_default_iff get_or_None

lemma flagged_ready: "flagged pb snapshot n = Inr ([], e) \<Longrightarrow> truly (entry_of snapshot n) ''ready''"
  by (auto simp: flagged_def section_simps truly_def entry_of_def dest: append_reason_Nil)

lemma report_ready:
  assumes "report_section pb sha_bytes snapshot = Inr ([], e)"
  shows "report_agrees_now sha_bytes (entry_of snapshot ''shared_report'')"
  using assms
  by (auto simp: report_section_def section_simps report_agrees_now_def truly_def entry_of_def Let_def
      split: if_splits pyval.splits dest!: append_reason_Nil)

lemma items_of_pairs: "items_of v key = Inr kvs \<Longrightarrow> kvs = pairs_of v key"
  by (cases v) (auto simp: items_of_def section_simps pairs_of_def get_or_def field_of_def is_dict_def
      split: pyval.splits option.splits)

lemma controllers_ready:
  assumes "controller_section pb snapshot contract = Inr ([], e)" "c \<in> set (pairs_of contract ''controller_resources'')"
  shows "controller_agrees snapshot c"
proof -
  obtain rows where rows: "each (\<lambda>(n, state). bind (py_get_default (entry_of snapshot ''controller_resources'') n (PDict [])) (\<lambda>entry.
              bind (py_get_default entry ''state'' PNone) (\<lambda>observed.
                Inr (unless (py_eq observed state)
                       (''controller '' @ repr_str n @ '' state '' @ py_repr pb observed @ '' != expected '' @ py_repr pb state),
                     n, entry)))) (pairs_of contract ''controller_resources'') = Inr rows" "concat (map fst rows) = []"
    using assms(1) by (auto simp: controller_section_def section_simps Let_def entry_of_def simp del: each.simps
        dest!: append_reason_Nil items_of_pairs)
  show ?thesis using each_nothing [OF rows assms(2)]
    by (cases c) (auto simp: section_simps controller_agrees_def entry_of_def)
qed

section \<open>Endpoints\<close>

lemma checked_types:
  assumes "check_observed_types pb types wanted endpoint kind = Inr []" "observed_types entry = Inr types"
  shows "only_type pb entry wanted"
proof -
  obtain vs where vs: "py_items types = Inr vs" "vs \<noteq> []" "card (set (map (py_str pb) vs)) = 1" "hd (map (py_str pb) vs) = wanted"
    using assms(1) by (auto simp: check_observed_types_def bind_Inr_iff Let_def split: if_splits)
  have "py_str pb v = wanted" if "v \<in> set vs" for v
  proof -
    obtain x where "set (map (py_str pb) vs) = {x}" using vs(3) card_1_singletonE by blast
    moreover have "wanted \<in> set (map (py_str pb) vs)" using vs(2,4) hd_in_set by blast
    ultimately show ?thesis using that by fastforce
  qed
  then show ?thesis using vs assms(2) by (auto simp: only_type_def observed_types_def section_simps list_all_iff)
qed

lemma endpoint_without_reason:
  assumes "endpoint_reasons types_of pb kind observed (endpoint, spec) = Inr ([], r)"
  obtains types where "served (entry_of observed endpoint) spec" "observed_types (entry_of observed endpoint) = Inr types"
    "types_of types spec = Inr []"
  using assms by (auto simp: endpoint_reasons_def section_simps count_reasons_def source_reasons_def served_def entry_of_def)

lemma actions_ready:
  assumes "action_section pb snapshot contract = Inr ([], e)" "a \<in> set (pairs_of contract ''actions'')"
  shows "action_agrees pb snapshot a"
proof -
  obtain rows where rows: "each (\<lambda>(endpoint, spec). endpoint_reasons (action_types pb endpoint) pb ''action''
      (entry_of snapshot ''actions'') (endpoint, spec)) (pairs_of contract ''actions'') = Inr rows" "concat (map fst rows) = []"
    using assms(1) by (auto simp: action_section_def section_simps Let_def entry_of_def simp del: each.simps
        dest!: append_reason_Nil items_of_pairs)
  obtain endpoint spec where a: "a = (endpoint, spec)" by (cases a)
  obtain r where "endpoint_reasons (action_types pb endpoint) pb ''action'' (entry_of snapshot ''actions'') (endpoint, spec) = Inr ([], r)"
    using each_nothing [OF rows assms(2)] a by auto
  then show ?thesis
    by (rule endpoint_without_reason)
      (auto simp: a action_agrees_def Let_def action_types_def section_simps type_text_def intro: checked_types split: if_splits)
qed

lemma services_ready:
  assumes "service_section pb snapshot contract = Inr ([], e)" "a \<in> set (pairs_of contract ''services'')"
  shows "service_agrees pb snapshot a"
proof -
  obtain rows where rows: "each (\<lambda>(endpoint, spec). endpoint_reasons (service_types pb endpoint) pb ''service''
      (entry_of snapshot ''services'') (endpoint, spec)) (pairs_of contract ''services'') = Inr rows" "concat (map fst rows) = []"
    using assms(1) by (auto simp: service_section_def section_simps Let_def entry_of_def simp del: each.simps
        dest!: append_reason_Nil items_of_pairs)
  obtain endpoint spec where a: "a = (endpoint, spec)" by (cases a)
  obtain r where "endpoint_reasons (service_types pb endpoint) pb ''service'' (entry_of snapshot ''services'') (endpoint, spec) = Inr ([], r)"
    using each_nothing [OF rows assms(2)] a by auto
  then show ?thesis
    by (rule endpoint_without_reason)
      (auto simp: a service_agrees_def Let_def service_types_def section_simps type_text_def intro: checked_types)
qed

section \<open>Publishers and provider\<close>

lemma qos_without_reason:
  "qos_dimension pb topic spec (either (field_of entry ''qos'') (PDict [])) dimension = Inr [] \<Longrightarrow> qos_agrees pb entry spec dimension"
  by (auto simp: qos_dimension_def section_simps qos_agrees_def Let_def split: if_splits)

lemma depth_without_reason:
  "qos_depth pb topic spec (either (field_of entry ''qos'') (PDict [])) = Inr [] \<Longrightarrow> depth_agrees entry spec"
  by (auto simp: qos_depth_def section_simps depth_agrees_def Let_def split: if_splits sum.splits)

lemma publisher_without_reason:
  assumes "publisher_reasons pb (entry_of snapshot ''publishers'') p = Inr []"
  shows "publisher_agrees pb snapshot p"
  using assms
  by (cases p) (auto simp: publisher_reasons_def section_simps publisher_agrees_def Let_def entry_of_def
      type_agrees_def type_text_def
      split: if_splits intro: qos_without_reason depth_without_reason)

lemma publishers_ready:
  assumes "publisher_section pb snapshot contract = Inr ([], e)" "p \<in> set (pairs_of contract ''publishers'')"
  shows "publisher_agrees pb snapshot p"
proof -
  have truthy: "py_truthy (field_of contract ''publishers'')"
    using assms(2) by (auto simp: pairs_of_def py_truthy_def split: pyval.splits)
  obtain reasons where reasons: "bind (items_of contract ''publishers'')
      (evaluate_publisher_metadata pb (entry_of snapshot ''publishers'')) = Inr reasons" "reasons = []"
    using assms(1) truthy unfolding publisher_section_def
  proof (elim bind_InrE get_defaultE, goal_cases)
    case (1 observed p c d)
    have "append_reason pb ''publishers'' (c = []) (strings c) = Inr []" using 1(4,5) by simp
    then have "c = []" by (rule append_reason_Nil)
    show thesis by (rule 1(1) [OF _ \<open>c = []\<close>]) (use 1 in \<open>simp add: get_or_None entry_of_def\<close>)
  qed
  obtain kvs rs where rs: "items_of contract ''publishers'' = Inr kvs"
      "each (publisher_reasons pb (entry_of snapshot ''publishers'')) kvs = Inr rs" "concat rs = []"
    using reasons unfolding evaluate_publisher_metadata_def bind_Inr_iff by blast
  have "p \<in> set kvs" using assms(2) items_of_pairs [OF rs(1)] by simp
  then show ?thesis by (rule publisher_without_reason [OF each_empty [OF rs(2,3)]])
qed

lemma entries_live:
  assumes "over_entries manifest key (live_reasons pb what n excluded live) = Inr []"
  shows "list_all (live_enough pb n excluded live) (members_of manifest key)"
proof -
  obtain entries rs where entries: "is_dict manifest" "py_items (get_or manifest key (PList [])) = Inr entries"
      "each (live_reasons pb what n excluded live) entries = Inr rs" "concat rs = []"
    using assms by (auto simp: over_entries_def section_simps simp del: each.simps)
  have enough: "live_enough pb n excluded live entry" if "live_reasons pb what n excluded live entry = Inr []" for entry
    using that by (auto simp: live_reasons_def live_enough_def section_simps Let_def split: if_splits)
  have "members_of manifest key = entries \<or> members_of manifest key = []"
    using entries(1,2) by (cases manifest)
      (auto simp: is_dict_def members_of_def get_or_def field_of_def py_items_def split: option.splits pyval.splits)
  then show ?thesis using each_empty [OF entries(3,4)] enough by (auto simp: list_all_iff)
qed

lemma agreement_without_reason:
  assumes "provider_manifest_agreement pb manifest nodes publishers controllers = Inr []"
  shows "list_all (live_enough pb ''node'' [] nodes) (members_of manifest ''persistent_nodes'')
    \<and> list_all (live_enough pb ''topic'' [''/sim/safety/operator''] publishers) (members_of manifest ''publishers'')"
proof -
  have "over_entries manifest ''persistent_nodes'' (live_reasons pb ''persistent node'' ''node'' [] nodes) = Inr []"
       "over_entries manifest ''publishers'' (live_reasons pb ''publisher'' ''topic'' [''/sim/safety/operator''] publishers) = Inr []"
    using assms unfolding provider_manifest_agreement_def bind_Inr_iff by auto
  then show ?thesis using entries_live by blast
qed

lemma verdict_agrees:
  assumes "provider_verdict pb provider ready given manifest = Inr (True, reasons)"
  shows "ready \<and> (is_dict manifest \<longrightarrow>
    list_all (live_enough pb ''node'' [] (seen_texts pb provider ''observed_nodes'')) (members_of manifest ''persistent_nodes'')
    \<and> list_all (live_enough pb ''topic'' [''/sim/safety/operator''] (seen_texts pb provider ''observed_publishers''))
         (members_of manifest ''publishers''))"
proof (cases "ready \<and> is_dict manifest")
  case False
  then show ?thesis using assms by (auto simp: provider_verdict_def)
next
  case True
  have seen: "texts = seen_texts pb provider key" if "texts_of pb provider key = Inr texts" for key texts
    using that by (auto simp: texts_of_def seen_texts_def section_simps)
  obtain controllers where "provider_manifest_agreement pb manifest (seen_texts pb provider ''observed_nodes'')
      (seen_texts pb provider ''observed_publishers'') controllers = Inr []"
    using assms True unfolding provider_verdict_def Let_def if_P [OF True]
    by (elim bind_InrE) (auto dest!: seen)
  then show ?thesis using agreement_without_reason True by blast
qed

lemma provider_ready:
  assumes "provider_section pb snapshot = Inr ([], e)"
  shows "provider_agrees pb snapshot"
proof -
  let ?p = "entry_of snapshot ''provider_manifest''"
  obtain given verdict rs where verdict:
      "provider_verdict pb ?p (py_truthy (field_of ?p ''ready'')) given (field_of ?p ''manifest'') = Inr verdict"
      "append_reason pb ''provider_manifest'' (fst verdict) (PList (snd verdict)) = Inr []"
    using assms unfolding provider_section_def
  proof (elim bind_InrE get_defaultE, goal_cases)
    case (1 provider ready v given manifest verdict)
    obtain ok reasons where verdict: "verdict = (ok, reasons)" by (cases verdict)
    have "append_reason pb ''provider_manifest'' ok (PList reasons) = Inr []"
      using 1(4) unfolding verdict prod.case by (elim bind_InrE) simp
    then show thesis using 1(1) [of given verdict] 1 unfolding verdict by (simp add: get_or_None entry_of_def)
  qed
  obtain ok reasons where split: "verdict = (ok, reasons)" by (cases verdict)
  have "ok" using verdict(2) append_reason_Nil unfolding split fst_conv by blast
  then have "provider_verdict pb ?p (truly ?p ''ready'') given (field_of ?p ''manifest'') = Inr (True, reasons)"
    using verdict(1) by (simp add: split truly_def)
  from verdict_agrees [OF this] show ?thesis unfolding provider_agrees_def Let_def by blast
qed

section \<open>The verdict\<close>

lemma sections_silent:
  assumes "evaluate_integrated_readiness pb sha_bytes snapshot contract = Inr rep" "rr_ready rep"
  shows "\<forall>r\<in>set [flagged pb snapshot ''model_preflight'', report_section pb sha_bytes snapshot, flagged pb snapshot ''joint_states'',
        flagged pb snapshot ''tf'', controller_section pb snapshot contract, flagged pb snapshot ''operator_input'',
        flagged pb snapshot ''safety_stop'', action_section pb snapshot contract, service_section pb snapshot contract,
        flagged pb snapshot ''arm_joint_service'', flagged pb snapshot ''fixture_status'', flagged pb snapshot ''mapping_agreement'',
        publisher_section pb snapshot contract, provider_section pb snapshot, flagged pb snapshot ''semantic_model'',
        flagged pb snapshot ''collision_state'']. \<exists>e. r = Inr ([], e)"
    (is "\<forall>r\<in>set ?sections. _")
proof -
  obtain sections where "each id ?sections = Inr sections" "concat (map fst sections) = []"
    using assms unfolding evaluate_integrated_readiness_def bind_Inr_iff Let_def by auto
  then show ?thesis using each_nothing [of id ?sections sections] unfolding id_apply by blast
qed

text \<open>C35: An evaluation that says ready has seen every verdict true, the playing state and the digest of the report, and every
  controller, action and service of the contract in the declared state, number, source and type, and every publisher of the
  contract with the declared number, source, reliability and durability; with the declared type among the observed ones if
  any type was observed, and with the declared depth if a positive depth was observed; and the provider as its manifest
  says. So a missing verdict, endpoint or controller is never ready.\<close>
theorem readiness_fails_closed:
  assumes "evaluate_integrated_readiness pb sha_bytes snapshot contract = Inr rep" "rr_ready rep"
  shows "list_all (\<lambda>n. truly (entry_of snapshot n) ''ready'') VERDICTS
    \<and> report_agrees_now sha_bytes (entry_of snapshot ''shared_report'')
    \<and> list_all (controller_agrees snapshot) (pairs_of contract ''controller_resources'')
    \<and> list_all (action_agrees pb snapshot) (pairs_of contract ''actions'')
    \<and> list_all (service_agrees pb snapshot) (pairs_of contract ''services'')
    \<and> list_all (publisher_agrees pb snapshot) (pairs_of contract ''publishers'')
    \<and> provider_agrees pb snapshot"
proof -
  note silent = sections_silent [OF assms, unfolded list.set ball_simps]
  have "truly (entry_of snapshot n) ''ready''" if "n \<in> set VERDICTS" for n
    using that silent flagged_ready unfolding VERDICTS_def by fastforce
  moreover have "report_agrees_now sha_bytes (entry_of snapshot ''shared_report'')" using silent report_ready by blast
  moreover have "provider_agrees pb snapshot" using silent provider_ready by blast
  moreover have "list_all (controller_agrees snapshot) (pairs_of contract ''controller_resources'')"
    using silent controllers_ready by (fastforce simp: list_all_iff)
  moreover have "list_all (action_agrees pb snapshot) (pairs_of contract ''actions'')"
    using silent actions_ready by (fastforce simp: list_all_iff)
  moreover have "list_all (service_agrees pb snapshot) (pairs_of contract ''services'')"
    using silent services_ready by (fastforce simp: list_all_iff)
  moreover have "list_all (publisher_agrees pb snapshot) (pairs_of contract ''publishers'')"
    using silent publishers_ready by (fastforce simp: list_all_iff)
  ultimately show ?thesis by (simp add: list_all_iff)
qed

text \<open>An observation of the whole canonical contract.\<close>

definition seen_entry :: "string list \<Rightarrow> pyval \<Rightarrow> pyval" where
  "seen_entry types spec = PDict [(''count'', PInt 1), (''types'', strings types), (''source'', field_of spec ''source''), (''qos'', spec)]"

definition spec_type :: "pyval \<Rightarrow> string" where
  "spec_type spec = (case field_of spec ''type'' of PStr s \<Rightarrow> s | _ \<Rightarrow> [])"

definition ideal_snapshot :: pyval where
  "ideal_snapshot =
     (let yes = PDict [(''ready'', PBool True)]
      in PDict (map (\<lambda>n. (n, yes)) VERDICTS
        @ [(''shared_report'', PDict [(''ready'', PBool True), (''scenario_report_sha256'', PStr ''ab''),
              (''scenario_report_sha256_bytes'', PStr ''ab''), (''final_simulation_state'', PStr ''STATE_PLAYING'')]),
           (''controller_resources'', PDict [(''joint_state_broadcaster'', PDict [(''state'', PStr ''active'')]),
              (''xarm7_traj_controller'', PDict [(''state'', PStr ''active''), (''action_server_count'', PInt 1)])]),
           (''actions'', PDict (map (\<lambda>(n, spec). (n, seen_entry [derive_goal_service_type (spec_type spec)] spec)) INTEGRATED_ACTIONS)),
           (''services'', PDict (map (\<lambda>(n, spec). (n, seen_entry [spec_type spec] spec)) INTEGRATED_SERVICES)),
           (''publishers'', PDict (map (\<lambda>(n, spec). (n, seen_entry [spec_type spec] spec)) INTEGRATED_PUBLISHERS)),
           (''provider_manifest'', PDict [(''ready'', PBool True), (''observed_nodes'', strings [''/move_group'']),
              (''manifest'', PDict [(''persistent_nodes'', PList [PDict [(''node'', PStr ''/move_group'')]])])])]))"

lemma readiness_fails_closed_witness:
  "list_all (\<lambda>n. truly (entry_of ideal_snapshot n) ''ready'') VERDICTS
    \<and> list_all (action_agrees plain_builtins ideal_snapshot) INTEGRATED_ACTIONS \<and> length INTEGRATED_ACTIONS = 9"
proof -
  have ready: "map_sum (\<lambda>_. 0) rr_ready (evaluate_integrated_readiness plain_builtins id ideal_snapshot (PDict build_integrated_mapping))
      = (Inr True :: nat + bool)"
    by code_simp
  obtain rep where rep: "evaluate_integrated_readiness plain_builtins id ideal_snapshot (PDict build_integrated_mapping) = Inr rep"
      "rr_ready rep"
    using ready by (cases "evaluate_integrated_readiness plain_builtins id ideal_snapshot (PDict build_integrated_mapping)") auto
  have pairs: "pairs_of (PDict build_integrated_mapping) ''actions'' = INTEGRATED_ACTIONS" "length INTEGRATED_ACTIONS = 9"
    by (simp_all add: pairs_of_def field_of_def build_integrated_mapping_def INTEGRATED_ACTIONS_def)
  show ?thesis using readiness_fails_closed [OF rep] pairs by simp
qed

section \<open>What the evaluation does not see\<close>

text \<open>The type of a publisher is compared only when some type was observed, and a provider entry without a manifest object
  is not compared with anything.\<close>

lemma untyped_publisher_passes:
  "publisher_reasons plain_builtins (PDict [(''/tf'', PDict [(''count'', PInt 1)])])
     (''/tf'', PDict [(''type'', PStr ''tf2_msgs/msg/TFMessage'')]) = Inr []"
  by code_simp

lemma absent_manifest_passes:
  "provider_verdict plain_builtins (PDict [(''ready'', PBool True)]) True [] PNone = Inr (True, [])"
  by (simp add: provider_verdict_def is_dict_def)

end
