(* ===== verification/Truth_Evaluator.thy ===== *)
theory Truth_Evaluator
  imports Scenario
begin

text \<open>
  The evaluator of physics truth (\<open>truth_evaluator.py\<close>): the frame it parses, the retention state and its evaluation,
  and the messages of the node. Numbers of a frame are finite, hence rationals; \<open>math.sqrt\<close>, \<open>math.acos\<close> and
  \<open>math.degrees\<close> are the fields of \<open>truth_math\<close>. The detail text of a task message is JSON and stands for its metrics.
\<close>

record truth_math =
  tm_sqrt :: "rat \<Rightarrow> rat"
  tm_acos :: "rat \<Rightarrow> rat"
  tm_degrees :: "rat \<Rightarrow> rat"

type_synonym vec3 = "rat \<times> rat \<times> rat"
type_synonym quaternion = "rat \<times> rat \<times> rat \<times> rat"

section \<open>Parsing\<close>

definition EVALUATOR_SCHEMA_VERSION :: int where
  "EVALUATOR_SCHEMA_VERSION = 1"

definition SUPPORTED_RAW_SCHEMA_VERSIONS :: "int list" where
  "SUPPORTED_RAW_SCHEMA_VERSIONS = [1, 2]"

definition finite_value :: "py_builtins \<Rightarrow> string \<Rightarrow> pyval \<Rightarrow> rat res" where
  "finite_value pb n v =
     bind (py_float pb v) (\<lambda>f. case f of Fin r \<Rightarrow> Inr r | _ \<Rightarrow> Inl (ValueError (n @ '' must be finite'')))"

definition vec :: "py_builtins \<Rightarrow> pyval \<Rightarrow> nat \<Rightarrow> string \<Rightarrow> rat list res" where
  "vec pb v count n =
     (let items = (case v of PDict _ \<Rightarrow> PList (map (field_of v) (take count [''x'', ''y'', ''z'', ''w''])) | _ \<Rightarrow> v)
      in case items of
           PList xs \<Rightarrow> if length xs \<noteq> count then Inl (ValueError (n @ '' must contain '' @ dec_nat count @ '' values''))
                      else each (finite_value pb n) xs
         | _ \<Rightarrow> Inl (ValueError (n @ '' must be an array'')))"

definition parse_vec3 :: "py_builtins \<Rightarrow> pyval \<Rightarrow> string \<Rightarrow> vec3 res" where
  "parse_vec3 pb v n = bind (vec pb v 3 n) (\<lambda>xs. Inr (xs ! 0, xs ! 1, xs ! 2))"

definition normalized_quat :: "truth_math \<Rightarrow> string \<Rightarrow> quaternion \<Rightarrow> quaternion res" where
  "normalized_quat tm n = (\<lambda>(x, y, z, w).
     let norm = tm_sqrt tm (x * x + y * y + z * z + w * w)
     in if norm \<le> 1 / 10 ^ 12 then Inl (ValueError (n @ '' must not be zero'')) else Inr (x / norm, y / norm, z / norm, w / norm))"

definition quat :: "truth_math \<Rightarrow> py_builtins \<Rightarrow> pyval \<Rightarrow> string \<Rightarrow> quaternion res" where
  "quat tm pb v n = bind (vec pb v 4 n) (\<lambda>xs. normalized_quat tm n (xs ! 0, xs ! 1, xs ! 2, xs ! 3))"

record body_pose =
  bp_position :: vec3
  bp_orientation :: quaternion

record body_twist =
  bt_linear :: vec3
  bt_angular :: vec3

definition parse_pose :: "truth_math \<Rightarrow> py_builtins \<Rightarrow> pyval \<Rightarrow> string \<Rightarrow> body_pose res" where
  "parse_pose tm pb v n =
     (if \<not> is_dict v then Inl (ValueError (n @ '' must be an object''))
      else bind (parse_vec3 pb (get_or v ''position'' (field_of v ''xyz'')) (n @ ''.position'')) (\<lambda>p.
           bind (quat tm pb (get_or v ''orientation'' (field_of v ''quaternion_xyzw'')) (n @ ''.orientation'')) (\<lambda>q.
             Inr \<lparr>bp_position = p, bp_orientation = q\<rparr>)))"

definition int_vector :: "int list \<Rightarrow> pyval" where
  "int_vector is = PList (map PInt is)"

definition parse_twist :: "py_builtins \<Rightarrow> pyval \<Rightarrow> string \<Rightarrow> body_twist res" where
  "parse_twist pb v n =
     (if \<not> is_dict v then Inl (ValueError (n @ '' must be an object''))
      else let rest = PList [PFloat (Fin 0), PFloat (Fin 0), PFloat (Fin 0)]
           in bind (parse_vec3 pb (get_or v ''linear'' (get_or v ''linear_velocity'' rest)) (n @ ''.linear'')) (\<lambda>l.
              bind (parse_vec3 pb (get_or v ''angular'' (get_or v ''angular_velocity'' rest)) (n @ ''.angular'')) (\<lambda>a.
                Inr \<lparr>bt_linear = l, bt_angular = a\<rparr>)))"

definition stamp_of :: "py_builtins \<Rightarrow> pyval \<Rightarrow> rat res" where
  "stamp_of pb v =
     (case v of PNone \<Rightarrow> Inr 0
      | PDict _ \<Rightarrow> bind (finite_value pb ''stamp.sec'' (get_or v ''sec'' (PInt 0))) (\<lambda>s.
                   bind (finite_value pb ''stamp.nanosec'' (get_or v ''nanosec'' (PInt 0))) (\<lambda>ns. Inr (s + ns / 10 ^ 9)))
      | _ \<Rightarrow> finite_value pb ''stamp'' v)"

text \<open>A robot, an object and a contact keep the fields that were not parsed.\<close>

record truth_robot =
  tr_base_pose :: body_pose
  tr_tcp_pose :: body_pose
  tr_base_twist :: body_twist
  tr_joint_positions :: "rat list"
  tr_joint_velocities :: "rat list"
  tr_joint_efforts :: "rat list"
  tr_fields :: pyval

record truth_object =
  to_pose :: body_pose
  to_twist :: body_twist
  to_fields :: pyval

record truth_contact =
  tk_body_a :: string
  tk_body_b :: string
  tk_normal_force :: rat
  tk_point :: vec3
  tk_normal :: vec3

record truth_frame =
  fr_timestamp :: rat
  fr_scenario :: string
  fr_task :: string
  fr_robot :: truth_robot
  fr_objects :: "truth_object list"
  fr_contacts :: "truth_contact list"
  fr_raw :: pyval

definition joint_field :: "py_builtins \<Rightarrow> pyval \<Rightarrow> string \<Rightarrow> rat list res" where
  "joint_field pb robot key = bind (py_items (get_or robot key (PList []))) (each (finite_value pb (''robot.'' @ key)))"

text \<open>Without a pose of the tool the parsed base pose is parsed again, which normalises its orientation again.\<close>

definition given_field :: "pyval \<Rightarrow> string \<Rightarrow> pyval option" where
  "given_field v key = (case v of PDict d \<Rightarrow> map_of d key | _ \<Rightarrow> None)"

definition parse_robot :: "truth_math \<Rightarrow> py_builtins \<Rightarrow> pyval \<Rightarrow> truth_robot res" where
  "parse_robot tm pb robot =
     bind (parse_pose tm pb (get_or robot ''base_pose''
             (PDict [(''xyz'', int_vector [0, 0, 0]), (''quaternion_xyzw'', int_vector [0, 0, 0, 1])])) ''robot.base_pose'') (\<lambda>base.
     bind (case given_field robot ''tcp_pose'' of
             None \<Rightarrow> bind (normalized_quat tm ''robot.tcp_pose.orientation'' (bp_orientation base)) (\<lambda>q.
                       Inr \<lparr>bp_position = bp_position base, bp_orientation = q\<rparr>)
           | Some v \<Rightarrow> parse_pose tm pb v ''robot.tcp_pose'') (\<lambda>tcp.
     bind (parse_twist pb (get_or robot ''base_twist'' (PDict [])) ''robot.base_twist'') (\<lambda>twist.
     bind (joint_field pb robot ''joint_positions'') (\<lambda>ps. bind (joint_field pb robot ''joint_velocities'') (\<lambda>vs.
     bind (joint_field pb robot ''joint_efforts'') (\<lambda>es.
       Inr \<lparr>tr_base_pose = base, tr_tcp_pose = tcp, tr_base_twist = twist, tr_joint_positions = ps, tr_joint_velocities = vs,
            tr_joint_efforts = es, tr_fields = robot\<rparr>))))))"

definition parse_object :: "truth_math \<Rightarrow> py_builtins \<Rightarrow> pyval \<Rightarrow> string \<Rightarrow> truth_object res" where
  "parse_object tm pb v n =
     (if \<not> is_dict v then Inl (ValueError (n @ '' must be a mapping''))
      else bind (parse_pose tm pb (field_of v ''pose'') (n @ ''.pose'')) (\<lambda>pose.
           bind (parse_twist pb (get_or v ''twist'' (PDict [])) (n @ ''.twist'')) (\<lambda>twist.
             Inr \<lparr>to_pose = pose, to_twist = twist, to_fields = v\<rparr>)))"

definition parse_objects :: "truth_math \<Rightarrow> py_builtins \<Rightarrow> pyval \<Rightarrow> truth_object list res" where
  "parse_objects tm pb payload =
     (case field_of payload ''objects'' of
        PNone \<Rightarrow>
          (case field_of payload ''object'' of
             PNone \<Rightarrow> Inr []
           | PDict d \<Rightarrow> bind (parse_object tm pb (PDict d) ''object'') (\<lambda>ob. Inr [ob])
           | _ \<Rightarrow> Inl (ValueError ''physics truth object must be a mapping or null''))
      | PList raws \<Rightarrow> each (\<lambda>(i, raw). parse_object tm pb raw (''objects['' @ dec_nat i @ '']'')) (enumerate 0 raws)
      | _ \<Rightarrow> Inl (ValueError ''objects must be an array''))"

definition parse_contact :: "py_builtins \<Rightarrow> nat \<times> pyval \<Rightarrow> truth_contact res" where
  "parse_contact pb = (\<lambda>(i, raw).
     if \<not> is_dict raw then Inl (ValueError (''contacts['' @ dec_nat i @ ''] must be an object''))
     else bind (finite_value pb ''normal_force'' (get_or raw ''normal_force'' (PFloat (Fin 0)))) (\<lambda>force.
          bind (parse_vec3 pb (get_or raw ''point'' (int_vector [0, 0, 0])) ''contact.point'') (\<lambda>point.
          bind (parse_vec3 pb (get_or raw ''normal'' (int_vector [0, 0, 1])) ''contact.normal'') (\<lambda>normal.
            Inr \<lparr>tk_body_a = py_str pb (get_or raw ''body_a'' (PStr [])), tk_body_b = py_str pb (get_or raw ''body_b'' (PStr [])),
                 tk_normal_force = force, tk_point = point, tk_normal = normal\<rparr>))))"

definition supported_version :: "py_builtins \<Rightarrow> pyval \<Rightarrow> unit res" where
  "supported_version pb version =
     (case version of
        PList _ \<Rightarrow> Inl (TypeError ''unhashable type'') | PDict _ \<Rightarrow> Inl (TypeError ''unhashable type'')
      | _ \<Rightarrow> if list_ex (\<lambda>i. py_eq version (PInt i)) SUPPORTED_RAW_SCHEMA_VERSIONS then Inr ()
             else Inl (ValueError (''unsupported physics truth schema version: '' @ py_repr pb version)))"

definition frame_from_mapping :: "truth_math \<Rightarrow> py_builtins \<Rightarrow> pyval \<Rightarrow> truth_frame res" where
  "frame_from_mapping tm pb payload =
     bind (supported_version pb (get_or payload ''schema_version'' (field_of payload ''version''))) (\<lambda>_.
     bind (if is_dict (field_of payload ''robot'') then parse_robot tm pb (field_of payload ''robot'')
           else Inl (ValueError ''physics truth requires a robot mapping'')) (\<lambda>robot.
     bind (parse_objects tm pb payload) (\<lambda>obs.
     bind (case get_or payload ''contacts'' (PList []) of PList xs \<Rightarrow> each (parse_contact pb) (enumerate 0 xs)
           | _ \<Rightarrow> Inl (ValueError ''contacts must be an array'')) (\<lambda>contacts.
     bind (stamp_of pb (get_or payload ''timestamp'' (field_of payload ''stamp''))) (\<lambda>t.
       Inr \<lparr>fr_timestamp = t, fr_scenario = py_str pb (get_or payload ''scenario'' (PStr [])),
            fr_task = py_str pb (get_or payload ''task'' (PStr [])), fr_robot = robot, fr_objects = obs,
            fr_contacts = contacts, fr_raw = payload\<rparr>)))))"

section \<open>The state and its geometry\<close>

definition DEFAULT_THRESHOLDS :: "(string \<times> pyfloat) list" where
  "DEFAULT_THRESHOLDS =
     [(''lift_m'', Fin (1 / 10)), (''translation_m'', Fin (1 / 5)), (''hold_s'', Fin 1), (''drift_m'', Fin (1 / 50)),
      (''drift_deg'', Fin 5), (''stable_speed_mps'', Fin (1 / 50)), (''contact_force_n'', Fin 0)]"

record retention_metrics =
  rm_object_present :: bool
  rm_bilateral_contact :: bool
  rm_left_contact :: bool
  rm_right_contact :: bool
  rm_lift_m :: rat
  rm_translation_m :: rat
  rm_drift_m :: rat
  rm_drift_deg :: rat
  rm_object_speed_mps :: rat
  rm_stable_window_s :: rat
  rm_stable :: bool
  rm_retained :: bool

record truth_core =
  tc_thresholds :: "(string \<times> pyfloat) list"
  tc_initial_object_position :: "vec3 option"
  tc_relative_reference :: "(vec3 \<times> quaternion) option"
  tc_stable_start :: "rat option"
  tc_last_timestamp :: "rat option"
  tc_last_scenario :: "string option"
  tc_last_task :: "string option"
  tc_last_object_id :: "string option"

definition truth_core_new :: "(string \<times> pyfloat) list \<Rightarrow> truth_core" where
  "truth_core_new thresholds =
     \<lparr>tc_thresholds = foldl (\<lambda>d (k, v). dict_set k v d) DEFAULT_THRESHOLDS thresholds, tc_initial_object_position = None,
      tc_relative_reference = None, tc_stable_start = None, tc_last_timestamp = None, tc_last_scenario = None, tc_last_task = None,
      tc_last_object_id = None\<rparr>"

text \<open>The defaults give every threshold a value.\<close>

definition threshold :: "truth_core \<Rightarrow> string \<Rightarrow> pyfloat" where
  "threshold s key = (case map_of (tc_thresholds s) key of None \<Rightarrow> NaN | Some x \<Rightarrow> x)"

definition reset_retention_state :: "truth_core \<Rightarrow> truth_core" where
  "reset_retention_state s = s\<lparr>tc_initial_object_position := None, tc_relative_reference := None, tc_stable_start := None\<rparr>"

definition vec_distance :: "truth_math \<Rightarrow> vec3 \<Rightarrow> vec3 \<Rightarrow> rat" where
  "vec_distance tm = (\<lambda>(x1, y1, z1) (x2, y2, z2). tm_sqrt tm ((x1 - x2) ^ 2 + (y1 - y2) ^ 2 + (z1 - z2) ^ 2))"

definition q_inverse :: "quaternion \<Rightarrow> quaternion" where
  "q_inverse = (\<lambda>(x, y, z, w). (- x, - y, - z, w))"

definition q_multiply :: "quaternion \<Rightarrow> quaternion \<Rightarrow> quaternion" where
  "q_multiply = (\<lambda>(x1, y1, z1, w1) (x2, y2, z2, w2).
     (w1 * x2 + x1 * w2 + y1 * z2 - z1 * y2, w1 * y2 - x1 * z2 + y1 * w2 + z1 * x2,
      w1 * z2 + x1 * y2 - y1 * x2 + z1 * w2, w1 * w2 - x1 * x2 - y1 * y2 - z1 * z2))"

definition q_rotate :: "quaternion \<Rightarrow> vec3 \<Rightarrow> vec3" where
  "q_rotate q = (\<lambda>(x, y, z). case q_multiply (q_multiply q (x, y, z, 0)) (q_inverse q) of (a, b, c, d) \<Rightarrow> (a, b, c))"

definition q_angle_deg :: "truth_math \<Rightarrow> quaternion \<Rightarrow> quaternion \<Rightarrow> rat" where
  "q_angle_deg tm = (\<lambda>(x1, y1, z1, w1) (x2, y2, z2, w2).
     tm_degrees tm (2 * tm_acos tm (max (- 1) (min 1 \<bar>x1 * x2 + y1 * y2 + z1 * z2 + w1 * w2\<bar>))))"

definition body_side :: "string \<Rightarrow> string option" where
  "body_side body =
     (let normalized = map (\<lambda>c. if c = CHR ''-'' then CHR ''_'' else c) (py_lower body);
          names = list_ex (\<lambda>token. py_contains token normalized)
      in if names [''left_finger'', ''finger_left'', ''left_gripper''] then Some ''left''
         else if names [''right_finger'', ''finger_right'', ''right_gripper''] then Some ''right''
         else None)"

section \<open>Evaluation\<close>

definition id_text :: "py_builtins \<Rightarrow> truth_object \<Rightarrow> string" where
  "id_text pb ob = py_str pb (get_or (to_fields ob) ''id'' (get_or (to_fields ob) ''object_id'' (PStr [])))"

definition frame_object :: "truth_frame \<Rightarrow> truth_object option" where
  "frame_object frame = (case fr_objects frame of [] \<Rightarrow> None | ob # _ \<Rightarrow> Some ob)"

definition frame_object_id :: "py_builtins \<Rightarrow> truth_frame \<Rightarrow> string option" where
  "frame_object_id pb frame = map_option (id_text pb) (frame_object frame)"

definition touches_object :: "string \<Rightarrow> truth_contact \<Rightarrow> bool" where
  "touches_object object_id contact =
     (let bodies = map py_lower [tk_body_a contact, tk_body_b contact]
      in list_ex (\<lambda>body. object_id \<noteq> [] \<and> py_contains object_id body) bodies
         \<or> list_ex (\<lambda>body. py_contains ''cube'' body \<or> py_contains ''object'' body) bodies)"

definition contact_sides :: "truth_contact \<Rightarrow> string option list" where
  "contact_sides contact = [body_side (tk_body_a contact), body_side (tk_body_b contact)]"

definition touching :: "truth_core \<Rightarrow> py_builtins \<Rightarrow> truth_frame \<Rightarrow> string \<Rightarrow> bool" where
  "touching s pb frame side =
     (case frame_object frame of
        None \<Rightarrow> False
      | Some ob \<Rightarrow> list_ex (\<lambda>c. \<not> flt (Fin (tk_normal_force c)) (threshold s ''contact_force_n'')
                             \<and> touches_object (py_lower (id_text pb ob)) c \<and> Some side \<in> set (contact_sides c)) (fr_contacts frame))"

definition context_changed :: "py_builtins \<Rightarrow> truth_core \<Rightarrow> truth_frame \<Rightarrow> bool" where
  "context_changed pb s frame \<longleftrightarrow>
     (tc_last_scenario s \<noteq> None \<and> tc_last_scenario s \<noteq> Some (fr_scenario frame))
     \<or> (tc_last_task s \<noteq> None \<and> tc_last_task s \<noteq> Some (fr_task frame))
     \<or> (tc_last_object_id s \<noteq> None \<and> frame_object_id pb frame \<noteq> tc_last_object_id s)"

definition timestamp_rollback :: "truth_core \<Rightarrow> truth_frame \<Rightarrow> bool" where
  "timestamp_rollback s frame = (case tc_last_timestamp s of None \<Rightarrow> False | Some t \<Rightarrow> fr_timestamp frame < t)"

definition note_context :: "py_builtins \<Rightarrow> truth_core \<Rightarrow> truth_frame \<Rightarrow> truth_core" where
  "note_context pb s frame =
     (if timestamp_rollback s frame \<or> context_changed pb s frame then reset_retention_state s else s)
       \<lparr>tc_last_timestamp := Some (fr_timestamp frame), tc_last_scenario := Some (fr_scenario frame),
        tc_last_task := Some (fr_task frame), tc_last_object_id := frame_object_id pb frame\<rparr>"

text \<open>The pose of the object relative to the tool.\<close>

definition relative_pose :: "truth_frame \<Rightarrow> truth_object \<Rightarrow> vec3 \<times> quaternion" where
  "relative_pose frame ob =
     (let tcp = tr_tcp_pose (fr_robot frame); inverse = q_inverse (bp_orientation tcp)
      in case (bp_position (to_pose ob), bp_position tcp) of
           ((x1, y1, z1), (x2, y2, z2)) \<Rightarrow>
             (q_rotate inverse (x1 - x2, y1 - y2, z1 - z2), q_multiply inverse (bp_orientation (to_pose ob))))"

record motion =
  mo_lift :: rat
  mo_translation :: rat
  mo_drift_m :: rat
  mo_drift_deg :: rat
  mo_speed :: rat

definition object_motion :: "truth_math \<Rightarrow> vec3 \<Rightarrow> (vec3 \<times> quaternion) option \<Rightarrow> truth_frame \<Rightarrow> truth_object \<Rightarrow> motion" where
  "object_motion tm initial reference frame ob =
     (let position = bp_position (to_pose ob); current = relative_pose frame ob
      in \<lparr>mo_lift = snd (snd position) - snd (snd initial),
          mo_translation = vec_distance tm position initial,
          mo_drift_m = (case reference of None \<Rightarrow> 0 | Some r \<Rightarrow> vec_distance tm (fst current) (fst r)),
          mo_drift_deg = (case reference of None \<Rightarrow> 0 | Some r \<Rightarrow> q_angle_deg tm (snd current) (snd r)),
          mo_speed = (case bt_linear (to_twist ob) of (x, y, z) \<Rightarrow> tm_sqrt tm (x * x + y * y + z * z))\<rparr>)"

definition tolerance :: rat where
  "tolerance = 1 / 10 ^ 12"

definition stable_now :: "truth_core \<Rightarrow> bool \<Rightarrow> bool \<Rightarrow> motion \<Rightarrow> truth_frame \<Rightarrow> bool" where
  "stable_now s left right m frame \<longleftrightarrow>
     left \<and> right
     \<and> fle (threshold s ''lift_m'') (Fin (mo_lift m + tolerance))
     \<and> fle (threshold s ''translation_m'') (Fin (mo_translation m + tolerance))
     \<and> fle (Fin (mo_drift_m m)) (fadd (threshold s ''drift_m'') (Fin tolerance))
     \<and> fle (Fin (mo_drift_deg m)) (fadd (threshold s ''drift_deg'') (Fin tolerance))
     \<and> fle (Fin (mo_speed m)) (fadd (threshold s ''stable_speed_mps'') (Fin tolerance))
     \<and> \<not> py_truthy (get_or (tr_fields (fr_robot frame)) ''safety_stop'' (PBool False))"

definition no_object_metrics :: retention_metrics where
  "no_object_metrics =
     \<lparr>rm_object_present = False, rm_bilateral_contact = False, rm_left_contact = False, rm_right_contact = False, rm_lift_m = 0,
      rm_translation_m = 0, rm_drift_m = 0, rm_drift_deg = 0, rm_object_speed_mps = 0, rm_stable_window_s = 0, rm_stable = False,
      rm_retained = False\<rparr>"

text \<open>The initial position is kept from the first frame, the reference from the first one with contact on both sides.\<close>

definition note_object :: "bool \<Rightarrow> truth_core \<Rightarrow> truth_frame \<Rightarrow> truth_object \<Rightarrow> truth_core" where
  "note_object both s frame ob =
     s\<lparr>tc_initial_object_position :=
         (case tc_initial_object_position s of None \<Rightarrow> Some (bp_position (to_pose ob)) | Some p \<Rightarrow> Some p),
       tc_relative_reference :=
         (case tc_relative_reference s of None \<Rightarrow> if both then Some (relative_pose frame ob) else None | Some r \<Rightarrow> Some r)\<rparr>"

definition advance_window :: "bool \<Rightarrow> rat \<Rightarrow> truth_core \<Rightarrow> truth_core \<times> rat" where
  "advance_window now t s =
     (if now then
        let start = (case tc_stable_start s of None \<Rightarrow> t | Some t0 \<Rightarrow> t0)
        in (s\<lparr>tc_stable_start := Some start\<rparr>, max 0 (t - start))
      else (s\<lparr>tc_stable_start := None\<rparr>, 0))"

definition evaluate_frame :: "truth_math \<Rightarrow> py_builtins \<Rightarrow> truth_core \<Rightarrow> truth_frame \<Rightarrow> truth_core \<times> retention_metrics" where
  "evaluate_frame tm pb s frame =
     (let s = note_context pb s frame
      in case frame_object frame of
           None \<Rightarrow> (reset_retention_state s, no_object_metrics)
         | Some ob \<Rightarrow>
             let left = touching s pb frame ''left''; right = touching s pb frame ''right'';
                 s = note_object (left \<and> right) s frame ob;
                 m = object_motion tm (the (tc_initial_object_position s)) (tc_relative_reference s) frame ob;
                 (s', window) = advance_window (stable_now s left right m frame) (fr_timestamp frame) s;
                 stable = fle (threshold s ''hold_s'') (Fin window)
             in (s', \<lparr>rm_object_present = True, rm_bilateral_contact = (left \<and> right), rm_left_contact = left,
                      rm_right_contact = right, rm_lift_m = mo_lift m, rm_translation_m = mo_translation m,
                      rm_drift_m = mo_drift_m m, rm_drift_deg = mo_drift_deg m, rm_object_speed_mps = mo_speed m,
                      rm_stable_window_s = window, rm_stable = stable, rm_retained = stable\<rparr>))"

datatype task_state = Retained | Holding | Tracking | No_Object

definition task_state_of :: "retention_metrics \<Rightarrow> task_state" where
  "task_state_of m =
     (if rm_retained m then Retained else if rm_bilateral_contact m then Holding
      else if rm_object_present m then Tracking else No_Object)"

record truth_record =
  tl_timestamp :: rat
  tl_scenario :: string
  tl_task :: string
  tl_metrics :: retention_metrics
  tl_state :: task_state
  tl_frame :: pyval

definition process :: "truth_math \<Rightarrow> py_builtins \<Rightarrow> truth_core \<Rightarrow> pyval \<Rightarrow> truth_core \<times> truth_record res" where
  "process tm pb s payload =
     (case frame_from_mapping tm pb payload of
        Inl e \<Rightarrow> (s, Inl e)
      | Inr frame \<Rightarrow>
          let (s', m) = evaluate_frame tm pb s frame
          in (s', Inr \<lparr>tl_timestamp = fr_timestamp frame, tl_scenario = fr_scenario frame, tl_task = fr_task frame,
                       tl_metrics = m, tl_state = task_state_of m, tl_frame = payload\<rparr>))"

section \<open>The node\<close>

text \<open>\<open>int(seconds)\<close> cuts towards zero.\<close>

definition set_time :: "rat \<Rightarrow> int \<times> int" where
  "set_time t =
     (let whole = (if 0 \<le> t then \<lfloor>t\<rfloor> else \<lceil>t\<rceil>) in (whole, round_even ((t - of_int whole) * 10 ^ 9)))"

datatype truth_message =
    Robot_Truth "int \<times> int" body_pose body_twist "string list" "rat list" "rat list" "rat list" bool
  | Object_Truth "int \<times> int" string string body_pose body_twist bool
  | Contact_Truth "int \<times> int" string string vec3 vec3 rat
  | Task_Truth "int \<times> int" string string task_state bool retention_metrics

definition object_messages :: "py_builtins \<Rightarrow> truth_frame \<Rightarrow> bool \<Rightarrow> truth_message list" where
  "object_messages pb frame retained =
     map (\<lambda>(i, ob). Object_Truth (set_time (fr_timestamp frame)) (id_text pb ob)
            (py_str pb (get_or (to_fields ob) ''class_name'' (PStr []))) (to_pose ob) (to_twist ob) (i = 0 \<and> retained))
       (enumerate 0 (fr_objects frame))"

definition setdefault :: "string \<Rightarrow> pyval \<Rightarrow> pyval \<Rightarrow> pyval" where
  "setdefault key x v =
     (case v of PDict d \<Rightarrow> PDict (case map_of d key of None \<Rightarrow> d @ [(key, x)] | Some _ \<Rightarrow> d) | _ \<Rightarrow> v)"

text \<open>A frame of the raw topic: an error is logged and leaves nothing published; the state keeps what \<open>process\<close> made of it.\<close>

definition on_truth :: "truth_math \<Rightarrow> py_builtins \<Rightarrow> string \<Rightarrow> string \<Rightarrow> truth_core \<Rightarrow> pyval res
    \<Rightarrow> truth_core \<times> truth_message list res" where
  "on_truth tm pb scenario task s message =
     (case message of
        Inl e \<Rightarrow> (s, Inl e)
      | Inr payload \<Rightarrow>
          if \<not> is_dict payload then (s, Inl (ValueError ''physics truth payload must be an object''))
          else
            let payload = setdefault ''task'' (PStr task) (setdefault ''scenario'' (PStr scenario) payload);
                (s', r) = process tm pb s payload
            in (s', bind r (\<lambda>record. bind (frame_from_mapping tm pb payload) (\<lambda>frame.
                  let robot = fr_robot frame; stamp = set_time (fr_timestamp frame); m = tl_metrics record
                  in bind (py_items (get_or (tr_fields robot) ''joint_names'' (PList []))) (\<lambda>names.
                       Inr ([Robot_Truth stamp (tr_base_pose robot) (tr_base_twist robot) (map (py_str pb) names)
                               (tr_joint_positions robot) (tr_joint_velocities robot) (tr_joint_efforts robot)
                               (py_truthy (get_or (tr_fields robot) ''safety_stop'' (PBool False)))]
                            @ object_messages pb frame (rm_retained m)
                            @ map (\<lambda>c. Contact_Truth stamp (tk_body_a c) (tk_body_b c) (tk_point c) (tk_normal c)
                                         (tk_normal_force c)) (fr_contacts frame)
                            @ [Task_Truth stamp (fr_scenario frame) (fr_task frame) (tl_state record) (rm_retained m) m]))))))"

end
