(* ===== verification/Truth_Safety.thy ===== *)
theory Truth_Safety
  imports Truth_Evaluator "HOL-Library.Sublist"
begin

text \<open>
  Retention is earned: the evaluator says retained only at the end of a window of frames, as long as the threshold asks,
  in each of which the object was held. The window never reaches over an invalid order of time or a change of context.
\<close>

section \<open>Windows\<close>

text \<open>The object of the frame is held on both sides, away from \<open>initial\<close>, at rest, and where it was in the hand at \<open>reference\<close>.\<close>

definition steady :: "truth_math \<Rightarrow> py_builtins \<Rightarrow> (string \<times> pyfloat) list \<Rightarrow> vec3 \<Rightarrow> vec3 \<times> quaternion \<Rightarrow> truth_frame \<Rightarrow> bool" where
  "steady tm pb thresholds initial reference frame =
     (case frame_object frame of
        None \<Rightarrow> False
      | Some ob \<Rightarrow>
          let s = truth_core_new thresholds
          in stable_now s (touching s pb frame ''left'') (touching s pb frame ''right'')
               (object_motion tm initial (Some reference) frame ob) frame)"

definition same_context :: "py_builtins \<Rightarrow> truth_frame \<Rightarrow> truth_frame \<Rightarrow> bool" where
  "same_context pb f g \<longleftrightarrow>
     fr_scenario f = fr_scenario g \<and> fr_task f = fr_task g \<and> frame_object_id pb f = frame_object_id pb g"

definition held_window :: "truth_math \<Rightarrow> py_builtins \<Rightarrow> (string \<times> pyfloat) list \<Rightarrow> vec3 \<Rightarrow> vec3 \<times> quaternion \<Rightarrow> truth_frame list \<Rightarrow> bool" where
  "held_window tm pb thresholds initial reference window \<longleftrightarrow>
     window \<noteq> [] \<and> sorted (map fr_timestamp window)
     \<and> list_all (\<lambda>f. steady tm pb thresholds initial reference f \<and> same_context pb f (last window)) window"

definition positions_in :: "truth_frame list \<Rightarrow> vec3 set" where
  "positions_in frames = {bp_position (to_pose ob) | f ob. f \<in> set frames \<and> frame_object f = Some ob}"

definition grips_in :: "truth_frame list \<Rightarrow> (vec3 \<times> quaternion) set" where
  "grips_in frames = {relative_pose f ob | f ob. f \<in> set frames \<and> frame_object f = Some ob}"

definition tracked :: "truth_math \<Rightarrow> py_builtins \<Rightarrow> (string \<times> pyfloat) list \<Rightarrow> truth_frame list \<Rightarrow> truth_core \<Rightarrow> bool" where
  "tracked tm pb thresholds frames s \<longleftrightarrow>
     tc_thresholds s = tc_thresholds (truth_core_new thresholds)
     \<and> (frames \<noteq> [] \<longrightarrow>
          tc_last_timestamp s = Some (fr_timestamp (last frames)) \<and> tc_last_scenario s = Some (fr_scenario (last frames))
          \<and> tc_last_task s = Some (fr_task (last frames)) \<and> tc_last_object_id s = frame_object_id pb (last frames))
     \<and> (\<forall>p. tc_initial_object_position s = Some p \<longrightarrow> p \<in> positions_in frames)
     \<and> (\<forall>r. tc_relative_reference s = Some r \<longrightarrow> r \<in> grips_in frames)
     \<and> (\<forall>t. tc_stable_start s = Some t \<longrightarrow>
          (\<exists>w p r. tc_initial_object_position s = Some p \<and> tc_relative_reference s = Some r \<and> suffix w frames
             \<and> held_window tm pb thresholds p r w \<and> fr_timestamp (hd w) = t))"

section \<open>One frame\<close>

lemma threshold_cong: "tc_thresholds s = tc_thresholds s' \<Longrightarrow> threshold s = threshold s'"
  by (simp add: threshold_def fun_eq_iff)

lemma touching_cong: "tc_thresholds s = tc_thresholds s' \<Longrightarrow> touching s = touching s'"
  by (intro ext) (simp only: touching_def threshold_cong [of s s'])

lemma stable_now_cong: "tc_thresholds s = tc_thresholds s' \<Longrightarrow> stable_now s = stable_now s'"
  by (simp add: stable_now_def threshold_cong [of s s'] fun_eq_iff)

lemma positions_mono: "p \<in> positions_in frames \<Longrightarrow> p \<in> positions_in (frames @ [f])"
  by (auto simp: positions_in_def)

lemma grips_mono: "r \<in> grips_in frames \<Longrightarrow> r \<in> grips_in (frames @ [f])"
  by (auto simp: grips_in_def)

lemma tracked_new: "tracked tm pb thresholds [] (truth_core_new thresholds)"
  by (simp add: tracked_def truth_core_new_def)

text \<open>After the context is noted, a running window belongs to the context of the frame.\<close>

lemma sorted_last_le: "sorted (map g xs) \<Longrightarrow> x \<in> set xs \<Longrightarrow> g x \<le> g (last xs)"
  by (induction xs) auto

lemma note_context_fields:
  "tc_thresholds (note_context pb s f) = tc_thresholds s" "tc_last_timestamp (note_context pb s f) = Some (fr_timestamp f)"
  "tc_last_scenario (note_context pb s f) = Some (fr_scenario f)" "tc_last_task (note_context pb s f) = Some (fr_task f)"
  "tc_last_object_id (note_context pb s f) = frame_object_id pb f"
  "tc_initial_object_position (note_context pb s f) \<in> {None, tc_initial_object_position s}"
  "tc_relative_reference (note_context pb s f) \<in> {None, tc_relative_reference s}"
  by (simp_all add: note_context_def reset_retention_state_def)

lemma note_context_running:
  assumes "tc_stable_start (note_context pb s f) = Some t"
  shows "\<not> timestamp_rollback s f" "\<not> context_changed pb s f" "tc_stable_start s = Some t"
    "tc_initial_object_position (note_context pb s f) = tc_initial_object_position s"
    "tc_relative_reference (note_context pb s f) = tc_relative_reference s"
  using assms by (auto simp: note_context_def reset_retention_state_def split: if_splits)

lemma window_continues:
  assumes tracked: "tracked tm pb thresholds frames s" and start: "tc_stable_start (note_context pb s f) = Some t"
  obtains w p r where "tc_initial_object_position (note_context pb s f) = Some p"
    "tc_relative_reference (note_context pb s f) = Some r" "suffix w frames" "held_window tm pb thresholds p r w"
    "fr_timestamp (hd w) = t" "fr_timestamp (last w) \<le> fr_timestamp f" "same_context pb (last w) f"
proof -
  note run = note_context_running [OF start]
  obtain w p r where w: "tc_initial_object_position s = Some p" "tc_relative_reference s = Some r" "suffix w frames"
      "held_window tm pb thresholds p r w" "fr_timestamp (hd w) = t"
    using tracked run(3) unfolding tracked_def by blast
  have nonempty: "w \<noteq> []" "frames \<noteq> []" "last w = last frames"
    using w(3,4) by (auto simp: held_window_def suffix_def)
  have latest: "tc_last_timestamp s = Some (fr_timestamp (last w))" "tc_last_scenario s = Some (fr_scenario (last w))"
      "tc_last_task s = Some (fr_task (last w))" "tc_last_object_id s = frame_object_id pb (last w)"
    using tracked nonempty unfolding tracked_def by simp_all
  have "steady tm pb thresholds p r (last w)"
    using w(4) nonempty(1) by (auto simp: held_window_def list_all_iff)
  then have "frame_object_id pb (last w) \<noteq> None" by (auto simp: steady_def frame_object_id_def split: option.splits)
  then have "same_context pb (last w) f" using run(2) latest unfolding context_changed_def same_context_def by simp
  moreover have "fr_timestamp (last w) \<le> fr_timestamp f" using run(1) latest(1) by (simp add: timestamp_rollback_def)
  ultimately show thesis using that w run(4,5) by simp
qed

lemma extend_window:
  assumes w: "held_window tm pb thresholds p r w" and f: "steady tm pb thresholds p r f" "fr_timestamp (last w) \<le> fr_timestamp f"
    "same_context pb (last w) f"
  shows "held_window tm pb thresholds p r (w @ [f])"
proof -
  have "fr_timestamp x \<le> fr_timestamp f" if "x \<in> set w" for x
    using sorted_last_le [of fr_timestamp w x] w f(2) that by (simp add: held_window_def)
  then have "sorted (map fr_timestamp (w @ [f]))" using w by (simp add: held_window_def sorted_append)
  moreover have "same_context pb x f" if "x \<in> set w" for x
  proof -
    have "same_context pb x (last w)" using w that unfolding held_window_def list_all_iff by blast
    then show ?thesis using f(3) unfolding same_context_def by simp
  qed
  moreover have "steady tm pb thresholds p r x" if "x \<in> set w" for x
    using w that by (simp add: held_window_def list_all_iff)
  moreover have "same_context pb f f" by (simp add: same_context_def)
  ultimately show ?thesis using f(1) by (simp add: held_window_def list_all_iff)
qed

lemma first_window: "steady tm pb thresholds p r f \<Longrightarrow> held_window tm pb thresholds p r [f]"
  by (simp add: held_window_def same_context_def)

section \<open>Every frame\<close>

text \<open>What the evaluation of a frame leaves, written with the parts it uses.\<close>

lemma evaluate_frame_object:
  assumes ob: "frame_object f = Some ob" and step: "evaluate_frame tm pb s f = (s', m)"
    and n: "n = note_object (touching s pb f ''left'' \<and> touching s pb f ''right'') (note_context pb s f) f ob"
    and now: "now = stable_now s (touching s pb f ''left'') (touching s pb f ''right'')
       (object_motion tm (the (tc_initial_object_position n)) (tc_relative_reference n) f ob) f"
  shows "s' = fst (advance_window now (fr_timestamp f) n)"
    and "rm_retained m \<longleftrightarrow> fle (threshold s ''hold_s'') (Fin (snd (advance_window now (fr_timestamp f) n)))"
proof -
  let ?c = "note_context pb s f"
  have t: "touching ?c = touching s" by (rule touching_cong) (simp add: note_context_fields)
  have u: "stable_now n = stable_now s" by (rule stable_now_cong) (simp add: n note_object_def note_context_fields)
  have v: "threshold n = threshold s" by (rule threshold_cong) (simp add: n note_object_def note_context_fields)
  have "evaluate_frame tm pb s f =
    (let (s', window) = advance_window now (fr_timestamp f) n;
         stable = fle (threshold n ''hold_s'') (Fin window)
     in (s', \<lparr>rm_object_present = True, rm_bilateral_contact = (touching s pb f ''left'' \<and> touching s pb f ''right''),
              rm_left_contact = touching s pb f ''left'', rm_right_contact = touching s pb f ''right'',
              rm_lift_m = mo_lift (object_motion tm (the (tc_initial_object_position n)) (tc_relative_reference n) f ob),
              rm_translation_m = mo_translation (object_motion tm (the (tc_initial_object_position n)) (tc_relative_reference n) f ob),
              rm_drift_m = mo_drift_m (object_motion tm (the (tc_initial_object_position n)) (tc_relative_reference n) f ob),
              rm_drift_deg = mo_drift_deg (object_motion tm (the (tc_initial_object_position n)) (tc_relative_reference n) f ob),
              rm_object_speed_mps = mo_speed (object_motion tm (the (tc_initial_object_position n)) (tc_relative_reference n) f ob),
              rm_stable_window_s = window, rm_stable = stable, rm_retained = stable\<rparr>))"
    unfolding evaluate_frame_def Let_def ob option.case t n [symmetric] u [symmetric] now by simp
  then show "s' = fst (advance_window now (fr_timestamp f) n)"
    and "rm_retained m \<longleftrightarrow> fle (threshold s ''hold_s'') (Fin (snd (advance_window now (fr_timestamp f) n)))"
    using step v by (auto simp: Let_def split: prod.splits)
qed

text \<open>A frame keeps the window, and says retained only over a window that is long enough.\<close>

lemma evaluate_tracked:
  assumes tracked: "tracked tm pb thresholds frames s" and step: "evaluate_frame tm pb s f = (s', m)"
  shows "tracked tm pb thresholds (frames @ [f]) s'
    \<and> (rm_retained m \<longrightarrow> (\<forall>h. threshold (truth_core_new thresholds) ''hold_s'' = Fin h \<longrightarrow> 0 < h \<longrightarrow>
         (\<exists>t. tc_stable_start s' = Some t \<and> h \<le> fr_timestamp f - t)))"
proof (cases "frame_object f")
  case None
  then have "s' = reset_retention_state (note_context pb s f)" "m = no_object_metrics"
    using step by (simp_all add: evaluate_frame_def)
  then show ?thesis using tracked
    by (simp add: tracked_def reset_retention_state_def note_context_fields no_object_metrics_def)
next
  case (Some ob)
  define both where "both \<longleftrightarrow> touching s pb f ''left'' \<and> touching s pb f ''right''"
  define c where "c = note_context pb s f"
  define n where "n = note_object both c f ob"
  define now where "now = stable_now s (touching s pb f ''left'') (touching s pb f ''right'')
       (object_motion tm (the (tc_initial_object_position n)) (tc_relative_reference n) f ob) f"
  note result = evaluate_frame_object [OF Some step n_def [unfolded both_def c_def] now_def]
  have same: "tc_thresholds s = tc_thresholds (truth_core_new thresholds)" using tracked by (simp add: tracked_def)
  have seen: "\<And>p. tc_initial_object_position s = Some p \<Longrightarrow> p \<in> positions_in (frames @ [f])"
      "\<And>r. tc_relative_reference s = Some r \<Longrightarrow> r \<in> grips_in (frames @ [f])"
    using tracked positions_mono grips_mono unfolding tracked_def by simp_all
  have position: "bp_position (to_pose ob) \<in> positions_in (frames @ [f])"
    using Some unfolding positions_in_def by auto
  have "tc_initial_object_position n = (case tc_initial_object_position c of None \<Rightarrow> Some (bp_position (to_pose ob)) | Some p \<Rightarrow> Some p)"
    by (simp add: n_def note_object_def)
  then obtain p where p: "tc_initial_object_position n = Some p" "p \<in> positions_in (frames @ [f])"
    using position seen(1) note_context_fields(6) [of pb s f] unfolding c_def
    by (cases "tc_initial_object_position (note_context pb s f)") auto
  have grip: "relative_pose f ob \<in> grips_in (frames @ [f])" using Some unfolding grips_in_def by auto
  have reference: "tc_relative_reference n =
      (case tc_relative_reference c of None \<Rightarrow> if both then Some (relative_pose f ob) else None | Some r \<Rightarrow> Some r)"
    by (simp add: n_def note_object_def)
  have r: "r \<in> grips_in (frames @ [f])" if "tc_relative_reference n = Some r" for r
    using that reference grip seen(2) note_context_fields(7) [of pb s f] unfolding c_def
    by (cases "tc_relative_reference (note_context pb s f)") (auto split: if_splits)
  have fields: "tc_thresholds s' = tc_thresholds s" "tc_last_timestamp s' = Some (fr_timestamp f)" "tc_last_scenario s' = Some (fr_scenario f)"
     "tc_last_task s' = Some (fr_task f)" "tc_last_object_id s' = frame_object_id pb f"
     "tc_initial_object_position s' = Some p" "tc_relative_reference s' = tc_relative_reference n"
     "tc_stable_start s' = (if now then Some (case tc_stable_start c of None \<Rightarrow> fr_timestamp f | Some t \<Rightarrow> t) else None)"
    unfolding result(1) using p(1)
    by (auto simp: advance_window_def n_def c_def note_object_def note_context_fields Let_def)
  have window: "\<exists>w r. tc_relative_reference n = Some r \<and> suffix w (frames @ [f]) \<and> held_window tm pb thresholds p r w
      \<and> fr_timestamp (hd w) = t" if start: "tc_stable_start s' = Some t" for t
  proof -
    have now "both" using start fields(8) by (auto simp: now_def both_def stable_now_def split: if_splits)
    then obtain r where r: "tc_relative_reference n = Some r" using reference by (cases "tc_relative_reference c") auto
    have core: "touching s = touching (truth_core_new thresholds)" "stable_now s = stable_now (truth_core_new thresholds)"
      using touching_cong [OF same] stable_now_cong [OF same] by simp_all
    have steady: "steady tm pb thresholds p r f"
      using \<open>now\<close> Some by (simp add: steady_def now_def core p(1) r)
    show ?thesis
    proof (cases "tc_stable_start c")
      case None
      then have "t = fr_timestamp f" using start fields(8) \<open>now\<close> by simp
      then show ?thesis using r first_window [OF steady] by (intro exI [of _ "[f]"]) (simp add: suffix_def)
    next
      case (Some t0)
      then obtain w p0 r0 where w: "tc_initial_object_position c = Some p0" "tc_relative_reference c = Some r0" "suffix w frames"
          "held_window tm pb thresholds p0 r0 w" "fr_timestamp (hd w) = t0" "fr_timestamp (last w) \<le> fr_timestamp f" "same_context pb (last w) f"
        using window_continues [OF tracked] unfolding c_def by metis
      have "p0 = p" "r0 = r" using w(1,2) p(1) r reference by (simp_all add: n_def note_object_def)
      then have "held_window tm pb thresholds p r (w @ [f])" using extend_window w(4,6,7) steady by blast
      moreover have "fr_timestamp (hd (w @ [f])) = t"
        using w(4,5) Some start fields(8) \<open>now\<close> by (simp add: held_window_def)
      moreover have "suffix (w @ [f]) (frames @ [f])" using w(3) by (auto simp: suffix_def)
      ultimately show ?thesis using r by blast
    qed
  qed
  have "tracked tm pb thresholds (frames @ [f]) s'"
    unfolding tracked_def using fields(1-7) same p(2) r window by simp
  moreover have "\<exists>t. tc_stable_start s' = Some t \<and> h \<le> fr_timestamp f - t"
    if "rm_retained m" "threshold (truth_core_new thresholds) ''hold_s'' = Fin h" "0 < h" for h
    using that result(2) fields(8) threshold_cong [OF same]
    by (auto simp: advance_window_def Let_def n_def c_def note_object_def max_def split: if_splits)
  ultimately show ?thesis by blast
qed

section \<open>Every history\<close>

text \<open>The frames among the payloads, and the state after the payloads: one that is not a frame changes nothing.\<close>

definition frames_of :: "truth_math \<Rightarrow> py_builtins \<Rightarrow> pyval list \<Rightarrow> truth_frame list" where
  "frames_of tm pb payloads = concat (map (\<lambda>p. case frame_from_mapping tm pb p of Inl e \<Rightarrow> [] | Inr f \<Rightarrow> [f]) payloads)"

definition core_after :: "truth_math \<Rightarrow> py_builtins \<Rightarrow> truth_core \<Rightarrow> pyval list \<Rightarrow> truth_core" where
  "core_after tm pb = foldl (\<lambda>s p. fst (process tm pb s p))"

lemma core_after_snoc [simp]: "core_after tm pb s (ps @ [p]) = fst (process tm pb (core_after tm pb s ps) p)"
  by (simp add: core_after_def)

lemma frames_of_snoc:
  "frames_of tm pb (ps @ [p]) = frames_of tm pb ps @ (case frame_from_mapping tm pb p of Inl e \<Rightarrow> [] | Inr f \<Rightarrow> [f])"
  by (simp add: frames_of_def)

lemma core_after_tracked: "tracked tm pb thresholds (frames_of tm pb ps) (core_after tm pb (truth_core_new thresholds) ps)"
proof (induction ps rule: rev_induct)
  case Nil
  then show ?case by (simp add: frames_of_def core_after_def tracked_new)
next
  case (snoc p ps)
  show ?case
  proof (cases "frame_from_mapping tm pb p")
    case (Inl e)
    then show ?thesis using snoc by (simp add: frames_of_snoc process_def)
  next
    case (Inr f)
    obtain s' m where step: "evaluate_frame tm pb (core_after tm pb (truth_core_new thresholds) ps) f = (s', m)" by fastforce
    show ?thesis using evaluate_tracked [OF snoc step] Inr step by (simp add: frames_of_snoc process_def)
  qed
qed

text \<open>C36: Whatever payloads arrive, the evaluator calls an object retained only when the last frames, in order of time and over at
  least the hold time, all show it held on both sides, lifted and carried from a place where it was seen, at rest, without drift
  against one grip, without a safety stop, and with the same scenario, task and object.\<close>
theorem retained_means_held:
  assumes "snd (process tm pb (core_after tm pb (truth_core_new thresholds) ps) p) = Inr r" "rm_retained (tl_metrics r)"
    and "threshold (truth_core_new thresholds) ''hold_s'' = Fin h" "0 < h"
  shows "\<exists>window initial reference. suffix window (frames_of tm pb (ps @ [p])) \<and> held_window tm pb thresholds initial reference window
    \<and> h \<le> fr_timestamp (last window) - fr_timestamp (hd window) \<and> fr_timestamp (last window) = tl_timestamp r
    \<and> initial \<in> positions_in (frames_of tm pb (ps @ [p])) \<and> reference \<in> grips_in (frames_of tm pb (ps @ [p]))"
proof -
  let ?s = "core_after tm pb (truth_core_new thresholds) ps"
  obtain f where f: "frame_from_mapping tm pb p = Inr f" using assms(1) by (auto simp: process_def split: sum.splits)
  obtain s' m where step: "evaluate_frame tm pb ?s f = (s', m)" by fastforce
  have entry: "tl_metrics r = m" "tl_timestamp r = fr_timestamp f" using assms(1) f step by (auto simp: process_def)
  have frames: "frames_of tm pb (ps @ [p]) = frames_of tm pb ps @ [f]" by (simp add: frames_of_snoc f)
  note kept = evaluate_tracked [OF core_after_tracked step]
  obtain t where t: "tc_stable_start s' = Some t" "h \<le> fr_timestamp f - t" using kept assms(2-4) entry(1) by blast
  obtain w p0 g where w: "tc_initial_object_position s' = Some p0" "tc_relative_reference s' = Some g"
      "suffix w (frames_of tm pb ps @ [f])" "held_window tm pb thresholds p0 g w" "fr_timestamp (hd w) = t"
    using kept t(1) unfolding tracked_def by blast
  have "last w = f" using w(3,4) by (auto simp: held_window_def suffix_def) (metis last_appendR last_snoc)
  moreover have "p0 \<in> positions_in (frames_of tm pb ps @ [f])" "g \<in> grips_in (frames_of tm pb ps @ [f])"
    using kept w(1,2) unfolding tracked_def by blast+
  ultimately show ?thesis using w(3-5) t(2) entry(2) frames by (intro exI [of _ w] exI [of _ p0] exI [of _ g]) simp
qed

definition plain_math :: truth_math where
  "plain_math = \<lparr>tm_sqrt = (\<lambda>x. if x = 1 / 4 then 1 / 2 else x), tm_acos = (\<lambda>_. 0), tm_degrees = id\<rparr>"

definition plain_texts :: py_builtins where
  "plain_texts = \<lparr>pb_float_text = (\<lambda>_. None), pb_render = (\<lambda>_. [])\<rparr>"

definition cup_at :: "int \<Rightarrow> rat \<Rightarrow> string list \<Rightarrow> pyval" where
  "cup_at t z sides =
     PDict [(''schema_version'', PInt 2), (''timestamp'', PInt t), (''robot'', PDict []),
       (''object'', PDict [(''id'', PStr ''cup''),
          (''pose'', PDict [(''xyz'', PList [PInt 0, PInt 0, PFloat (Fin z)]), (''quaternion_xyzw'', int_vector [0, 0, 0, 1])])]),
       (''contacts'', PList (map (\<lambda>side. PDict [(''body_a'', PStr (side @ ''_finger'')), (''body_b'', PStr ''Cup'')]) sides))]"

definition cup_contact :: "string \<Rightarrow> truth_contact" where
  "cup_contact side =
     \<lparr>tk_body_a = side @ ''_finger'', tk_body_b = ''Cup'', tk_normal_force = 0, tk_point = (0, 0, 0), tk_normal = (0, 0, 1)\<rparr>"

definition cup_frame :: "int \<Rightarrow> rat \<Rightarrow> string list \<Rightarrow> truth_frame" where
  "cup_frame t z sides =
     (let p = \<lparr>bp_position = (0, 0, 0), bp_orientation = (0, 0, 0, 1)\<rparr>; still = \<lparr>bt_linear = (0, 0, 0), bt_angular = (0, 0, 0)\<rparr>
      in \<lparr>fr_timestamp = of_int t, fr_scenario = [], fr_task = [],
          fr_robot = \<lparr>tr_base_pose = p, tr_tcp_pose = p, tr_base_twist = still, tr_joint_positions = [], tr_joint_velocities = [],
                      tr_joint_efforts = [], tr_fields = PDict []\<rparr>,
          fr_objects = [\<lparr>to_pose = p\<lparr>bp_position := (0, 0, z)\<rparr>, to_twist = still,
                         to_fields = field_of (cup_at t z sides) ''object''\<rparr>],
          fr_contacts = map cup_contact sides, fr_raw = cup_at t z sides\<rparr>)"

definition cup_core :: "rat \<Rightarrow> (vec3 \<times> quaternion) option \<Rightarrow> rat option \<Rightarrow> truth_core" where
  "cup_core t reference start =
     (truth_core_new [])\<lparr>tc_initial_object_position := Some (0, 0, 0), tc_relative_reference := reference, tc_stable_start := start,
       tc_last_timestamp := Some t, tc_last_scenario := Some [], tc_last_task := Some [], tc_last_object_id := Some ''cup''\<rparr>"

lemma cup_frames:
  "frame_from_mapping plain_math plain_texts (cup_at 0 0 []) = Inr (cup_frame 0 0 [])"
  "frame_from_mapping plain_math plain_texts (cup_at 1 (1 / 2) [''left'', ''right'']) = Inr (cup_frame 1 (1 / 2) [''left'', ''right''])"
  "frame_from_mapping plain_math plain_texts (cup_at 3 (1 / 2) [''left'', ''right'']) = Inr (cup_frame 3 (1 / 2) [''left'', ''right''])"
  by code_simp+

lemma cup_steps:
  "fst (evaluate_frame plain_math plain_texts (truth_core_new []) (cup_frame 0 0 [])) = cup_core 0 None None"
  "fst (evaluate_frame plain_math plain_texts (cup_core 0 None None) (cup_frame 1 (1 / 2) [''left'', ''right'']))
     = cup_core 1 (Some ((0, 0, 1 / 2), (0, 0, 0, 1))) (Some 1)"
  "rm_retained (snd (evaluate_frame plain_math plain_texts (cup_core 1 (Some ((0, 0, 1 / 2), (0, 0, 0, 1))) (Some 1))
     (cup_frame 3 (1 / 2) [''left'', ''right''])))"
  by code_simp+

lemma retained_means_held_witness:
  "\<exists>window initial reference. held_window plain_math plain_texts [] initial reference window
     \<and> 1 \<le> fr_timestamp (last window) - fr_timestamp (hd window) \<and> fr_timestamp (last window) = 3"
proof -
  let ?ps = "[cup_at 0 0 [], cup_at 1 (1 / 2) [''left'', ''right'']]"
  have core: "core_after plain_math plain_texts (truth_core_new []) ?ps = cup_core 1 (Some ((0, 0, 1 / 2), (0, 0, 0, 1))) (Some 1)"
    by (simp add: core_after_def process_def cup_frames cup_steps split_beta)
  have hold: "threshold (truth_core_new []) ''hold_s'' = Fin 1" by code_simp
  obtain r where r: "snd (process plain_math plain_texts (core_after plain_math plain_texts (truth_core_new []) ?ps)
      (cup_at 3 (1 / 2) [''left'', ''right''])) = Inr r" "rm_retained (tl_metrics r)" "tl_timestamp r = 3"
    using cup_steps(3) by (simp add: core process_def cup_frames split_beta) (simp add: cup_frame_def Let_def)
  show ?thesis using retained_means_held [OF r(1,2) hold zero_less_one] r(3) by fastforce
qed

text \<open>With a hold time of zero an object that nobody touches is retained.\<close>

lemma zero_hold_is_retained:
  "rm_retained (snd (evaluate_frame plain_math plain_texts (truth_core_new [(''hold_s'', Fin 0)]) (cup_frame 0 0 [])))"
  by code_simp

text \<open>A contact with any body whose name holds a generic word counts for the object, whatever its id.\<close>

lemma other_cube_counts:
  "touches_object ''cup'' \<lparr>tk_body_a = ''left_finger'', tk_body_b = ''Cube_2'', tk_normal_force = 0, tk_point = (0, 0, 0), tk_normal = (0, 0, 1)\<rparr>"
  by code_simp

text \<open>A time just below a full second is rounded to a full second of nanoseconds, which is not carried.\<close>

lemma nanoseconds_not_carried: "set_time (1 + (10 ^ 10 - 1) / 10 ^ 10) = (1, 10 ^ 9)"
  by code_simp

end
