(* ===== verification/Graph_Contract.thy ===== *)
theory Graph_Contract
  imports Fixture_Node Readiness
begin

text \<open>
  The graph contracts of \<open>contract_guard.py\<close>: the topics, services and publishers a profile needs, and the evidence on
  the joint states (sample, freshness, clock, attribution of the publisher, descriptions). Parsing XML is outside: a
  description is the joints of its \<open>ros2_control\<close> block with their interfaces. A text of a float in a reason is left out.
\<close>

section \<open>Topics and services\<close>

type_synonym topic_types = "(string \<times> string list) list"

definition NAVIGATION_REQUIRED_TOPICS :: "(string \<times> string) list" where
  "NAVIGATION_REQUIRED_TOPICS =
     [(''/clock'', ''rosgraph_msgs/msg/Clock''), (''/cmd_vel'', ''geometry_msgs/msg/Twist''),
      (''/isaac_joint_states'', ''sensor_msgs/msg/JointState''), (''/isaac_joint_commands'', ''sensor_msgs/msg/JointState''),
      (''/joint_states'', ''sensor_msgs/msg/JointState''), (''/tracer/odom'', ''nav_msgs/msg/Odometry''),
      (''/livox/lidar'', ''sensor_msgs/msg/PointCloud2''), (''/livox/imu'', ''sensor_msgs/msg/Imu''),
      (''/scan'', ''sensor_msgs/msg/LaserScan'')]"

definition MANIPULATION_REQUIRED_TOPICS :: "(string \<times> string) list" where
  "MANIPULATION_REQUIRED_TOPICS =
     [(''/clock'', ''rosgraph_msgs/msg/Clock''), (''/isaac_joint_states'', ''sensor_msgs/msg/JointState''),
      (''/isaac_joint_commands'', ''sensor_msgs/msg/JointState''), (''/sim/internal/physics_truth'', ''std_msgs/msg/String''),
      (''/sim/truth/robot_state'', ''tinker_sim_interfaces/msg/RobotTruth''),
      (''/sim/truth/object_state'', ''tinker_sim_interfaces/msg/ObjectTruth''),
      (''/sim/truth/contacts'', ''tinker_sim_interfaces/msg/ContactTruth''),
      (''/sim/truth/task_state'', ''tinker_sim_interfaces/msg/TaskTruth''), (''/sim/hardware/safety_stop'', ''std_msgs/msg/Bool''),
      (''/sim/safety/xarm'', ''std_msgs/msg/Bool''), (''/sim/safety/collision'', ''std_msgs/msg/Bool'')]"

definition SAFETY_SUPERVISOR_NODE :: string where
  "SAFETY_SUPERVISOR_NODE = ''tinker_sim_safety_supervisor''"

definition TOPIC_PROFILES :: "(string \<times> (string \<times> string) list) list" where
  "TOPIC_PROFILES = [(''navigation'', NAVIGATION_REQUIRED_TOPICS), (''manipulation'', MANIPULATION_REQUIRED_TOPICS)]"

definition FORBIDDEN_SERVICES :: "string list" where
  "FORBIDDEN_SERVICES =
     [''/sim/control/reset'', ''/sim/control/pause'', ''/sim/control/step'', ''/sim/control/set_seed'', ''/sim/scenario/load'',
      ''/sim/scenario/status'']"

definition REQUIRED_STANDARD_SERVICES :: "string list" where
  "REQUIRED_STANDARD_SERVICES =
     [''/get_simulation_state'', ''/set_simulation_state'', ''/reset_simulation'', ''/step_simulation'', ''/load_world'',
      ''/spawn_entity'', ''/set_entity_state'']"

datatype contract_state = Pass | Starting | Fail | Not_Applicable

definition cardinality_state :: "nat \<Rightarrow> nat \<Rightarrow> bool \<Rightarrow> contract_state" where
  "cardinality_state actual expected grace_elapsed =
     (if actual = expected then Pass
      else if actual = 0 \<and> expected = 1 \<and> \<not> grace_elapsed then Starting
      else Fail)"

record cardinality =
  cd_expected :: nat
  cd_actual :: nat
  cd_state :: contract_state
  cd_ok :: bool

definition cardinality_entry :: "nat \<Rightarrow> nat \<Rightarrow> contract_state \<Rightarrow> bool \<Rightarrow> cardinality" where
  "cardinality_entry expected actual state ok = \<lparr>cd_expected = expected, cd_actual = actual, cd_state = state, cd_ok = ok\<rparr>"

record cardinalities =
  cs_command_publisher :: cardinality
  cs_raw_truth_subscriber :: cardinality
  cs_safety_stop_publisher :: cardinality
  cs_xarm_source_publisher :: cardinality
  cs_collision_source_publisher :: cardinality

definition evaluate_cardinality :: "string \<Rightarrow> nat \<Rightarrow> nat \<Rightarrow> bool \<Rightarrow> nat \<Rightarrow> nat \<Rightarrow> nat \<Rightarrow> cardinalities res" where
  "evaluate_cardinality profile commands truths grace_elapsed stops xarms collisions =
     (if profile \<notin> set (map fst TOPIC_PROFILES) then Inl (ValueError (''unsupported contract profile: '' @ repr_str profile))
      else
        let manipulation = (profile = ''manipulation'');
            truth_expected = (if manipulation then 1 else 0);
            command_state = cardinality_state commands 1 grace_elapsed;
            truth_state = cardinality_state truths truth_expected grace_elapsed;
            safety = (\<lambda>n. let state = (if manipulation then cardinality_state n 1 grace_elapsed else Not_Applicable)
                          in cardinality_entry (if manipulation then 1 else 0) n state (state = Pass \<or> \<not> manipulation))
        in Inr \<lparr>cs_command_publisher = cardinality_entry 1 commands command_state (command_state = Pass),
                cs_raw_truth_subscriber = cardinality_entry truth_expected truths truth_state (truth_state = Pass),
                cs_safety_stop_publisher = safety stops, cs_xarm_source_publisher = safety xarms,
                cs_collision_source_publisher = safety collisions\<rparr>)"

record graph_contract =
  gc_profile :: string
  gc_missing_topics :: "string list"
  gc_missing_standard_services :: "string list"
  gc_forbidden_services :: "string list"
  gc_wrong_types :: "(string \<times> string list) list"
  gc_wrong_command_publishers :: "string list"
  gc_forbidden_truth_subscribers :: "string list"
  gc_wrong_safety_stop_publishers :: "string list"
  gc_forbidden_tf_publishers :: "string list"
  gc_cardinalities :: cardinalities

text \<open>\<open>owner.rsplit("/", 1)[-1]\<close>\<close>

definition node_of :: "string \<Rightarrow> string" where
  "node_of owner = List.last (py_split (CHR ''/'') owner)"

definition other_than :: "string \<Rightarrow> string list \<Rightarrow> string list" where
  "other_than node owners = sort (filter (\<lambda>owner. node_of owner \<noteq> node) owners)"

definition types_on :: "topic_types \<Rightarrow> string \<Rightarrow> string list" where
  "types_on topics topic = (case map_of topics topic of None \<Rightarrow> [] | Some ts \<Rightarrow> ts)"

text \<open>The owners of the endpoints the contract looks at.\<close>

record graph_view =
  gv_topics :: topic_types
  gv_services :: "string list"
  gv_command_publishers :: "string list"
  gv_truth_subscribers :: "string list"
  gv_tf_publishers :: "string list"
  gv_safety_stop_publishers :: "string list"
  gv_xarm_publishers :: "string list"
  gv_collision_publishers :: "string list"

definition evaluate_contract :: "string \<Rightarrow> graph_view \<Rightarrow> bool \<Rightarrow> graph_contract res" where
  "evaluate_contract profile g grace_elapsed =
     (case map_of TOPIC_PROFILES profile of
        None \<Rightarrow> Inl (ValueError (''unsupported contract profile: '' @ repr_str profile))
      | Some expected \<Rightarrow>
          bind (evaluate_cardinality profile (length (gv_command_publishers g)) (length (gv_truth_subscribers g)) grace_elapsed
                  (length (gv_safety_stop_publishers g)) (length (gv_xarm_publishers g)) (length (gv_collision_publishers g)))
            (\<lambda>cardinalities.
              Inr \<lparr>gc_profile = profile,
                   gc_missing_topics = sort (filter (\<lambda>topic. types_on (gv_topics g) topic = []) (map fst expected)),
                   gc_missing_standard_services = sort (filter (\<lambda>s. s \<notin> set (gv_services g)) REQUIRED_STANDARD_SERVICES),
                   gc_forbidden_services = sort (filter (\<lambda>s. s \<in> set (gv_services g)) FORBIDDEN_SERVICES),
                   gc_wrong_types = concat (map (\<lambda>(topic, t).
                     let actual = types_on (gv_topics g) topic
                     in if actual \<noteq> [] \<and> t \<notin> set actual then [(topic, actual)] else []) expected),
                   gc_wrong_command_publishers = other_than ''tinker_sim_command_gateway'' (gv_command_publishers g),
                   gc_forbidden_truth_subscribers = other_than ''tinker_truth_evaluator'' (gv_truth_subscribers g),
                   gc_wrong_safety_stop_publishers = other_than SAFETY_SUPERVISOR_NODE (gv_safety_stop_publishers g),
                   gc_forbidden_tf_publishers = sort (gv_tf_publishers g),
                   gc_cardinalities = cardinalities\<rparr>))"

definition evaluate_overall_state :: "graph_contract \<Rightarrow> bool \<Rightarrow> contract_state" where
  "evaluate_overall_state c grace_elapsed =
     (let n = gc_cardinalities c;
          states = map cd_state [cs_command_publisher n, cs_raw_truth_subscriber n, cs_safety_stop_publisher n,
                                 cs_xarm_source_publisher n, cs_collision_source_publisher n];
          waiting = (if grace_elapsed then Fail else Starting)
      in if gc_wrong_types c \<noteq> [] \<or> gc_forbidden_tf_publishers c \<noteq> [] \<or> gc_forbidden_services c \<noteq> []
            \<or> gc_wrong_command_publishers c \<noteq> [] \<or> gc_forbidden_truth_subscribers c \<noteq> []
            \<or> gc_wrong_safety_stop_publishers c \<noteq> []
         then Fail
         else if Fail \<in> set states then Fail
         else if Starting \<in> set states then waiting
         else if gc_missing_topics c \<noteq> [] \<or> gc_missing_standard_services c \<noteq> [] then waiting
         else Pass)"

text \<open>The guard node: labels of endpoints, the publishers of the transform topic it forbids, and its periodic check.\<close>

definition rstrip_slash :: "string \<Rightarrow> string" where
  "rstrip_slash s = rev (dropWhile (\<lambda>c. c = CHR ''/'') (rev s))"

definition endpoint_label :: "string \<times> string \<Rightarrow> string" where
  "endpoint_label = (\<lambda>(namespace, n). if namespace \<noteq> [] then rstrip_slash namespace @ ''/'' @ n else n)"

record ros_graph =
  rg_topics :: topic_types
  rg_services :: "string list"
  rg_publishers :: "string \<Rightarrow> (string \<times> string) list"
  rg_subscribers :: "string \<Rightarrow> (string \<times> string) list"

definition guard_view :: "ros_graph \<Rightarrow> graph_view" where
  "guard_view g =
     \<lparr>gv_topics = rg_topics g, gv_services = rg_services g,
      gv_command_publishers = map endpoint_label (rg_publishers g ''/isaac_joint_commands''),
      gv_truth_subscribers = map endpoint_label (rg_subscribers g ''/sim/internal/physics_truth''),
      gv_tf_publishers = filter (\<lambda>n. n \<in> {''tinker_isaac_gateway'', ''tinker_base_facade''}) (map snd (rg_publishers g ''/tf'')),
      gv_safety_stop_publishers = map endpoint_label (rg_publishers g ''/sim/hardware/safety_stop''),
      gv_xarm_publishers = map endpoint_label (rg_publishers g ''/sim/safety/xarm''),
      gv_collision_publishers = map endpoint_label (rg_publishers g ''/sim/safety/collision'')\<rparr>"

definition guard_check :: "string \<Rightarrow> pyfloat \<Rightarrow> pyfloat \<Rightarrow> pyfloat \<Rightarrow> ros_graph \<Rightarrow> (contract_state \<times> graph_contract) res" where
  "guard_check profile startup_grace_s started now g =
     (let grace_elapsed = flt startup_grace_s (fsub now started)
      in bind (evaluate_contract profile (guard_view g) grace_elapsed) (\<lambda>c. Inr (evaluate_overall_state c grace_elapsed, c)))"

section \<open>Joint states\<close>

definition JOINT_STATE_BROADCASTER :: string where
  "JOINT_STATE_BROADCASTER = ''joint_state_broadcaster''"

definition JOINT_STATE_MAX_AGE_NS :: int where "JOINT_STATE_MAX_AGE_NS = 5000000000"
definition JOINT_STATE_MAX_TRANSPORT_NS :: int where "JOINT_STATE_MAX_TRANSPORT_NS = 2000000000"
definition JOINT_STATE_CLOCK_DOMAIN_THRESHOLD_NS :: int where "JOINT_STATE_CLOCK_DOMAIN_THRESHOLD_NS = 1000000000000000"

text \<open>An evaluation is ready when it has no reason against it.\<close>

type_synonym reasons = "string list"

definition evaluate_integrated_cardinality :: "string list \<Rightarrow> reasons" where
  "evaluate_integrated_cardinality publishers =
     unless (length publishers = 1) (''joint_state publisher count is '' @ dec_nat (length publishers) @ '', expected 1'')
     @ unless (publishers = [JOINT_STATE_BROADCASTER])
         (''joint_state publisher source is '' @ repr_strs publishers @ '', expected '' @ repr_str JOINT_STATE_BROADCASTER)"

definition values_reasons :: "string \<Rightarrow> pyfloat list \<Rightarrow> reasons" where
  "values_reasons what vs =
     (if length vs \<noteq> length INTEGRATED_JOINT_STATE_NAMES
      then [what @ '' length is '' @ dec_nat (length vs) @ '', expected '' @ dec_nat (length INTEGRATED_JOINT_STATE_NAMES)]
      else unless (list_all isfinite vs) (what @ '' contain non-finite values''))"

record joint_sample =
  js_names :: "string list"
  js_positions :: "pyfloat list"
  js_velocities :: "pyfloat list"
  js_stamp_ns :: int

definition evaluate_joint_state_sample :: "string \<Rightarrow> nat \<Rightarrow> joint_sample \<Rightarrow> int \<Rightarrow> int \<Rightarrow> reasons" where
  "evaluate_joint_state_sample publisher count m received_at_ns now_ns =
     (let age = now_ns - js_stamp_ns m; transport = received_at_ns - js_stamp_ns m
      in unless (js_names m = INTEGRATED_JOINT_STATE_NAMES)
           (''joint names are '' @ repr_strs (js_names m) @ '', expected '' @ repr_strs INTEGRATED_JOINT_STATE_NAMES)
         @ unless (count = 1) (''joint_state publisher count is '' @ dec_nat count @ '', expected 1'')
         @ unless (publisher = JOINT_STATE_BROADCASTER)
             (''joint_state publisher is '' @ repr_str publisher @ '', expected '' @ repr_str JOINT_STATE_BROADCASTER)
         @ unless (js_stamp_ns m \<noteq> 0) (''header stamp is zero ('' @ dec_int (js_stamp_ns m) @ '' ns)'')
         @ values_reasons ''positions'' (js_positions m)
         @ values_reasons ''velocities'' (js_velocities m)
         @ (if age < 0 then [''header stamp is in the future by '' @ dec_int (- age) @ '' ns'']
            else unless (\<not> JOINT_STATE_MAX_AGE_NS < age)
                   (''header stamp is stale by '' @ dec_int age @ '' ns (bound '' @ dec_int JOINT_STATE_MAX_AGE_NS @ '')''))
         @ (if transport < 0 then [''transport latency is negative ('' @ dec_int transport @ '' ns)'']
            else unless (\<not> JOINT_STATE_MAX_TRANSPORT_NS < transport)
                   (''transport latency '' @ dec_int transport @ '' ns exceeds bound '' @ dec_int JOINT_STATE_MAX_TRANSPORT_NS))
         @ unless (\<not> JOINT_STATE_CLOCK_DOMAIN_THRESHOLD_NS < \<bar>age\<bar>)
             (''header and evaluation clock differ by '' @ dec_int age @ '' ns; probable use_sim_time clock-domain mismatch''))"

text \<open>The joints of a \<open>ros2_control\<close> block: name, command interfaces, state interfaces.\<close>

type_synonym interfaces = "string list \<times> string list"
type_synonym joint_element = "string \<times> string list \<times> string list"

definition joint_records :: "joint_element list \<Rightarrow> (string \<times> interfaces) list" where
  "joint_records joints =
     foldl (\<lambda>d (n, commands, states). dict_set n (filter (\<lambda>i. i \<noteq> []) commands, filter (\<lambda>i. i \<noteq> []) states) d) [] joints"

definition EXPECTED_ARM_COMMAND_INTERFACES :: "string list" where
  "EXPECTED_ARM_COMMAND_INTERFACES = [''position'', ''velocity'']"

definition EXPECTED_STATE_INTERFACES :: "string list" where
  "EXPECTED_STATE_INTERFACES = [''position'', ''velocity'', ''effort'']"

definition arm_reasons :: "(string \<times> interfaces) list \<Rightarrow> string \<Rightarrow> reasons" where
  "arm_reasons recs arm =
     (case map_of recs arm of
        None \<Rightarrow> [''arm joint '' @ arm @ '' is missing from ros2_control'']
      | Some (commands, states) \<Rightarrow>
          if commands \<noteq> EXPECTED_ARM_COMMAND_INTERFACES
          then [''arm joint '' @ arm @ '' command interfaces are '' @ repr_strs commands @ '', expected ''
                @ repr_strs EXPECTED_ARM_COMMAND_INTERFACES]
          else unless (states = EXPECTED_STATE_INTERFACES)
                 (''arm joint '' @ arm @ '' state interfaces are '' @ repr_strs states @ '', expected ''
                  @ repr_strs EXPECTED_STATE_INTERFACES))"

definition joint_state_contract :: "(string \<times> interfaces) list \<Rightarrow> reasons" where
  "joint_state_contract recs =
     unless (map fst recs = INTEGRATED_JOINT_STATE_NAMES)
       (''ros2_control joint names are '' @ repr_strs (map fst recs) @ '', expected '' @ repr_strs INTEGRATED_JOINT_STATE_NAMES)
     @ concat (map (arm_reasons recs) (map (\<lambda>i. ''joint'' @ dec_nat i) [1..<8]))
     @ (case map_of recs ''drive_joint'' of
          None \<Rightarrow> [''drive_joint is missing from ros2_control'']
        | Some (commands, states) \<Rightarrow>
            unless (commands = []) (''drive_joint command interfaces are '' @ repr_strs commands @ '', expected []'')
            @ unless (states = EXPECTED_STATE_INTERFACES)
                (''drive_joint state interfaces are '' @ repr_strs states @ '', expected '' @ repr_strs EXPECTED_STATE_INTERFACES))"

text \<open>
  A parsed description: the reason it could not be used, or its joints. The observed drive joint is none when there is no evidence.
\<close>

type_synonym description = "string + joint_element list"

record description_evidence =
  de_reasons :: reasons
  de_drive :: "interfaces option"

definition evaluate_description :: "description \<Rightarrow> description_evidence" where
  "evaluate_description d =
     (case d of
        Inl e \<Rightarrow> \<lparr>de_reasons = [e], de_drive = None\<rparr>
      | Inr joints \<Rightarrow>
          let recs = joint_records joints
          in \<lparr>de_reasons = joint_state_contract recs @ unless (recs \<noteq> []) ''ros2_control contains no joints'',
              de_drive = map_of recs ''drive_joint''\<rparr>)"

definition evaluate_joint_state_evidence_pair :: "description_evidence \<Rightarrow> description_evidence \<Rightarrow> reasons" where
  "evaluate_joint_state_evidence_pair xacro description =
     unless (de_reasons xacro = []) ''checked-in xacro drive_joint contract is not ready''
     @ unless (de_reasons description = []) ''controller_manager robot_description drive_joint contract is not ready''
     @ unless (de_drive xacro = de_drive description)
         ''checked-in xacro drive_joint differs from live robot_description drive_joint''"

definition evaluate_sample_freshness :: "pyfloat option \<Rightarrow> pyfloat \<Rightarrow> reasons" where
  "evaluate_sample_freshness wall_age watchdog =
     (case wall_age of
        None \<Rightarrow> [''no joint_state sample received yet'']
      | Some age \<Rightarrow> unless (\<not> flt watchdog age) ''no new joint_state sample within the watchdog'')"

definition bool_text :: "bool \<Rightarrow> string" where
  "bool_text b = (if b then ''True'' else ''False'')"

definition evaluate_clock_domain :: "bool \<Rightarrow> bool option \<Rightarrow> bool \<Rightarrow> int option \<Rightarrow> reasons" where
  "evaluate_clock_domain local_sim remote_sim clock_active now_ns =
     (case remote_sim of
        None \<Rightarrow> [''controller_manager use_sim_time parameter is unknown'']
      | Some remote \<Rightarrow> unless (local_sim = remote)
          (''probe use_sim_time='' @ bool_text local_sim @ '' does not match controller_manager use_sim_time='' @ bool_text remote
           @ '' (probable use_sim_time clock-domain mismatch)''))
     @ (if \<not> local_sim then [''probe is not running on the sim clock (use_sim_time=false)'']
        else if \<not> clock_active then [''use_sim_time=true but /clock is not published'']
        else case now_ns of
               None \<Rightarrow> [''sim clock is active but no clock sample has been received yet'']
             | Some t \<Rightarrow> unless (t \<noteq> 0) ''sim clock is active but has not advanced past zero'')"

subsection \<open>Attribution\<close>

definition strip_slash :: "string \<Rightarrow> string" where
  "strip_slash s = rstrip_slash (dropWhile (\<lambda>c. c = CHR ''/'') s)"

definition standalone_broadcaster_label :: "string \<Rightarrow> string \<Rightarrow> string option" where
  "standalone_broadcaster_label label broadcaster =
     (let stripped = strip_slash label in if stripped = broadcaster \<and> CHR ''/'' \<notin> set stripped then Some stripped else None)"

definition hosted_reason :: "string \<Rightarrow> string list \<Rightarrow> string" where
  "hosted_reason broadcaster matching =
     ''controller-manager-hosted publisher cannot be attributed to broadcaster controller '' @ repr_str broadcaster
     @ '': need exactly one active controller of that exact name, found '' @ repr_strs matching"

definition logical_publisher :: "string \<Rightarrow> string \<Rightarrow> string list \<Rightarrow> string \<Rightarrow> string \<times> reasons" where
  "logical_publisher manager broadcaster matching label =
     (case standalone_broadcaster_label label broadcaster of
        Some standalone \<Rightarrow> (standalone, [])
      | None \<Rightarrow>
          if label = manager
          then if matching = [''active''] then (broadcaster, []) else (label, [hosted_reason broadcaster matching])
          else (label, []))"

definition derive_logical_joint_state_publishers :: "string list \<Rightarrow> string \<Rightarrow> string \<Rightarrow> (string \<times> string) list \<Rightarrow> string list \<times> reasons" where
  "derive_logical_joint_state_publishers raw_labels controller_manager broadcaster entries =
     (let manager = ''/'' @ strip_slash controller_manager;
          matching = map snd (filter (\<lambda>(n, state). n = broadcaster) entries);
          rows = map (logical_publisher manager broadcaster matching) raw_labels
      in (map fst rows, concat (map snd rows)))"

record probe_evidence =
  pe_sample_reasons :: reasons
  pe_cardinality :: reasons
  pe_attribution :: reasons
  pe_description :: reasons
  pe_xacro :: reasons
  pe_evidence_pair :: reasons
  pe_clock_domain :: reasons

definition evaluate_probe_verdict :: "bool \<Rightarrow> probe_evidence \<Rightarrow> reasons" where
  "evaluate_probe_verdict sample_ready e =
     (if sample_ready then []
      else if pe_sample_reasons e \<noteq> [] then map (\<lambda>r. ''sample: '' @ r) (pe_sample_reasons e)
      else [''sample: no joint_state evidence''])
     @ unless (pe_cardinality e = []) ''publisher cardinality not ready''
     @ unless (pe_attribution e = []) ''publisher attribution not ready''
     @ unless (pe_description e = []) ''controller_manager robot_description contract not ready''
     @ unless (pe_xacro e = []) ''checked-in xacro drive_joint contract not ready''
     @ unless (pe_evidence_pair e = []) ''checked-in xacro and live robot_description evidence differ''
     @ unless (pe_clock_domain e = []) ''clock domain evidence not ready''"

end
