(* ===== verification/Joint_Probe.thy ===== *)
theory Joint_Probe
  imports Graph_Contract
begin

text \<open>
  The joint state probe (\<open>joint_state_probe.py\<close>): its two bounded requests to the controller manager, the sample it
  keeps, and the periodic check. Parsing of a description and of the checked-in file are arguments, as in the graph contracts.
  Efforts, diagnostics of texts and the copies of the evidence in the published JSON are left out.
\<close>

datatype parameter_value = Parameter_String string | Parameter_Bool bool | Parameter_Other

record joint_message =
  jm_names :: "string list"
  jm_positions :: "pyfloat list"
  jm_velocities :: "pyfloat list"
  jm_sec :: int
  jm_nanosec :: int

record probe_config =
  jc_controller_manager :: string
  jc_broadcaster :: string
  jc_watchdog :: pyfloat
  jc_xacro :: "string + string"

record joint_probe =
  jp_sample :: "joint_message option"
  jp_received_ns :: int
  jp_wall_last :: pyfloat
  jp_robot_description :: "string option"
  jp_remote_use_sim_time :: "bool option"
  jp_parameters :: "(string \<times> bool option) service"
  jp_controllers :: "(string \<times> string) list service"
  jp_entries :: "(string \<times> string) list"

definition joint_probe_new :: "pyfloat \<Rightarrow> joint_probe" where
  "joint_probe_new now =
     \<lparr>jp_sample = None, jp_received_ns = 0, jp_wall_last = now, jp_robot_description = None, jp_remote_use_sim_time = None,
      jp_parameters = new_service, jp_controllers = new_service, jp_entries = []\<rparr>"

definition probe_config_new :: "string \<Rightarrow> string \<Rightarrow> pyfloat \<Rightarrow> string + string \<Rightarrow> probe_config" where
  "probe_config_new controller_manager broadcaster watchdog xacro =
     \<lparr>jc_controller_manager = strip_slash controller_manager, jc_broadcaster = broadcaster, jc_watchdog = watchdog, jc_xacro = xacro\<rparr>"

definition on_joint_state :: "int \<Rightarrow> pyfloat \<Rightarrow> joint_message \<Rightarrow> joint_probe \<Rightarrow> joint_probe" where
  "on_joint_state clock_ns wall m p = p\<lparr>jp_sample := Some m, jp_received_ns := clock_ns, jp_wall_last := wall\<rparr>"

text \<open>What a check sees: the clocks, the services, and the publishers of the two topics as namespace and name.\<close>

record probe_view =
  pv_parameters_now :: pyfloat
  pv_controllers_now :: pyfloat
  pv_wall_now :: pyfloat
  pv_clock_ns :: int
  pv_parameters :: "parameter_value list option service_view"
  pv_controllers :: "(string \<times> string) list option service_view"
  pv_publishers :: "(string \<times> string) list"
  pv_clock_active :: bool
  pv_use_sim_time :: bool
  pv_parse_description :: "string \<Rightarrow> description"
  pv_parse_xacro :: "string \<Rightarrow> description"

definition JOINT_STATE_SERVICE_TTL_S :: rat where "JOINT_STATE_SERVICE_TTL_S = 30"
definition JOINT_STATE_SERVICE_TIMEOUT_S :: rat where "JOINT_STATE_SERVICE_TIMEOUT_S = 5"

definition extract_parameters :: "parameter_value list option \<Rightarrow> (string \<times> bool option) option res" where
  "extract_parameters response =
     Inr (case response of
            Some (Parameter_String description # rest) \<Rightarrow>
              Some (description, case rest of Parameter_Bool b # _ \<Rightarrow> Some b | _ \<Rightarrow> None)
          | _ \<Rightarrow> None)"

definition PARAMETER_NAMES :: "string list" where "PARAMETER_NAMES = [''robot_description'', ''use_sim_time'']"

definition step_parameters :: "probe_view \<Rightarrow> joint_probe \<Rightarrow> joint_probe" where
  "step_parameters v p =
     (let s = fst (step_service (Inr PARAMETER_NAMES) extract_parameters (pv_parameters_now v) JOINT_STATE_SERVICE_TTL_S
                     JOINT_STATE_SERVICE_TIMEOUT_S (pv_parameters v) (jp_parameters p));
          p1 = p\<lparr>jp_parameters := s\<rparr>
      in case (sv_succeeded s, sv_result s) of
           (True, Some (description, remote)) \<Rightarrow>
             p1\<lparr>jp_robot_description := Some description, jp_remote_use_sim_time := remote\<rparr>
         | _ \<Rightarrow> p1)"

definition step_controllers :: "probe_view \<Rightarrow> joint_probe \<Rightarrow> joint_probe" where
  "step_controllers v p =
     (let s = fst (step_service (Inr ()) Inr (pv_controllers_now v) JOINT_STATE_SERVICE_TTL_S
                     JOINT_STATE_SERVICE_TIMEOUT_S (pv_controllers v) (jp_controllers p))
      in p\<lparr>jp_controllers := s, jp_entries := (case sv_result s of Some entries \<Rightarrow> entries | None \<Rightarrow> [])\<rparr>)"

definition endpoint_label_from_info :: "string \<times> string \<Rightarrow> string" where
  "endpoint_label_from_info = (\<lambda>(namespace, n).
     let namespace = rstrip_slash namespace in if namespace \<noteq> [] then namespace @ ''/'' @ n else ''/'' @ n)"

definition state_of_service :: "'a service \<Rightarrow> string \<Rightarrow> string" where
  "state_of_service s otherwise =
     (case sv_error s of Some e \<Rightarrow> e | None \<Rightarrow> (case sv_pending s of Some e \<Rightarrow> e | None \<Rightarrow> otherwise))"

definition attribution :: "probe_config \<Rightarrow> joint_probe \<Rightarrow> string list \<Rightarrow> string list \<times> reasons" where
  "attribution c p raw_labels =
     (let (logical, rs) = derive_logical_joint_state_publishers raw_labels (jc_controller_manager c) (jc_broadcaster c) (jp_entries p);
          hosted = (''/'' @ jc_controller_manager c \<in> set raw_labels)
      in (logical, rs @ unless (\<not> hosted \<or> sv_succeeded (jp_controllers p))
            (''controller manager state is unavailable: '' @ state_of_service (jp_controllers p) ''not queried'')))"

definition description_contract :: "probe_view \<Rightarrow> joint_probe \<Rightarrow> description_evidence" where
  "description_contract v p =
     evaluate_description
       (case (sv_succeeded (jp_parameters p), jp_robot_description p) of
          (True, Some text) \<Rightarrow> pv_parse_description v text
        | _ \<Rightarrow> Inl (''controller_manager robot_description is stale or unavailable: ''
                    @ state_of_service (jp_parameters p) ''not read yet''))"

definition xacro_contract :: "probe_config \<Rightarrow> probe_view \<Rightarrow> description_evidence" where
  "xacro_contract c v =
     evaluate_description (case jc_xacro c of Inl e \<Rightarrow> Inl (''xacro unavailable: '' @ e) | Inr text \<Rightarrow> pv_parse_xacro v text)"

definition joint_sample_of :: "joint_message \<Rightarrow> joint_sample" where
  "joint_sample_of m = \<lparr>js_names = jm_names m, js_positions = jm_positions m, js_velocities = jm_velocities m,
                  js_stamp_ns = jm_sec m * 10 ^ 9 + jm_nanosec m\<rparr>"

definition sample_content :: "probe_view \<Rightarrow> joint_probe \<Rightarrow> string list \<Rightarrow> reasons" where
  "sample_content v p logical =
     (case jp_sample p of
        None \<Rightarrow> [''no joint_state sample received yet'']
      | Some m \<Rightarrow> evaluate_joint_state_sample (if length logical = 1 then hd logical else []) (length logical) (joint_sample_of m)
                    (jp_received_ns p) (pv_clock_ns v))"

definition probe_evidence_of :: "probe_config \<Rightarrow> probe_view \<Rightarrow> joint_probe \<Rightarrow> probe_evidence" where
  "probe_evidence_of c v p =
     (let (logical, attributed) = attribution c p (map endpoint_label_from_info (pv_publishers v));
          description = description_contract v p; xacro = xacro_contract c v;
          wall_age = map_option (\<lambda>_. fsub (pv_wall_now v) (jp_wall_last p)) (jp_sample p)
      in \<lparr>pe_sample_reasons = sample_content v p logical @ evaluate_sample_freshness wall_age (jc_watchdog c),
          pe_cardinality = evaluate_integrated_cardinality logical, pe_attribution = attributed,
          pe_description = de_reasons description, pe_xacro = de_reasons xacro,
          pe_evidence_pair = evaluate_joint_state_evidence_pair xacro description,
          pe_clock_domain = evaluate_clock_domain (pv_use_sim_time v)
            (if sv_succeeded (jp_parameters p) then jp_remote_use_sim_time p else None) (pv_clock_active v) (Some (pv_clock_ns v))\<rparr>)"

definition probe_check :: "probe_config \<Rightarrow> probe_view \<Rightarrow> joint_probe \<Rightarrow> joint_probe \<times> contract_state \<times> reasons" where
  "probe_check c v p0 =
     (let p = step_controllers v (step_parameters v p0); e = probe_evidence_of c v p;
          verdict = evaluate_probe_verdict (pe_sample_reasons e = []) e
      in (p, if verdict = [] then Pass else Fail, verdict))"

end
