(* ===== verification/Contract_Safety.thy ===== *)
theory Contract_Safety
  imports Joint_Probe Fixture_Safety
begin

text \<open>
  The contracts of the running graph: the guard passes exactly the graphs its profile describes, and the joint state probe
  passes only on one fresh, attributed, well-formed source of joint states.
\<close>

section \<open>The guard\<close>

definition sole_owner :: "string \<Rightarrow> string list \<Rightarrow> bool" where
  "sole_owner node owners \<longleftrightarrow> length owners = 1 \<and> list_all (\<lambda>w. node_of w = node) owners"

definition graph_fits :: "string \<Rightarrow> graph_view \<Rightarrow> bool" where
  "graph_fits profile g \<longleftrightarrow>
     list_all (\<lambda>(topic, t). t \<in> set (types_on (gv_topics g) topic)) (the (map_of TOPIC_PROFILES profile))
     \<and> set REQUIRED_STANDARD_SERVICES \<subseteq> set (gv_services g) \<and> set FORBIDDEN_SERVICES \<inter> set (gv_services g) = {}
     \<and> gv_tf_publishers g = []
     \<and> sole_owner ''tinker_sim_command_gateway'' (gv_command_publishers g)
     \<and> (if profile = ''manipulation''
        then sole_owner ''tinker_truth_evaluator'' (gv_truth_subscribers g)
             \<and> sole_owner SAFETY_SUPERVISOR_NODE (gv_safety_stop_publishers g)
             \<and> length (gv_xarm_publishers g) = 1 \<and> length (gv_collision_publishers g) = 1
        else gv_truth_subscribers g = [] \<and> list_all (\<lambda>w. node_of w = SAFETY_SUPERVISOR_NODE) (gv_safety_stop_publishers g))"

lemma sort_Nil [simp]: "sort xs = [] \<longleftrightarrow> xs = []"
  by (metis set_empty set_sort)

lemma other_than_Nil: "other_than node owners = [] \<longleftrightarrow> list_all (\<lambda>w. node_of w = node) owners"
  by (auto simp: other_than_def filter_empty_conv list_all_iff)

lemma cardinality_state_simps:
  "cardinality_state n k w = Pass \<longleftrightarrow> n = k" "cardinality_state n k w \<noteq> Not_Applicable"
  "cardinality_state n k w = Starting \<longleftrightarrow> n \<noteq> k \<and> n = 0 \<and> k = 1 \<and> \<not> w"
  "cardinality_state n k w = Fail \<longleftrightarrow> n \<noteq> k \<and> \<not> (n = 0 \<and> k = 1 \<and> \<not> w)"
  by (auto simp: cardinality_state_def)

lemma overall_pass:
  "evaluate_overall_state c w = Pass \<longleftrightarrow>
     gc_wrong_types c = [] \<and> gc_forbidden_tf_publishers c = [] \<and> gc_forbidden_services c = [] \<and> gc_wrong_command_publishers c = []
     \<and> gc_forbidden_truth_subscribers c = [] \<and> gc_wrong_safety_stop_publishers c = []
     \<and> gc_missing_topics c = [] \<and> gc_missing_standard_services c = []
     \<and> (let n = gc_cardinalities c
        in list_all (\<lambda>k. cd_state k \<notin> {Fail, Starting}) [cs_command_publisher n, cs_raw_truth_subscriber n,
             cs_safety_stop_publisher n, cs_xarm_source_publisher n, cs_collision_source_publisher n])"
  by (auto simp: evaluate_overall_state_def Let_def)

lemma topics_fit:
  "filter (\<lambda>topic. types_on ts topic = []) (map fst expected) = []
     \<and> concat (map (\<lambda>(topic, t). if types_on ts topic \<noteq> [] \<and> t \<notin> set (types_on ts topic) then [(topic, types_on ts topic)] else []) expected) = []
   \<longleftrightarrow> list_all (\<lambda>(topic, t). t \<in> set (types_on ts topic)) expected"
proof (induction expected)
  case (Cons x xs)
  show ?case
    by (cases x; cases "types_on ts (fst x)") (use Cons in \<open>auto split: if_splits\<close>)
qed simp

lemma cardinalities_fit:
  assumes "evaluate_cardinality profile a b w d e f = Inr n"
  shows "list_all (\<lambda>k. cd_state k \<notin> {Fail, Starting}) [cs_command_publisher n, cs_raw_truth_subscriber n,
      cs_safety_stop_publisher n, cs_xarm_source_publisher n, cs_collision_source_publisher n]
    \<longleftrightarrow> a = 1 \<and> (if profile = ''manipulation'' then b = 1 \<and> d = 1 \<and> e = 1 \<and> f = 1 else b = 0)"
proof -
  have "n = (let manipulation = (profile = ''manipulation'');
            truth_expected = (if manipulation then 1 else 0);
            command_state = cardinality_state a 1 w;
            truth_state = cardinality_state b truth_expected w;
            safety = (\<lambda>n. let state = (if manipulation then cardinality_state n 1 w else Not_Applicable)
                          in cardinality_entry (if manipulation then 1 else 0) n state (state = Pass \<or> \<not> manipulation))
        in \<lparr>cs_command_publisher = cardinality_entry 1 a command_state (command_state = Pass),
                cs_raw_truth_subscriber = cardinality_entry truth_expected b truth_state (truth_state = Pass),
                cs_safety_stop_publisher = safety d, cs_xarm_source_publisher = safety e,
                cs_collision_source_publisher = safety f\<rparr>)"
    using assms unfolding evaluate_cardinality_def by (auto split: if_splits simp: Let_def)
  then show ?thesis
    by (cases "profile = ''manipulation''")
      (auto simp: Let_def cardinality_entry_def cardinality_state_simps cardinality_state_def)
qed

text \<open>C38: The guard reports pass exactly when the graph fits its profile: every topic has its type, all standard services and no
  forbidden one, one command publisher, no foreign transform publisher, and for manipulation one evaluator, one supervisor and
  one publisher of each safety source.\<close>
theorem guard_passes_iff:
  assumes "guard_check profile startup_grace_s started now g = Inr (state, c)"
  shows "state = Pass \<longleftrightarrow> graph_fits profile (guard_view g)"
proof -
  let ?v = "guard_view g" and ?w = "flt startup_grace_s (fsub now started)"
  obtain expected n where expected: "map_of TOPIC_PROFILES profile = Some expected"
      and n: "evaluate_cardinality profile (length (gv_command_publishers ?v)) (length (gv_truth_subscribers ?v)) ?w
          (length (gv_safety_stop_publishers ?v)) (length (gv_xarm_publishers ?v)) (length (gv_collision_publishers ?v)) = Inr n"
      and c: "evaluate_contract profile ?v ?w = Inr c" and state: "state = evaluate_overall_state c ?w"
    using assms by (auto simp: guard_check_def Let_def evaluate_contract_def bind_Inr_iff split: option.splits)
  have fields: "gc_missing_topics c = sort (filter (\<lambda>topic. types_on (gv_topics ?v) topic = []) (map fst expected))"
      "gc_wrong_types c = concat (map (\<lambda>(topic, t). if types_on (gv_topics ?v) topic \<noteq> [] \<and> t \<notin> set (types_on (gv_topics ?v) topic)
          then [(topic, types_on (gv_topics ?v) topic)] else []) expected)"
      "gc_missing_standard_services c = sort (filter (\<lambda>s. s \<notin> set (gv_services ?v)) REQUIRED_STANDARD_SERVICES)"
      "gc_forbidden_services c = sort (filter (\<lambda>s. s \<in> set (gv_services ?v)) FORBIDDEN_SERVICES)"
      "gc_forbidden_tf_publishers c = sort (gv_tf_publishers ?v)"
      "gc_wrong_command_publishers c = other_than ''tinker_sim_command_gateway'' (gv_command_publishers ?v)"
      "gc_forbidden_truth_subscribers c = other_than ''tinker_truth_evaluator'' (gv_truth_subscribers ?v)"
      "gc_wrong_safety_stop_publishers c = other_than SAFETY_SUPERVISOR_NODE (gv_safety_stop_publishers ?v)"
      "gc_cardinalities c = n"
    using c unfolding evaluate_contract_def expected option.case n bind_simps Let_def by auto
  have services: "filter (\<lambda>s. s \<notin> set ss) xs = [] \<longleftrightarrow> set xs \<subseteq> set ss" "filter (\<lambda>s. s \<in> set ss) xs = [] \<longleftrightarrow> set xs \<inter> set ss = {}"
    for ss xs :: "string list"
    by (auto simp: filter_empty_conv)
  show ?thesis
    unfolding state overall_pass fields Let_def cardinalities_fit [OF n] other_than_Nil graph_fits_def sole_owner_def expected option.sel
      sort_Nil services topics_fit [symmetric]
    by (cases "profile = ''manipulation''") auto
qed

definition demo_graph :: ros_graph where
  "demo_graph =
     \<lparr>rg_topics = map (\<lambda>(topic, t). (topic, [t])) NAVIGATION_REQUIRED_TOPICS, rg_services = REQUIRED_STANDARD_SERVICES,
      rg_publishers = (\<lambda>topic. if topic = ''/isaac_joint_commands'' then [(''/'', ''tinker_sim_command_gateway'')] else []),
      rg_subscribers = (\<lambda>_. [])\<rparr>"

lemma guard_passes_iff_witness: "graph_fits ''navigation'' (guard_view demo_graph)"
proof -
  have "map_sum (\<lambda>_. 0) fst (guard_check ''navigation'' (Fin 20) (Fin 0) (Fin 2) demo_graph) = (Inr Pass :: nat + contract_state)"
    by code_simp
  then obtain c where "guard_check ''navigation'' (Fin 20) (Fin 0) (Fin 2) demo_graph = Inr (Pass, c)"
    by (cases "guard_check ''navigation'' (Fin 20) (Fin 0) (Fin 2) demo_graph") auto
  from guard_passes_iff [OF this] show ?thesis by simp
qed

section \<open>The probe\<close>

text \<open>A success is never used after its time to live.\<close>

lemma step_service_fresh:
  assumes "sv_succeeded (fst (step_service request extract now ttl timeout view s))" "0 \<le> ttl"
  shows "\<not> expired now (sv_succeeded_at (fst (step_service request extract now ttl timeout view s))) ttl"
proof (cases "sv_succeeded s \<and> \<not> expired now (sv_succeeded_at s) ttl")
  case True
  then show ?thesis by (simp add: step_service_def)
next
  case False
  define s1 where "s1 = (if sv_succeeded s then s\<lparr>sv_succeeded := False, sv_result := None, sv_succeeded_at := None\<rparr> else s)"
  have poll: "fst (step_service request extract now ttl timeout view s) = fst (poll_service request extract now timeout view s1)"
    using False by (simp add: step_service_def s1_def)
  have "\<not> sv_succeeded s1" by (simp add: s1_def)
  then have "sv_succeeded (fst (poll_service request extract now timeout view s1)) \<Longrightarrow>
      sv_succeeded_at (fst (poll_service request extract now timeout view s1)) = Some now"
    by (auto simp: poll_service_def Let_def finish_call_def reset_client_def
        split: if_splits call.splits sum.splits option.splits)
  then show ?thesis using assms poll by (cases now) (simp_all add: expired_def fsub_def)
qed

definition good_values :: "pyfloat list \<Rightarrow> bool" where
  "good_values vs \<longleftrightarrow> length vs = 8 \<and> list_all isfinite vs"

text \<open>The latest sample is the one the contract asks for.\<close>

definition sample_good :: "int \<Rightarrow> int \<Rightarrow> joint_message \<Rightarrow> bool" where
  "sample_good received now m \<longleftrightarrow>
     jm_names m = INTEGRATED_JOINT_STATE_NAMES \<and> good_values (jm_positions m) \<and> good_values (jm_velocities m)
     \<and> (let stamp = jm_sec m * 10 ^ 9 + jm_nanosec m
        in stamp \<noteq> 0 \<and> 0 \<le> now - stamp \<and> now - stamp \<le> JOINT_STATE_MAX_AGE_NS
           \<and> 0 \<le> received - stamp \<and> received - stamp \<le> JOINT_STATE_MAX_TRANSPORT_NS)"

text \<open>The only publisher is the broadcaster itself, or the manager that reports it once, active, in a fresh list.\<close>

definition source_proved :: "probe_config \<Rightarrow> probe_view \<Rightarrow> joint_probe \<Rightarrow> bool" where
  "source_proved c v p \<longleftrightarrow>
     jc_broadcaster c = JOINT_STATE_BROADCASTER
     \<and> (\<exists>publisher. pv_publishers v = [publisher]
          \<and> (let label = endpoint_label_from_info publisher
             in strip_slash label = JOINT_STATE_BROADCASTER
                \<or> label = ''/'' @ jc_controller_manager c \<and> sv_succeeded (jp_controllers p)
                  \<and> \<not> expired (pv_controllers_now v) (sv_succeeded_at (jp_controllers p)) JOINT_STATE_SERVICE_TTL_S
                  \<and> map snd (filter (\<lambda>(n, state). n = JOINT_STATE_BROADCASTER) (jp_entries p)) = [''active'']))"

definition description_good :: "(string \<times> interfaces) list \<Rightarrow> bool" where
  "description_good recs \<longleftrightarrow>
     map fst recs = INTEGRATED_JOINT_STATE_NAMES \<and> map_of recs ''drive_joint'' = Some ([], EXPECTED_STATE_INTERFACES)
     \<and> list_all (\<lambda>i. map_of recs (''joint'' @ dec_nat i) = Some (EXPECTED_ARM_COMMAND_INTERFACES, EXPECTED_STATE_INTERFACES)) [1..<8]"

lemma values_reasons_Nil: "values_reasons what vs = [] \<longleftrightarrow> good_values vs"
  by (simp add: values_reasons_def good_values_def INTEGRATED_JOINT_STATE_NAMES_def)

lemma sample_content_Nil:
  assumes "evaluate_joint_state_sample publisher count (joint_sample_of m) received now = []"
  shows "sample_good received now m"
  using assms
  by (auto simp: evaluate_joint_state_sample_def Let_def values_reasons_Nil joint_sample_of_def sample_good_def split: if_splits)

lemma arm_reasons_Nil:
  "arm_reasons recs arm = [] \<longleftrightarrow> map_of recs arm = Some (EXPECTED_ARM_COMMAND_INTERFACES, EXPECTED_STATE_INTERFACES)"
  by (auto simp: arm_reasons_def split: option.split prod.split)

lemma joint_state_contract_Nil: "joint_state_contract recs = [] \<longleftrightarrow> description_good recs"
  by (auto simp: joint_state_contract_def description_good_def arm_reasons_Nil list_all_iff split: option.splits prod.splits)

lemma description_ready:
  "de_reasons (evaluate_description d) = [] \<Longrightarrow> \<exists>joints. d = Inr joints \<and> description_good (joint_records joints)"
  by (cases d) (auto simp: evaluate_description_def Let_def joint_state_contract_Nil)

lemma rstrip_keeps_head: "x \<noteq> CHR ''/'' \<Longrightarrow> \<exists>ys. rstrip_slash (x # xs) = x # ys"
  by (auto simp: rstrip_slash_def dropWhile_append) (metis rev_rev_ident)

lemma strip_slash_idem [simp]: "strip_slash (strip_slash s) = strip_slash s"
proof (cases "dropWhile (\<lambda>c. c = CHR ''/'') s")
  case Nil
  have "strip_slash s = []" unfolding strip_slash_def Nil by (simp add: rstrip_slash_def)
  moreover have "strip_slash [] = []" by (simp add: strip_slash_def rstrip_slash_def)
  ultimately show ?thesis by simp
next
  case (Cons x xs)
  then have "x \<noteq> CHR ''/''" using hd_dropWhile [of "\<lambda>c. c = CHR ''/''" s] by simp
  then obtain ys where "rstrip_slash (x # xs) = x # ys" using rstrip_keeps_head by blast
  moreover have "rstrip_slash (rstrip_slash (x # xs)) = rstrip_slash (x # xs)" by (simp add: rstrip_slash_def)
  ultimately show ?thesis using Cons \<open>x \<noteq> CHR ''/''\<close> by (simp add: strip_slash_def)
qed

lemma label_has_slash: "CHR ''/'' \<in> set (endpoint_label_from_info w)"
  by (cases w) (simp add: endpoint_label_from_info_def Let_def)

lemma attributed_source:
  assumes "attribution c p [label] = ([JOINT_STATE_BROADCASTER], [])" "CHR ''/'' \<in> set label"
    "strip_slash (jc_controller_manager c) = jc_controller_manager c"
  shows "jc_broadcaster c = JOINT_STATE_BROADCASTER
    \<and> (strip_slash label = JOINT_STATE_BROADCASTER
       \<or> label = ''/'' @ jc_controller_manager c \<and> sv_succeeded (jp_controllers p)
         \<and> map snd (filter (\<lambda>(n, state). n = JOINT_STATE_BROADCASTER) (jp_entries p)) = [''active''])"
proof -
  have "label \<noteq> JOINT_STATE_BROADCASTER" using assms(2) by (auto simp: JOINT_STATE_BROADCASTER_def)
  then show ?thesis using assms(1,3)
    by (auto simp: attribution_def derive_logical_joint_state_publishers_def logical_publisher_def
        standalone_broadcaster_label_def Let_def split: if_splits option.splits)
qed

lemma verdict_Nil:
  "evaluate_probe_verdict ready e = [] \<longleftrightarrow>
     ready \<and> pe_cardinality e = [] \<and> pe_attribution e = [] \<and> pe_description e = [] \<and> pe_xacro e = [] \<and> pe_evidence_pair e = []
     \<and> pe_clock_domain e = []"
  by (auto simp: evaluate_probe_verdict_def)

lemma cardinality_Nil: "evaluate_integrated_cardinality labels = [] \<longleftrightarrow> labels = [JOINT_STATE_BROADCASTER]"
  by (auto simp: evaluate_integrated_cardinality_def)

lemma steps_keep_sample:
  "jp_sample (step_controllers v (step_parameters v p)) = jp_sample p"
  "jp_received_ns (step_controllers v (step_parameters v p)) = jp_received_ns p"
  "jp_wall_last (step_controllers v (step_parameters v p)) = jp_wall_last p"
  by (auto simp: step_controllers_def step_parameters_def Let_def split: prod.splits option.splits bool.splits)

lemma controllers_fresh:
  "sv_succeeded (jp_controllers (step_controllers v p)) \<Longrightarrow>
     \<not> expired (pv_controllers_now v) (sv_succeeded_at (jp_controllers (step_controllers v p))) JOINT_STATE_SERVICE_TTL_S"
  using step_service_fresh [of "Inr ()" Inr "pv_controllers_now v" JOINT_STATE_SERVICE_TTL_S]
  by (simp add: step_controllers_def Let_def JOINT_STATE_SERVICE_TTL_S_def)

lemma live_description_ready:
  assumes "de_reasons (description_contract v p) = []"
  shows "sv_succeeded (jp_parameters p) \<and> (\<exists>urdf joints. jp_robot_description p = Some urdf
    \<and> pv_parse_description v urdf = Inr joints \<and> description_good (joint_records joints))"
  using assms unfolding description_contract_def
  by (cases "sv_succeeded (jp_parameters p)"; cases "jp_robot_description p") (auto dest!: description_ready)

lemma checked_in_ready:
  assumes "de_reasons (xacro_contract c v) = []"
  shows "\<exists>checked_in declared. jc_xacro c = Inr checked_in \<and> pv_parse_xacro v checked_in = Inr declared
    \<and> description_good (joint_records declared)"
  using assms unfolding xacro_contract_def by (cases "jc_xacro c") (auto dest!: description_ready)

lemma sample_ready:
  assumes "sample_content v p [JOINT_STATE_BROADCASTER] = []"
    and "evaluate_sample_freshness (map_option (\<lambda>_. age) (jp_sample p)) watchdog = []"
  shows "\<exists>m. jp_sample p = Some m \<and> sample_good (jp_received_ns p) (pv_clock_ns v) m \<and> \<not> flt watchdog age"
  using assms sample_content_Nil
  by (cases "jp_sample p") (auto simp: sample_content_def evaluate_sample_freshness_def)

lemma clock_ready:
  "evaluate_clock_domain local_sim remote_sim active (Some now) = [] \<longleftrightarrow> remote_sim = Some local_sim \<and> local_sim \<and> active \<and> now \<noteq> 0"
  by (auto simp: evaluate_clock_domain_def split: option.splits)

lemma source_ready:
  assumes source: "attribution c p (map endpoint_label_from_info (pv_publishers v)) = ([JOINT_STATE_BROADCASTER], [])"
    and c: "strip_slash (jc_controller_manager c) = jc_controller_manager c" and p: "p = step_controllers v q"
  shows "source_proved c v p"
proof -
  have "length (pv_publishers v) = 1"
    using source by (auto simp: attribution_def derive_logical_joint_state_publishers_def Let_def)
  then obtain w where w: "pv_publishers v = [w]" by (cases "pv_publishers v") auto
  show ?thesis
    using attributed_source [OF source [unfolded w list.map] label_has_slash c] w controllers_fresh [of v q]
    unfolding source_proved_def Let_def p [symmetric] by auto
qed

text \<open>C37: The probe passes only on a latest sample with the exact joints, finite values and bounded age and delay, within the
  watchdog, from one publisher that is proved to be the active broadcaster, on an agreed and running simulation clock, with a
  fresh description whose drive joint takes no commands, as the checked-in one.\<close>
theorem probe_pass_proved:
  assumes "probe_check (probe_config_new manager broadcaster watchdog xacro) v p0 = (p, Pass, rs)"
  shows "\<exists>m urdf joints checked_in. jp_sample p0 = Some m \<and> sample_good (jp_received_ns p0) (pv_clock_ns v) m
    \<and> \<not> flt watchdog (fsub (pv_wall_now v) (jp_wall_last p0))
    \<and> source_proved (probe_config_new manager broadcaster watchdog xacro) v p
    \<and> pv_use_sim_time v \<and> pv_clock_active v \<and> pv_clock_ns v \<noteq> 0 \<and> jp_remote_use_sim_time p = Some True
    \<and> sv_succeeded (jp_parameters p) \<and> jp_robot_description p = Some urdf \<and> pv_parse_description v urdf = Inr joints
    \<and> description_good (joint_records joints) \<and> xacro = Inr checked_in
    \<and> (\<exists>declared. pv_parse_xacro v checked_in = Inr declared \<and> description_good (joint_records declared))"
proof -
  define c where "c = probe_config_new manager broadcaster watchdog xacro"
  have c: "jc_watchdog c = watchdog" "jc_xacro c = xacro" "strip_slash (jc_controller_manager c) = jc_controller_manager c"
    by (simp_all add: c_def probe_config_new_def)
  define e where "e = probe_evidence_of c v p"
  have p: "p = step_controllers v (step_parameters v p0)" and "evaluate_probe_verdict (pe_sample_reasons e = []) e = []"
    using assms by (auto simp: probe_check_def Let_def c_def e_def split: if_splits)
  then have clear: "pe_sample_reasons e = []" "pe_cardinality e = []" "pe_attribution e = []" "pe_description e = []"
      "pe_xacro e = []" "pe_clock_domain e = []"
    by (simp_all add: verdict_Nil)
  obtain logical attributed where split: "attribution c p (map endpoint_label_from_info (pv_publishers v)) = (logical, attributed)"
    by fastforce
  note evidence = clear [unfolded e_def probe_evidence_of_def Let_def split prod.case probe_evidence.simps]
  have labels: "logical = [JOINT_STATE_BROADCASTER]" "attributed = []" using evidence(2,3) by (simp_all add: cardinality_Nil)
  have "source_proved c v p" using split [unfolded labels] c(3) p by (rule source_ready)
  moreover have "\<exists>m. jp_sample p = Some m \<and> sample_good (jp_received_ns p) (pv_clock_ns v) m
      \<and> \<not> flt watchdog (fsub (pv_wall_now v) (jp_wall_last p))"
    using evidence(1) labels(1) c(1) sample_ready by fastforce
  moreover have "sv_succeeded (jp_parameters p)" and
      "\<exists>urdf joints. jp_robot_description p = Some urdf \<and> pv_parse_description v urdf = Inr joints \<and> description_good (joint_records joints)"
    using live_description_ready [OF evidence(4)] by blast+
  moreover have "\<exists>checked_in declared. xacro = Inr checked_in \<and> pv_parse_xacro v checked_in = Inr declared
      \<and> description_good (joint_records declared)"
    using checked_in_ready [OF evidence(5)] c(2) by simp
  moreover have "jp_remote_use_sim_time p = Some True" "pv_use_sim_time v" "pv_clock_active v" "pv_clock_ns v \<noteq> 0"
    using evidence(6) by (auto simp: clock_ready split: if_splits)
  ultimately show ?thesis unfolding c_def p steps_keep_sample by blast
qed

definition demo_joints :: "joint_element list" where
  "demo_joints = map (\<lambda>n. (n, if n = ''drive_joint'' then [] else EXPECTED_ARM_COMMAND_INTERFACES, EXPECTED_STATE_INTERFACES))
     INTEGRATED_JOINT_STATE_NAMES"

definition demo_joint_message :: joint_message where
  "demo_joint_message =
     \<lparr>jm_names = INTEGRATED_JOINT_STATE_NAMES, jm_positions = replicate 8 (Fin 0), jm_velocities = replicate 8 (Fin 0),
      jm_sec = 10, jm_nanosec = 0\<rparr>"

definition demo_probe :: joint_probe where
  "demo_probe = on_joint_state 11000000000 (Fin 6) demo_joint_message
     ((joint_probe_new (Fin 0))\<lparr>jp_parameters := new_service\<lparr>sv_succeeded := True, sv_result := Some (''urdf'', Some True),
         sv_succeeded_at := Some (Fin 5)\<rparr>,
       jp_controllers := new_service\<lparr>sv_succeeded := True, sv_result := Some [(''joint_state_broadcaster'', ''active'')],
         sv_succeeded_at := Some (Fin 5)\<rparr>\<rparr>)"

definition demo_probe_view :: probe_view where
  "demo_probe_view =
     \<lparr>pv_parameters_now = Fin 7, pv_controllers_now = Fin 7, pv_wall_now = Fin 7, pv_clock_ns = 12000000000,
      pv_parameters = \<lparr>vw_ready = True, vw_call = In_Flight\<rparr>, pv_controllers = \<lparr>vw_ready = True, vw_call = In_Flight\<rparr>,
      pv_publishers = [(''/'', ''controller_manager'')], pv_clock_active = True, pv_use_sim_time = True,
      pv_parse_description = (\<lambda>_. Inr demo_joints), pv_parse_xacro = (\<lambda>_. Inr demo_joints)\<rparr>"

definition demo_config :: probe_config where
  "demo_config = probe_config_new ''/controller_manager'' JOINT_STATE_BROADCASTER (Fin 15) (Inr [])"

definition demo_checked :: joint_probe where
  "demo_checked = demo_probe\<lparr>jp_robot_description := Some ''urdf'', jp_remote_use_sim_time := Some True,
     jp_entries := [(''joint_state_broadcaster'', ''active'')]\<rparr>"

lemma demo_steps: "step_controllers demo_probe_view (step_parameters demo_probe_view demo_probe) = demo_checked"
  by (simp add: step_controllers_def step_parameters_def step_service_def expired_def demo_probe_view_def demo_probe_def
      on_joint_state_def joint_probe_new_def new_service_def JOINT_STATE_SERVICE_TTL_S_def demo_checked_def)

lemma demo_attribution: "attribution demo_config demo_checked [''/controller_manager''] = ([JOINT_STATE_BROADCASTER], [])"
  by (simp add: attribution_def derive_logical_joint_state_publishers_def logical_publisher_def standalone_broadcaster_label_def
      strip_slash_def rstrip_slash_def demo_config_def probe_config_new_def demo_checked_def demo_probe_def on_joint_state_def
      joint_probe_new_def JOINT_STATE_BROADCASTER_def)

lemma demo_sample: "evaluate_joint_state_sample JOINT_STATE_BROADCASTER 1 (joint_sample_of demo_joint_message) 11000000000 12000000000 = []"
  by (simp add: evaluate_joint_state_sample_def joint_sample_of_def demo_joint_message_def values_reasons_Nil good_values_def
      list_all_iff JOINT_STATE_MAX_AGE_NS_def JOINT_STATE_MAX_TRANSPORT_NS_def JOINT_STATE_CLOCK_DOMAIN_THRESHOLD_NS_def)

lemma demo_description: "de_reasons (evaluate_description (Inr demo_joints)) = []"
  by code_simp

lemma demo_evidence: "evaluate_probe_verdict (pe_sample_reasons (probe_evidence_of demo_config demo_probe_view demo_checked) = [])
    (probe_evidence_of demo_config demo_probe_view demo_checked) = []"
proof -
  have labels: "map endpoint_label_from_info (pv_publishers demo_probe_view) = [''/controller_manager'']"
    by (simp add: demo_probe_view_def endpoint_label_from_info_def rstrip_slash_def)
  have fields: "jp_sample demo_checked = Some demo_joint_message" "jp_received_ns demo_checked = 11000000000" "jp_wall_last demo_checked = Fin 6"
      "sv_succeeded (jp_parameters demo_checked)" "jp_robot_description demo_checked = Some ''urdf''"
      "jp_remote_use_sim_time demo_checked = Some True" "jc_watchdog demo_config = Fin 15" "jc_xacro demo_config = Inr []"
    by (simp_all add: demo_checked_def demo_probe_def on_joint_state_def demo_config_def probe_config_new_def)
  have view: "pv_clock_ns demo_probe_view = 12000000000" "pv_wall_now demo_probe_view = Fin 7" "pv_use_sim_time demo_probe_view"
      "pv_clock_active demo_probe_view" "pv_parse_description demo_probe_view t = Inr demo_joints"
      "pv_parse_xacro demo_probe_view t = Inr demo_joints" for t
    by (simp_all add: demo_probe_view_def)
  show ?thesis
    using demo_sample demo_description
    by (simp add: verdict_Nil probe_evidence_of_def Let_def labels demo_attribution sample_content_def fields view
        evaluate_sample_freshness_def cardinality_Nil description_contract_def xacro_contract_def
        evaluate_joint_state_evidence_pair_def evaluate_clock_domain_def)
qed

lemma probe_pass_proved_witness:
  "source_proved demo_config demo_probe_view demo_checked \<and> sample_good 11000000000 12000000000 demo_joint_message"
proof -
  obtain rs where rs: "probe_check demo_config demo_probe_view demo_probe = (demo_checked, Pass, rs)"
    using demo_evidence by (simp add: probe_check_def demo_steps Let_def)
  have "jp_sample demo_probe = Some demo_joint_message" "jp_received_ns demo_probe = 11000000000" "pv_clock_ns demo_probe_view = 12000000000"
    by (simp_all add: demo_probe_def on_joint_state_def demo_probe_view_def)
  then show ?thesis using probe_pass_proved [OF rs [unfolded demo_config_def]] by (auto simp: demo_config_def)
qed

end
