(* ===== verification/Amcl_Map.thy ===== *)
theory Amcl_Map
  imports Py_Values
begin

text \<open>
  The surface-only copy of the arena map (\<open>amcl_map.py\<close>). Bytes are characters. The loops that look for the end of
  a token test an empty slice at the end of the data and then go on for ever: they are partial functions, and a file on
  which reading does not return has the value \<open>None\<close>. Reading the YAML description and writing the files are left out.
\<close>

definition OCCUPIED :: nat where "OCCUPIED = 0"
definition UNKNOWN :: nat where "UNKNOWN = 128"
definition OCCUPIED_BELOW :: nat where "OCCUPIED_BELOW = 128"

section \<open>Reading\<close>

text \<open>The bytes from \<open>pos\<close> on; the token and what is left from its end.\<close>

partial_function (option) token_from :: "string \<Rightarrow> (string \<times> string) option" where
  "token_from rest =
     (if rest \<noteq> [] \<and> bytes_space (hd rest) then Some ([], rest)
      else Option.bind (token_from (tl rest)) (\<lambda>(token, after). Some (take 1 rest @ token, after)))"

definition after_comment :: "string \<Rightarrow> string res" where
  "after_comment rest =
     (if char_of (10 :: nat) \<in> set rest then Inr (tl (dropWhile (\<lambda>c. c \<noteq> char_of (10 :: nat)) rest))
      else Inl (ValueError ''subsection not found''))"

partial_function (option) read_fields :: "nat \<Rightarrow> string \<Rightarrow> (string list \<times> string) res option" where
  "read_fields n pgm =
     (if n = 0 then Some (Inr ([], pgm))
      else
        let rest = dropWhile bytes_space pgm
        in if rest \<noteq> [] \<and> hd rest = CHR ''#''
           then (case after_comment rest of Inl e \<Rightarrow> Some (Inl e) | Inr next_line \<Rightarrow> read_fields n next_line)
           else Option.bind (token_from rest) (\<lambda>(token, after).
             Option.bind (read_fields (n - 1) after) (\<lambda>r.
               Some (map_sum id (\<lambda>(tokens, end_rest). (token # tokens, end_rest)) r))))"

text \<open>
  A negative product of the sizes is never the length of the data. The pixels begin one byte after the last token.
\<close>

definition pgm_image :: "string list \<times> string \<Rightarrow> (int \<times> int \<times> int \<times> string) res" where
  "pgm_image = (\<lambda>(fields, rest).
     if fields ! 0 \<noteq> ''P5'' then Inl (ValueError ''not a binary (P5) PGM'')
     else bind (each int_token (take 3 (drop 1 fields))) (\<lambda>ns.
       let width = ns ! 0; height = ns ! 1; maxval = ns ! 2;
           data = (if width * height < 0 then [] else take (nat (width * height)) (drop 1 rest))
       in if int (length data) \<noteq> width * height then Inl (ValueError ''PGM data shorter than its header'')
          else Inr (width, height, maxval, data)))"

definition read_pgm :: "string \<Rightarrow> (int \<times> int \<times> int \<times> string) res option" where
  "read_pgm pgm = Option.bind (read_fields 4 pgm) (\<lambda>r. Some (bind r pgm_image))"

section \<open>The surface\<close>

definition byte_occupied :: "string \<Rightarrow> nat \<Rightarrow> bool" where
  "byte_occupied data i \<longleftrightarrow> (of_char (data ! i) :: nat) < OCCUPIED_BELOW"

text \<open>The cells off the edge of the image, in the order of the loops.\<close>

definition inner_cells :: "int \<Rightarrow> int \<Rightarrow> (int \<times> int) list" where
  "inner_cells width height = concat (map (\<lambda>row. map (\<lambda>col. (row, col)) [1..width - 2]) [1..height - 2])"

definition fill_cell :: "int \<Rightarrow> string \<Rightarrow> string \<Rightarrow> int \<times> int \<Rightarrow> string" where
  "fill_cell width data = (\<lambda>out (row, col).
     let i = row * width + col; occupied = (\<lambda>k. byte_occupied data (nat k))
     in if occupied i \<and> occupied (i - 1) \<and> occupied (i + 1) \<and> occupied (i - width) \<and> occupied (i + width)
        then out[nat i := char_of UNKNOWN] else out)"

definition surface_data :: "int \<Rightarrow> int \<Rightarrow> string \<Rightarrow> string" where
  "surface_data width height data = foldl (fill_cell width data) data (inner_cells width height)"

definition pgm_bytes :: "int \<Rightarrow> int \<Rightarrow> int \<Rightarrow> string \<Rightarrow> string" where
  "pgm_bytes width height maxval data =
     ''P5'' @ [char_of (10 :: nat)] @ dec_int width @ '' '' @ dec_int height @ [char_of (10 :: nat)] @ dec_int maxval
     @ [char_of (10 :: nat)] @ data"

definition surface_only_pgm :: "string \<Rightarrow> string res option" where
  "surface_only_pgm pgm =
     map_option (map_sum id (\<lambda>(width, height, maxval, data). pgm_bytes width height maxval (surface_data width height data)))
       (read_pgm pgm)"

end
