(* ===== verification/Amcl_Safety.thy ===== *)
theory Amcl_Safety
  imports Amcl_Map Occupancy_Spec
begin

text \<open>
  The surface-only map: a written image reads back, exactly the cells inside an obstacle become unknown, and a header
  that is cut off is never finished.
\<close>

section \<open>Reading a written image\<close>

lemma token_from_span:
  assumes "list_all (\<lambda>c. \<not> bytes_space c) token" "bytes_space sep"
  shows "token_from (token @ sep # rest) = Some (token, sep # rest)"
  using assms(1)
proof (induction token)
  case Nil
  then show ?case by (subst token_from.simps) (simp add: assms(2))
next
  case (Cons c cs)
  then show ?case by (subst token_from.simps) simp
qed

lemma read_fields_token:
  assumes "token \<noteq> []" "list_all (\<lambda>c. \<not> bytes_space c) token" "hd token \<noteq> CHR ''#''" "bytes_space sep"
    and "list_all bytes_space gap"
  shows "read_fields (Suc n) (gap @ token @ sep # rest)
    = map_option (map_sum id (\<lambda>(tokens, end_rest). (token # tokens, end_rest))) (read_fields n (sep # rest))"
proof -
  obtain c cs where token: "token = c # cs" using assms(1) by (cases token) auto
  have skip: "dropWhile bytes_space (gap @ token @ sep # rest) = token @ sep # rest"
    using assms(2,5) by (induction gap) (auto simp: token)
  have "read_fields (Suc n) (gap @ token @ sep # rest) =
      Option.bind (token_from (token @ sep # rest)) (\<lambda>(token, after).
        Option.bind (read_fields n after) (\<lambda>r. Some (map_sum id (\<lambda>(tokens, end_rest). (token # tokens, end_rest)) r)))"
    by (subst read_fields.simps) (use assms(1,3) in \<open>simp add: skip [unfolded token append_Cons] token Let_def\<close>)
  then show ?thesis unfolding token_from_span [OF assms(2,4)] by (cases "read_fields n (sep # rest)") simp_all
qed

lemma bytes_space_plain: "bytes_space (char_of (10 :: nat))" "bytes_space CHR '' ''"
  by (simp_all add: bytes_space_def)

lemma digit_plain: "is_digit c \<Longrightarrow> \<not> bytes_space c \<and> c \<noteq> CHR ''#'' \<and> c \<noteq> CHR ''-'' \<and> c \<noteq> CHR ''+'' \<and> c \<noteq> CHR ''_''"
  by (auto simp: is_digit_def bytes_space_def Let_def)

lemma dec_nat_plain: "list_all (\<lambda>c. \<not> bytes_space c) (dec_nat n)" "hd (dec_nat n) \<noteq> CHR ''#''"
  using dec_nat_digits [of n] digit_plain hd_in_set [OF dec_nat_nonempty, of n] by (auto simp: list_all_iff)

lemma dec_int_plain:
  "dec_int i \<noteq> [] \<and> list_all (\<lambda>c. \<not> bytes_space c) (dec_int i) \<and> hd (dec_int i) \<noteq> CHR ''#''"
  using dec_nat_plain by (auto simp: dec_int_def bytes_space_def)

lemma int_token_dec_int: "int_token (dec_int i) = Inr i"
proof (cases "i < 0")
  case True
  have "int_token (dec_nat (nat (- i))) = Inr (int (nat (- i)))" by (rule int_token_dec)
  moreover have "hd (dec_nat (nat (- i))) \<noteq> CHR ''-''" "hd (dec_nat (nat (- i))) \<noteq> CHR ''+''"
    using dec_nat_digits digit_plain hd_in_set [OF dec_nat_nonempty] by blast+
  ultimately show ?thesis using True by (auto simp: dec_int_def int_token_def Let_def split: if_splits)
qed (simp add: dec_int_def int_token_dec)

text \<open>Without white space after the last field the search for its end never returns.\<close>

lemma token_from_found: "token_from rest = Some r \<Longrightarrow> rest = fst r @ snd r \<and> snd r \<noteq> [] \<and> bytes_space (hd (snd r))"
proof (erule token_from.raw_induct [rotated])
  fix f :: "string \<Rightarrow> (string \<times> string) option" and rest r
  assume IH: "\<And>rest r. f rest = Some r \<Longrightarrow> rest = fst r @ snd r \<and> snd r \<noteq> [] \<and> bytes_space (hd (snd r))"
    and step: "(if rest \<noteq> [] \<and> bytes_space (hd rest) then Some ([], rest)
          else Option.bind (f (tl rest)) (\<lambda>(token, after). Some (take 1 rest @ token, after))) = Some r"
  show "rest = fst r @ snd r \<and> snd r \<noteq> [] \<and> bytes_space (hd (snd r))"
  proof (cases "rest \<noteq> [] \<and> bytes_space (hd rest)")
    case True
    then have "r = ([], rest)" using step by simp
    then show ?thesis using True by simp
  next
    case False
    then obtain token after where found: "f (tl rest) = Some (token, after)" "r = (take 1 rest @ token, after)"
      using step by (auto split: Option.bind_splits)
    have "rest = take 1 rest @ tl rest" by (cases rest) simp_all
    then show ?thesis using IH [OF found(1)] found(2) by (metis append.assoc fst_conv snd_conv)
  qed
qed

lemma token_without_end: "list_all (\<lambda>c. \<not> bytes_space c) token \<Longrightarrow> token_from token = None"
  using token_from_found by (cases "token_from token") (force simp: list_all_iff)+

lemma read_fields_zero: "read_fields 0 pgm = Some (Inr ([], pgm))"
  by (subst read_fields.simps) simp

lemma read_written:
  assumes "int (length data) = width * height"
  shows "read_pgm (pgm_bytes width height maxval data) = Some (Inr (width, height, maxval, data))"
proof -
  let ?nl = "char_of (10 :: nat)"
  have plain: "''P5'' \<noteq> []" "list_all (\<lambda>c. \<not> bytes_space c) ''P5''" "hd ''P5'' \<noteq> CHR ''#''"
    by (simp_all add: bytes_space_def)
  have gap: "list_all bytes_space [CHR '' '']" "list_all bytes_space [?nl]" "list_all bytes_space []"
    using bytes_space_plain by simp_all
  have shape: "pgm_bytes width height maxval data =
      [] @ ''P5'' @ ?nl # dec_int width @ CHR '' '' # dec_int height @ ?nl # dec_int maxval @ ?nl # data"
    by (simp add: pgm_bytes_def)
  have three: "4 = Suc (Suc (Suc (Suc 0)))" by simp
  note dec = dec_int_plain [THEN conjunct1] dec_int_plain [THEN conjunct2, THEN conjunct1] dec_int_plain [THEN conjunct2, THEN conjunct2]
  have "read_fields 4 (pgm_bytes width height maxval data)
      = Some (Inr ([''P5'', dec_int width, dec_int height, dec_int maxval], ?nl # data))"
    unfolding shape three
      read_fields_token [OF plain bytes_space_plain(1) gap(3)]
      read_fields_token [OF dec bytes_space_plain(2) gap(2), unfolded append_Cons append_Nil]
      read_fields_token [OF dec bytes_space_plain(1) gap(1), unfolded append_Cons append_Nil]
      read_fields_token [OF dec bytes_space_plain(1) gap(2), unfolded append_Cons append_Nil]
      read_fields_zero
    by simp
  moreover have "0 \<le> width * height" "nat (width * height) = length data" using assms by linarith+
  ultimately show ?thesis using assms
    by (simp add: read_pgm_def pgm_image_def int_token_dec_int numeral_3_eq_3 Let_def not_less)
qed

section \<open>The surface\<close>

lemma fill_cells:
  "length (foldl (fill_cell w data) out cells) = length out
   \<and> (\<forall>i < length out. foldl (fill_cell w data) out cells ! i =
       (if \<exists>(row, col) \<in> set cells. nat (row * w + col) = i \<and> list_all (\<lambda>k. byte_occupied data (nat k))
            [row * w + col, row * w + col - 1, row * w + col + 1, row * w + col - w, row * w + col + w]
        then char_of UNKNOWN else out ! i))"
proof (induction cells arbitrary: out)
  case (Cons cell cells)
  obtain row col where cell: "cell = (row, col)" by (cases cell)
  have "length (fill_cell w data out cell) = length out" by (simp add: fill_cell_def cell Let_def)
  moreover have "fill_cell w data out cell ! i =
      (if nat (row * w + col) = i \<and> list_all (\<lambda>k. byte_occupied data (nat k))
            [row * w + col, row * w + col - 1, row * w + col + 1, row * w + col - w, row * w + col + w]
       then char_of UNKNOWN else out ! i)" if "i < length out" for i
    using that by (auto simp: fill_cell_def cell Let_def nth_list_update)
  ultimately show ?case using Cons [of "fill_cell w data out cell"] by (auto simp: cell)
qed simp

text \<open>The cell and its four neighbours are in the image and occupied.\<close>

definition inside_obstacle :: "string \<Rightarrow> nat \<Rightarrow> nat \<Rightarrow> nat \<Rightarrow> nat \<Rightarrow> bool" where
  "inside_obstacle data w h r c \<longleftrightarrow>
     0 < r \<and> r + 1 < h \<and> 0 < c \<and> c + 1 < w
     \<and> list_all (\<lambda>(y, x). byte_occupied data (y * w + x)) [(r, c), (r, c - 1), (r, c + 1), (r - 1, c), (r + 1, c)]"

lemma cell_number_unique:
  fixes r c r' c' w :: nat
  assumes "r * w + c = r' * w + c'" "c < w" "c' < w"
  shows "r = r' \<and> c = c'"
proof -
  have "(r * w + c) div w = r" "(r' * w + c') div w = r'" "(r * w + c) mod w = c" "(r' * w + c') mod w = c'" using assms(2,3) by simp_all
  then show ?thesis using assms(1) by simp
qed

lemma neighbour_numbers:
  fixes y x w :: nat
  assumes "0 < y" "0 < x"
  shows "map nat [int y * int w + int x, int y * int w + int x - 1, int y * int w + int x + 1, int y * int w + int x - int w,
      int y * int w + int x + int w] = map (\<lambda>(y, x). y * w + x) [(y, x), (y, x - 1), (y, x + 1), (y - 1, x), (y + 1, x)]"
proof -
  obtain y' x' where s: "y = Suc y'" "x = Suc x'" using assms by (meson gr0_implies_Suc)
  have "int y * int w + int x = int (y * w + x)" "int y * int w + int x - 1 = int (y * w + x')"
      "int y * int w + int x + 1 = int (y * w + (x + 1))" "int y * int w + int x - int w = int (y' * w + x)"
      "int y * int w + int x + int w = int ((y + 1) * w + x)"
    by (simp_all add: s algebra_simps)
  then show ?thesis using s by (simp only: list.map nat_int prod.case diff_Suc_1)
qed

lemma inside_cells:
  assumes "r < h" "c < w"
  shows "(\<exists>(row, col) \<in> set (inner_cells (int w) (int h)). nat (row * int w + col) = r * w + c
      \<and> list_all (\<lambda>k. byte_occupied data (nat k)) [row * int w + col, row * int w + col - 1, row * int w + col + 1,
           row * int w + col - int w, row * int w + col + int w]) \<longleftrightarrow> inside_obstacle data w h r c"
  (is "?lhs \<longleftrightarrow> ?rhs")
proof -
  have all: "list_all (\<lambda>k. byte_occupied data (nat k)) [int y * int w + int x, int y * int w + int x - 1, int y * int w + int x + 1,
        int y * int w + int x - int w, int y * int w + int x + int w]
      \<longleftrightarrow> list_all (\<lambda>(y, x). byte_occupied data (y * w + x)) [(y, x), (y, x - 1), (y, x + 1), (y - 1, x), (y + 1, x)]"
    if "0 < y" "0 < x" for y x
    using arg_cong [OF neighbour_numbers [OF that, of w], of "list_all (byte_occupied data)"]
    by (simp add: list.pred_map o_def case_prod_unfold)
  have cells: "(row, col) \<in> set (inner_cells (int w) (int h)) \<longleftrightarrow> 1 \<le> row \<and> row \<le> int h - 2 \<and> 1 \<le> col \<and> col \<le> int w - 2" for row col
    by (auto simp: inner_cells_def image_iff)
  show ?thesis
  proof
    assume ?lhs
    then obtain row col where cell: "1 \<le> row" "row \<le> int h - 2" "1 \<le> col" "col \<le> int w - 2" "nat (row * int w + col) = r * w + c"
        and occupied: "list_all (\<lambda>k. byte_occupied data (nat k)) [row * int w + col, row * int w + col - 1, row * int w + col + 1,
           row * int w + col - int w, row * int w + col + int w]"
      by (elim bexE) (auto simp: cells split: prod.splits)
    obtain y x where yx: "row = int y" "col = int x" using cell(1,3) nonneg_int_cases by (metis order_trans zero_le_one)
    have "y * w + x = r * w + c" using cell(5) neighbour_numbers [of y x w] cell(1,3) by (simp add: yx)
    moreover have "x < w" using cell(4) yx by linarith
    ultimately have "y = r" "x = c" using cell_number_unique assms(2) by blast+
    then show ?rhs using cell(1-4) occupied all [of y x] unfolding yx inside_obstacle_def by auto
  next
    assume rhs: ?rhs
    have "(int r, int c) \<in> set (inner_cells (int w) (int h))" using rhs by (auto simp: cells inside_obstacle_def)
    moreover have "nat (int r * int w + int c) = r * w + c" by (simp flip: of_nat_mult of_nat_add)
    moreover have "0 < r" "0 < c" using rhs by (auto simp: inside_obstacle_def)
    ultimately show ?lhs using all [of r c] rhs unfolding inside_obstacle_def by blast
  qed
qed

text \<open>C39: For every image, the surface-only copy of its file reads back as an image of the same size in which exactly the cells
  inside an obstacle, with four occupied neighbours, are unknown, and every other cell is as before.\<close>
theorem surface_keeps_outline:
  assumes "length data = w * h"
  shows "\<exists>out. surface_only_pgm (pgm_bytes (int w) (int h) maxval data) = Some (Inr (pgm_bytes (int w) (int h) maxval out))
    \<and> read_pgm (pgm_bytes (int w) (int h) maxval out) = Some (Inr (int w, int h, maxval, out)) \<and> length out = w * h
    \<and> (\<forall>r < h. \<forall>c < w. out ! (r * w + c) = (if inside_obstacle data w h r c then char_of UNKNOWN else data ! (r * w + c)))"
proof -
  let ?out = "surface_data (int w) (int h) data"
  have size: "length ?out = length data" using fill_cells by (simp add: surface_data_def)
  have number: "r * w + c < length data" if "r < h" "c < w" for r c
  proof -
    have "r * w + c < (r + 1) * w" using that(2) by simp
    also have "\<dots> \<le> h * w" using that(1) by (intro mult_le_mono1) simp
    finally show ?thesis using assms by (simp add: mult.commute)
  qed
  have "?out ! (r * w + c) = (if inside_obstacle data w h r c then char_of UNKNOWN else data ! (r * w + c))" if "r < h" "c < w" for r c
    using fill_cells [of "int w" data data "inner_cells (int w) (int h)"] number [OF that] inside_cells [OF that, of data]
    unfolding surface_data_def by presburger
  moreover have "read_pgm (pgm_bytes (int w) (int h) maxval data) = Some (Inr (int w, int h, maxval, data))"
      "read_pgm (pgm_bytes (int w) (int h) maxval ?out) = Some (Inr (int w, int h, maxval, ?out))"
    using assms size by (auto intro!: read_written)
  ultimately show ?thesis using assms size by (intro exI [of _ ?out]) (simp add: surface_only_pgm_def)
qed

text \<open>A file that ends with its header is read for ever.\<close>

lemma header_without_end: "read_pgm ''P5 1 1 255'' = None"
proof -
  have plain: "list_all (\<lambda>c. \<not> bytes_space c) ''P5''" "list_all (\<lambda>c. \<not> bytes_space c) ''1''"
      "list_all (\<lambda>c. \<not> bytes_space c) ''255''" "bytes_space CHR '' ''" "list_all bytes_space [CHR '' '']"
    by (simp_all add: bytes_space_def)
  have field: "read_fields (Suc n) (gap @ token @ CHR '' '' # rest)
      = map_option (map_sum id (\<lambda>(tokens, end_rest). (token # tokens, end_rest))) (read_fields n (CHR '' '' # rest))"
    if "token \<in> {''P5'', ''1''}" "gap \<in> {[], '' ''}" for token gap n rest
    by (rule read_fields_token) (use that plain in auto)
  have last_field: "read_fields (Suc 0) ('' '' @ ''255'') = None"
    by (subst read_fields.simps) (simp add: bytes_space_def token_without_end Let_def)
  have "read_fields 4 ''P5 1 1 255'' = None"
    using field [of "''P5''" "[]" 3 "''1 1 255''"] field [of "''1''" "'' ''" 2 "''1 255''"] field [of "''1''" "'' ''" 1 "''255''"] last_field
    by (simp add: numeral_eq_Suc)
  then show ?thesis by (simp add: read_pgm_def)
qed

text \<open>A block of three by three: only its centre is inside.\<close>

lemma surface_keeps_outline_witness:
  "\<exists>out. surface_only_pgm (pgm_bytes 3 3 255 (replicate 9 (char_of OCCUPIED))) = Some (Inr (pgm_bytes 3 3 255 out))
     \<and> out ! 4 = char_of UNKNOWN \<and> out ! 1 = char_of OCCUPIED"
proof -
  let ?data = "replicate 9 (char_of OCCUPIED) :: string"
  have size: "length ?data = 3 * 3" by simp
  have dark: "byte_occupied ?data i" if "i < 9" for i using that by (simp add: byte_occupied_def OCCUPIED_def OCCUPIED_BELOW_def)
  have "inside_obstacle ?data 3 3 1 1" "\<not> inside_obstacle ?data 3 3 0 1" using dark by (simp_all add: inside_obstacle_def)
  moreover obtain out where out: "surface_only_pgm (pgm_bytes (int 3) (int 3) 255 ?data) = Some (Inr (pgm_bytes (int 3) (int 3) 255 out))"
      "\<forall>r < 3. \<forall>c < 3. out ! (r * 3 + c) = (if inside_obstacle ?data 3 3 r c then char_of UNKNOWN else ?data ! (r * 3 + c))"
    using surface_keeps_outline [OF size, of 255] by blast
  moreover have "?data ! 1 = char_of OCCUPIED" by simp
  ultimately show ?thesis using out(2) [rule_format, of 1 1] out(2) [rule_format, of 0 1] by (intro exI [of _ out]) simp
qed

end
