(* ===== verification/Spec2Isabelle.thy ===== *)
theory Spec2Isabelle
  imports Mux_Safety Supervisor_Safety Gateway_Safety Backend_Safety Stream_Replay Target_Gate Reset_Safety Gripper_Safety
    Reconciler_Safety Base_Safety Occupancy_Spec Mesh_Safety Fixture_Run
    Episode_Safety Bringup_Safety Readiness_Safety Truth_Safety Contract_Safety Amcl_Safety
begin

text \<open>
  A verification of the control path of the Tinker robot simulator.

  The program runs a robot in Isaac Sim behind ROS topics that look like the hardware's. A command
  travels through five parts. A facade (\<open>base_facade.py\<close>, \<open>gripper_facade.py\<close>) turns an action or a
  velocity into joint commands. The command gateway (\<open>command_gateway.py\<close>) feeds the commands of all
  sources to the multiplexer (\<open>command_mux.py\<close>), which gives every joint one owner, and publishes
  what it composes as numbered snapshots of packets. The simulator's gateway (\<open>ros_gateway.py\<close>)
  accepts the packets of one session in order and hands them to the backend (\<open>backend.py\<close>), which
  applies whole snapshots and computes the drive targets of every physics step. Across all of them
  runs the safety stop: the supervisor (\<open>safety_supervisor.py\<close>) fuses the safety sources and
  publishes one stop, and each part holds still when it is stopped or when its heartbeat or its
  command stream is late. Beside that path are the reset of a running simulation
  (\<open>scoped_reset.py\<close>), the start of the controllers (\<open>controller_reconciler.py\<close>), the map of the
  arena (\<open>occupancy.py\<close>), the scenarios and their operations (\<open>scenario.py\<close>, \<open>orchestration.py\<close>), and the
  node that puts the fixtures of a scenario into the planning scene (\<open>fixture_planning_scene_node.py\<close>).

  A scenario is brought up in turns that watch each other. The runner (\<open>scenario_runner.py\<close>) calls the simulator's
  services in the order of the operations and writes a report (\<open>integrated_readiness.py\<close>); the gate
  (\<open>physics_ready_gate.py\<close>) validates the report and answers the waiter (\<open>readiness_waiter.py\<close>); the fixture node starts
  behind the gate; the contract guard (\<open>contract_guard.py\<close>), the joint state probe (\<open>joint_state_probe.py\<close>) and the
  readiness evaluation check the running graph; the truth evaluator (\<open>truth_evaluator.py\<close>) judges the task.

  \<^bold>\<open>Theories and code.\<close>

  \<^item> \<open>Sim_Prelude\<close>: floats, exceptions as values, strings, dictionaries as association lists, and the
    two contracts several components share, \<open>codec\<close> with \<open>canonical_codec\<close> (an encoder and its decoder)
    and \<open>event_invariant\<close> (an invariant every event keeps holds after every run).
  \<^item> \<open>Command_Wire\<close>: epochs, snapshot packets, frame IDs and joint commands of \<open>command_mux.py\<close>, bit by
    bit; its interpretations of the codecs are the round trips of the wire format.
  \<^item> \<open>Command_Mux\<close>, \<open>Mux_Safety\<close>: \<open>JointCommandMux\<close>. \<open>mux\<close> is its state, \<open>mux_accept\<close>, \<open>mux_observe\<close>,
    \<open>mux_compose\<close> and \<open>mux_stop\<close> its methods. Snapshots drive each joint once, held poses stay frozen,
    a stop latches and what was commanded before it is gone.
  \<^item> \<open>Safety_Supervisor\<close>, \<open>Supervisor_Safety\<close>: \<open>SafetySourceTracker\<close>, \<open>SafetySupervisor\<close> and
    \<open>effective_stop\<close> (\<open>safety_gating.py\<close>). A release needs fresh sources, a confirmed controller and no
    pending transition; the controller is activated only on evidence that it was active.
  \<^item> \<open>Command_Gateway\<close>, \<open>Gateway_Safety\<close>: \<open>CommandGateway\<close> with its multiplexer. Frames carry increasing
    numbers that decode, a lost heartbeat only lets safe packets out, callbacks do not raise.
  \<^item> \<open>Backend_Commands\<close>, \<open>Backend_Safety\<close>: the command half of \<open>IsaacWholeRobotBackend\<close>: staging,
    validation, application, stop, the hold of a stopped arm (\<open>apply_safety_hold\<close>), wheel slew, gripper ramp,
    referee hold, and the seeding of the targets from a rebuilt view (\<open>bind_robot\<close>). A snapshot applies as a whole, a
    stop holds the measured pose with no more than a bounded gravity feed-forward, the vectorised slew is the scalar one.
  \<^item> \<open>Sim_Gateway\<close>, \<open>Stream_Safety\<close>, \<open>Stream_Baseline\<close>, \<open>Stream_Replay\<close>: the session protocol of \<open>RosStandardGateway\<close> over
    that backend: its queue, epochs, baselines, contiguity and deadlines. The backend moves only
    while the gate is clear and a whole baseline was committed; the numbers of all accepted packets of a session,
    those of a baseline included, increase.
  \<^item> \<open>Target_Gate\<close>: \<open>target_write_gate.py\<close> and its use in \<open>step\<close>, with the handles of the robot's view and their
    recovery after a failed call. Skipping unchanged writes cannot be told from writing always. The locale \<open>target_equality\<close> states what the comparison must promise;
    floats and tensors are its interpretations.
  \<^item> \<open>Scoped_Reset\<close>, \<open>Reset_Safety\<close>: \<open>scoped_reset.py\<close>. The coroutine is a state machine whose phases are
    its awaits; \<open>reset_step\<close> also has the ROS samples, other requests and the robot's motion. The
    state is rewritten alone and only after the stop was observed; exactly the bodies found at the last idle moment get
    their registered state back; the outcome is truthful.
  \<^item> \<open>Gripper_Facade\<close>, \<open>Gripper_Safety\<close>: \<open>gripper_facade.py\<close>. Threads interleave at the sections under the
    lock; messages go out later. A stop silences the gripper, success is honest.
  \<^item> \<open>Base_Parity\<close>, \<open>Base_Safety\<close>: \<open>calibration.py\<close>, \<open>base.py\<close> and \<open>base_facade.py\<close>. Wheel commands are
    bounded, the watchdog stops them, odometry inverts the kinematics and never raises.
  \<^item> \<open>Controller_Reconciler\<close>, \<open>Reconciler_Safety\<close>: \<open>controller_reconciler.py\<close> against an arbitrary
    controller manager, given by the replies of its four calls. Success is proven by a listing, and
    a manager that loses few operations is brought up.
  \<^item> \<open>Occupancy\<close>, \<open>Occupancy_Spec\<close>: \<open>occupancy.py\<close>. Rectangles tile the occupied cells, the vectorised
    ray cast is the scalar one, a written image reads back, the search for free space ends.
  \<^item> \<open>Py_Values\<close>: outcomes in sequence (\<open>bind\<close>, \<open>each\<close>) and what the code uses of Python's text functions,
    builtins and comparisons on JSON values.
  \<^item> \<open>Mesh_Assets\<close>, \<open>Mesh_Safety\<close>: \<open>fixture_planning_scene.py\<close>, its declared fixtures and its meshes in STL and
    OBJ. A mesh that loads is well formed, a binary file is read as it is laid out.
  \<^item> \<open>Fixture_Contract\<close>, \<open>Fixture_Safety\<close>: \<open>fixture_contract.py\<close>. The atomic diff replaces the fixtures of a
    scene and nothing else, whatever a status says, a revision is confirmed exactly if scene, geometry and status agree with
    it, and an object that comes back over the wire, its mesh in single precision, has its declared geometry.
  \<^item> \<open>Fixture_Node\<close>, \<open>Fixture_Run\<close>: \<open>fixture_planning_scene_node.py\<close> with \<open>step_service\<close> of
    \<open>contract_guard.py\<close>. \<open>fixture_phase\<close> is the phase of the node, \<open>fn_tick\<close> its timer callback, a service call a view of
    its future. Readiness has its evidence in order, and services that answer bring it about.
  \<^item> \<open>Episode\<close>, \<open>Episode_Safety\<close>: \<open>control.py\<close>, \<open>actor_path.py\<close>, \<open>evaluator.py\<close> and \<open>physics_rate.py\<close>. The clock does
    not run backwards, a walker is where its path says, scoring raises for no value but an integer beyond the
    floats, accepted rates fit together.
  \<^item> \<open>Scenario\<close>, \<open>Scenario_Safety\<close>: \<open>scenario.py\<close> and \<open>orchestration.py\<close>. A validated scenario is one the fixture
    node can start from, and its operations stop, spawn and start in that order.
  \<^item> \<open>Report\<close>, \<open>Report_Safety\<close>: the report half of \<open>integrated_readiness.py\<close>: \<open>build_canonical_report\<close>,
    \<open>parse_canonical_report\<close>, \<open>validate_report\<close>. A report that is built, written and read back passes its validation.
  \<^item> \<open>Scenario_Runner\<close>, \<open>Physics_Gate\<close>, \<open>Bringup_Safety\<close>: \<open>scenario_runner.py\<close>, \<open>physics_ready_gate.py\<close> and
    \<open>readiness_waiter.py\<close>. \<open>runner\<close> records the calls made, \<open>gate\<close> the decision. Accepted requests are a prefix of the
    operations, the gate decides once, a verified run opens it, and the waiter ends.
  \<^item> \<open>Readiness\<close>, \<open>Readiness_Safety\<close>: the evaluation of \<open>integrated_readiness.py\<close>; each numbered check of the code is a
    section. A verdict of ready means that every observation was made and agrees with the contract.
  \<^item> \<open>Truth_Evaluator\<close>, \<open>Truth_Safety\<close>: \<open>truth_evaluator.py\<close>. \<open>truth_core\<close> is the state of the evaluator, \<open>on_truth\<close> the
    callback of its node. Retention is said only at the end of a window in which the object was held; the invariant
    \<open>tracked\<close> ties the state to the frames that were seen.
  \<^item> \<open>Graph_Contract\<close>, \<open>Joint_Probe\<close>, \<open>Contract_Safety\<close>: \<open>contract_guard.py\<close> and \<open>joint_state_probe.py\<close>, whose two requests
    are driven by the \<open>step_service\<close> of the fixture node. The guard passes exactly the graphs of its profile, the
    probe only a proved source of fresh joint states.
  \<^item> \<open>Amcl_Map\<close>, \<open>Amcl_Safety\<close>: \<open>amcl_map.py\<close>. The copy for localisation loses exactly the insides of the obstacles.

  \<^bold>\<open>Conventions.\<close> A method is a function from its arguments and the state to the new state; where it can
  raise, also to a result of type \<open>'a res\<close>, and the state is the one left behind when it raises.
  Every reading of a clock, of the simulation time or of the measured joints is an argument, so the
  theorems hold for all values, NaN and infinities included, unless they say otherwise. Calls of
  Isaac Sim, PyTorch and ROS are arguments that give what the call returned. Publications and log
  entries that a theorem speaks of are lists in the state. Python floats are exact rationals with
  infinities and NaN: their rounding and the overflow of float arithmetic are not modelled, and square roots and
  trigonometric functions are arguments. Converting an integer that does not round to a float raises, as in Python
  (\<open>int_float\<close>). The text of an integer has no limit on its digits here; Python's is 4300.

  \<^bold>\<open>Bounds and termination.\<close> Integers are unbounded as in Python; the wire format checks its widths
  (32-bit sessions and generations, 31-bit snapshot numbers, 16-bit packet counts and indices), and \<open>gateway_never_raises\<close>
  says under which counts a run stays inside them. At most 64 retired epochs and sessions are kept
  (\<open>MAX_RETIRED_COMMAND_EPOCHS\<close>); \<open>applied_packets_increase\<close> is stated for runs that retire fewer sessions. Loops that may not end are
  \<open>partial_function (option)\<close> with the value \<open>None\<close> for a loop that does not return; the theorems on ray casting and on free space
  show that they return for a positive resolution; reading a map that \<open>amcl_map.py\<close> can have written returns, and one cut
  off after its header does not (\<open>header_without_end\<close>). No fuel is used.

  \<^bold>\<open>Not modelled.\<close> Scene construction, rendering, cameras, lidar and truth reports of the backend, which
  call Isaac Sim; the legacy command protocol, which the gateway's constructor disables; creation of ROS nodes and
  parsing of arguments; the launch files; the node that takes the observations for the readiness evaluation from the
  ROS graph (\<open>integrated_readiness_node.py\<close>), and the checks of model files (\<open>model_contract.py\<close>,
  \<open>model_preflight.py\<close>), which parse XML and hash files; small facades without state of their own; the executors, verifiers and
  evidence indices under \<open>src/validation\<close>, and the deployment and asset tools, which work on processes and files.
\<close>

end
